(* ===== verification/Prelude.thy ===== *)
theory Prelude
  imports Main "HOL-Library.AList" "HOL-Library.Word"
begin

text \<open>
  Shared vocabulary of the development: bytes, UUIDs, UTC instants, Python dictionaries
  (association lists in insertion order, updated in place as \<^const>\<open>AList.update\<close> does),
  sums over dictionary values, and big-endian integer encodings.  The lemmas on dictionaries
  and sums are collected in \<open>dict_simps\<close> and carry the accounting proofs of every
  component that keeps a running total next to a dictionary.
\<close>

named_theorems dict_simps \<open>rewrite rules for insertion-ordered dictionaries\<close>
named_theorems bytes_simps \<open>rewrite rules for byte strings and encodings\<close>


section \<open>Bytes and integers\<close>

type_synonym byte = "8 word"
type_synonym bytes = "byte list"

text \<open>\<open>len bs\<close> is Python's \<^verbatim>\<open>len\<close> on a byte string, an unbounded integer.\<close>

abbreviation len :: "'a list \<Rightarrow> int" where
  "len xs \<equiv> int (length xs)"

text \<open>\<^verbatim>\<open>n.to_bytes(k, "big")\<close> for \<open>n < 256 ^ k\<close>.\<close>

fun to_bytes_be :: "nat \<Rightarrow> nat \<Rightarrow> bytes" where
  "to_bytes_be 0 n = []"
| "to_bytes_be (Suc k) n = to_bytes_be k (n div 256) @ [of_nat n]"

fun from_bytes_be :: "nat \<Rightarrow> bytes \<Rightarrow> nat" where
  "from_bytes_be acc [] = acc"
| "from_bytes_be acc (b # bs) = from_bytes_be (256 * acc + unat b) bs"

lemma length_to_bytes_be [simp, bytes_simps]: "length (to_bytes_be k n) = k"
  by (induction k arbitrary: n) auto

lemma from_bytes_be_append: "from_bytes_be acc (xs @ [b]) = 256 * from_bytes_be acc xs + unat b"
  by (induction xs arbitrary: acc) auto

lemma from_to_bytes_be: "from_bytes_be 0 (to_bytes_be k n) = n mod 256 ^ k"
proof (induction k arbitrary: n)
  case 0
  then show ?case by simp
next
  case (Suc k)
  have "unat (of_nat n :: byte) = n mod 256"
    by (simp add: unat_of_nat)
  then show ?case
    using Suc.IH [of "n div 256"]
    by (simp add: from_bytes_be_append mod_mult2_eq)
qed

lemma to_bytes_be_inject:
  assumes "n < 256 ^ k" and "m < 256 ^ k"
  shows "to_bytes_be k n = to_bytes_be k m \<longleftrightarrow> n = m"
  by (metis assms from_to_bytes_be mod_less)

text \<open>ASCII text as bytes (\<^verbatim>\<open>str.encode()\<close> on the ASCII strings of the protocol).\<close>

definition encode :: "string \<Rightarrow> bytes" where
  "encode s = map (of_char :: char \<Rightarrow> byte) s"

lemma length_encode [simp, bytes_simps]: "length (encode s) = length s"
  by (simp add: encode_def)

lemma of_char_byte_inject: "(of_char c :: byte) = of_char d \<longleftrightarrow> c = d"
proof
  assume eq: "(of_char c :: byte) = of_char d"
  have "unat (of_char x :: byte) = of_char x" for x
    by (simp add: of_char_def unat_of_nat)
  then show "c = d"
    by (metis eq of_char_eq_iff)
qed simp

lemma encode_inject [simp, bytes_simps]: "encode s = encode t \<longleftrightarrow> s = t"
  using of_char_byte_inject by (auto simp: encode_def intro: map_injective injI)


text \<open>\<^verbatim>\<open>bytes.hex()\<close>: two lowercase hexadecimal digits per byte.\<close>

definition hex_digit :: "nat \<Rightarrow> char" where
  "hex_digit n = ''0123456789abcdef'' ! (n mod 16)"

definition hex_byte :: "byte \<Rightarrow> string" where
  "hex_byte b = [hex_digit (unat b div 16), hex_digit (unat b)]"

definition hex :: "bytes \<Rightarrow> string" where
  "hex bs = concat (map hex_byte bs)"

lemma length_hex [simp, bytes_simps]: "length (hex bs) = 2 * length bs"
  by (induction bs) (auto simp: hex_def hex_byte_def)

lemma hex_digit_inject:
  assumes "n < 16" and "m < 16"
  shows "hex_digit n = hex_digit m \<longleftrightarrow> n = m"
proof -
  have "distinct ''0123456789abcdef''" by simp
  moreover have "n < length ''0123456789abcdef''" "m < length ''0123456789abcdef''"
    using assms by simp_all
  ultimately show ?thesis
    using assms unfolding hex_digit_def by (simp add: nth_eq_iff_index_eq)
qed

lemma hex_digit_mod: "hex_digit (n mod 16) = hex_digit n"
  by (simp add: hex_digit_def)

lemma hex_byte_inject: "hex_byte a = hex_byte b \<longleftrightarrow> a = b"
proof
  assume eq: "hex_byte a = hex_byte b"
  have lt: "unat x div 16 < 16" for x :: byte
    using unsigned_less [of x, where 'a = nat] by (simp add: less_mult_imp_div_less)
  have "unat a div 16 = unat b div 16"
    using eq hex_digit_inject [OF lt lt] by (simp add: hex_byte_def)
  moreover have "unat a mod 16 = unat b mod 16"
    using eq hex_digit_inject [of "unat a mod 16" "unat b mod 16"]
    by (simp add: hex_byte_def hex_digit_mod)
  ultimately have "unat a = unat b"
    by (metis div_mult_mod_eq)
  then show "a = b" by (simp add: word_unat_eq_iff)
qed simp

lemma hex_inject: "hex a = hex b \<longleftrightarrow> a = b"
proof (induction a arbitrary: b)
  case Nil
  then show ?case by (cases b) (auto simp: hex_def hex_byte_def)
next
  case (Cons x a)
  show ?case
  proof (cases b)
    case Nil
    then show ?thesis by (simp add: hex_def hex_byte_def)
  next
    case (Cons y b')
    have "hex (x # a) = hex (y # b') \<longleftrightarrow> hex_byte x = hex_byte y \<and> hex a = hex b'"
      by (auto simp: hex_def hex_byte_def)
    then show ?thesis
      using Cons.IH Cons by (simp add: hex_byte_inject)
  qed
qed

text \<open>\<^verbatim>\<open>str(n)\<close> for a non-negative integer: its decimal digits.\<close>

fun show_nat :: "nat \<Rightarrow> string" where
  "show_nat n = (if n < 10 then [char_of (48 + n)]
                 else show_nat (n div 10) @ [char_of (48 + n mod 10)])"

declare show_nat.simps [simp del]

fun read_nat :: "nat \<Rightarrow> string \<Rightarrow> nat" where
  "read_nat acc [] = acc"
| "read_nat acc (c # cs) = read_nat (10 * acc + (of_char c - 48)) cs"

lemma read_nat_append: "read_nat acc (xs @ [c]) = 10 * read_nat acc xs + (of_char c - 48)"
  by (induction xs arbitrary: acc) auto

lemma of_char_digit: "n < 10 \<Longrightarrow> (of_char (char_of (48 + n) :: char) :: nat) = 48 + n"
  by (simp add: of_char_of)

lemma read_show_nat: "read_nat 0 (show_nat n) = n"
proof (induction n rule: show_nat.induct)
  case (1 n)
  show ?case
  proof (cases "n < 10")
    case True
    then show ?thesis by (simp add: show_nat.simps [of n] of_char_digit)
  next
    case False
    then show ?thesis
      using 1 by (simp add: show_nat.simps [of n] read_nat_append of_char_digit)
  qed
qed

lemma show_nat_inject [simp]: "show_nat n = show_nat m \<longleftrightarrow> n = m"
  by (metis read_show_nat)

text \<open>\<^verbatim>\<open>str(n)\<close> for an integer of either sign.\<close>

definition show_int :: "int \<Rightarrow> string" where
  "show_int i = (if i < 0 then CHR ''-'' # show_nat (nat (- i)) else show_nat (nat i))"


section \<open>UUIDs\<close>

text \<open>
  A UUID is its 128-bit integer; the version is meaningful for the RFC 4122 variant only,
  as in Python's \<^verbatim>\<open>uuid.UUID.version\<close>.
\<close>

datatype uuid = UUID (uuid_int: "128 word")

definition uuid_rfc4122 :: "uuid \<Rightarrow> bool" where
  "uuid_rfc4122 u \<longleftrightarrow> unat (uuid_int u) div 2 ^ 62 mod 4 = 2"

definition uuid_version :: "uuid \<Rightarrow> nat option" where
  "uuid_version u =
     (if uuid_rfc4122 u then Some (unat (uuid_int u) div 2 ^ 76 mod 16) else None)"

definition uuid4 :: "uuid \<Rightarrow> bool" where
  "uuid4 u \<longleftrightarrow> uuid_version u = Some 4"

definition uuid_bytes :: "uuid \<Rightarrow> bytes" where
  "uuid_bytes u = to_bytes_be 16 (unat (uuid_int u))"

lemma length_uuid_bytes [simp, bytes_simps]: "length (uuid_bytes u) = 16"
  by (simp add: uuid_bytes_def)

lemma uuid_bytes_inject [simp, bytes_simps]: "uuid_bytes u = uuid_bytes v \<longleftrightarrow> u = v"
proof -
  have lt: "unat (w :: 128 word) < 256 ^ 16" for w
    using unsigned_less [of w, where 'a = nat] by simp
  show ?thesis
    by (cases u; cases v) (simp add: uuid_bytes_def to_bytes_be_inject [OF lt lt] word_unat_eq_iff)
qed

text \<open>
  \<^verbatim>\<open>str(uuid)\<close> is fixed-width lowercase hexadecimal, so sorting by it is sorting by
  the integer: the order of the type.
\<close>

instantiation uuid :: linorder
begin

definition less_eq_uuid :: "uuid \<Rightarrow> uuid \<Rightarrow> bool" where
  "less_eq_uuid u v \<longleftrightarrow> uuid_int u \<le> uuid_int v"

definition less_uuid :: "uuid \<Rightarrow> uuid \<Rightarrow> bool" where
  "less_uuid u v \<longleftrightarrow> uuid_int u < uuid_int v"

instance
  by standard (auto simp: less_eq_uuid_def less_uuid_def uuid.expand)

end


section \<open>Instants\<close>

text \<open>
  A Python \<^verbatim>\<open>datetime\<close>: its instant in microseconds since the epoch (the wall clock read
  as if it were UTC when naive) and its \<^verbatim>\<open>utcoffset()\<close>, which is absent for a naive value.
\<close>

datatype datetime = Datetime (instant: int) (utcoffset: "int option")

definition is_utc :: "datetime \<Rightarrow> bool" where
  "is_utc d \<longleftrightarrow> utcoffset d = Some 0"

abbreviation utc :: "int \<Rightarrow> datetime" where
  "utc t \<equiv> Datetime t (Some 0)"

text \<open>\<^verbatim>\<open>datetime.max\<close> as an instant: adding past it raises \<^verbatim>\<open>OverflowError\<close>.\<close>

definition max_instant :: int where
  "max_instant = 253402300799999999"

abbreviation seconds :: "int \<Rightarrow> int" where
  "seconds n \<equiv> 1000000 * n"

abbreviation days :: "int \<Rightarrow> int" where
  "days n \<equiv> seconds (86400 * n)"


section \<open>Dictionaries\<close>

text \<open>
  A Python \<^verbatim>\<open>dict\<close> is an association list with distinct keys: \<^const>\<open>AList.update\<close> overwrites in
  place or appends, \<^const>\<open>AList.delete\<close> removes the key, \<^const>\<open>map_of\<close> looks it up.
\<close>

type_synonym ('k, 'v) dict = "('k \<times> 'v) list"

definition wf_dict :: "('k, 'v) dict \<Rightarrow> bool" where
  "wf_dict d \<longleftrightarrow> distinct (map fst d)"

abbreviation keys :: "('k, 'v) dict \<Rightarrow> 'k set" where
  "keys d \<equiv> fst ` set d"

definition sum_vals :: "('v \<Rightarrow> int) \<Rightarrow> ('k, 'v) dict \<Rightarrow> int" where
  "sum_vals f d = sum_list (map (f \<circ> snd) d)"

lemma wf_dict_Nil [simp, dict_simps]: "wf_dict []"
  by (simp add: wf_dict_def)

lemma wf_dict_Cons [simp, dict_simps]:
  "wf_dict ((k, v) # d) \<longleftrightarrow> k \<notin> keys d \<and> wf_dict d"
  by (simp add: wf_dict_def)

lemma wf_dict_update [simp, dict_simps]: "wf_dict d \<Longrightarrow> wf_dict (AList.update k v d)"
  by (simp add: wf_dict_def distinct_update)

lemma wf_dict_delete [simp, dict_simps]: "wf_dict d \<Longrightarrow> wf_dict (AList.delete k d)"
  by (simp add: wf_dict_def distinct_delete)

lemma wf_dict_map_of: "wf_dict d \<Longrightarrow> map_of d k = Some v \<longleftrightarrow> (k, v) \<in> set d"
  by (simp add: wf_dict_def map_of_eq_Some_iff)

lemma keys_map_of: "k \<in> keys d \<longleftrightarrow> (\<exists>v. map_of d k = Some v)"
  by (metis domD domI dom_map_of_conv_image_fst)

lemma sum_vals_simps [simp, dict_simps]:
  "sum_vals f [] = 0"
  "sum_vals f ((k, v) # d) = f v + sum_vals f d"
  by (simp_all add: sum_vals_def)

lemma sum_vals_update_new [dict_simps]:
  "map_of d k = None \<Longrightarrow> sum_vals f (AList.update k v d) = sum_vals f d + f v"
  by (induction d) (auto simp: sum_vals_def split: if_splits)

lemma sum_vals_update_old [dict_simps]:
  "map_of d k = Some u \<Longrightarrow> sum_vals f (AList.update k v d) = sum_vals f d - f u + f v"
  by (induction d) (auto simp: sum_vals_def split: if_splits)

lemma sum_vals_delete [dict_simps]:
  "wf_dict d \<Longrightarrow> map_of d k = Some u \<Longrightarrow>
     sum_vals f (AList.delete k d) = sum_vals f d - f u"
proof (induction d)
  case (Cons a d)
  show ?case
  proof (cases "fst a = k")
    case True
    then have "AList.delete k d = d"
      using Cons.prems by (cases a) simp
    then show ?thesis using True Cons.prems by (cases a) simp
  next
    case False
    then show ?thesis using Cons by (cases a) simp
  qed
qed simp

lemma sum_vals_nonneg: "(\<And>k v. (k, v) \<in> set d \<Longrightarrow> 0 \<le> f v) \<Longrightarrow> 0 \<le> sum_vals f d"
  by (force simp: sum_vals_def intro: sum_list_nonneg)

lemma sum_vals_ge:
  assumes "map_of d k = Some v" and "\<And>k v. (k, v) \<in> set d \<Longrightarrow> 0 \<le> f v"
  shows "f v \<le> sum_vals f d"
proof -
  have "f v \<in> set (map (f \<circ> snd) d)"
    using map_of_SomeD [OF assms(1)] by force
  moreover have "\<forall>x \<in> set (map (f \<circ> snd) d). 0 \<le> x"
    using assms(2) by auto
  ultimately show ?thesis
    unfolding sum_vals_def by (metis member_le_sum_list)
qed

lemma sum_vals_cong: "(\<And>k v. (k, v) \<in> set d \<Longrightarrow> f v = g v) \<Longrightarrow> sum_vals f d = sum_vals g d"
  unfolding sum_vals_def by (intro arg_cong [where f = sum_list] map_cong) auto

lemma set_update_dict:
  "wf_dict d \<Longrightarrow> set (AList.update k v d) = insert (k, v) {p \<in> set d. fst p \<noteq> k}"
  by (induction d) (auto simp: rev_image_eqI)

lemma length_update_new: "map_of d k = None \<Longrightarrow> length (AList.update k v d) = Suc (length d)"
  by (induction d) (auto split: if_splits)

lemma length_update_old: "map_of d k = Some u \<Longrightarrow> length (AList.update k v d) = length d"
  by (induction d) (auto split: if_splits)

lemma map_of_update_eq [simp, dict_simps]:
  "map_of (AList.update k v d) k' = (if k' = k then Some v else map_of d k')"
  by (simp add: update_conv')

lemma map_of_delete_eq [simp, dict_simps]:
  "map_of (AList.delete k d) k' = (if k' = k then None else map_of d k')"
  by (simp add: delete_conv')

end
