(* ===== verification/Regex.thy ===== *)
theory Regex
  imports Prelude
begin

text \<open>
  The fragment of Python's \<^verbatim>\<open>re\<close> syntax that the repository's patterns use: character
  classes, concatenation, alternation and counted repetition.  \<open>fullmatch\<close> is executable
  (Brzozowski derivatives with smart constructors) and is proved to decide membership in the
  language the pattern denotes.  The component theories write each \<^verbatim>\<open>re.compile\<close> of the
  source as one \<open>rx\<close> term and use \<open>fullmatch\<close> where the code calls
  \<^verbatim>\<open>pattern.fullmatch(value)\<close>.
\<close>

datatype rx =
    Empty
  | Eps
  | Cls string
  | Cat rx rx
  | Alt rx rx
  | Rep rx nat "nat option"

text \<open>\<open>Rep r lo (Some hi)\<close> is \<^verbatim>\<open>r{lo,hi}\<close>, \<open>Rep r lo None\<close> is \<^verbatim>\<open>r{lo,}\<close>.\<close>

definition conc :: "string set \<Rightarrow> string set \<Rightarrow> string set" where
  "conc A B = {u @ v | u v. u \<in> A \<and> v \<in> B}"

fun pow_lang :: "string set \<Rightarrow> nat \<Rightarrow> string set" where
  "pow_lang A 0 = {[]}"
| "pow_lang A (Suc n) = conc A (pow_lang A n)"

definition below :: "nat \<Rightarrow> nat option \<Rightarrow> bool" where
  "below n hi \<longleftrightarrow> (case hi of None \<Rightarrow> True | Some h \<Rightarrow> n \<le> h)"

fun lang :: "rx \<Rightarrow> string set" where
  "lang Empty = {}"
| "lang Eps = {[]}"
| "lang (Cls cs) = {[c] | c. c \<in> set cs}"
| "lang (Cat r s) = conc (lang r) (lang s)"
| "lang (Alt r s) = lang r \<union> lang s"
| "lang (Rep r lo hi) = {w. \<exists>k. lo \<le> k \<and> below k hi \<and> w \<in> pow_lang (lang r) k}"


section \<open>Derivatives\<close>

fun nullable :: "rx \<Rightarrow> bool" where
  "nullable Empty = False"
| "nullable Eps = True"
| "nullable (Cls cs) = False"
| "nullable (Cat r s) = (nullable r \<and> nullable s)"
| "nullable (Alt r s) = (nullable r \<or> nullable s)"
| "nullable (Rep r lo hi) = (below lo hi \<and> (lo = 0 \<or> nullable r))"

fun cat :: "rx \<Rightarrow> rx \<Rightarrow> rx" where
  "cat Empty s = Empty"
| "cat Eps s = s"
| "cat r s = (if s = Empty then Empty else Cat r s)"

fun alt :: "rx \<Rightarrow> rx \<Rightarrow> rx" where
  "alt Empty s = s"
| "alt r s = (if s = Empty then r else if r = s then r else Alt r s)"

fun deriv :: "char \<Rightarrow> rx \<Rightarrow> rx" where
  "deriv c Empty = Empty"
| "deriv c Eps = Empty"
| "deriv c (Cls cs) = (if c \<in> set cs then Eps else Empty)"
| "deriv c (Cat r s) =
     (if nullable r then alt (cat (deriv c r) s) (deriv c s) else cat (deriv c r) s)"
| "deriv c (Alt r s) = alt (deriv c r) (deriv c s)"
| "deriv c (Rep r lo hi) =
     (case hi of
        None \<Rightarrow> cat (deriv c r) (Rep r (lo - 1) None)
      | Some 0 \<Rightarrow> Empty
      | Some (Suc h) \<Rightarrow> cat (deriv c r) (Rep r (lo - 1) (Some h)))"

fun fullmatch :: "rx \<Rightarrow> string \<Rightarrow> bool" where
  "fullmatch r [] = nullable r"
| "fullmatch r (c # cs) = fullmatch (deriv c r) cs"


section \<open>Correctness\<close>

lemma concI: "u \<in> A \<Longrightarrow> v \<in> B \<Longrightarrow> u @ v \<in> conc A B"
  by (auto simp: conc_def)

lemma concE:
  assumes "w \<in> conc A B"
  obtains u v where "w = u @ v" and "u \<in> A" and "v \<in> B"
  using assms by (auto simp: conc_def)

lemma Nil_conc: "[] \<in> conc A B \<longleftrightarrow> [] \<in> A \<and> [] \<in> B"
  by (auto simp: conc_def)

lemma Cons_conc:
  "c # w \<in> conc A B \<longleftrightarrow>
     (\<exists>u v. w = u @ v \<and> c # u \<in> A \<and> v \<in> B) \<or> ([] \<in> A \<and> c # w \<in> B)"
proof
  assume "c # w \<in> conc A B"
  then show "(\<exists>u v. w = u @ v \<and> c # u \<in> A \<and> v \<in> B) \<or> ([] \<in> A \<and> c # w \<in> B)"
    by (auto simp: conc_def Cons_eq_append_conv)
next
  assume "(\<exists>u v. w = u @ v \<and> c # u \<in> A \<and> v \<in> B) \<or> ([] \<in> A \<and> c # w \<in> B)"
  then show "c # w \<in> conc A B"
    using concI [of "c # _" A _ B] concI [of "[]" A _ B] by fastforce
qed

lemma lang_cat [simp]: "lang (cat r s) = conc (lang r) (lang s)"
  by (cases r) (auto simp: conc_def)

lemma lang_alt [simp]: "lang (alt r s) = lang r \<union> lang s"
  by (cases r) auto

lemma Nil_pow_lang: "[] \<in> pow_lang A k \<longleftrightarrow> k = 0 \<or> [] \<in> A"
  by (induction k) (auto simp: Nil_conc)

lemma pow_lang_mono: "[] \<in> A \<Longrightarrow> pow_lang A k \<subseteq> pow_lang A (Suc k)"
  using concI [of "[]" A] by fastforce

lemma Cons_pow_lang:
  "c # w \<in> pow_lang A (Suc k) \<longleftrightarrow> (\<exists>u v. w = u @ v \<and> c # u \<in> A \<and> v \<in> pow_lang A k)"
proof (induction k)
  case 0
  then show ?case by (auto simp: Cons_conc)
next
  case (Suc k)
  show ?case
  proof
    assume "c # w \<in> pow_lang A (Suc (Suc k))"
    then consider u v where "w = u @ v" "c # u \<in> A" "v \<in> pow_lang A (Suc k)"
      | "[] \<in> A" "c # w \<in> pow_lang A (Suc k)"
      unfolding pow_lang.simps(2) [of A "Suc k"] by (auto simp: Cons_conc simp del: pow_lang.simps)
    then show "\<exists>u v. w = u @ v \<and> c # u \<in> A \<and> v \<in> pow_lang A (Suc k)"
    proof cases
      case 2
      with Suc.IH obtain u v where "w = u @ v" "c # u \<in> A" "v \<in> pow_lang A k" by blast
      moreover have "v \<in> pow_lang A (Suc k)"
        using pow_lang_mono [OF 2(1)] calculation(3) by blast
      ultimately show ?thesis by blast
    qed blast
  next
    assume "\<exists>u v. w = u @ v \<and> c # u \<in> A \<and> v \<in> pow_lang A (Suc k)"
    then show "c # w \<in> pow_lang A (Suc (Suc k))"
      unfolding pow_lang.simps(2) [of A "Suc k"] by (auto simp: Cons_conc simp del: pow_lang.simps)
  qed
qed

lemma nullable_iff: "nullable r \<longleftrightarrow> [] \<in> lang r"
proof (induction r)
  case (Rep r lo hi)
  have "(\<exists>k. lo \<le> k \<and> below k hi \<and> (k = 0 \<or> [] \<in> lang r))
          \<longleftrightarrow> below lo hi \<and> (lo = 0 \<or> [] \<in> lang r)"
    by (auto simp: below_def split: option.splits intro: le_trans)
  then show ?case using Rep by (simp add: Nil_pow_lang)
qed (auto simp: Nil_conc)

lemma lang_Rep_Cons:
  "c # w \<in> lang (Rep r lo hi) \<longleftrightarrow>
     (\<exists>k u v. lo - 1 \<le> k \<and> below (Suc k) hi \<and> w = u @ v \<and> c # u \<in> lang r \<and> v \<in> pow_lang (lang r) k)"
proof
  assume "c # w \<in> lang (Rep r lo hi)"
  then obtain k where k: "lo \<le> k" "below k hi" "c # w \<in> pow_lang (lang r) k" by auto
  then obtain k' where "k = Suc k'" by (cases k) auto
  then have "lo - 1 \<le> k'" and "below (Suc k') hi"
    and "\<exists>u v. w = u @ v \<and> c # u \<in> lang r \<and> v \<in> pow_lang (lang r) k'"
    using k Cons_pow_lang [of c w "lang r" k'] by auto
  then show "\<exists>k u v. lo - 1 \<le> k \<and> below (Suc k) hi \<and> w = u @ v \<and> c # u \<in> lang r
      \<and> v \<in> pow_lang (lang r) k"
    by blast
next
  assume "\<exists>k u v. lo - 1 \<le> k \<and> below (Suc k) hi \<and> w = u @ v \<and> c # u \<in> lang r
      \<and> v \<in> pow_lang (lang r) k"
  then obtain k where "lo \<le> Suc k" "below (Suc k) hi" "c # w \<in> pow_lang (lang r) (Suc k)"
    using Cons_pow_lang [of c w "lang r"] by (metis diff_le_mono le_diff_conv Suc_eq_plus1)
  then show "c # w \<in> lang (Rep r lo hi)" by (auto simp del: pow_lang.simps)
qed

lemma lang_deriv: "w \<in> lang (deriv c r) \<longleftrightarrow> c # w \<in> lang r"
proof (induction r arbitrary: w)
  case (Cat r s)
  then have "w \<in> lang (deriv c (Cat r s)) \<longleftrightarrow>
      w \<in> conc (lang (deriv c r)) (lang s) \<or> ([] \<in> lang r \<and> c # w \<in> lang s)"
    by (simp add: nullable_iff)
  also have "w \<in> conc (lang (deriv c r)) (lang s) \<longleftrightarrow>
      (\<exists>u v. w = u @ v \<and> c # u \<in> lang r \<and> v \<in> lang s)"
    by (simp add: conc_def Cat)
  finally show ?case by (simp add: Cons_conc)
next
  case (Rep r lo hi)
  have d: "w \<in> lang (cat (deriv c r) t) \<longleftrightarrow>
      (\<exists>u v. w = u @ v \<and> c # u \<in> lang r \<and> v \<in> lang t)" for t
    by (simp add: conc_def Rep)
  show ?case
  proof (cases hi)
    case None
    then show ?thesis unfolding lang_Rep_Cons by (auto simp: d below_def simp del: lang_cat)
  next
    case (Some h)
    then show ?thesis unfolding lang_Rep_Cons
      by (cases h) (auto simp: d below_def simp del: lang_cat)
  qed
qed auto

text \<open>The matcher decides exactly the language of the pattern.\<close>

lemma fullmatch_lang: "fullmatch r w \<longleftrightarrow> w \<in> lang r"
  by (induction w arbitrary: r) (auto simp: nullable_iff lang_deriv)


section \<open>Shorthands of the pattern syntax\<close>

definition lower :: string where
  "lower = ''abcdefghijklmnopqrstuvwxyz''"

definition upper :: string where
  "upper = ''ABCDEFGHIJKLMNOPQRSTUVWXYZ''"

definition digits :: string where
  "digits = ''0123456789''"

definition lit :: "string \<Rightarrow> rx" where
  "lit s = foldr (\<lambda>c r. cat (Cls [c]) r) s Eps"

definition opt :: "rx \<Rightarrow> rx" where
  "opt r = Rep r 0 (Some 1)"

definition star :: "rx \<Rightarrow> rx" where
  "star r = Rep r 0 None"

definition plus :: "rx \<Rightarrow> rx" where
  "plus r = Rep r 1 None"

definition seqs :: "rx list \<Rightarrow> rx" where
  "seqs rs = foldr cat rs Eps"

lemmas rx_defs = lower_def upper_def digits_def lit_def opt_def star_def plus_def seqs_def below_def

lemma lang_lit [simp]: "lang (lit s) = {s}"
proof (induction s)
  case (Cons c s)
  have "lit (c # s) = cat (Cls [c]) (lit s)" by (simp add: lit_def)
  moreover have "lang (Cls [c]) = {[c]}" by simp
  ultimately have "lang (lit (c # s)) = conc {[c]} {s}" by (simp only: lang_cat Cons)
  then show ?case by (simp add: conc_def)
qed (simp add: lit_def)

lemma lang_seqs [simp]: "lang (seqs rs) = foldr (\<lambda>r A. conc (lang r) A) rs {[]}"
  by (induction rs) (simp_all add: seqs_def)

lemma pow_lang_Cls: "pow_lang (lang (Cls cs)) k = {w. length w = k \<and> set w \<subseteq> set cs}"
proof (induction k)
  case (Suc k)
  have "w \<in> conc (lang (Cls cs)) {v. length v = k \<and> set v \<subseteq> set cs}
          \<longleftrightarrow> length w = Suc k \<and> set w \<subseteq> set cs" for w
    by (cases w) (auto simp: Cons_conc Nil_conc)
  then show ?case unfolding pow_lang.simps Suc by blast
qed auto

text \<open>A counted class \<^verbatim>\<open>[cs]{lo,hi}\<close> is a length bound plus an alphabet.\<close>

lemma lang_Rep_Cls:
  "lang (Rep (Cls cs) lo hi) = {w. lo \<le> length w \<and> below (length w) hi \<and> set w \<subseteq> set cs}"
  unfolding lang.simps(6) pow_lang_Cls by auto

text \<open>Every character a pattern can match is one it mentions.\<close>

fun alphabet :: "rx \<Rightarrow> string" where
  "alphabet Empty = []"
| "alphabet Eps = []"
| "alphabet (Cls cs) = cs"
| "alphabet (Cat r s) = alphabet r @ alphabet s"
| "alphabet (Alt r s) = alphabet r @ alphabet s"
| "alphabet (Rep r lo hi) = alphabet r"

lemma pow_lang_alphabet:
  "(\<And>w. w \<in> A \<Longrightarrow> set w \<subseteq> C) \<Longrightarrow> w \<in> pow_lang A k \<Longrightarrow> set w \<subseteq> C"
proof (induction k arbitrary: w)
  case (Suc k)
  then obtain u v where w: "w = u @ v" "u \<in> A" "v \<in> pow_lang A k" by (auto simp: conc_def)
  then show ?case using Suc.IH [OF Suc.prems(1) w(3)] Suc.prems(1) [OF w(2)] by simp
qed simp

lemma lang_alphabet: "w \<in> lang r \<Longrightarrow> set w \<subseteq> set (alphabet r)"
proof (induction r arbitrary: w)
  case (Cat r s)
  then obtain u v where "w = u @ v" "u \<in> lang r" "v \<in> lang s" by (auto simp: conc_def)
  then show ?case using Cat.IH by fastforce
next
  case (Rep r lo hi)
  then obtain k where "w \<in> pow_lang (lang r) k" by auto
  then show ?case using pow_lang_alphabet [of "lang r" "set (alphabet r)" w k] Rep.IH by simp
qed fastforce+

lemma fullmatch_alphabet: "fullmatch r w \<Longrightarrow> set w \<subseteq> set (alphabet r)"
  by (simp add: fullmatch_lang lang_alphabet)

declare fullmatch.simps [simp del]

end
