(* ===== verification/Connector_Result.thy ===== *)
theory Connector_Result
  imports Regex
begin

text \<open>
  The result half of the connector wire protocol
  (\<^verbatim>\<open>packages/mycogni-connector-sdk/src/connector_protocol/result.py\<close>, and the
  \<^verbatim>\<open>Capability\<close> enumeration of \<^verbatim>\<open>manifest.py\<close>): the finite vocabularies, the
  reason table and the constraints every validated result envelope satisfies.  JSON decoding
  itself belongs to pydantic and stays outside the model; a validated envelope is a record
  that satisfies \<open>result_envelope_ok\<close>.
\<close>


section \<open>Vocabularies\<close>

datatype capability = OBSERVE | PREPARE | SUBMIT | POLL | VERIFY

fun capability_value :: "capability \<Rightarrow> string" where
  "capability_value OBSERVE = ''observe''"
| "capability_value PREPARE = ''prepare''"
| "capability_value SUBMIT = ''submit''"
| "capability_value POLL = ''poll''"
| "capability_value VERIFY = ''verify''"

definition all_capabilities :: "capability list" where
  "all_capabilities = [OBSERVE, PREPARE, SUBMIT, POLL, VERIFY]"

text \<open>\<^verbatim>\<open>Capability(value)\<close>: the member with that value, or \<^verbatim>\<open>ValueError\<close>.\<close>

definition capability_of :: "string \<Rightarrow> capability option" where
  "capability_of v = find (\<lambda>c. capability_value c = v) all_capabilities"

datatype result_code =
    NO_CANDIDATE | CANDIDATE_OBSERVED | AMBIGUOUS_CANDIDATES | PAYLOAD_PREPARED
  | TRANSPORT_RECEIPT | BROKER_ACKNOWLEDGED | BROKER_PROCESSING | BROKER_ASSERTED_COMPLETE
  | PARTIAL_RESPONSE | BROKER_DENIED | CHALLENGE | INCONCLUSIVE | FAILED

datatype reason_code =
    R_NO_CANDIDATE | R_NAME_ADDRESS_MATCH | R_EXACT_MATCH | R_PARTIAL_MATCH
  | R_MULTIPLE_CANDIDATES | R_INSUFFICIENT_MATCH | R_PREPARATION_COMPLETE
  | R_TRANSPORT_ACCEPTED | R_BROKER_ACCEPTED | R_BROKER_PENDING | R_BROKER_ASSERTION
  | R_PARTIAL_COMPLETION | R_REQUEST_DENIED | R_IDENTITY_NOT_ACCEPTED | R_EXEMPTION_ASSERTED
  | R_CAPTCHA_REQUIRED | R_MFA_REQUIRED | R_LOGIN_REQUIRED | R_MANUAL_REVIEW_REQUIRED
  | R_TIMEOUT | R_RATE_LIMITED | R_SCHEMA_DRIFT | R_EVIDENCE_UNAVAILABLE
  | R_UNEXPECTED_RESPONSE | R_INVALID_ACTION | R_REVOKED_AUTHORITY | R_STALE_FENCE
  | R_BUDGET_EXCEEDED | R_CONNECTOR_ERROR

datatype next_step_kind = N_NONE | N_USER_REVIEW | N_RETRY_LATER | N_REAUTHORIZE

text \<open>The table \<^verbatim>\<open>_REASONS_BY_RESULT\<close>.\<close>

fun reasons_by_result :: "result_code \<Rightarrow> reason_code list" where
  "reasons_by_result NO_CANDIDATE = [R_NO_CANDIDATE]"
| "reasons_by_result CANDIDATE_OBSERVED = [R_NAME_ADDRESS_MATCH, R_EXACT_MATCH, R_PARTIAL_MATCH]"
| "reasons_by_result AMBIGUOUS_CANDIDATES = [R_MULTIPLE_CANDIDATES, R_INSUFFICIENT_MATCH]"
| "reasons_by_result PAYLOAD_PREPARED = [R_PREPARATION_COMPLETE]"
| "reasons_by_result TRANSPORT_RECEIPT = [R_TRANSPORT_ACCEPTED]"
| "reasons_by_result BROKER_ACKNOWLEDGED = [R_BROKER_ACCEPTED]"
| "reasons_by_result BROKER_PROCESSING = [R_BROKER_PENDING]"
| "reasons_by_result BROKER_ASSERTED_COMPLETE = [R_BROKER_ASSERTION]"
| "reasons_by_result PARTIAL_RESPONSE = [R_PARTIAL_COMPLETION]"
| "reasons_by_result BROKER_DENIED =
     [R_REQUEST_DENIED, R_IDENTITY_NOT_ACCEPTED, R_EXEMPTION_ASSERTED]"
| "reasons_by_result CHALLENGE =
     [R_CAPTCHA_REQUIRED, R_MFA_REQUIRED, R_LOGIN_REQUIRED, R_MANUAL_REVIEW_REQUIRED]"
| "reasons_by_result INCONCLUSIVE =
     [R_TIMEOUT, R_RATE_LIMITED, R_SCHEMA_DRIFT, R_EVIDENCE_UNAVAILABLE, R_UNEXPECTED_RESPONSE]"
| "reasons_by_result FAILED =
     [R_INVALID_ACTION, R_REVOKED_AUTHORITY, R_STALE_FENCE, R_BUDGET_EXCEEDED, R_CONNECTOR_ERROR]"


section \<open>Envelopes\<close>

definition max_evidence_items :: int where
  "max_evidence_items = 64"

definition max_evidence_bytes :: int where
  "max_evidence_bytes = 67108864"

definition max_disclosure_records :: int where
  "max_disclosure_records = 64"

text \<open>\<^verbatim>\<open>_SHA256 = ^sha256:[0-9a-f]{64}$\<close>\<close>

definition rx_sha256 :: rx where
  "rx_sha256 = seqs [lit ''sha256:'', Rep (Cls (digits @ ''abcdef'')) 64 (Some 64)]"

text \<open>\<^verbatim>\<open>_SLUG = ^[a-z0-9](?:[a-z0-9-]{0,62}[a-z0-9])?$\<close>\<close>

definition rx_slug :: rx where
  "rx_slug = seqs [Cls (lower @ digits),
     opt (seqs [Rep (Cls (lower @ digits @ ''-'')) 0 (Some 62), Cls (lower @ digits)])]"

text \<open>\<^verbatim>\<open>^[a-z][a-z0-9_]*$\<close> with \<^verbatim>\<open>max_length=64\<close>\<close>

definition rx_evidence_kind :: rx where
  "rx_evidence_kind = seqs [Cls lower, star (Cls (lower @ digits @ ''_''))]"

text \<open>\<^verbatim>\<open>^[A-Za-z0-9_-]+$\<close>\<close>

definition rx_external_reference :: rx where
  "rx_external_reference = plus (Cls (upper @ lower @ digits @ ''_-''))"

text \<open>
  \<^verbatim>\<open>_HOST\<close>: one or more dot-terminated labels and a final label that starts with a letter,
  253 characters at most (the look-ahead \<^verbatim>\<open>(?=.{1,253}$)\<close>).
\<close>

definition rx_label_tail :: rx where
  "rx_label_tail = opt (seqs [Rep (Cls (lower @ digits @ ''-'')) 0 (Some 61), Cls (lower @ digits)])"

definition rx_host :: rx where
  "rx_host = seqs [plus (seqs [Cls (lower @ digits), rx_label_tail, lit ''.'']),
                   Cls lower, rx_label_tail]"

definition validate_hostname :: "string \<Rightarrow> bool" where
  "validate_hostname v \<longleftrightarrow>
     set v \<inter> set upper = {} \<and> CHR ''*'' \<notin> set v \<and>
     1 \<le> length v \<and> length v \<le> 253 \<and> fullmatch rx_host v"

text \<open>The pieces of a semantic version and of a connector release (\<^verbatim>\<open>slug@semver\<close>).\<close>

text \<open>\<^verbatim>\<open>(?:0|[1-9][0-9]*)\<close>\<close>

definition rx_number :: rx where
  "rx_number = Alt (lit ''0'') (seqs [Cls ''123456789'', star (Cls digits)])"

text \<open>\<^verbatim>\<open>[0-9A-Za-z-]+(?:\.[0-9A-Za-z-]+)*\<close>\<close>

definition rx_dotted :: rx where
  "rx_dotted =
     (let ident = plus (Cls (digits @ upper @ lower @ ''-''))
      in seqs [ident, star (seqs [lit ''.'', ident])])"

definition rx_connector_release :: rx where
  "rx_connector_release = seqs
     [rx_slug, lit ''@'', rx_number, lit ''.'', rx_number, lit ''.'', rx_number,
      opt (seqs [lit ''-'', rx_dotted]), opt (seqs [lit ''+'', rx_dotted])]"

record evidence_reference =
  er_kind :: string
  er_mailbox_object_id :: uuid
  er_payload_digest :: string
  er_byte_count :: int

record disclosure_record =
  dr_attribute_type :: string
  dr_destination :: string

record result_envelope =
  re_action_id :: uuid
  re_attempt_id :: uuid
  re_result :: result_code
  re_reason_code :: reason_code
  re_external_reference :: "string option"
  re_evidence :: "evidence_reference list"
  re_disclosures :: "disclosure_record list"
  re_next :: next_step_kind

definition evidence_reference_ok :: "evidence_reference \<Rightarrow> bool" where
  "evidence_reference_ok e \<longleftrightarrow>
     1 \<le> len (er_kind e) \<and> len (er_kind e) \<le> 64 \<and> fullmatch rx_evidence_kind (er_kind e) \<and>
     uuid4 (er_mailbox_object_id e) \<and>
     fullmatch rx_sha256 (er_payload_digest e) \<and>
     0 < er_byte_count e \<and> er_byte_count e \<le> max_evidence_bytes"

definition disclosure_record_ok :: "disclosure_record \<Rightarrow> bool" where
  "disclosure_record_ok d \<longleftrightarrow>
     1 \<le> len (dr_attribute_type d) \<and> len (dr_attribute_type d) \<le> 64 \<and>
     fullmatch rx_slug (dr_attribute_type d) \<and>
     4 \<le> len (dr_destination d) \<and> len (dr_destination d) \<le> 253 \<and>
     validate_hostname (dr_destination d)"

text \<open>
  Field bounds, the uniqueness validators (\<^verbatim>\<open>require_unique\<close> compares canonical JSON, which
  is equality of the records) and \<^verbatim>\<open>result_constraints_hold\<close>.
\<close>

definition result_envelope_ok :: "result_envelope \<Rightarrow> bool" where
  "result_envelope_ok r \<longleftrightarrow>
     uuid4 (re_action_id r) \<and> uuid4 (re_attempt_id r) \<and>
     (case re_external_reference r of None \<Rightarrow> True
      | Some x \<Rightarrow> 1 \<le> len x \<and> len x \<le> 128 \<and> fullmatch rx_external_reference x) \<and>
     len (re_evidence r) \<le> max_evidence_items \<and>
     list_all evidence_reference_ok (re_evidence r) \<and> distinct (re_evidence r) \<and>
     len (re_disclosures r) \<le> max_disclosure_records \<and>
     list_all disclosure_record_ok (re_disclosures r) \<and> distinct (re_disclosures r) \<and>
     re_reason_code r \<in> set (reasons_by_result (re_result r)) \<and>
     sum_list (map er_byte_count (re_evidence r)) \<le> max_evidence_bytes"


section \<open>Properties of the vocabularies\<close>

lemma capability_of_value [simp]: "capability_of (capability_value c) = Some c"
  by (cases c) (simp_all add: capability_of_def all_capabilities_def)

lemma capability_of_Some: "capability_of v = Some c \<Longrightarrow> v = capability_value c"
  by (auto simp: capability_of_def find_Some_iff)

text \<open>Every reason belongs to exactly one result: the reason determines the result code.\<close>

fun result_of_reason :: "reason_code \<Rightarrow> result_code" where
  "result_of_reason R_NO_CANDIDATE = NO_CANDIDATE"
| "result_of_reason R_NAME_ADDRESS_MATCH = CANDIDATE_OBSERVED"
| "result_of_reason R_EXACT_MATCH = CANDIDATE_OBSERVED"
| "result_of_reason R_PARTIAL_MATCH = CANDIDATE_OBSERVED"
| "result_of_reason R_MULTIPLE_CANDIDATES = AMBIGUOUS_CANDIDATES"
| "result_of_reason R_INSUFFICIENT_MATCH = AMBIGUOUS_CANDIDATES"
| "result_of_reason R_PREPARATION_COMPLETE = PAYLOAD_PREPARED"
| "result_of_reason R_TRANSPORT_ACCEPTED = TRANSPORT_RECEIPT"
| "result_of_reason R_BROKER_ACCEPTED = BROKER_ACKNOWLEDGED"
| "result_of_reason R_BROKER_PENDING = BROKER_PROCESSING"
| "result_of_reason R_BROKER_ASSERTION = BROKER_ASSERTED_COMPLETE"
| "result_of_reason R_PARTIAL_COMPLETION = PARTIAL_RESPONSE"
| "result_of_reason R_REQUEST_DENIED = BROKER_DENIED"
| "result_of_reason R_IDENTITY_NOT_ACCEPTED = BROKER_DENIED"
| "result_of_reason R_EXEMPTION_ASSERTED = BROKER_DENIED"
| "result_of_reason R_CAPTCHA_REQUIRED = CHALLENGE"
| "result_of_reason R_MFA_REQUIRED = CHALLENGE"
| "result_of_reason R_LOGIN_REQUIRED = CHALLENGE"
| "result_of_reason R_MANUAL_REVIEW_REQUIRED = CHALLENGE"
| "result_of_reason R_TIMEOUT = INCONCLUSIVE"
| "result_of_reason R_RATE_LIMITED = INCONCLUSIVE"
| "result_of_reason R_SCHEMA_DRIFT = INCONCLUSIVE"
| "result_of_reason R_EVIDENCE_UNAVAILABLE = INCONCLUSIVE"
| "result_of_reason R_UNEXPECTED_RESPONSE = INCONCLUSIVE"
| "result_of_reason R_INVALID_ACTION = FAILED"
| "result_of_reason R_REVOKED_AUTHORITY = FAILED"
| "result_of_reason R_STALE_FENCE = FAILED"
| "result_of_reason R_BUDGET_EXCEEDED = FAILED"
| "result_of_reason R_CONNECTOR_ERROR = FAILED"

lemma reason_determines_result:
  "c \<in> set (reasons_by_result r) \<longleftrightarrow> r = result_of_reason c"
  by (cases c; cases r; simp)

lemma result_envelope_ok_evidence:
  assumes "result_envelope_ok r" and "e \<in> set (re_evidence r)"
  shows "uuid4 (er_mailbox_object_id e)" and "0 < er_byte_count e"
    and "er_byte_count e \<le> max_evidence_bytes"
  using assms by (auto simp: result_envelope_ok_def list_all_iff evidence_reference_ok_def)

end
