(* ===== verification/Mailbox_Domain.thy ===== *)
theory Mailbox_Domain
  imports Connector_Result
begin

text \<open>
  The value types of the runner mailbox (\<^verbatim>\<open>services/runner_mailbox/domain.py\<close>): states,
  denials, crash points, the immutable action binding, evidence uploads and seals, claimed
  actions, committed bundles and snapshots, each with the checks of its
  \<^verbatim>\<open>__post_init__\<close> as a boolean predicate.  The checks that an argument has exactly a
  given Python class hold by typing.
\<close>


section \<open>Constants and enumerations\<close>

definition ACTION_KEY_BYTES :: int where "ACTION_KEY_BYTES = 32"
definition MIN_CREDENTIAL_BYTES :: int where "MIN_CREDENTIAL_BYTES = 32"
definition MAX_CREDENTIAL_BYTES :: int where "MAX_CREDENTIAL_BYTES = 128"
definition MAX_ACTION_ENVELOPE_BYTES :: int where "MAX_ACTION_ENVELOPE_BYTES = 8388608"
definition MAX_RESULT_ENVELOPE_BYTES :: int where "MAX_RESULT_ENVELOPE_BYTES = 1048576"
definition MAX_EVIDENCE_BYTES :: int where "MAX_EVIDENCE_BYTES = 67108864"
definition MAX_EVIDENCE_ITEMS :: int where "MAX_EVIDENCE_ITEMS = 64"
definition MAX_WALL_SECONDS :: int where "MAX_WALL_SECONDS = 3600"

lemmas mailbox_consts = ACTION_KEY_BYTES_def MIN_CREDENTIAL_BYTES_def MAX_CREDENTIAL_BYTES_def
  MAX_ACTION_ENVELOPE_BYTES_def MAX_RESULT_ENVELOPE_BYTES_def MAX_EVIDENCE_BYTES_def
  MAX_EVIDENCE_ITEMS_def MAX_WALL_SECONDS_def

datatype mailbox_state =
  S_EMPTY | S_OFFERED | S_CLAIMED_ONCE | S_RESULT_COMMITTED | S_EXPIRED | S_ABANDONED

datatype collection_state = C_NONE | C_READY | C_DELIVERING | C_ACKNOWLEDGED

datatype mailbox_denial =
    ALREADY_EXISTS | NOT_FOUND | INVALID_INPUT | UNAUTHORIZED | BINDING_MISMATCH
  | INVALID_STATE | EXPIRED | REPLAY | OVERSIZE | DIGEST_MISMATCH | RESULT_MISMATCH
  | CAPABILITY_MISMATCH | EVIDENCE_MISSING | EVIDENCE_UNREFERENCED | EVIDENCE_LIMIT
  | QUOTA_EXCEEDED | CONTENDED | INTERNAL_UNCERTAINTY

datatype crash_point =
    BEFORE_CLAIM_COMMIT | AFTER_CLAIM_COMMIT | BEFORE_EVIDENCE_COMMIT | AFTER_EVIDENCE_COMMIT
  | BEFORE_RESULT_COMMIT | AFTER_RESULT_COMMIT | BEFORE_COLLECTION_ACK | AFTER_COLLECTION_ACK

text \<open>
  What a mailbox operation raises: a finite denial, an injected crash, or the
  \<^verbatim>\<open>ValueError\<close> of a value type's constructor.
\<close>

datatype mailbox_error = Denied mailbox_denial | Crashed crash_point | Value_Error

fun safe_message :: "mailbox_denial \<Rightarrow> string" where
  "safe_message ALREADY_EXISTS = ''mailbox already exists''"
| "safe_message NOT_FOUND = ''mailbox is unavailable''"
| "safe_message INVALID_INPUT = ''mailbox input is invalid''"
| "safe_message UNAUTHORIZED = ''mailbox access is denied''"
| "safe_message BINDING_MISMATCH = ''mailbox binding does not match''"
| "safe_message INVALID_STATE = ''mailbox transition is not permitted''"
| "safe_message EXPIRED = ''mailbox has expired''"
| "safe_message REPLAY = ''mailbox operation was already consumed''"
| "safe_message OVERSIZE = ''mailbox payload exceeds its bound''"
| "safe_message DIGEST_MISMATCH = ''mailbox payload digest does not match''"
| "safe_message RESULT_MISMATCH = ''result does not match the claimed action''"
| "safe_message CAPABILITY_MISMATCH = ''result is not permitted for the action capability''"
| "safe_message EVIDENCE_MISSING = ''committed result references missing evidence''"
| "safe_message EVIDENCE_UNREFERENCED = ''staged evidence is not referenced by the result''"
| "safe_message EVIDENCE_LIMIT = ''mailbox response exceeds its aggregate bound''"
| "safe_message QUOTA_EXCEEDED = ''mailbox installation capacity is exhausted''"
| "safe_message CONTENDED = ''mailbox writer is temporarily contended''"
| "safe_message INTERNAL_UNCERTAINTY = ''mailbox operation ended with internal uncertainty''"


section \<open>Patterns\<close>

text \<open>\<^verbatim>\<open>_DIGEST\<close> is the pattern \<^const>\<open>rx_sha256\<close> of the wire protocol.\<close>

definition require_digest :: "string \<Rightarrow> bool" where
  "require_digest v \<longleftrightarrow> fullmatch rx_sha256 v"

text \<open>\<^verbatim>\<open>^[a-z][a-z0-9_]{0,31}$\<close> and the evidence kind \<^verbatim>\<open>^[a-z][a-z0-9_]{0,63}$\<close>\<close>

definition rx_capability :: rx where
  "rx_capability = seqs [Cls lower, Rep (Cls (lower @ digits @ ''_'')) 0 (Some 31)]"

definition rx_kind :: rx where
  "rx_kind = seqs [Cls lower, Rep (Cls (lower @ digits @ ''_'')) 0 (Some 63)]"


section \<open>Records\<close>

record mailbox_limits =
  max_mailboxes :: int
  max_total_active_material_bytes :: int
  max_total_evidence_bytes :: int
  max_total_committed_bytes :: int
  terminal_retention :: int
  tombstone_retention :: int
  max_tombstones :: int

definition default_limits :: mailbox_limits where
  "default_limits = \<lparr>max_mailboxes = 64, max_total_active_material_bytes = 16777216,
     max_total_evidence_bytes = 67108864, max_total_committed_bytes = 67108864,
     terminal_retention = days 7, tombstone_retention = days 30, max_tombstones = 4096\<rparr>"

definition mailbox_limits_ok :: "mailbox_limits \<Rightarrow> bool" where
  "mailbox_limits_ok l \<longleftrightarrow>
     0 < max_mailboxes l \<and> 0 < max_total_active_material_bytes l \<and>
     0 < max_total_evidence_bytes l \<and> 0 < max_total_committed_bytes l \<and>
     0 < max_tombstones l \<and> 0 < terminal_retention l \<and> 0 < tombstone_retention l"

record action_binding =
  b_mailbox_id :: uuid
  b_action_id :: uuid
  b_intent_id :: uuid
  b_attempt_id :: uuid
  b_connector_release :: string
  b_capability :: string
  b_selected_artifact_digest :: string
  b_dispatch_epoch :: int
  b_fence :: int
  b_authorization_epoch :: int
  b_claim_deadline_utc :: datetime
  b_deadline_utc :: datetime
  b_wall_seconds :: int
  b_response_bytes :: int
  b_envelope_digest :: string

definition action_binding_ok :: "action_binding \<Rightarrow> bool" where
  "action_binding_ok b \<longleftrightarrow>
     uuid4 (b_mailbox_id b) \<and> uuid4 (b_action_id b) \<and> uuid4 (b_intent_id b) \<and>
     uuid4 (b_attempt_id b) \<and>
     len (b_connector_release b) \<le> 193 \<and> fullmatch rx_connector_release (b_connector_release b) \<and>
     fullmatch rx_capability (b_capability b) \<and>
     require_digest (b_selected_artifact_digest b) \<and> require_digest (b_envelope_digest b) \<and>
     0 \<le> b_dispatch_epoch b \<and> 0 \<le> b_fence b \<and> 0 \<le> b_authorization_epoch b \<and>
     is_utc (b_claim_deadline_utc b) \<and> is_utc (b_deadline_utc b) \<and>
     instant (b_claim_deadline_utc b) < instant (b_deadline_utc b) \<and>
     0 \<le> b_wall_seconds b \<and> 0 \<le> b_response_bytes b \<and>
     b_wall_seconds b \<noteq> 0 \<and> b_response_bytes b \<noteq> 0 \<and>
     b_wall_seconds b \<le> MAX_WALL_SECONDS \<and> b_response_bytes b \<le> MAX_EVIDENCE_BYTES"

record evidence_upload =
  eu_object_id :: uuid
  eu_kind :: string
  eu_payload_digest :: string
  eu_payload :: bytes

definition evidence_upload_ok :: "evidence_upload \<Rightarrow> bool" where
  "evidence_upload_ok e \<longleftrightarrow>
     uuid4 (eu_object_id e) \<and> fullmatch rx_kind (eu_kind e) \<and>
     require_digest (eu_payload_digest e) \<and>
     eu_payload e \<noteq> [] \<and> len (eu_payload e) \<le> MAX_EVIDENCE_BYTES"

record evidence_seal =
  es_object_id :: uuid
  es_kind :: string
  es_payload_digest :: string
  es_byte_count :: int

definition evidence_seal_ok :: "evidence_seal \<Rightarrow> bool" where
  "evidence_seal_ok e \<longleftrightarrow>
     uuid4 (es_object_id e) \<and> fullmatch rx_kind (es_kind e) \<and>
     require_digest (es_payload_digest e) \<and>
     0 < es_byte_count e \<and> es_byte_count e \<le> MAX_EVIDENCE_BYTES"

record claimed_action =
  ca_binding :: action_binding
  ca_envelope_json :: bytes
  ca_action_key :: bytes
  ca_result_credential :: bytes

definition credential_size_ok :: "bytes \<Rightarrow> bool" where
  "credential_size_ok c \<longleftrightarrow> MIN_CREDENTIAL_BYTES \<le> len c \<and> len c \<le> MAX_CREDENTIAL_BYTES"

definition claimed_action_ok :: "claimed_action \<Rightarrow> bool" where
  "claimed_action_ok a \<longleftrightarrow>
     ca_envelope_json a \<noteq> [] \<and> len (ca_envelope_json a) \<le> MAX_ACTION_ENVELOPE_BYTES \<and>
     len (ca_action_key a) = ACTION_KEY_BYTES \<and> credential_size_ok (ca_result_credential a)"

record committed_bundle =
  cb_binding :: action_binding
  cb_result_json :: bytes
  cb_evidence :: "evidence_upload list"

definition payload_total :: "evidence_upload list \<Rightarrow> int" where
  "payload_total es = sum_list (map (\<lambda>e. len (eu_payload e)) es)"

definition committed_bundle_ok :: "committed_bundle \<Rightarrow> bool" where
  "committed_bundle_ok c \<longleftrightarrow>
     cb_result_json c \<noteq> [] \<and> len (cb_result_json c) \<le> MAX_RESULT_ENVELOPE_BYTES \<and>
     len (cb_evidence c) \<le> MAX_EVIDENCE_ITEMS \<and>
     payload_total (cb_evidence c) \<le> MAX_EVIDENCE_BYTES \<and>
     len (cb_result_json c) + payload_total (cb_evidence c) \<le> b_response_bytes (cb_binding c)"

record mailbox_snapshot =
  ms_mailbox_id :: uuid
  ms_state :: mailbox_state
  ms_collection_state :: collection_state
  ms_staged_evidence_count :: int
  ms_staged_evidence_bytes :: int
  ms_result_present :: bool
  ms_claim_material_retained :: bool
  ms_result_credential_material_retained :: bool
  ms_observed_at_utc :: int
  ms_claim_deadline_utc :: datetime
  ms_result_deadline_utc :: datetime

definition mailbox_snapshot_ok :: "mailbox_snapshot \<Rightarrow> bool" where
  "mailbox_snapshot_ok m \<longleftrightarrow>
     uuid4 (ms_mailbox_id m) \<and> 0 \<le> ms_staged_evidence_count m \<and>
     0 \<le> ms_staged_evidence_bytes m \<and>
     is_utc (ms_claim_deadline_utc m) \<and> is_utc (ms_result_deadline_utc m)"


section \<open>Properties\<close>

text \<open>Distinct denials carry distinct messages: the sanitised text identifies the reason.\<close>

lemma safe_message_inject: "safe_message d = safe_message e \<longleftrightarrow> d = e"
  by (cases d; cases e; simp)

lemma default_limits_ok: "mailbox_limits_ok default_limits"
  by (simp add: mailbox_limits_ok_def default_limits_def)

text \<open>A valid canonical digest is the text \<^verbatim>\<open>sha256:\<close> and 64 lowercase hexadecimal digits.\<close>

lemma require_digest_iff:
  "require_digest v \<longleftrightarrow>
     (\<exists>h. v = ''sha256:'' @ h \<and> length h = 64 \<and> set h \<subseteq> set ''0123456789abcdef'')"
  unfolding require_digest_def rx_sha256_def fullmatch_lang lang_seqs foldr.simps comp_def
    lang_lit lang_Rep_Cls id_apply
  by (auto simp: conc_def below_def digits_def)

lemma set_hex: "set (hex bs) \<subseteq> set ''0123456789abcdef''"
proof -
  have "hex_digit n \<in> set ''0123456789abcdef''" for n
    unfolding hex_digit_def by (rule nth_mem) simp
  then show ?thesis by (induction bs) (auto simp: hex_def hex_byte_def)
qed

lemma require_digest_sha256: "length d = 32 \<Longrightarrow> require_digest (''sha256:'' @ hex d)"
  unfolding require_digest_iff using set_hex by fastforce

end
