(* ===== verification/Calendar.thy ===== *)
theory Calendar
  imports Prelude
begin

text \<open>
  The proleptic Gregorian calendar behind \<^verbatim>\<open>datetime.isoformat\<close>: the civil date of a day number
  and zero-padded decimal fields, with the proof that a civil date determines its day.
\<close>

definition civil_from_days :: "int \<Rightarrow> int \<times> int \<times> int" where
  "civil_from_days z =
     (let n = z + 719468; era = n div 146097; doe = n mod 146097;
          yoe = (doe - doe div 1460 + doe div 36524 - doe div 146096) div 365;
          doy = doe - (365 * yoe + yoe div 4 - yoe div 100);
          mp = (5 * doy + 2) div 153;
          d = doy - (153 * mp + 2) div 5 + 1;
          m = (if mp < 10 then mp + 3 else mp - 9);
          y = yoe + era * 400 + (if m \<le> 2 then 1 else 0)
      in (y, m, d))"

definition zero_pad :: "nat \<Rightarrow> int \<Rightarrow> string" where
  "zero_pad k n = (let s = show_nat (nat n) in replicate (k - length s) CHR ''0'' @ s)"

text \<open>The day number of a civil date.\<close>

definition days_from_civil :: "int \<Rightarrow> int \<Rightarrow> int \<Rightarrow> int" where
  "days_from_civil y m d =
     (let y' = (if m \<le> 2 then y - 1 else y); era = y' div 400; yoe = y' mod 400;
          mp = (if m \<le> 2 then m + 9 else m - 3);
          doy = (153 * mp + 2) div 5 + d - 1;
          doe = 365 * yoe + yoe div 4 - yoe div 100 + doy
      in era * 146097 + doe - 719468)"


section \<open>A civil date determines its day\<close>

text \<open>The year of a 400-year era and the day of that year, counted from 1 March.\<close>

definition year_of_era :: "int \<Rightarrow> int" where
  "year_of_era doe = (doe - doe div 1460 + doe div 36524 - doe div 146096) div 365"

definition day_of_year :: "int \<Rightarrow> int" where
  "day_of_year doe = (let yoe = year_of_era doe in doe - (365 * yoe + yoe div 4 - yoe div 100))"

lemma div_bounds: "0 < k \<Longrightarrow> k * (x div k) \<le> x \<and> x < k * (x div k) + k" for x k :: int
  using pos_mod_sign [of k x] pos_mod_bound [of k x] mult_div_mod_eq [of k x] by linarith

lemma year_and_day_bounds:
  assumes "0 \<le> doe" and "doe < 146097"
  shows "0 \<le> year_of_era doe \<and> year_of_era doe < 400 \<and> 0 \<le> day_of_year doe \<and> day_of_year doe \<le> 365"
proof (cases "doe = 146096")
  case True
  then show ?thesis by (simp add: year_of_era_def day_of_year_def)
next
  case False
  define c q y w where "c = doe div 36524" and "q = doe div 1460" and "y = year_of_era doe" and "w = y div 4"
  have "doe div 146096 = 0" using False assms by (intro div_pos_pos_trivial) auto
  then have y: "y = (doe - q + c) div 365" by (simp add: y_def year_of_era_def q_def c_def)
  have c: "36524 * c \<le> doe" "doe < 36524 * c + 36524"
    using div_bounds [of 36524 doe] unfolding c_def by auto
  then have c03: "0 \<le> c" "c \<le> 3" using assms False by linarith+
  have q: "1460 * q \<le> doe" "doe < 1460 * q + 1460"
    using div_bounds [of 1460 doe] unfolding q_def by auto
  have Y: "365 * y \<le> doe - q + c" "doe - q + c < 365 * y + 365"
    using div_bounds [of 365 "doe - q + c"] unfolding y by auto
  have century: "100 * c \<le> y" "y \<le> 100 * c + 99" using c c03 q Y by linarith+
  have y100: "y div 100 = c" using century by (intro int_div_pos_eq [of _ _ _ "y - 100 * c"]) auto
  have w: "4 * w \<le> y" "y < 4 * w + 4" using div_bounds [of 4 y] unfolding w_def by auto
  have "c \<le> q" using c c03 q by linarith
  have "w \<le> q" using w q Y \<open>c \<le> q\<close> by linarith
  have "q \<le> w + 1"
  proof (rule ccontr)
    assume "\<not> q \<le> w + 1"
    then have "1459 * w + 2918 \<le> 1459 * q" by simp
    moreover have "1459 * q < 365 * y + 365" using q(1) Y(2) c03 by linarith
    moreover have "365 * y + 365 \<le> 1460 * w + 1460" using w(2) by linarith
    moreover have "w \<le> 99" using w(1) century c03 by linarith
    ultimately show False by linarith
  qed
  moreover have "day_of_year doe = doe - (365 * y + w - c)"
    by (simp add: day_of_year_def y_def [symmetric] y100 w_def)
  ultimately have "0 \<le> day_of_year doe \<and> day_of_year doe \<le> 365"
    using Y \<open>w \<le> q\<close> by linarith
  then show ?thesis using century c03 unfolding y_def by linarith
qed

lemma month_bounds:
  fixes doy :: int
  assumes "0 \<le> doy" and "doy \<le> 365" and "mp = (5 * doy + 2) div 153"
  shows "0 \<le> mp \<and> mp \<le> 11 \<and> (153 * mp + 2) div 5 \<le> doy"
proof -
  have "153 * mp \<le> 5 * doy + 2" "5 * doy + 2 < 153 * mp + 153"
    using div_bounds [of 153 "5 * doy + 2"] assms(3) by auto
  moreover have "5 * ((153 * mp + 2) div 5) \<le> 153 * mp + 2" using div_bounds [of 5] by auto
  ultimately show ?thesis using assms by linarith
qed

lemma civil_from_days_eq:
  "civil_from_days z =
     (let n = z + 719468; doe = n mod 146097; doy = day_of_year doe; mp = (5 * doy + 2) div 153;
          m = (if mp < 10 then mp + 3 else mp - 9)
      in (year_of_era doe + n div 146097 * 400 + (if m \<le> 2 then 1 else 0), m,
          doy - (153 * mp + 2) div 5 + 1))"
  unfolding civil_from_days_def year_of_era_def day_of_year_def Let_def by (rule refl)

lemma days_from_civil_inverse:
  assumes "civil_from_days z = (y, m, d)"
  shows "days_from_civil y m d = z" and "0 \<le> m" and "0 \<le> d" and "0 \<le> z + 719468 \<Longrightarrow> 0 \<le> y"
proof -
  define n where "n = z + 719468"
  define doe where "doe = n mod 146097"
  define doy where "doy = day_of_year doe"
  define mp where "mp = (5 * doy + 2) div 153"
  have b: "0 \<le> year_of_era doe" "year_of_era doe < 400" "0 \<le> doy" "doy \<le> 365"
    using year_and_day_bounds [of doe] pos_mod_sign [of 146097 n] pos_mod_bound [of 146097 n]
    unfolding doe_def doy_def by auto
  have mp: "0 \<le> mp" "mp \<le> 11" "(153 * mp + 2) div 5 \<le> doy"
    using month_bounds [OF b(3,4) mp_def] by auto
  have e: "m = (if mp < 10 then mp + 3 else mp - 9)"
      "y = year_of_era doe + n div 146097 * 400 + (if m \<le> 2 then 1 else 0)"
      "d = doy - (153 * mp + 2) div 5 + 1"
    using assms unfolding civil_from_days_eq Let_def n_def doe_def doy_def mp_def prod.inject by blast+
  show "0 \<le> m" using e mp by auto
  show "0 \<le> d" using e mp by auto
  show "0 \<le> y" if "0 \<le> z + 719468"
    using that e b pos_imp_zdiv_nonneg_iff [of 146097 n] by (simp add: n_def)
  have y': "(if m \<le> 2 then y - 1 else y) = year_of_era doe + n div 146097 * 400" using e by simp
  have m': "(if m \<le> 2 then m + 9 else m - 3) = mp" using e mp by auto
  have "365 * year_of_era doe + year_of_era doe div 4 - year_of_era doe div 100 + doy = doe"
    by (simp add: doy_def day_of_year_def Let_def)
  moreover have "(153 * mp + 2) div 5 + d - 1 = doy" using e by simp
  moreover have "n div 146097 * 146097 + doe = n" by (simp add: doe_def)
  moreover have "days_from_civil y m d = n div 146097 * 146097 + (365 * year_of_era doe +
      year_of_era doe div 4 - year_of_era doe div 100 + ((153 * mp + 2) div 5 + d - 1)) - 719468"
    using b by (simp add: days_from_civil_def Let_def y' m')
  ultimately show "days_from_civil y m d = z" by (simp add: n_def)
qed

end
