(* ===== verification/Mailbox_Wrap.thy ===== *)
theory Mailbox_Wrap
  imports Mailbox_Domain Calendar
begin

text \<open>
  Authenticated at-rest wrapping of the volatile mailbox repository
  (\<^verbatim>\<open>services/runner_mailbox/volatile.py\<close>): associated data, framing, the binding digest,
  wrapping and unwrapping of evidence and of the result, and the committed-evidence manifest.
  The primitives the code calls (SHA-256, HMAC-SHA-256, AES-GCM of \<^verbatim>\<open>cryptography\<close>, pydantic's
  decoding of a result envelope) are the fields of a record \<open>lib\<close> that every operation takes;
  \<open>lib_ok\<close> states the documented behaviour the code relies on.
\<close>


section \<open>Library primitives\<close>

record lib =
  lib_sha256 :: "bytes \<Rightarrow> bytes"
  lib_hmac :: "bytes \<Rightarrow> bytes \<Rightarrow> bytes"
  lib_encrypt :: "bytes \<Rightarrow> bytes \<Rightarrow> bytes \<Rightarrow> bytes \<Rightarrow> bytes"
  lib_decrypt :: "bytes \<Rightarrow> bytes \<Rightarrow> bytes \<Rightarrow> bytes \<Rightarrow> bytes option"
  lib_parse_result :: "bytes \<Rightarrow> result_envelope option"

text \<open>
  Digests are 32 bytes; decrypting what was encrypted under the same key, nonce and
  associated data gives the plaintext back; a parsed result envelope is a valid one.
\<close>

definition lib_ok :: "lib \<Rightarrow> bool" where
  "lib_ok L \<longleftrightarrow>
     (\<forall>x. length (lib_sha256 L x) = 32) \<and>
     (\<forall>k m. length (lib_hmac L k m) = 32) \<and>
     (\<forall>k n p a. lib_decrypt L k n (lib_encrypt L k n p a) a = Some p) \<and>
     (\<forall>j r. lib_parse_result L j = Some r \<longrightarrow> result_envelope_ok r)"

text \<open>
  Keys of one repository: the AES-GCM storage key and the MAC key derived from it.
\<close>

record storage_keys =
  sk_aead :: bytes
  sk_mac :: bytes

definition SEMANTIC_MAC_CONTEXT :: bytes where
  "SEMANTIC_MAC_CONTEXT = encode ''mycogni.runner-mailbox.semantic-mac.v1'' @ [0]"

definition storage_keys_of :: "lib \<Rightarrow> bytes \<Rightarrow> storage_keys" where
  "storage_keys_of L key = \<lparr>sk_aead = key, sk_mac = lib_hmac L key SEMANTIC_MAC_CONTEXT\<rparr>"

definition semantic_mac :: "lib \<Rightarrow> storage_keys \<Rightarrow> bytes \<Rightarrow> bytes \<Rightarrow> bytes" where
  "semantic_mac L K aad framed = lib_hmac L (sk_mac K) (aad @ framed)"

definition sha256_text :: "lib \<Rightarrow> bytes \<Rightarrow> string" where
  "sha256_text L payload = ''sha256:'' @ hex (lib_sha256 L payload)"


section \<open>Records at rest\<close>

record wrapped_evidence =
  we_object_id :: uuid
  we_kind :: string
  we_byte_count :: int
  we_storage_digest :: bytes
  we_semantic_mac :: bytes
  we_nonce :: bytes
  we_wrapped_payload :: bytes

record wrapped_result =
  wr_byte_count :: int
  wr_storage_digest :: bytes
  wr_semantic_mac :: bytes
  wr_nonce :: bytes
  wr_wrapped_payload :: bytes

record committed_manifest =
  cm_item_count :: int
  cm_storage_digest :: bytes
  cm_semantic_mac :: bytes


section \<open>Associated data, framing and the binding digest\<close>

definition WRAP_CONTEXT :: bytes where
  "WRAP_CONTEXT = encode ''mycogni.runner-mailbox.evidence-wrap.v1'' @ [0]"

definition RESULT_WRAP_CONTEXT :: bytes where
  "RESULT_WRAP_CONTEXT = encode ''mycogni.runner-mailbox.result-wrap.v1'' @ [0]"

definition MANIFEST_CONTEXT :: bytes where
  "MANIFEST_CONTEXT = encode ''mycogni.runner-mailbox.committed-manifest.v1'' @ [0]"

definition u64_be :: "int \<Rightarrow> bytes" where
  "u64_be n = to_bytes_be 8 (nat n)"

lemma length_u64_be [simp]: "length (u64_be n) = 8"
  by (simp add: u64_be_def)

definition evidence_aad :: "uuid \<Rightarrow> uuid \<Rightarrow> uuid \<Rightarrow> string \<Rightarrow> int \<Rightarrow> bytes" where
  "evidence_aad mailbox_id object_id slot kind byte_count =
     WRAP_CONTEXT @ uuid_bytes mailbox_id @ uuid_bytes object_id @ uuid_bytes slot
       @ encode kind @ [0] @ u64_be byte_count"

text \<open>
  \<^verbatim>\<open>datetime.isoformat(timespec="microseconds")\<close> of a UTC instant: the proleptic Gregorian
  date of the day number, then the time of day, then \<^verbatim>\<open>+00:00\<close>.
\<close>

definition utc_isoformat :: "int \<Rightarrow> string" where
  "utc_isoformat t =
     (let day = t div 86400000000; us = t mod 86400000000;
          (y, m, d) = civil_from_days day
      in zero_pad 4 y @ ''-'' @ zero_pad 2 m @ ''-'' @ zero_pad 2 d @ ''T''
         @ zero_pad 2 (us div 3600000000) @ '':'' @ zero_pad 2 (us div 60000000 mod 60) @ '':''
         @ zero_pad 2 (us div 1000000 mod 60) @ ''.'' @ zero_pad 6 (us mod 1000000) @ ''+00:00'')"

definition binding_parts :: "action_binding \<Rightarrow> bytes list" where
  "binding_parts b =
     [uuid_bytes (b_mailbox_id b), uuid_bytes (b_action_id b), uuid_bytes (b_intent_id b),
      uuid_bytes (b_attempt_id b),
      encode (b_connector_release b), encode (b_capability b),
      encode (b_selected_artifact_digest b),
      encode (show_int (b_dispatch_epoch b)), encode (show_int (b_fence b)),
      encode (show_int (b_authorization_epoch b)),
      encode (utc_isoformat (instant (b_claim_deadline_utc b))),
      encode (utc_isoformat (instant (b_deadline_utc b))),
      encode (show_int (b_wall_seconds b)), encode (show_int (b_response_bytes b)),
      encode (b_envelope_digest b)]"

definition frame_parts :: "bytes list \<Rightarrow> bytes" where
  "frame_parts ps = concat (map (\<lambda>p. u64_be (len p) @ p) ps)"

definition binding_digest :: "lib \<Rightarrow> action_binding \<Rightarrow> bytes" where
  "binding_digest L b = lib_sha256 L (frame_parts (binding_parts b))"

definition result_aad :: "lib \<Rightarrow> action_binding \<Rightarrow> int \<Rightarrow> bytes" where
  "result_aad L b byte_count = RESULT_WRAP_CONTEXT @ binding_digest L b @ u64_be byte_count"


section \<open>Evidence\<close>

text \<open>The wrapping that \<^verbatim>\<open>stage_evidence\<close> performs.\<close>

definition framed_evidence :: "lib \<Rightarrow> evidence_upload \<Rightarrow> bytes" where
  "framed_evidence L e = uuid_bytes (eu_object_id e) @ lib_sha256 L (eu_payload e) @ eu_payload e"

definition wrap_evidence ::
    "lib \<Rightarrow> storage_keys \<Rightarrow> bytes \<Rightarrow> uuid \<Rightarrow> evidence_upload \<Rightarrow> wrapped_evidence" where
  "wrap_evidence L K nonce mailbox_id e =
     (let aad = evidence_aad mailbox_id (eu_object_id e) (eu_object_id e) (eu_kind e)
                  (len (eu_payload e));
          framed = framed_evidence L e;
          wrapped = lib_encrypt L (sk_aead K) nonce framed aad
      in \<lparr>we_object_id = eu_object_id e, we_kind = eu_kind e,
          we_byte_count = len (eu_payload e), we_storage_digest = lib_sha256 L wrapped,
          we_semantic_mac = semantic_mac L K aad framed, we_nonce = nonce,
          we_wrapped_payload = wrapped\<rparr>)"

abbreviation uncertain :: "mailbox_error + 'a" where
  "uncertain \<equiv> Inl (Denied INTERNAL_UNCERTAINTY)"

definition unwrap ::
    "lib \<Rightarrow> storage_keys \<Rightarrow> uuid \<Rightarrow> uuid \<Rightarrow> wrapped_evidence \<Rightarrow> mailbox_error + evidence_upload" where
  "unwrap L K mailbox_id slot item =
     (if slot \<noteq> we_object_id item \<or> we_byte_count item \<le> 0 \<or>
         length (we_storage_digest item) \<noteq> 32 \<or> length (we_semantic_mac item) \<noteq> 32 \<or>
         length (we_nonce item) \<noteq> 12
      then uncertain
      else if lib_sha256 L (we_wrapped_payload item) \<noteq> we_storage_digest item then uncertain
      else
        let aad = evidence_aad mailbox_id (we_object_id item) slot (we_kind item)
                    (we_byte_count item)
        in case lib_decrypt L (sk_aead K) (we_nonce item) (we_wrapped_payload item) aad of
             None \<Rightarrow> uncertain
           | Some framed \<Rightarrow>
               if semantic_mac L K aad framed \<noteq> we_semantic_mac item then uncertain
               else if len framed \<noteq> 16 + 32 + we_byte_count item then uncertain
               else if take 16 framed \<noteq> uuid_bytes slot then uncertain
               else
                 let raw_digest = take 32 (drop 16 framed); payload = drop 48 framed
                 in if len payload \<noteq> we_byte_count item \<or> lib_sha256 L payload \<noteq> raw_digest
                    then uncertain
                    else
                      let e = \<lparr>eu_object_id = we_object_id item, eu_kind = we_kind item,
                               eu_payload_digest = ''sha256:'' @ hex raw_digest,
                               eu_payload = payload\<rparr>
                      in if evidence_upload_ok e then Inr e else Inl Value_Error)"

text \<open>
  \<^verbatim>\<open>_validated_evidence_slots\<close>: unwrap every slot in dictionary order, refusing a second
  payload for the same object.
\<close>

fun validated_slots ::
    "lib \<Rightarrow> storage_keys \<Rightarrow> uuid \<Rightarrow> (uuid, evidence_upload) dict \<Rightarrow> (uuid, wrapped_evidence) dict
     \<Rightarrow> mailbox_error + (uuid, evidence_upload) dict" where
  "validated_slots L K mailbox_id acc [] = Inr acc"
| "validated_slots L K mailbox_id acc ((slot, item) # rest) =
     (case unwrap L K mailbox_id slot item of
        Inl e \<Rightarrow> Inl e
      | Inr ev \<Rightarrow>
          if eu_object_id ev \<in> keys acc then uncertain
          else validated_slots L K mailbox_id (AList.update (eu_object_id ev) ev acc) rest)"

definition validated_evidence_slots ::
    "lib \<Rightarrow> storage_keys \<Rightarrow> uuid \<Rightarrow> (uuid, wrapped_evidence) dict
     \<Rightarrow> mailbox_error + (uuid, evidence_upload) dict" where
  "validated_evidence_slots L K mailbox_id evidence =
     (case validated_slots L K mailbox_id [] evidence of
        Inl e \<Rightarrow> Inl e
      | Inr validated \<Rightarrow> if keys validated \<noteq> keys evidence then uncertain else Inr validated)"


section \<open>Results\<close>

definition framed_result :: "lib \<Rightarrow> action_binding \<Rightarrow> bytes \<Rightarrow> bytes" where
  "framed_result L b result_json =
     binding_digest L b @ lib_sha256 L result_json @ result_json"

definition wrap_result ::
    "lib \<Rightarrow> storage_keys \<Rightarrow> bytes \<Rightarrow> action_binding \<Rightarrow> bytes \<Rightarrow> wrapped_result" where
  "wrap_result L K nonce b result_json =
     (let aad = result_aad L b (len result_json);
          framed = framed_result L b result_json;
          wrapped = lib_encrypt L (sk_aead K) nonce framed aad
      in \<lparr>wr_byte_count = len result_json, wr_storage_digest = lib_sha256 L wrapped,
          wr_semantic_mac = semantic_mac L K aad framed, wr_nonce = nonce,
          wr_wrapped_payload = wrapped\<rparr>)"

definition unwrap_result ::
    "lib \<Rightarrow> storage_keys \<Rightarrow> action_binding \<Rightarrow> wrapped_result \<Rightarrow> mailbox_error + bytes" where
  "unwrap_result L K b item =
     (if wr_byte_count item \<le> 0 \<or> length (wr_storage_digest item) \<noteq> 32 \<or>
         length (wr_semantic_mac item) \<noteq> 32 \<or> length (wr_nonce item) \<noteq> 12
      then uncertain
      else if lib_sha256 L (wr_wrapped_payload item) \<noteq> wr_storage_digest item then uncertain
      else
        let aad = result_aad L b (wr_byte_count item)
        in case lib_decrypt L (sk_aead K) (wr_nonce item) (wr_wrapped_payload item) aad of
             None \<Rightarrow> uncertain
           | Some framed \<Rightarrow>
               if semantic_mac L K aad framed \<noteq> wr_semantic_mac item then uncertain
               else if len framed \<noteq> 32 + 32 + wr_byte_count item then uncertain
               else if take 32 framed \<noteq> binding_digest L b then uncertain
               else
                 let raw_digest = take 32 (drop 32 framed); payload = drop 64 framed
                 in if len payload \<noteq> wr_byte_count item \<or> lib_sha256 L payload \<noteq> raw_digest
                    then uncertain else Inr payload)"

text \<open>
  \<^verbatim>\<open>_validate_result_references\<close>: the parsed result names this action and attempt and
  references exactly the staged evidence, each with its kind, digest and size.
\<close>

definition reference_matches :: "(uuid, evidence_upload) dict \<Rightarrow> evidence_reference \<Rightarrow> bool" where
  "reference_matches evidence item =
     (case map_of evidence (er_mailbox_object_id item) of
        None \<Rightarrow> False
      | Some u \<Rightarrow> er_kind item = eu_kind u \<and> er_payload_digest item = eu_payload_digest u \<and>
                  er_byte_count item = len (eu_payload u))"

definition validate_result_references ::
    "lib \<Rightarrow> action_binding \<Rightarrow> bytes \<Rightarrow> (uuid, evidence_upload) dict \<Rightarrow> mailbox_error + unit" where
  "validate_result_references L b result_json evidence =
     (case lib_parse_result L result_json of
        None \<Rightarrow> uncertain
      | Some r \<Rightarrow>
          if re_action_id r \<noteq> b_action_id b \<or> re_attempt_id r \<noteq> b_attempt_id b then uncertain
          else if \<not> distinct (map er_mailbox_object_id (re_evidence r)) \<or>
                  set (map er_mailbox_object_id (re_evidence r)) \<noteq> keys evidence then uncertain
          else if \<not> list_all (reference_matches evidence) (re_evidence r) then uncertain
          else Inr ())"


section \<open>The committed-evidence manifest\<close>

definition manifest_frame :: "lib \<Rightarrow> action_binding \<Rightarrow> uuid list \<Rightarrow> wrapped_result \<Rightarrow> bytes" where
  "manifest_frame L b sorted_ids result =
     MANIFEST_CONTEXT @ binding_digest L b @ wr_storage_digest result
       @ u64_be (len sorted_ids) @ concat (map uuid_bytes sorted_ids)"

definition build_committed_manifest ::
    "lib \<Rightarrow> storage_keys \<Rightarrow> action_binding \<Rightarrow> uuid list \<Rightarrow> wrapped_result
     \<Rightarrow> mailbox_error + committed_manifest" where
  "build_committed_manifest L K b object_ids result =
     (if \<not> distinct object_ids then uncertain
      else
        let sorted_ids = sort object_ids; frame = manifest_frame L b sorted_ids result
        in Inr \<lparr>cm_item_count = len sorted_ids, cm_storage_digest = lib_sha256 L frame,
                cm_semantic_mac = lib_hmac L (sk_mac K) (MANIFEST_CONTEXT @ frame)\<rparr>)"

definition validate_committed_manifest ::
    "lib \<Rightarrow> storage_keys \<Rightarrow> action_binding \<Rightarrow> wrapped_result option \<Rightarrow> committed_manifest option
     \<Rightarrow> uuid list \<Rightarrow> mailbox_error + unit" where
  "validate_committed_manifest L K b result manifest object_ids =
     (case (manifest, result) of
        (Some m, Some r) \<Rightarrow>
          if length (cm_storage_digest m) \<noteq> 32 \<or> length (cm_semantic_mac m) \<noteq> 32 then uncertain
          else (case build_committed_manifest L K b object_ids r of
                  Inl e \<Rightarrow> Inl e
                | Inr expected \<Rightarrow>
                    if cm_item_count m \<noteq> cm_item_count expected \<or>
                       cm_storage_digest m \<noteq> cm_storage_digest expected \<or>
                       cm_semantic_mac m \<noteq> cm_semantic_mac expected
                    then uncertain else Inr ())
      | _ \<Rightarrow> uncertain)"


section \<open>Properties\<close>

lemma lib_okD:
  assumes "lib_ok L"
  shows "length (lib_sha256 L x) = 32" and "length (lib_hmac L k m) = 32"
    and "lib_decrypt L k n (lib_encrypt L k n p a) a = Some p"
    and "lib_parse_result L j = Some r \<Longrightarrow> result_envelope_ok r"
  using assms by (auto simp: lib_ok_def)

lemma length_binding_digest: "lib_ok L \<Longrightarrow> length (binding_digest L b) = 32"
  by (simp add: binding_digest_def lib_okD)

text \<open>Wrapping then unwrapping under the same keys, mailbox and slot gives the upload back.\<close>

lemma unwrap_wrap:
  assumes "lib_ok L" and "length nonce = 12" and "evidence_upload_ok e"
    and "sha256_text L (eu_payload e) = eu_payload_digest e"
  shows "unwrap L K mailbox_id (eu_object_id e) (wrap_evidence L K nonce mailbox_id e) = Inr e"
proof -
  let ?framed = "framed_evidence L e"
  have "length (lib_sha256 L (eu_payload e)) = 32" using assms(1) by (rule lib_okD)
  then have "take 16 ?framed = uuid_bytes (eu_object_id e)"
    and "take 32 (drop 16 ?framed) = lib_sha256 L (eu_payload e)"
    and "drop 48 ?framed = eu_payload e" and "len ?framed = 16 + 32 + len (eu_payload e)"
    by (simp_all add: framed_evidence_def)
  moreover have "eu_payload e \<noteq> []" using assms(3) by (simp add: evidence_upload_ok_def)
  ultimately show ?thesis
    using assms by (simp add: unwrap_def wrap_evidence_def Let_def lib_okD semantic_mac_def
        sha256_text_def evidence_upload_ok_def)
qed

text \<open>
  Whatever is stored in a slot, a successful unwrap is authentic for that slot: the object is
  the slot's, its declared size is the size of the payload, the payload has the digest the
  upload names, the ciphertext and the MAC are the stored ones.
\<close>

lemma unwrap_Inr:
  assumes "unwrap L K mailbox_id slot item = Inr e"
  shows "eu_object_id e = slot" and "we_object_id item = slot" and "eu_kind e = we_kind item"
    and "len (eu_payload e) = we_byte_count item" and "0 < we_byte_count item"
    and "eu_payload_digest e = sha256_text L (eu_payload e)"
    and "evidence_upload_ok e"
    and "lib_decrypt L (sk_aead K) (we_nonce item) (we_wrapped_payload item)
           (evidence_aad mailbox_id slot slot (we_kind item) (we_byte_count item))
         = Some (framed_evidence L e)"
    and "semantic_mac L K (evidence_aad mailbox_id slot slot (we_kind item) (we_byte_count item))
           (framed_evidence L e) = we_semantic_mac item"
proof -
  obtain framed where f:
    "lib_decrypt L (sk_aead K) (we_nonce item) (we_wrapped_payload item)
       (evidence_aad mailbox_id (we_object_id item) slot (we_kind item) (we_byte_count item)) = Some framed"
    using assms by (auto simp: unwrap_def Let_def split: if_splits option.splits)
  note facts = assms [unfolded unwrap_def Let_def f option.case]
  show slot: "we_object_id item = slot" and "0 < we_byte_count item"
    using facts by (auto split: if_splits)
  have e: "e = \<lparr>eu_object_id = we_object_id item, eu_kind = we_kind item,
      eu_payload_digest = ''sha256:'' @ hex (take 32 (drop 16 framed)), eu_payload = drop 48 framed\<rparr>"
    and ok: "evidence_upload_ok e"
    using facts by (auto split: if_splits)
  then show "eu_object_id e = slot" and "eu_kind e = we_kind item" and "evidence_upload_ok e"
    using slot by simp_all
  have digest: "lib_sha256 L (drop 48 framed) = take 32 (drop 16 framed)"
    and len: "len (drop 48 framed) = we_byte_count item"
    and hd: "take 16 framed = uuid_bytes slot"
    and mac: "semantic_mac L K (evidence_aad mailbox_id (we_object_id item) slot (we_kind item)
      (we_byte_count item)) framed = we_semantic_mac item"
    using facts by (auto split: if_splits)
  then show "len (eu_payload e) = we_byte_count item"
    and "eu_payload_digest e = sha256_text L (eu_payload e)"
    by (simp_all add: e sha256_text_def)
  have "framed_evidence L e = take 16 framed @ take 32 (drop 16 framed) @ drop 32 (drop 16 framed)"
    using digest hd slot by (simp add: framed_evidence_def e)
  also have "\<dots> = framed" by (metis append_take_drop_id)
  finally have fr: "framed_evidence L e = framed" .
  show "lib_decrypt L (sk_aead K) (we_nonce item) (we_wrapped_payload item)
           (evidence_aad mailbox_id slot slot (we_kind item) (we_byte_count item))
         = Some (framed_evidence L e)"
    using f slot fr by simp
  show "semantic_mac L K (evidence_aad mailbox_id slot slot (we_kind item) (we_byte_count item))
           (framed_evidence L e) = we_semantic_mac item"
    using mac slot fr by simp
qed

lemma unwrap_wrap_result:
  assumes "lib_ok L" and "length nonce = 12" and "result_json \<noteq> []"
  shows "unwrap_result L K b (wrap_result L K nonce b result_json) = Inr result_json"
proof -
  let ?framed = "framed_result L b result_json"
  have "length (lib_sha256 L result_json) = 32" and "length (binding_digest L b) = 32"
    using assms(1) by (auto intro: lib_okD length_binding_digest)
  then have "take 32 ?framed = binding_digest L b"
    and "take 32 (drop 32 ?framed) = lib_sha256 L result_json"
    and "drop 64 ?framed = result_json" and "len ?framed = 32 + 32 + len result_json"
    by (simp_all add: framed_result_def)
  then show ?thesis
    using assms by (simp add: unwrap_result_def wrap_result_def Let_def lib_okD semantic_mac_def)
qed

text \<open>A result unwrapped for one binding was sealed for that binding's digest.\<close>

lemma unwrap_result_Inr:
  assumes "unwrap_result L K b item = Inr payload"
  shows "len payload = wr_byte_count item" and "0 < wr_byte_count item"
    and "lib_decrypt L (sk_aead K) (wr_nonce item) (wr_wrapped_payload item)
           (result_aad L b (wr_byte_count item)) = Some (framed_result L b payload)"
proof -
  obtain framed where f:
    "lib_decrypt L (sk_aead K) (wr_nonce item) (wr_wrapped_payload item)
       (result_aad L b (wr_byte_count item)) = Some framed"
    using assms by (auto simp: unwrap_result_def Let_def split: if_splits option.splits)
  note facts = assms [unfolded unwrap_result_def Let_def f option.case]
  show "len payload = wr_byte_count item" and "0 < wr_byte_count item"
    using facts by (auto split: if_splits)
  have "payload = drop 64 framed" and "lib_sha256 L (drop 64 framed) = take 32 (drop 32 framed)"
    and "take 32 framed = binding_digest L b"
    using facts by (auto split: if_splits)
  then have "framed_result L b payload = take 32 framed @ take 32 (drop 32 framed) @ drop 32 (drop 32 framed)"
    by (simp add: framed_result_def)
  also have "\<dots> = framed" by (metis append_take_drop_id)
  finally show "lib_decrypt L (sk_aead K) (wr_nonce item) (wr_wrapped_payload item)
      (result_aad L b (wr_byte_count item)) = Some (framed_result L b payload)"
    using f by simp
qed


subsection \<open>Framing is unambiguous\<close>

lemma frame_parts_Cons: "frame_parts (p # ps) = u64_be (len p) @ p @ frame_parts ps"
  by (simp add: frame_parts_def)

lemma u64_be_nonempty: "u64_be n \<noteq> []"
  using length_u64_be [of n] by (metis list.size(3) zero_neq_numeral)

lemma frame_parts_Nil [simp]: "frame_parts ps = [] \<longleftrightarrow> ps = []"
  by (cases ps) (simp_all add: frame_parts_def u64_be_nonempty)

lemma frame_parts_inject:
  assumes "\<forall>p \<in> set ps \<union> set qs. len p < 2 ^ 64"
    and "frame_parts ps = frame_parts qs"
  shows "ps = qs"
  using assms
proof (induction ps arbitrary: qs)
  case Nil
  then show ?case by (metis frame_parts_Nil)
next
  case (Cons p ps)
  then obtain q qs' where qs: "qs = q # qs'"
    by (metis frame_parts_Nil list.exhaust list.distinct(1))
  have hd: "u64_be (len p) = u64_be (len q)" and tl: "p @ frame_parts ps = q @ frame_parts qs'"
    using Cons.prems(2) by (simp_all add: qs frame_parts_Cons)
  have "length p < 256 ^ 8" and "length q < 256 ^ 8"
    using Cons.prems(1) by (auto simp: qs)
  then have "length p = length q"
    using hd by (simp add: u64_be_def to_bytes_be_inject)
  then have "p = q" and "frame_parts ps = frame_parts qs'"
    using tl by simp_all
  then show ?case
    using Cons.IH [of qs'] Cons.prems(1) by (simp add: qs)
qed


subsection \<open>Validated slots\<close>

lemma validated_slots_Inr:
  assumes "validated_slots L K mb acc items = Inr validated" and "wf_dict acc"
  shows "wf_dict validated"
    and "map fst validated = map fst acc @ map fst items"
    and "\<And>k ev. map_of validated k = Some ev \<Longrightarrow> map_of acc k = Some ev
           \<or> (\<exists>item. (k, item) \<in> set items \<and> unwrap L K mb k item = Inr ev)"
proof -
  have "wf_dict validated \<and> map fst validated = map fst acc @ map fst items \<and>
    (\<forall>k ev. map_of validated k = Some ev \<longrightarrow> map_of acc k = Some ev
           \<or> (\<exists>item. (k, item) \<in> set items \<and> unwrap L K mb k item = Inr ev))"
    using assms
  proof (induction L K mb acc items rule: validated_slots.induct)
    case (2 L K mb acc slot item rest)
    then obtain ev where u: "unwrap L K mb slot item = Inr ev" and new: "eu_object_id ev \<notin> keys acc"
      and rest: "validated_slots L K mb (AList.update (eu_object_id ev) ev acc) rest = Inr validated"
      by (auto split: sum.splits if_splits)
    have slot: "eu_object_id ev = slot" by (rule unwrap_Inr(1) [OF u])
    have "map fst (AList.update slot ev acc) = map fst acc @ [slot]"
      using new slot by (simp add: update_keys)
    then show ?case
      using "2.IH" [OF u new rest] "2.prems"(2) u by (fastforce simp: slot split: if_splits)
  qed simp
  then show "wf_dict validated" and "map fst validated = map fst acc @ map fst items"
    and "\<And>k ev. map_of validated k = Some ev \<Longrightarrow> map_of acc k = Some ev
           \<or> (\<exists>item. (k, item) \<in> set items \<and> unwrap L K mb k item = Inr ev)"
    by blast+
qed

lemma validated_evidence_slots_Inr:
  assumes "validated_evidence_slots L K mb evidence = Inr validated"
  shows "wf_dict validated" and "map fst validated = map fst evidence"
    and "\<And>k ev. map_of validated k = Some ev \<Longrightarrow>
           \<exists>item. (k, item) \<in> set evidence \<and> unwrap L K mb k item = Inr ev"
proof -
  have v: "validated_slots L K mb [] evidence = Inr validated"
    using assms by (auto simp: validated_evidence_slots_def split: sum.splits if_splits)
  note lem = validated_slots_Inr [OF v wf_dict_Nil]
  show "wf_dict validated" and "map fst validated = map fst evidence"
    using lem(1,2) by simp_all
  show "\<exists>item. (k, item) \<in> set evidence \<and> unwrap L K mb k item = Inr ev"
    if "map_of validated k = Some ev" for k ev
    using lem(3) [OF that] by simp
qed

end
