(* ===== verification/Mailbox_Volatile.thy ===== *)
theory Mailbox_Volatile
  imports Mailbox_Wrap "HOL-Library.Product_Lexorder"
begin

text \<open>
  The volatile mailbox repository (\<^verbatim>\<open>VolatileMailboxRepository\<close> of
  \<^verbatim>\<open>services/runner_mailbox/volatile.py\<close>).  Every method runs under one lock, so it is one
  function from the repository state to a result and a new state; the state is returned on
  every path because the code keeps what it mutated before it raised (an expiry, a claim whose
  delivery crashed).  A call carries the clock reading, the random nonce it draws and the
  failure injector's decision for each crash point.
\<close>


section \<open>State\<close>

record mrec =
  r_binding :: action_binding
  r_created_at :: int
  r_last_seen :: int
  r_action_digest :: bytes
  r_claim_digest :: bytes
  r_collection_digest :: bytes
  r_state :: mailbox_state
  r_collection :: collection_state
  r_envelope_json :: "bytes option"
  r_action_key :: "bytes option"
  r_result_credential :: "bytes option"
  r_result_digest :: "bytes option"
  r_evidence :: "(uuid, wrapped_evidence) dict"
  r_result :: "wrapped_result option"
  r_manifest :: "committed_manifest option"
  r_committed_at :: "int option"
  r_terminal_at :: "int option"

record tombstone =
  t_created_at :: int
  t_expires_at :: int

record repo =
  p_records :: "(uuid, mrec) dict"
  p_tombstones :: "(uuid, tombstone) dict"
  p_maintenance :: bytes
  p_limits :: mailbox_limits
  p_keys :: storage_keys
  p_last_seen :: "int option"
  p_active :: int
  p_evidence :: int
  p_committed :: int

record call =
  c_now :: datetime
  c_nonce :: bytes
  c_crash :: "crash_point \<Rightarrow> bool"

type_synonym 'a outcome = "(mailbox_error + 'a) \<times> repo"

abbreviation deny :: "mailbox_denial \<Rightarrow> repo \<Rightarrow> 'a outcome" where
  "deny d s \<equiv> (Inl (Denied d), s)"

definition attempt :: "mailbox_error + 'a \<Rightarrow> repo \<Rightarrow> ('a \<Rightarrow> 'b outcome) \<Rightarrow> 'b outcome" where
  "attempt m s k = (case m of Inl e \<Rightarrow> (Inl e, s) | Inr x \<Rightarrow> k x)"

lemma attempt_simps [simp]:
  "attempt (Inl e) s k = (Inl e, s)" "attempt (Inr x) s k = k x"
  by (simp_all add: attempt_def)

lemma attempt_split:
  "P (attempt m s k) \<longleftrightarrow> (\<forall>e. m = Inl e \<longrightarrow> P (Inl e, s)) \<and> (\<forall>x. m = Inr x \<longrightarrow> P (k x))"
  by (cases m) simp_all

definition new_repo :: "lib \<Rightarrow> bytes \<Rightarrow> mailbox_limits \<Rightarrow> bytes \<Rightarrow> mailbox_error + repo" where
  "new_repo L maintenance limits key =
     (if length maintenance \<noteq> 32 then Inl Value_Error
      else if length key \<noteq> 32 then Inl Value_Error
      else Inr \<lparr>p_records = [], p_tombstones = [], p_maintenance = maintenance,
                p_limits = limits, p_keys = storage_keys_of L key, p_last_seen = None,
                p_active = 0, p_evidence = 0, p_committed = 0\<rparr>)"


section \<open>Helpers\<close>

definition get_record :: "repo \<Rightarrow> uuid \<Rightarrow> mailbox_error + mrec" where
  "get_record s mailbox_id =
     (case map_of (p_records s) mailbox_id of
        Some r \<Rightarrow> Inr r
      | None \<Rightarrow> if mailbox_id \<in> keys (p_tombstones s) then Inl (Denied REPLAY)
                else Inl (Denied NOT_FOUND))"

definition put_record :: "mrec \<Rightarrow> repo \<Rightarrow> repo" where
  "put_record r s =
     s\<lparr>p_records := AList.update (b_mailbox_id (r_binding r)) r (p_records s)\<rparr>"

definition credentials_of :: "mrec \<Rightarrow> bytes list" where
  "credentials_of r = [r_action_digest r, r_claim_digest r, r_collection_digest r]
     @ (case r_result_digest r of None \<Rightarrow> [] | Some d \<Rightarrow> [d])"

definition credential_in_use :: "repo \<Rightarrow> bytes \<Rightarrow> uuid option \<Rightarrow> bool" where
  "credential_in_use s digest excluding =
     list_ex (\<lambda>(mailbox_id, r). Some mailbox_id \<noteq> excluding \<and> digest \<in> set (credentials_of r))
       (p_records s)"

definition require_credential :: "bytes \<Rightarrow> bytes \<Rightarrow> mailbox_error + unit" where
  "require_credential expected presented =
     (if expected = presented then Inr () else Inl (Denied UNAUTHORIZED))"

definition require_maintenance :: "repo \<Rightarrow> bytes \<Rightarrow> mailbox_error + unit" where
  "require_maintenance s presented = require_credential (p_maintenance s) presented"

definition require_binding :: "mrec \<Rightarrow> action_binding \<Rightarrow> mailbox_error + unit" where
  "require_binding r b = (if r_binding r = b then Inr () else Inl (Denied BINDING_MISMATCH))"

definition require_result_access ::
    "mrec \<Rightarrow> action_binding \<Rightarrow> bytes \<Rightarrow> mailbox_error + unit" where
  "require_result_access r b digest =
     (case require_binding r b of
        Inl e \<Rightarrow> Inl e
      | Inr _ \<Rightarrow>
          if r_state r \<noteq> S_CLAIMED_ONCE then Inl (Denied REPLAY)
          else (case r_result_digest r of
                  None \<Rightarrow> uncertain
                | Some expected \<Rightarrow> require_credential expected digest))"

definition validated_installation_now :: "repo \<Rightarrow> datetime \<Rightarrow> mailbox_error + int" where
  "validated_installation_now s d =
     (if \<not> is_utc d then uncertain
      else (case p_last_seen s of
              None \<Rightarrow> Inr (instant d)
            | Some t \<Rightarrow> if instant d < t then uncertain else Inr (instant d)))"

definition validated_record_now :: "repo \<Rightarrow> mrec \<Rightarrow> datetime \<Rightarrow> mailbox_error + int" where
  "validated_record_now s r d =
     (case validated_installation_now s d of
        Inl e \<Rightarrow> Inl e
      | Inr now \<Rightarrow> if now < r_last_seen r then uncertain else Inr now)"

definition advance_installation_time :: "int \<Rightarrow> repo \<Rightarrow> repo" where
  "advance_installation_time now s =
     (case p_last_seen s of
        None \<Rightarrow> s\<lparr>p_last_seen := Some now\<rparr>
      | Some t \<Rightarrow> if now > t then s\<lparr>p_last_seen := Some now\<rparr> else s)"

definition observe_time :: "int \<Rightarrow> mrec \<times> repo \<Rightarrow> mrec \<times> repo" where
  "observe_time now p = ((fst p)\<lparr>r_last_seen := now\<rparr>, advance_installation_time now (snd p))"

definition opt_len :: "bytes option \<Rightarrow> int" where
  "opt_len x = (case x of None \<Rightarrow> 0 | Some bs \<Rightarrow> len bs)"

definition active_bytes :: "mrec \<Rightarrow> int" where
  "active_bytes r =
     opt_len (r_envelope_json r) + opt_len (r_action_key r) + opt_len (r_result_credential r)"

definition record_evidence_bytes :: "mrec \<Rightarrow> int" where
  "record_evidence_bytes r = sum_vals we_byte_count (r_evidence r)"

definition clear_claim_delivery_material :: "mrec \<times> repo \<Rightarrow> mrec \<times> repo" where
  "clear_claim_delivery_material p =
     (let r = fst p; s = snd p
      in (r\<lparr>r_action_key := None, r_result_credential := None, r_envelope_json := None\<rparr>,
          s\<lparr>p_active := p_active s - active_bytes r\<rparr>))"

definition result_bytes :: "mrec \<Rightarrow> int" where
  "result_bytes r = (case r_result r of None \<Rightarrow> 0 | Some w \<Rightarrow> wr_byte_count w)"

definition release_record_payloads :: "mrec \<times> repo \<Rightarrow> mrec \<times> repo" where
  "release_record_payloads p =
     (let r = fst p; s = snd p;
          evidence = record_evidence_bytes r; committed = result_bytes r + evidence
      in (r\<lparr>r_result := None, r_manifest := None, r_evidence := []\<rparr>,
          s\<lparr>p_evidence := p_evidence s - evidence,
            p_committed := (if r_committed_at r \<noteq> None then p_committed s - committed
                            else p_committed s)\<rparr>))"

definition clear_result_digest :: "mrec \<times> repo \<Rightarrow> mrec \<times> repo" where
  "clear_result_digest p = ((fst p)\<lparr>r_result_digest := None\<rparr>, snd p)"

definition clear_action_material :: "mrec \<times> repo \<Rightarrow> mrec \<times> repo" where
  "clear_action_material p =
     release_record_payloads (clear_result_digest (clear_claim_delivery_material p))"

definition discard_record :: "mrec \<times> repo \<Rightarrow> mrec \<times> repo" where
  "discard_record p =
     release_record_payloads (clear_result_digest (clear_claim_delivery_material p))"

definition expire_if_due :: "int \<Rightarrow> mrec \<times> repo \<Rightarrow> bool \<times> mrec \<times> repo" where
  "expire_if_due now p =
     (let r = fst p
      in if r_state r = S_EXPIRED then (True, observe_time now p)
         else
           let deadline = (if r_state r \<in> {S_EMPTY, S_OFFERED}
                           then b_claim_deadline_utc (r_binding r)
                           else b_deadline_utc (r_binding r))
           in if r_state r \<in> {S_EMPTY, S_OFFERED, S_CLAIMED_ONCE} \<and> now \<ge> instant deadline
              then let q = clear_action_material p
                   in (True, observe_time now
                               ((fst q)\<lparr>r_state := S_EXPIRED, r_terminal_at := Some now\<rparr>, snd q))
              else (False, p))"

definition snapshot_of :: "mrec \<Rightarrow> mailbox_snapshot" where
  "snapshot_of r =
     \<lparr>ms_mailbox_id = b_mailbox_id (r_binding r), ms_state = r_state r,
      ms_collection_state = r_collection r, ms_staged_evidence_count = len (r_evidence r),
      ms_staged_evidence_bytes = record_evidence_bytes r, ms_result_present = (r_result r \<noteq> None),
      ms_claim_material_retained = (r_action_key r \<noteq> None \<or> r_envelope_json r \<noteq> None),
      ms_result_credential_material_retained = (r_result_credential r \<noteq> None),
      ms_observed_at_utc = r_last_seen r,
      ms_claim_deadline_utc = b_claim_deadline_utc (r_binding r),
      ms_result_deadline_utc = b_deadline_utc (r_binding r)\<rparr>"

text \<open>\<^verbatim>\<open>_validated_record_material\<close>: authenticate everything a record retains.\<close>

definition validated_record_material ::
    "lib \<Rightarrow> storage_keys \<Rightarrow> mrec \<Rightarrow> mailbox_error + (uuid, evidence_upload) dict \<times> bytes option" where
  "validated_record_material L K r =
     (case validated_evidence_slots L K (b_mailbox_id (r_binding r)) (r_evidence r) of
        Inl e \<Rightarrow> Inl e
      | Inr evidence \<Rightarrow>
          if r_state r = S_RESULT_COMMITTED then
            if r_committed_at r = None then uncertain
            else if r_collection r = C_ACKNOWLEDGED then
              if evidence \<noteq> [] \<or> r_result r \<noteq> None \<or> r_manifest r \<noteq> None then uncertain
              else Inr (evidence, None)
            else if r_collection r \<notin> {C_READY, C_DELIVERING} then uncertain
            else (case (r_result r, r_manifest r) of
                    (Some w, Some m) \<Rightarrow>
                      (case unwrap_result L K (r_binding r) w of
                         Inl e \<Rightarrow> Inl e
                       | Inr result_json \<Rightarrow>
                           (case validate_result_references L (r_binding r) result_json evidence of
                              Inl e \<Rightarrow> Inl e
                            | Inr _ \<Rightarrow>
                                (case validate_committed_manifest L K (r_binding r) (Some w) (Some m)
                                        (map fst evidence) of
                                   Inl e \<Rightarrow> Inl e
                                 | Inr _ \<Rightarrow> Inr (evidence, Some result_json))))
                  | _ \<Rightarrow> uncertain)
          else if r_collection r \<noteq> C_NONE \<or> r_result r \<noteq> None \<or> r_manifest r \<noteq> None \<or>
                  r_committed_at r \<noteq> None \<or> (r_state r \<noteq> S_CLAIMED_ONCE \<and> evidence \<noteq> [])
          then uncertain else Inr (evidence, None))"


section \<open>Operations\<close>

definition create ::
    "action_binding \<Rightarrow> bytes \<Rightarrow> bytes \<Rightarrow> bytes \<Rightarrow> call \<Rightarrow> repo \<Rightarrow> mailbox_snapshot outcome" where
  "create b action_d claim_d collection_d c s =
     attempt (validated_installation_now s (c_now c)) s (\<lambda>now.
       if b_mailbox_id b \<in> keys (p_records s) then deny ALREADY_EXISTS s
       else if b_mailbox_id b \<in> keys (p_tombstones s) then deny REPLAY s
       else if len (p_records s) \<ge> max_mailboxes (p_limits s) then deny QUOTA_EXCEEDED s
       else if \<not> distinct [action_d, claim_d, collection_d] then deny INVALID_INPUT s
       else if p_maintenance s \<in> set [action_d, claim_d, collection_d] then deny INVALID_INPUT s
       else if list_ex (\<lambda>d. credential_in_use s d None) [action_d, claim_d, collection_d]
         then deny REPLAY s
       else if now \<ge> instant (b_claim_deadline_utc b) then deny EXPIRED s
       else
         let r = \<lparr>r_binding = b, r_created_at = now, r_last_seen = now,
                  r_action_digest = action_d, r_claim_digest = claim_d,
                  r_collection_digest = collection_d, r_state = S_EMPTY, r_collection = C_NONE,
                  r_envelope_json = None, r_action_key = None, r_result_credential = None,
                  r_result_digest = None, r_evidence = [], r_result = None, r_manifest = None,
                  r_committed_at = None, r_terminal_at = None\<rparr>
         in (Inr (snapshot_of r), advance_installation_time now (put_record r s)))"

definition offer ::
    "lib \<Rightarrow> action_binding \<Rightarrow> bytes \<Rightarrow> bytes \<Rightarrow> bytes \<Rightarrow> bytes \<Rightarrow> bytes \<Rightarrow> bytes \<Rightarrow> call \<Rightarrow> repo
     \<Rightarrow> mailbox_snapshot outcome" where
  "offer L b envelope action_key action_d collection_d result_cred result_d c s =
     attempt (get_record s (b_mailbox_id b)) s (\<lambda>r.
     attempt (require_binding r b) s (\<lambda>_.
     attempt (require_credential (r_collection_digest r) collection_d) s (\<lambda>_.
     attempt (require_credential (r_action_digest r) action_d) s (\<lambda>_.
     attempt (validated_record_material L (p_keys s) r) s (\<lambda>_.
     attempt (validated_record_now s r (c_now c)) s (\<lambda>now.
       if \<not> distinct [r_action_digest r, r_claim_digest r, r_collection_digest r, result_d]
         then deny INVALID_INPUT s
       else if p_maintenance s = result_d then deny INVALID_INPUT s
       else if credential_in_use s result_d (Some (b_mailbox_id (r_binding r))) then deny REPLAY s
       else
         let (due, r1, s1) = expire_if_due now (r, s)
         in if due then deny EXPIRED (put_record r1 s1)
            else if r_state r \<noteq> S_EMPTY then deny REPLAY s
            else
              let active = len envelope + len action_key + len result_cred
              in if p_active s + active > max_total_active_material_bytes (p_limits s)
                 then deny QUOTA_EXCEEDED s
                 else
                   let (r2, s2) = observe_time now
                         (r\<lparr>r_envelope_json := Some envelope, r_action_key := Some action_key,
                            r_result_credential := Some result_cred,
                            r_result_digest := Some result_d, r_state := S_OFFERED\<rparr>, s)
                   in (Inr (snapshot_of r2),
                       put_record r2 (s2\<lparr>p_active := p_active s2 + active\<rparr>))))))))"

definition claim ::
    "lib \<Rightarrow> action_binding \<Rightarrow> bytes \<Rightarrow> call \<Rightarrow> repo \<Rightarrow> claimed_action outcome" where
  "claim L b claim_d c s =
     attempt (get_record s (b_mailbox_id b)) s (\<lambda>r.
     attempt (require_credential (r_claim_digest r) claim_d) s (\<lambda>_.
     attempt (require_binding r b) s (\<lambda>_.
     attempt (validated_record_material L (p_keys s) r) s (\<lambda>_.
     attempt (validated_record_now s r (c_now c)) s (\<lambda>now.
       let (due, r1, s1) = expire_if_due now (r, s)
       in if due then deny EXPIRED (put_record r1 s1)
          else if r_state r \<noteq> S_OFFERED then deny REPLAY s
          else
            case (r_envelope_json r, r_action_key r, r_result_credential r) of
              (Some envelope, Some key, Some cred) \<Rightarrow>
                if c_crash c BEFORE_CLAIM_COMMIT then (Inl (Crashed BEFORE_CLAIM_COMMIT), s)
                else
                  let (r2, s2) = clear_claim_delivery_material
                                   (observe_time now (r\<lparr>r_state := S_CLAIMED_ONCE\<rparr>, s));
                      a = \<lparr>ca_binding = r_binding r, ca_envelope_json = envelope,
                           ca_action_key = key, ca_result_credential = cred\<rparr>
                  in (if c_crash c AFTER_CLAIM_COMMIT then Inl (Crashed AFTER_CLAIM_COMMIT)
                      else if claimed_action_ok a then Inr a else Inl Value_Error,
                      put_record r2 s2)
            | _ \<Rightarrow> deny INTERNAL_UNCERTAINTY s)))))"

definition stage_evidence ::
    "lib \<Rightarrow> action_binding \<Rightarrow> bytes \<Rightarrow> evidence_upload \<Rightarrow> call \<Rightarrow> repo
     \<Rightarrow> mailbox_snapshot outcome" where
  "stage_evidence L b result_d ev c s =
     attempt (get_record s (b_mailbox_id b)) s (\<lambda>r.
     attempt (require_result_access r b result_d) s (\<lambda>_.
     attempt (validated_record_material L (p_keys s) r) s (\<lambda>_.
     attempt (validated_record_now s r (c_now c)) s (\<lambda>now.
       let (due, r1, s1) = expire_if_due now (r, s)
       in if due then deny EXPIRED (put_record r1 s1)
          else if eu_object_id ev \<in> keys (r_evidence r) then deny REPLAY s
          else if len (r_evidence r) \<ge> MAX_EVIDENCE_ITEMS then deny EVIDENCE_LIMIT s
          else if record_evidence_bytes r + len (eu_payload ev) > b_response_bytes (r_binding r)
            then deny EVIDENCE_LIMIT s
          else if p_evidence s + len (eu_payload ev) > max_total_evidence_bytes (p_limits s)
            then deny QUOTA_EXCEEDED s
          else if sha256_text L (eu_payload ev) \<noteq> eu_payload_digest ev
            then deny DIGEST_MISMATCH s
          else
            let item = wrap_evidence L (p_keys s) (c_nonce c) (b_mailbox_id b) ev
            in attempt (unwrap L (p_keys s) (b_mailbox_id b) (eu_object_id ev) item) s (\<lambda>_.
                 if c_crash c BEFORE_EVIDENCE_COMMIT then (Inl (Crashed BEFORE_EVIDENCE_COMMIT), s)
                 else
                   let (r2, s2) = observe_time now
                         (r\<lparr>r_evidence := AList.update (eu_object_id ev) item (r_evidence r)\<rparr>, s);
                       s3 = put_record r2 (s2\<lparr>p_evidence := p_evidence s2 + we_byte_count item\<rparr>)
                   in if c_crash c AFTER_EVIDENCE_COMMIT
                      then (Inl (Crashed AFTER_EVIDENCE_COMMIT), s3)
                      else (Inr (snapshot_of r2), s3))))))"

definition seal_matches :: "(uuid, evidence_upload) dict \<Rightarrow> evidence_seal \<Rightarrow> bool" where
  "seal_matches validated seal =
     (case map_of validated (es_object_id seal) of
        None \<Rightarrow> False
      | Some u \<Rightarrow> eu_object_id u = es_object_id seal \<and> eu_kind u = es_kind seal \<and>
                  eu_payload_digest u = es_payload_digest seal \<and>
                  len (eu_payload u) = es_byte_count seal)"

definition commit_result ::
    "lib \<Rightarrow> action_binding \<Rightarrow> bytes \<Rightarrow> bytes \<Rightarrow> evidence_seal list \<Rightarrow> call \<Rightarrow> repo
     \<Rightarrow> mailbox_snapshot outcome" where
  "commit_result L b result_d result_json seals c s =
     attempt (get_record s (b_mailbox_id b)) s (\<lambda>r.
     attempt (require_result_access r b result_d) s (\<lambda>_.
     attempt (validated_record_material L (p_keys s) r) s (\<lambda>(validated, _).
     attempt (validated_record_now s r (c_now c)) s (\<lambda>now.
       let (due, r1, s1) = expire_if_due now (r, s);
           referenced = set (map es_object_id seals); staged = keys (r_evidence r);
           response = len result_json + record_evidence_bytes r
       in if due then deny EXPIRED (put_record r1 s1)
          else if referenced - staged \<noteq> {} then deny EVIDENCE_MISSING s
          else if staged - referenced \<noteq> {} then deny EVIDENCE_UNREFERENCED s
          else if \<not> list_all (seal_matches validated) seals then deny DIGEST_MISMATCH s
          else if response > b_response_bytes (r_binding r) then deny EVIDENCE_LIMIT s
          else if p_committed s + response > max_total_committed_bytes (p_limits s)
            then deny QUOTA_EXCEEDED s
          else
            let w = wrap_result L (p_keys s) (c_nonce c) (r_binding r) result_json
            in attempt (validate_result_references L (r_binding r) result_json validated) s (\<lambda>_.
               attempt (build_committed_manifest L (p_keys s) (r_binding r) (map fst validated) w) s
                 (\<lambda>manifest.
                 if c_crash c BEFORE_RESULT_COMMIT then (Inl (Crashed BEFORE_RESULT_COMMIT), s)
                 else
                   let (r2, s2) = observe_time now
                         (r\<lparr>r_result := Some w, r_manifest := Some manifest,
                            r_state := S_RESULT_COMMITTED, r_collection := C_READY,
                            r_result_digest := None, r_committed_at := Some now\<rparr>, s);
                       s3 = put_record r2 (s2\<lparr>p_committed := p_committed s2 + response\<rparr>)
                   in if c_crash c AFTER_RESULT_COMMIT then (Inl (Crashed AFTER_RESULT_COMMIT), s3)
                      else (Inr (snapshot_of r2), s3)))))))"

definition collect ::
    "lib \<Rightarrow> uuid \<Rightarrow> bytes \<Rightarrow> call \<Rightarrow> repo \<Rightarrow> committed_bundle outcome" where
  "collect L mailbox_id collection_d c s =
     attempt (get_record s mailbox_id) s (\<lambda>r.
     attempt (require_credential (r_collection_digest r) collection_d) s (\<lambda>_.
     attempt (validated_record_material L (p_keys s) r) s (\<lambda>(validated, result_json).
     attempt (validated_record_now s r (c_now c)) s (\<lambda>now.
       if r_collection r = C_ACKNOWLEDGED then deny REPLAY s
       else if r_state r \<noteq> S_RESULT_COMMITTED \<or> r_result r = None then deny INVALID_STATE s
       else if r_collection r \<notin> {C_READY, C_DELIVERING} then deny INTERNAL_UNCERTAINTY s
       else case result_json of
              None \<Rightarrow> deny INTERNAL_UNCERTAINTY s
            | Some json \<Rightarrow>
                let (r2, s2) = observe_time now (r\<lparr>r_collection := C_DELIVERING\<rparr>, s);
                    bundle = \<lparr>cb_binding = r_binding r, cb_result_json = json,
                              cb_evidence = map snd validated\<rparr>
                in (if committed_bundle_ok bundle then Inr bundle else Inl Value_Error,
                    put_record r2 s2)))))"

definition acknowledge_collection ::
    "lib \<Rightarrow> uuid \<Rightarrow> bytes \<Rightarrow> call \<Rightarrow> repo \<Rightarrow> mailbox_snapshot outcome" where
  "acknowledge_collection L mailbox_id collection_d c s =
     attempt (get_record s mailbox_id) s (\<lambda>r.
     attempt (require_credential (r_collection_digest r) collection_d) s (\<lambda>_.
     attempt (validated_record_material L (p_keys s) r) s (\<lambda>_.
     attempt (validated_record_now s r (c_now c)) s (\<lambda>now.
       if r_collection r = C_ACKNOWLEDGED then
         let (r2, s2) = observe_time now (r, s) in (Inr (snapshot_of r2), put_record r2 s2)
       else if r_state r \<noteq> S_RESULT_COMMITTED \<or> r_collection r \<noteq> C_DELIVERING
         then deny INVALID_STATE s
       else if c_crash c BEFORE_COLLECTION_ACK then (Inl (Crashed BEFORE_COLLECTION_ACK), s)
       else
         let (r1, s1) = release_record_payloads (r, s);
             (r2, s2) = observe_time now
               (r1\<lparr>r_collection := C_ACKNOWLEDGED, r_terminal_at := Some now\<rparr>, s1);
             s3 = put_record r2 s2
         in if c_crash c AFTER_COLLECTION_ACK then (Inl (Crashed AFTER_COLLECTION_ACK), s3)
            else (Inr (snapshot_of r2), s3)))))"

definition abandon ::
    "lib \<Rightarrow> uuid \<Rightarrow> bytes \<Rightarrow> call \<Rightarrow> repo \<Rightarrow> mailbox_snapshot outcome" where
  "abandon L mailbox_id collection_d c s =
     attempt (get_record s mailbox_id) s (\<lambda>r.
     attempt (require_credential (r_collection_digest r) collection_d) s (\<lambda>_.
     attempt (validated_record_material L (p_keys s) r) s (\<lambda>_.
     attempt (validated_record_now s r (c_now c)) s (\<lambda>now.
       let (due, r1, s1) = expire_if_due now (r, s)
       in if due then deny EXPIRED (put_record r1 s1)
          else if r_state r \<notin> {S_EMPTY, S_OFFERED, S_CLAIMED_ONCE} then deny INVALID_STATE s
          else
            let (r2, s2) = clear_action_material (r, s);
                (r3, s3) = observe_time now
                  (r2\<lparr>r_state := S_ABANDONED, r_terminal_at := Some now\<rparr>, s2)
            in (Inr (snapshot_of r3), put_record r3 s3)))))"

definition snapshot ::
    "lib \<Rightarrow> uuid \<Rightarrow> bytes \<Rightarrow> call \<Rightarrow> repo \<Rightarrow> mailbox_snapshot outcome" where
  "snapshot L mailbox_id collection_d c s =
     attempt (get_record s mailbox_id) s (\<lambda>r.
     attempt (require_credential (r_collection_digest r) collection_d) s (\<lambda>_.
     attempt (validated_record_material L (p_keys s) r) s (\<lambda>_.
     attempt (validated_record_now s r (c_now c)) s (\<lambda>now.
       let (due, r1, s1) = expire_if_due now (r, s);
           (r2, s2) = (if due then (r1, s1) else observe_time now (r1, s1))
       in (Inr (snapshot_of r2), put_record r2 s2)))))"


subsection \<open>Installation sweeps\<close>

text \<open>The first loop of \<^verbatim>\<open>expire\<close> and \<^verbatim>\<open>garbage_collect\<close>: authenticate every record.\<close>

fun validate_all :: "lib \<Rightarrow> storage_keys \<Rightarrow> (uuid, mrec) dict \<Rightarrow> mailbox_error + unit" where
  "validate_all L K [] = Inr ()"
| "validate_all L K ((k, r) # rest) =
     (case validated_record_material L K r of Inl e \<Rightarrow> Inl e | Inr _ \<Rightarrow> validate_all L K rest)"

fun expire_loop :: "int \<Rightarrow> uuid list \<Rightarrow> repo \<Rightarrow> uuid list \<Rightarrow> repo \<times> uuid list" where
  "expire_loop now [] s expired = (s, expired)"
| "expire_loop now (k # ks) s expired =
     (case map_of (p_records s) k of
        None \<Rightarrow> expire_loop now ks s expired
      | Some r \<Rightarrow>
          let (due, r1, s1) = expire_if_due now (r, s)
          in if due \<and> r_state r \<noteq> S_EXPIRED
             then expire_loop now ks (put_record r1 s1) (expired @ [b_mailbox_id (r_binding r)])
             else let (r2, s2) = observe_time now (r1, s1)
                  in expire_loop now ks (put_record r2 s2) expired)"

definition expire :: "lib \<Rightarrow> bytes \<Rightarrow> call \<Rightarrow> repo \<Rightarrow> uuid list outcome" where
  "expire L maintenance_d c s =
     attempt (require_maintenance s maintenance_d) s (\<lambda>_.
     attempt (validate_all L (p_keys s) (p_records s)) s (\<lambda>_.
     attempt (validated_installation_now s (c_now c)) s (\<lambda>now.
       if list_ex (\<lambda>(_, r). now < r_last_seen r) (p_records s) then deny INTERNAL_UNCERTAINTY s
       else
         let (s1, expired) = expire_loop now (map fst (p_records s)) s []
         in (Inr (sort expired), advance_installation_time now s1))))"

fun gc_loop :: "int \<Rightarrow> int \<Rightarrow> uuid list \<Rightarrow> repo \<Rightarrow> uuid list \<Rightarrow> repo \<times> uuid list" where
  "gc_loop now expires [] s removed = (s, removed)"
| "gc_loop now expires (k # ks) s removed =
     (case map_of (p_records s) k of
        None \<Rightarrow> gc_loop now expires ks s removed
      | Some r \<Rightarrow>
          let terminal_due = (case r_terminal_at r of
                                None \<Rightarrow> False
                              | Some t \<Rightarrow> now - t \<ge> terminal_retention (p_limits s))
          in if terminal_due \<and> len (p_tombstones s) < max_tombstones (p_limits s)
             then let s1 = snd (discard_record (r, s))
                  in gc_loop now expires ks
                       (s1\<lparr>p_records := AList.delete k (p_records s1),
                           p_tombstones := AList.update k \<lparr>t_created_at = now, t_expires_at = expires\<rparr>
                             (p_tombstones s1)\<rparr>)
                       (removed @ [k])
             else gc_loop now expires ks s removed)"

definition gc_order :: "int \<Rightarrow> (uuid, mrec) dict \<Rightarrow> uuid list" where
  "gc_order now records =
     map fst (sort_key (\<lambda>(k, r). (case r_terminal_at r of None \<Rightarrow> now | Some t \<Rightarrow> t, k)) records)"

definition garbage_collect :: "lib \<Rightarrow> bytes \<Rightarrow> call \<Rightarrow> repo \<Rightarrow> uuid list outcome" where
  "garbage_collect L maintenance_d c s =
     attempt (require_maintenance s maintenance_d) s (\<lambda>_.
     attempt (validate_all L (p_keys s) (p_records s)) s (\<lambda>_.
     attempt (validated_installation_now s (c_now c)) s (\<lambda>now.
       if list_ex (\<lambda>(_, r). now < r_last_seen r) (p_records s) then deny INTERNAL_UNCERTAINTY s
       else if now + tombstone_retention (p_limits s) > max_instant then deny INTERNAL_UNCERTAINTY s
       else
         let s1 = s\<lparr>p_records := map (\<lambda>(k, r). (k, r\<lparr>r_last_seen := now\<rparr>)) (p_records s)\<rparr>;
             s2 = advance_installation_time now s1;
             s3 = s2\<lparr>p_tombstones := filter (\<lambda>(_, t). \<not> t_expires_at t \<le> now) (p_tombstones s2)\<rparr>;
             (s4, removed) = gc_loop now (now + tombstone_retention (p_limits s))
                               (gc_order now (p_records s3)) s3 []
         in (Inr (sort removed), s4))))"

end
