(* ===== verification/Mailbox_Steps.thy ===== *)
theory Mailbox_Steps
  imports Mailbox_Volatile
begin

text \<open>
  The record-level state machine behind the repository operations.  \<open>rstep\<close> has one rule per
  kind of change a record can undergo at an instant; the lemmas of this theory show that every
  record operation of the volatile repository either leaves the state alone or performs exactly
  one such step and settles the three running totals by the difference it makes
  (\<open>settle\<close>).  Invariants and safety properties are then proved once per rule of the
  relation.
\<close>

section \<open>Settling a changed record\<close>

definition committed_bytes :: "mrec \<Rightarrow> int" where
  "committed_bytes r =
     (if r_committed_at r \<noteq> None then result_bytes r + record_evidence_bytes r else 0)"

definition settle :: "int \<Rightarrow> mrec \<Rightarrow> mrec \<Rightarrow> repo \<Rightarrow> repo" where
  "settle now r r' s =
     s\<lparr>p_records := AList.update (b_mailbox_id (r_binding r)) r' (p_records s),
       p_last_seen := Some now,
       p_active := p_active s - active_bytes r + active_bytes r',
       p_evidence := p_evidence s - record_evidence_bytes r + record_evidence_bytes r',
       p_committed := p_committed s - committed_bytes r + committed_bytes r'\<rparr>"

definition cleared :: "mrec \<Rightarrow> mrec" where
  "cleared r = r\<lparr>r_action_key := None, r_result_credential := None, r_envelope_json := None,
     r_result_digest := None, r_result := None, r_manifest := None, r_evidence := []\<rparr>"

definition deadline_of :: "mrec \<Rightarrow> int" where
  "deadline_of r =
     instant (if r_state r \<in> {S_EMPTY, S_OFFERED} then b_claim_deadline_utc (r_binding r)
              else b_deadline_utc (r_binding r))"

abbreviation live :: "mrec \<Rightarrow> bool" where
  "live r \<equiv> r_state r \<in> {S_EMPTY, S_OFFERED, S_CLAIMED_ONCE}"

lemmas settle_defs = put_record_def observe_time_def clear_claim_delivery_material_def
  release_record_payloads_def clear_result_digest_def clear_action_material_def settle_def
  cleared_def committed_bytes_def active_bytes_def record_evidence_bytes_def result_bytes_def
  opt_len_def

lemma advance_validated:
  "validated_installation_now s d = Inr now \<Longrightarrow>
     advance_installation_time now (s\<lparr>p_records := R, p_active := a, p_evidence := e, p_committed := c\<rparr>)
     = s\<lparr>p_records := R, p_active := a, p_evidence := e, p_committed := c, p_last_seen := Some now\<rparr>"
  by (auto simp: validated_installation_now_def advance_installation_time_def
      split: if_splits option.splits)

lemma validated_record_now_Inr:
  assumes "validated_record_now s r d = Inr now"
  shows "validated_installation_now s d = Inr now" and "r_last_seen r \<le> now"
    and "is_utc d" and "now = instant d"
  using assms by (auto simp: validated_record_now_def validated_installation_now_def
      split: sum.splits if_splits option.splits)

lemma validated_installation_now_Inr:
  assumes "validated_installation_now s d = Inr now"
  shows "is_utc d" and "now = instant d" and "\<And>t. p_last_seen s = Some t \<Longrightarrow> t \<le> now"
  using assms by (auto simp: validated_installation_now_def split: if_splits option.splits)


section \<open>The record machine\<close>

inductive rstep :: "lib \<Rightarrow> storage_keys \<Rightarrow> int \<Rightarrow> mrec \<Rightarrow> mrec \<Rightarrow> bool"
  for L K now where
  touch: "rstep L K now r (r\<lparr>r_last_seen := now\<rparr>)"
| offered: "r_state r = S_EMPTY \<Longrightarrow> now < deadline_of r \<Longrightarrow>
    claimed_action_ok \<lparr>ca_binding = r_binding r, ca_envelope_json = envelope,
      ca_action_key = key, ca_result_credential = cred\<rparr> \<Longrightarrow>
    digest \<notin> {r_action_digest r, r_claim_digest r, r_collection_digest r} \<Longrightarrow>
    rstep L K now r (r\<lparr>r_envelope_json := Some envelope, r_action_key := Some key,
      r_result_credential := Some cred, r_result_digest := Some digest, r_state := S_OFFERED,
      r_last_seen := now\<rparr>)"
| claimed: "r_state r = S_OFFERED \<Longrightarrow> now < deadline_of r \<Longrightarrow>
    rstep L K now r (r\<lparr>r_state := S_CLAIMED_ONCE, r_last_seen := now, r_action_key := None,
      r_result_credential := None, r_envelope_json := None\<rparr>)"
| staged: "r_state r = S_CLAIMED_ONCE \<Longrightarrow> now < deadline_of r \<Longrightarrow>
    map_of (r_evidence r) slot = None \<Longrightarrow> len (r_evidence r) < MAX_EVIDENCE_ITEMS \<Longrightarrow>
    record_evidence_bytes r + we_byte_count item \<le> b_response_bytes (r_binding r) \<Longrightarrow>
    unwrap L K (b_mailbox_id (r_binding r)) slot item = Inr ev \<Longrightarrow>
    rstep L K now r (r\<lparr>r_evidence := AList.update slot item (r_evidence r), r_last_seen := now\<rparr>)"
| committed: "r_state r = S_CLAIMED_ONCE \<Longrightarrow> now < deadline_of r \<Longrightarrow>
    wr_byte_count w + record_evidence_bytes r \<le> b_response_bytes (r_binding r) \<Longrightarrow>
    wr_byte_count w \<le> MAX_RESULT_ENVELOPE_BYTES \<Longrightarrow>
    r' = r\<lparr>r_result := Some w, r_manifest := Some m, r_state := S_RESULT_COMMITTED,
      r_collection := C_READY, r_result_digest := None, r_committed_at := Some now,
      r_last_seen := now\<rparr> \<Longrightarrow>
    validated_record_material L K r' = Inr (validated, Some result_json) \<Longrightarrow>
    rstep L K now r r'"
| delivering: "r_state r = S_RESULT_COMMITTED \<Longrightarrow> r_collection r \<in> {C_READY, C_DELIVERING} \<Longrightarrow>
    rstep L K now r (r\<lparr>r_collection := C_DELIVERING, r_last_seen := now\<rparr>)"
| acknowledged: "r_state r = S_RESULT_COMMITTED \<Longrightarrow> r_collection r = C_DELIVERING \<Longrightarrow>
    rstep L K now r (r\<lparr>r_result := None, r_manifest := None, r_evidence := [],
      r_collection := C_ACKNOWLEDGED, r_terminal_at := Some now, r_last_seen := now\<rparr>)"
| abandoned: "live r \<Longrightarrow> now < deadline_of r \<Longrightarrow>
    rstep L K now r ((cleared r)\<lparr>r_state := S_ABANDONED, r_terminal_at := Some now,
      r_last_seen := now\<rparr>)"
| expired: "live r \<Longrightarrow> deadline_of r \<le> now \<Longrightarrow>
    rstep L K now r ((cleared r)\<lparr>r_state := S_EXPIRED, r_terminal_at := Some now,
      r_last_seen := now\<rparr>)"

inductive_cases rstepE: "rstep L K now r r'"

lemma rstep_binding: "rstep L K now r r' \<Longrightarrow> r_binding r' = r_binding r"
  by (induction rule: rstep.induct) (auto simp: cleared_def)

lemma rstep_identity:
  "rstep L K now r r' \<Longrightarrow> r_created_at r' = r_created_at r \<and> r_last_seen r' = now \<and>
     r_action_digest r' = r_action_digest r \<and> r_claim_digest r' = r_claim_digest r \<and>
     r_collection_digest r' = r_collection_digest r"
  by (induction rule: rstep.induct) (auto simp: cleared_def)

text \<open>The mailbox states a single step can connect, and the delivery axis.\<close>

fun state_edge :: "mailbox_state \<Rightarrow> mailbox_state \<Rightarrow> bool" where
  "state_edge S_EMPTY t = (t \<in> {S_EMPTY, S_OFFERED, S_EXPIRED, S_ABANDONED})"
| "state_edge S_OFFERED t = (t \<in> {S_OFFERED, S_CLAIMED_ONCE, S_EXPIRED, S_ABANDONED})"
| "state_edge S_CLAIMED_ONCE t = (t \<in> {S_CLAIMED_ONCE, S_RESULT_COMMITTED, S_EXPIRED, S_ABANDONED})"
| "state_edge S_RESULT_COMMITTED t = (t = S_RESULT_COMMITTED)"
| "state_edge S_EXPIRED t = (t = S_EXPIRED)"
| "state_edge S_ABANDONED t = (t = S_ABANDONED)"

lemma rstep_state_edge: "rstep L K now r r' \<Longrightarrow> state_edge (r_state r) (r_state r')"
proof (induction rule: rstep.induct)
  case (touch r)
  then show ?case by (cases "r_state r") auto
qed auto


section \<open>The record invariant\<close>

text \<open>Offered records, and only they, hold the one-time delivery material.\<close>

definition material_ok :: "mrec \<Rightarrow> bool" where
  "material_ok r =
     (if r_state r = S_OFFERED
      then (case (r_envelope_json r, r_action_key r, r_result_credential r) of
              (Some envelope, Some key, Some cred) \<Rightarrow>
                claimed_action_ok \<lparr>ca_binding = r_binding r, ca_envelope_json = envelope,
                  ca_action_key = key, ca_result_credential = cred\<rparr>
            | _ \<Rightarrow> False)
      else r_envelope_json r = None \<and> r_action_key r = None \<and> r_result_credential r = None)"

definition terminal :: "mrec \<Rightarrow> bool" where
  "terminal r \<longleftrightarrow> r_state r \<in> {S_EXPIRED, S_ABANDONED} \<or> r_collection r = C_ACKNOWLEDGED"

definition authentic :: "lib \<Rightarrow> storage_keys \<Rightarrow> mrec \<Rightarrow> bool" where
  "authentic L K r = (case validated_record_material L K r of Inl _ \<Rightarrow> False | Inr _ \<Rightarrow> True)"

definition record_inv :: "lib \<Rightarrow> storage_keys \<Rightarrow> mrec \<Rightarrow> bool" where
  "record_inv L K r \<longleftrightarrow>
     action_binding_ok (r_binding r) \<and> material_ok r \<and> authentic L K r \<and>
     (r_result_digest r \<noteq> None \<longleftrightarrow> r_state r \<in> {S_OFFERED, S_CLAIMED_ONCE}) \<and>
     distinct (credentials_of r) \<and>
     (r_terminal_at r \<noteq> None \<longleftrightarrow> terminal r) \<and>
     wf_dict (r_evidence r) \<and> len (r_evidence r) \<le> MAX_EVIDENCE_ITEMS \<and>
     result_bytes r + record_evidence_bytes r \<le> b_response_bytes (r_binding r) \<and>
     result_bytes r \<le> MAX_RESULT_ENVELOPE_BYTES \<and>
     r_created_at r \<le> r_last_seen r"

lemmas record_inv_defs = record_inv_def material_ok_def terminal_def authentic_def
  result_bytes_def record_evidence_bytes_def

lemma authentic_iff: "authentic L K r \<longleftrightarrow> (\<exists>v. validated_record_material L K r = Inr v)"
  by (auto simp: authentic_def split: sum.splits)

lemma record_inv_authentic: "record_inv L K r \<Longrightarrow> authentic L K r"
  by (simp add: record_inv_def)

text \<open>What authenticated material says about a record that has not committed.\<close>

lemma validated_record_material_uncommitted:
  assumes "validated_record_material L K r = Inr v" and "r_state r \<noteq> S_RESULT_COMMITTED"
  shows "r_collection r = C_NONE" "r_result r = None" "r_manifest r = None"
    "r_committed_at r = None" "snd v = None"
    "validated_evidence_slots L K (b_mailbox_id (r_binding r)) (r_evidence r) = Inr (fst v)"
    "r_state r \<noteq> S_CLAIMED_ONCE \<Longrightarrow> fst v = []"
  using assms by (auto simp: validated_record_material_def split: sum.splits if_splits)

text \<open>Authentication reads only these fields of a record.\<close>

lemma validated_record_material_cong:
  assumes "r_binding r' = r_binding r" "r_evidence r' = r_evidence r" "r_state r' = r_state r"
    "r_collection r' = r_collection r" "r_result r' = r_result r"
    "r_manifest r' = r_manifest r" "r_committed_at r' = r_committed_at r"
  shows "validated_record_material L K r' = validated_record_material L K r"
  unfolding validated_record_material_def assms by (rule refl)

lemma validated_slots_append:
  "validated_slots L K mb acc (xs @ ys) =
     (case validated_slots L K mb acc xs of Inl e \<Rightarrow> Inl e
      | Inr acc' \<Rightarrow> validated_slots L K mb acc' ys)"
  by (induction L K mb acc xs rule: validated_slots.induct) (auto split: sum.splits)

lemma update_new_append: "map_of d k = None \<Longrightarrow> AList.update k v d = d @ [(k, v)]"
  by (induction d) (auto split: if_splits)

lemma validated_evidence_slots_eq:
  assumes "validated_evidence_slots L K mb evidence = Inr validated"
  shows "validated_slots L K mb [] evidence = Inr validated"
  using assms by (auto simp: validated_evidence_slots_def split: sum.splits if_splits)

text \<open>Staging an authentic item under a fresh slot extends the validated evidence at the end.\<close>

lemma validated_evidence_slots_stage:
  assumes v: "validated_evidence_slots L K mb evidence = Inr validated"
    and new: "map_of evidence slot = None" and u: "unwrap L K mb slot item = Inr ev"
  shows "validated_evidence_slots L K mb (AList.update slot item evidence)
         = Inr (validated @ [(slot, ev)])"
proof -
  have keys: "map fst validated = map fst evidence"
    by (rule validated_evidence_slots_Inr(2) [OF v])
  then have kset: "keys validated = keys evidence" by (metis image_set)
  have slot: "eu_object_id ev = slot" by (rule unwrap_Inr(1) [OF u])
  have fresh: "slot \<notin> keys validated"
    using new kset by (simp add: map_of_eq_None_iff)
  then have "map_of validated slot = None" by (simp add: map_of_eq_None_iff)
  then have "validated_slots L K mb [] (evidence @ [(slot, item)]) = Inr (validated @ [(slot, ev)])"
    using validated_evidence_slots_eq [OF v] fresh
    by (simp add: validated_slots_append u slot update_new_append)
  moreover have "keys (validated @ [(slot, ev)]) = keys (evidence @ [(slot, item)])"
    using kset by simp
  ultimately show ?thesis
    by (simp add: validated_evidence_slots_def update_new_append [OF new])
qed

lemma record_evidence_bytes_update:
  "map_of (r_evidence r) slot = None \<Longrightarrow> r_evidence r' = AList.update slot item (r_evidence r) \<Longrightarrow>
     record_evidence_bytes r' = record_evidence_bytes r + we_byte_count item"
  by (simp add: record_evidence_bytes_def sum_vals_update_new)

lemma cleared_authentic:
  assumes "authentic L K r" and "live r"
  shows "authentic L K ((cleared r)\<lparr>r_state := t, r_terminal_at := w, r_last_seen := u\<rparr>)
         \<longleftrightarrow> t \<noteq> S_RESULT_COMMITTED"
    and "r_collection r = C_NONE"
proof -
  obtain v where v: "validated_record_material L K r = Inr v"
    using assms(1) by (auto simp: authentic_iff)
  have "r_state r \<noteq> S_RESULT_COMMITTED" using assms(2) by auto
  note un = validated_record_material_uncommitted [OF v this]
  show "r_collection r = C_NONE" by (rule un(1))
  show "authentic L K ((cleared r)\<lparr>r_state := t, r_terminal_at := w, r_last_seen := u\<rparr>)
        \<longleftrightarrow> t \<noteq> S_RESULT_COMMITTED"
    using un by (auto simp: authentic_def cleared_def validated_record_material_def
        validated_evidence_slots_def)
qed


lemma material_ok_touch: "material_ok (r\<lparr>r_last_seen := t\<rparr>) = material_ok r"
  by (auto simp: material_ok_def split: option.splits)

lemma rstep_record_inv:
  assumes "rstep L K now r r'" and inv: "record_inv L K r" and "r_last_seen r \<le> now"
  shows "record_inv L K r'"
proof -
  obtain v where v: "validated_record_material L K r = Inr v"
    using inv by (auto simp: record_inv_def authentic_iff)
  note un = validated_record_material_uncommitted [OF v]
  have cs: "r_created_at r \<le> now" using inv assms(3) by (simp add: record_inv_def)
  show ?thesis
    using assms(1)
  proof cases
    case touch
    have "validated_record_material L K r' = validated_record_material L K r"
      by (rule validated_record_material_cong) (simp_all add: touch)
    then have "authentic L K r'" using inv by (simp add: record_inv_def authentic_def)
    then show ?thesis using inv cs
      by (auto simp: touch record_inv_def material_ok_touch terminal_def credentials_of_def
          result_bytes_def record_evidence_bytes_def)
  next
    case (offered envelope key cred digest)
    have "authentic L K r'"
      using un(1-4,6,7) offered(2) v
      by (auto simp: authentic_iff validated_record_material_def offered(1) split: sum.splits)
    then show ?thesis using inv cs offered un(1)
      by (auto simp: record_inv_def material_ok_def terminal_def credentials_of_def
          result_bytes_def record_evidence_bytes_def)
  next
    case claimed
    have "authentic L K r'"
      using un(1-4,6,7) claimed(2) v
      by (auto simp: authentic_iff validated_record_material_def claimed(1) split: sum.splits)
    then show ?thesis using inv cs claimed un(1)
      by (auto simp: record_inv_def material_ok_def terminal_def credentials_of_def
          result_bytes_def record_evidence_bytes_def)
  next
    case (staged slot item ev)
    have "authentic L K r'"
      using validated_evidence_slots_stage [OF un(6) staged(4) staged(7)] un(1-4) staged(2)
      by (auto simp: authentic_iff validated_record_material_def staged(1))
    moreover have "len (AList.update slot item (r_evidence r)) \<le> MAX_EVIDENCE_ITEMS"
      using staged(4,5) by (simp add: length_update_new)
    moreover have "record_evidence_bytes r' = record_evidence_bytes r + we_byte_count item"
      by (rule record_evidence_bytes_update [OF staged(4)]) (simp add: staged(1))
    ultimately show ?thesis using inv cs staged un(1,2)
      by (auto simp: record_inv_def material_ok_def terminal_def credentials_of_def
          result_bytes_def)
  next
    case (committed w m validated result_json)
    then show ?thesis using inv cs un(1)
      by (auto simp: record_inv_def material_ok_def terminal_def credentials_of_def
          result_bytes_def record_evidence_bytes_def authentic_iff)
  next
    case delivering
    then have "authentic L K r'" using v
      by (auto simp: authentic_iff validated_record_material_def
          split: sum.splits if_splits option.splits)
    then show ?thesis using inv cs delivering
      by (auto simp: record_inv_def material_ok_def terminal_def credentials_of_def
          result_bytes_def record_evidence_bytes_def)
  next
    case acknowledged
    then have "authentic L K r'" using v
      by (auto simp: authentic_iff validated_record_material_def validated_evidence_slots_def
          split: sum.splits if_splits)
    moreover have "0 \<le> b_response_bytes (r_binding r)"
      using inv by (simp add: record_inv_def action_binding_ok_def)
    ultimately show ?thesis using inv cs acknowledged
      by (auto simp: record_inv_def material_ok_def terminal_def credentials_of_def
          result_bytes_def record_evidence_bytes_def mailbox_consts)
  next
    case abandoned
    then show ?thesis using inv cs cleared_authentic [OF record_inv_authentic [OF inv]]
      by (auto simp: record_inv_def material_ok_def terminal_def credentials_of_def cleared_def
          action_binding_ok_def result_bytes_def record_evidence_bytes_def mailbox_consts)
  next
    case expired
    then show ?thesis using inv cs cleared_authentic [OF record_inv_authentic [OF inv]]
      by (auto simp: record_inv_def material_ok_def terminal_def credentials_of_def cleared_def
          action_binding_ok_def result_bytes_def record_evidence_bytes_def mailbox_consts)
  qed
qed

end
