(* ===== verification/Mailbox_Effects.thy ===== *)
theory Mailbox_Effects
  imports Mailbox_Steps
begin

text \<open>
  Each record operation of the volatile repository is at most one settled step: it leaves the
  repository as it was, or the addressed record makes one step of \<open>rstep\<close>, every other record
  stays, the three running totals move by the difference the step makes, and no total grows
  beyond its quota.
\<close>


section \<open>The effect of an operation\<close>

abbreviation not_after :: "repo \<Rightarrow> int \<Rightarrow> bool" where
  "not_after s now \<equiv> \<forall>t. p_last_seen s = Some t \<longrightarrow> t \<le> now"

definition fresh_credentials :: "repo \<Rightarrow> mrec \<Rightarrow> mrec \<Rightarrow> bool" where
  "fresh_credentials s r r' \<longleftrightarrow>
     (\<forall>d \<in> set (credentials_of r') - set (credentials_of r).
        d \<noteq> p_maintenance s \<and> \<not> credential_in_use s d (Some (b_mailbox_id (r_binding r))))"

definition within_quota :: "repo \<Rightarrow> repo \<Rightarrow> bool" where
  "within_quota s s' \<longleftrightarrow>
     (p_active s' \<le> p_active s \<or> p_active s' \<le> max_total_active_material_bytes (p_limits s)) \<and>
     (p_evidence s' \<le> p_evidence s \<or> p_evidence s' \<le> max_total_evidence_bytes (p_limits s)) \<and>
     (p_committed s' \<le> p_committed s \<or> p_committed s' \<le> max_total_committed_bytes (p_limits s))"

definition op_effect :: "lib \<Rightarrow> int \<Rightarrow> uuid \<Rightarrow> repo \<Rightarrow> repo \<Rightarrow> bool" where
  "op_effect L now mailbox_id s s' \<longleftrightarrow>
     (\<exists>r r'. map_of (p_records s) mailbox_id = Some r \<and> rstep L (p_keys s) now r r' \<and>
             r_last_seen r \<le> now \<and> not_after s now \<and>
             s' = settle now r r' s \<and> within_quota s s' \<and> fresh_credentials s r r')"

definition unchanged_or_step :: "lib \<Rightarrow> call \<Rightarrow> uuid \<Rightarrow> repo \<Rightarrow> repo \<Rightarrow> bool" where
  "unchanged_or_step L c mailbox_id s s' \<longleftrightarrow>
     s' = s \<or> is_utc (c_now c) \<and> op_effect L (instant (c_now c)) mailbox_id s s'"

lemma unchanged [simp]: "unchanged_or_step L c k s s"
  by (simp add: unchanged_or_step_def)

lemma get_record_Inr: "get_record s k = Inr r \<longleftrightarrow> map_of (p_records s) k = Some r"
  by (auto simp: get_record_def split: option.splits if_splits)

lemma require_credential_Inr [simp]: "require_credential e p = Inr u \<longleftrightarrow> e = p"
  by (simp add: require_credential_def)

lemma require_binding_Inr [simp]: "require_binding r b = Inr u \<longleftrightarrow> r_binding r = b"
  by (simp add: require_binding_def)

lemma require_result_access_Inr:
  "require_result_access r b d = Inr u \<longleftrightarrow>
     r_binding r = b \<and> r_state r = S_CLAIMED_ONCE \<and> r_result_digest r = Some d"
  by (auto simp: require_result_access_def require_binding_def require_credential_def
      split: option.splits)

lemma expire_if_due_False:
  "expire_if_due now (r, s) = (False, r1, s1) \<Longrightarrow>
     r1 = r \<and> s1 = s \<and> r_state r \<noteq> S_EXPIRED \<and> (live r \<longrightarrow> now < deadline_of r)"
  by (auto simp: expire_if_due_def deadline_of_def Let_def split: if_splits)

lemma advance_fields [simp]:
  "p_records (advance_installation_time now s) = p_records s"
  "p_tombstones (advance_installation_time now s) = p_tombstones s"
  "p_maintenance (advance_installation_time now s) = p_maintenance s"
  "p_limits (advance_installation_time now s) = p_limits s"
  "p_keys (advance_installation_time now s) = p_keys s"
  "p_active (advance_installation_time now s) = p_active s"
  "p_evidence (advance_installation_time now s) = p_evidence s"
  "p_committed (advance_installation_time now s) = p_committed s"
  by (simp_all add: advance_installation_time_def split: option.splits)

lemma advance_last_seen:
  "not_after s now \<Longrightarrow> p_last_seen (advance_installation_time now s) = Some now"
  by (force simp: advance_installation_time_def split: option.splits)

text \<open>
  A state obtained by writing a record and advancing the clock is the settled state as soon as
  the three totals agree.
\<close>

lemma settleI:
  assumes "not_after s now" and "r_binding r' = r_binding r"
    and "p_records s1 = p_records s" "p_tombstones s1 = p_tombstones s"
    "p_maintenance s1 = p_maintenance s" "p_limits s1 = p_limits s" "p_keys s1 = p_keys s"
    "p_last_seen s1 = Some now"
    and "p_active s1 = p_active s - active_bytes r + active_bytes r'"
    "p_evidence s1 = p_evidence s - record_evidence_bytes r + record_evidence_bytes r'"
    "p_committed s1 = p_committed s - committed_bytes r + committed_bytes r'"
  shows "put_record r' s1 = settle now r r' s"
  using assms by (intro repo.equality) (simp_all add: put_record_def settle_def)

lemma op_effectI:
  assumes "map_of (p_records s) k = Some r" "rstep L (p_keys s) now r r'" "r_last_seen r \<le> now"
    "not_after s now" "s' = settle now r r' s"
    "within_quota s s'" "fresh_credentials s r r'"
  shows "op_effect L now k s s'"
  using assms by (auto simp: op_effect_def)

lemma validated_not_after: "validated_record_now s r d = Inr now \<Longrightarrow> not_after s now"
  using validated_installation_now_Inr(3) validated_record_now_Inr(1) by blast

lemma op_effect_unchanged_or_step:
  assumes "validated_record_now s r (c_now c) = Inr now" and "op_effect L now k s s'"
  shows "unchanged_or_step L c k s s'"
  using assms validated_record_now_Inr by (simp add: unchanged_or_step_def)

lemma settle_fields [simp]:
  "p_limits (settle now r r' s) = p_limits s" "p_keys (settle now r r' s) = p_keys s"
  "p_maintenance (settle now r r' s) = p_maintenance s"
  "p_tombstones (settle now r r' s) = p_tombstones s"
  "p_last_seen (settle now r r' s) = Some now"
  "p_records (settle now r r' s) =
     AList.update (b_mailbox_id (r_binding r)) r' (p_records s)"
  "p_active (settle now r r' s) = p_active s - active_bytes r + active_bytes r'"
  "p_evidence (settle now r r' s) = p_evidence s - record_evidence_bytes r + record_evidence_bytes r'"
  "p_committed (settle now r r' s) = p_committed s - committed_bytes r + committed_bytes r'"
  by (simp_all add: settle_def)

lemma no_new_credentials:
  "set (credentials_of r') \<subseteq> set (credentials_of r) \<Longrightarrow> fresh_credentials s r r'"
  by (auto simp: fresh_credentials_def)

lemma credentials_subset:
  assumes "r_action_digest r' = r_action_digest r" "r_claim_digest r' = r_claim_digest r"
    "r_collection_digest r' = r_collection_digest r"
    "r_result_digest r' \<in> {None, r_result_digest r}"
  shows "set (credentials_of r') \<subseteq> set (credentials_of r)"
  using assms by (auto simp: credentials_of_def split: option.splits)

lemma touch_fields [simp]:
  "credentials_of (r\<lparr>r_last_seen := t\<rparr>) = credentials_of r"
  "active_bytes (r\<lparr>r_last_seen := t\<rparr>) = active_bytes r"
  "record_evidence_bytes (r\<lparr>r_last_seen := t\<rparr>) = record_evidence_bytes r"
  "committed_bytes (r\<lparr>r_last_seen := t\<rparr>) = committed_bytes r"
  by (simp_all add: credentials_of_def active_bytes_def record_evidence_bytes_def
      committed_bytes_def result_bytes_def)

lemma active_bytes_nonneg [simp]: "0 \<le> active_bytes r"
  by (auto simp: active_bytes_def opt_len_def split: option.splits)


section \<open>Byte counts of authentic records\<close>

lemma validated_evidence_counts:
  assumes "validated_evidence_slots L K mb evidence = Inr validated" and "(k, item) \<in> set evidence"
  shows "0 < we_byte_count item"
proof -
  have "0 < we_byte_count item"
    if "validated_slots L K mb acc items = Inr v" "(k, item) \<in> set items" for acc items v
    using that
    by (induction L K mb acc items rule: validated_slots.induct)
      (auto split: sum.splits if_splits dest: unwrap_Inr(5))
  then show ?thesis using validated_evidence_slots_eq [OF assms(1)] assms(2) by blast
qed

lemma validated_material_evidence:
  assumes "validated_record_material L K r = Inr v"
  shows "validated_evidence_slots L K (b_mailbox_id (r_binding r)) (r_evidence r) = Inr (fst v)"
  using assms
  by (auto simp: validated_record_material_def split: sum.splits if_splits option.splits)

lemma authentic_bytes_nonneg:
  assumes "authentic L K r"
  shows "0 \<le> record_evidence_bytes r" and "0 \<le> result_bytes r" and "0 \<le> committed_bytes r"
proof -
  obtain v where v: "validated_record_material L K r = Inr v"
    using assms by (auto simp: authentic_iff)
  show e: "0 \<le> record_evidence_bytes r"
    unfolding record_evidence_bytes_def
    using validated_evidence_counts [OF validated_material_evidence [OF v]]
    by (intro sum_vals_nonneg) force
  show w: "0 \<le> result_bytes r"
    using v by (auto simp: validated_record_material_def result_bytes_def
        split: sum.splits if_splits option.splits dest: unwrap_result_Inr(2))
  show "0 \<le> committed_bytes r" using e w by (simp add: committed_bytes_def)
qed


section \<open>Each operation is at most one settled step\<close>

definition records_ok :: "lib \<Rightarrow> repo \<Rightarrow> bool" where
  "records_ok L s \<longleftrightarrow>
     (\<forall>k r. map_of (p_records s) k = Some r \<longrightarrow>
        b_mailbox_id (r_binding r) = k \<and> record_inv L (p_keys s) r)"

lemma records_okD:
  assumes "records_ok L s" and "map_of (p_records s) k = Some r"
  shows "b_mailbox_id (r_binding r) = k" and "record_inv L (p_keys s) r"
    and "authentic L (p_keys s) r"
  using assms by (auto simp: records_ok_def record_inv_def)

lemma cleared_bytes [simp]:
  "active_bytes ((cleared r)\<lparr>r_state := t, r_terminal_at := w\<rparr>) = 0"
  "record_evidence_bytes ((cleared r)\<lparr>r_state := t, r_terminal_at := w\<rparr>) = 0"
  "committed_bytes ((cleared r)\<lparr>r_state := t, r_terminal_at := w\<rparr>) = 0"
  by (simp_all add: cleared_def active_bytes_def opt_len_def record_evidence_bytes_def
      committed_bytes_def result_bytes_def)

lemma cleared_credentials:
  "set (credentials_of ((cleared r)\<lparr>r_state := t, r_terminal_at := w\<rparr>))
     \<subseteq> set (credentials_of r)"
  by (rule credentials_subset) (simp_all add: cleared_def)

text \<open>Clearing a live record and closing it, as expiry and abandonment do.\<close>

lemma close_settle:
  assumes "not_after s now"
    and "clear_action_material (r, s) = (r1, s1)"
  shows "r1 = cleared r"
    and "put_record (r1\<lparr>r_state := t, r_terminal_at := w, r_last_seen := now\<rparr>)
           (advance_installation_time now s1)
         = settle now r ((cleared r)\<lparr>r_state := t, r_terminal_at := w, r_last_seen := now\<rparr>) s"
proof -
  show r1: "r1 = cleared r"
    using assms(2)
    by (auto simp: clear_action_material_def clear_claim_delivery_material_def
        clear_result_digest_def release_record_payloads_def cleared_def Let_def)
  have s1: "s1 = s\<lparr>p_active := p_active s - active_bytes r,
      p_evidence := p_evidence s - record_evidence_bytes r,
      p_committed := p_committed s - committed_bytes r\<rparr>"
    using assms(2)
    by (auto simp: clear_action_material_def clear_claim_delivery_material_def
        clear_result_digest_def release_record_payloads_def committed_bytes_def Let_def
        record_evidence_bytes_def result_bytes_def)
  show "put_record (r1\<lparr>r_state := t, r_terminal_at := w, r_last_seen := now\<rparr>)
          (advance_installation_time now s1)
        = settle now r ((cleared r)\<lparr>r_state := t, r_terminal_at := w, r_last_seen := now\<rparr>) s"
    unfolding r1
    using assms(1) by (intro settleI) (simp_all add: s1 advance_last_seen, simp add: cleared_def)
qed

lemma touch_settle:
  assumes "not_after s now"
  shows "put_record (r\<lparr>r_last_seen := now\<rparr>) (advance_installation_time now s)
         = settle now r (r\<lparr>r_last_seen := now\<rparr>) s"
  using assms by (intro settleI) (simp_all add: advance_last_seen)

lemma within_quota_shrink:
  assumes "active_bytes r' \<le> active_bytes r" "record_evidence_bytes r' \<le> record_evidence_bytes r"
    "committed_bytes r' \<le> committed_bytes r"
  shows "within_quota s (settle now r r' s)"
  using assms by (simp add: within_quota_def)

lemma expire_if_due_True:
  assumes due: "expire_if_due now (r, s) = (True, r1, s1)"
    and r: "map_of (p_records s) k = Some r" and "authentic L (p_keys s) r"
    and now: "validated_record_now s r d = Inr now"
  shows "op_effect L now k s (put_record r1 s1)"
    and "r_state r1 = S_EXPIRED"
proof -
  have seen: "not_after s now" by (rule validated_not_after [OF now])
  note nn = authentic_bytes_nonneg [OF assms(3)]
  have old: "r_last_seen r \<le> now" by (rule validated_record_now_Inr(2) [OF now])
  have "op_effect L now k s (put_record r1 s1) \<and> r_state r1 = S_EXPIRED"
  proof (cases "r_state r = S_EXPIRED")
    case True
    then have eq: "r1 = r\<lparr>r_last_seen := now\<rparr>" "s1 = advance_installation_time now s"
      using due by (auto simp: expire_if_due_def observe_time_def Let_def)
    have "op_effect L now k s (put_record r1 s1)"
      unfolding eq touch_settle [OF seen]
      by (rule op_effectI [OF r rstep.touch old seen refl])
        (auto intro!: within_quota_shrink no_new_credentials)
    then show ?thesis using True eq by simp
  next
    case False
    obtain r2 s2 where q: "clear_action_material (r, s) = (r2, s2)" by fastforce
    from False due have live: "live r" "deadline_of r \<le> now"
      and eq: "r1 = r2\<lparr>r_state := S_EXPIRED, r_terminal_at := Some now, r_last_seen := now\<rparr>"
        "s1 = advance_installation_time now s2"
      by (auto simp: expire_if_due_def observe_time_def Let_def q deadline_of_def split: if_splits)
    have "op_effect L now k s (put_record r1 s1)"
      unfolding eq close_settle(2) [OF seen q]
      by (rule op_effectI [OF r rstep.expired [OF live] old seen refl])
        (auto intro!: within_quota_shrink no_new_credentials intro: nn
          simp: subsetD [OF cleared_credentials])
    then show ?thesis using eq by simp
  qed
  then show "op_effect L now k s (put_record r1 s1)" and "r_state r1 = S_EXPIRED" by simp_all
qed


lemmas op_splits = attempt_split [where P = "\<lambda>x. unchanged_or_step L c k s (snd x)" for L c k s]

lemma expire_step:
  assumes "expire_if_due now (r, s) = (True, r1, s1)" "map_of (p_records s) k = Some r"
    "records_ok L s" "validated_record_now s r (c_now c) = Inr now"
  shows "unchanged_or_step L c k s (put_record r1 s1)"
  using op_effect_unchanged_or_step [OF assms(4)] expire_if_due_True(1) [OF assms(1,2) _ assms(4)]
    records_okD(3) [OF assms(3,2)] by blast

lemma offer_effect:
  assumes ok: "records_ok L s"
    and sizes: "claimed_action_ok \<lparr>ca_binding = b, ca_envelope_json = envelope,
      ca_action_key = key, ca_result_credential = cred\<rparr>"
  shows "unchanged_or_step L c (b_mailbox_id b) s
    (snd (offer L b envelope key action_d collection_d cred result_d c s))"
proof -
  have "unchanged_or_step L c (b_mailbox_id b) s (put_record r' (s1\<lparr>p_active := p_active s1 + n\<rparr>))"
    if r: "map_of (p_records s) (b_mailbox_id b) = Some r" "r_binding r = b"
      and now: "validated_record_now s r (c_now c) = Inr now"
      and live: "expire_if_due now (r, s) = (False, r1, s0)" "r_state r = S_EMPTY"
      and cred: "distinct [r_action_digest r, r_claim_digest r, r_collection_digest r, result_d]"
        "p_maintenance s \<noteq> result_d"
        "\<not> credential_in_use s result_d (Some (b_mailbox_id (r_binding r)))"
      and quota: "p_active s + n \<le> max_total_active_material_bytes (p_limits s)"
      and n: "n = len envelope + len key + len cred"
      and out: "observe_time now (r\<lparr>r_envelope_json := Some envelope, r_action_key := Some key,
           r_result_credential := Some cred, r_result_digest := Some result_d,
           r_state := S_OFFERED\<rparr>, s) = (r', s1)"
    for r r1 s0 r' s1 now n
  proof -
    have seen: "not_after s now" by (rule validated_not_after [OF now])
    have before: "now < deadline_of r" using expire_if_due_False [OF live(1)] live(2) by simp
    have step: "rstep L (p_keys s) now r r'"
      using rstep.offered [OF live(2) before, of envelope key cred result_d L "p_keys s"]
        sizes r(2) cred(1) out by (auto simp: observe_time_def)
    have zero: "active_bytes r = 0"
      using records_okD(2) [OF ok r(1)] live(2)
      by (simp add: record_inv_def material_ok_def active_bytes_def opt_len_def)
    have eq: "put_record r' (s1\<lparr>p_active := p_active s1 + n\<rparr>) = settle now r r' s"
      using out seen zero n
      by (intro settleI) (auto simp: observe_time_def advance_last_seen active_bytes_def
          opt_len_def record_evidence_bytes_def committed_bytes_def result_bytes_def)
    have "within_quota s (settle now r r' s)"
      using out zero quota n
      by (auto simp: within_quota_def observe_time_def active_bytes_def opt_len_def
          record_evidence_bytes_def committed_bytes_def result_bytes_def)
    moreover have "fresh_credentials s r r'"
      using out cred by (auto simp: fresh_credentials_def observe_time_def credentials_of_def)
    ultimately show ?thesis
      using op_effect_unchanged_or_step [OF now] eq
        op_effectI [OF r(1) step validated_record_now_Inr(2) [OF now] seen] by simp
  qed
  then show ?thesis
    unfolding offer_def
    by (auto simp: get_record_Inr op_splits Let_def linorder_not_le linorder_not_less
        split: prod.splits intro: expire_step [OF _ _ ok])
qed


text \<open>The common end of the remaining operations: a step whose settled form is known.\<close>

lemma step_result:
  assumes "validated_record_now s r (c_now c) = Inr now" and "map_of (p_records s) k = Some r"
    and "rstep L (p_keys s) now r r'" and "s' = settle now r r' s"
    and "within_quota s s'" and "set (credentials_of r') \<subseteq> set (credentials_of r)"
  shows "unchanged_or_step L c k s s'"
  using op_effect_unchanged_or_step [OF assms(1) op_effectI [OF assms(2,3)
        validated_record_now_Inr(2) [OF assms(1)] validated_not_after [OF assms(1)] assms(4,5)
        no_new_credentials [OF assms(6)]]] .

lemma claim_effect:
  assumes ok: "records_ok L s"
  shows "unchanged_or_step L c (b_mailbox_id b) s (snd (claim L b claim_d c s))"
proof -
  have "unchanged_or_step L c (b_mailbox_id b) s (put_record r' s1)"
    if r: "map_of (p_records s) (b_mailbox_id b) = Some r"
      and now: "validated_record_now s r (c_now c) = Inr now"
      and live: "expire_if_due now (r, s) = (False, r1, s0)" "r_state r = S_OFFERED"
      and out: "clear_claim_delivery_material
        (observe_time now (r\<lparr>r_state := S_CLAIMED_ONCE\<rparr>, s)) = (r', s1)"
    for r r1 s0 r' s1 now
  proof (rule step_result [OF now r])
    have "now < deadline_of r" using expire_if_due_False [OF live(1)] live(2) by simp
    then show "rstep L (p_keys s) now r r'"
      using rstep.claimed [OF live(2)] out
      by (auto simp: observe_time_def clear_claim_delivery_material_def Let_def)
    show eq: "put_record r' s1 = settle now r r' s"
      using out validated_not_after [OF now]
      by (intro settleI) (auto simp: observe_time_def advance_last_seen active_bytes_def
          clear_claim_delivery_material_def opt_len_def record_evidence_bytes_def
          committed_bytes_def result_bytes_def Let_def)
    show "within_quota s (put_record r' s1)"
      unfolding eq using out active_bytes_nonneg [of r]
      by (intro within_quota_shrink)
        (auto simp: observe_time_def clear_claim_delivery_material_def active_bytes_def
          opt_len_def record_evidence_bytes_def committed_bytes_def result_bytes_def Let_def
          split: option.splits)
    show "set (credentials_of r') \<subseteq> set (credentials_of r)"
      using out by (intro credentials_subset)
        (auto simp: observe_time_def clear_claim_delivery_material_def Let_def)
  qed
  then show ?thesis
    unfolding claim_def
    by (auto simp: get_record_Inr op_splits Let_def
        split: prod.splits option.splits intro: expire_step [OF _ _ ok])
qed

lemma stage_evidence_effect:
  assumes ok: "records_ok L s"
  shows "unchanged_or_step L c (b_mailbox_id b) s (snd (stage_evidence L b result_d ev c s))"
proof -
  have "unchanged_or_step L c (b_mailbox_id b) s
          (put_record r' (s1\<lparr>p_evidence := p_evidence s1 + we_byte_count item\<rparr>))"
    if r: "map_of (p_records s) (b_mailbox_id b) = Some r" "r_binding r = b"
      "r_state r = S_CLAIMED_ONCE"
      and now: "validated_record_now s r (c_now c) = Inr now"
      and live: "expire_if_due now (r, s) = (False, r1, s0)"
      and new: "eu_object_id ev \<notin> keys (r_evidence r)"
      and items: "len (r_evidence r) < MAX_EVIDENCE_ITEMS"
      and bound: "record_evidence_bytes r + len (eu_payload ev) \<le> b_response_bytes (r_binding r)"
      and quota: "p_evidence s + len (eu_payload ev) \<le> max_total_evidence_bytes (p_limits s)"
      and item: "item = wrap_evidence L (p_keys s) (c_nonce c) (b_mailbox_id b) ev"
      and u: "unwrap L (p_keys s) (b_mailbox_id b) (eu_object_id ev) item = Inr ev'"
      and out: "observe_time now
        (r\<lparr>r_evidence := AList.update (eu_object_id ev) item (r_evidence r)\<rparr>, s) = (r', s1)"
    for r r1 s0 r' s1 now item ev'
  proof (rule step_result [OF now r(1)])
    let ?s' = "put_record r' (s1\<lparr>p_evidence := p_evidence s1 + we_byte_count item\<rparr>)"
    have r': "r' = r\<lparr>r_evidence := AList.update (eu_object_id ev) item (r_evidence r),
        r_last_seen := now\<rparr>" and s1: "s1 = advance_installation_time now s"
      using out by (auto simp: observe_time_def)
    have before: "now < deadline_of r" using expire_if_due_False [OF live] r(3) by simp
    have none: "map_of (r_evidence r) (eu_object_id ev) = None"
      using new by (simp add: map_of_eq_None_iff)
    have count: "we_byte_count item = len (eu_payload ev)"
      by (simp add: item wrap_evidence_def Let_def)
    show "rstep L (p_keys s) now r r'"
      unfolding r' using u r(2) bound count
      by (intro rstep.staged [OF r(3) before none items]) auto
    have bytes: "record_evidence_bytes r' = record_evidence_bytes r + we_byte_count item"
      by (rule record_evidence_bytes_update [OF none]) (simp add: r')
    obtain v where "validated_record_material L (p_keys s) r = Inr v"
      using records_okD(3) [OF ok r(1)] by (auto simp: authentic_iff)
    then have "r_committed_at r = None"
      using validated_record_material_uncommitted(4) r(3) by auto
    then have zero: "committed_bytes r = 0" "committed_bytes r' = 0"
      by (simp_all add: committed_bytes_def r')
    have act: "active_bytes r' = active_bytes r" by (simp add: active_bytes_def r')
    show eq: "?s' = settle now r r' s"
      using validated_not_after [OF now] act zero bytes
      by (intro settleI) (simp_all add: s1 advance_last_seen, simp add: r')
    show "within_quota s ?s'"
      unfolding eq using quota count by (simp add: within_quota_def act zero bytes)
    show "set (credentials_of r') \<subseteq> set (credentials_of r)"
      by (intro credentials_subset) (simp_all add: r')
  qed
  then show ?thesis
    unfolding stage_evidence_def
    by (auto simp: get_record_Inr op_splits Let_def require_result_access_Inr linorder_not_le
        linorder_not_less split: prod.splits intro: expire_step [OF _ _ ok])
qed


text \<open>A manifest built for a result and its evidence validates against both.\<close>

lemma build_validates:
  assumes "lib_ok L" and "build_committed_manifest L K b ids w = Inr m"
  shows "validate_committed_manifest L K b (Some w) (Some m) ids = Inr ()"
  using assms by (auto simp: validate_committed_manifest_def build_committed_manifest_def
      Let_def lib_okD split: if_splits)

text \<open>The record a commit writes authenticates, to the evidence it had and the new result.\<close>

lemma committed_validates:
  assumes "lib_ok L" "length nonce = 12" "result_json \<noteq> []"
    and "validated_record_material L K r = Inr (validated, x)" "r_state r = S_CLAIMED_ONCE"
    and "validate_result_references L (r_binding r) result_json validated = Inr ()"
    and "w = wrap_result L K nonce (r_binding r) result_json"
    and "build_committed_manifest L K (r_binding r) (map fst validated) w = Inr m"
    and "r' = r\<lparr>r_result := Some w, r_manifest := Some m, r_state := S_RESULT_COMMITTED,
      r_collection := C_READY, r_result_digest := None, r_committed_at := Some now,
      r_last_seen := now\<rparr>"
  shows "validated_record_material L K r' = Inr (validated, Some result_json)"
  using assms validated_material_evidence [OF assms(4)]
    unwrap_wrap_result [OF assms(1-3), of K "r_binding r"] build_validates [OF assms(1,8)]
  by (simp add: validated_record_material_def)

lemma commit_result_effect:
  assumes ok: "records_ok L s" and L: "lib_ok L" and nonce: "length (c_nonce c) = 12"
    and json: "result_json \<noteq> []" "len result_json \<le> MAX_RESULT_ENVELOPE_BYTES"
  shows "unchanged_or_step L c (b_mailbox_id b) s
    (snd (commit_result L b result_d result_json seals c s))"
proof -
  have "unchanged_or_step L c (b_mailbox_id b) s
          (put_record r' (s1\<lparr>p_committed := p_committed s1 + n\<rparr>))"
    if r: "map_of (p_records s) (b_mailbox_id b) = Some r" "r_state r = S_CLAIMED_ONCE"
      and v: "validated_record_material L (p_keys s) r = Inr (validated, x)"
      and now: "validated_record_now s r (c_now c) = Inr now"
      and live: "expire_if_due now (r, s) = (False, r1, s0)"
      and n: "n = len result_json + record_evidence_bytes r"
      and bound: "n \<le> b_response_bytes (r_binding r)"
      and quota: "p_committed s + n \<le> max_total_committed_bytes (p_limits s)"
      and w: "w = wrap_result L (p_keys s) (c_nonce c) (r_binding r) result_json"
      and refs: "validate_result_references L (r_binding r) result_json validated = Inr ()"
      and m: "build_committed_manifest L (p_keys s) (r_binding r) (map fst validated) w = Inr m"
      and out: "observe_time now (r\<lparr>r_result := Some w, r_manifest := Some m,
        r_state := S_RESULT_COMMITTED, r_collection := C_READY, r_result_digest := None,
        r_committed_at := Some now\<rparr>, s) = (r', s1)"
    for r r1 s0 r' s1 now n w m validated x
  proof (rule step_result [OF now r(1)])
    let ?s' = "put_record r' (s1\<lparr>p_committed := p_committed s1 + n\<rparr>)"
    have r': "r' = r\<lparr>r_result := Some w, r_manifest := Some m,
        r_state := S_RESULT_COMMITTED, r_collection := C_READY, r_result_digest := None,
        r_committed_at := Some now, r_last_seen := now\<rparr>"
      and s1: "s1 = advance_installation_time now s"
      using out by (auto simp: observe_time_def)
    have count: "wr_byte_count w = len result_json" by (simp add: w wrap_result_def Let_def)
    have "now < deadline_of r" using expire_if_due_False [OF live] r(2) by simp
    then show "rstep L (p_keys s) now r r'"
      using count bound n json(2)
      by (intro rstep.committed [OF r(2) _ _ _ r'
            committed_validates [OF L nonce json(1) v r(2) refs w m r']]) auto
    have "r_committed_at r = None" using validated_record_material_uncommitted(4) [OF v] r(2) by simp
    then have bytes: "committed_bytes r = 0" "committed_bytes r' = n"
      "active_bytes r' = active_bytes r" "record_evidence_bytes r' = record_evidence_bytes r"
      by (simp_all add: committed_bytes_def result_bytes_def r' n count active_bytes_def
          record_evidence_bytes_def)
    show eq: "?s' = settle now r r' s"
      using validated_not_after [OF now] bytes
      by (intro settleI) (simp_all add: s1 advance_last_seen, simp add: r')
    show "within_quota s ?s'"
      unfolding eq using quota by (simp add: within_quota_def bytes)
    show "set (credentials_of r') \<subseteq> set (credentials_of r)"
      by (intro credentials_subset) (simp_all add: r')
  qed
  then show ?thesis
    unfolding commit_result_def
    by (auto simp: get_record_Inr op_splits Let_def require_result_access_Inr linorder_not_le
        linorder_not_less split: prod.splits intro: expire_step [OF _ _ ok])
qed

lemma observe_step:
  assumes "validated_record_now s r (c_now c) = Inr now" and "map_of (p_records s) k = Some r"
    and "observe_time now (r, s) = (r', s')"
  shows "unchanged_or_step L c k s (put_record r' s')"
proof -
  have eq: "r' = r\<lparr>r_last_seen := now\<rparr>" "s' = advance_installation_time now s"
    using assms(3) by (auto simp: observe_time_def)
  show ?thesis
    unfolding eq touch_settle [OF validated_not_after [OF assms(1)]]
    by (rule step_result [OF assms(1,2) rstep.touch refl within_quota_shrink]) simp_all
qed

lemma collect_effect:
  assumes ok: "records_ok L s"
  shows "unchanged_or_step L c k s (snd (collect L k collection_d c s))"
proof -
  have "unchanged_or_step L c k s (put_record r' s1)"
    if r: "map_of (p_records s) k = Some r" "r_state r = S_RESULT_COMMITTED"
      "r_collection r \<in> {C_READY, C_DELIVERING}"
      and now: "validated_record_now s r (c_now c) = Inr now"
      and out: "observe_time now (r\<lparr>r_collection := C_DELIVERING\<rparr>, s) = (r', s1)"
    for r r' s1 now
  proof (rule step_result [OF now r(1)])
    have r': "r' = r\<lparr>r_collection := C_DELIVERING, r_last_seen := now\<rparr>"
      and s1: "s1 = advance_installation_time now s"
      using out by (auto simp: observe_time_def)
    show "rstep L (p_keys s) now r r'" unfolding r' by (rule rstep.delivering [OF r(2,3)])
    have bytes: "committed_bytes r' = committed_bytes r" "active_bytes r' = active_bytes r"
      "record_evidence_bytes r' = record_evidence_bytes r"
      by (simp_all add: committed_bytes_def result_bytes_def r' active_bytes_def
          record_evidence_bytes_def)
    show eq: "put_record r' s1 = settle now r r' s"
      using validated_not_after [OF now] bytes
      by (intro settleI) (simp_all add: s1 advance_last_seen, simp add: r')
    show "within_quota s (put_record r' s1)"
      unfolding eq by (rule within_quota_shrink) (simp_all add: bytes)
    show "set (credentials_of r') \<subseteq> set (credentials_of r)"
      by (intro credentials_subset) (simp_all add: r')
  qed
  then show ?thesis
    unfolding collect_def
    by (auto simp: get_record_Inr op_splits Let_def split: prod.splits option.splits)
qed

lemma acknowledge_collection_effect:
  assumes ok: "records_ok L s"
  shows "unchanged_or_step L c k s (snd (acknowledge_collection L k collection_d c s))"
proof -
  have "unchanged_or_step L c k s (put_record r' s')"
    if r: "map_of (p_records s) k = Some r" "r_state r = S_RESULT_COMMITTED"
      "r_collection r = C_DELIVERING"
      and now: "validated_record_now s r (c_now c) = Inr now"
      and rel: "release_record_payloads (r, s) = (r1, s1)"
      and out: "observe_time now
        (r1\<lparr>r_collection := C_ACKNOWLEDGED, r_terminal_at := Some now\<rparr>, s1) = (r', s')"
    for r r1 s1 r' s' now
  proof (rule step_result [OF now r(1)])
    have r': "r' = r\<lparr>r_result := None, r_manifest := None, r_evidence := [],
        r_collection := C_ACKNOWLEDGED, r_terminal_at := Some now, r_last_seen := now\<rparr>"
      and s1: "s' = advance_installation_time now
        (s\<lparr>p_evidence := p_evidence s - record_evidence_bytes r,
           p_committed := p_committed s - committed_bytes r\<rparr>)"
      using out rel
      by (auto simp: observe_time_def release_record_payloads_def Let_def committed_bytes_def)
    show "rstep L (p_keys s) now r r'" unfolding r' by (rule rstep.acknowledged [OF r(2,3)])
    have bytes: "committed_bytes r' = 0" "active_bytes r' = active_bytes r"
      "record_evidence_bytes r' = 0"
      by (simp_all add: committed_bytes_def result_bytes_def r' active_bytes_def
          record_evidence_bytes_def)
    show eq: "put_record r' s' = settle now r r' s"
      using validated_not_after [OF now] bytes
      by (intro settleI) (simp_all add: s1 advance_last_seen, simp add: r')
    show "within_quota s (put_record r' s')"
      unfolding eq using authentic_bytes_nonneg [OF records_okD(3) [OF ok r(1)]]
      by (intro within_quota_shrink) (simp_all add: bytes)
    show "set (credentials_of r') \<subseteq> set (credentials_of r)"
      by (intro credentials_subset) (simp_all add: r')
  qed
  then show ?thesis
    unfolding acknowledge_collection_def
    by (auto simp: get_record_Inr op_splits Let_def split: prod.splits intro: observe_step)
qed

lemma abandon_effect:
  assumes ok: "records_ok L s"
  shows "unchanged_or_step L c k s (snd (abandon L k collection_d c s))"
proof -
  have "unchanged_or_step L c k s (put_record r' s')"
    if r: "map_of (p_records s) k = Some r" "live r"
      and now: "validated_record_now s r (c_now c) = Inr now"
      and nd: "expire_if_due now (r, s) = (False, r0, s0)"
      and clr: "clear_action_material (r, s) = (r1, s1)"
      and out: "observe_time now
        (r1\<lparr>r_state := S_ABANDONED, r_terminal_at := Some now\<rparr>, s1) = (r', s')"
    for r r0 s0 r1 s1 r' s' now
  proof -
    have before: "now < deadline_of r" using expire_if_due_False [OF nd] r(2) by blast
    have eq: "r' = r1\<lparr>r_state := S_ABANDONED, r_terminal_at := Some now, r_last_seen := now\<rparr>"
      "s' = advance_installation_time now s1"
      using out by (auto simp: observe_time_def)
    show ?thesis
      unfolding eq close_settle(2) [OF validated_not_after [OF now] clr]
      using authentic_bytes_nonneg [OF records_okD(3) [OF ok r(1)]] cleared_credentials
      by (intro step_result [OF now r(1) rstep.abandoned [OF r(2) before] refl])
        (auto intro!: within_quota_shrink)
  qed
  then show ?thesis
    unfolding abandon_def
    by (auto simp: get_record_Inr op_splits Let_def
        split: prod.splits intro: expire_step [OF _ _ ok])
qed

lemma snapshot_effect:
  assumes ok: "records_ok L s"
  shows "unchanged_or_step L c k s (snd (snapshot L k collection_d c s))"
  unfolding snapshot_def
  by (auto simp: get_record_Inr op_splits Let_def split: prod.splits
      intro: expire_step [OF _ _ ok] observe_step dest: expire_if_due_False)

end
