(* ===== verification/Mailbox_Invariant.thy ===== *)
theory Mailbox_Invariant
  imports Mailbox_Effects
begin

text \<open>
  The installation invariant of the volatile repository and its preservation by every
  operation: dictionary keys name their records, live and tombstoned identifiers are disjoint,
  the three running totals equal the bytes the records retain and stay within the configured
  quotas, the clock high-water mark bounds every record, credential digests are never shared
  between mailboxes or with the maintenance authority, and every record satisfies
  \<^const>\<open>record_inv\<close>.
\<close>


section \<open>The invariant\<close>

definition totals_exact :: "repo \<Rightarrow> bool" where
  "totals_exact s \<longleftrightarrow>
     p_active s = sum_vals active_bytes (p_records s) \<and>
     p_evidence s = sum_vals record_evidence_bytes (p_records s) \<and>
     p_committed s = sum_vals committed_bytes (p_records s)"

definition quotas_kept :: "repo \<Rightarrow> bool" where
  "quotas_kept s \<longleftrightarrow>
     len (p_records s) \<le> max_mailboxes (p_limits s) \<and>
     len (p_tombstones s) \<le> max_tombstones (p_limits s) \<and>
     p_active s \<le> max_total_active_material_bytes (p_limits s) \<and>
     p_evidence s \<le> max_total_evidence_bytes (p_limits s) \<and>
     p_committed s \<le> max_total_committed_bytes (p_limits s)"

definition credentials_isolated :: "repo \<Rightarrow> bool" where
  "credentials_isolated s \<longleftrightarrow>
     (\<forall>k r. map_of (p_records s) k = Some r \<longrightarrow>
        p_maintenance s \<notin> set (credentials_of r) \<and>
        (\<forall>k' r'. map_of (p_records s) k' = Some r' \<and> k' \<noteq> k \<longrightarrow>
           set (credentials_of r) \<inter> set (credentials_of r') = {}))"

definition clock_bounds :: "repo \<Rightarrow> bool" where
  "clock_bounds s \<longleftrightarrow>
     (\<forall>k r. map_of (p_records s) k = Some r \<longrightarrow>
        (\<exists>t. p_last_seen s = Some t \<and> r_last_seen r \<le> t))"

definition keys_ok :: "repo \<Rightarrow> bool" where
  "keys_ok s \<longleftrightarrow> wf_dict (p_records s) \<and> wf_dict (p_tombstones s) \<and>
     keys (p_records s) \<inter> keys (p_tombstones s) = {}"

definition repo_inv :: "lib \<Rightarrow> repo \<Rightarrow> bool" where
  "repo_inv L s \<longleftrightarrow>
     mailbox_limits_ok (p_limits s) \<and> keys_ok s \<and> records_ok L s \<and> clock_bounds s \<and>
     totals_exact s \<and> quotas_kept s \<and> credentials_isolated s"

lemma repo_invD:
  assumes "repo_inv L s"
  shows "mailbox_limits_ok (p_limits s)" "keys_ok s" "records_ok L s" "clock_bounds s"
    "totals_exact s" "quotas_kept s" "credentials_isolated s" "wf_dict (p_records s)"
  using assms by (simp_all add: repo_inv_def keys_ok_def)


section \<open>A settled step preserves it\<close>

lemma keys_update_old:
  "map_of d k = Some u \<Longrightarrow> keys (AList.update k v d) = keys d"
  by (auto simp: dom_update keys_map_of)

lemma totals_exact_settle:
  assumes "totals_exact s" and "map_of (p_records s) (b_mailbox_id (r_binding r)) = Some r"
  shows "totals_exact (settle now r r' s)"
  using assms by (simp add: totals_exact_def sum_vals_update_old)

lemma not_in_use:
  "\<not> credential_in_use s d (Some k) \<Longrightarrow> map_of (p_records s) k' = Some r' \<Longrightarrow> k' \<noteq> k \<Longrightarrow>
     d \<notin> set (credentials_of r')"
  by (auto simp: credential_in_use_def list_ex_iff dest: map_of_SomeD)

lemma credentials_isolated_settle:
  assumes iso: "credentials_isolated s"
    and r: "map_of (p_records s) k = Some r" "b_mailbox_id (r_binding r) = k"
    and fresh: "fresh_credentials s r r'"
  shows "credentials_isolated (settle now r r' s)"
proof -
  have new: "p_maintenance s \<notin> set (credentials_of r')"
    using iso r(1) fresh unfolding credentials_isolated_def fresh_credentials_def by blast
  have apart: "set (credentials_of r') \<inter> set (credentials_of x) = {}"
    if x: "map_of (p_records s) k' = Some x" "k' \<noteq> k" for k' x
  proof -
    have "set (credentials_of r) \<inter> set (credentials_of x) = {}"
      using iso r(1) x unfolding credentials_isolated_def by blast
    moreover have "d \<notin> set (credentials_of x)"
      if "d \<in> set (credentials_of r') - set (credentials_of r)" for d
      using not_in_use [OF _ x] fresh that r(2) unfolding fresh_credentials_def by blast
    ultimately show ?thesis by blast
  qed
  show ?thesis
    unfolding credentials_isolated_def settle_fields r(2) map_of_update_eq
    using iso new apart unfolding credentials_isolated_def
    by (metis inf_commute option.inject)
qed

lemma op_effect_inv:
  assumes inv: "repo_inv L s" and eff: "op_effect L now k s s'"
  shows "repo_inv L s'"
proof -
  obtain r r' where r: "map_of (p_records s) k = Some r" and step: "rstep L (p_keys s) now r r'"
    and old: "r_last_seen r \<le> now" "not_after s now" and s': "s' = settle now r r' s"
    and quota: "within_quota s s'" and fresh: "fresh_credentials s r r'"
    using eff by (auto simp: op_effect_def)
  have key: "b_mailbox_id (r_binding r) = k" and rinv: "record_inv L (p_keys s) r"
    using records_okD [OF repo_invD(3) [OF inv] r] by simp_all
  have "records_ok L s'"
    using repo_invD(3) [OF inv] rstep_record_inv [OF step rinv old(1)] rstep_binding [OF step]
    by (auto simp: records_ok_def s' key)
  moreover have "keys_ok s'"
    using repo_invD(2) [OF inv] r
    by (simp add: keys_ok_def s' keys_update_old [of _ _ r] key)
  moreover have "clock_bounds s'"
    using repo_invD(4) [OF inv] old(2) rstep_identity [OF step]
    by (fastforce simp: clock_bounds_def s' key)
  moreover have "totals_exact s'"
    using totals_exact_settle repo_invD(5) [OF inv] r by (simp add: s' key)
  moreover have "quotas_kept s'"
    using repo_invD(6) [OF inv] quota r
    by (auto simp: quotas_kept_def within_quota_def s' key length_update_old [of _ _ r])
  moreover have "credentials_isolated s'"
    unfolding s' by (rule credentials_isolated_settle [OF repo_invD(7) [OF inv] r key fresh])
  ultimately show ?thesis
    using repo_invD(1) [OF inv] by (simp add: repo_inv_def s')
qed

lemma unchanged_or_step_inv:
  "repo_inv L s \<Longrightarrow> unchanged_or_step L c k s s' \<Longrightarrow> repo_inv L s'"
  by (auto simp: unchanged_or_step_def intro: op_effect_inv)


section \<open>Creation\<close>

lemma new_repo_inv:
  "new_repo L m l key = Inr s \<Longrightarrow> mailbox_limits_ok l \<Longrightarrow> repo_inv L s"
  by (auto simp: new_repo_def repo_inv_def keys_ok_def records_ok_def clock_bounds_def
      totals_exact_def quotas_kept_def credentials_isolated_def mailbox_limits_ok_def
      split: if_splits)

definition fresh_record :: "action_binding \<Rightarrow> bytes \<Rightarrow> bytes \<Rightarrow> bytes \<Rightarrow> int \<Rightarrow> mrec" where
  "fresh_record b action_d claim_d collection_d now =
     \<lparr>r_binding = b, r_created_at = now, r_last_seen = now,
      r_action_digest = action_d, r_claim_digest = claim_d,
      r_collection_digest = collection_d, r_state = S_EMPTY, r_collection = C_NONE,
      r_envelope_json = None, r_action_key = None, r_result_credential = None,
      r_result_digest = None, r_evidence = [], r_result = None, r_manifest = None,
      r_committed_at = None, r_terminal_at = None\<rparr>"

lemma fresh_record_inv:
  assumes "action_binding_ok b" and "distinct [action_d, claim_d, collection_d]"
  shows "record_inv L K (fresh_record b action_d claim_d collection_d now)"
  using assms by (simp add: record_inv_defs fresh_record_def credentials_of_def
      validated_record_material_def validated_evidence_slots_def action_binding_ok_def mailbox_consts)

lemma not_in_use_anywhere:
  "\<not> credential_in_use s d None \<Longrightarrow> map_of (p_records s) k = Some r \<Longrightarrow> d \<notin> set (credentials_of r)"
  by (auto simp: credential_in_use_def list_ex_iff dest: map_of_SomeD)

lemma create_success:
  assumes "create b action_d claim_d collection_d c s = (Inr snap, s')"
  defines "r \<equiv> fresh_record b action_d claim_d collection_d (instant (c_now c))"
  shows "is_utc (c_now c)" "not_after s (instant (c_now c))"
    "b_mailbox_id b \<notin> keys (p_records s)" "b_mailbox_id b \<notin> keys (p_tombstones s)"
    "len (p_records s) < max_mailboxes (p_limits s)"
    "distinct [action_d, claim_d, collection_d]"
    "p_maintenance s \<notin> set (credentials_of r)"
    "\<forall>d \<in> set (credentials_of r). \<not> credential_in_use s d None"
    "instant (c_now c) < instant (b_claim_deadline_utc b)"
    "s' = s\<lparr>p_records := p_records s @ [(b_mailbox_id b, r)], p_last_seen := Some (instant (c_now c))\<rparr>"
    "snap = snapshot_of r"
proof -
  obtain now where now: "validated_installation_now s (c_now c) = Inr now"
    using assms(1) by (auto simp: create_def attempt_def split: sum.splits)
  note n = validated_installation_now_Inr [OF now]
  have seen: "not_after s (instant (c_now c))" using n(2,3) by simp
  note facts = assms(1) [unfolded create_def now attempt_simps Let_def n(2)]
  show "is_utc (c_now c)" by (rule n(1))
  show "not_after s (instant (c_now c))" by (rule seen)
  show nk: "b_mailbox_id b \<notin> keys (p_records s)" and "b_mailbox_id b \<notin> keys (p_tombstones s)"
    and "len (p_records s) < max_mailboxes (p_limits s)"
    and "distinct [action_d, claim_d, collection_d]"
    and "p_maintenance s \<notin> set (credentials_of r)"
    and "\<forall>d \<in> set (credentials_of r). \<not> credential_in_use s d None"
    and "instant (c_now c) < instant (b_claim_deadline_utc b)" and "snap = snapshot_of r"
    using facts by (auto simp: r_def fresh_record_def credentials_of_def split: if_splits)
  have "s' = advance_installation_time (instant (c_now c)) (put_record r s)"
    using facts by (auto simp: r_def fresh_record_def split: if_splits)
  moreover have "put_record r s = s\<lparr>p_records := p_records s @ [(b_mailbox_id b, r)]\<rparr>"
    using nk by (simp add: put_record_def r_def fresh_record_def update_new_append
        map_of_eq_None_iff)
  ultimately show "s' = s\<lparr>p_records := p_records s @ [(b_mailbox_id b, r)],
      p_last_seen := Some (instant (c_now c))\<rparr>"
    using seen by (intro repo.equality) (simp_all add: advance_last_seen)
qed

lemma create_failure:
  "create b action_d claim_d collection_d c s = (Inl e, s') \<Longrightarrow> s' = s"
  by (auto simp: create_def attempt_def Let_def split: sum.splits if_splits)


lemma sum_vals_append [simp]: "sum_vals f (d @ e) = sum_vals f d + sum_vals f e"
  by (simp add: sum_vals_def)

lemma create_inv:
  assumes inv: "repo_inv L s" and b: "action_binding_ok b"
  shows "repo_inv L (snd (create b action_d claim_d collection_d c s))"
proof (cases "create b action_d claim_d collection_d c s")
  case (Pair out s')
  show ?thesis
  proof (cases out)
    case (Inl e)
    then show ?thesis using inv create_failure Pair by fastforce
  next
    case (Inr snap)
    define r where "r = fresh_record b action_d claim_d collection_d (instant (c_now c))"
    note ok = create_success [OF Pair [unfolded Inr], folded r_def]
    have fields: "b_mailbox_id (r_binding r) = b_mailbox_id b" "active_bytes r = 0"
      "record_evidence_bytes r = 0" "committed_bytes r = 0" "r_last_seen r = instant (c_now c)"
      by (simp_all add: r_def fresh_record_def active_bytes_def opt_len_def
          record_evidence_bytes_def committed_bytes_def)
    have none: "map_of (p_records s) (b_mailbox_id b) = None"
      using ok(3) by (simp add: map_of_eq_None_iff)
    have lookup: "map_of (p_records s') k =
        (if k = b_mailbox_id b then Some r else map_of (p_records s) k)" for k
      using none by (auto simp: ok(10) map_add_def split: option.splits)
    have "records_ok L s'"
      using repo_invD(3) [OF inv] fresh_record_inv [OF b ok(6)] fields(1)
      by (auto simp: records_ok_def lookup r_def) (auto simp: ok(10))
    moreover have "keys_ok s'"
      using repo_invD(2) [OF inv] ok(3,4) by (auto simp: keys_ok_def ok(10) wf_dict_def)
    moreover have "p_last_seen s' = Some (instant (c_now c))" by (simp add: ok(10))
    then have "clock_bounds s'"
      using repo_invD(4) [OF inv] ok(2) fields(5)
      by (fastforce simp: clock_bounds_def lookup)
    moreover have "totals_exact s'"
      using repo_invD(5) [OF inv] by (simp add: totals_exact_def ok(10) fields)
    moreover have "quotas_kept s'"
      using repo_invD(6) [OF inv] ok(5) by (simp add: quotas_kept_def ok(10))
    moreover have "credentials_isolated s'"
      using repo_invD(7) [OF inv] ok(7,8) not_in_use_anywhere
      unfolding credentials_isolated_def lookup by (auto simp: ok(10))
    ultimately show ?thesis
      using repo_invD(1) [OF inv] Pair by (simp add: repo_inv_def ok(10))
  qed
qed



section \<open>The expiry sweep\<close>

definition sweep :: "lib \<Rightarrow> int \<Rightarrow> repo \<Rightarrow> repo \<Rightarrow> bool" where
  "sweep L now = (\<lambda>s s'. \<exists>k. op_effect L now k s s')\<^sup>*\<^sup>*"

lemma sweep_refl [simp]: "sweep L now s s"
  by (simp add: sweep_def)

lemma sweep_step: "op_effect L now k s s1 \<Longrightarrow> sweep L now s1 s2 \<Longrightarrow> sweep L now s s2"
  unfolding sweep_def by (rule converse_rtranclp_into_rtranclp) auto

lemma sweep_inv: "sweep L now s s' \<Longrightarrow> repo_inv L s \<Longrightarrow> repo_inv L s'"
  unfolding sweep_def by (induction rule: rtranclp_induct) (auto intro: op_effect_inv)

lemma op_effect_not_after: "op_effect L now k s s' \<Longrightarrow> not_after s' now"
  by (auto simp: op_effect_def)

lemma clock_bounds_now:
  assumes "clock_bounds s" "not_after s now" "map_of (p_records s) k = Some r"
  shows "r_last_seen r \<le> now" and "validated_record_now s r (utc now) = Inr now"
proof -
  show old: "r_last_seen r \<le> now" using assms by (fastforce simp: clock_bounds_def)
  then show "validated_record_now s r (utc now) = Inr now"
    using assms(2) by (auto simp: validated_record_now_def validated_installation_now_def is_utc_def
        split: option.splits)
qed

lemma touch_effect:
  assumes "repo_inv L s" "not_after s now" "map_of (p_records s) k = Some r"
  shows "op_effect L now k s (put_record (r\<lparr>r_last_seen := now\<rparr>) (advance_installation_time now s))"
  by (rule op_effectI [OF assms(3) rstep.touch
        clock_bounds_now(1) [OF repo_invD(4) [OF assms(1)] assms(2,3)] assms(2)
        touch_settle [OF assms(2)]])
    (simp_all add: touch_settle [OF assms(2)] within_quota_shrink no_new_credentials)

text \<open>One iteration of the expiry loop is one settled step of the visited record.\<close>

lemma expire_visit:
  assumes inv: "repo_inv L s" and seen: "not_after s now" and r: "map_of (p_records s) k = Some r"
    and e: "expire_if_due now (r, s) = (due, r1, s1)"
  shows "due \<Longrightarrow> op_effect L now k s (put_record r1 s1)"
    and "\<not> (due \<and> r_state r \<noteq> S_EXPIRED) \<Longrightarrow>
      op_effect L now k s (put_record (r1\<lparr>r_last_seen := now\<rparr>) (advance_installation_time now s1))"
proof -
  note eff = expire_if_due_True(1) [OF _ r records_okD(3) [OF repo_invD(3) [OF inv] r]
      clock_bounds_now(2) [OF repo_invD(4) [OF inv] seen r]]
  show "op_effect L now k s (put_record r1 s1)" if due using eff e that by simp
  have "r1\<lparr>r_last_seen := now\<rparr> = r\<lparr>r_last_seen := now\<rparr> \<and>
      advance_installation_time now s1 = advance_installation_time now s"
    if "\<not> (due \<and> r_state r \<noteq> S_EXPIRED)"
    using e that
    by (auto simp: expire_if_due_def observe_time_def Let_def advance_installation_time_def
        split: if_splits option.splits)
  then show "op_effect L now k s
      (put_record (r1\<lparr>r_last_seen := now\<rparr>) (advance_installation_time now s1))"
    if "\<not> (due \<and> r_state r \<noteq> S_EXPIRED)"
    using touch_effect [OF inv seen r] that by simp
qed

lemma expire_loop_sweep:
  "repo_inv L s \<Longrightarrow> not_after s now \<Longrightarrow> sweep L now s (fst (expire_loop now ks s acc))"
proof (induction ks arbitrary: s acc)
  case (Cons k ks)
  show ?case
  proof (cases "map_of (p_records s) k")
    case None
    then show ?thesis using Cons by simp
  next
    case (Some r)
    obtain due r1 s1 where e: "expire_if_due now (r, s) = (due, r1, s1)"
      by (cases "expire_if_due now (r, s)") auto
    note visit = expire_visit [OF Cons.prems Some e]
    have onward: "sweep L now s (fst (expire_loop now ks s' acc'))"
      if "op_effect L now k s s'" for s' acc'
      using sweep_step [OF that] Cons.IH op_effect_inv [OF Cons.prems(1) that]
        op_effect_not_after [OF that] by blast
    show ?thesis
      by (cases "due \<and> r_state r \<noteq> S_EXPIRED")
        (auto simp: Some e observe_time_def intro!: onward visit)
  qed
qed simp

lemma expire_sweep:
  assumes inv: "repo_inv L s" and ok: "expire L m c s = (Inr ids, s')"
  defines "now \<equiv> instant (c_now c)"
  shows "sweep L now s (fst (expire_loop now (map fst (p_records s)) s []))"
    and "s' = advance_installation_time now (fst (expire_loop now (map fst (p_records s)) s []))"
    and "is_utc (c_now c)" "not_after s now" "m = p_maintenance s"
proof -
  have now: "validated_installation_now s (c_now c) = Inr now"
    and "m = p_maintenance s"
    and s': "s' = advance_installation_time now (fst (expire_loop now (map fst (p_records s)) s []))"
    using ok validated_installation_now_Inr(2) unfolding now_def expire_def require_maintenance_def
    by (fastforce simp: attempt_def split: sum.splits if_splits prod.splits)+
  then show "m = p_maintenance s" "is_utc (c_now c)"
    "s' = advance_installation_time now (fst (expire_loop now (map fst (p_records s)) s []))"
    using validated_installation_now_Inr(1) by blast+
  show "not_after s now" using validated_installation_now_Inr(3) [OF now] by simp
  then show "sweep L now s (fst (expire_loop now (map fst (p_records s)) s []))"
    by (rule expire_loop_sweep [OF inv])
qed

lemma advance_inv:
  assumes "repo_inv L s"
  shows "repo_inv L (advance_installation_time now s)"
proof -
  have "clock_bounds (advance_installation_time now s)"
    using repo_invD(4) [OF assms]
    by (fastforce simp: clock_bounds_def advance_installation_time_def split: option.splits)
  then show ?thesis
    using assms by (simp add: repo_inv_def keys_ok_def records_ok_def totals_exact_def
        quotas_kept_def credentials_isolated_def)
qed

lemma expire_failure: "expire L m c s = (Inl e, s') \<Longrightarrow> s' = s"
  by (auto simp: expire_def attempt_def Let_def split: sum.splits if_splits prod.splits)

lemma expire_inv:
  assumes "repo_inv L s"
  shows "repo_inv L (snd (expire L m c s))"
proof (cases "expire L m c s")
  case (Pair out s')
  show ?thesis
  proof (cases out)
    case (Inl e)
    then show ?thesis using expire_failure [OF Pair [unfolded Inl]] Pair assms by simp
  next
    case (Inr ids)
    note ok = expire_sweep [OF assms Pair [unfolded Inr]]
    show ?thesis
      using advance_inv [OF sweep_inv [OF ok(1) assms]] ok(2) Pair by simp
  qed
qed



section \<open>Garbage collection\<close>

definition touch_all :: "int \<Rightarrow> repo \<Rightarrow> repo" where
  "touch_all now s = advance_installation_time now
     (s\<lparr>p_records := map (\<lambda>(k, r). (k, r\<lparr>r_last_seen := now\<rparr>)) (p_records s)\<rparr>)"

definition drop_tombstones :: "int \<Rightarrow> repo \<Rightarrow> repo" where
  "drop_tombstones now s =
     s\<lparr>p_tombstones := filter (\<lambda>(_, t). \<not> t_expires_at t \<le> now) (p_tombstones s)\<rparr>"

definition remove :: "int \<Rightarrow> int \<Rightarrow> uuid \<Rightarrow> mrec \<Rightarrow> repo \<Rightarrow> repo" where
  "remove now expires k r s =
     s\<lparr>p_records := AList.delete k (p_records s),
       p_tombstones := AList.update k \<lparr>t_created_at = now, t_expires_at = expires\<rparr> (p_tombstones s),
       p_active := p_active s - active_bytes r,
       p_evidence := p_evidence s - record_evidence_bytes r,
       p_committed := p_committed s - committed_bytes r\<rparr>"

lemma discard_remove:
  "(let s1 = snd (discard_record (r, s))
    in s1\<lparr>p_records := AList.delete k (p_records s1),
          p_tombstones := AList.update k \<lparr>t_created_at = now, t_expires_at = expires\<rparr>
            (p_tombstones s1)\<rparr>) = remove now expires k r s"
  by (intro repo.equality)
    (simp_all add: remove_def discard_record_def release_record_payloads_def clear_result_digest_def
      clear_claim_delivery_material_def Let_def committed_bytes_def result_bytes_def
      record_evidence_bytes_def)

lemma map_of_map_vals: "map_of (map (\<lambda>(k, v). (k, g v)) d) k = map_option g (map_of d k)"
  by (induction d) auto

lemma fst_map_vals [simp]:
  "fst \<circ> (\<lambda>(k, v). (k, g v)) = fst" "fst ` (\<lambda>(k, v). (k, g v)) ` A = fst ` A"
  by (auto simp: image_image split_def)

lemma sum_vals_map_vals: "sum_vals f (map (\<lambda>(k, v). (k, g v)) d) = sum_vals (\<lambda>v. f (g v)) d"
  by (induction d) auto

lemma touch_all_inv:
  assumes inv: "repo_inv L s" and seen: "not_after s now"
  shows "repo_inv L (touch_all now s)"
proof -
  let ?s = "s\<lparr>p_records := map (\<lambda>(k, r). (k, r\<lparr>r_last_seen := now\<rparr>)) (p_records s)\<rparr>"
  have rec: "map_of (p_records ?s) k = map_option (\<lambda>r. r\<lparr>r_last_seen := now\<rparr>) (map_of (p_records s) k)"
    for k by (simp add: map_of_map_vals)
  have "records_ok L (touch_all now s)"
    using records_okD [OF repo_invD(3) [OF inv]] rstep_record_inv [OF rstep.touch]
      clock_bounds_now(1) [OF repo_invD(4) [OF inv] seen]
    by (auto simp: records_ok_def touch_all_def map_of_map_vals)
  moreover have "p_last_seen (touch_all now s) = Some now"
    unfolding touch_all_def by (rule advance_last_seen) (simp add: seen)
  then have "clock_bounds (touch_all now s)"
    by (auto simp: clock_bounds_def touch_all_def map_of_map_vals)
  moreover have "keys_ok (touch_all now s)"
    using repo_invD(2) [OF inv] by (simp add: keys_ok_def touch_all_def wf_dict_def)
  moreover have "totals_exact (touch_all now s)" "quotas_kept (touch_all now s)"
    using repo_invD(5,6) [OF inv]
    by (simp_all add: totals_exact_def quotas_kept_def touch_all_def sum_vals_map_vals)
  moreover have "credentials_isolated (touch_all now s)"
    using repo_invD(7) [OF inv]
    by (simp add: credentials_isolated_def touch_all_def map_of_map_vals) (metis touch_fields(1))
  ultimately show ?thesis
    using repo_invD(1) [OF inv] by (simp add: repo_inv_def touch_all_def)
qed

lemma drop_tombstones_inv:
  assumes "repo_inv L s"
  shows "repo_inv L (drop_tombstones now s)"
proof -
  have "len (p_tombstones (drop_tombstones now s)) \<le> len (p_tombstones s)"
    by (simp add: drop_tombstones_def length_filter_le)
  moreover have "quotas_kept (s\<lparr>p_tombstones := p_tombstones s\<rparr>)"
    using repo_invD(6) [OF assms] by simp
  ultimately have "quotas_kept (drop_tombstones now s)"
    by (simp add: quotas_kept_def drop_tombstones_def del: length_filter_le)
  moreover have "keys_ok (drop_tombstones now s)"
    using repo_invD(2) [OF assms]
    by (auto simp: keys_ok_def drop_tombstones_def wf_dict_def distinct_map_filter)
  ultimately show ?thesis
    using assms by (simp add: repo_inv_def records_ok_def clock_bounds_def totals_exact_def
        credentials_isolated_def drop_tombstones_def)
qed

lemma keys_delete: "keys (AList.delete k d) = keys d - {k}"
  by (induction d) auto

lemma length_delete_le: "length (AList.delete k d) \<le> length d"
  by (simp add: AList.delete_eq)

lemma remove_inv:
  assumes inv: "repo_inv L s" and r: "map_of (p_records s) k = Some r"
    and room: "len (p_tombstones s) < max_tombstones (p_limits s)"
  shows "repo_inv L (remove now expires k r s)"
proof -
  let ?s = "remove now expires k r s"
  note nn = authentic_bytes_nonneg [OF records_okD(3) [OF repo_invD(3) [OF inv] r]]
  have "k \<in> keys (p_records s)" using r by (auto simp: keys_map_of)
  then have tomb: "map_of (p_tombstones s) k = None"
    using repo_invD(2) [OF inv] by (auto simp: keys_ok_def map_of_eq_None_iff)
  have "len (p_records ?s) \<le> len (p_records s)"
    by (simp add: remove_def length_delete_le)
  moreover have "len (p_tombstones ?s) = len (p_tombstones s) + 1"
    using tomb by (simp add: remove_def length_update_new)
  moreover have "p_active ?s \<le> p_active s" "p_evidence ?s \<le> p_evidence s"
    "p_committed ?s \<le> p_committed s" "p_limits ?s = p_limits s"
    using nn by (simp_all add: remove_def)
  ultimately have "quotas_kept ?s"
    using repo_invD(6) [OF inv] room unfolding quotas_kept_def by simp
  moreover have "keys_ok ?s"
    using repo_invD(2) [OF inv]
    by (auto simp: keys_ok_def remove_def dom_update keys_delete)
  moreover have "totals_exact ?s"
    using repo_invD(5,8) [OF inv] r by (simp add: totals_exact_def remove_def sum_vals_delete)
  moreover have "records_ok L ?s" "clock_bounds ?s"
    using repo_invD(3,4) [OF inv] by (simp_all add: records_ok_def clock_bounds_def remove_def)
  moreover have "credentials_isolated ?s"
    using repo_invD(7) [OF inv] by (simp add: credentials_isolated_def remove_def)
  ultimately show ?thesis
    using repo_invD(1) [OF inv] by (simp add: repo_inv_def remove_def)
qed


lemma gc_loop_Cons:
  "gc_loop now expires (k # ks) s removed =
     (case map_of (p_records s) k of
        None \<Rightarrow> gc_loop now expires ks s removed
      | Some r \<Rightarrow>
          if (\<exists>t. r_terminal_at r = Some t \<and> now - t \<ge> terminal_retention (p_limits s)) \<and>
             len (p_tombstones s) < max_tombstones (p_limits s)
          then gc_loop now expires ks (remove now expires k r s) (removed @ [k])
          else gc_loop now expires ks s removed)"
  using discard_remove [of _ s k now expires, unfolded Let_def]
  by (auto simp: Let_def split: option.splits)

lemma gc_loop_inv:
  "repo_inv L s \<Longrightarrow> repo_inv L (fst (gc_loop now expires ks s removed))"
proof (induction ks arbitrary: s removed)
  case (Cons k ks)
  then show ?case
    unfolding gc_loop_Cons by (auto split: option.splits intro: remove_inv)
qed simp

lemma garbage_collect_success:
  assumes "garbage_collect L m c s = (Inr ids, s')"
  defines "now \<equiv> instant (c_now c)"
  defines "s0 \<equiv> drop_tombstones now (touch_all now s)"
  shows "is_utc (c_now c)" "not_after s now" "m = p_maintenance s"
    "now + tombstone_retention (p_limits s) \<le> max_instant"
    "ids = sort (snd (gc_loop now (now + tombstone_retention (p_limits s))
             (gc_order now (p_records s0)) s0 []))"
    "s' = fst (gc_loop now (now + tombstone_retention (p_limits s))
             (gc_order now (p_records s0)) s0 [])"
proof -
  obtain n where n: "validated_installation_now s (c_now c) = Inr n" "m = p_maintenance s"
    using assms(1) unfolding garbage_collect_def require_maintenance_def
    by (auto simp: attempt_def split: sum.splits)
  note now = validated_installation_now_Inr [OF n(1), folded now_def]
  show "is_utc (c_now c)" "not_after s now" "m = p_maintenance s"
    using now n(2) by auto
  obtain u where "validate_all L (p_keys s) (p_records s) = Inr u"
    using assms(1) n unfolding garbage_collect_def require_maintenance_def
    by (auto simp: attempt_def split: sum.splits)
  then have eq: "(if list_ex (\<lambda>(_, r). now < r_last_seen r) (p_records s) then deny INTERNAL_UNCERTAINTY s
       else if now + tombstone_retention (p_limits s) > max_instant then deny INTERNAL_UNCERTAINTY s
       else
         let (s4, removed) = gc_loop now (now + tombstone_retention (p_limits s))
                               (gc_order now (p_records s0)) s0 []
         in (Inr (sort removed), s4)) = (Inr ids, s')"
    using assms(1) n now(2)
    unfolding garbage_collect_def require_maintenance_def s0_def touch_all_def drop_tombstones_def
      Let_def
    by (simp add: require_credential_def split: if_splits)
  then show "now + tombstone_retention (p_limits s) \<le> max_instant"
    "ids = sort (snd (gc_loop now (now + tombstone_retention (p_limits s))
             (gc_order now (p_records s0)) s0 []))"
    "s' = fst (gc_loop now (now + tombstone_retention (p_limits s))
             (gc_order now (p_records s0)) s0 [])"
    by (auto split: if_splits prod.splits)
qed

lemma garbage_collect_failure: "garbage_collect L m c s = (Inl e, s') \<Longrightarrow> s' = s"
  by (auto simp: garbage_collect_def attempt_def Let_def split: sum.splits if_splits prod.splits)

lemma garbage_collect_inv:
  assumes "repo_inv L s"
  shows "repo_inv L (snd (garbage_collect L m c s))"
proof (cases "garbage_collect L m c s")
  case (Pair out s')
  show ?thesis
  proof (cases out)
    case (Inl e)
    then show ?thesis using garbage_collect_failure [OF Pair [unfolded Inl]] Pair assms by simp
  next
    case (Inr ids)
    note ok = garbage_collect_success [OF Pair [unfolded Inr]]
    show ?thesis
      using gc_loop_inv [OF drop_tombstones_inv [OF touch_all_inv [OF assms ok(2)]]] ok(6) Pair
      by simp
  qed
qed

end
