(* ===== verification/Mailbox_Runs.thy ===== *)
theory Mailbox_Runs
  imports Mailbox_Invariant
begin

text \<open>
  Requests to the volatile repository as data, the dispatch of a request to the operation that
  serves it, and sequences of requests.  The operations run under one lock, so any
  interleaving of callers is one such sequence.  The theory proves what holds in every state
  that a sequence of requests reaches from a new repository.
\<close>


section \<open>Requests and replies\<close>

datatype request =
    Create action_binding bytes bytes bytes
  | Offer action_binding bytes bytes bytes bytes bytes bytes
  | Claim action_binding bytes
  | Stage action_binding bytes evidence_upload
  | Commit action_binding bytes bytes "evidence_seal list"
  | Collect uuid bytes
  | Acknowledge uuid bytes
  | Abandon uuid bytes
  | Snapshot uuid bytes
  | Expire bytes
  | Garbage_Collect bytes

datatype reply =
  Snap mailbox_snapshot | Action claimed_action | Bundle committed_bundle | Ids "uuid list"

definition reply_of :: "('a \<Rightarrow> reply) \<Rightarrow> 'a outcome \<Rightarrow> reply outcome" where
  "reply_of f x = (case fst x of Inl e \<Rightarrow> Inl e | Inr v \<Rightarrow> Inr (f v), snd x)"

lemma snd_reply_of [simp]: "snd (reply_of f x) = snd x"
  by (simp add: reply_of_def)

lemma reply_of_Inl [simp]: "fst (reply_of f x) = Inl e \<longleftrightarrow> fst x = Inl e"
  by (auto simp: reply_of_def split: sum.splits)

lemma reply_of_Inr: "fst (reply_of f x) = Inr y \<longleftrightarrow> (\<exists>v. fst x = Inr v \<and> y = f v)"
  by (auto simp: reply_of_def split: sum.splits)

fun perform :: "lib \<Rightarrow> call \<Rightarrow> request \<Rightarrow> repo \<Rightarrow> reply outcome" where
  "perform L c (Create b a cl co) s = reply_of Snap (create b a cl co c s)"
| "perform L c (Offer b envelope key a co cred d) s =
     reply_of Snap (offer L b envelope key a co cred d c s)"
| "perform L c (Claim b d) s = reply_of Action (claim L b d c s)"
| "perform L c (Stage b d ev) s = reply_of Snap (stage_evidence L b d ev c s)"
| "perform L c (Commit b d json seals) s = reply_of Snap (commit_result L b d json seals c s)"
| "perform L c (Collect k d) s = reply_of Bundle (collect L k d c s)"
| "perform L c (Acknowledge k d) s = reply_of Snap (acknowledge_collection L k d c s)"
| "perform L c (Abandon k d) s = reply_of Snap (abandon L k d c s)"
| "perform L c (Snapshot k d) s = reply_of Snap (snapshot L k d c s)"
| "perform L c (Expire m) s = reply_of Ids (expire L m c s)"
| "perform L c (Garbage_Collect m) s = reply_of Ids (garbage_collect L m c s)"

text \<open>
  What the types and the service in front of the repository guarantee of a request: value
  objects passed their constructors, nonces have twelve bytes, delivered material and the
  result have the sizes the service enforces.
\<close>

fun request_ok :: "call \<Rightarrow> request \<Rightarrow> bool" where
  "request_ok c (Create b _ _ _) = action_binding_ok b"
| "request_ok c (Offer b envelope key _ _ cred _) =
     claimed_action_ok \<lparr>ca_binding = b, ca_envelope_json = envelope, ca_action_key = key,
       ca_result_credential = cred\<rparr>"
| "request_ok c (Stage _ _ ev) = (evidence_upload_ok ev \<and> length (c_nonce c) = 12)"
| "request_ok c (Commit _ _ json _) =
     (json \<noteq> [] \<and> len json \<le> MAX_RESULT_ENVELOPE_BYTES \<and> length (c_nonce c) = 12)"
| "request_ok c _ = True"

text \<open>The mailbox a request addresses, if it is not a sweep.\<close>

fun target :: "request \<Rightarrow> uuid option" where
  "target (Create b _ _ _) = Some (b_mailbox_id b)"
| "target (Offer b _ _ _ _ _ _) = Some (b_mailbox_id b)"
| "target (Claim b _) = Some (b_mailbox_id b)"
| "target (Stage b _ _) = Some (b_mailbox_id b)"
| "target (Commit b _ _ _) = Some (b_mailbox_id b)"
| "target (Collect k _) = Some k"
| "target (Acknowledge k _) = Some k"
| "target (Abandon k _) = Some k"
| "target (Snapshot k _) = Some k"
| "target (Expire _) = None"
| "target (Garbage_Collect _) = None"

fun creates :: "uuid \<Rightarrow> request \<Rightarrow> bool" where
  "creates k (Create b _ _ _) = (b_mailbox_id b = k)"
| "creates k _ = False"

fun run :: "lib \<Rightarrow> (call \<times> request) list \<Rightarrow> repo \<Rightarrow> repo" where
  "run L [] s = s"
| "run L ((c, q) # qs) s = run L qs (snd (perform L c q s))"

abbreviation requests_ok :: "(call \<times> request) list \<Rightarrow> bool" where
  "requests_ok qs \<equiv> list_all (\<lambda>(c, q). request_ok c q) qs"


section \<open>Every request is a creation, one settled step or a sweep\<close>

lemma record_request_effect:
  assumes "records_ok L s" "lib_ok L" "request_ok c q" "target q = Some k" "\<not> creates k q"
  shows "unchanged_or_step L c k s (snd (perform L c q s))"
  using assms
  by (cases q) (auto simp: offer_effect claim_effect stage_evidence_effect commit_result_effect
      collect_effect acknowledge_collection_effect abandon_effect snapshot_effect)

lemma perform_cases:
  assumes "repo_inv L s" "lib_ok L" "request_ok c q"
  defines "s' \<equiv> snd (perform L c q s)"
  obtains (same) "s' = s"
  | (created) b a cl co snap where "q = Create b a cl co" "create b a cl co c s = (Inr snap, s')"
  | (stepped) k where "target q = Some k" "\<not> creates k q" "is_utc (c_now c)"
      "op_effect L (instant (c_now c)) k s s'"
  | (expired) m ids where "q = Expire m" "expire L m c s = (Inr ids, s')"
  | (collected) m ids where "q = Garbage_Collect m" "garbage_collect L m c s = (Inr ids, s')"
proof (cases "target q")
  case (Some k)
  show thesis
  proof (cases "creates k q")
    case True
    then obtain b a cl co where q: "q = Create b a cl co" by (cases q) auto
    then show thesis
      using same created create_failure
      by (cases "create b a cl co c s"; cases "fst (create b a cl co c s)") (auto simp: s'_def)
  next
    case False
    then show thesis
      using record_request_effect [OF repo_invD(3) [OF assms(1)] assms(2,3) Some]
        same stepped [OF Some False] by (auto simp: unchanged_or_step_def s'_def)
  qed
next
  case None
  then consider m where "q = Expire m" | m where "q = Garbage_Collect m" by (cases q) auto
  then show thesis
  proof cases
    case 1
    then show thesis
      using same expired expire_failure
      by (cases "expire L m c s"; cases "fst (expire L m c s)") (auto simp: s'_def)
  next
    case 2
    then show thesis
      using same collected garbage_collect_failure
      by (cases "garbage_collect L m c s"; cases "fst (garbage_collect L m c s)") (auto simp: s'_def)
  qed
qed

lemma perform_inv:
  assumes "repo_inv L s" "lib_ok L" "request_ok c q"
  shows "repo_inv L (snd (perform L c q s))"
  using assms
proof (cases rule: perform_cases)
  case (created b a cl co snap)
  then show ?thesis using create_inv [OF assms(1), of b a cl co c] assms(3) by simp
next
  case (expired m ids)
  then show ?thesis using expire_inv [OF assms(1), of m c] by simp
next
  case (collected m ids)
  then show ?thesis using garbage_collect_inv [OF assms(1), of m c] by simp
qed (use assms op_effect_inv in auto)

lemma run_inv:
  "repo_inv L s \<Longrightarrow> lib_ok L \<Longrightarrow> requests_ok qs \<Longrightarrow> repo_inv L (run L qs s)"
  by (induction L qs s rule: run.induct) (simp_all add: perform_inv)


text \<open>The states of an installation: a new repository and whatever requests make of it.\<close>

inductive reachable :: "lib \<Rightarrow> repo \<Rightarrow> bool" for L where
  init: "new_repo L m l key = Inr s \<Longrightarrow> mailbox_limits_ok l \<Longrightarrow> reachable L s"
| step: "reachable L s \<Longrightarrow> request_ok c q \<Longrightarrow> reachable L (snd (perform L c q s))"

lemma reachable_inv: "reachable L s \<Longrightarrow> lib_ok L \<Longrightarrow> repo_inv L s"
  by (induction rule: reachable.induct) (auto intro: new_repo_inv perform_inv)

lemma reachable_run: "reachable L s \<Longrightarrow> requests_ok qs \<Longrightarrow> reachable L (run L qs s)"
  by (induction L qs s rule: run.induct) (auto intro: reachable.step)


section \<open>What a request does to one record\<close>

lemma op_effect_other: "op_effect L now k s s' \<Longrightarrow> records_ok L s \<Longrightarrow> k' \<noteq> k \<Longrightarrow>
    map_of (p_records s') k' = map_of (p_records s) k'"
  by (auto simp: op_effect_def records_ok_def)

lemma op_effect_this: "op_effect L now k s s' \<Longrightarrow> records_ok L s \<Longrightarrow>
    \<exists>r r'. map_of (p_records s) k = Some r \<and> map_of (p_records s') k = Some r' \<and>
           rstep L (p_keys s) now r r'"
  by (auto simp: op_effect_def records_ok_def)

lemma op_effect_constants:
  "op_effect L now k s s' \<Longrightarrow> p_keys s' = p_keys s \<and> p_limits s' = p_limits s \<and>
     p_maintenance s' = p_maintenance s \<and> p_tombstones s' = p_tombstones s \<and>
     p_last_seen s' = Some now"
  by (auto simp: op_effect_def)

lemma expire_loop_Cons:
  assumes "repo_inv L s" "not_after s now" "map_of (p_records s) k = Some r"
  obtains s' acc' where "expire_loop now (k # ks) s acc = expire_loop now ks s' acc'"
    "op_effect L now k s s'"
proof -
  obtain due r1 s1 where e: "expire_if_due now (r, s) = (due, r1, s1)"
    by (cases "expire_if_due now (r, s)") auto
  note visit = expire_visit [OF assms e]
  show thesis
    using that visit assms(3) e
    by (cases "due \<and> r_state r \<noteq> S_EXPIRED") (auto simp: observe_time_def)
qed

lemma expire_loop_record:
  assumes "repo_inv L s" "not_after s now" "distinct ks" "map_of (p_records s) k = Some r"
  shows "\<exists>r'. map_of (p_records (fst (expire_loop now ks s acc))) k = Some r' \<and>
           (if k \<in> set ks then rstep L (p_keys s) now r r' else r' = r)"
  using assms
proof (induction ks arbitrary: s acc r)
  case (Cons j ks)
  show ?case
  proof (cases "map_of (p_records s) j")
    case None
    then have "expire_loop now (j # ks) s acc = expire_loop now ks s acc" "j \<noteq> k"
      using Cons.prems(4) by auto
    then show ?thesis using Cons by simp
  next
    case (Some rj)
    then obtain s' acc' where eq: "expire_loop now (j # ks) s acc = expire_loop now ks s' acc'"
      and eff: "op_effect L now j s s'"
      using expire_loop_Cons [OF Cons.prems(1,2)] by metis
    note ok = repo_invD(3) [OF Cons.prems(1)]
    note next_inv = op_effect_inv [OF Cons.prems(1) eff] op_effect_not_after [OF eff]
    show ?thesis
    proof (cases "j = k")
      case True
      obtain r' where r': "map_of (p_records s') k = Some r'" "rstep L (p_keys s) now r r'"
        using op_effect_this [OF eff ok] True Cons.prems(4) by auto
      show ?thesis
        using Cons.IH [OF next_inv _ r'(1), of acc'] Cons.prems(3) True r'(2) eq by auto
    next
      case False
      then have "map_of (p_records s') k = Some r"
        using op_effect_other [OF eff ok] Cons.prems(4) by simp
      then show ?thesis
        using Cons.IH [OF next_inv, of r acc'] Cons.prems(3) False eq
          op_effect_constants [OF eff] by auto
    qed
  qed
qed simp

lemma expire_loop_absent:
  assumes "repo_inv L s" "not_after s now" "map_of (p_records s) k = None"
  shows "map_of (p_records (fst (expire_loop now ks s acc))) k = None"
  using assms
proof (induction ks arbitrary: s acc)
  case (Cons j ks)
  show ?case
  proof (cases "map_of (p_records s) j")
    case None
    then show ?thesis using Cons by simp
  next
    case (Some rj)
    then obtain s' acc' where eq: "expire_loop now (j # ks) s acc = expire_loop now ks s' acc'"
      and eff: "op_effect L now j s s'"
      using expire_loop_Cons [OF Cons.prems(1,2)] by metis
    have "map_of (p_records s') k = None"
      using op_effect_other [OF eff repo_invD(3) [OF Cons.prems(1)], of k] Some Cons.prems(3)
      by (cases "k = j") auto
    then show ?thesis
      using Cons.IH [OF op_effect_inv [OF Cons.prems(1) eff] op_effect_not_after [OF eff]] eq by simp
  qed
qed simp

abbreviation due :: "int \<Rightarrow> repo \<Rightarrow> mrec \<Rightarrow> bool" where
  "due now s r \<equiv> \<exists>t. r_terminal_at r = Some t \<and> now - t \<ge> terminal_retention (p_limits s)"

lemma remove_fields [simp]:
  "p_limits (remove now expires k r s) = p_limits s" "p_keys (remove now expires k r s) = p_keys s"
  "p_maintenance (remove now expires k r s) = p_maintenance s"
  "p_last_seen (remove now expires k r s) = p_last_seen s"
  "map_of (p_records (remove now expires k r s)) j = (if j = k then None else map_of (p_records s) j)"
  "map_of (p_tombstones (remove now expires k r s)) j =
     (if j = k then Some \<lparr>t_created_at = now, t_expires_at = expires\<rparr>
      else map_of (p_tombstones s) j)"
  by (simp_all add: remove_def)

lemma gc_loop_absent:
  "map_of (p_records s) k = None \<Longrightarrow>
     map_of (p_records (fst (gc_loop now expires ks s removed))) k = None \<and>
     map_of (p_tombstones (fst (gc_loop now expires ks s removed))) k = map_of (p_tombstones s) k"
proof (induction ks arbitrary: s removed)
  case (Cons j ks)
  then show ?case unfolding gc_loop_Cons by (cases "j = k") (auto split: option.splits)
qed simp

lemma gc_loop_record:
  "map_of (p_records s) k = Some r \<Longrightarrow>
     map_of (p_records (fst (gc_loop now expires ks s removed))) k = Some r \<or>
     map_of (p_records (fst (gc_loop now expires ks s removed))) k = None \<and> due now s r \<and>
     map_of (p_tombstones (fst (gc_loop now expires ks s removed))) k
       = Some \<lparr>t_created_at = now, t_expires_at = expires\<rparr>"
proof (induction ks arbitrary: s removed)
  case (Cons j ks)
  have gone: "map_of (p_records (remove now expires k r s)) k = None" by simp
  show ?case
  proof (cases "j = k")
    case True
    then show ?thesis
      unfolding gc_loop_Cons
      using Cons gc_loop_absent [OF gone, of now expires ks "removed @ [k]"]
      by (auto split: option.splits)
  next
    case False
    have "map_of (p_records (remove now expires j rj s)) k = Some r" for rj
      using False Cons.prems by simp
    note IH = Cons.IH [OF this]
    show ?thesis
      unfolding gc_loop_Cons
      using Cons.IH [OF Cons.prems, of removed] IH [of _ "removed @ [j]"]
      by (cases "map_of (p_records s) j") simp_all
  qed
qed simp


text \<open>
  The record a request finds either stays, makes one step of the record machine at the
  request's instant, or is removed by garbage collection, which leaves a tombstone.
\<close>

lemma perform_record:
  assumes inv: "repo_inv L s" and L: "lib_ok L" and q: "request_ok c q"
    and r: "map_of (p_records s) k = Some r"
  defines "s' \<equiv> snd (perform L c q s)" and "now \<equiv> instant (c_now c)"
  shows "(\<exists>r'. map_of (p_records s') k = Some r' \<and> (r' = r \<or> rstep L (p_keys s) now r r')) \<or>
    map_of (p_records s') k = None \<and> (\<exists>m. q = Garbage_Collect m) \<and> due now s r \<and>
    map_of (p_tombstones s') k
      = Some \<lparr>t_created_at = now, t_expires_at = now + tombstone_retention (p_limits s)\<rparr>"
  using inv L q
proof (cases rule: perform_cases)
  case same
  then show ?thesis using r by (simp add: s'_def)
next
  case (created b a cl co snap)
  then show ?thesis using r create_success(10) by (fastforce simp: s'_def)
next
  case (stepped j)
  then show ?thesis
    using r op_effect_other [OF _ repo_invD(3) [OF inv]] op_effect_this [OF _ repo_invD(3) [OF inv]]
    unfolding now_def s'_def by (metis option.inject)
next
  case (expired m ids)
  note ok = expire_sweep [OF inv expired(2), folded now_def s'_def]
  have "distinct (map fst (p_records s))" using repo_invD(8) [OF inv] by (simp add: wf_dict_def)
  then show ?thesis
    using expire_loop_record [OF inv ok(4) _ r, of "map fst (p_records s)" "[]"] ok(2)
    by (auto split: if_splits)
next
  case (collected m ids)
  note ok = garbage_collect_success [OF collected(2), folded now_def s'_def]
  let ?s0 = "drop_tombstones now (touch_all now s)"
  have r0: "map_of (p_records ?s0) k = Some (r\<lparr>r_last_seen := now\<rparr>)"
    and "p_limits ?s0 = p_limits s"
    by (simp_all add: drop_tombstones_def touch_all_def map_of_map_vals r)
  then show ?thesis
    using gc_loop_record [OF r0] ok(6) rstep.touch collected(1) by fastforce
qed

end
