(* ===== verification/Sample_Ids.thy ===== *)
theory Sample_Ids
  imports Prelude
begin

text \<open>Small version 4 identifiers, on which the guarantees are instantiated.\<close>

definition sid :: "nat \<Rightarrow> uuid" where
  "sid k = UUID (of_nat (302240678275694148452352 + k))"

lemma unat_sid:
  assumes "k < 1048576"
  shows "unat (uuid_int (sid k)) = 302240678275694148452352 + k"
proof -
  have "302240678275694148452352 + k < 2 ^ LENGTH(128)" using assms by simp
  then show ?thesis by (simp only: sid_def uuid.sel unat_of_nat mod_less)
qed

lemma uuid4_sid:
  assumes "k < 1048576"
  shows "uuid4 (sid k)"
proof -
  let ?n = "302240678275694148452352 + k"
  have "?n = 65538 * 2 ^ 62 + k" by simp
  then have "?n div 2 ^ 62 = 65538" using assms by simp
  moreover have "?n div 2 ^ 76 = ?n div 2 ^ 62 div 2 ^ 14"
    by (simp only: div_mult2_eq [symmetric]) simp
  ultimately show ?thesis
    unfolding uuid4_def uuid_version_def uuid_rfc4122_def unat_sid [OF assms] by simp
qed

lemma sid_inject: "k < 1048576 \<Longrightarrow> j < 1048576 \<Longrightarrow> sid k = sid j \<longleftrightarrow> k = j"
  by (metis unat_sid add_left_cancel)

lemma sid_order:
  assumes "k < 1048576" and "j < 1048576"
  shows "sid k \<le> sid j \<longleftrightarrow> k \<le> j" and "sid k < sid j \<longleftrightarrow> k < j"
  using unat_sid [OF assms(1)] unat_sid [OF assms(2)]
  by (simp_all add: less_eq_uuid_def less_uuid_def word_le_nat_alt word_less_nat_alt)

end
