(* ===== verification/Mailbox_Samples.thy ===== *)
theory Mailbox_Samples
  imports Mailbox_Runs Sample_Ids
begin

text \<open>
  A concrete mailbox installation on which the guarantees are instantiated: a transparent
  stand-in for the cryptographic library that satisfies \<^const>\<open>lib_ok\<close>, one binding, one
  evidence upload, and the requests that drive a mailbox through its whole life.
\<close>

definition zeros :: "nat \<Rightarrow> bytes" where
  "zeros n = replicate n 0"

definition zero_digest :: string where
  "zero_digest = ''sha256:'' @ hex (zeros 32)"

definition sample_json :: bytes where
  "sample_json = [1, 2, 3]"

definition sample_evidence :: evidence_upload where
  "sample_evidence = \<lparr>eu_object_id = sid 5, eu_kind = ''receipt'',
     eu_payload_digest = zero_digest, eu_payload = [7, 8]\<rparr>"

definition sample_result :: result_envelope where
  "sample_result = \<lparr>re_action_id = sid 2, re_attempt_id = sid 4, re_result = FAILED,
     re_reason_code = R_CONNECTOR_ERROR, re_external_reference = None,
     re_evidence = [\<lparr>er_kind = ''receipt'', er_mailbox_object_id = sid 5,
       er_payload_digest = zero_digest, er_byte_count = 2\<rparr>],
     re_disclosures = [], re_next = N_NONE\<rparr>"

definition toy_lib :: lib where
  "toy_lib = \<lparr>lib_sha256 = \<lambda>_. zeros 32, lib_hmac = \<lambda>_ _. zeros 32,
     lib_encrypt = \<lambda>_ _ p _. p, lib_decrypt = \<lambda>_ _ p _. Some p,
     lib_parse_result = \<lambda>j. if j = sample_json then Some sample_result else None\<rparr>"

definition sample_binding :: action_binding where
  "sample_binding = \<lparr>b_mailbox_id = sid 9, b_action_id = sid 2, b_intent_id = sid 3,
     b_attempt_id = sid 4, b_connector_release = ''demo@1.0.0'', b_capability = ''submit'',
     b_selected_artifact_digest = zero_digest, b_dispatch_epoch = 0, b_fence = 0,
     b_authorization_epoch = 0, b_claim_deadline_utc = utc 100, b_deadline_utc = utc 200,
     b_wall_seconds = 60, b_response_bytes = 1000, b_envelope_digest = zero_digest\<rparr>"

definition sample_repo :: repo where
  "sample_repo = \<lparr>p_records = [], p_tombstones = [], p_maintenance = replicate 32 9,
     p_limits = default_limits, p_keys = storage_keys_of toy_lib (zeros 32), p_last_seen = None,
     p_active = 0, p_evidence = 0, p_committed = 0\<rparr>"

definition at_time :: "int \<Rightarrow> call" where
  "at_time t = \<lparr>c_now = utc t, c_nonce = zeros 12, c_crash = \<lambda>_. False\<rparr>"

definition sample_seals :: "evidence_seal list" where
  "sample_seals = [\<lparr>es_object_id = sid 5, es_kind = ''receipt'',
     es_payload_digest = zero_digest, es_byte_count = 2\<rparr>]"

definition create_q :: request where
  "create_q = Create sample_binding [1] [2] [3]"

definition offer_q :: request where
  "offer_q = Offer sample_binding [6] (zeros 32) [1] [3] (replicate 32 3) [4]"

definition claim_q :: request where
  "claim_q = Claim sample_binding [2]"

definition stage_q :: request where
  "stage_q = Stage sample_binding [4] sample_evidence"

definition commit_q :: request where
  "commit_q = Commit sample_binding [4] sample_json sample_seals"

definition collect_q :: request where
  "collect_q = Collect (sid 9) [3]"

definition acknowledge_q :: request where
  "acknowledge_q = Acknowledge (sid 9) [3]"

lemmas sample_defs = sid_def zeros_def zero_digest_def sample_json_def sample_evidence_def
  sample_result_def sample_binding_def at_time_def sample_seals_def create_q_def offer_q_def
  claim_q_def stage_q_def commit_q_def collect_q_def acknowledge_q_def

lemma zero_digest_ok: "require_digest zero_digest"
  unfolding zero_digest_def by (rule require_digest_sha256) (simp add: zeros_def)

lemma sample_patterns:
  "fullmatch rx_connector_release ''demo@1.0.0''" "fullmatch rx_capability ''submit''"
  "fullmatch rx_kind ''receipt''" "fullmatch rx_evidence_kind ''receipt''"
  by code_simp+

lemma sample_binding_ok: "action_binding_ok sample_binding"
  by (simp add: action_binding_ok_def sample_binding_def uuid4_sid sample_patterns
      zero_digest_ok is_utc_def mailbox_consts)

lemma sample_evidence_ok: "evidence_upload_ok sample_evidence"
  by (simp add: evidence_upload_ok_def sample_evidence_def uuid4_sid sample_patterns
      zero_digest_ok mailbox_consts)

lemma sample_result_ok: "result_envelope_ok sample_result"
  using zero_digest_ok
  by (simp add: result_envelope_ok_def sample_result_def uuid4_sid sample_patterns
      evidence_reference_ok_def require_digest_def max_evidence_items_def max_evidence_bytes_def
      max_disclosure_records_def)

lemma toy_lib_ok: "lib_ok toy_lib"
  using sample_result_ok by (auto simp: lib_ok_def toy_lib_def zeros_def split: if_splits)

lemma sample_repo_new:
  "new_repo toy_lib (replicate 32 9) default_limits (zeros 32) = Inr sample_repo"
  by (simp add: new_repo_def sample_repo_def zeros_def)

lemma sample_repo_inv: "repo_inv toy_lib sample_repo"
  using new_repo_inv [OF sample_repo_new default_limits_ok] .

lemma sample_requests_ok:
  "request_ok (at_time t) create_q" "request_ok (at_time t) offer_q"
  "request_ok (at_time t) claim_q" "request_ok (at_time t) stage_q"
  "request_ok (at_time t) commit_q" "request_ok (at_time t) collect_q"
  "request_ok (at_time t) acknowledge_q"
  by (simp_all add: create_q_def offer_q_def claim_q_def stage_q_def commit_q_def collect_q_def
      acknowledge_q_def sample_binding_ok sample_evidence_ok at_time_def zeros_def sample_json_def
      claimed_action_ok_def credential_size_ok_def mailbox_consts)



section \<open>A mailbox through its life\<close>

definition sample_item :: wrapped_evidence where
  "sample_item = wrap_evidence toy_lib (p_keys sample_repo) (zeros 12) (sid 9) sample_evidence"

definition sample_wrapped :: wrapped_result where
  "sample_wrapped = wrap_result toy_lib (p_keys sample_repo) (zeros 12) sample_binding sample_json"

definition sample_manifest :: committed_manifest where
  "sample_manifest = \<lparr>cm_item_count = 1, cm_storage_digest = zeros 32, cm_semantic_mac = zeros 32\<rparr>"

definition sample_rec :: "nat \<Rightarrow> mrec" where
  "sample_rec n =
     (let r1 = fresh_record sample_binding [1] [2] [3] 1;
          r2 = r1\<lparr>r_last_seen := 2, r_envelope_json := Some [6], r_action_key := Some (zeros 32),
                  r_result_credential := Some (replicate 32 3), r_result_digest := Some [4],
                  r_state := S_OFFERED\<rparr>;
          r3 = r2\<lparr>r_last_seen := 3, r_envelope_json := None, r_action_key := None,
                  r_result_credential := None, r_state := S_CLAIMED_ONCE\<rparr>;
          r4 = r3\<lparr>r_last_seen := 4, r_evidence := [(sid 5, sample_item)]\<rparr>;
          r5 = r4\<lparr>r_last_seen := 5, r_result := Some sample_wrapped,
                  r_manifest := Some sample_manifest, r_state := S_RESULT_COMMITTED,
                  r_collection := C_READY, r_result_digest := None, r_committed_at := Some 5\<rparr>;
          r6 = r5\<lparr>r_last_seen := 6, r_collection := C_DELIVERING\<rparr>;
          r7 = r6\<lparr>r_last_seen := 7, r_result := None, r_manifest := None, r_evidence := [],
                  r_collection := C_ACKNOWLEDGED, r_terminal_at := Some 7\<rparr>
      in [r1, r2, r3, r4, r5, r6, r7] ! (n - 1))"

definition sample_state :: "nat \<Rightarrow> repo" where
  "sample_state n = sample_repo\<lparr>p_records := [(sid 9, sample_rec n)], p_last_seen := Some (int n),
     p_active := [0, 65, 0, 0, 0, 0, 0] ! (n - 1), p_evidence := [0, 0, 0, 2, 2, 2, 0] ! (n - 1),
     p_committed := [0, 0, 0, 0, 5, 5, 0] ! (n - 1)\<rparr>"

lemma maintenance_apart: "replicate 32 (9 :: byte) \<noteq> [x]"
  by (auto dest: arg_cong [where f = length])

lemma sample_binding_fields [simp]:
  "b_mailbox_id sample_binding = sid 9" "b_response_bytes sample_binding = 1000"
  "b_claim_deadline_utc sample_binding = utc 100" "b_deadline_utc sample_binding = utc 200"
  "b_action_id sample_binding = sid 2" "b_attempt_id sample_binding = sid 4"
  by (simp_all add: sample_binding_def)

lemma sample_repo_fields [simp]:
  "p_records sample_repo = []" "p_tombstones sample_repo = []"
  "p_maintenance sample_repo = replicate 32 9" "p_limits sample_repo = default_limits"
  "p_last_seen sample_repo = None" "p_active sample_repo = 0" "p_evidence sample_repo = 0"
  "p_committed sample_repo = 0"
  by (simp_all add: sample_repo_def)

lemma sample_call_fields [simp]:
  "c_now (at_time t) = utc t" "c_nonce (at_time t) = zeros 12" "c_crash (at_time t) p = False"
  "is_utc (utc t)"
  by (simp_all add: at_time_def is_utc_def)

lemma sample_evidence_fields [simp]:
  "eu_object_id sample_evidence = sid 5" "eu_payload sample_evidence = [7, 8]"
  "eu_kind sample_evidence = ''receipt''" "eu_payload_digest sample_evidence = zero_digest"
  "we_byte_count sample_item = 2" "wr_byte_count sample_wrapped = 3"
  by (simp_all add: sample_item_def wrap_evidence_def sample_evidence_def Let_def
      sample_wrapped_def wrap_result_def sample_json_def)

lemmas sample_state_defs = maintenance_apart sample_state_def sample_rec_def fresh_record_def
  Let_def default_limits_def reply_of_def
  validated_installation_now_def validated_record_now_def advance_installation_time_def
  put_record_def get_record_def credential_in_use_def credentials_of_def require_binding_def
  require_credential_def expire_if_due_def observe_time_def active_bytes_def opt_len_def
  zeros_def clear_claim_delivery_material_def release_record_payloads_def
  record_evidence_bytes_def result_bytes_def require_result_access_def mailbox_consts

lemma sample_unwrap:
  "unwrap toy_lib (p_keys sample_repo) (sid 9) (sid 5) sample_item = Inr sample_evidence"
proof -
  have "sha256_text toy_lib (eu_payload sample_evidence) = eu_payload_digest sample_evidence"
    by (simp add: sha256_text_def toy_lib_def sample_evidence_def zero_digest_def)
  moreover have "eu_object_id sample_evidence = sid 5" by (simp add: sample_evidence_def)
  ultimately show ?thesis
    unfolding sample_item_def
    using unwrap_wrap [OF toy_lib_ok, of "zeros 12" sample_evidence "p_keys sample_repo" "sid 9"]
      sample_evidence_ok by (simp add: zeros_def)
qed

lemma sample_unwrap_result:
  "unwrap_result toy_lib (p_keys sample_repo) sample_binding sample_wrapped = Inr sample_json"
  unfolding sample_wrapped_def
  by (rule unwrap_wrap_result [OF toy_lib_ok]) (simp_all add: zeros_def sample_json_def)

lemma sample_create:
  "perform toy_lib (at_time 1) create_q sample_repo = (Inr (Snap (snapshot_of (sample_rec 1))), sample_state 1)"
  by (simp add: create_q_def create_def sample_state_defs)

lemma sample_material:
  "validated_record_material toy_lib (p_keys sample_repo) (sample_rec 1) = Inr ([], None)"
  "validated_record_material toy_lib (p_keys sample_repo) (sample_rec 2) = Inr ([], None)"
  "validated_record_material toy_lib (p_keys sample_repo) (sample_rec 3) = Inr ([], None)"
  by (simp_all add: validated_record_material_def validated_evidence_slots_def sample_rec_def
      fresh_record_def Let_def)


lemma sample_state_keys: "p_keys (sample_state n) = p_keys sample_repo"
  by (simp add: sample_state_def)

lemma sample_record: "get_record (sample_state n) (sid 9) = Inr (sample_rec n)"
  by (simp add: get_record_def sample_state_def)

lemmas sample_ops = sample_state_keys sample_record sample_binding_fields(1) sample_material

lemma sample_offer:
  "perform toy_lib (at_time 2) offer_q (sample_state 1)
   = (Inr (Snap (snapshot_of (sample_rec 2))), sample_state 2)"
  unfolding offer_q_def perform.simps offer_def sample_ops attempt_simps
  by (simp add: sample_state_defs)

lemma sample_claim:
  "perform toy_lib (at_time 3) claim_q (sample_state 2)
   = (Inr (Action \<lparr>ca_binding = sample_binding, ca_envelope_json = [6],
        ca_action_key = zeros 32, ca_result_credential = replicate 32 3\<rparr>), sample_state 3)"
  unfolding claim_q_def perform.simps claim_def sample_ops attempt_simps
  by (simp add: sample_state_defs claimed_action_ok_def credential_size_ok_def mailbox_consts)


lemma sample_stage:
  "perform toy_lib (at_time 4) stage_q (sample_state 3)
   = (Inr (Snap (snapshot_of (sample_rec 4))), sample_state 4)"
proof -
  have digest: "sha256_text toy_lib [7, 8] = zero_digest"
    by (simp add: sha256_text_def toy_lib_def zero_digest_def)
  have item: "wrap_evidence toy_lib (p_keys sample_repo) (zeros 12) (sid 9) sample_evidence
      = sample_item" by (simp add: sample_item_def)
  show ?thesis
    unfolding stage_q_def perform.simps stage_evidence_def sample_ops attempt_simps
      sample_evidence_fields sample_call_fields
    by (simp add: sample_state_defs digest item [unfolded zeros_def] sample_unwrap)
qed

lemma sample_slots:
  "validated_evidence_slots toy_lib (p_keys sample_repo) (sid 9) [(sid 5, sample_item)]
   = Inr [(sid 5, sample_evidence)]"
  using sample_unwrap
  by (simp add: validated_evidence_slots_def sample_evidence_def)

lemma sample_references:
  "validate_result_references toy_lib sample_binding sample_json [(sid 5, sample_evidence)] = Inr ()"
  by (simp add: validate_result_references_def toy_lib_def sample_result_def sample_binding_def
      reference_matches_def sample_evidence_def)

lemma sample_build:
  "build_committed_manifest toy_lib (p_keys sample_repo) sample_binding [sid 5] sample_wrapped
   = Inr sample_manifest"
  by (simp add: build_committed_manifest_def toy_lib_def sample_manifest_def Let_def)

lemma sample_material_4:
  "validated_record_material toy_lib (p_keys sample_repo) (sample_rec 4)
   = Inr ([(sid 5, sample_evidence)], None)"
  by (simp add: validated_record_material_def sample_rec_def fresh_record_def Let_def
      sample_slots)

lemma sample_material_5:
  "validated_record_material toy_lib (p_keys sample_repo) (sample_rec 5)
   = Inr ([(sid 5, sample_evidence)], Some sample_json)"
  "validated_record_material toy_lib (p_keys sample_repo) (sample_rec 6)
   = Inr ([(sid 5, sample_evidence)], Some sample_json)"
  using build_validates [OF toy_lib_ok sample_build]
  by (simp_all add: validated_record_material_def sample_rec_def fresh_record_def Let_def
      sample_slots sample_unwrap_result sample_references)

lemma sample_commit:
  "perform toy_lib (at_time 5) commit_q (sample_state 4)
   = (Inr (Snap (snapshot_of (sample_rec 5))), sample_state 5)"
proof -
  have w: "wrap_result toy_lib (p_keys sample_repo) (zeros 12) sample_binding sample_json
      = sample_wrapped" by (simp add: sample_wrapped_def)
  have b: "r_binding (sample_rec 4) = sample_binding"
    by (simp add: sample_rec_def fresh_record_def Let_def)
  have match: "list_all (seal_matches [(sid 5, sample_evidence)]) sample_seals"
    by (simp add: seal_matches_def sample_seals_def)
  have ids: "map es_object_id sample_seals = [sid 5]" by (simp add: sample_seals_def)
  have json: "len sample_json = 3" by (simp add: sample_json_def)
  have built: "build_committed_manifest toy_lib (p_keys sample_repo) sample_binding
      (map fst [(sid 5, sample_evidence)]) sample_wrapped = Inr sample_manifest"
    using sample_build by simp
  show ?thesis
    unfolding commit_q_def perform.simps commit_result_def sample_ops sample_material_4 attempt_simps
      prod.case b ids json sample_call_fields
    by (simp add: sample_state_defs match w [unfolded zeros_def] sample_references sample_build)
qed

lemma sample_collect:
  "perform toy_lib (at_time 6) collect_q (sample_state 5)
   = (Inr (Bundle \<lparr>cb_binding = sample_binding, cb_result_json = sample_json,
        cb_evidence = [sample_evidence]\<rparr>), sample_state 6)"
  unfolding collect_q_def perform.simps collect_def sample_ops sample_material_5 attempt_simps
    prod.case
  by (simp add: sample_state_defs committed_bundle_ok_def payload_total_def sample_json_def)

lemma sample_acknowledge:
  "perform toy_lib (at_time 7) acknowledge_q (sample_state 6)
   = (Inr (Snap (snapshot_of (sample_rec 7))), sample_state 7)"
  unfolding acknowledge_q_def perform.simps acknowledge_collection_def sample_ops
    sample_material_5 attempt_simps prod.case
  by (simp add: sample_state_defs)


definition gc_q :: request where
  "gc_q = Garbage_Collect (replicate 32 9)"

definition sample_swept :: repo where
  "sample_swept = sample_repo\<lparr>p_last_seen := Some 604800000007,
     p_tombstones := [(sid 9, \<lparr>t_created_at = 604800000007, t_expires_at = 3196800000007\<rparr>)]\<rparr>"

lemma sample_material_7:
  "validated_record_material toy_lib (p_keys sample_repo) (sample_rec 7) = Inr ([], None)"
  by (simp add: validated_record_material_def validated_evidence_slots_def sample_rec_def
      fresh_record_def Let_def)

lemma sample_sweep:
  "perform toy_lib (at_time 604800000007) gc_q (sample_state 7) = (Inr (Ids [sid 9]), sample_swept)"
proof -
  have recs: "p_records (sample_state 7) = [(sid 9, sample_rec 7)]" by (simp add: sample_state_def)
  have m: "p_maintenance (sample_state 7) = replicate 32 9" by (simp add: sample_state_def)
  show ?thesis
    unfolding gc_q_def perform.simps garbage_collect_def require_maintenance_def m sample_state_keys
      recs validate_all.simps sample_material_7 sum.case attempt_simps
    by (simp add: sample_state_defs gc_order_def discard_record_def clear_result_digest_def
        max_instant_def sample_swept_def)
qed

lemma sample_reachable:
  "reachable toy_lib sample_repo"
  "reachable toy_lib (sample_state 1)" "reachable toy_lib (sample_state 2)"
  "reachable toy_lib (sample_state 3)" "reachable toy_lib (sample_state 4)"
  "reachable toy_lib (sample_state 5)" "reachable toy_lib (sample_state 6)"
  "reachable toy_lib (sample_state 7)" "reachable toy_lib sample_swept"
proof -
  show i0: "reachable toy_lib sample_repo"
    by (rule reachable.init [OF sample_repo_new default_limits_ok])
  show i1: "reachable toy_lib (sample_state 1)"
    using reachable.step [OF i0 sample_requests_ok(1), of 1] unfolding sample_create by simp
  show i2: "reachable toy_lib (sample_state 2)"
    using reachable.step [OF i1 sample_requests_ok(2), of 2] unfolding sample_offer by simp
  show i3: "reachable toy_lib (sample_state 3)"
    using reachable.step [OF i2 sample_requests_ok(3), of 3] unfolding sample_claim by simp
  show i4: "reachable toy_lib (sample_state 4)"
    using reachable.step [OF i3 sample_requests_ok(4), of 4] unfolding sample_stage by simp
  show i5: "reachable toy_lib (sample_state 5)"
    using reachable.step [OF i4 sample_requests_ok(5), of 5] unfolding sample_commit by simp
  show i6: "reachable toy_lib (sample_state 6)"
    using reachable.step [OF i5 sample_requests_ok(6), of 6] unfolding sample_collect by simp
  show i7: "reachable toy_lib (sample_state 7)"
    using reachable.step [OF i6 sample_requests_ok(7), of 7] unfolding sample_acknowledge by simp
  show "reachable toy_lib sample_swept"
    using reachable.step [OF i7, of "at_time 604800000007" gc_q] unfolding sample_sweep
    by (simp add: gc_q_def)
qed

end
