(* ===== verification/Mailbox_Guarantees.thy ===== *)
theory Mailbox_Guarantees
  imports Mailbox_Samples
begin

text \<open>
  The guarantees of the volatile repository over arbitrary sequences of requests: exact
  accounting within quotas, at-most-once delivery, replay protection by tombstones, the allowed
  state edges, deadlines, a monotone clock, unchanged state on refusal, and delivery of exactly
  what was committed until it is acknowledged.
\<close>


section \<open>What no request changes\<close>

lemma sweep_constants:
  "sweep L now s s' \<Longrightarrow> p_keys s' = p_keys s \<and> p_limits s' = p_limits s \<and>
     p_maintenance s' = p_maintenance s \<and> p_tombstones s' = p_tombstones s"
  unfolding sweep_def
  by (induction rule: rtranclp_induct) (auto dest: op_effect_constants)

lemma sweep_not_after: "sweep L now s s' \<Longrightarrow> not_after s now \<Longrightarrow> not_after s' now"
  unfolding sweep_def by (induction rule: rtranclp_induct) (auto dest: op_effect_not_after)

lemma gc_loop_constants:
  "p_keys (fst (gc_loop now expires ks s removed)) = p_keys s \<and>
   p_limits (fst (gc_loop now expires ks s removed)) = p_limits s \<and>
   p_maintenance (fst (gc_loop now expires ks s removed)) = p_maintenance s \<and>
   p_last_seen (fst (gc_loop now expires ks s removed)) = p_last_seen s"
proof (induction ks arbitrary: s removed)
  case (Cons k ks)
  then show ?case unfolding gc_loop_Cons by (simp split: option.splits)
qed simp

lemma sweep_last_seen: "not_after s now \<Longrightarrow>
    p_last_seen (drop_tombstones now (touch_all now s)) = Some now"
  by (simp add: drop_tombstones_def touch_all_def advance_last_seen)

text \<open>
  A request either leaves the whole repository alone or reads a UTC clock that is not behind
  the high-water mark and moves the mark to that reading; keys, limits and the maintenance
  authority never change.
\<close>

lemma perform_frame:
  assumes inv: "repo_inv L s" and L: "lib_ok L" and q: "request_ok c q"
  defines "s' \<equiv> snd (perform L c q s)" and "now \<equiv> instant (c_now c)"
  shows "p_keys s' = p_keys s \<and> p_limits s' = p_limits s \<and> p_maintenance s' = p_maintenance s \<and>
    (s' = s \<or> is_utc (c_now c) \<and> not_after s now \<and> p_last_seen s' = Some now)"
  using inv L q
proof (cases rule: perform_cases)
  case (created b a cl co snap)
  then show ?thesis
    using create_success(1,2,10) by (fastforce simp: s'_def now_def)
next
  case (stepped j)
  then show ?thesis
    using op_effect_constants [OF stepped(4)] unfolding s'_def now_def op_effect_def by blast
next
  case (expired m ids)
  note ok = expire_sweep [OF inv expired(2), folded now_def s'_def]
  show ?thesis
    using sweep_constants [OF ok(1)] advance_last_seen [OF sweep_not_after [OF ok(1,4)]] ok(2-4)
    by simp
next
  case (collected m ids)
  note ok = garbage_collect_success [OF collected(2), folded now_def s'_def]
  then show ?thesis
    using gc_loop_constants sweep_last_seen [OF ok(2)]
    by simp (simp add: drop_tombstones_def touch_all_def)
qed (simp add: s'_def)

lemma perform_absent:
  assumes inv: "repo_inv L s" and L: "lib_ok L" and q: "request_ok c q" "\<not> creates k q"
    and none: "map_of (p_records s) k = None"
  defines "s' \<equiv> snd (perform L c q s)"
  shows "map_of (p_records s') k = None \<and>
    (\<forall>t. map_of (p_tombstones s) k = Some t \<longrightarrow> instant (c_now c) < t_expires_at t \<longrightarrow>
       map_of (p_tombstones s') k = Some t)"
  using inv L q(1)
proof (cases rule: perform_cases)
  case (created b a cl co snap)
  then show ?thesis
    using create_success(10) [OF created(2)] q none by (auto simp: s'_def map_add_def)
next
  case (stepped j)
  then show ?thesis
    using none op_effect_constants op_effect_other [OF _ repo_invD(3) [OF inv]]
      op_effect_this [OF _ repo_invD(3) [OF inv]]
    unfolding s'_def by (metis option.distinct(1))
next
  case (expired m ids)
  note ok = expire_sweep [OF inv expired(2), folded s'_def]
  show ?thesis
    using expire_loop_absent [OF inv ok(4) none] sweep_constants [OF ok(1)] ok(2) by simp
next
  case (collected m ids)
  note ok = garbage_collect_success [OF collected(2), folded s'_def]
  let ?s0 = "drop_tombstones (instant (c_now c)) (touch_all (instant (c_now c)) s)"
  have none0: "map_of (p_records ?s0) k = None"
    by (simp add: drop_tombstones_def touch_all_def map_of_map_vals none)
  have "wf_dict (p_tombstones s)" using repo_invD(2) [OF inv] by (simp add: keys_ok_def)
  then have "map_of (p_tombstones ?s0) k = Some t"
    if "map_of (p_tombstones s) k = Some t" "instant (c_now c) < t_expires_at t" for t
    using that by (simp add: drop_tombstones_def touch_all_def wf_dict_map_of wf_dict_def
        distinct_map_filter)
  then show ?thesis using gc_loop_absent [OF none0] ok(6) by simp
qed (simp add: s'_def none)



section \<open>Accounting and quotas\<close>

lemma run_frame:
  "repo_inv L s \<Longrightarrow> lib_ok L \<Longrightarrow> requests_ok qs \<Longrightarrow>
     p_keys (run L qs s) = p_keys s \<and> p_limits (run L qs s) = p_limits s \<and>
     p_maintenance (run L qs s) = p_maintenance s"
proof (induction L qs s rule: run.induct)
  case (2 L c q qs s)
  then show ?case using perform_frame [of L s c q] perform_inv [of L s c q] by simp
qed simp

lemma new_repo_fields:
  "new_repo L m l key = Inr s \<Longrightarrow> p_limits s = l \<and> p_maintenance s = m \<and>
     p_keys s = storage_keys_of L key \<and> p_last_seen s = None"
  by (auto simp: new_repo_def split: if_splits)

text \<open>
  C1.  After any sequence of requests on a new installation, the three running totals are
  exactly the active, evidence and committed bytes the records retain, and they, the number of
  mailboxes and the number of tombstones stay within the configured limits.
\<close>

theorem accounting_and_quotas:
  assumes "lib_ok L" and "new_repo L m l key = Inr s0" and "mailbox_limits_ok l"
    and "requests_ok qs"
  shows "let s = run L qs s0 in
    p_active s = sum_vals active_bytes (p_records s) \<and>
    p_evidence s = sum_vals record_evidence_bytes (p_records s) \<and>
    p_committed s = sum_vals committed_bytes (p_records s) \<and>
    p_active s \<le> max_total_active_material_bytes l \<and>
    p_evidence s \<le> max_total_evidence_bytes l \<and>
    p_committed s \<le> max_total_committed_bytes l \<and>
    len (p_records s) \<le> max_mailboxes l \<and> len (p_tombstones s) \<le> max_tombstones l"
proof -
  have inv0: "repo_inv L s0" by (rule new_repo_inv [OF assms(2,3)])
  have "repo_inv L (run L qs s0)" by (rule run_inv [OF inv0 assms(1,4)])
  moreover have "p_limits (run L qs s0) = l"
    using run_frame [OF inv0 assms(1,4)] new_repo_fields [OF assms(2)] by simp
  ultimately show ?thesis
    by (auto simp: Let_def repo_inv_def totals_exact_def quotas_kept_def)
qed

theorem accounting_and_quotas_witness:
  "p_active (run toy_lib [(at_time 1, create_q), (at_time 2, offer_q)] sample_repo) = 65 \<and>
   sum_vals active_bytes (p_records (run toy_lib [(at_time 1, create_q), (at_time 2, offer_q)]
     sample_repo)) = 65"
proof -
  let ?qs = "[(at_time 1, create_q), (at_time 2, offer_q)]"
  have "run toy_lib ?qs sample_repo = sample_state 2"
    using sample_create sample_offer by simp
  then show ?thesis
    using accounting_and_quotas [OF toy_lib_ok sample_repo_new default_limits_ok, of ?qs]
      sample_requests_ok by (simp add: sample_state_def Let_def)
qed


section \<open>At most one delivery\<close>

text \<open>
  A mailbox is spent when no record that could still be claimed exists under its identifier.
\<close>

definition spent :: "uuid \<Rightarrow> repo \<Rightarrow> bool" where
  "spent k s = (case map_of (p_records s) k of None \<Rightarrow> True
                | Some r \<Rightarrow> r_state r \<notin> {S_EMPTY, S_OFFERED})"

lemma perform_spent:
  assumes "repo_inv L s" "lib_ok L" "request_ok c q" "\<not> creates k q" "spent k s"
  shows "spent k (snd (perform L c q s))"
proof (cases "map_of (p_records s) k")
  case None
  then show ?thesis using perform_absent [OF assms(1-4)] by (simp add: spent_def)
next
  case (Some r)
  have "r_state r' \<notin> {S_EMPTY, S_OFFERED}" if "rstep L (p_keys s) (instant (c_now c)) r r'" for r'
    using rstep_state_edge [OF that] assms(5) Some by (cases "r_state r") (auto simp: spent_def)
  then show ?thesis
    using perform_record [OF assms(1-3) Some] Some assms(5) by (auto simp: spent_def)
qed

lemma run_spent:
  "repo_inv L s \<Longrightarrow> lib_ok L \<Longrightarrow> requests_ok qs \<Longrightarrow>
     list_all (\<lambda>(c, q). \<not> creates k q) qs \<Longrightarrow> spent k s \<Longrightarrow> spent k (run L qs s)"
  by (induction L qs s rule: run.induct) (simp_all add: perform_spent perform_inv)

text \<open>No check that precedes a crash point reports a crash.\<close>

lemma checks_do_not_crash [simp]:
  "get_record s k \<noteq> Inl (Crashed p)" "require_credential x y \<noteq> Inl (Crashed p)"
  "require_binding r b \<noteq> Inl (Crashed p)" "require_result_access r b y \<noteq> Inl (Crashed p)"
  "validated_installation_now s d \<noteq> Inl (Crashed p)" "validated_record_now s r d \<noteq> Inl (Crashed p)"
  "unwrap L K j slot item \<noteq> Inl (Crashed p)" "unwrap_result L K b w \<noteq> Inl (Crashed p)"
  "validate_result_references L b json ev \<noteq> Inl (Crashed p)"
  "validate_committed_manifest L K b ow om ids \<noteq> Inl (Crashed p)"
  by (auto simp: get_record_def require_credential_def require_binding_def
      require_result_access_def validated_installation_now_def validated_record_now_def unwrap_def
      unwrap_result_def validate_result_references_def validate_committed_manifest_def
      build_committed_manifest_def Let_def split: option.splits if_splits sum.splits prod.splits)

lemma validated_slots_do_not_crash [simp]: "validated_slots L K j acc items \<noteq> Inl (Crashed p)"
  by (induction L K j acc items rule: validated_slots.induct) (auto split: sum.splits)

lemma material_does_not_crash [simp]: "validated_record_material L K r \<noteq> Inl (Crashed p)"
  by (auto simp: validated_record_material_def validated_evidence_slots_def
      split: sum.splits option.splits if_splits)

definition claim_commits :: "mailbox_error + 'a \<Rightarrow> bool" where
  "claim_commits x \<longleftrightarrow> (\<exists>a. x = Inr a) \<or> x = Inl (Crashed AFTER_CLAIM_COMMIT)"

text \<open>What a claim that reached its commit point found, and what it leaves behind.\<close>

lemma attempt_Inr: "attempt m s k = (Inr a, s') \<longleftrightarrow> (\<exists>x. m = Inr x \<and> k x = (Inr a, s'))"
  by (cases m) auto

lemma attempt_Inl: "attempt m s k = (Inl e, s') \<longleftrightarrow>
    m = Inl e \<and> s' = s \<or> (\<exists>x. m = Inr x \<and> k x = (Inl e, s'))"
  by (cases m) auto

lemmas attempt_out = attempt_Inr attempt_Inl

definition claimed_record :: "int \<Rightarrow> mrec \<Rightarrow> mrec" where
  "claimed_record now r = r\<lparr>r_state := S_CLAIMED_ONCE, r_last_seen := now, r_action_key := None,
     r_result_credential := None, r_envelope_json := None\<rparr>"

lemma claim_committed:
  assumes "claim L b d c s = (out, s')" and "claim_commits out"
  defines "k \<equiv> b_mailbox_id b" and "now \<equiv> instant (c_now c)"
  obtains r where "map_of (p_records s) k = Some r" "r_binding r = b"
    "r_claim_digest r = d" "r_state r = S_OFFERED" "validated_record_now s r (c_now c) = Inr now"
    "now < instant (b_claim_deadline_utc b)"
    "map_of (p_records s') k = Some (claimed_record now r)"
    "\<And>a. out = Inr a \<Longrightarrow> ca_binding a = b \<and> r_envelope_json r = Some (ca_envelope_json a) \<and>
       r_action_key r = Some (ca_action_key a) \<and> r_result_credential r = Some (ca_result_credential a)"
proof -
  obtain r n where r: "map_of (p_records s) k = Some r" "r_binding r = b" "r_claim_digest r = d"
    and n: "validated_record_now s r (c_now c) = Inr n"
    and rest: "(let (due, r1, s1) = expire_if_due n (r, s)
       in if due then deny EXPIRED (put_record r1 s1)
          else if r_state r \<noteq> S_OFFERED then deny REPLAY s
          else
            case (r_envelope_json r, r_action_key r, r_result_credential r) of
              (Some envelope, Some key, Some cred) \<Rightarrow>
                if c_crash c BEFORE_CLAIM_COMMIT then (Inl (Crashed BEFORE_CLAIM_COMMIT), s)
                else
                  let (r2, s2) = clear_claim_delivery_material
                                   (observe_time n (r\<lparr>r_state := S_CLAIMED_ONCE\<rparr>, s));
                      a = \<lparr>ca_binding = r_binding r, ca_envelope_json = envelope,
                           ca_action_key = key, ca_result_credential = cred\<rparr>
                  in (if c_crash c AFTER_CLAIM_COMMIT then Inl (Crashed AFTER_CLAIM_COMMIT)
                      else if claimed_action_ok a then Inr a else Inl Value_Error,
                      put_record r2 s2)
            | _ \<Rightarrow> deny INTERNAL_UNCERTAINTY s) = (out, s')"
    using assms(1,2) unfolding claim_def claim_commits_def k_def
    by (auto simp: attempt_out get_record_Inr)
  have now: "n = now" unfolding now_def by (rule validated_record_now_Inr(4) [OF n])
  obtain r1 s1 where e: "expire_if_due n (r, s) = (False, r1, s1)" and offered: "r_state r = S_OFFERED"
    using rest assms(2) by (auto simp: claim_commits_def split: prod.splits if_splits)
  have "now < instant (b_claim_deadline_utc b)"
    using expire_if_due_False [OF e] offered r(2) now by (simp add: deadline_of_def)
  then show thesis
    using that [OF r offered] n rest assms(2) e offered r k_def
    by (auto simp: now claim_commits_def observe_time_def clear_claim_delivery_material_def Let_def
        put_record_def claimed_record_def split: option.splits if_splits)
qed

lemma claim_spent:
  "spent (b_mailbox_id b) s \<Longrightarrow> claim L b d c s = (out, s') \<Longrightarrow> \<not> claim_commits out"
  by (auto elim!: claim_committed simp: spent_def)

lemma claim_spends:
  "claim L b d c s = (out, s') \<Longrightarrow> claim_commits out \<Longrightarrow> spent (b_mailbox_id b) s'"
  by (auto elim!: claim_committed simp: spent_def claimed_record_def)


text \<open>
  C2.  An action is delivered at most once: once a claim of a mailbox has passed its commit
  point (it returned the action, or it crashed right after the commit), no later claim of that
  mailbox passes it, whatever requests run in between, unless the mailbox identifier is created
  anew.
\<close>

theorem claim_at_most_once:
  assumes "lib_ok L" and "reachable L s"
    and "claim L b d c s = (out, s')" and "claim_commits out"
    and "requests_ok qs" and "list_all (\<lambda>(c, q). \<not> creates (b_mailbox_id b) q) qs"
    and "b_mailbox_id b' = b_mailbox_id b"
  shows "\<not> claim_commits (fst (claim L b' d' c' (run L qs s')))"
proof -
  have inv: "repo_inv L s" by (rule reachable_inv [OF assms(2,1)])
  have "snd (perform L c (Claim b d) s) = s'" by (simp add: assms(3))
  then have "repo_inv L s'" using perform_inv [OF inv assms(1), of c "Claim b d"] by simp
  then have "spent (b_mailbox_id b) (run L qs s')"
    using run_spent [OF _ assms(1,5,6)] claim_spends [OF assms(3,4)] by blast
  then show ?thesis
    using claim_spent [of b' "run L qs s'"] assms(7) by (metis prod.collapse)
qed

theorem claim_at_most_once_witness:
  "\<not> claim_commits (fst (claim toy_lib sample_binding [2] (at_time 5)
     (run toy_lib [(at_time 4, claim_q)] (sample_state 3))))"
proof -
  have "claim toy_lib sample_binding [2] (at_time 3) (sample_state 2)
    = (Inr \<lparr>ca_binding = sample_binding, ca_envelope_json = [6],
        ca_action_key = zeros 32, ca_result_credential = replicate 32 3\<rparr>, sample_state 3)"
    using sample_claim by (auto simp: claim_q_def reply_of_def prod_eq_iff split: sum.splits)
  from claim_at_most_once [OF toy_lib_ok sample_reachable(3) this, of "[(at_time 4, claim_q)]"]
  show ?thesis
    using sample_requests_ok by (simp add: claim_commits_def claim_q_def)
qed

text \<open>
  C3.  A claim succeeds only for the exact binding and claim credential of an offered mailbox,
  strictly before the claim deadline; it returns the offered material, and the mailbox is left
  claimed with the envelope, the action key and the result credential erased.
\<close>

theorem claim_delivers_and_forgets:
  assumes "claim L b d c s = (Inr a, s')"
  shows "\<exists>r r'. map_of (p_records s) (b_mailbox_id b) = Some r \<and>
    map_of (p_records s') (b_mailbox_id b) = Some r' \<and>
    r_binding r = b \<and> r_claim_digest r = d \<and> r_state r = S_OFFERED \<and>
    is_utc (c_now c) \<and> instant (c_now c) < instant (b_claim_deadline_utc b) \<and>
    ca_binding a = b \<and> r_envelope_json r = Some (ca_envelope_json a) \<and>
    r_action_key r = Some (ca_action_key a) \<and>
    r_result_credential r = Some (ca_result_credential a) \<and>
    r_state r' = S_CLAIMED_ONCE \<and> r_envelope_json r' = None \<and> r_action_key r' = None \<and>
    r_result_credential r' = None"
proof -
  obtain r where "map_of (p_records s) (b_mailbox_id b) = Some r" "r_binding r = b"
    "r_claim_digest r = d" "r_state r = S_OFFERED"
    "validated_record_now s r (c_now c) = Inr (instant (c_now c))"
    "instant (c_now c) < instant (b_claim_deadline_utc b)"
    "map_of (p_records s') (b_mailbox_id b) = Some (claimed_record (instant (c_now c)) r)"
    "ca_binding a = b" "r_envelope_json r = Some (ca_envelope_json a)"
    "r_action_key r = Some (ca_action_key a)" "r_result_credential r = Some (ca_result_credential a)"
    using claim_committed [OF assms] by (auto simp: claim_commits_def)
  then show ?thesis
    using validated_record_now_Inr(3) by (auto simp: claimed_record_def)
qed

theorem claim_delivers_and_forgets_witness:
  "\<exists>r'. map_of (p_records (sample_state 3)) (sid 9) = Some r' \<and> r_state r' = S_CLAIMED_ONCE \<and>
        r_action_key r' = None"
proof -
  have "claim toy_lib sample_binding [2] (at_time 3) (sample_state 2)
    = (Inr \<lparr>ca_binding = sample_binding, ca_envelope_json = [6],
        ca_action_key = zeros 32, ca_result_credential = replicate 32 3\<rparr>, sample_state 3)"
    using sample_claim by (auto simp: claim_q_def reply_of_def prod_eq_iff split: sum.splits)
  from claim_delivers_and_forgets [OF this] show ?thesis by auto
qed


section \<open>Tombstones\<close>

lemma tombstone_no_record:
  assumes "keys_ok s" "map_of (p_tombstones s) k = Some t"
  shows "map_of (p_records s) k = None"
proof -
  have "k \<in> keys (p_tombstones s)" using assms(2) by (auto simp: keys_map_of)
  then show ?thesis using assms(1) by (auto simp: keys_ok_def map_of_eq_None_iff)
qed

lemma run_tombstone:
  assumes "repo_inv L s" "lib_ok L" "requests_ok qs"
    "list_all (\<lambda>(c, q). instant (c_now c) < t_expires_at t) qs"
    "map_of (p_tombstones s) k = Some t"
  shows "map_of (p_records (run L qs s)) k = None \<and> map_of (p_tombstones (run L qs s)) k = Some t"
  using assms
proof (induction L qs s rule: run.induct)
  case (1 L s)
  then show ?case using tombstone_no_record [OF repo_invD(2)] by simp
next
  case (2 L c q qs s)
  have kt: "k \<in> keys (p_tombstones s)" using "2.prems"(5) by (auto simp: keys_map_of)
  have none: "map_of (p_records s) k = None"
    by (rule tombstone_no_record [OF repo_invD(2) [OF "2.prems"(1)] "2.prems"(5)])
  have "map_of (p_tombstones (snd (perform L c q s))) k = Some t"
  proof (cases "creates k q")
    case True
    then obtain b x y z where q: "q = Create b x y z" "b_mailbox_id b = k" by (cases q) auto
    then have "snd (create b x y z c s) = s"
      using kt by (auto simp: create_def attempt_def split: sum.splits)
    then show ?thesis using "2.prems"(5) q by simp
  next
    case False
    then show ?thesis using perform_absent [OF "2.prems"(1,2) _ False none] "2.prems" by simp
  qed
  then show ?case
    using 2 perform_inv [OF "2.prems"(1,2)] by simp
qed

text \<open>
  C4.  As long as a tombstone has not expired, its mailbox identifier cannot be used again:
  no sequence of requests brings the mailbox back, creating it is refused as a replay (or for
  an unusable clock), and so is claiming it.
\<close>

theorem tombstone_blocks_replay:
  assumes "lib_ok L" and "reachable L s" and "map_of (p_tombstones s) k = Some t"
    and "requests_ok qs" and "list_all (\<lambda>(c, q). instant (c_now c) < t_expires_at t) qs"
    and "b_mailbox_id b = k"
  shows "k \<notin> keys (p_records (run L qs s)) \<and>
    fst (create b x y z c (run L qs s)) \<in> {Inl (Denied REPLAY), uncertain} \<and>
    fst (claim L b d c (run L qs s)) = Inl (Denied REPLAY)"
proof -
  let ?s = "run L qs s"
  have none: "map_of (p_records ?s) k = None" and tomb: "map_of (p_tombstones ?s) k = Some t"
    using run_tombstone [OF reachable_inv [OF assms(2,1)] assms(1,4,5,3)] by simp_all
  have kt: "k \<in> keys (p_tombstones ?s)" using tomb by (auto simp: keys_map_of)
  have kr: "k \<notin> keys (p_records ?s)" using none by (simp add: map_of_eq_None_iff)
  have "fst (create b x y z c ?s) \<in> {Inl (Denied REPLAY), uncertain}"
    using kt kr assms(6)
    by (auto simp: create_def attempt_def validated_installation_now_def
        split: sum.splits if_splits option.splits)
  moreover have "fst (claim L b d c ?s) = Inl (Denied REPLAY)"
    using kt none assms(6) by (simp add: claim_def get_record_def attempt_def)
  ultimately show ?thesis using kr by simp
qed


theorem tombstone_blocks_replay_witness:
  "fst (claim toy_lib sample_binding [2] (at_time 604800000008)
     (run toy_lib [(at_time 604800000008, create_q)] sample_swept)) = Inl (Denied REPLAY)"
  using tombstone_blocks_replay [OF toy_lib_ok sample_reachable(9), of "sid 9" _
      "[(at_time 604800000008, create_q)]" sample_binding] sample_requests_ok
  by (simp add: sample_swept_def)

end
