(* ===== verification/Mailbox_Delivery.thy ===== *)
theory Mailbox_Delivery
  imports Mailbox_Guarantees
begin

text \<open>
  Further guarantees of the volatile repository: the state machine each mailbox follows, the
  clock discipline, what a refusal may change, and the delivery of committed results.
\<close>


section \<open>States, clock and retained secrets\<close>

lemma rstep_result_digest:
  assumes "rstep L K now r r'" and "r_state r = S_EMPTY \<Longrightarrow> r_result_digest r = None"
  shows "r_result_digest r' = r_result_digest r \<or>
    r_state r = S_EMPTY \<and> r_state r' = S_OFFERED \<and> r_result_digest r = None \<or>
    r_state r' \<notin> {S_EMPTY, S_OFFERED, S_CLAIMED_ONCE} \<and> r_result_digest r' = None"
  using assms by (induction rule: rstep.induct) (auto simp: cleared_def)

text \<open>
  C5.  One request moves a mailbox along at most one edge of the documented state machine
  (empty, offered, claimed once, result committed, with expiry and abandonment from the three
  live states only); its binding, its creation time and the digests of its action, claim and
  collection credentials never change; the digest of its result credential is set by the offer
  and afterwards only dropped, on leaving the states that use it; a record disappears only when
  garbage collection replaces a record that has been terminal for the retention time by a
  tombstone.
\<close>

theorem request_follows_state_machine:
  assumes "lib_ok L" and "reachable L s" and "request_ok c q"
    and "map_of (p_records s) k = Some r"
  shows "case map_of (p_records (snd (perform L c q s))) k of
      Some r' \<Rightarrow> state_edge (r_state r) (r_state r') \<and> r_binding r' = r_binding r \<and>
        r_action_digest r' = r_action_digest r \<and> r_claim_digest r' = r_claim_digest r \<and>
        r_collection_digest r' = r_collection_digest r \<and>
        (r_result_digest r' = r_result_digest r \<or>
         r_state r = S_EMPTY \<and> r_state r' = S_OFFERED \<and> r_result_digest r = None \<or>
         r_state r' \<notin> {S_EMPTY, S_OFFERED, S_CLAIMED_ONCE} \<and> r_result_digest r' = None) \<and>
        r_created_at r' = r_created_at r \<and> r_last_seen r \<le> r_last_seen r'
    | None \<Rightarrow> terminal r \<and> k \<in> keys (p_tombstones (snd (perform L c q s))) \<and>
        (\<exists>t. r_terminal_at r = Some t \<and> instant (c_now c) - t \<ge> terminal_retention (p_limits s))"
proof -
  have inv: "repo_inv L s" by (rule reachable_inv [OF assms(2,1)])
  have ended: "r_terminal_at r \<noteq> None \<longleftrightarrow> terminal r" and rinv: "record_inv L (p_keys s) r"
    and digest: "r_state r = S_EMPTY \<Longrightarrow> r_result_digest r = None"
    using records_okD(2) [OF repo_invD(3) [OF inv] assms(4)] by (auto simp: record_inv_def)
  have refl: "state_edge (r_state r) (r_state r)" by (cases "r_state r") auto
  have mono: "r_last_seen r \<le> r_last_seen r'"
    if "map_of (p_records (snd (perform L c q s))) k = Some r'"
      "rstep L (p_keys s) (instant (c_now c)) r r'" for r'
  proof (cases "snd (perform L c q s) = s")
    case False
    then have "not_after s (instant (c_now c))"
      using perform_frame [OF inv assms(1,3)] by blast
    then show ?thesis
      using clock_bounds_now(1) [OF repo_invD(4) [OF inv] _ assms(4)] rstep_identity [OF that(2)]
      by simp
  qed (use that assms(4) in simp)
  consider (kept) r' where "map_of (p_records (snd (perform L c q s))) k = Some r'"
      "r' = r \<or> rstep L (p_keys s) (instant (c_now c)) r r'"
    | (gone) t where "map_of (p_records (snd (perform L c q s))) k = None"
      "due (instant (c_now c)) s r" "map_of (p_tombstones (snd (perform L c q s))) k = Some t"
    using perform_record [OF inv assms(1,3,4)] by blast
  then show ?thesis
  proof cases
    case kept
    show ?thesis
    proof (cases "r' = r")
      case False
      then have step: "rstep L (p_keys s) (instant (c_now c)) r r'" using kept(2) by blast
      then show ?thesis
        using kept(1) mono [OF kept(1) step] rstep_state_edge [OF step] rstep_binding [OF step]
          rstep_identity [OF step] rstep_result_digest [OF step digest] by simp
    qed (use kept(1) refl in simp)
  next
    case gone
    then have "k \<in> keys (p_tombstones (snd (perform L c q s)))" by (auto simp: keys_map_of)
    then show ?thesis using gone(1,2) ended by auto
  qed
qed

theorem request_follows_state_machine_witness:
  "\<exists>r'. map_of (p_records (sample_state 3)) (sid 9) = Some r' \<and>
        state_edge S_OFFERED (r_state r') \<and> r_state r' = S_CLAIMED_ONCE"
proof -
  have "map_of (p_records (sample_state 2)) (sid 9) = Some (sample_rec 2)"
    by (simp add: sample_state_def)
  from request_follows_state_machine [OF toy_lib_ok sample_reachable(3) sample_requests_ok(3) this,
      of 3, unfolded sample_claim]
  show ?thesis
    by (simp add: sample_state_def sample_rec_def fresh_record_def Let_def)
qed

lemma attempt_fails:
  "(\<And>x. \<exists>e. k x = (Inl e, s)) \<Longrightarrow> \<exists>e. attempt m s k = (Inl e, s)"
  by (cases m) auto

lemma reply_of_fails: "(\<exists>e. x = (Inl e, s)) \<Longrightarrow> \<exists>e. reply_of f x = (Inl e, s)"
  by (auto simp: reply_of_def)

lemma perform_bad_clock:
  assumes "\<not> is_utc (c_now c) \<or> instant (c_now c) < t" and "p_last_seen s = Some t"
  shows "\<exists>e. perform L c q s = (Inl e, s)"
proof -
  have bad: "validated_installation_now s (c_now c) = uncertain"
    "validated_record_now s r (c_now c) = uncertain" for r
    using assms by (auto simp: validated_record_now_def validated_installation_now_def)
  show ?thesis
    by (cases q)
      (auto intro!: reply_of_fails attempt_fails simp: bad create_def offer_def claim_def
        stage_evidence_def commit_result_def collect_def acknowledge_collection_def abandon_def
        snapshot_def expire_def garbage_collect_def split: prod.splits)
qed

text \<open>
  Time never runs backwards: a request whose clock is not UTC or is behind the
  installation's high-water mark is answered with an error and changes nothing, and no request
  decreases the mark.
\<close>

theorem clock_never_rolls_back:
  assumes "lib_ok L" and "reachable L s" and "request_ok c q" and "p_last_seen s = Some t"
  shows "(\<not> is_utc (c_now c) \<or> instant (c_now c) < t \<longrightarrow>
      (\<exists>e. perform L c q s = (Inl e, s))) \<and>
    (\<exists>t'. p_last_seen (snd (perform L c q s)) = Some t' \<and> t \<le> t')"
  using perform_frame [OF reachable_inv [OF assms(2,1)] assms(1,3)] perform_bad_clock assms(4)
  by fastforce

theorem clock_never_rolls_back_witness:
  "\<exists>e. perform toy_lib (at_time 1) claim_q (sample_state 2) = (Inl e, sample_state 2)"
  using clock_never_rolls_back [OF toy_lib_ok sample_reachable(3) sample_requests_ok(3), of 2 1]
  by (simp add: sample_state_def)

text \<open>
  C6.  The one-time secrets (envelope, action key, result credential) are retained exactly
  while the mailbox is offered, the digest that authorises results only while it is offered or
  claimed, and evidence, result and manifest are gone once the mailbox has expired, was
  abandoned, or its collection was acknowledged.
\<close>

theorem secrets_are_erased:
  assumes "lib_ok L" and "reachable L s" and "map_of (p_records s) k = Some r"
  shows "(r_action_key r \<noteq> None \<longleftrightarrow> r_state r = S_OFFERED) \<and>
    (r_envelope_json r \<noteq> None \<longleftrightarrow> r_state r = S_OFFERED) \<and>
    (r_result_credential r \<noteq> None \<longleftrightarrow> r_state r = S_OFFERED) \<and>
    (r_result_digest r \<noteq> None \<longleftrightarrow> r_state r \<in> {S_OFFERED, S_CLAIMED_ONCE}) \<and>
    (terminal r \<longrightarrow> r_evidence r = [] \<and> r_result r = None \<and> r_manifest r = None)"
proof -
  have rinv: "record_inv L (p_keys s) r"
    using records_okD(2) [OF repo_invD(3) [OF reachable_inv [OF assms(2,1)]] assms(3)] .
  then obtain v where v: "validated_record_material L (p_keys s) r = Inr v"
    by (auto simp: record_inv_def authentic_iff)
  have keys: "map fst (fst v) = map fst (r_evidence r)"
    by (rule validated_evidence_slots_Inr(2) [OF validated_material_evidence [OF v]])
  have "r_evidence r = [] \<and> r_result r = None \<and> r_manifest r = None" if "terminal r"
    using that v keys
    by (auto simp: terminal_def validated_record_material_def split: sum.splits if_splits)
  then show ?thesis
    using rinv by (auto simp: record_inv_def material_ok_def split: if_splits option.splits)
qed

theorem secrets_are_erased_witness:
  "r_evidence (sample_rec 7) = [] \<and> r_action_key (sample_rec 7) = None"
  using secrets_are_erased [OF toy_lib_ok sample_reachable(8), of "sid 9" "sample_rec 7"]
  by (simp add: sample_state_def sample_rec_def fresh_record_def Let_def terminal_def)

text \<open>
  C7.  Credentials are never shared: in every reachable state the credential digests of a
  mailbox are pairwise distinct, differ from the maintenance authority, and occur in no other
  mailbox of the installation.
\<close>

theorem credentials_are_isolated:
  assumes "lib_ok L" and "reachable L s" and "map_of (p_records s) k = Some r"
  shows "distinct (credentials_of r) \<and> p_maintenance s \<notin> set (credentials_of r) \<and>
    (\<forall>k' r'. map_of (p_records s) k' = Some r' \<longrightarrow> k' \<noteq> k \<longrightarrow>
       set (credentials_of r) \<inter> set (credentials_of r') = {})"
proof -
  have inv: "repo_inv L s" by (rule reachable_inv [OF assms(2,1)])
  have "record_inv L (p_keys s) r" using records_okD(2) [OF repo_invD(3) [OF inv] assms(3)] .
  then show ?thesis
    using repo_invD(7) [OF inv] assms(3)
    unfolding credentials_isolated_def record_inv_def by blast
qed

theorem credentials_are_isolated_witness:
  "\<exists>(s :: repo) r r'. map_of (p_records s) (sid 9) = Some r \<and> map_of (p_records s) (sid 10) = Some r' \<and>
     distinct (credentials_of r) \<and> set (credentials_of r) \<inter> set (credentials_of r') = {}"
proof -
  let ?q = "Create (sample_binding\<lparr>b_mailbox_id := sid 10\<rparr>) [11] [12] [13]"
  define s where "s = snd (perform toy_lib (at_time 2) ?q (sample_state 1))"
  have ne: "sid 10 \<noteq> sid 9" by (simp add: sid_inject)
  have "action_binding_ok (sample_binding\<lparr>b_mailbox_id := sid 10\<rparr>)"
    using sample_binding_ok uuid4_sid [of 10] by (simp add: action_binding_ok_def)
  then have reach: "reachable toy_lib s"
    unfolding s_def by (intro reachable.step [OF sample_reachable(2)]) simp
  obtain r r' where r: "map_of (p_records s) (sid 9) = Some r" "map_of (p_records s) (sid 10) = Some r'"
    using ne unfolding s_def perform.simps snd_reply_of create_def
    by (simp add: sample_state_defs)
  then show ?thesis
    using credentials_are_isolated [OF toy_lib_ok reach r(1)] ne by blast
qed


section \<open>Errors\<close>

text \<open>The errors after which the repository may have moved on.\<close>

fun may_change :: "mailbox_error \<Rightarrow> bool" where
  "may_change (Denied d) = (d = EXPIRED)"
| "may_change (Crashed p) =
     (p \<in> {AFTER_CLAIM_COMMIT, AFTER_EVIDENCE_COMMIT, AFTER_RESULT_COMMIT, AFTER_COLLECTION_ACK})"
| "may_change Value_Error = True"

definition refusal_safe :: "repo \<Rightarrow> 'a outcome \<Rightarrow> bool" where
  "refusal_safe s x = (case fst x of Inl e \<Rightarrow> may_change e \<or> snd x = s | Inr _ \<Rightarrow> True)"

lemma refusal_safe_simps [simp]:
  "refusal_safe s (Inl e, s') \<longleftrightarrow> may_change e \<or> s' = s" "refusal_safe s (Inr v, s')"
  "refusal_safe s (reply_of f x) = refusal_safe s x"
  by (auto simp: refusal_safe_def reply_of_def split: sum.splits)

lemma refusal_safe_attempt: "(\<And>x. refusal_safe s (k x)) \<Longrightarrow> refusal_safe s (attempt m s k)"
  by (cases m) simp_all

lemma record_op_refusals:
  "refusal_safe s (offer L b envelope key a co cred d c s)"
  "refusal_safe s (claim L b d c s)"
  "refusal_safe s (stage_evidence L b d ev c s)"
  "refusal_safe s (commit_result L b d json seals c s)"
  "refusal_safe s (collect L k d c s)"
  "refusal_safe s (acknowledge_collection L k d c s)"
  "refusal_safe s (abandon L k d c s)"
  "refusal_safe s (snapshot L k d c s)"
  "refusal_safe s (create b x y z c s)"
  "refusal_safe s (expire L m c s)"
  "refusal_safe s (garbage_collect L m c s)"
  subgoal unfolding offer_def Let_def
    by (auto intro!: refusal_safe_attempt split: prod.splits option.splits if_splits)
  subgoal unfolding claim_def Let_def
    by (auto intro!: refusal_safe_attempt split: prod.splits option.splits if_splits)
  subgoal unfolding stage_evidence_def Let_def
    by (auto intro!: refusal_safe_attempt split: prod.splits option.splits if_splits)
  subgoal unfolding commit_result_def Let_def
    by (auto intro!: refusal_safe_attempt split: prod.splits option.splits if_splits)
  subgoal unfolding collect_def Let_def
    by (auto intro!: refusal_safe_attempt split: prod.splits option.splits if_splits)
  subgoal unfolding acknowledge_collection_def Let_def
    by (auto intro!: refusal_safe_attempt split: prod.splits option.splits if_splits)
  subgoal unfolding abandon_def Let_def
    by (auto intro!: refusal_safe_attempt split: prod.splits option.splits if_splits)
  subgoal unfolding snapshot_def Let_def
    by (auto intro!: refusal_safe_attempt split: prod.splits option.splits if_splits)
  subgoal unfolding create_def Let_def
    by (auto intro!: refusal_safe_attempt split: prod.splits option.splits if_splits)
  subgoal unfolding expire_def Let_def
    by (auto intro!: refusal_safe_attempt split: prod.splits option.splits if_splits)
  subgoal unfolding garbage_collect_def Let_def
    by (auto intro!: refusal_safe_attempt split: prod.splits option.splits if_splits)
  done

text \<open>
  A refused request changes nothing: unless the answer is that the mailbox expired, a
  crash injected after a commit point, or a constructor error, the repository after an error is
  the repository before it.  In particular an unknown mailbox, a wrong credential, a wrong
  binding, a quota or a limit leaves every record as it was.
\<close>

theorem refusal_changes_nothing:
  assumes "perform L c q s = (Inl e, s')" and "\<not> may_change e"
  shows "s' = s"
proof -
  have "refusal_safe s (perform L c q s)" by (cases q) (simp_all add: record_op_refusals)
  then show ?thesis using assms by simp
qed

theorem refusal_changes_nothing_witness:
  "snd (perform toy_lib (at_time 3) (Claim sample_binding [5]) (sample_state 2)) = sample_state 2"
proof -
  have "perform toy_lib (at_time 3) (Claim sample_binding [5]) (sample_state 2)
      = (Inl (Denied UNAUTHORIZED), sample_state 2)"
    unfolding perform.simps claim_def sample_ops attempt_simps
    by (simp add: sample_state_defs)
  from refusal_changes_nothing [OF this] this show ?thesis by simp
qed

lemma payload_total_append: "payload_total (xs @ ys) = payload_total xs + payload_total ys"
  by (simp add: payload_total_def)

lemma validated_slots_total:
  assumes "validated_slots L K mb acc items = Inr v" and "wf_dict acc"
  shows "payload_total (map snd v) = payload_total (map snd acc) + sum_vals we_byte_count items"
  using assms
proof (induction L K mb acc items rule: validated_slots.induct)
  case (2 L K mb acc slot item rest)
  then obtain ev where u: "unwrap L K mb slot item = Inr ev" and new: "eu_object_id ev \<notin> keys acc"
    and rest: "validated_slots L K mb (AList.update (eu_object_id ev) ev acc) rest = Inr v"
    by (auto split: sum.splits if_splits)
  have "AList.update (eu_object_id ev) ev acc = acc @ [(eu_object_id ev, ev)]"
    using new by (intro update_new_append) (simp add: map_of_eq_None_iff)
  then show ?case
    using "2.IH" [OF u new rest wf_dict_update [OF "2.prems"(2)]] unwrap_Inr(4) [OF u]
    by (simp add: payload_total_append) (simp add: payload_total_def)
qed simp

lemma validated_evidence_total:
  "validated_evidence_slots L K mb evidence = Inr v \<Longrightarrow>
     payload_total (map snd v) = sum_vals we_byte_count evidence"
  using validated_slots_total [OF validated_evidence_slots_eq wf_dict_Nil]
  by (simp add: payload_total_def)

text \<open>What an honest record hands to the trusted core passes the bundle's constructor.\<close>

lemma record_bundle_ok:
  assumes inv: "record_inv L K r" and v: "validated_record_material L K r = Inr (validated, Some json)"
  shows "committed_bundle_ok \<lparr>cb_binding = r_binding r, cb_result_json = json,
    cb_evidence = map snd validated\<rparr>"
proof -
  note slots = validated_material_evidence [OF v, simplified]
  have total: "payload_total (map snd validated) = record_evidence_bytes r"
    using validated_evidence_total [OF slots] by (simp add: record_evidence_bytes_def)
  have count: "length validated = length (r_evidence r)"
    using validated_evidence_slots_Inr(2) [OF slots] by (metis length_map)
  obtain w where w: "r_result r = Some w" "unwrap_result L K (r_binding r) w = Inr json"
    using v by (auto simp: validated_record_material_def split: sum.splits if_splits option.splits)
  have json: "len json = result_bytes r" "json \<noteq> []"
    using unwrap_result_Inr(1,2) [OF w(2)] w(1) by (auto simp: result_bytes_def)
  have "0 \<le> result_bytes r" using json(1) by simp
  then show ?thesis
    using inv json total count
    by (auto simp: committed_bundle_ok_def record_inv_def action_binding_ok_def)
qed


definition no_value_error :: "'a outcome \<Rightarrow> bool" where
  "no_value_error x \<longleftrightarrow> fst x \<noteq> Inl Value_Error"

lemma no_value_error_simps [simp]:
  "no_value_error (Inl e, s') \<longleftrightarrow> e \<noteq> Value_Error" "no_value_error (Inr v, s')"
  "no_value_error (reply_of f x) = no_value_error x"
  by (auto simp: no_value_error_def reply_of_def split: sum.splits)

lemma no_value_error_attempt:
  "m \<noteq> Inl Value_Error \<Longrightarrow> (\<And>x. m = Inr x \<Longrightarrow> no_value_error (k x)) \<Longrightarrow> no_value_error (attempt m s k)"
  by (cases m) auto

lemma checks_no_value_error [simp]:
  "get_record s k \<noteq> Inl Value_Error" "require_credential x y \<noteq> Inl Value_Error"
  "require_binding r b \<noteq> Inl Value_Error" "require_result_access r b y \<noteq> Inl Value_Error"
  "require_maintenance s x \<noteq> Inl Value_Error"
  "validated_installation_now s d \<noteq> Inl Value_Error" "validated_record_now s r d \<noteq> Inl Value_Error"
  "validate_result_references L b json ev \<noteq> Inl Value_Error"
  "build_committed_manifest L K b ids w \<noteq> Inl Value_Error"
  by (auto simp: get_record_def require_credential_def require_binding_def require_maintenance_def
      require_result_access_def validated_installation_now_def validated_record_now_def
      validate_result_references_def build_committed_manifest_def Let_def
      split: option.splits if_splits sum.splits prod.splits)

lemma authentic_no_value_error: "authentic L K r \<Longrightarrow> validated_record_material L K r \<noteq> Inl e"
  by (auto simp: authentic_iff)

lemma validate_all_Inr:
  "\<forall>(k, r) \<in> set d. authentic L K r \<Longrightarrow> validate_all L K d = Inr ()"
  by (induction L K d rule: validate_all.induct) (auto simp: authentic_iff)

lemma records_validate: "repo_inv L s \<Longrightarrow> validate_all L (p_keys s) (p_records s) = Inr ()"
  using repo_invD(8) records_okD(3) [OF repo_invD(3)]
  by (intro validate_all_Inr) (auto simp: wf_dict_map_of)

lemma claim_no_value_error:
  assumes "records_ok L s"
  shows "no_value_error (claim L b d c s)"
proof -
  have "claimed_action_ok \<lparr>ca_binding = r_binding r, ca_envelope_json = envelope,
      ca_action_key = key, ca_result_credential = cred\<rparr>"
    if "get_record s k = Inr r" "r_state r = S_OFFERED" "r_envelope_json r = Some envelope"
      "r_action_key r = Some key" "r_result_credential r = Some cred" for r k envelope key cred
    using records_okD(2) [OF assms] that by (fastforce simp: get_record_Inr record_inv_def material_ok_def)
  then show ?thesis
    unfolding claim_def Let_def
    using records_okD(3) [OF assms]
    by (auto intro!: no_value_error_attempt simp: authentic_no_value_error get_record_Inr
        split: prod.splits option.splits)
qed

lemma stage_no_value_error:
  assumes "records_ok L s" "lib_ok L" "length (c_nonce c) = 12" "evidence_upload_ok ev"
  shows "no_value_error (stage_evidence L b d ev c s)"
  unfolding stage_evidence_def Let_def
  using records_okD(3) [OF assms(1)] unwrap_wrap [OF assms(2-4)]
  by (auto intro!: no_value_error_attempt simp: authentic_no_value_error get_record_Inr
      split: prod.splits option.splits)

lemma collect_no_value_error:
  assumes "records_ok L s"
  shows "no_value_error (collect L k d c s)"
  unfolding collect_def Let_def
  using records_okD(3) [OF assms]
  by (auto intro!: no_value_error_attempt simp: authentic_no_value_error get_record_Inr
      record_bundle_ok [OF records_okD(2) [OF assms]] split: prod.splits option.splits)

lemma other_no_value_error:
  assumes "records_ok L s"
  shows "no_value_error (offer L b envelope key a co cred d c s)"
    "no_value_error (commit_result L b d json seals c s)"
    "no_value_error (acknowledge_collection L k d c s)" "no_value_error (abandon L k d c s)"
    "no_value_error (snapshot L k d c s)"
  unfolding offer_def commit_result_def acknowledge_collection_def abandon_def snapshot_def Let_def
  using records_okD(3) [OF assms]
  by (auto intro!: no_value_error_attempt simp: authentic_no_value_error get_record_Inr
      split: prod.splits)

lemma perform_no_value_error:
  assumes "lib_ok L" and inv: "repo_inv L s" and "request_ok c q"
  shows "fst (perform L c q s) \<noteq> Inl Value_Error"
proof -
  note ok = repo_invD(3) [OF inv]
  have "no_value_error (perform L c q s)"
  proof (cases q)
    case (Create b x y z)
    then show ?thesis
      by (auto intro!: no_value_error_attempt simp: create_def Let_def)
  next
    case (Expire m)
    then show ?thesis using records_validate [OF inv]
      by (auto intro!: no_value_error_attempt simp: expire_def Let_def split: prod.splits)
  next
    case (Garbage_Collect m)
    then show ?thesis using records_validate [OF inv]
      by (auto intro!: no_value_error_attempt simp: garbage_collect_def Let_def split: prod.splits)
  qed (use assms ok in \<open>simp_all add: claim_no_value_error stage_no_value_error
      collect_no_value_error other_no_value_error\<close>)
  then show ?thesis by (simp add: no_value_error_def)
qed

text \<open>
  C12.  An honest installation never reports a constructor error and never mistakes its own
  data for tampered data: no reachable state and valid request ends in a
  \<^verbatim>\<open>ValueError\<close>, every stored record authenticates, and every record's snapshot passes the
  checks of \<^verbatim>\<open>MailboxSnapshot\<close>.
\<close>

theorem no_spurious_failures:
  assumes "lib_ok L" and "reachable L s" and "request_ok c q"
  shows "fst (perform L c q s) \<noteq> Inl Value_Error \<and>
    validate_all L (p_keys s) (p_records s) = Inr () \<and>
    (\<forall>k r. map_of (p_records s) k = Some r \<longrightarrow> mailbox_snapshot_ok (snapshot_of r))"
proof -
  have inv: "repo_inv L s" by (rule reachable_inv [OF assms(2,1)])
  note ok = repo_invD(3) [OF inv]
  have "fst (perform L c q s) \<noteq> Inl Value_Error" by (rule perform_no_value_error [OF assms(1) inv assms(3)])
  moreover have "mailbox_snapshot_ok (snapshot_of r)" if "map_of (p_records s) k = Some r" for k r
    using records_okD(2) [OF ok that] authentic_bytes_nonneg(1) [OF records_okD(3) [OF ok that]]
    by (auto simp: mailbox_snapshot_ok_def snapshot_of_def record_inv_def action_binding_ok_def)
  ultimately show ?thesis
    using records_validate [OF inv] by simp
qed

theorem no_spurious_failures_witness:
  "validate_all toy_lib (p_keys (sample_state 5)) (p_records (sample_state 5)) = Inr () \<and>
   mailbox_snapshot_ok (snapshot_of (sample_rec 5))"
  using no_spurious_failures [OF toy_lib_ok sample_reachable(6) sample_requests_ok(6)]
  by (simp add: sample_state_def)

end
