(* ===== verification/Mailbox_Collection.thy ===== *)
theory Mailbox_Collection
  imports Mailbox_Delivery
begin

text \<open>
  Two-phase collection: what was staged and committed is exactly what collection returns, as
  often as it is asked for, whatever other requests run in between, until the trusted core
  acknowledges it; and the two installation sweeps do exactly what is due.
\<close>


section \<open>A committed result stays available\<close>

definition deliverable :: "lib \<Rightarrow> storage_keys \<Rightarrow> mrec \<Rightarrow> (uuid, evidence_upload) dict \<Rightarrow> bytes \<Rightarrow> bool" where
  "deliverable L K r validated json \<longleftrightarrow>
     r_state r = S_RESULT_COMMITTED \<and> r_collection r \<in> {C_READY, C_DELIVERING} \<and>
     validated_record_material L K r = Inr (validated, Some json)"

definition bundle_of :: "mrec \<Rightarrow> (uuid, evidence_upload) dict \<Rightarrow> bytes \<Rightarrow> committed_bundle" where
  "bundle_of r validated json =
     \<lparr>cb_binding = r_binding r, cb_result_json = json, cb_evidence = map snd validated\<rparr>"

lemma deliverable_result: "deliverable L K r validated json \<Longrightarrow> r_result r \<noteq> None"
  by (auto simp: deliverable_def validated_record_material_def
      split: sum.splits if_splits option.splits)

text \<open>A committed record that is not acknowledged only ever gets a new time or is delivering.\<close>

definition redelivered :: "mrec \<Rightarrow> mrec \<Rightarrow> bool" where
  "redelivered r r' \<longleftrightarrow>
     (\<exists>t p. p \<in> {r_collection r, C_DELIVERING} \<and> r' = r\<lparr>r_collection := p, r_last_seen := t\<rparr>)"

lemma redelivered_refl [simp]: "redelivered r r"
  unfolding redelivered_def
  by (rule exI [of _ "r_last_seen r"], rule exI [of _ "r_collection r"]) simp

lemma redelivered_touch [simp]: "redelivered r (r\<lparr>r_last_seen := t\<rparr>)"
  unfolding redelivered_def
  by (rule exI [of _ t], rule exI [of _ "r_collection r"]) simp

lemma redelivered_deliverable:
  assumes "redelivered r r'" and "deliverable L K r validated json"
  shows "deliverable L K r' validated json" and "r_collection_digest r' = r_collection_digest r"
    and "bundle_of r' validated json = bundle_of r validated json"
proof -
  obtain t p where r': "p \<in> {C_READY, C_DELIVERING}" "r' = r\<lparr>r_collection := p, r_last_seen := t\<rparr>"
    using assms by (auto simp: redelivered_def deliverable_def)
  have "validated_record_material L K r' = validated_record_material L K r"
    using r' assms(2) by (auto simp: deliverable_def validated_record_material_def
        split: sum.splits if_splits option.splits)
  then show "deliverable L K r' validated json" and "r_collection_digest r' = r_collection_digest r"
    and "bundle_of r' validated json = bundle_of r validated json"
    using assms(2) r' by (auto simp: deliverable_def bundle_of_def)
qed

text \<open>No operation but the acknowledgement does more than that to a committed record.\<close>

definition keeps_result :: "uuid \<Rightarrow> mrec \<Rightarrow> 'a outcome \<Rightarrow> bool" where
  "keeps_result k r x \<longleftrightarrow> (\<exists>r'. map_of (p_records (snd x)) k = Some r' \<and> redelivered r r')"

lemma keeps_result_attempt:
  assumes "map_of (p_records s) k = Some r" and "\<And>x. m = Inr x \<Longrightarrow> keeps_result k r (f x)"
  shows "keeps_result k r (attempt m s f)"
  using assms by (cases m) (auto simp: keeps_result_def)

lemma keeps_result_same [simp]: "map_of (p_records s) k = Some r \<Longrightarrow> keeps_result k r (x, s)"
  by (auto simp: keeps_result_def)

lemma keeps_result_reply [simp]: "keeps_result k r (reply_of f x) = keeps_result k r x"
  by (simp add: keeps_result_def)

lemma keeps_result_put:
  "b_mailbox_id (r_binding r) = k \<Longrightarrow> redelivered r r' \<Longrightarrow> keeps_result k r (x, put_record r' s)"
  by (auto simp: keeps_result_def put_record_def redelivered_def)

lemma committed_not_due:
  "r_state r = S_RESULT_COMMITTED \<Longrightarrow> expire_if_due now (r, s) = (False, r, s)"
  by (simp add: expire_if_due_def Let_def)

lemma redelivered_delivering: "redelivered r (r\<lparr>r_collection := C_DELIVERING, r_last_seen := t\<rparr>)"
  by (auto simp: redelivered_def)

lemma operations_keep_result:
  assumes r: "map_of (p_records s) k = Some r" "b_mailbox_id (r_binding r) = k"
    "r_state r = S_RESULT_COMMITTED"
    and q: "target q = Some k" "\<And>d. q \<noteq> Acknowledge k d" "\<not> creates k q"
  shows "keeps_result k r (perform L c q s)"
proof -
  have get: "get_record s k = Inr r" using r(1) by (simp add: get_record_Inr)
  note unfold = offer_def claim_def stage_evidence_def commit_result_def collect_def abandon_def
    snapshot_def Let_def
  show ?thesis
    using q r get
    by (cases q)
      (auto simp: unfold observe_time_def committed_not_due require_result_access_Inr
        intro!: keeps_result_attempt keeps_result_put redelivered_delivering
        split: option.splits)
qed

lemma expire_loop_keeps_result:
  assumes "repo_inv L s" "not_after s now" "map_of (p_records s) k = Some r"
    "r_state r = S_RESULT_COMMITTED"
  shows "\<exists>t. map_of (p_records (fst (expire_loop now ks s acc))) k = Some (r\<lparr>r_last_seen := t\<rparr>)"
  using assms
proof (induction ks arbitrary: s acc r)
  case Nil
  then show ?case by (auto intro: exI [of _ "r_last_seen r"])
next
  case (Cons j ks)
  show ?case
  proof (cases "map_of (p_records s) j")
    case None
    then show ?thesis using Cons by simp
  next
    case (Some rj)
    then obtain s' acc' where eq: "expire_loop now (j # ks) s acc = expire_loop now ks s' acc'"
      and eff: "op_effect L now j s s'"
      using expire_loop_Cons [OF Cons.prems(1,2)] by metis
    note next_inv = op_effect_inv [OF Cons.prems(1) eff] op_effect_not_after [OF eff]
    show ?thesis
    proof (cases "j = k")
      case True
      have key: "b_mailbox_id (r_binding r) = k"
        by (rule records_okD(1) [OF repo_invD(3) [OF Cons.prems(1)] Cons.prems(3)])
      let ?s = "put_record (r\<lparr>r_last_seen := now\<rparr>) (advance_installation_time now s)"
      have eq: "expire_loop now (j # ks) s acc = expire_loop now ks ?s acc"
        using True Cons.prems(3,4) by (simp add: committed_not_due observe_time_def)
      have "op_effect L now k s ?s" by (rule touch_effect [OF Cons.prems(1-3)])
      note inv' = op_effect_inv [OF Cons.prems(1) this] op_effect_not_after [OF this]
      have "map_of (p_records ?s) k = Some (r\<lparr>r_last_seen := now\<rparr>)"
        by (simp add: put_record_def key)
      then show ?thesis using Cons.IH [OF inv', of "r\<lparr>r_last_seen := now\<rparr>"] Cons.prems(4) eq by simp
    next
      case False
      then have "map_of (p_records s') k = Some r"
        using op_effect_other [OF eff repo_invD(3) [OF Cons.prems(1)]] Cons.prems(3) by simp
      then show ?thesis using Cons.IH [OF next_inv _ Cons.prems(4)] eq by simp
    qed
  qed
qed

lemma perform_keeps_result:
  assumes inv: "repo_inv L s" and L: "lib_ok L" and q: "request_ok c q" "\<And>d. q \<noteq> Acknowledge k d"
    and r: "map_of (p_records s) k = Some r" and del: "deliverable L (p_keys s) r validated json"
  shows "\<exists>r'. map_of (p_records (snd (perform L c q s))) k = Some r' \<and> redelivered r r'"
proof -
  have committed: "r_state r = S_RESULT_COMMITTED" using del by (simp add: deliverable_def)
  have rinv: "record_inv L (p_keys s) r" and key: "b_mailbox_id (r_binding r) = k"
    using records_okD(1,2) [OF repo_invD(3) [OF inv] r] by simp_all
  then have "r_terminal_at r = None"
    using del by (auto simp: record_inv_def terminal_def deliverable_def)
  note alive = this
  show ?thesis
    using inv L q(1)
  proof (cases rule: perform_cases)
    case (created b a cl co snap)
    then show ?thesis using create_success(10) [OF created(2)] r by auto
  next
    case (stepped j)
    show ?thesis
    proof (cases "j = k")
      case True
      then show ?thesis
        using operations_keep_result [OF r key committed] stepped(1,2) q(2)
        by (simp add: keeps_result_def)
    next
      case False
      then show ?thesis
        using op_effect_other [OF stepped(4) repo_invD(3) [OF inv]] r by auto
    qed
  next
    case (expired m ids)
    note ok = expire_sweep [OF inv expired(2)]
    show ?thesis
      using expire_loop_keeps_result [OF inv ok(4) r committed] ok(2) by fastforce
  next
    case (collected m ids)
    note ok = garbage_collect_success [OF collected(2)]
    let ?s0 = "drop_tombstones (instant (c_now c)) (touch_all (instant (c_now c)) s)"
    have "map_of (p_records ?s0) k = Some (r\<lparr>r_last_seen := instant (c_now c)\<rparr>)"
      by (simp add: drop_tombstones_def touch_all_def map_of_map_vals r)
    then show ?thesis using gc_loop_record ok(6) alive by fastforce
  qed (use r in auto)
qed


lemma collect_deliverable:
  assumes inv: "repo_inv L s" and r: "map_of (p_records s) k = Some r"
    and del: "deliverable L (p_keys s) r validated json"
    and clock: "is_utc (c_now c)" "not_after s (instant (c_now c))"
  shows "fst (collect L k (r_collection_digest r) c s) = Inr (bundle_of r validated json)"
proof -
  have ok: "committed_bundle_ok (bundle_of r validated json)"
    unfolding bundle_of_def
    using record_bundle_ok [OF records_okD(2) [OF repo_invD(3) [OF inv] r]] del
    by (simp add: deliverable_def)
  have "utc (instant (c_now c)) = c_now c"
    using clock(1) by (cases "c_now c") (simp add: is_utc_def)
  then have "validated_record_now s r (c_now c) = Inr (instant (c_now c))"
    using clock_bounds_now(2) [OF repo_invD(4) [OF inv] clock(2) r] by simp
  then show ?thesis
    using r del deliverable_result [OF del] ok
    by (auto simp: collect_def get_record_def require_credential_def deliverable_def bundle_of_def
        observe_time_def)
qed

lemma run_keeps_result:
  assumes "repo_inv L s" "lib_ok L" "requests_ok qs"
    "list_all (\<lambda>(c, q). \<forall>d. q \<noteq> Acknowledge k d) qs"
    "map_of (p_records s) k = Some r" "deliverable L (p_keys s) r validated json"
  shows "\<exists>r'. map_of (p_records (run L qs s)) k = Some r' \<and>
    deliverable L (p_keys (run L qs s)) r' validated json \<and>
    r_collection_digest r' = r_collection_digest r \<and>
    bundle_of r' validated json = bundle_of r validated json"
  using assms
proof (induction L qs s arbitrary: r rule: run.induct)
  case (2 L c q qs s)
  obtain r' where r': "map_of (p_records (snd (perform L c q s))) k = Some r'" "redelivered r r'"
    using perform_keeps_result [OF "2.prems"(1,2) _ _ "2.prems"(5,6), of c q] "2.prems"(3,4)
    by force
  have keys: "p_keys (snd (perform L c q s)) = p_keys s"
    using perform_frame [OF "2.prems"(1,2)] "2.prems"(3) by simp
  have "repo_inv L (snd (perform L c q s))"
    using perform_inv [OF "2.prems"(1,2)] "2.prems"(3) by simp
  then show ?case
    using "2.IH" [OF _ "2.prems"(2) _ _ r'(1)] "2.prems"(3,4)
      redelivered_deliverable [OF r'(2) "2.prems"(6)] keys by auto
qed simp

text \<open>
  Collection is idempotent until it is acknowledged: whatever requests run in between
  (other collections, sweeps, snapshots, attempts to claim, stage, commit or abandon), as long
  as none of them acknowledges this mailbox, a collection with the collection credential and a
  usable clock returns the same bundle.
\<close>

theorem collection_until_acknowledged:
  assumes "lib_ok L" and "reachable L s" and "map_of (p_records s) k = Some r"
    and "deliverable L (p_keys s) r validated json"
    and "requests_ok qs" and "list_all (\<lambda>(c, q). \<forall>d. q \<noteq> Acknowledge k d) qs"
    and "is_utc (c_now c)" and "not_after (run L qs s) (instant (c_now c))"
  shows "fst (collect L k (r_collection_digest r) c (run L qs s)) = Inr (bundle_of r validated json)"
proof -
  have inv: "repo_inv L s" by (rule reachable_inv [OF assms(2,1)])
  obtain r' where r': "map_of (p_records (run L qs s)) k = Some r'"
    "deliverable L (p_keys (run L qs s)) r' validated json"
    "r_collection_digest r' = r_collection_digest r"
    "bundle_of r' validated json = bundle_of r validated json"
    using run_keeps_result [OF inv assms(1,5,6,3,4)] by blast
  show ?thesis
    using collect_deliverable [OF run_inv [OF inv assms(1,5)] r'(1,2) assms(7,8)] r'(3,4) by simp
qed

lemma sample_deliverable:
  "deliverable toy_lib (p_keys (sample_state 5)) (sample_rec 5) [(sid 5, sample_evidence)] sample_json"
  using sample_material_5(1)
  by (simp add: deliverable_def sample_state_keys) (simp add: sample_rec_def fresh_record_def Let_def)

theorem collection_until_acknowledged_witness:
  "fst (collect toy_lib (sid 9) (r_collection_digest (sample_rec 5)) (at_time 8)
     (run toy_lib [(at_time 6, collect_q)] (sample_state 5)))
   = Inr \<lparr>cb_binding = sample_binding, cb_result_json = sample_json, cb_evidence = [sample_evidence]\<rparr>"
proof -
  have r: "map_of (p_records (sample_state 5)) (sid 9) = Some (sample_rec 5)"
    by (simp add: sample_state_def)
  have "run toy_lib [(at_time 6, collect_q)] (sample_state 5) = sample_state 6"
    using sample_collect by simp
  then have late: "not_after (run toy_lib [(at_time 6, collect_q)] (sample_state 5)) (instant (c_now (at_time 8)))"
    by (simp add: sample_state_def)
  have "r_binding (sample_rec 5) = sample_binding"
    by (simp add: sample_rec_def fresh_record_def Let_def)
  then show ?thesis
    using collection_until_acknowledged [OF toy_lib_ok sample_reachable(6) r sample_deliverable,
        of "[(at_time 6, collect_q)]" "at_time 8"] late sample_requests_ok(6)
    by (simp add: bundle_of_def collect_q_def)
qed

lemma commit_success:
  assumes ok: "commit_result L b d json seals c s = (Inr snap, s')"
    and inv: "repo_inv L s" and L: "lib_ok L" and q: "request_ok c (Commit b d json seals)"
  defines "k \<equiv> b_mailbox_id b" and "now \<equiv> instant (c_now c)"
  obtains r r' validated where "map_of (p_records s) k = Some r" "r_binding r = b"
    "r_state r = S_CLAIMED_ONCE" "r_result_digest r = Some d" "now < instant (b_deadline_utc b)"
    "validated_record_material L (p_keys s) r = Inr (validated, None)"
    "list_all (seal_matches validated) seals" "set (map es_object_id seals) = keys validated"
    "map_of (p_records s') k = Some r'" "deliverable L (p_keys s) r' validated json"
    "r_collection_digest r' = r_collection_digest r" "r_binding r' = b" "p_keys s' = p_keys s"
proof -
  obtain r validated x n where r: "map_of (p_records s) k = Some r" "r_binding r = b"
      "r_state r = S_CLAIMED_ONCE" "r_result_digest r = Some d"
    and v: "validated_record_material L (p_keys s) r = Inr (validated, x)"
    and n: "validated_record_now s r (c_now c) = Inr n"
    and rest: "(let (due, r1, s1) = expire_if_due n (r, s);
           referenced = set (map es_object_id seals); staged = keys (r_evidence r);
           response = len json + record_evidence_bytes r
       in if due then deny EXPIRED (put_record r1 s1)
          else if referenced - staged \<noteq> {} then deny EVIDENCE_MISSING s
          else if staged - referenced \<noteq> {} then deny EVIDENCE_UNREFERENCED s
          else if \<not> list_all (seal_matches validated) seals then deny DIGEST_MISMATCH s
          else if response > b_response_bytes (r_binding r) then deny EVIDENCE_LIMIT s
          else if p_committed s + response > max_total_committed_bytes (p_limits s)
            then deny QUOTA_EXCEEDED s
          else
            let w = wrap_result L (p_keys s) (c_nonce c) (r_binding r) json
            in attempt (validate_result_references L (r_binding r) json validated) s (\<lambda>_.
               attempt (build_committed_manifest L (p_keys s) (r_binding r) (map fst validated) w) s
                 (\<lambda>manifest.
                 if c_crash c BEFORE_RESULT_COMMIT then (Inl (Crashed BEFORE_RESULT_COMMIT), s)
                 else
                   let (r2, s2) = observe_time n
                         (r\<lparr>r_result := Some w, r_manifest := Some manifest,
                            r_state := S_RESULT_COMMITTED, r_collection := C_READY,
                            r_result_digest := None, r_committed_at := Some n\<rparr>, s);
                       s3 = put_record r2 (s2\<lparr>p_committed := p_committed s2 + response\<rparr>)
                   in if c_crash c AFTER_RESULT_COMMIT then (Inl (Crashed AFTER_RESULT_COMMIT), s3)
                      else (Inr (snapshot_of r2), s3)))) = (Inr snap, s')"
    using ok unfolding commit_result_def k_def
    by (auto simp: attempt_Inr get_record_Inr require_result_access_Inr)
  have now: "n = now" unfolding now_def by (rule validated_record_now_Inr(4) [OF n])
  have x: "x = None" using validated_record_material_uncommitted(5) [OF v] r(3) by simp
  obtain r1 s1 where e: "expire_if_due n (r, s) = (False, r1, s1)"
    using rest by (auto simp: Let_def split: prod.splits if_splits)
  have before: "now < instant (b_deadline_utc b)"
    using expire_if_due_False [OF e] r(2,3) now by (simp add: deadline_of_def)
  let ?w = "wrap_result L (p_keys s) (c_nonce c) (r_binding r) json"
  obtain m where refs: "validate_result_references L (r_binding r) json validated = Inr ()"
    and m: "build_committed_manifest L (p_keys s) (r_binding r) (map fst validated) ?w = Inr m"
    and seals: "list_all (seal_matches validated) seals"
      "set (map es_object_id seals) = keys (r_evidence r)"
    and s': "s' = put_record (r\<lparr>r_result := Some ?w, r_manifest := Some m,
        r_state := S_RESULT_COMMITTED, r_collection := C_READY, r_result_digest := None,
        r_committed_at := Some now, r_last_seen := now\<rparr>)
        ((advance_installation_time now s)\<lparr>p_committed := p_committed s + (len json + record_evidence_bytes r)\<rparr>)"
    using rest e unfolding now
    by (auto simp: Let_def attempt_Inr observe_time_def split: if_splits prod.splits)
  let ?r' = "r\<lparr>r_result := Some ?w, r_manifest := Some m, r_state := S_RESULT_COMMITTED,
    r_collection := C_READY, r_result_digest := None, r_committed_at := Some now, r_last_seen := now\<rparr>"
  have mat: "validated_record_material L (p_keys s) ?r' = Inr (validated, Some json)"
    using committed_validates [OF L _ _ v r(3) refs refl m refl] q by simp
  have "keys validated = keys (r_evidence r)"
    using validated_evidence_slots_Inr(2) [OF validated_material_evidence [OF v]]
    by (metis fst_conv image_set)
  then show thesis
    using that [of r validated ?r'] r before v x seals mat r(2)
    by (simp add: s' put_record_def k_def deliverable_def)
qed

text \<open>
  C8.  What is committed is what is collected: after a successful commit, a collection with
  the mailbox's collection credential and a usable clock returns the committed result bytes and
  the evidence uploads that authenticated when the result was committed, and every seal of the
  result names one of them.
\<close>

theorem committed_result_is_collected:
  assumes "lib_ok L" and "reachable L s" and "request_ok c (Commit b d json seals)"
    and "commit_result L b d json seals c s = (Inr snap, s')"
    and "is_utc (c_now c')" and "instant (c_now c) \<le> instant (c_now c')"
  shows "\<exists>r validated. map_of (p_records s) (b_mailbox_id b) = Some r \<and>
    validated_record_material L (p_keys s) r = Inr (validated, None) \<and>
    set (map es_object_id seals) = keys validated \<and> list_all (seal_matches validated) seals \<and>
    fst (collect L (b_mailbox_id b) (r_collection_digest r) c' s')
      = Inr \<lparr>cb_binding = b, cb_result_json = json, cb_evidence = map snd validated\<rparr>"
proof -
  have inv: "repo_inv L s" by (rule reachable_inv [OF assms(2,1)])
  have s': "s' = snd (perform L c (Commit b d json seals) s)" by (simp add: assms(4))
  have inv': "repo_inv L s'" unfolding s' by (rule perform_inv [OF inv assms(1,3)])
  obtain r r' validated where r: "map_of (p_records s) (b_mailbox_id b) = Some r"
    "validated_record_material L (p_keys s) r = Inr (validated, None)"
    "set (map es_object_id seals) = keys validated" "list_all (seal_matches validated) seals"
    and r': "map_of (p_records s') (b_mailbox_id b) = Some r'"
      "deliverable L (p_keys s') r' validated json" "r_binding r' = b"
      "r_collection_digest r' = r_collection_digest r"
    using commit_success [OF assms(4) inv assms(1,3)] by metis
  have "not_after s' (instant (c_now c'))"
    using perform_frame [OF inv assms(1,3)] assms(6) r(1,2) r'(1,2) unfolding s' [symmetric]
    by (auto simp: deliverable_def)
  then show ?thesis
    using collect_deliverable [OF inv' r'(1,2) assms(5)] r r'(3,4) by (auto simp: bundle_of_def)
qed

theorem committed_result_is_collected_witness:
  "\<exists>r. map_of (p_records (sample_state 4)) (sid 9) = Some r \<and>
     fst (collect toy_lib (sid 9) (r_collection_digest r) (at_time 6) (sample_state 5))
     = Inr \<lparr>cb_binding = sample_binding, cb_result_json = sample_json, cb_evidence = [sample_evidence]\<rparr>"
proof -
  have "commit_result toy_lib sample_binding [4] sample_json sample_seals (at_time 5) (sample_state 4)
      = (Inr (snapshot_of (sample_rec 5)), sample_state 5)"
    using sample_commit by (auto simp: commit_q_def reply_of_def prod_eq_iff split: sum.splits)
  from committed_result_is_collected [OF toy_lib_ok sample_reachable(5) _ this, of "at_time 6"]
  obtain r validated where "map_of (p_records (sample_state 4)) (sid 9) = Some r"
    "validated_record_material toy_lib (p_keys (sample_state 4)) r = Inr (validated, None)"
    "fst (collect toy_lib (sid 9) (r_collection_digest r) (at_time 6) (sample_state 5))
     = Inr \<lparr>cb_binding = sample_binding, cb_result_json = sample_json, cb_evidence = map snd validated\<rparr>"
    using sample_requests_ok(5) [of 5] by (auto simp: commit_q_def)
  then show ?thesis
    using sample_material_4 by (auto simp: sample_state_def)
qed

end
