(* ===== verification/Mailbox_Sweeps.thy ===== *)
theory Mailbox_Sweeps
  imports Mailbox_Collection "HOL-Library.Multiset"
begin

text \<open>
  The two maintenance sweeps of the volatile repository.  Expiry visits every record once and
  closes exactly the live records whose deadline has passed; garbage collection replaces
  records that have been terminal long enough by tombstones, oldest first, and removes all of
  them when the tombstone table has room.
\<close>


section \<open>Expiry\<close>

definition overdue :: "int \<Rightarrow> mrec \<Rightarrow> bool" where
  "overdue now r \<longleftrightarrow> live r \<and> deadline_of r \<le> now"

definition swept :: "int \<Rightarrow> mrec \<Rightarrow> mrec \<Rightarrow> bool" where
  "swept now r r' =
     (if overdue now r then r_state r' = S_EXPIRED else r' = r\<lparr>r_last_seen := now\<rparr>)"

lemma expire_if_due_cases:
  "expire_if_due now (r, s) = (d, r1, s1) \<Longrightarrow>
     (d \<and> r_state r \<noteq> S_EXPIRED \<longleftrightarrow> overdue now r) \<and> (overdue now r \<longrightarrow> r_state r1 = S_EXPIRED) \<and>
     r_binding r1 = r_binding r \<and>
     (\<not> overdue now r \<longrightarrow> r1\<lparr>r_last_seen := now\<rparr> = r\<lparr>r_last_seen := now\<rparr>)"
  by (auto simp: overdue_def expire_if_due_def deadline_of_def observe_time_def clear_action_material_def
      clear_claim_delivery_material_def clear_result_digest_def release_record_payloads_def Let_def
      split: if_splits)

lemma expire_loop_visit:
  assumes inv: "repo_inv L s" and seen: "not_after s now" and r: "map_of (p_records s) k = Some r"
  obtains s' r' where
    "expire_loop now (k # ks) s acc
       = expire_loop now ks s' (if overdue now r then acc @ [k] else acc)"
    "op_effect L now k s s'" "map_of (p_records s') k = Some r'"
    "swept now r r'"
proof -
  obtain d r1 s1 where e: "expire_if_due now (r, s) = (d, r1, s1)"
    by (cases "expire_if_due now (r, s)") auto
  note visit = expire_visit [OF inv seen r e] and cs = expire_if_due_cases [OF e]
  have key: "b_mailbox_id (r_binding r) = k"
    by (rule records_okD(1) [OF repo_invD(3) [OF inv] r])
  show thesis
  proof (cases "overdue now r")
    case True
    then show thesis
      using that [of "put_record r1 s1" r1] visit(1) cs r e key by (auto simp: put_record_def swept_def)
  next
    case False
    let ?s' = "put_record (r1\<lparr>r_last_seen := now\<rparr>) (advance_installation_time now s1)"
    have "map_of (p_records ?s') k = Some (r\<lparr>r_last_seen := now\<rparr>)"
      using cs False key by (simp add: put_record_def)
    then show thesis
      using that [of ?s' "r\<lparr>r_last_seen := now\<rparr>"] visit(2) cs False r e
      by (auto simp: observe_time_def swept_def)
  qed
qed

lemma expire_loop_result:
  assumes "repo_inv L s" "not_after s now" "distinct ks"
  shows "snd (expire_loop now ks s acc)
      = acc @ filter (\<lambda>k. \<exists>r. map_of (p_records s) k = Some r \<and> overdue now r) ks \<and>
    (\<forall>k \<in> set ks. \<forall>r. map_of (p_records s) k = Some r \<longrightarrow>
       (\<exists>r'. map_of (p_records (fst (expire_loop now ks s acc))) k = Some r' \<and> swept now r r'))"
  using assms
proof (induction ks arbitrary: s acc)
  case (Cons j ks)
  show ?case
  proof (cases "map_of (p_records s) j")
    case None
    then show ?thesis using Cons by auto
  next
    case (Some rj)
    obtain s' r' where eq: "expire_loop now (j # ks) s acc
        = expire_loop now ks s' (if overdue now rj then acc @ [j] else acc)"
      and eff: "op_effect L now j s s'" and r': "map_of (p_records s') j = Some r'"
        "swept now rj r'"
      by (rule expire_loop_visit [OF Cons.prems(1,2) Some])
    have other: "map_of (p_records s') k = map_of (p_records s) k" if "k \<noteq> j" for k
      using op_effect_other [OF eff repo_invD(3) [OF Cons.prems(1)] that] .
    have notin: "j \<notin> set ks" using Cons.prems(3) by simp
    note inv' = op_effect_inv [OF Cons.prems(1) eff] op_effect_not_after [OF eff]
    let ?acc = "if overdue now rj then acc @ [j] else acc"
    have IH: "snd (expire_loop now ks s' ?acc)
        = ?acc @ filter (\<lambda>k. \<exists>r. map_of (p_records s') k = Some r \<and> overdue now r) ks"
      "\<And>k r. k \<in> set ks \<Longrightarrow> map_of (p_records s') k = Some r \<Longrightarrow>
         \<exists>r'. map_of (p_records (fst (expire_loop now ks s' ?acc))) k = Some r' \<and> swept now r r'"
      using Cons.IH [OF inv', of ?acc] Cons.prems(3) by auto
    have "filter (\<lambda>k. \<exists>r. map_of (p_records s') k = Some r \<and> overdue now r) ks
        = filter (\<lambda>k. \<exists>r. map_of (p_records s) k = Some r \<and> overdue now r) ks"
      using other notin by (intro filter_cong) (auto, metis+)
    then have ids: "snd (expire_loop now ks s' ?acc)
        = acc @ filter (\<lambda>k. \<exists>r. map_of (p_records s) k = Some r \<and> overdue now r) (j # ks)"
      using IH(1) Some by simp
    have "\<exists>x. map_of (p_records (fst (expire_loop now ks s' ?acc))) k = Some x \<and> swept now r x"
      if k: "k \<in> set (j # ks)" and r: "map_of (p_records s) k = Some r" for k r
    proof (cases "k = j")
      case True
      then show ?thesis
        using expire_loop_record [OF inv' _ r'(1), of ks ?acc] Cons.prems(3) notin r'(2) r Some by auto
    next
      case False
      then show ?thesis using IH(2) [of k r] k r other by simp
    qed
    then show ?thesis using ids unfolding eq by blast
  qed
qed simp

text \<open>
  The expiry sweep is exact: it returns, in order and without repetition, precisely the
  mailboxes that were live past their deadline; afterwards these are expired and every other
  record is unchanged but for the observed time, so no live record is past its deadline.
\<close>

theorem expire_is_exact:
  assumes "lib_ok L" and "reachable L s" and "expire L m c s = (Inr ids, s')"
  shows "sorted ids \<and> distinct ids \<and>
    set ids = {k. \<exists>r. map_of (p_records s) k = Some r \<and> overdue (instant (c_now c)) r} \<and>
    (\<forall>k r. map_of (p_records s) k = Some r \<longrightarrow>
       (\<exists>r'. map_of (p_records s') k = Some r' \<and>
         (if k \<in> set ids then r_state r' = S_EXPIRED
          else r' = r\<lparr>r_last_seen := instant (c_now c)\<rparr>)))"
proof -
  let ?now = "instant (c_now c)" and ?ks = "map fst (p_records s)"
  have inv: "repo_inv L s" by (rule reachable_inv [OF assms(2,1)])
  note ok = expire_sweep [OF inv assms(3)]
  have dist: "distinct ?ks" using repo_invD(8) [OF inv] by (simp add: wf_dict_def)
  have "ids = sort (snd (expire_loop ?now ?ks s []))"
    using assms(3) validated_installation_now_Inr(2)
    by (fastforce simp: expire_def attempt_Inr Let_def split: if_splits prod.splits)
  then have ids: "ids = sort (filter (\<lambda>k. \<exists>r. map_of (p_records s) k = Some r \<and> overdue ?now r) ?ks)"
    using expire_loop_result [OF inv ok(4) dist, of "[]"] by simp
  have mem: "k \<in> set ?ks" if "map_of (p_records s) k = Some r" for k r
    using map_of_SomeD [OF that] by force
  have set: "set ids = {k. \<exists>r. map_of (p_records s) k = Some r \<and> overdue ?now r}"
    using mem unfolding ids by auto
  have "\<exists>r'. map_of (p_records s') k = Some r' \<and>
      (if k \<in> set ids then r_state r' = S_EXPIRED else r' = r\<lparr>r_last_seen := ?now\<rparr>)"
    if r: "map_of (p_records s) k = Some r" for k r
  proof -
    have "k \<in> set ids \<longleftrightarrow> overdue ?now r" using r by (simp add: set)
    then show ?thesis
      using expire_loop_result [OF inv ok(4) dist, of "[]"] mem [OF r] r
      unfolding ok(2) advance_fields(1) swept_def by meson
  qed
  moreover have "sorted ids" "distinct ids" using ids dist by simp_all
  ultimately show ?thesis using set by blast
qed

theorem expire_is_exact_witness:
  "\<exists>s'. perform toy_lib (at_time 300) (Expire (replicate 32 9)) (sample_state 3)
     = (Inr (Ids [sid 9]), s') \<and> (\<exists>r'. map_of (p_records s') (sid 9) = Some r' \<and> r_state r' = S_EXPIRED)"
proof -
  have recs: "p_records (sample_state 3) = [(sid 9, sample_rec 3)]" by (simp add: sample_state_def)
  have m: "p_maintenance (sample_state 3) = replicate 32 9" by (simp add: sample_state_def)
  have "fst (expire toy_lib (replicate 32 9) (at_time 300) (sample_state 3)) = Inr [sid 9]"
    unfolding expire_def require_maintenance_def m sample_state_keys recs validate_all.simps
      sample_material(3) sum.case attempt_simps
    by (simp add: sample_state_defs)
  then have ok: "expire toy_lib (replicate 32 9) (at_time 300) (sample_state 3)
      = (Inr [sid 9], snd (expire toy_lib (replicate 32 9) (at_time 300) (sample_state 3)))"
    by (metis prod.collapse)
  have "\<exists>r'. map_of (p_records (snd (expire toy_lib (replicate 32 9) (at_time 300) (sample_state 3)))) (sid 9)
      = Some r' \<and> r_state r' = S_EXPIRED"
    using expire_is_exact [OF toy_lib_ok sample_reachable(4) ok, THEN conjunct2, THEN conjunct2,
        THEN conjunct2, rule_format, of "sid 9" "sample_rec 3"] recs by simp
  then show ?thesis using ok by (auto simp: reply_of_def prod_eq_iff split: sum.splits)
qed



section \<open>Garbage collection\<close>

declare gc_loop.simps(2) [simp del]

lemma length_update_mono: "length d \<le> length (AList.update k v d)"
  by (cases "map_of d k") (simp_all add: length_update_new length_update_old)

lemma gc_loop_tombstones_mono:
  "length (p_tombstones s) \<le> length (p_tombstones (fst (gc_loop now e ks s removed)))"
proof (induction ks arbitrary: s removed)
  case (Cons k ks)
  have "length (p_tombstones s) \<le> length (p_tombstones (remove now e k r s))" for r
    by (simp add: remove_def length_update_mono)
  then show ?case
    unfolding gc_loop_Cons using Cons.IH by (auto split: option.splits intro: order_trans)
qed simp

lemma gc_loop_full:
  "max_tombstones (p_limits s) \<le> len (p_tombstones s) \<Longrightarrow> gc_loop now e ks s removed = (s, removed)"
proof (induction ks)
  case (Cons k ks)
  then show ?case unfolding gc_loop_Cons by (auto split: option.splits)
qed simp

lemma gc_loop_append:
  "gc_loop now e (xs @ ys) s removed
   = gc_loop now e ys (fst (gc_loop now e xs s removed)) (snd (gc_loop now e xs s removed))"
proof (induction xs arbitrary: s removed)
  case (Cons k xs)
  then show ?case
    by (cases "map_of (p_records s) k") (auto simp: gc_loop_Cons)
qed simp

lemma gc_loop_other:
  "k \<notin> set ks \<Longrightarrow>
     map_of (p_records (fst (gc_loop now e ks s removed))) k = map_of (p_records s) k"
proof (induction ks arbitrary: s removed)
  case (Cons j ks)
  then show ?case unfolding gc_loop_Cons by (auto split: option.splits)
qed simp

lemma gc_loop_removed:
  "distinct ks \<Longrightarrow>
     snd (gc_loop now e ks s removed) = removed @ filter (\<lambda>k. map_of (p_records s) k \<noteq> None \<and>
       map_of (p_records (fst (gc_loop now e ks s removed))) k = None) ks"
proof (induction ks arbitrary: s removed)
  case (Cons j ks)
  show ?case
  proof (cases "map_of (p_records s) j")
    case None
    then show ?thesis using Cons by (simp add: gc_loop_Cons)
  next
    case (Some r)
    let ?rm = "remove now e j r s"
    have same: "filter (\<lambda>k. map_of (p_records ?rm) k \<noteq> None \<and>
        map_of (p_records (fst (gc_loop now e ks ?rm x))) k = None) ks
      = filter (\<lambda>k. map_of (p_records s) k \<noteq> None \<and>
        map_of (p_records (fst (gc_loop now e ks ?rm x))) k = None) ks" for x
      using Cons.prems by (intro filter_cong) auto
    have "map_of (p_records (fst (gc_loop now e ks ?rm x))) j = None" for x
      using gc_loop_other [of j ks now e ?rm x] Cons.prems by simp
    moreover have "map_of (p_records (fst (gc_loop now e ks s x))) j = Some r" for x
      using gc_loop_other [of j ks now e s x] Cons.prems Some by simp
    ultimately show ?thesis
      using Cons.IH [of ?rm "removed @ [j]"] Cons.IH [of s removed] Cons.prems Some same
      by (simp add: gc_loop_Cons)
  qed
qed simp

lemma gc_loop_visit_due:
  assumes "distinct (xs @ k # ys)" "map_of (p_records s) k = Some r" "due now s r"
    and "map_of (p_records (fst (gc_loop now e (xs @ k # ys) s removed))) k \<noteq> None"
  shows "gc_loop now e (xs @ k # ys) s removed = gc_loop now e xs s removed"
    and "max_tombstones (p_limits s) \<le> len (p_tombstones (fst (gc_loop now e xs s removed)))"
proof -
  obtain s1 rem1 where one: "gc_loop now e xs s removed = (s1, rem1)" by fastforce
  have r1: "map_of (p_records s1) k = Some r"
    using gc_loop_other [of k xs now e s removed] assms(1,2) one by simp
  have lim: "p_limits s1 = p_limits s" using gc_loop_constants [of now e xs s removed] one by simp
  have "\<not> len (p_tombstones s1) < max_tombstones (p_limits s1)"
  proof
    assume room: "len (p_tombstones s1) < max_tombstones (p_limits s1)"
    have "map_of (p_records (remove now e k r s1)) k = None" by simp
    then have "map_of (p_records (fst (gc_loop now e (k # ys) s1 rem1))) k = None"
      using room r1 assms(3) lim gc_loop_absent by (simp add: gc_loop_Cons)
    then show False using assms(4) one by (simp add: gc_loop_append)
  qed
  then have full: "max_tombstones (p_limits s1) \<le> len (p_tombstones s1)" by simp
  then show "max_tombstones (p_limits s) \<le> len (p_tombstones (fst (gc_loop now e xs s removed)))"
    by (simp add: one lim)
  show "gc_loop now e (xs @ k # ys) s removed = gc_loop now e xs s removed"
    using gc_loop_full [OF full] by (simp add: gc_loop_append one)
qed


lemma gc_order_props:
  assumes "wf_dict records"
  shows "set (gc_order now records) = keys records" "distinct (gc_order now records)"
    "sorted_wrt (\<lambda>j k. \<forall>r r'. map_of records j = Some r \<longrightarrow> map_of records k = Some r' \<longrightarrow>
       (case r_terminal_at r of None \<Rightarrow> now | Some t \<Rightarrow> t)
       \<le> (case r_terminal_at r' of None \<Rightarrow> now | Some t \<Rightarrow> t)) (gc_order now records)"
proof -
  let ?f = "\<lambda>(k, r). (case r_terminal_at r of None \<Rightarrow> now | Some t \<Rightarrow> t, k)"
  let ?xs = "sort_key ?f records"
  show "set (gc_order now records) = keys records" by (simp add: gc_order_def)
  have "mset (gc_order now records) = mset (map fst records)"
    unfolding gc_order_def by (metis mset_map mset_sort)
  then show "distinct (gc_order now records)"
    using assms unfolding wf_dict_def by (metis mset_eq_imp_distinct_iff)
  have "sorted (map ?f ?xs)" by simp
  then have "sorted_wrt (\<lambda>p q. ?f p \<le> ?f q) ?xs" by (simp add: sorted_map)
  then have "sorted_wrt (\<lambda>p q. p \<in> set records \<longrightarrow> q \<in> set records \<longrightarrow> ?f p \<le> ?f q) ?xs"
    by (rule sorted_wrt_mono_rel [rotated]) simp
  then show "sorted_wrt (\<lambda>j k. \<forall>r r'. map_of records j = Some r \<longrightarrow> map_of records k = Some r' \<longrightarrow>
       (case r_terminal_at r of None \<Rightarrow> now | Some t \<Rightarrow> t)
       \<le> (case r_terminal_at r' of None \<Rightarrow> now | Some t \<Rightarrow> t)) (gc_order now records)"
    unfolding gc_order_def sorted_wrt_map
  proof (rule sorted_wrt_mono_rel [rotated])
    fix p q
    assume p: "p \<in> set ?xs" and q: "q \<in> set ?xs"
      and le: "p \<in> set records \<longrightarrow> q \<in> set records \<longrightarrow> ?f p \<le> ?f q"
    obtain j r k r' where pq: "p = (j, r)" "q = (k, r')" by fastforce
    then have "map_of records j = Some r" "map_of records k = Some r'"
      using p q assms by (simp_all add: wf_dict_map_of)
    then show "\<forall>r r'. map_of records (fst p) = Some r \<longrightarrow> map_of records (fst q) = Some r' \<longrightarrow>
       (case r_terminal_at r of None \<Rightarrow> now | Some t \<Rightarrow> t)
       \<le> (case r_terminal_at r' of None \<Rightarrow> now | Some t \<Rightarrow> t)"
      using le p q pq by auto
  qed
qed

text \<open>
  Garbage collection is exact and bounded: it returns, in order and without repetition,
  the mailboxes it removed; each of them had been terminal for at least the retention time and
  is now covered by a tombstone that lives for the tombstone retention; and if the tombstone
  table is not full afterwards, no record that was due is left.
\<close>

theorem garbage_collect_is_exact:
  assumes "lib_ok L" and "reachable L s" and "garbage_collect L m c s = (Inr ids, s')"
  shows "sorted ids \<and> distinct ids \<and> set ids = keys (p_records s) - keys (p_records s') \<and>
    keys (p_records s') \<subseteq> keys (p_records s) \<and>
    (\<forall>k r. map_of (p_records s) k = Some r \<longrightarrow> k \<in> set ids \<longrightarrow> due (instant (c_now c)) s r \<and>
       map_of (p_tombstones s') k = Some \<lparr>t_created_at = instant (c_now c),
         t_expires_at = instant (c_now c) + tombstone_retention (p_limits s)\<rparr>) \<and>
    (len (p_tombstones s') < max_tombstones (p_limits s) \<longrightarrow>
       (\<forall>k r. map_of (p_records s) k = Some r \<longrightarrow> due (instant (c_now c)) s r \<longrightarrow> k \<in> set ids))"
proof -
  let ?now = "instant (c_now c)"
  let ?e = "?now + tombstone_retention (p_limits s)"
  let ?s0 = "drop_tombstones ?now (touch_all ?now s)"
  let ?ks = "gc_order ?now (p_records ?s0)"
  have inv: "repo_inv L s" by (rule reachable_inv [OF assms(2,1)])
  note ok = garbage_collect_success [OF assms(3)]
  have rec: "map_of (p_records ?s0) k = map_option (\<lambda>r. r\<lparr>r_last_seen := ?now\<rparr>) (map_of (p_records s) k)"
    for k by (simp add: drop_tombstones_def touch_all_def map_of_map_vals)
  have lim: "p_limits ?s0 = p_limits s" by (simp add: drop_tombstones_def touch_all_def)
  have wf: "wf_dict (p_records ?s0)"
    using repo_invD(8) [OF drop_tombstones_inv [OF touch_all_inv [OF inv ok(2)]]] .
  note order = gc_order_props(1,2) [OF wf, of ?now]
  have ids: "ids = sort (filter (\<lambda>k. map_of (p_records ?s0) k \<noteq> None \<and>
      map_of (p_records s') k = None) ?ks)"
    using ok(5,6) gc_loop_removed [OF order(2), of ?now ?e ?s0 "[]"] by simp
  have nokey: "map_of d k \<noteq> None \<longleftrightarrow> k \<in> keys d" for d :: "(uuid, mrec) dict" and k
    by (simp add: map_of_eq_None_iff)
  have k0: "keys (p_records ?s0) = keys (p_records s)"
    by (simp add: drop_tombstones_def touch_all_def)
  have set: "set ids = keys (p_records s) - keys (p_records s')"
  proof -
    have "set ids = {k \<in> set ?ks. map_of (p_records ?s0) k \<noteq> None \<and> map_of (p_records s') k = None}"
      unfolding ids by simp
    also have "\<dots> = {k. k \<in> keys (p_records s) \<and> k \<notin> keys (p_records s')}"
      unfolding order(1) nokey k0 map_of_eq_None_iff by blast
    finally show ?thesis by blast
  qed
  have sub: "keys (p_records s') \<subseteq> keys (p_records s)"
    using gc_loop_absent [of ?s0 _ ?now ?e ?ks "[]"] k0 unfolding ok(6)
    by (metis (no_types, lifting) nokey subsetI)
  have "due ?now s r \<and> map_of (p_tombstones s') k = Some \<lparr>t_created_at = ?now, t_expires_at = ?e\<rparr>"
    if r: "map_of (p_records s) k = Some r" and k: "k \<in> set ids" for k r
  proof -
    have "map_of (p_records s') k = None" using k set by (simp add: map_of_eq_None_iff)
    then show ?thesis
      using gc_loop_record [of ?s0 k "r\<lparr>r_last_seen := ?now\<rparr>" ?now ?e ?ks "[]"] r rec lim ok(6) by simp
  qed
  moreover have "k \<in> set ids"
    if room: "len (p_tombstones s') < max_tombstones (p_limits s)"
      and r: "map_of (p_records s) k = Some r" "due ?now s r" for k r
  proof (rule ccontr)
    assume "k \<notin> set ids"
    have kk: "k \<in> keys (p_records s)" using r(1) by (metis nokey option.distinct(1))
    then have kept: "map_of (p_records s') k \<noteq> None" using \<open>k \<notin> set ids\<close> set nokey by blast
    have "k \<in> set ?ks" using order(1) k0 kk by simp
    then obtain xs ys where split: "?ks = xs @ k # ys" by (meson split_list)
    have d: "distinct (xs @ k # ys)" using order(2) split by simp
    have r0: "map_of (p_records ?s0) k = Some (r\<lparr>r_last_seen := ?now\<rparr>)"
      "due ?now ?s0 (r\<lparr>r_last_seen := ?now\<rparr>)" using r rec lim by auto
    note full = gc_loop_visit_due [OF d r0, of ?e "[]"]
    show False using full room kept ok(6) split lim by simp
  qed
  moreover have "sorted ids" "distinct ids" using ids order(2) by simp_all
  ultimately show ?thesis using set sub by blast
qed

theorem garbage_collect_is_exact_witness:
  "set [sid 9] = keys (p_records (sample_state 7)) - keys (p_records sample_swept)"
proof -
  have "garbage_collect toy_lib (replicate 32 9) (at_time 604800000007) (sample_state 7)
      = (Inr [sid 9], sample_swept)"
    using sample_sweep by (auto simp: gc_q_def reply_of_def prod_eq_iff split: sum.splits)
  from garbage_collect_is_exact [OF toy_lib_ok sample_reachable(8) this] show ?thesis by blast
qed

text \<open>
  Garbage collection is fair: when the tombstone table cannot take every due record, the
  ones that are removed have been terminal at least as long as the ones that stay.
\<close>

theorem garbage_collect_oldest_first:
  assumes "lib_ok L" and "reachable L s" and "garbage_collect L m c s = (Inr ids, s')"
    and "map_of (p_records s) j = Some r" and "r_terminal_at r = Some t" and "j \<in> set ids"
    and "map_of (p_records s) k = Some r'" and "r_terminal_at r' = Some t'"
    and "due (instant (c_now c)) s r'" and "k \<notin> set ids"
  shows "t \<le> t'"
proof -
  let ?now = "instant (c_now c)"
  let ?e = "?now + tombstone_retention (p_limits s)"
  let ?s0 = "drop_tombstones ?now (touch_all ?now s)"
  let ?ks = "gc_order ?now (p_records ?s0)"
  have inv: "repo_inv L s" by (rule reachable_inv [OF assms(2,1)])
  note ok = garbage_collect_success [OF assms(3)]
  have rec: "map_of (p_records ?s0) i = map_option (\<lambda>r. r\<lparr>r_last_seen := ?now\<rparr>) (map_of (p_records s) i)"
    for i by (simp add: drop_tombstones_def touch_all_def map_of_map_vals)
  have lim: "p_limits ?s0 = p_limits s" by (simp add: drop_tombstones_def touch_all_def)
  have wf: "wf_dict (p_records ?s0)"
    using repo_invD(8) [OF drop_tombstones_inv [OF touch_all_inv [OF inv ok(2)]]] .
  note order = gc_order_props [OF wf, of ?now]
  have removed: "i \<in> set ids \<longleftrightarrow> map_of (p_records ?s0) i \<noteq> None \<and> map_of (p_records s') i = None"
    if "i \<in> set ?ks" for i
    using ok(5,6) gc_loop_removed [OF order(2), of ?now ?e ?s0 "[]"] that by simp
  have mem: "i \<in> set ?ks" if "map_of (p_records s) i = Some x" for i x
    using that order(1) rec [of i] by (metis keys_map_of option.simps(9))
  have kept: "map_of (p_records s') k \<noteq> None"
    using removed [OF mem [OF assms(7)]] assms(7,10) rec by auto
  have gone: "map_of (p_records s') j = None" using removed [OF mem [OF assms(4)]] assms(6) by simp
  obtain xs ys where split: "?ks = xs @ k # ys" using mem [OF assms(7)] by (meson split_list)
  have d: "distinct (xs @ k # ys)" using order(2) split by simp
  have r0: "map_of (p_records ?s0) k = Some (r'\<lparr>r_last_seen := ?now\<rparr>)"
    "due ?now ?s0 (r'\<lparr>r_last_seen := ?now\<rparr>)" using assms(7,9) rec lim by auto
  have "s' = fst (gc_loop ?now ?e xs ?s0 [])"
    using gc_loop_visit_due(1) [OF d r0, of ?e "[]"] kept ok(6) split by simp
  then have "j \<in> set xs"
    using gone gc_loop_other [of j xs ?now ?e ?s0 "[]"] assms(4) rec [of j] by force
  have "(case r_terminal_at (r\<lparr>r_last_seen := ?now\<rparr>) of None \<Rightarrow> ?now | Some t \<Rightarrow> t)
      \<le> (case r_terminal_at (r'\<lparr>r_last_seen := ?now\<rparr>) of None \<Rightarrow> ?now | Some t \<Rightarrow> t)"
    using order(3) \<open>j \<in> set xs\<close> r0(1) rec [of j] assms(4) unfolding split
    by (auto simp: sorted_wrt_append)
  then show ?thesis using assms(5,8) by simp
qed


text \<open>Two abandoned mailboxes and room for one tombstone.\<close>

definition tiny_repo :: repo where
  "tiny_repo = sample_repo\<lparr>p_limits := default_limits\<lparr>max_tombstones := 1\<rparr>\<rparr>"

definition second_binding :: action_binding where
  "second_binding = sample_binding\<lparr>b_mailbox_id := sid 10\<rparr>"

definition abandoned_rec :: "action_binding \<Rightarrow> bytes \<Rightarrow> bytes \<Rightarrow> bytes \<Rightarrow> int \<Rightarrow> int \<Rightarrow> mrec" where
  "abandoned_rec b x y z created ended =
     (fresh_record b x y z created)\<lparr>r_last_seen := ended, r_state := S_ABANDONED,
       r_terminal_at := Some ended\<rparr>"

definition tiny_full :: repo where
  "tiny_full = tiny_repo\<lparr>p_records := [(sid 9, abandoned_rec sample_binding [1] [2] [3] 1 3),
     (sid 10, abandoned_rec second_binding [11] [12] [13] 2 4)], p_last_seen := Some 4\<rparr>"

lemma second_binding_fields [simp]:
  "b_mailbox_id second_binding = sid 10" "b_claim_deadline_utc second_binding = utc 100"
  by (simp_all add: second_binding_def)

lemma fresh_material:
  "validated_record_material L K (fresh_record b x y z n) = Inr ([], None)"
  "validated_record_material L K (abandoned_rec b x y z n e) = Inr ([], None)"
  by (simp_all add: fresh_record_def abandoned_rec_def validated_record_material_def
      validated_evidence_slots_def)

lemma tiny_reachable: "reachable toy_lib tiny_full"
proof -
  let ?qs = "[(at_time 1, create_q), (at_time 2, Create second_binding [11] [12] [13]),
    (at_time 3, Abandon (sid 9) [3]), (at_time 4, Abandon (sid 10) [13])]"
  have "mailbox_limits_ok (default_limits\<lparr>max_tombstones := 1\<rparr>)"
    by (simp add: mailbox_limits_ok_def default_limits_def)
  moreover have "new_repo toy_lib (replicate 32 9) (default_limits\<lparr>max_tombstones := 1\<rparr>) (zeros 32)
      = Inr tiny_repo"
    by (simp add: new_repo_def tiny_repo_def sample_repo_def zeros_def)
  ultimately have "reachable toy_lib tiny_repo" by (intro reachable.init)
  moreover have "action_binding_ok second_binding"
    using sample_binding_ok uuid4_sid [of 10] by (simp add: action_binding_ok_def second_binding_def)
  then have "requests_ok ?qs" using sample_requests_ok by simp
  moreover have ne: "sid 9 \<noteq> sid 10" by (simp add: sid_inject)
  then have "run toy_lib ?qs tiny_repo = tiny_full"
    unfolding run.simps perform.simps create_q_def snd_reply_of
    by (simp add: create_def abandon_def sample_state_defs tiny_repo_def tiny_full_def
        abandoned_rec_def clear_action_material_def clear_result_digest_def
        validated_record_material_def validated_evidence_slots_def)
  ultimately show ?thesis using reachable_run by metis
qed


theorem garbage_collect_oldest_first_witness:
  "\<exists>s'. garbage_collect toy_lib (replicate 32 9) (at_time 604800000010) tiny_full = (Inr [sid 9], s')
     \<and> (3 :: int) \<le> 4"
proof -
  have ne: "sid 10 \<noteq> sid 9" "sid 9 \<noteq> sid 10" by (simp_all add: sid_inject)
  have fields: "p_maintenance tiny_full = replicate 32 9"
    "p_records tiny_full = [(sid 9, abandoned_rec sample_binding [1] [2] [3] 1 3),
       (sid 10, abandoned_rec second_binding [11] [12] [13] 2 4)]"
    by (simp_all add: tiny_full_def tiny_repo_def)
  have "fst (garbage_collect toy_lib (replicate 32 9) (at_time 604800000010) tiny_full) = Inr [sid 9]"
    unfolding garbage_collect_def require_maintenance_def fields validate_all.simps fresh_material
      sum.case attempt_simps
    using ne
    by (simp add: sample_state_defs gc_order_def discard_record_def clear_result_digest_def
        max_instant_def tiny_full_def tiny_repo_def abandoned_rec_def gc_loop.simps)
  then have ok: "garbage_collect toy_lib (replicate 32 9) (at_time 604800000010) tiny_full
      = (Inr [sid 9], snd (garbage_collect toy_lib (replicate 32 9) (at_time 604800000010) tiny_full))"
    by (metis prod.collapse)
  have "(3 :: int) \<le> 4"
    by (rule garbage_collect_oldest_first [OF toy_lib_ok tiny_reachable ok, of "sid 9"
          "abandoned_rec sample_binding [1] [2] [3] 1 3" 3 "sid 10"
          "abandoned_rec second_binding [11] [12] [13] 2 4" 4])
      (use ne in \<open>simp_all add: fields abandoned_rec_def tiny_full_def tiny_repo_def
        default_limits_def\<close>)
  then show ?thesis using ok by blast
qed

end
