(* ===== verification/Connector_Manifest.thy ===== *)
theory Connector_Manifest
  imports Connector_Result
begin

text \<open>
  The declaration half of the connector wire protocol
  (\<^verbatim>\<open>connector_protocol/manifest.py\<close> and \<^verbatim>\<open>connector_protocol/protocol.py\<close>):
  exact HTTPS origins, connector manifests and action envelopes, each as a record with the
  boolean predicate its pydantic validators compute.  The part of \<^verbatim>\<open>urllib.parse\<close> the
  origin check relies on is written out for the strings that reach it.
\<close>


section \<open>URL splitting\<close>

record split_result =
  u_scheme :: string
  u_netloc :: string
  u_path :: string
  u_query :: string
  u_fragment :: string

definition before :: "char \<Rightarrow> string \<Rightarrow> string" where
  "before c s = takeWhile (\<lambda>x. x \<noteq> c) s"

definition after :: "char \<Rightarrow> string \<Rightarrow> string" where
  "after c s = drop 1 (dropWhile (\<lambda>x. x \<noteq> c) s)"

definition after_last :: "char \<Rightarrow> string \<Rightarrow> string" where
  "after_last c s = rev (before c (rev s))"

text \<open>
  \<^verbatim>\<open>urlsplit\<close>: strip leading control characters and blanks, drop tabs and line ends, split
  off a scheme, then the network location up to the first of \<^verbatim>\<open>/?#\<close>, then fragment and query.
  A bracket in the network location is either an error or an address literal; no bracketed
  location is a host name, so both are the error \<open>None\<close>.
\<close>

definition strip_control :: "string \<Rightarrow> string" where
  "strip_control s =
     filter (\<lambda>c. (of_char c :: nat) \<notin> {9, 10, 13}) (dropWhile (\<lambda>c. (of_char c :: nat) \<le> 32) s)"

definition scheme_chars :: string where
  "scheme_chars = lower @ upper @ digits @ ''+-.''"

definition urlsplit :: "string \<Rightarrow> split_result option" where
  "urlsplit v =
     (let url = strip_control v; s = before CHR '':'' url;
          has_scheme = (CHR '':'' \<in> set url \<and> s \<noteq> [] \<and> hd s \<in> set (lower @ upper) \<and>
                        set s \<subseteq> set scheme_chars);
          scheme = (if has_scheme then s else []);
          rest = (if has_scheme then after CHR '':'' url else url);
          has_netloc = (take 2 rest = ''//'');
          netloc = (if has_netloc then takeWhile (\<lambda>c. c \<notin> set ''/?#'') (drop 2 rest) else []);
          tail = (if has_netloc then dropWhile (\<lambda>c. c \<notin> set ''/?#'') (drop 2 rest) else rest);
          fragment = (if CHR ''#'' \<in> set tail then after CHR ''#'' tail else []);
          tail2 = before CHR ''#'' tail;
          query = (if CHR ''?'' \<in> set tail2 then after CHR ''?'' tail2 else []);
          path = before CHR ''?'' tail2
      in if CHR ''['' \<in> set netloc \<or> CHR '']'' \<in> set netloc then None
         else Some \<lparr>u_scheme = scheme, u_netloc = netloc, u_path = path, u_query = query,
                    u_fragment = fragment\<rparr>)"

definition u_hostinfo :: "split_result \<Rightarrow> string" where
  "u_hostinfo u = after_last CHR ''@'' (u_netloc u)"

definition u_hostname :: "split_result \<Rightarrow> string option" where
  "u_hostname u = (let h = before CHR '':'' (u_hostinfo u) in if h = [] then None else Some h)"

text \<open>\<^verbatim>\<open>SplitResult.port\<close>: \<open>None\<close> is its \<^verbatim>\<open>ValueError\<close>, \<open>Some None\<close> a missing port.\<close>

definition u_port :: "split_result \<Rightarrow> nat option option" where
  "u_port u =
     (let p = after CHR '':'' (u_hostinfo u)
      in if p = [] then Some None
         else if set p \<subseteq> set digits then
           (if read_nat 0 p \<le> 65535 then Some (Some (read_nat 0 p)) else None)
         else None)"

definition is_lower_ascii :: "string \<Rightarrow> bool" where
  "is_lower_ascii v \<longleftrightarrow> set v \<inter> set upper = {} \<and> list_all (\<lambda>c. (of_char c :: nat) < 128) v"

definition validate_https_origin :: "string \<Rightarrow> string option" where
  "validate_https_origin v =
     (if \<not> is_lower_ascii v \<or> CHR ''*'' \<in> set v then None
      else case urlsplit v of
        None \<Rightarrow> None
      | Some u \<Rightarrow>
          if u_scheme u \<noteq> ''https'' then None
          else (case u_hostname u of
            None \<Rightarrow> None
          | Some host \<Rightarrow>
              if CHR ''@'' \<in> set (u_netloc u) then None
              else if u_path u \<noteq> [] \<or> u_query u \<noteq> [] \<or> u_fragment u \<noteq> [] then None
              else if \<not> validate_hostname host then None
              else (case u_port u of
                None \<Rightarrow> None
              | Some port \<Rightarrow>
                  if port = Some 0 then None
                  else
                    let netloc = (case port of
                                    None \<Rightarrow> host
                                  | Some p \<Rightarrow> if p \<noteq> 443 then host @ '':'' @ show_nat p else host);
                        canonical = ''https://'' @ netloc
                    in if v \<noteq> canonical then None else Some canonical)))"


section \<open>What an accepted origin is\<close>

definition host_chars :: string where
  "host_chars = lower @ digits @ ''-.''"

lemma validate_hostname_chars:
  assumes "validate_hostname h"
  shows "set h \<subseteq> set host_chars" and "h \<noteq> []"
proof -
  have "set h \<subseteq> set (alphabet rx_host)"
    using assms fullmatch_alphabet by (simp add: validate_hostname_def)
  also have "set (alphabet rx_host) \<subseteq> set host_chars"
    by code_simp
  finally show "set h \<subseteq> set host_chars" .
  show "h \<noteq> []" using assms by (auto simp: validate_hostname_def)
qed

lemma show_nat_digits: "set (show_nat n) \<subseteq> set digits"
proof (induction n rule: show_nat.induct)
  case (1 n)
  have "list_all (\<lambda>d. char_of (48 + d) \<in> set digits) [0 :: nat, 1, 2, 3, 4, 5, 6, 7, 8, 9]"
    by code_simp
  then have digit: "char_of (48 + d) \<in> set digits" if "d < 10" for d :: nat
    using that by (auto simp: numeral_eq_Suc less_Suc_eq)
  show ?case
  proof (cases "n < 10")
    case True
    then show ?thesis using digit by (simp add: show_nat.simps [of n])
  next
    case False
    then show ?thesis using 1 digit [of "n mod 10"] by (simp add: show_nat.simps [of n])
  qed
qed

lemma show_nat_nonempty: "show_nat n \<noteq> []"
  by (cases "n < 10") (simp_all add: show_nat.simps [of n])


lemma url_chars_graphic:
  assumes "c \<in> set (host_chars @ '':/'')"
  shows "32 < (of_char c :: nat) \<and> (of_char c :: nat) < 128 \<and>
    c \<notin> set upper \<and> c \<noteq> CHR ''*'' \<and> c \<noteq> CHR ''?'' \<and> c \<noteq> CHR ''#'' \<and> c \<noteq> CHR ''['' \<and>
    c \<noteq> CHR '']'' \<and> c \<noteq> CHR ''@''"
proof -
  have "list_all (\<lambda>c. 32 < (of_char c :: nat) \<and> (of_char c :: nat) < 128 \<and>
    c \<notin> set upper \<and> c \<noteq> CHR ''*'' \<and> c \<noteq> CHR ''?'' \<and> c \<noteq> CHR ''#'' \<and> c \<noteq> CHR ''['' \<and>
    c \<noteq> CHR '']'' \<and> c \<noteq> CHR ''@'') (host_chars @ '':/'')"
    by code_simp
  then show ?thesis using assms unfolding list_all_iff by blast
qed

lemma strip_control_graphic:
  assumes "set s \<subseteq> set (host_chars @ '':/'')"
  shows "strip_control s = s"
proof -
  have g: "32 < (of_char c :: nat)" if "c \<in> set s" for c
    using url_chars_graphic assms that by blast
  then have "dropWhile (\<lambda>c. (of_char c :: nat) \<le> 32) s = s"
    by (metis dropWhile_eq_self_iff hd_in_set not_le)
  moreover have "filter (\<lambda>c. (of_char c :: nat) \<notin> {9, 10, 13}) s = s"
    using g by (intro filter_True) fastforce
  ultimately show ?thesis by (simp add: strip_control_def)
qed

lemma slash_not_host: "CHR ''/'' \<notin> set host_chars" "CHR '':'' \<notin> set host_chars"
  by code_simp+

lemma https_pieces:
  "before CHR '':'' (''https://'' @ n) = ''https''" "after CHR '':'' (''https://'' @ n) = ''//'' @ n"
  "CHR '':'' \<in> set (''https://'' @ n)"
  by (simp_all add: before_def after_def)

lemma https_scheme:
  "set ''https'' \<subseteq> set scheme_chars" "hd ''https'' \<in> set (lower @ upper)" "''https'' \<noteq> []"
  "set ''https://'' \<subseteq> set (host_chars @ '':/'')"
  by code_simp+

lemma origin_text_chars:
  assumes "set n \<subseteq> set (host_chars @ '':'')"
  shows "set (''https://'' @ n) \<subseteq> set (host_chars @ '':/'')"
proof -
  have "set n \<subseteq> set (host_chars @ '':/'')" using assms by auto
  then show ?thesis using https_scheme(4) unfolding set_append by blast
qed

lemma netloc_plain:
  assumes "set n \<subseteq> set (host_chars @ '':'')" and "c \<in> set n"
  shows "c \<notin> set ''/?#'' \<and> c \<noteq> CHR ''['' \<and> c \<noteq> CHR '']'' \<and> c \<noteq> CHR ''@''"
proof -
  have "c \<in> set (host_chars @ '':/'')" using assms by auto
  moreover have "c \<noteq> CHR ''/''" using assms slash_not_host by auto
  ultimately show ?thesis using url_chars_graphic by auto
qed

lemma urlsplit_origin:
  assumes n: "set n \<subseteq> set (host_chars @ '':'')"
  shows "urlsplit (''https://'' @ n)
    = Some \<lparr>u_scheme = ''https'', u_netloc = n, u_path = [], u_query = [], u_fragment = []\<rparr>"
proof -
  have strip: "strip_control (''https://'' @ n) = ''https://'' @ n"
    by (rule strip_control_graphic [OF origin_text_chars [OF n]])
  have "takeWhile (\<lambda>c. c \<notin> set ''/?#'') n = n" "dropWhile (\<lambda>c. c \<notin> set ''/?#'') n = []"
    using netloc_plain [OF n] unfolding takeWhile_eq_all_conv dropWhile_eq_Nil_conv by blast+
  note parts = this
  have brackets: "CHR ''['' \<notin> set n" "CHR '']'' \<notin> set n" using netloc_plain [OF n] by blast+
  have slashes: "take 2 (''//'' @ n) = ''//''" "drop 2 (''//'' @ n) = n" by simp_all
  show ?thesis
    unfolding urlsplit_def Let_def strip https_pieces
    using https_scheme https_pieces(3) [of n]
    by (simp only: simp_thms if_True slashes parts brackets) (simp add: before_def)
qed

lemma before_none: "c \<notin> set s \<Longrightarrow> before c s = s"
proof -
  assume "c \<notin> set s"
  then have "\<forall>x\<in>set s. x \<noteq> c" by blast
  then show ?thesis unfolding before_def takeWhile_eq_all_conv .
qed

lemma after_last_none: "c \<notin> set s \<Longrightarrow> after_last c s = s"
  using before_none [of c "rev s"] by (simp add: after_last_def)

lemma after_none: "c \<notin> set s \<Longrightarrow> after c s = []"
proof -
  assume "c \<notin> set s"
  then have "dropWhile (\<lambda>x. x \<noteq> c) s = []" unfolding dropWhile_eq_Nil_conv by blast
  then show ?thesis by (simp only: after_def drop_Nil)
qed

lemma split_at: "c \<notin> set s \<Longrightarrow> before c (s @ c # t) = s" "c \<notin> set s \<Longrightarrow> after c (s @ c # t) = t"
  unfolding before_def after_def by (induction s) auto

lemma option_cases_Some:
  "(case x of None \<Rightarrow> None | Some a \<Rightarrow> f a) = Some y \<Longrightarrow> \<exists>a. x = Some a \<and> f a = Some y"
  by (cases x) auto

lemma guard_Some: "(if b then None else x) = Some y \<Longrightarrow> \<not> b \<and> x = Some y"
  by (simp split: if_splits)

text \<open>The network location an accepted host and port are printed as.\<close>

definition print_netloc :: "string \<Rightarrow> nat option \<Rightarrow> string" where
  "print_netloc host port = (case port of
     None \<Rightarrow> host
   | Some p \<Rightarrow> if p \<noteq> 443 then host @ '':'' @ show_nat p else host)"

lemma validate_https_origin_Some:
  assumes "validate_https_origin v = Some c"
  obtains u host port where "u_port u = Some port" "validate_hostname host" "port \<noteq> Some 0"
    "v = ''https://'' @ print_netloc host port" "c = v"
proof -
  note a1 = assms [unfolded validate_https_origin_def Let_def]
  from option_cases_Some [OF conjunct2 [OF guard_Some [OF a1]]] obtain u where
    a2: "(if u_scheme u \<noteq> ''https'' then None
          else case u_hostname u of
            None \<Rightarrow> None
          | Some host \<Rightarrow>
              if CHR ''@'' \<in> set (u_netloc u) then None
              else if u_path u \<noteq> [] \<or> u_query u \<noteq> [] \<or> u_fragment u \<noteq> [] then None
              else if \<not> validate_hostname host then None
              else case u_port u of
                None \<Rightarrow> None
              | Some port \<Rightarrow>
                  if port = Some 0 then None
                  else if v \<noteq> ''https://'' @ print_netloc host port then None
                  else Some (''https://'' @ print_netloc host port)) = Some c"
    unfolding print_netloc_def by blast
  from option_cases_Some [OF conjunct2 [OF guard_Some [OF a2]]] obtain host where
    "(if CHR ''@'' \<in> set (u_netloc u) then None
      else if u_path u \<noteq> [] \<or> u_query u \<noteq> [] \<or> u_fragment u \<noteq> [] then None
      else if \<not> validate_hostname host then None
      else case u_port u of
        None \<Rightarrow> None
      | Some port \<Rightarrow>
          if port = Some 0 then None
          else if v \<noteq> ''https://'' @ print_netloc host port then None
          else Some (''https://'' @ print_netloc host port)) = Some c"
    by blast
  note a3 = guard_Some [OF conjunct2 [OF guard_Some [OF conjunct2 [OF guard_Some [OF this]]]]]
  from option_cases_Some [OF conjunct2 [OF a3]] obtain port where port: "u_port u = Some port"
    and "(if port = Some 0 then None
          else if v \<noteq> ''https://'' @ print_netloc host port then None
          else Some (''https://'' @ print_netloc host port)) = Some c"
    by blast
  note a4 = guard_Some [OF this(2)]
  note a5 = guard_Some [OF conjunct2 [OF a4]]
  then have "v = ''https://'' @ print_netloc host port" "c = v" by (blast, metis option.inject)
  then show ?thesis using that port a3 a4 by blast
qed

lemma u_port_bound: "u_port u = Some (Some p) \<Longrightarrow> p \<le> 65535"
  unfolding u_port_def Let_def by (metis option.distinct(1) option.inject)

lemma host_print_netloc:
  assumes "validate_hostname host"
  shows "set (print_netloc host port) \<subseteq> set (host_chars @ '':'')"
    and "before CHR '':'' (print_netloc host port) = host"
proof -
  note hc = validate_hostname_chars [OF assms]
  have colon: "CHR '':'' \<notin> set host" using hc(1) slash_not_host by blast
  have "set (show_nat p) \<subseteq> set host_chars" for p
    using show_nat_digits unfolding host_chars_def by fastforce
  then have "set (host @ '':'' @ show_nat p) \<subseteq> set (host_chars @ '':'')" for p
    using hc(1) by fastforce
  moreover have "set host \<subseteq> set (host_chars @ '':'')" using hc(1) by auto
  ultimately show "set (print_netloc host port) \<subseteq> set (host_chars @ '':'')"
    by (cases port) (simp_all only: print_netloc_def option.case split: if_split, blast+)
  show "before CHR '':'' (print_netloc host port) = host"
    by (simp add: print_netloc_def before_none [OF colon] split_at [OF colon] split: option.split)
qed

lemma origin_accepted:
  assumes host: "validate_hostname host" and n: "set n \<subseteq> set (host_chars @ '':'')"
    and h: "before CHR '':'' n = host"
    and p: "after CHR '':'' n = [] \<and> port = None \<or>
            after CHR '':'' n = show_nat q \<and> 0 < q \<and> q \<le> 65535 \<and> port = Some q"
    and pr: "n = print_netloc host port"
  shows "validate_https_origin (''https://'' @ n) = Some (''https://'' @ n)"
proof -
  let ?u = "\<lparr>u_scheme = ''https'', u_netloc = n, u_path = [], u_query = [], u_fragment = []\<rparr>"
  have chars: "set (''https://'' @ n) \<subseteq> set (host_chars @ '':/'')" by (rule origin_text_chars [OF n])
  then have low: "is_lower_ascii (''https://'' @ n)" "CHR ''*'' \<notin> set (''https://'' @ n)"
    using url_chars_graphic unfolding is_lower_ascii_def list_all_iff by blast+
  have at: "CHR ''@'' \<notin> set n" using netloc_plain [OF n] by blast
  have info: "u_hostinfo ?u = n" by (simp only: u_hostinfo_def split_result.simps after_last_none [OF at])
  have hn: "u_hostname ?u = Some host"
    unfolding u_hostname_def info h Let_def using validate_hostname_chars(2) [OF host] by simp
  have port: "u_port ?u = Some port" "port \<noteq> Some 0"
    using p unfolding u_port_def info Let_def
    by (auto simp only: show_nat_nonempty show_nat_digits read_show_nat if_True if_False option.inject simp_thms)
  show ?thesis
    unfolding validate_https_origin_def urlsplit_origin [OF n] option.case hn port Let_def
      pr [unfolded print_netloc_def, symmetric]
    using low at host port(2) by (simp only: split_result.simps simp_thms if_True if_False)
qed

lemma origin_printed:
  assumes host: "validate_hostname host"
    and port: "\<And>p. port = Some p \<Longrightarrow> 0 < p \<and> p \<le> 65535 \<and> p \<noteq> 443"
  shows "validate_https_origin (''https://'' @ print_netloc host port)
    = Some (''https://'' @ print_netloc host port)"
proof -
  have colon: "CHR '':'' \<notin> set host" using validate_hostname_chars(1) [OF host] slash_not_host by blast
  have "after CHR '':'' (print_netloc host port) = [] \<and> port = None \<or>
        after CHR '':'' (print_netloc host port) = show_nat (the port) \<and> 0 < the port \<and>
        the port \<le> 65535 \<and> port = Some (the port)"
    using port by (cases port) (simp_all add: print_netloc_def after_none [OF colon] split_at [OF colon])
  then show ?thesis
    by (rule origin_accepted [OF host host_print_netloc [OF host] _ refl])
qed

text \<open>
  C13.  The origin check accepts exactly the canonical HTTPS origins and returns them
  unchanged: \<^verbatim>\<open>https://\<close>, a canonical lowercase DNS host name, and optionally a colon and a
  decimal port between 1 and 65535 other than 443, written without leading zeros.
\<close>

theorem origin_accepted_iff:
  "validate_https_origin v = Some c \<longleftrightarrow>
     c = v \<and> (\<exists>host. validate_hostname host \<and>
       (v = ''https://'' @ host \<or>
        (\<exists>p. 0 < p \<and> p \<le> 65535 \<and> p \<noteq> 443 \<and> v = ''https://'' @ host @ '':'' @ show_nat p)))"
    (is "_ \<longleftrightarrow> ?R")
proof
  assume "validate_https_origin v = Some c"
  then obtain u host port where u: "u_port u = Some port" "validate_hostname host" "port \<noteq> Some 0"
    and v: "v = ''https://'' @ print_netloc host port" "c = v"
    by (rule validate_https_origin_Some)
  show ?R
  proof (cases "port = None \<or> port = Some 443")
    case True
    then have "print_netloc host port = host" by (auto simp: print_netloc_def)
    then show ?thesis using v u(2) by metis
  next
    case False
    then obtain p where p: "port = Some p" "p \<noteq> 443" by auto
    then have "print_netloc host port = host @ '':'' @ show_nat p" by (simp add: print_netloc_def)
    moreover have "0 < p" "p \<le> 65535" using u p u_port_bound by auto
    ultimately show ?thesis using v u(2) p(2) by metis
  qed
next
  assume R: ?R
  then obtain host where host: "validate_hostname host" and c: "c = v" and
    v: "v = ''https://'' @ host \<or>
        (\<exists>p. 0 < p \<and> p \<le> 65535 \<and> p \<noteq> 443 \<and> v = ''https://'' @ host @ '':'' @ show_nat p)"
    by blast
  show "validate_https_origin v = Some c"
    using v unfolding c
  proof (elim disjE exE conjE)
    assume v: "v = ''https://'' @ host"
    then show "validate_https_origin v = Some v"
      using origin_printed [OF host, of None] by (simp only: print_netloc_def option.case option.distinct simp_thms)
  next
    fix p assume p: "0 < p" "p \<le> 65535" "p \<noteq> 443" and v: "v = ''https://'' @ host @ '':'' @ show_nat p"
    have "print_netloc host (Some p) = host @ '':'' @ show_nat p"
      using p(3) by (simp add: print_netloc_def)
    then show "validate_https_origin v = Some v"
      using origin_printed [OF host, of "Some p"] p unfolding v by (metis option.inject)
  qed
qed


section \<open>Manifests\<close>

datatype transport = DECLARATIVE_HTTP | MAIL | BROWSER | GUIDED_MANUAL | PROTOCOL_API

definition max_capabilities :: int where "max_capabilities = 5"
definition max_transports :: int where "max_transports = 5"
definition max_origins :: int where "max_origins = 32"
definition max_disclosures :: int where "max_disclosures = 64"

text \<open>\<^verbatim>\<open>_SEMVER\<close>\<close>

definition rx_semver :: rx where
  "rx_semver = seqs
     [rx_number, lit ''.'', rx_number, lit ''.'', rx_number,
      opt (seqs [lit ''-'', rx_dotted]), opt (seqs [lit ''+'', rx_dotted])]"

definition slug_field :: "nat \<Rightarrow> string \<Rightarrow> bool" where
  "slug_field hi v \<longleftrightarrow> 1 \<le> length v \<and> length v \<le> hi \<and> fullmatch rx_slug v"

record runtime_boundary =
  rb_privileged :: bool
  rb_host_mounts :: "string list"
  rb_host_network :: bool
  rb_docker_socket :: bool
  rb_direct_network :: bool

definition runtime_boundary_ok :: "runtime_boundary \<Rightarrow> bool" where
  "runtime_boundary_ok b \<longleftrightarrow>
     \<not> rb_privileged b \<and> rb_host_mounts b = [] \<and> \<not> rb_host_network b \<and>
     \<not> rb_docker_socket b \<and> \<not> rb_direct_network b"

record disclosure_declaration =
  dd_attribute_type :: string
  dd_destination :: string
  dd_purpose :: string

definition disclosure_declaration_ok :: "disclosure_declaration \<Rightarrow> bool" where
  "disclosure_declaration_ok d \<longleftrightarrow>
     slug_field 64 (dd_attribute_type d) \<and>
     4 \<le> length (dd_destination d) \<and> length (dd_destination d) \<le> 253 \<and>
     validate_hostname (dd_destination d) \<and> slug_field 128 (dd_purpose d)"

record connector_manifest =
  cm_schema_version :: int
  cm_connector_id :: string
  cm_release_version :: string
  cm_broker_id :: string
  cm_source_digest :: string
  cm_artifact_digest :: string
  cm_capabilities :: "capability list"
  cm_transports :: "transport list"
  cm_allowed_origins :: "string list"
  cm_disclosures :: "disclosure_declaration list"
  cm_reviewed_at_utc :: datetime
  cm_expires_at_utc :: datetime
  cm_runtime_boundary :: runtime_boundary

text \<open>\<^verbatim>\<open>origins_are_exact_and_unique\<close>: every origin validates, and the validated tuple has no duplicate.\<close>

definition origins_are_exact_and_unique :: "string list \<Rightarrow> string list option" where
  "origins_are_exact_and_unique vs =
     (let validated = map validate_https_origin vs
      in if None \<in> set validated then None
         else if \<not> distinct (map the validated) then None
         else Some (map the validated))"

definition allowed_hosts :: "string list \<Rightarrow> string list" where
  "allowed_hosts origins = List.map_filter (\<lambda>w. Option.bind (urlsplit w) u_hostname) origins"

definition disclosures_are_unique :: "disclosure_declaration list \<Rightarrow> bool" where
  "disclosures_are_unique ds \<longleftrightarrow> distinct (map (\<lambda>d. (dd_attribute_type d, dd_destination d)) ds)"

definition expiry_follows_review :: "connector_manifest \<Rightarrow> bool" where
  "expiry_follows_review m \<longleftrightarrow>
     instant (cm_reviewed_at_utc m) < instant (cm_expires_at_utc m) \<and>
     list_all (\<lambda>d. dd_destination d \<in> set (allowed_hosts (cm_allowed_origins m))) (cm_disclosures m)"

definition connector_manifest_ok :: "connector_manifest \<Rightarrow> bool" where
  "connector_manifest_ok m \<longleftrightarrow>
     cm_schema_version m = 1 \<and>
     slug_field 64 (cm_connector_id m) \<and>
     5 \<le> length (cm_release_version m) \<and> length (cm_release_version m) \<le> 128 \<and>
     fullmatch rx_semver (cm_release_version m) \<and>
     slug_field 64 (cm_broker_id m) \<and>
     fullmatch rx_sha256 (cm_source_digest m) \<and> fullmatch rx_sha256 (cm_artifact_digest m) \<and>
     1 \<le> len (cm_capabilities m) \<and> len (cm_capabilities m) \<le> max_capabilities \<and>
     distinct (cm_capabilities m) \<and>
     1 \<le> len (cm_transports m) \<and> len (cm_transports m) \<le> max_transports \<and>
     distinct (cm_transports m) \<and>
     1 \<le> len (cm_allowed_origins m) \<and> len (cm_allowed_origins m) \<le> max_origins \<and>
     origins_are_exact_and_unique (cm_allowed_origins m) = Some (cm_allowed_origins m) \<and>
     len (cm_disclosures m) \<le> max_disclosures \<and>
     list_all disclosure_declaration_ok (cm_disclosures m) \<and>
     disclosures_are_unique (cm_disclosures m) \<and>
     is_utc (cm_reviewed_at_utc m) \<and> is_utc (cm_expires_at_utc m) \<and>
     runtime_boundary_ok (cm_runtime_boundary m) \<and>
     expiry_follows_review m"


section \<open>Action envelopes\<close>

definition max_wall_seconds :: int where "max_wall_seconds = 3600"
definition max_response_bytes :: int where "max_response_bytes = 67108864"
definition max_attributes :: int where "max_attributes = 64"

record sealed_attribute =
  sa_attribute_type :: string
  sa_ciphertext :: string

definition sealed_attribute_ok :: "sealed_attribute \<Rightarrow> bool" where
  "sealed_attribute_ok a \<longleftrightarrow>
     slug_field 64 (sa_attribute_type a) \<and> 1 \<le> len (sa_ciphertext a) \<and> len (sa_ciphertext a) \<le> 1048576"

record action_budget =
  ab_wall_seconds :: int
  ab_response_bytes :: int

definition action_budget_ok :: "action_budget \<Rightarrow> bool" where
  "action_budget_ok b \<longleftrightarrow>
     0 < ab_wall_seconds b \<and> ab_wall_seconds b \<le> max_wall_seconds \<and>
     0 < ab_response_bytes b \<and> ab_response_bytes b \<le> max_response_bytes"

record action_envelope =
  ae_action_id :: uuid
  ae_intent_id :: uuid
  ae_attempt_id :: uuid
  ae_fence :: int
  ae_authorization_epoch :: int
  ae_capability :: capability
  ae_connector_release :: string
  ae_profile_ref :: uuid
  ae_attributes :: "sealed_attribute list"
  ae_allowed_origins :: "string list"
  ae_deadline_utc :: datetime
  ae_attempt :: int
  ae_budget :: action_budget

definition action_envelope_ok :: "action_envelope \<Rightarrow> bool" where
  "action_envelope_ok a \<longleftrightarrow>
     uuid4 (ae_action_id a) \<and> uuid4 (ae_intent_id a) \<and> uuid4 (ae_attempt_id a) \<and>
     0 \<le> ae_fence a \<and> 0 \<le> ae_authorization_epoch a \<and>
     7 \<le> len (ae_connector_release a) \<and> len (ae_connector_release a) \<le> 193 \<and>
     fullmatch rx_connector_release (ae_connector_release a) \<and>
     uuid4 (ae_profile_ref a) \<and>
     len (ae_attributes a) \<le> max_attributes \<and>
     list_all sealed_attribute_ok (ae_attributes a) \<and> distinct (ae_attributes a) \<and>
     1 \<le> len (ae_allowed_origins a) \<and> len (ae_allowed_origins a) \<le> max_origins \<and>
     origins_are_exact_and_unique (ae_allowed_origins a) = Some (ae_allowed_origins a) \<and>
     is_utc (ae_deadline_utc a) \<and> 0 \<le> ae_attempt a \<and> action_budget_ok (ae_budget a)"


section \<open>What a manifest may disclose\<close>

lemma urlsplit_print_netloc:
  assumes "validate_hostname host"
  shows "Option.bind (urlsplit (''https://'' @ print_netloc host port)) u_hostname = Some host"
proof -
  note n = host_print_netloc [OF assms, of port]
  have at: "CHR ''@'' \<notin> set (print_netloc host port)" using netloc_plain [OF n(1)] by blast
  show ?thesis
    unfolding urlsplit_origin [OF n(1)] u_hostname_def u_hostinfo_def
    using validate_hostname_chars(2) [OF assms] n(2)
    by (simp only: split_result.simps after_last_none [OF at] bind.bind_lunit Let_def if_False)
qed

lemma origins_validated:
  assumes "origins_are_exact_and_unique vs = Some ws"
  shows "ws = vs" and "distinct vs"
    and "\<And>w. w \<in> set vs \<Longrightarrow> \<exists>host port. validate_hostname host \<and> w = ''https://'' @ print_netloc host port"
proof -
  note g1 = guard_Some [OF assms [unfolded origins_are_exact_and_unique_def Let_def]]
  note g2 = guard_Some [OF conjunct2 [OF g1]]
  have some: "\<exists>c. validate_https_origin w = Some c" if "w \<in> set vs" for w
    using g1 that by (metis image_eqI list.set_map not_None_eq)
  then have same: "the (validate_https_origin w) = w" if "w \<in> set vs" for w
    using that by (metis validate_https_origin_Some option.sel)
  then have eq: "map the (map validate_https_origin vs) = vs"
    unfolding map_map comp_def by (rule map_idI)
  then show "ws = vs" "distinct vs" using g2 by auto
  show "\<exists>host port. validate_hostname host \<and> w = ''https://'' @ print_netloc host port"
    if w: "w \<in> set vs" for w
    using some [OF w] validate_https_origin_Some by metis
qed

text \<open>
  A validated manifest confines disclosure: every declared destination is the host of one
  of the manifest's exact HTTPS origins, no attribute category is declared twice for one
  destination, and the review strictly precedes the expiry.
\<close>

theorem manifest_confines_disclosure:
  assumes "connector_manifest_ok m"
  shows "(\<forall>d \<in> set (cm_disclosures m). \<exists>w \<in> set (cm_allowed_origins m).
            w = ''https://'' @ dd_destination d \<or>
            (\<exists>p. w = ''https://'' @ dd_destination d @ '':'' @ show_nat p)) \<and>
         (\<forall>d \<in> set (cm_disclosures m). \<forall>e \<in> set (cm_disclosures m).
            dd_attribute_type d = dd_attribute_type e \<and> dd_destination d = dd_destination e \<longrightarrow> d = e) \<and>
         instant (cm_reviewed_at_utc m) < instant (cm_expires_at_utc m)"
proof -
  have origins: "origins_are_exact_and_unique (cm_allowed_origins m) = Some (cm_allowed_origins m)"
    and unique: "disclosures_are_unique (cm_disclosures m)"
    and review: "expiry_follows_review m"
    using assms unfolding connector_manifest_ok_def by blast+
  have "\<exists>w \<in> set (cm_allowed_origins m).
      w = ''https://'' @ dd_destination d \<or> (\<exists>p. w = ''https://'' @ dd_destination d @ '':'' @ show_nat p)"
    if "d \<in> set (cm_disclosures m)" for d
  proof -
    have "dd_destination d \<in> set (allowed_hosts (cm_allowed_origins m))"
      using review that unfolding expiry_follows_review_def list_all_iff by blast
    then obtain w where w: "w \<in> set (cm_allowed_origins m)"
      and host: "Option.bind (urlsplit w) u_hostname = Some (dd_destination d)"
      unfolding allowed_hosts_def List.map_filter_def by auto
    obtain h port where h: "validate_hostname h" "w = ''https://'' @ print_netloc h port"
      using origins_validated(3) [OF origins w] by blast
    then have "h = dd_destination d" using urlsplit_print_netloc host by (metis option.inject)
    then have "w = ''https://'' @ dd_destination d \<or>
        (\<exists>p. w = ''https://'' @ dd_destination d @ '':'' @ show_nat p)"
      unfolding h(2) print_netloc_def by (cases port) (simp_all only: option.case split: if_split, blast+)
    then show ?thesis using w by blast
  qed
  moreover have "d = e" if "d \<in> set (cm_disclosures m)" "e \<in> set (cm_disclosures m)"
    "dd_attribute_type d = dd_attribute_type e \<and> dd_destination d = dd_destination e" for d e
    using unique that unfolding disclosures_are_unique_def distinct_map by (blast dest: inj_onD)
  ultimately show ?thesis using review unfolding expiry_follows_review_def by blast
qed

definition repeated_digest :: "char \<Rightarrow> string" where
  "repeated_digest c = ''sha256:'' @ replicate 64 c"

definition demo_manifest :: connector_manifest where
  "demo_manifest =
     \<lparr>cm_schema_version = 1, cm_connector_id = ''demo'', cm_release_version = ''1.0.0'',
      cm_broker_id = ''acme'',
      cm_source_digest = repeated_digest (CHR ''0''),
      cm_artifact_digest = repeated_digest (CHR ''a''),
      cm_capabilities = [OBSERVE, SUBMIT], cm_transports = [DECLARATIVE_HTTP],
      cm_allowed_origins = [''https://a.example'', ''https://b.example:8443''],
      cm_disclosures = [\<lparr>dd_attribute_type = ''email'', dd_destination = ''b.example'',
                         dd_purpose = ''removal''\<rparr>],
      cm_reviewed_at_utc = utc 0, cm_expires_at_utc = utc 1,
      cm_runtime_boundary = \<lparr>rb_privileged = False, rb_host_mounts = [], rb_host_network = False,
                             rb_docker_socket = False, rb_direct_network = False\<rparr>\<rparr>"

lemma demo_manifest_patterns:
  "slug_field 64 ''demo''" "fullmatch rx_semver ''1.0.0''" "slug_field 64 ''acme''"
  "slug_field 64 ''email''" "slug_field 128 ''removal''" "validate_hostname ''a.example''" "validate_hostname ''b.example''"
  "fullmatch rx_sha256 (repeated_digest (CHR ''0''))"
  "fullmatch rx_sha256 (repeated_digest (CHR ''a''))"
  by code_simp+

lemma demo_manifest_printed:
  "''https://a.example'' = ''https://'' @ print_netloc ''a.example'' None"
  "''https://b.example:8443'' = ''https://'' @ print_netloc ''b.example'' (Some 8443)"
proof -
  have "char_of (56 :: nat) = CHR ''8''" "char_of (52 :: nat) = CHR ''4''" "char_of (51 :: nat) = CHR ''3''"
    by code_simp+
  then show "''https://a.example'' = ''https://'' @ print_netloc ''a.example'' None"
    "''https://b.example:8443'' = ''https://'' @ print_netloc ''b.example'' (Some 8443)"
    by (simp_all add: print_netloc_def show_nat.simps)
qed

lemma demo_manifest_origins:
  "origins_are_exact_and_unique [''https://a.example'', ''https://b.example:8443'']
     = Some [''https://a.example'', ''https://b.example:8443'']"
  "allowed_hosts [''https://a.example'', ''https://b.example:8443''] = [''a.example'', ''b.example'']"
proof -
  have accepted: "validate_https_origin ''https://a.example'' = Some ''https://a.example''"
    "validate_https_origin ''https://b.example:8443'' = Some ''https://b.example:8443''"
    unfolding demo_manifest_printed
    by (rule origin_printed; simp add: demo_manifest_patterns)+
  then show "origins_are_exact_and_unique [''https://a.example'', ''https://b.example:8443'']
     = Some [''https://a.example'', ''https://b.example:8443'']"
    by (simp add: origins_are_exact_and_unique_def)
  have "Option.bind (urlsplit ''https://a.example'') u_hostname = Some ''a.example''"
    "Option.bind (urlsplit ''https://b.example:8443'') u_hostname = Some ''b.example''"
    unfolding demo_manifest_printed
    by (rule urlsplit_print_netloc; simp add: demo_manifest_patterns)+
  then show "allowed_hosts [''https://a.example'', ''https://b.example:8443''] = [''a.example'', ''b.example'']"
    by (simp add: allowed_hosts_def List.map_filter_def)
qed

lemma demo_manifest_ok: "connector_manifest_ok demo_manifest"
  by (simp add: connector_manifest_ok_def demo_manifest_def demo_manifest_patterns
      demo_manifest_origins max_capabilities_def max_transports_def max_origins_def
      max_disclosures_def disclosure_declaration_ok_def disclosures_are_unique_def is_utc_def
      runtime_boundary_ok_def expiry_follows_review_def)

theorem manifest_confines_disclosure_witness:
  "\<exists>d \<in> set (cm_disclosures demo_manifest). \<exists>w \<in> set (cm_allowed_origins demo_manifest).
     w = ''https://'' @ dd_destination d \<or>
     (\<exists>p. w = ''https://'' @ dd_destination d @ '':'' @ show_nat p)"
  using manifest_confines_disclosure [OF demo_manifest_ok] by (simp add: demo_manifest_def)

end
