(* ===== verification/Mailbox_Service.thy ===== *)
theory Mailbox_Service
  imports Mailbox_Delivery Connector_Manifest
begin

text \<open>
  The validating service in front of a mailbox repository
  (\<^verbatim>\<open>services/runner_mailbox/service.py\<close> over the port of
  \<^verbatim>\<open>services/runner_mailbox/ports.py\<close>).  Every method validates its arguments and then makes
  at most one call to the repository, so a method is a computation of the repository request
  (or of the denial) followed by \<open>submit\<close>.  The repository is an argument of every method; the
  locale \<open>mailbox_repository\<close> states what the service needs of it and is interpreted on the
  volatile repository.
\<close>


section \<open>Result policy\<close>

fun results_by_capability :: "capability \<Rightarrow> result_code list" where
  "results_by_capability OBSERVE =
     [NO_CANDIDATE, CANDIDATE_OBSERVED, AMBIGUOUS_CANDIDATES, CHALLENGE, INCONCLUSIVE, FAILED]"
| "results_by_capability PREPARE = [PAYLOAD_PREPARED, CHALLENGE, INCONCLUSIVE, FAILED]"
| "results_by_capability SUBMIT =
     [TRANSPORT_RECEIPT, BROKER_ACKNOWLEDGED, BROKER_PROCESSING, BROKER_ASSERTED_COMPLETE,
      PARTIAL_RESPONSE, BROKER_DENIED, CHALLENGE, INCONCLUSIVE, FAILED]"
| "results_by_capability POLL =
     [BROKER_PROCESSING, BROKER_ASSERTED_COMPLETE, PARTIAL_RESPONSE, BROKER_DENIED, CHALLENGE,
      INCONCLUSIVE, FAILED]"
| "results_by_capability VERIFY =
     [NO_CANDIDATE, CANDIDATE_OBSERVED, AMBIGUOUS_CANDIDATES, BROKER_PROCESSING,
      BROKER_ASSERTED_COMPLETE, PARTIAL_RESPONSE, BROKER_DENIED, CHALLENGE, INCONCLUSIVE, FAILED]"

fun next_by_result :: "result_code \<Rightarrow> next_step_kind list" where
  "next_by_result NO_CANDIDATE = [N_NONE]"
| "next_by_result CANDIDATE_OBSERVED = [N_NONE, N_USER_REVIEW]"
| "next_by_result AMBIGUOUS_CANDIDATES = [N_USER_REVIEW]"
| "next_by_result PAYLOAD_PREPARED = [N_NONE, N_USER_REVIEW]"
| "next_by_result TRANSPORT_RECEIPT = [N_NONE]"
| "next_by_result BROKER_ACKNOWLEDGED = [N_NONE]"
| "next_by_result BROKER_PROCESSING = [N_NONE]"
| "next_by_result BROKER_ASSERTED_COMPLETE = [N_NONE, N_USER_REVIEW]"
| "next_by_result PARTIAL_RESPONSE = [N_NONE, N_USER_REVIEW]"
| "next_by_result BROKER_DENIED = [N_NONE, N_USER_REVIEW, N_REAUTHORIZE]"
| "next_by_result CHALLENGE = [N_USER_REVIEW, N_REAUTHORIZE]"
| "next_by_result INCONCLUSIVE = [N_NONE, N_USER_REVIEW]"
| "next_by_result FAILED = [N_NONE, N_USER_REVIEW, N_REAUTHORIZE]"


section \<open>The service and its ports\<close>

text \<open>
  \<open>pt_parse_action\<close>, \<open>pt_dump_action\<close> and \<open>pt_dump_result\<close> are pydantic's strict JSON decoding and
  its \<^verbatim>\<open>model_dump_json\<close> (decoding of results is \<^const>\<open>lib_parse_result\<close>); \<open>pt_digest\<close> is the
  credential digester.
\<close>

record ports =
  pt_lib :: lib
  pt_parse_action :: "bytes \<Rightarrow> action_envelope option"
  pt_dump_action :: "action_envelope \<Rightarrow> bytes"
  pt_dump_result :: "result_envelope \<Rightarrow> bytes"
  pt_digest :: "bytes \<Rightarrow> bytes"

text \<open>
  What the service relies on: decoding yields validated envelopes, and the compact JSON of a
  result envelope, all of whose fields are bounded, is never empty and fits its bound.
\<close>

definition ports_ok :: "ports \<Rightarrow> bool" where
  "ports_ok P \<longleftrightarrow>
     lib_ok (pt_lib P) \<and>
     (\<forall>j a. pt_parse_action P j = Some a \<longrightarrow> action_envelope_ok a) \<and>
     (\<forall>a. pt_dump_action P a \<noteq> []) \<and>
     (\<forall>r. result_envelope_ok r \<longrightarrow>
        pt_dump_result P r \<noteq> [] \<and> len (pt_dump_result P r) \<le> MAX_RESULT_ENVELOPE_BYTES)"

definition CREDENTIAL_CONTEXT :: bytes where
  "CREDENTIAL_CONTEXT = encode ''mycogni.runner-mailbox.credential.v1'' @ [0]"

definition sha256_credential_digest :: "lib \<Rightarrow> bytes \<Rightarrow> bytes" where
  "sha256_credential_digest L credential = lib_sha256 L (CREDENTIAL_CONTEXT @ credential)"

type_synonym 'st repository = "call \<Rightarrow> request \<Rightarrow> 'st \<Rightarrow> (mailbox_error + reply) \<times> 'st"

definition andthen :: "mailbox_error + 'a \<Rightarrow> ('a \<Rightarrow> mailbox_error + 'b) \<Rightarrow> mailbox_error + 'b" where
  "andthen m k = (case m of Inl e \<Rightarrow> Inl e | Inr x \<Rightarrow> k x)"

definition check :: "mailbox_denial \<Rightarrow> bool \<Rightarrow> mailbox_error + unit" where
  "check d ok = (if ok then Inr () else Inl (Denied d))"

definition submit ::
    "'st repository \<Rightarrow> call \<Rightarrow> 'st \<Rightarrow> mailbox_error + request \<Rightarrow> (mailbox_error + reply) \<times> 'st" where
  "submit R c s m = (case m of Inl e \<Rightarrow> (Inl e, s) | Inr q \<Rightarrow> R c q s)"


section \<open>Argument checks\<close>

definition check_credential :: "bytes \<Rightarrow> mailbox_error + unit" where
  "check_credential credential = check INVALID_INPUT (credential_size_ok credential)"

fun check_credentials :: "bytes list \<Rightarrow> mailbox_error + unit" where
  "check_credentials [] = Inr ()"
| "check_credentials (credential # rest) =
     andthen (check_credential credential) (\<lambda>_. check_credentials rest)"

definition require_pairwise_credentials :: "bytes list \<Rightarrow> mailbox_error + unit" where
  "require_pairwise_credentials credentials =
     andthen (check_credentials credentials) (\<lambda>_. check INVALID_INPUT (distinct credentials))"

definition require_mailbox_id :: "uuid \<Rightarrow> mailbox_error + unit" where
  "require_mailbox_id mailbox_id = check INVALID_INPUT (uuid4 mailbox_id)"

definition parse_action :: "ports \<Rightarrow> bytes \<Rightarrow> mailbox_error + action_envelope \<times> bytes" where
  "parse_action P action_json =
     (if action_json = [] \<or> len action_json > MAX_ACTION_ENVELOPE_BYTES then Inl (Denied OVERSIZE)
      else (case pt_parse_action P action_json of
              None \<Rightarrow> Inl (Denied INVALID_INPUT)
            | Some action \<Rightarrow> Inr (action, pt_dump_action P action)))"

definition parse_result :: "ports \<Rightarrow> bytes \<Rightarrow> mailbox_error + result_envelope \<times> bytes" where
  "parse_result P result_json =
     (if result_json = [] \<or> len result_json > MAX_RESULT_ENVELOPE_BYTES then Inl (Denied OVERSIZE)
      else (case lib_parse_result (pt_lib P) result_json of
              None \<Rightarrow> Inl (Denied INVALID_INPUT)
            | Some result \<Rightarrow> Inr (result, pt_dump_result P result)))"

definition action_matches :: "ports \<Rightarrow> action_binding \<Rightarrow> action_envelope \<Rightarrow> bytes \<Rightarrow> bool" where
  "action_matches P b action canonical \<longleftrightarrow>
     ae_action_id action = b_action_id b \<and> ae_intent_id action = b_intent_id b \<and>
     ae_attempt_id action = b_attempt_id b \<and> ae_connector_release action = b_connector_release b \<and>
     capability_value (ae_capability action) = b_capability b \<and> ae_fence action = b_fence b \<and>
     ae_authorization_epoch action = b_authorization_epoch b \<and>
     instant (ae_deadline_utc action) = instant (b_deadline_utc b) \<and>
     ab_wall_seconds (ae_budget action) = b_wall_seconds b \<and>
     ab_response_bytes (ae_budget action) = b_response_bytes b \<and>
     sha256_text (pt_lib P) canonical = b_envelope_digest b"

definition require_action_binding ::
    "ports \<Rightarrow> action_binding \<Rightarrow> action_envelope \<Rightarrow> bytes \<Rightarrow> mailbox_error + unit" where
  "require_action_binding P b action canonical =
     check BINDING_MISMATCH (action_matches P b action canonical)"

text \<open>\<^verbatim>\<open>Capability(binding.capability)\<close> raises a plain \<^verbatim>\<open>ValueError\<close> on an unknown capability.\<close>

definition require_result_policy :: "action_binding \<Rightarrow> result_envelope \<Rightarrow> mailbox_error + unit" where
  "require_result_policy b result =
     (case capability_of (b_capability b) of
        None \<Rightarrow> Inl Value_Error
      | Some capability \<Rightarrow>
          if re_result result \<notin> set (results_by_capability capability)
            then Inl (Denied CAPABILITY_MISMATCH)
          else if re_next result \<notin> set (next_by_result (re_result result))
            then Inl (Denied CAPABILITY_MISMATCH)
          else Inr ())"

definition seal_of :: "evidence_reference \<Rightarrow> evidence_seal" where
  "seal_of item = \<lparr>es_object_id = er_mailbox_object_id item, es_kind = er_kind item,
     es_payload_digest = er_payload_digest item, es_byte_count = er_byte_count item\<rparr>"


section \<open>Methods\<close>

definition bind_action ::
    "ports \<Rightarrow> uuid \<Rightarrow> bytes \<Rightarrow> string \<Rightarrow> int \<Rightarrow> datetime \<Rightarrow> mailbox_error + action_binding" where
  "bind_action P mailbox_id action_json selected_artifact_digest dispatch_epoch claim_deadline =
     andthen (parse_action P action_json) (\<lambda>(action, canonical).
       let b = \<lparr>b_mailbox_id = mailbox_id, b_action_id = ae_action_id action,
                b_intent_id = ae_intent_id action, b_attempt_id = ae_attempt_id action,
                b_connector_release = ae_connector_release action,
                b_capability = capability_value (ae_capability action),
                b_selected_artifact_digest = selected_artifact_digest,
                b_dispatch_epoch = dispatch_epoch, b_fence = ae_fence action,
                b_authorization_epoch = ae_authorization_epoch action,
                b_claim_deadline_utc = claim_deadline, b_deadline_utc = ae_deadline_utc action,
                b_wall_seconds = ab_wall_seconds (ae_budget action),
                b_response_bytes = ab_response_bytes (ae_budget action),
                b_envelope_digest = sha256_text (pt_lib P) canonical\<rparr>
       in if action_binding_ok b then Inr b else Inl (Denied INVALID_INPUT))"

definition open_empty ::
    "ports \<Rightarrow> 'st repository \<Rightarrow> action_binding \<Rightarrow> bytes \<Rightarrow> bytes \<Rightarrow> bytes \<Rightarrow> call \<Rightarrow> 'st
     \<Rightarrow> (mailbox_error + reply) \<times> 'st" where
  "open_empty P R b action_credential claim_credential collection_credential c s = submit R c s
     (andthen (require_pairwise_credentials
         [action_credential, claim_credential, collection_credential]) (\<lambda>_.
      andthen (check INVALID_INPUT (len action_credential = ACTION_KEY_BYTES)) (\<lambda>_.
      Inr (Create b (pt_digest P action_credential) (pt_digest P claim_credential)
             (pt_digest P collection_credential)))))"

text \<open>The credential source's answer is the argument \<open>issued\<close>.\<close>

definition offer_action ::
    "ports \<Rightarrow> 'st repository \<Rightarrow> action_binding \<Rightarrow> bytes \<Rightarrow> bytes \<Rightarrow> bytes \<Rightarrow> bytes \<Rightarrow> call \<Rightarrow> 'st
     \<Rightarrow> (mailbox_error + reply) \<times> 'st" where
  "offer_action P R b action_json action_key collection_credential issued c s = submit R c s
     (andthen (parse_action P action_json) (\<lambda>(action, canonical).
      andthen (require_action_binding P b action canonical) (\<lambda>_.
      andthen (check_credential action_key) (\<lambda>_.
      andthen (check INVALID_INPUT (len action_key = ACTION_KEY_BYTES)) (\<lambda>_.
      andthen (check_credential collection_credential) (\<lambda>_.
      andthen (require_pairwise_credentials [action_key, collection_credential, issued]) (\<lambda>_.
      Inr (Offer b canonical action_key (pt_digest P action_key)
             (pt_digest P collection_credential) issued (pt_digest P issued)))))))))"

definition claim_action ::
    "ports \<Rightarrow> 'st repository \<Rightarrow> action_binding \<Rightarrow> bytes \<Rightarrow> call \<Rightarrow> 'st
     \<Rightarrow> (mailbox_error + reply) \<times> 'st" where
  "claim_action P R b claim_credential c s = submit R c s
     (andthen (check_credential claim_credential) (\<lambda>_. Inr (Claim b (pt_digest P claim_credential))))"

definition stage ::
    "ports \<Rightarrow> 'st repository \<Rightarrow> action_binding \<Rightarrow> bytes \<Rightarrow> evidence_upload \<Rightarrow> call \<Rightarrow> 'st
     \<Rightarrow> (mailbox_error + reply) \<times> 'st" where
  "stage P R b result_credential evidence c s = submit R c s
     (andthen (check_credential result_credential) (\<lambda>_.
      andthen (check OVERSIZE (len (eu_payload evidence) \<le> MAX_EVIDENCE_BYTES)) (\<lambda>_.
      andthen (check DIGEST_MISMATCH
         (sha256_text (pt_lib P) (eu_payload evidence) = eu_payload_digest evidence)) (\<lambda>_.
      Inr (Stage b (pt_digest P result_credential) evidence)))))"

definition commit ::
    "ports \<Rightarrow> 'st repository \<Rightarrow> action_binding \<Rightarrow> bytes \<Rightarrow> bytes \<Rightarrow> call \<Rightarrow> 'st
     \<Rightarrow> (mailbox_error + reply) \<times> 'st" where
  "commit P R b result_json result_credential c s = submit R c s
     (andthen (check_credential result_credential) (\<lambda>_.
      andthen (parse_result P result_json) (\<lambda>(result, canonical).
      andthen (check RESULT_MISMATCH
         (re_action_id result = b_action_id b \<and> re_attempt_id result = b_attempt_id b)) (\<lambda>_.
      andthen (require_result_policy b result) (\<lambda>_.
      let seals = map seal_of (re_evidence result)
      in if list_all evidence_seal_ok seals
         then Inr (Commit b (pt_digest P result_credential) canonical seals)
         else Inl Value_Error)))))"

text \<open>The methods that name a mailbox and a collection credential, and the two sweeps.\<close>

definition scoped ::
    "ports \<Rightarrow> 'st repository \<Rightarrow> (uuid \<Rightarrow> bytes \<Rightarrow> request) \<Rightarrow> uuid \<Rightarrow> bytes \<Rightarrow> call \<Rightarrow> 'st
     \<Rightarrow> (mailbox_error + reply) \<times> 'st" where
  "scoped P R q mailbox_id collection_credential c s = submit R c s
     (andthen (require_mailbox_id mailbox_id) (\<lambda>_.
      andthen (check_credential collection_credential) (\<lambda>_.
      Inr (q mailbox_id (pt_digest P collection_credential)))))"

definition collect_bundle ::
    "ports \<Rightarrow> 'st repository \<Rightarrow> uuid \<Rightarrow> bytes \<Rightarrow> call \<Rightarrow> 'st \<Rightarrow> (mailbox_error + reply) \<times> 'st" where
  "collect_bundle P R = scoped P R Collect"

definition acknowledge ::
    "ports \<Rightarrow> 'st repository \<Rightarrow> uuid \<Rightarrow> bytes \<Rightarrow> call \<Rightarrow> 'st \<Rightarrow> (mailbox_error + reply) \<times> 'st" where
  "acknowledge P R = scoped P R Acknowledge"

definition abandon_mailbox ::
    "ports \<Rightarrow> 'st repository \<Rightarrow> uuid \<Rightarrow> bytes \<Rightarrow> call \<Rightarrow> 'st \<Rightarrow> (mailbox_error + reply) \<times> 'st" where
  "abandon_mailbox P R = scoped P R Abandon"

definition diagnose ::
    "ports \<Rightarrow> 'st repository \<Rightarrow> uuid \<Rightarrow> bytes \<Rightarrow> call \<Rightarrow> 'st \<Rightarrow> (mailbox_error + reply) \<times> 'st" where
  "diagnose P R = scoped P R Snapshot"

definition expire_due ::
    "ports \<Rightarrow> 'st repository \<Rightarrow> bytes \<Rightarrow> call \<Rightarrow> 'st \<Rightarrow> (mailbox_error + reply) \<times> 'st" where
  "expire_due P R maintenance_credential c s = submit R c s
     (andthen (check_credential maintenance_credential) (\<lambda>_.
      Inr (Expire (pt_digest P maintenance_credential))))"

definition collect_garbage ::
    "ports \<Rightarrow> 'st repository \<Rightarrow> bytes \<Rightarrow> call \<Rightarrow> 'st \<Rightarrow> (mailbox_error + reply) \<times> 'st" where
  "collect_garbage P R maintenance_credential c s = submit R c s
     (andthen (check_credential maintenance_credential) (\<lambda>_.
      Inr (Garbage_Collect (pt_digest P maintenance_credential))))"


section \<open>Calls as data\<close>

datatype service_call =
    Open_Empty action_binding bytes bytes bytes
  | Offer_Action action_binding bytes bytes bytes bytes
  | Claim_Action action_binding bytes
  | Stage_Evidence action_binding bytes evidence_upload
  | Commit_Result action_binding bytes bytes
  | Collect_Bundle uuid bytes
  | Acknowledge_Collection uuid bytes
  | Abandon_Mailbox uuid bytes
  | Take_Snapshot uuid bytes
  | Expire_Due bytes
  | Collect_Garbage bytes

fun serve ::
    "ports \<Rightarrow> 'st repository \<Rightarrow> call \<Rightarrow> service_call \<Rightarrow> 'st \<Rightarrow> (mailbox_error + reply) \<times> 'st" where
  "serve P R c (Open_Empty b ac cl co) s = open_empty P R b ac cl co c s"
| "serve P R c (Offer_Action b json key co issued) s = offer_action P R b json key co issued c s"
| "serve P R c (Claim_Action b cl) s = claim_action P R b cl c s"
| "serve P R c (Stage_Evidence b rc ev) s = stage P R b rc ev c s"
| "serve P R c (Commit_Result b json rc) s = commit P R b json rc c s"
| "serve P R c (Collect_Bundle k co) s = collect_bundle P R k co c s"
| "serve P R c (Acknowledge_Collection k co) s = acknowledge P R k co c s"
| "serve P R c (Abandon_Mailbox k co) s = abandon_mailbox P R k co c s"
| "serve P R c (Take_Snapshot k co) s = diagnose P R k co c s"
| "serve P R c (Expire_Due m) s = expire_due P R m c s"
| "serve P R c (Collect_Garbage m) s = collect_garbage P R m c s"

text \<open>
  Value objects passed their constructors and nonces have twelve bytes.  The service bounds the
  JSON it is given but stores the canonical re-serialisation, so that the latter fits the
  envelope bound is a condition on the call.
\<close>

definition canonical_fits :: "ports \<Rightarrow> bytes \<Rightarrow> bool" where
  "canonical_fits P json \<longleftrightarrow>
     (\<forall>a. pt_parse_action P json = Some a \<longrightarrow> len (pt_dump_action P a) \<le> MAX_ACTION_ENVELOPE_BYTES)"

fun call_ok :: "ports \<Rightarrow> call \<Rightarrow> service_call \<Rightarrow> bool" where
  "call_ok P c (Open_Empty b _ _ _) = action_binding_ok b"
| "call_ok P c (Offer_Action b json _ _ _) = canonical_fits P json"
| "call_ok P c (Stage_Evidence b _ ev) = (evidence_upload_ok ev \<and> length (c_nonce c) = 12)"
| "call_ok P c (Commit_Result b _ _) = (length (c_nonce c) = 12)"
| "call_ok P c _ = True"

lemmas service_defs = open_empty_def offer_action_def claim_action_def stage_def commit_def
  scoped_def collect_bundle_def acknowledge_def abandon_mailbox_def diagnose_def expire_due_def
  collect_garbage_def


section \<open>Reading a check backwards\<close>

lemma andthen_Inr: "andthen m k = Inr y \<longleftrightarrow> (\<exists>x. m = Inr x \<and> k x = Inr y)"
  by (cases m) (simp_all add: andthen_def)

lemma check_Inr: "check d ok = Inr x \<longleftrightarrow> ok"
  by (cases x) (simp add: check_def)

lemma check_credential_Inr: "check_credential v = Inr x \<longleftrightarrow> credential_size_ok v"
  by (simp add: check_credential_def check_Inr)

lemma check_credentials_Inr: "check_credentials vs = Inr x \<longleftrightarrow> list_all credential_size_ok vs"
  by (induction vs) (auto simp: andthen_Inr check_credential_Inr)

lemma require_pairwise_Inr:
  "require_pairwise_credentials vs = Inr x \<longleftrightarrow> list_all credential_size_ok vs \<and> distinct vs"
  by (auto simp: require_pairwise_credentials_def andthen_Inr check_credentials_Inr check_Inr)

lemma parse_action_Inr:
  "parse_action P json = Inr x \<longleftrightarrow>
     json \<noteq> [] \<and> len json \<le> MAX_ACTION_ENVELOPE_BYTES \<and>
     (\<exists>a. pt_parse_action P json = Some a \<and> x = (a, pt_dump_action P a))"
  by (auto simp: parse_action_def split: option.splits)

lemma parse_result_Inr:
  "parse_result P json = Inr x \<longleftrightarrow>
     json \<noteq> [] \<and> len json \<le> MAX_RESULT_ENVELOPE_BYTES \<and>
     (\<exists>r. lib_parse_result (pt_lib P) json = Some r \<and> x = (r, pt_dump_result P r))"
  by (auto simp: parse_result_def split: option.splits)

lemma require_action_binding_Inr:
  "require_action_binding P b a canonical = Inr x \<longleftrightarrow> action_matches P b a canonical"
  by (simp add: require_action_binding_def check_Inr)

definition conforms :: "action_binding \<Rightarrow> result_envelope \<Rightarrow> bool" where
  "conforms b result \<longleftrightarrow>
     re_action_id result = b_action_id b \<and> re_attempt_id result = b_attempt_id b \<and>
     (\<exists>capability. b_capability b = capability_value capability \<and>
        re_result result \<in> set (results_by_capability capability)) \<and>
     re_next result \<in> set (next_by_result (re_result result))"

lemma require_result_policy_Inr:
  "require_result_policy b result = Inr x \<Longrightarrow>
     re_action_id result = b_action_id b \<Longrightarrow> re_attempt_id result = b_attempt_id b \<Longrightarrow>
     conforms b result"
  by (auto simp: require_result_policy_def conforms_def dest: capability_of_Some
      split: option.splits if_splits)

lemma next_never_retry: "N_RETRY_LATER \<notin> set (next_by_result r)"
  by (cases r) auto

lemmas check_simps = andthen_Inr check_Inr check_credential_Inr require_pairwise_Inr
  parse_action_Inr parse_result_Inr require_action_binding_Inr


section \<open>A call is one decision\<close>

text \<open>The request a call makes of any repository, or the error it ends with.\<close>

definition decision :: "ports \<Rightarrow> call \<Rightarrow> service_call \<Rightarrow> mailbox_error + request" where
  "decision P c call =
     (case serve P (\<lambda>_ q _. (Inl Value_Error, Some q)) c call None of
        (_, Some q) \<Rightarrow> Inr q
      | (Inl e, None) \<Rightarrow> Inl e
      | (Inr _, None) \<Rightarrow> Inl Value_Error)"

lemma decision_submit [simp]:
  "(case submit (\<lambda>_ q _. (Inl Value_Error, Some q)) c None m of
      (_, Some q) \<Rightarrow> Inr q
    | (Inl e, None) \<Rightarrow> Inl e
    | (Inr _, None) \<Rightarrow> Inl Value_Error) = m"
  by (cases m) (simp_all add: submit_def)

lemma serve_decision: "serve P R c call s = submit R c s (decision P c call)"
  by (cases call) (simp_all add: decision_def service_defs)

lemma decision_request_ok:
  assumes "ports_ok P" and "call_ok P c call" and "decision P c call = Inr q"
  shows "request_ok c q"
  using assms
  by (cases call) (auto simp: decision_def service_defs check_simps ports_ok_def lib_ok_def
      canonical_fits_def claimed_action_ok_def Let_def split: if_splits)

text \<open>
  The evidence kinds of a result envelope and of a seal are the same strings, so the seals of a
  validated result always pass their constructor.
\<close>

lemma conc_Nil: "conc A {[]} = A"
  by (auto simp: conc_def)

lemma evidence_kind_iff:
  "fullmatch rx_evidence_kind k \<and> length k \<le> 64 \<longleftrightarrow> fullmatch rx_kind k"
  unfolding rx_evidence_kind_def rx_kind_def fullmatch_lang star_def lang_seqs foldr.simps comp_def
    lang_Rep_Cls id_apply conc_Nil
  by (cases k) (auto simp: Cons_conc Nil_conc below_def)

lemma decision_seals_ok:
  assumes "result_envelope_ok r"
  shows "list_all evidence_seal_ok (map seal_of (re_evidence r))"
proof -
  have "evidence_seal_ok (seal_of e)" if "evidence_reference_ok e" for e
    using that evidence_kind_iff [of "er_kind e"]
    by (simp add: evidence_reference_ok_def evidence_seal_ok_def seal_of_def require_digest_def
        max_evidence_bytes_def MAX_EVIDENCE_BYTES_def)
  then show ?thesis
    using assms by (auto simp: result_envelope_ok_def list_all_iff)
qed

text \<open>Only a commit under an unknown capability ends in a plain \<^verbatim>\<open>ValueError\<close>.\<close>

definition known_capability :: "service_call \<Rightarrow> bool" where
  "known_capability call =
     (case call of Commit_Result b _ _ \<Rightarrow> capability_of (b_capability b) \<noteq> None | _ \<Rightarrow> True)"

lemma andthen_Inl: "andthen m k = Inl e \<longleftrightarrow> m = Inl e \<or> (\<exists>x. m = Inr x \<and> k x = Inl e)"
  by (cases m) (simp_all add: andthen_def)

lemma checks_denied:
  "check d ok = Inl e \<Longrightarrow> \<exists>d. e = Denied d" "check_credential v = Inl e \<Longrightarrow> \<exists>d. e = Denied d"
  "parse_action P json = Inl e \<Longrightarrow> \<exists>d. e = Denied d"
  "parse_result P json = Inl e \<Longrightarrow> \<exists>d. e = Denied d"
  "require_action_binding P b a canonical = Inl e \<Longrightarrow> \<exists>d. e = Denied d"
  by (auto simp: check_def check_credential_def parse_action_def parse_result_def
      require_action_binding_def split: if_splits option.splits)

lemma check_credentials_denied: "check_credentials vs = Inl e \<Longrightarrow> \<exists>d. e = Denied d"
  by (induction vs) (auto simp: andthen_Inl dest: checks_denied)

lemma require_pairwise_denied: "require_pairwise_credentials vs = Inl e \<Longrightarrow> \<exists>d. e = Denied d"
  by (auto simp: require_pairwise_credentials_def andthen_Inl dest: check_credentials_denied checks_denied)

lemma require_result_policy_denied:
  "require_result_policy b r = Inl e \<Longrightarrow> capability_of (b_capability b) \<noteq> None \<Longrightarrow> \<exists>d. e = Denied d"
  by (auto simp: require_result_policy_def split: if_splits option.splits)

lemma decision_denied:
  assumes "ports_ok P" and "known_capability call" and "decision P c call = Inl e"
  shows "\<exists>d. e = Denied d"
proof (cases call)
  case (Commit_Result b json cred)
  have "list_all evidence_seal_ok (map seal_of (re_evidence r))"
    if "lib_parse_result (pt_lib P) json = Some r" for r
    using assms(1) that by (intro decision_seals_ok) (auto simp: ports_ok_def lib_ok_def)
  then show ?thesis
    using assms Commit_Result
    by (auto simp: decision_def service_defs andthen_Inl parse_result_Inr known_capability_def Let_def
        dest: checks_denied require_result_policy_denied split: if_splits)
qed (use assms in \<open>auto simp: decision_def service_defs andthen_Inl require_mailbox_id_def
    dest: checks_denied require_pairwise_denied\<close>)


section \<open>The repository port\<close>

text \<open>
  What the service needs of a repository: an invariant that valid requests keep, and under which
  no valid request ends in a constructor error.  The service then keeps that invariant through
  any sequence of calls, and answers each with a reply, a finite denial or an injected crash.
\<close>

locale mailbox_repository =
  fixes R :: "'st repository" and inv :: "'st \<Rightarrow> bool"
  assumes keeps: "inv s \<Longrightarrow> request_ok c q \<Longrightarrow> inv (snd (R c q s))"
    and sanitised: "inv s \<Longrightarrow> request_ok c q \<Longrightarrow> fst (R c q s) \<noteq> Inl Value_Error"
begin

lemma serve_keeps:
  "ports_ok P \<Longrightarrow> call_ok P c call \<Longrightarrow> inv s \<Longrightarrow> inv (snd (serve P R c call s))"
  using decision_request_ok keeps
  by (fastforce simp: serve_decision submit_def split: sum.split)

lemma serve_sanitised:
  assumes "ports_ok P" and "call_ok P c call" and "known_capability call" and "inv s"
  shows "fst (serve P R c call s) \<noteq> Inl Value_Error"
proof (cases "decision P c call")
  case (Inl e)
  then show ?thesis using decision_denied [OF assms(1,3)] by (auto simp: serve_decision submit_def)
next
  case (Inr q)
  then show ?thesis
    using sanitised [OF assms(4) decision_request_ok [OF assms(1,2) Inr]]
    by (simp add: serve_decision submit_def)
qed

end

interpretation volatile: mailbox_repository "perform L" "\<lambda>s. lib_ok L \<and> reachable L s" for L
  by unfold_locales (auto intro: reachable.step dest: perform_no_value_error [OF _ reachable_inv])

end
