(* ===== verification/Mailbox_Service_Guarantees.thy ===== *)
theory Mailbox_Service_Guarantees
  imports Mailbox_Service
begin

text \<open>
  End-to-end guarantees of the mailbox service over the volatile repository: an installation is
  a new repository driven by service calls only, and what it hands out is what the service
  validated on the way in.
\<close>


section \<open>What records hold\<close>

text \<open>
  A property \<open>E\<close> of every stored envelope and a property \<open>W\<close> of every stored result, each
  relative to the record's binding.
\<close>

definition holds ::
    "(action_binding \<Rightarrow> bytes \<Rightarrow> bool) \<Rightarrow> (action_binding \<Rightarrow> wrapped_result \<Rightarrow> bool) \<Rightarrow> mrec \<Rightarrow> bool" where
  "holds E W r \<longleftrightarrow>
     (\<forall>e. r_envelope_json r = Some e \<longrightarrow> E (r_binding r) e) \<and>
     (\<forall>w. r_result r = Some w \<longrightarrow> W (r_binding r) w)"

definition all_hold ::
    "(action_binding \<Rightarrow> bytes \<Rightarrow> bool) \<Rightarrow> (action_binding \<Rightarrow> wrapped_result \<Rightarrow> bool) \<Rightarrow> repo \<Rightarrow> bool" where
  "all_hold E W s \<longleftrightarrow> (\<forall>p \<in> set (p_records s). holds E W (snd p))"

lemma all_hold_same: "p_records s' = p_records s \<Longrightarrow> all_hold E W s' = all_hold E W s"
  by (simp add: all_hold_def)

lemma set_update_subset: "set (AList.update k v d) \<subseteq> insert (k, v) (set d)"
  by (induction d) auto

lemma all_hold_put:
  "all_hold E W s \<Longrightarrow> holds E W r \<Longrightarrow> all_hold E W (put_record r s)"
  using set_update_subset by (fastforce simp: all_hold_def put_record_def)

lemma all_hold_advance [simp]: "all_hold E W (advance_installation_time now s) = all_hold E W s"
  by (intro all_hold_same) (simp add: advance_installation_time_def split: option.split)

lemma all_hold_get: "all_hold E W s \<Longrightarrow> get_record s k = Inr r \<Longrightarrow> holds E W r"
  by (auto simp: all_hold_def get_record_def dest!: map_of_SomeD split: option.splits if_splits)

lemma all_hold_totals [simp]:
  "all_hold E W (s\<lparr>p_active := a\<rparr>) = all_hold E W s"
  "all_hold E W (s\<lparr>p_evidence := a\<rparr>) = all_hold E W s"
  "all_hold E W (s\<lparr>p_committed := a\<rparr>) = all_hold E W s"
  "all_hold E W (s\<lparr>p_tombstones := ts\<rparr>) = all_hold E W s"
  by (simp_all add: all_hold_def)

lemma holds_expire_if_due:
  assumes "expire_if_due now (r, s) = (d, r1, s1)" "get_record s k = Inr r" "all_hold E W s"
  shows "holds E W r1" and "all_hold E W s1"
  using assms(1,3) all_hold_get [OF assms(3,2)]
  by (auto simp: expire_if_due_def observe_time_def clear_action_material_def
      release_record_payloads_def clear_result_digest_def clear_claim_delivery_material_def Let_def
      holds_def split: if_splits)

lemma holds_last_seen [simp]: "holds E W (r\<lparr>r_last_seen := t\<rparr>) = holds E W r"
  by (simp add: holds_def)

lemma holds_changed:
  assumes "get_record s k = Inr r" "all_hold E W s" "r_binding r' = r_binding r"
    and "\<And>e. r_envelope_json r' = Some e \<Longrightarrow> r_envelope_json r = Some e \<or> E (r_binding r) e"
    and "\<And>w. r_result r' = Some w \<Longrightarrow> r_result r = Some w \<or> W (r_binding r) w"
  shows "holds E W r'"
  using all_hold_get [OF assms(2,1)] assms(3-5) by (auto simp: holds_def)

definition keeps_hold ::
    "(action_binding \<Rightarrow> bytes \<Rightarrow> bool) \<Rightarrow> (action_binding \<Rightarrow> wrapped_result \<Rightarrow> bool) \<Rightarrow> 'a outcome \<Rightarrow> bool" where
  "keeps_hold E W x \<longleftrightarrow> all_hold E W (snd x)"

lemma keeps_hold_pair [simp]: "keeps_hold E W (x, s) = all_hold E W s"
  by (simp add: keeps_hold_def)

lemma keeps_hold_attempt:
  "all_hold E W s \<Longrightarrow> (\<And>x. m = Inr x \<Longrightarrow> keeps_hold E W (k x)) \<Longrightarrow> keeps_hold E W (attempt m s k)"
  by (cases m) auto

lemmas hold_safe = keeps_hold_attempt all_hold_put
lemmas hold_defs = observe_time_def require_binding_def require_result_access_def
  clear_claim_delivery_material_def clear_action_material_def clear_result_digest_def
  release_record_payloads_def Let_def
lemmas hold_splits = prod.splits if_splits option.splits sum.splits

lemma create_holds: "all_hold E W s \<Longrightarrow> keeps_hold E W (create b a cl co c s)"
  unfolding create_def Let_def by (auto intro!: hold_safe simp: holds_def)

lemma offer_holds:
  "all_hold E W s \<Longrightarrow> E b envelope \<Longrightarrow> keeps_hold E W (offer L b envelope key a co cred d c s)"
  unfolding offer_def Let_def
  by (auto intro!: hold_safe simp: hold_defs split: hold_splits)
    (blast intro: holds_expire_if_due | (erule (1) holds_changed; simp))+

lemma claim_holds: "all_hold E W s \<Longrightarrow> keeps_hold E W (claim L b d c s)"
  unfolding claim_def Let_def
  by (auto intro!: hold_safe simp: hold_defs split: hold_splits)
    (blast intro: holds_expire_if_due | (erule (1) holds_changed; simp))+

lemma stage_holds: "all_hold E W s \<Longrightarrow> keeps_hold E W (stage_evidence L b d ev c s)"
  unfolding stage_evidence_def Let_def
  by (auto intro!: hold_safe simp: hold_defs split: hold_splits)
    (blast intro: holds_expire_if_due | (erule (1) holds_changed; simp))+

lemma commit_holds:
  "all_hold E W s \<Longrightarrow> W b (wrap_result L (p_keys s) (c_nonce c) b json) \<Longrightarrow>
     keeps_hold E W (commit_result L b d json seals c s)"
  unfolding commit_result_def Let_def
  by (auto intro!: hold_safe simp: hold_defs split: hold_splits)
    (blast intro: holds_expire_if_due | (erule (1) holds_changed; simp))+

lemma collect_holds: "all_hold E W s \<Longrightarrow> keeps_hold E W (collect L k d c s)"
  unfolding collect_def Let_def
  by (auto intro!: hold_safe simp: hold_defs split: hold_splits)
    (blast intro: holds_expire_if_due | (erule (1) holds_changed; simp))+

lemma acknowledge_holds: "all_hold E W s \<Longrightarrow> keeps_hold E W (acknowledge_collection L k d c s)"
  unfolding acknowledge_collection_def Let_def
  by (auto intro!: hold_safe simp: hold_defs split: hold_splits)
    (blast intro: holds_expire_if_due | (erule (1) holds_changed; simp))+

lemma abandon_holds: "all_hold E W s \<Longrightarrow> keeps_hold E W (abandon L k d c s)"
  unfolding abandon_def Let_def
  by (auto intro!: hold_safe simp: hold_defs split: hold_splits)
    (blast intro: holds_expire_if_due | (erule (1) holds_changed; simp))+

lemma snapshot_holds: "all_hold E W s \<Longrightarrow> keeps_hold E W (snapshot L k d c s)"
  unfolding snapshot_def Let_def
  by (auto intro!: hold_safe simp: hold_defs split: hold_splits)
    (blast intro: holds_expire_if_due | (erule (1) holds_changed; simp))+

lemma expire_loop_holds: "all_hold E W s \<Longrightarrow> all_hold E W (fst (expire_loop now ks s acc))"
proof (induction now ks s acc rule: expire_loop.induct)
  case (2 now k ks s expired)
  show ?case
  proof (cases "map_of (p_records s) k")
    case None
    then show ?thesis using 2 by simp
  next
    case (Some r)
    obtain d r1 s1 where e: "expire_if_due now (r, s) = (d, r1, s1)" by (metis prod_cases3)
    have get: "get_record s k = Inr r" using Some by (simp add: get_record_def)
    note h = holds_expire_if_due [OF e get "2.prems"]
    show ?thesis
      using 2 h Some e by (auto simp: observe_time_def all_hold_put)
  qed
qed simp

lemma all_hold_subset:
  "all_hold E W s \<Longrightarrow> set (p_records s') \<subseteq> set (p_records s) \<Longrightarrow> all_hold E W s'"
  by (auto simp: all_hold_def)

lemma set_delete_subset: "set (AList.delete k d) \<subseteq> set d"
  by (induction d) auto

lemma gc_loop_holds: "all_hold E W s \<Longrightarrow> all_hold E W (fst (gc_loop now expires ks s removed))"
proof (induction now expires ks s removed rule: gc_loop.induct)
  case (2 now expires k ks s removed)
  have "all_hold E W (s1\<lparr>p_records := AList.delete k (p_records s1), p_tombstones := ts\<rparr>)"
    if "s1 = snd (discard_record (r, s))" for s1 r ts
    using "2.prems" set_delete_subset that
    by (intro all_hold_subset [OF "2.prems"])
      (simp add: discard_record_def clear_claim_delivery_material_def clear_result_digest_def
        release_record_payloads_def Let_def)
  then show ?case using 2 by (auto simp: Let_def split: option.split)
qed simp

lemma sweeps_hold:
  assumes "all_hold E W s"
  shows "keeps_hold E W (expire L m c s)" and "keeps_hold E W (garbage_collect L m c s)"
proof -
  show "keeps_hold E W (expire L m c s)"
    unfolding expire_def Let_def using assms expire_loop_holds [OF assms]
    by (auto intro!: keeps_hold_attempt split: prod.splits) (metis fst_conv)
  have touched: "all_hold E W (s\<lparr>p_records := map (\<lambda>(k, r). (k, r\<lparr>r_last_seen := t\<rparr>)) (p_records s)\<rparr>)" for t
    using assms by (auto simp: all_hold_def)
  show "keeps_hold E W (garbage_collect L m c s)"
    unfolding garbage_collect_def Let_def using assms touched
    by (auto intro!: keeps_hold_attempt split: prod.splits)
      (metis all_hold_advance all_hold_totals(4) fst_conv gc_loop_holds)
qed

lemma keeps_hold_reply [simp]: "keeps_hold E W (reply_of f x) = keeps_hold E W x"
  by (simp add: keeps_hold_def)

text \<open>What the request brings in decides what the records hold afterwards.\<close>

fun brings ::
    "(action_binding \<Rightarrow> bytes \<Rightarrow> bool) \<Rightarrow> (action_binding \<Rightarrow> wrapped_result \<Rightarrow> bool) \<Rightarrow> lib \<Rightarrow> repo \<Rightarrow>
     call \<Rightarrow> request \<Rightarrow> bool" where
  "brings E W L s c (Offer b envelope _ _ _ _ _) = E b envelope"
| "brings E W L s c (Commit b _ json _) = W b (wrap_result L (p_keys s) (c_nonce c) b json)"
| "brings E W L s c _ = True"

lemma perform_holds:
  assumes "all_hold E W s" "brings E W L s c q"
  shows "all_hold E W (snd (perform L c q s))"
proof -
  have "keeps_hold E W (perform L c q s)"
    using assms
    by (cases q) (simp_all add: create_holds offer_holds claim_holds stage_holds commit_holds
        collect_holds acknowledge_holds abandon_holds snapshot_holds sweeps_hold)
  then show ?thesis by (simp add: keeps_hold_def)
qed


section \<open>Installations driven by the service\<close>

inductive installation :: "ports \<Rightarrow> repo \<Rightarrow> bool" for P where
  fresh: "new_repo (pt_lib P) m l key = Inr s \<Longrightarrow> mailbox_limits_ok l \<Longrightarrow> installation P s"
| served: "installation P s \<Longrightarrow> call_ok P c call \<Longrightarrow>
    installation P (snd (serve P (perform (pt_lib P)) c call s))"

lemma installation_reachable:
  "installation P s \<Longrightarrow> ports_ok P \<Longrightarrow> lib_ok (pt_lib P) \<and> reachable (pt_lib P) s"
proof (induction rule: installation.induct)
  case (fresh m l key s)
  then show ?case by (auto simp: ports_ok_def intro: reachable.init)
next
  case (served s c call)
  then show ?case using volatile.serve_keeps [of P c call "pt_lib P" s] by blast
qed

text \<open>Every stored envelope is the canonical text of an action the binding names.\<close>

definition bound_envelope :: "ports \<Rightarrow> action_binding \<Rightarrow> bytes \<Rightarrow> bool" where
  "bound_envelope P b e \<longleftrightarrow>
     (\<exists>a. action_envelope_ok a \<and> e = pt_dump_action P a \<and> action_matches P b a e)"

text \<open>Every stored result is the wrapped canonical text of a result the policy permits.\<close>

definition permitted_result :: "ports \<Rightarrow> storage_keys \<Rightarrow> action_binding \<Rightarrow> wrapped_result \<Rightarrow> bool" where
  "permitted_result P K b w \<longleftrightarrow>
     (\<exists>r n. result_envelope_ok r \<and> conforms b r \<and> length n = 12 \<and>
        w = wrap_result (pt_lib P) K n b (pt_dump_result P r))"

lemma decision_brings:
  assumes "ports_ok P" "call_ok P c call" "decision P c call = Inr q"
  shows "brings (bound_envelope P) (permitted_result P (p_keys s)) (pt_lib P) s c q"
proof (cases call)
  case (Offer_Action b json key co issued)
  then show ?thesis
    using assms
    by (auto simp: decision_def service_defs check_simps ports_ok_def bound_envelope_def) blast
next
  case (Commit_Result b json cred)
  then show ?thesis
    using assms
    by (auto simp: decision_def service_defs check_simps ports_ok_def lib_ok_def Let_def
        permitted_result_def dest: require_result_policy_Inr split: if_splits)
      (blast dest: require_result_policy_Inr)
qed (use assms in \<open>auto simp: decision_def service_defs check_simps\<close>)

lemma installation_holds:
  "installation P s \<Longrightarrow> ports_ok P \<Longrightarrow> all_hold (bound_envelope P) (permitted_result P (p_keys s)) s"
proof (induction rule: installation.induct)
  case (fresh m l key s)
  then show ?case by (auto simp: new_repo_def all_hold_def split: if_splits)
next
  case (served s c call)
  show ?case
  proof (cases "decision P c call")
    case (Inl e)
    then show ?thesis using served by (simp add: serve_decision submit_def)
  next
    case (Inr q)
    note reach = installation_reachable [OF served.hyps(1) served.prems]
    have "p_keys (snd (perform (pt_lib P) c q s)) = p_keys s"
      using perform_frame [OF reachable_inv] reach decision_request_ok [OF served.prems served.hyps(2) Inr]
      by blast
    then show ?thesis
      using perform_holds [OF _ decision_brings [OF served.prems served.hyps(2) Inr]] served Inr
      by (simp add: serve_decision submit_def)
  qed
qed


section \<open>A served installation\<close>

definition sample_action :: action_envelope where
  "sample_action = \<lparr>ae_action_id = sid 2, ae_intent_id = sid 3, ae_attempt_id = sid 4,
     ae_fence = 0, ae_authorization_epoch = 0, ae_capability = SUBMIT,
     ae_connector_release = ''demo@1.0.0'', ae_profile_ref = sid 6, ae_attributes = [],
     ae_allowed_origins = [''https://a.example''], ae_deadline_utc = utc 200, ae_attempt = 0,
     ae_budget = \<lparr>ab_wall_seconds = 60, ab_response_bytes = 1000\<rparr>\<rparr>"

definition toy_ports :: ports where
  "toy_ports = \<lparr>pt_lib = toy_lib,
     pt_parse_action = \<lambda>j. if j = [6, 6] then Some sample_action else None,
     pt_dump_action = \<lambda>_. [6], pt_dump_result = \<lambda>_. sample_json,
     pt_digest = \<lambda>credential. [hd credential + 1]\<rparr>"

lemma toy_ports_fields [simp]:
  "pt_lib toy_ports = toy_lib" "pt_dump_action toy_ports a = [6]"
  "pt_dump_result toy_ports r = sample_json" "pt_digest toy_ports x = [hd x + 1]"
  "pt_parse_action toy_ports [6, 6] = Some sample_action"
  by (simp_all add: toy_ports_def)

lemma sample_action_ok: "action_envelope_ok sample_action"
proof -
  have "validate_https_origin ''https://a.example'' = Some ''https://a.example''"
    unfolding demo_manifest_printed(1)
    by (rule origin_printed) (simp_all add: demo_manifest_patterns)
  then have "origins_are_exact_and_unique [''https://a.example''] = Some [''https://a.example'']"
    by (simp add: origins_are_exact_and_unique_def)
  then show ?thesis
    by (simp add: action_envelope_ok_def sample_action_def uuid4_sid sample_patterns is_utc_def
        action_budget_ok_def max_attributes_def max_origins_def max_wall_seconds_def
        max_response_bytes_def)
qed

lemma toy_ports_ok: "ports_ok toy_ports"
  using toy_lib_ok sample_action_ok
  by (auto simp: ports_ok_def sample_json_def MAX_RESULT_ENVELOPE_BYTES_def)
    (simp add: toy_ports_def split: if_splits)

definition open_call :: service_call where
  "open_call = Open_Empty sample_binding (zeros 32) (replicate 32 1) (replicate 32 2)"

definition offer_call :: service_call where
  "offer_call = Offer_Action sample_binding [6, 6] (zeros 32) (replicate 32 2) (replicate 32 3)"

definition claim_call :: service_call where
  "claim_call = Claim_Action sample_binding (replicate 32 1)"

definition stage_call :: service_call where
  "stage_call = Stage_Evidence sample_binding (replicate 32 3) sample_evidence"

definition commit_call :: service_call where
  "commit_call = Commit_Result sample_binding sample_json (replicate 32 3)"

definition collect_call :: service_call where
  "collect_call = Collect_Bundle (sid 9) (replicate 32 2)"

lemmas sample_calls = open_call_def offer_call_def claim_call_def stage_call_def commit_call_def
  collect_call_def

lemma sample_credentials:
  "check_credential (replicate 32 x) = Inr ()" "check_credential (zeros 32) = Inr ()"
  by (simp_all add: check_credential_def check_def credential_size_ok_def zeros_def mailbox_consts)

lemma sample_pairwise:
  "require_pairwise_credentials [zeros 32, replicate 32 1, replicate 32 2] = Inr ()"
  "require_pairwise_credentials [zeros 32, replicate 32 2, replicate 32 3] = Inr ()"
  by (simp_all add: require_pairwise_credentials_def sample_credentials andthen_def check_def zeros_def)

lemma sample_decisions:
  "decision toy_ports c open_call = Inr create_q" "decision toy_ports c offer_call = Inr offer_q"
  "decision toy_ports c claim_call = Inr claim_q" "decision toy_ports c stage_call = Inr stage_q"
  "decision toy_ports c commit_call = Inr commit_q" "decision toy_ports c collect_call = Inr collect_q"
proof -
  show "decision toy_ports c open_call = Inr create_q"
    unfolding open_call_def decision_def serve.simps open_empty_def decision_submit sample_pairwise
    by (simp add: andthen_def check_def zeros_def mailbox_consts create_q_def)
  show "decision toy_ports c offer_call = Inr offer_q"
    unfolding offer_call_def decision_def serve.simps offer_action_def decision_submit
      sample_pairwise sample_credentials
    by (simp add: andthen_def check_def parse_action_def require_action_binding_def
        action_matches_def sample_action_def sample_binding_def sha256_text_def toy_lib_def
        zero_digest_def mailbox_consts offer_q_def zeros_def)
  show "decision toy_ports c claim_call = Inr claim_q"
    unfolding claim_call_def decision_def serve.simps claim_action_def decision_submit sample_credentials
    by (simp add: andthen_def claim_q_def)
  show "decision toy_ports c stage_call = Inr stage_q"
    unfolding stage_call_def decision_def serve.simps stage_def decision_submit sample_credentials
    by (simp add: andthen_def check_def stage_q_def mailbox_consts sha256_text_def toy_lib_def
        zero_digest_def)
  show "decision toy_ports c collect_call = Inr collect_q"
    unfolding collect_call_def decision_def serve.simps collect_bundle_def scoped_def decision_submit
      sample_credentials
    by (simp add: andthen_def check_def require_mailbox_id_def uuid4_sid collect_q_def)
  have "capability_of ''submit'' = Some SUBMIT" by (simp add: capability_of_def all_capabilities_def)
  moreover have "list_all evidence_seal_ok (map seal_of (re_evidence sample_result))"
    by (rule decision_seals_ok [OF sample_result_ok])
  ultimately show "decision toy_ports c commit_call = Inr commit_q"
    unfolding commit_call_def decision_def serve.simps commit_def decision_submit sample_credentials
    by (simp add: andthen_def check_def commit_q_def parse_result_def mailbox_consts toy_lib_def
        require_result_policy_def sample_seals_def seal_of_def sample_json_def sample_binding_def
        sample_result_def Let_def)
qed

lemma sample_calls_ok:
  "call_ok toy_ports c open_call" "call_ok toy_ports c offer_call" "call_ok toy_ports c claim_call"
  "call_ok toy_ports (at_time t) stage_call" "call_ok toy_ports (at_time t) commit_call"
  "call_ok toy_ports c collect_call"
  using sample_binding_ok sample_evidence_ok
  by (simp_all add: sample_calls canonical_fits_def mailbox_consts zeros_def)

lemma sample_served:
  "decision toy_ports (at_time t) call = Inr q \<Longrightarrow>
     serve toy_ports (perform toy_lib) (at_time t) call s = perform toy_lib (at_time t) q s"
  by (simp add: serve_decision submit_def)

lemma sample_installation:
  "installation toy_ports sample_repo" "installation toy_ports (sample_state 1)"
  "installation toy_ports (sample_state 2)" "installation toy_ports (sample_state 3)"
  "installation toy_ports (sample_state 4)" "installation toy_ports (sample_state 5)"
proof -
  note step = installation.served [where P = toy_ports, unfolded toy_ports_fields]
  show i0: "installation toy_ports sample_repo"
    by (rule installation.fresh [OF _ default_limits_ok])
      (unfold toy_ports_fields, rule sample_repo_new)
  show i1: "installation toy_ports (sample_state 1)"
    using step [OF i0 sample_calls_ok(1), of "at_time 1"]
    unfolding sample_served [OF sample_decisions(1)] sample_create by simp
  show i2: "installation toy_ports (sample_state 2)"
    using step [OF i1 sample_calls_ok(2), of "at_time 2"]
    unfolding sample_served [OF sample_decisions(2)] sample_offer by simp
  show i3: "installation toy_ports (sample_state 3)"
    using step [OF i2 sample_calls_ok(3), of "at_time 3"]
    unfolding sample_served [OF sample_decisions(3)] sample_claim by simp
  show i4: "installation toy_ports (sample_state 4)"
    using step [OF i3 sample_calls_ok(4), of 4]
    unfolding sample_served [OF sample_decisions(4)] sample_stage by simp
  show "installation toy_ports (sample_state 5)"
    using step [OF i4 sample_calls_ok(5), of 5]
    unfolding sample_served [OF sample_decisions(5)] sample_commit by simp
qed


section \<open>Properties\<close>

lemma submit_Inr: "submit R c s m = (Inr y, s') \<Longrightarrow> \<exists>q. m = Inr q \<and> R c q s = (Inr y, s')"
  by (auto simp: submit_def split: sum.splits)

lemma reply_of_eq_Inr: "reply_of f x = (Inr y, s') \<Longrightarrow> \<exists>v. x = (Inr v, s') \<and> y = f v"
  by (cases x) (auto simp: reply_of_def split: sum.splits)

text \<open>
  The contract of the service, written as the requests a call may make: every credential has
  between 32 and 128 bytes and the ones of a mailbox differ; an action agrees with its binding in
  every field and by digest; evidence has the digest it claims; a result is for the action and
  attempt of its binding and within the result policy of the binding's capability.
\<close>

definition bounded_credential :: "bytes \<Rightarrow> bool" where
  "bounded_credential v \<longleftrightarrow> 32 \<le> length v \<and> length v \<le> 128"

inductive accepts :: "ports \<Rightarrow> service_call \<Rightarrow> request \<Rightarrow> bool" for P where
  opens: "length ac = 32 \<Longrightarrow> bounded_credential cl \<Longrightarrow> bounded_credential co \<Longrightarrow> distinct [ac, cl, co] \<Longrightarrow>
    accepts P (Open_Empty b ac cl co) (Create b (pt_digest P ac) (pt_digest P cl) (pt_digest P co))"
| offers: "0 < length json \<Longrightarrow> length json \<le> 8388608 \<Longrightarrow> pt_parse_action P json = Some a \<Longrightarrow>
    ae_action_id a = b_action_id b \<Longrightarrow> ae_intent_id a = b_intent_id b \<Longrightarrow> ae_attempt_id a = b_attempt_id b \<Longrightarrow>
    ae_connector_release a = b_connector_release b \<Longrightarrow> capability_value (ae_capability a) = b_capability b \<Longrightarrow>
    ae_fence a = b_fence b \<Longrightarrow> ae_authorization_epoch a = b_authorization_epoch b \<Longrightarrow>
    instant (ae_deadline_utc a) = instant (b_deadline_utc b) \<Longrightarrow>
    ab_wall_seconds (ae_budget a) = b_wall_seconds b \<Longrightarrow> ab_response_bytes (ae_budget a) = b_response_bytes b \<Longrightarrow>
    ''sha256:'' @ hex (lib_sha256 (pt_lib P) (pt_dump_action P a)) = b_envelope_digest b \<Longrightarrow>
    length key = 32 \<Longrightarrow> bounded_credential co \<Longrightarrow> bounded_credential issued \<Longrightarrow> distinct [key, co, issued] \<Longrightarrow>
    accepts P (Offer_Action b json key co issued)
      (Offer b (pt_dump_action P a) key (pt_digest P key) (pt_digest P co) issued (pt_digest P issued))"
| claims: "bounded_credential cl \<Longrightarrow> accepts P (Claim_Action b cl) (Claim b (pt_digest P cl))"
| stages: "bounded_credential rc \<Longrightarrow> length (eu_payload ev) \<le> 67108864 \<Longrightarrow>
    ''sha256:'' @ hex (lib_sha256 (pt_lib P) (eu_payload ev)) = eu_payload_digest ev \<Longrightarrow>
    accepts P (Stage_Evidence b rc ev) (Stage b (pt_digest P rc) ev)"
| commits: "bounded_credential rc \<Longrightarrow> 0 < length json \<Longrightarrow> length json \<le> 1048576 \<Longrightarrow>
    lib_parse_result (pt_lib P) json = Some r \<Longrightarrow>
    re_action_id r = b_action_id b \<Longrightarrow> re_attempt_id r = b_attempt_id b \<Longrightarrow>
    b_capability b = capability_value capability \<Longrightarrow> re_result r \<in> set (results_by_capability capability) \<Longrightarrow>
    re_next r \<in> set (next_by_result (re_result r)) \<Longrightarrow>
    accepts P (Commit_Result b json rc)
      (Commit b (pt_digest P rc) (pt_dump_result P r) (map seal_of (re_evidence r)))"
| collects: "uuid4 k \<Longrightarrow> bounded_credential co \<Longrightarrow> accepts P (Collect_Bundle k co) (Collect k (pt_digest P co))"
| acknowledges: "uuid4 k \<Longrightarrow> bounded_credential co \<Longrightarrow>
    accepts P (Acknowledge_Collection k co) (Acknowledge k (pt_digest P co))"
| abandons: "uuid4 k \<Longrightarrow> bounded_credential co \<Longrightarrow> accepts P (Abandon_Mailbox k co) (Abandon k (pt_digest P co))"
| diagnoses: "uuid4 k \<Longrightarrow> bounded_credential co \<Longrightarrow> accepts P (Take_Snapshot k co) (Snapshot k (pt_digest P co))"
| expires: "bounded_credential m \<Longrightarrow> accepts P (Expire_Due m) (Expire (pt_digest P m))"
| sweeps: "bounded_credential m \<Longrightarrow> accepts P (Collect_Garbage m) (Garbage_Collect (pt_digest P m))"

inductive_simps accepts_simps:
  "accepts P (Open_Empty b ac cl co) q" "accepts P (Offer_Action b json key co issued) q"
  "accepts P (Claim_Action b cl) q" "accepts P (Stage_Evidence b rc ev) q" "accepts P (Commit_Result b json rc) q"
  "accepts P (Collect_Bundle k co) q" "accepts P (Acknowledge_Collection k co) q" "accepts P (Abandon_Mailbox k co) q"
  "accepts P (Take_Snapshot k co) q" "accepts P (Expire_Due m) q" "accepts P (Collect_Garbage m) q"

lemma credential_size: "credential_size_ok v \<longleftrightarrow> bounded_credential v"
  by (auto simp: credential_size_ok_def bounded_credential_def mailbox_consts)

lemma require_result_policy_iff:
  "require_result_policy b r = Inr x \<longleftrightarrow>
     (\<exists>capability. b_capability b = capability_value capability \<and>
        re_result r \<in> set (results_by_capability capability) \<and> re_next r \<in> set (next_by_result (re_result r)))"
  by (auto simp: require_result_policy_def dest: capability_of_Some split: option.splits)

lemma decision_accepts:
  assumes "ports_ok P"
  shows "decision P c call = Inr q \<longleftrightarrow> accepts P call q"
proof (cases call)
  case (Open_Empty b ac cl co)
  then show ?thesis
    by (auto simp: decision_def service_defs accepts_simps check_simps credential_size bounded_credential_def mailbox_consts)
next
  case (Offer_Action b json key co issued)
  then show ?thesis
    by (auto simp: decision_def service_defs accepts_simps check_simps credential_size bounded_credential_def mailbox_consts
        action_matches_def sha256_text_def)
next
  case (Commit_Result b json rc)
  have "list_all evidence_seal_ok (map seal_of (re_evidence r))"
    if "lib_parse_result (pt_lib P) json = Some r" for r
    using assms that by (intro decision_seals_ok) (auto simp: ports_ok_def lib_ok_def)
  then show ?thesis
    using Commit_Result
    by (auto simp: decision_def service_defs accepts_simps check_simps credential_size mailbox_consts
        require_result_policy_iff Let_def)
qed (auto simp: decision_def service_defs accepts_simps check_simps credential_size mailbox_consts
    sha256_text_def require_mailbox_id_def)



text \<open>
  Through the service the connector face never sees a raw constructor error: every call
  whose binding names a known capability ends in a reply, a finite denial or an injected crash,
  and leaves a repository that some sequence of valid requests reaches.
\<close>

theorem service_is_sanitised:
  assumes "ports_ok P" and "installation P s" and "call_ok P c call" and "known_capability call"
  shows "fst (serve P (perform (pt_lib P)) c call s) \<noteq> Inl Value_Error \<and>
    reachable (pt_lib P) (snd (serve P (perform (pt_lib P)) c call s))"
  using volatile.serve_sanitised [OF assms(1,3,4)] volatile.serve_keeps [OF assms(1,3)]
    installation_reachable [OF assms(2,1)] by blast

theorem service_is_sanitised_witness:
  "fst (serve toy_ports (perform toy_lib) (at_time 5) commit_call (sample_state 4)) \<noteq> Inl Value_Error"
proof -
  have "known_capability commit_call"
    by (simp add: known_capability_def commit_call_def sample_binding_def capability_of_def
        all_capabilities_def)
  then show ?thesis
    using service_is_sanitised [OF toy_ports_ok sample_installation(5) sample_calls_ok(5)] by simp
qed

text \<open>
  C9.  What a claim delivers is what was bound: the delivered bytes are the canonical text of a
  validated action envelope that agrees with the binding in every field, and their SHA-256 is
  the envelope digest of the binding.
\<close>

theorem claimed_envelope_is_bound:
  assumes "ports_ok P" and "installation P s"
    and "serve P (perform (pt_lib P)) c (Claim_Action b credential) s = (Inr (Action a), s')"
  shows "ca_binding a = b \<and> sha256_text (pt_lib P) (ca_envelope_json a) = b_envelope_digest b \<and>
    (\<exists>act. action_envelope_ok act \<and> ca_envelope_json a = pt_dump_action P act \<and>
       action_matches P b act (ca_envelope_json a))"
proof -
  have "reply_of Action (claim (pt_lib P) b (pt_digest P credential) c s) = (Inr (Action a), s')"
    using submit_Inr [OF assms(3) [unfolded serve.simps claim_action_def]]
    by (auto simp: check_simps)
  then have "claim (pt_lib P) b (pt_digest P credential) c s = (Inr a, s')"
    using reply_of_eq_Inr by fastforce
  from claim_committed [OF this]
  obtain r where r: "map_of (p_records s) (b_mailbox_id b) = Some r" "r_binding r = b"
    "ca_binding a = b" "r_envelope_json r = Some (ca_envelope_json a)"
    by (auto simp: claim_commits_def)
  have "holds (bound_envelope P) (permitted_result P (p_keys s)) r"
    by (rule all_hold_get [OF installation_holds [OF assms(2,1)], of "b_mailbox_id b"])
      (simp add: get_record_def r(1))
  then have "bound_envelope P b (ca_envelope_json a)" using r by (simp add: holds_def)
  then show ?thesis using r(3) by (auto simp: bound_envelope_def action_matches_def)
qed

theorem claimed_envelope_is_bound_witness:
  "sha256_text toy_lib [6] = b_envelope_digest sample_binding"
proof -
  have "serve toy_ports (perform (pt_lib toy_ports)) (at_time 3)
      (Claim_Action sample_binding (replicate 32 1)) (sample_state 2)
    = (Inr (Action \<lparr>ca_binding = sample_binding, ca_envelope_json = [6],
        ca_action_key = zeros 32, ca_result_credential = replicate 32 3\<rparr>), sample_state 3)"
    using sample_served [OF sample_decisions(3), of 3 "sample_state 2"]
    unfolding claim_call_def toy_ports_fields sample_claim .
  from claimed_envelope_is_bound [OF toy_ports_ok sample_installation(3) this] show ?thesis by simp
qed

text \<open>
  C10.  What the trusted core collects obeys the result policy: the collected text is the
  canonical text of a validated result for the same action and attempt, whose code is allowed
  for the action's capability and whose next step is allowed for the code; a connector can never
  request a retry.
\<close>

theorem collected_result_conforms:
  assumes "ports_ok P" and "installation P s"
    and "serve P (perform (pt_lib P)) c (Collect_Bundle k credential) s = (Inr (Bundle bn), s')"
  shows "\<exists>r. result_envelope_ok r \<and> cb_result_json bn = pt_dump_result P r \<and>
    conforms (cb_binding bn) r \<and> re_next r \<noteq> N_RETRY_LATER"
proof -
  have "reply_of Bundle (collect (pt_lib P) k (pt_digest P credential) c s) = (Inr (Bundle bn), s')"
    using submit_Inr [OF assms(3) [unfolded serve.simps collect_bundle_def scoped_def]]
    by (auto simp: check_simps)
  then have "collect (pt_lib P) k (pt_digest P credential) c s = (Inr bn, s')"
    using reply_of_eq_Inr by fastforce
  then obtain r v where r: "get_record s k = Inr r" "cb_binding bn = r_binding r"
    "validated_record_material (pt_lib P) (p_keys s) r = Inr (v, Some (cb_result_json bn))"
    by (auto simp: collect_def attempt_def Let_def split: sum.splits if_splits option.splits prod.splits)
  obtain w where w: "r_result r = Some w"
    "unwrap_result (pt_lib P) (p_keys s) (r_binding r) w = Inr (cb_result_json bn)"
    using r(3) by (auto simp: validated_record_material_def split: sum.splits if_splits option.splits)
  have "permitted_result P (p_keys s) (r_binding r) w"
    using all_hold_get [OF installation_holds [OF assms(2,1)] r(1)] w(1) by (simp add: holds_def)
  then obtain res n where res: "result_envelope_ok res" "conforms (r_binding r) res" "length n = 12"
    "w = wrap_result (pt_lib P) (p_keys s) n (r_binding r) (pt_dump_result P res)"
    by (auto simp: permitted_result_def)
  then have "cb_result_json bn = pt_dump_result P res"
    using unwrap_wrap_result [of "pt_lib P" n "pt_dump_result P res"] w(2) assms(1)
    by (auto simp: ports_ok_def)
  moreover have "re_next res \<noteq> N_RETRY_LATER" using res(2) next_never_retry by (metis conforms_def)
  ultimately show ?thesis using res r(2) by auto
qed

theorem collected_result_conforms_witness:
  "\<exists>r. result_envelope_ok r \<and> conforms sample_binding r \<and> re_next r \<noteq> N_RETRY_LATER"
  using collected_result_conforms [OF toy_ports_ok sample_installation(6), of "at_time 6"
      "sid 9" "replicate 32 2"]
    sample_served [OF sample_decisions(6), of 6 "sample_state 5"]
  unfolding collect_call_def toy_ports_fields sample_collect by fastforce

text \<open>
  Binding and offering agree: a binding made from action bytes is a valid one, and an
  offer of the same bytes under it, with credentials of the right sizes, always reaches the
  repository with the canonical bytes whose digest the binding fixes.
\<close>

theorem bound_action_is_offered:
  assumes "bind_action P k json artifact epoch claim_deadline = Inr b"
    and "len key = ACTION_KEY_BYTES" and "credential_size_ok co" and "credential_size_ok issued"
    and "distinct [key, co, issued]"
  shows "action_binding_ok b \<and> b_mailbox_id b = k \<and>
    (\<exists>a. pt_parse_action P json = Some a \<and>
       sha256_text (pt_lib P) (pt_dump_action P a) = b_envelope_digest b \<and>
       offer_action P R b json key co issued c s =
         R c (Offer b (pt_dump_action P a) key (pt_digest P key) (pt_digest P co) issued
                (pt_digest P issued)) s)"
proof -
  obtain a where a: "parse_action P json = Inr (a, pt_dump_action P a)"
    "pt_parse_action P json = Some a" and b: "action_binding_ok b" "b_mailbox_id b = k"
    "action_matches P b a (pt_dump_action P a)"
    using assms(1) unfolding bind_action_def andthen_Inr parse_action_Inr Let_def
    by (elim exE conjE)
      (simp add: action_matches_def parse_action_Inr split: if_splits prod.splits, force)
  have key: "credential_size_ok key"
    using assms(2) by (simp add: credential_size_ok_def mailbox_consts)
  then have checks: "check_credential key = Inr ()" "check_credential co = Inr ()"
    "require_pairwise_credentials [key, co, issued] = Inr ()"
    using assms(3-5) by (auto simp: check_credential_Inr require_pairwise_Inr)
  have "offer_action P R b json key co issued c s =
      R c (Offer b (pt_dump_action P a) key (pt_digest P key) (pt_digest P co) issued
        (pt_digest P issued)) s"
    unfolding offer_action_def a(1) checks andthen_def require_action_binding_def check_def
    using b(3) assms(2) by (simp add: submit_def)
  then show ?thesis using a(2) b by (auto simp: action_matches_def)
qed

theorem bound_action_is_offered_witness:
  "offer_action toy_ports (perform toy_lib) sample_binding [6, 6] (zeros 32) (replicate 32 2)
     (replicate 32 3) (at_time 2) (sample_state 1)
   = perform toy_lib (at_time 2) offer_q (sample_state 1)"
proof -
  have "bind_action toy_ports (sid 9) [6, 6] zero_digest 0 (utc 100) = Inr sample_binding"
    using sample_binding_ok
    by (simp add: bind_action_def andthen_def parse_action_def sample_action_def sample_binding_def
        sha256_text_def toy_lib_def zero_digest_def mailbox_consts)
  from bound_action_is_offered [OF this, of "zeros 32" "replicate 32 2" "replicate 32 3"
      "perform toy_lib" "at_time 2" "sample_state 1"]
  show ?thesis
    by (simp add: zeros_def credential_size_ok_def mailbox_consts offer_q_def)
qed

end
