(* ===== verification/Json.thy ===== *)
theory Json
  imports Prelude "HOL-Library.Char_ord" "HOL-Library.List_Lexorder"
begin

text \<open>
  The JSON text format as the repository uses Python's \<^verbatim>\<open>json\<close> module: compact printing with
  sorted keys (\<^verbatim>\<open>json.dumps(v, sort_keys=True, separators=(",", ":"))\<close>) and decoding with a pairs
  hook that rejects duplicate keys (\<^verbatim>\<open>json.loads(text, object_pairs_hook=...)\<close>).  A character is an
  8-bit code point: a text with an escape above \<^verbatim>\<open>\u00ff\<close> is outside the model and rejected here.  Python
  decodes it, and the decoders of the repository then reject the string, with one exception: a
  timestamp, where \<^verbatim>\<open>datetime.fromisoformat\<close> takes any character between date and time.  No text that the
  repository writes has such a character.  Also outside the model are the two limits of Python's own
  decoder, which raises \<^verbatim>\<open>RecursionError\<close> on deeply nested values and \<^verbatim>\<open>ValueError\<close> on integers of more
  than 4300 digits, where \<open>loads\<close> gives the value.  Non-integral numbers and the constants
  \<^verbatim>\<open>NaN\<close> and \<^verbatim>\<open>Infinity\<close> keep their text (\<open>J_Float\<close>); every decoder rejects them.
\<close>


section \<open>Values and printing\<close>

datatype json =
    J_Null | J_Bool bool | J_Int int | J_Float string | J_Str string
  | J_Arr "json list" | J_Obj "(string \<times> json) list"

abbreviation quote :: char where "quote \<equiv> CHR 0x22"
abbreviation backslash :: char where "backslash \<equiv> CHR 0x5C"

definition escape :: "char \<Rightarrow> string" where
  "escape c =
     (if c = quote then [backslash, quote]
      else if c = backslash then [backslash, backslash]
      else if c = CHR 0x0A then [backslash, CHR ''n'']
      else if c = CHR 0x0D then [backslash, CHR ''r'']
      else if c = CHR 0x09 then [backslash, CHR ''t'']
      else if c = CHR 0x0C then [backslash, CHR ''f'']
      else if c = CHR 0x08 then [backslash, CHR ''b'']
      else if 32 \<le> (of_char c :: nat) \<and> (of_char c :: nat) \<le> 126 then [c]
      else [backslash, CHR ''u'', CHR ''0'', CHR ''0'', hex_digit (of_char c div 16), hex_digit (of_char c)])"

definition quoted :: "string \<Rightarrow> string" where
  "quoted s = quote # concat (map escape s) @ [quote]"

fun join :: "string \<Rightarrow> string list \<Rightarrow> string" where
  "join sep [] = []"
| "join sep [x] = x"
| "join sep (x # y # zs) = x @ sep @ join sep (y # zs)"

fun dumps :: "json \<Rightarrow> string" where
  "dumps J_Null = ''null''"
| "dumps (J_Bool b) = (if b then ''true'' else ''false'')"
| "dumps (J_Int i) = show_int i"
| "dumps (J_Float t) = t"
| "dumps (J_Str s) = quoted s"
| "dumps (J_Arr vs) = ''['' @ join '','' (map dumps vs) @ '']''"
| "dumps (J_Obj ms) =
     ''{'' @ join '','' (map (\<lambda>(k, t). quoted k @ '':'' @ t)
       (sort_key fst (map (\<lambda>(k, v). (k, dumps v)) ms))) @ ''}''"


section \<open>Decoding\<close>

type_synonym 'a parser = "string \<Rightarrow> ('a \<times> string) option"

definition skip_ws :: "string \<Rightarrow> string" where
  "skip_ws = dropWhile (\<lambda>c. c \<in> set [CHR '' '', CHR 0x09, CHR 0x0A, CHR 0x0D])"

definition read_hex_digit :: "char \<Rightarrow> nat option" where
  "read_hex_digit c =
     (let n = of_char c :: nat
      in if 48 \<le> n \<and> n \<le> 57 then Some (n - 48)
         else if 97 \<le> n \<and> n \<le> 102 then Some (n - 87)
         else if 65 \<le> n \<and> n \<le> 70 then Some (n - 55)
         else None)"

fun read_hex :: "nat \<Rightarrow> string \<Rightarrow> nat option" where
  "read_hex acc [] = Some acc"
| "read_hex acc (c # cs) = (case read_hex_digit c of None \<Rightarrow> None | Some d \<Rightarrow> read_hex (16 * acc + d) cs)"

definition unescape :: "char \<Rightarrow> char option" where
  "unescape c = map_of [(quote, quote), (backslash, backslash), (CHR ''/'', CHR ''/''),
     (CHR ''b'', CHR 0x08), (CHR ''f'', CHR 0x0C), (CHR ''n'', CHR 0x0A), (CHR ''r'', CHR 0x0D),
     (CHR ''t'', CHR 0x09)] c"

definition prepend :: "'a \<Rightarrow> ('a list \<times> 'b) option \<Rightarrow> ('a list \<times> 'b) option" where
  "prepend x = map_option (apfst (Cons x))"

text \<open>The rest of a string literal after its opening quote.\<close>

fun scan_string :: "string parser" where
  "scan_string [] = None"
| "scan_string (c # cs) =
     (if c = quote then Some ([], cs)
      else if c = backslash then
        (case cs of
           [] \<Rightarrow> None
         | e # es \<Rightarrow>
             if e = CHR ''u'' then
               (case es of
                  h1 # h2 # h3 # h4 # rest \<Rightarrow>
                    (case read_hex 0 [h1, h2, h3, h4] of
                       None \<Rightarrow> None
                     | Some n \<Rightarrow> if n < 256 then prepend (char_of n) (scan_string rest) else None)
                | _ \<Rightarrow> None)
             else
               (case unescape e of None \<Rightarrow> None | Some x \<Rightarrow> prepend x (scan_string es)))
      else if (of_char c :: nat) < 32 then None
      else prepend c (scan_string cs))"

definition is_digit :: "char \<Rightarrow> bool" where
  "is_digit c \<longleftrightarrow> c \<in> set ''0123456789''"

definition int_part :: "string parser" where
  "int_part s =
     (case s of
        [] \<Rightarrow> None
      | c # cs \<Rightarrow> if c = CHR ''0'' then Some (''0'', cs)
                  else if is_digit c then Some (takeWhile is_digit s, dropWhile is_digit s)
                  else None)"

definition frac_part :: "string \<Rightarrow> string \<times> string" where
  "frac_part s =
     (case s of
        [] \<Rightarrow> ([], s)
      | c # cs \<Rightarrow> if c = CHR ''.'' \<and> takeWhile is_digit cs \<noteq> []
                  then (c # takeWhile is_digit cs, dropWhile is_digit cs) else ([], s))"

definition exp_part :: "string \<Rightarrow> string \<times> string" where
  "exp_part s =
     (case s of
        [] \<Rightarrow> ([], s)
      | c # cs \<Rightarrow>
          if c \<in> set ''eE'' then
            let sign = (case cs of [] \<Rightarrow> [] | d # _ \<Rightarrow> if d \<in> set ''+-'' then [d] else []);
                ds = drop (length sign) cs
            in if takeWhile is_digit ds \<noteq> []
               then (c # sign @ takeWhile is_digit ds, dropWhile is_digit ds) else ([], s)
          else ([], s))"

definition scan_number :: "json parser" where
  "scan_number s =
     (let (neg, s0) = (case s of [] \<Rightarrow> (False, s) | c # cs \<Rightarrow> if c = CHR ''-'' then (True, cs) else (False, s))
      in case int_part s0 of
           None \<Rightarrow> None
         | Some (i, r1) \<Rightarrow>
             let (f, r2) = frac_part r1; (e, r3) = exp_part r2; sign = (if neg then ''-'' else [])
             in if f = [] \<and> e = []
                then Some (J_Int (if neg then - int (read_nat 0 i) else int (read_nat 0 i)), r1)
                else Some (J_Float (sign @ i @ f @ e), r3))"

fun strip_prefix :: "string \<Rightarrow> string \<Rightarrow> string option" where
  "strip_prefix [] s = Some s"
| "strip_prefix (x # xs) [] = None"
| "strip_prefix (x # xs) (y # ys) = (if x = y then strip_prefix xs ys else None)"

definition constants :: "(string \<times> json) list" where
  "constants = [(''null'', J_Null), (''true'', J_Bool True), (''false'', J_Bool False),
     (''NaN'', J_Float ''NaN''), (''Infinity'', J_Float ''Infinity''), (''-Infinity'', J_Float ''-Infinity'')]"

fun scan_constant :: "(string \<times> json) list \<Rightarrow> json parser" where
  "scan_constant [] s = scan_number s"
| "scan_constant ((t, v) # cs) s =
     (case strip_prefix t s of None \<Rightarrow> scan_constant cs s | Some r \<Rightarrow> Some (v, r))"

fun scan_value :: "nat \<Rightarrow> json parser"
  and scan_elements :: "nat \<Rightarrow> json list parser"
  and scan_members :: "nat \<Rightarrow> (string \<times> json) list parser" where
  "scan_value 0 s = None"
| "scan_value (Suc n) s =
     (case s of
        [] \<Rightarrow> None
      | c # cs \<Rightarrow>
          if c = quote then map_option (apfst J_Str) (scan_string cs)
          else if c = CHR ''{'' then
            (case skip_ws cs of
               [] \<Rightarrow> None
             | d # ds \<Rightarrow>
                 if d = CHR ''}'' then Some (J_Obj [], ds)
                 else (case scan_members n (d # ds) of
                         None \<Rightarrow> None
                       | Some (ms, r) \<Rightarrow> if distinct (map fst ms) then Some (J_Obj ms, r) else None))
          else if c = CHR ''['' then
            (case skip_ws cs of
               [] \<Rightarrow> None
             | d # ds \<Rightarrow>
                 if d = CHR '']'' then Some (J_Arr [], ds)
                 else map_option (apfst J_Arr) (scan_elements n (d # ds)))
          else scan_constant constants s)"
| "scan_elements 0 s = None"
| "scan_elements (Suc n) s =
     (case scan_value n s of
        None \<Rightarrow> None
      | Some (v, r) \<Rightarrow>
          (case skip_ws r of
             [] \<Rightarrow> None
           | c # cs \<Rightarrow>
               if c = CHR '']'' then Some ([v], cs)
               else if c = CHR '','' then prepend v (scan_elements n (skip_ws cs))
               else None))"
| "scan_members 0 s = None"
| "scan_members (Suc n) s =
     (case s of
        [] \<Rightarrow> None
      | c # cs \<Rightarrow>
          if c \<noteq> quote then None
          else (case scan_string cs of
             None \<Rightarrow> None
           | Some (k, r) \<Rightarrow>
               (case skip_ws r of
                  [] \<Rightarrow> None
                | d # ds \<Rightarrow>
                    if d \<noteq> CHR '':'' then None
                    else (case scan_value n (skip_ws ds) of
                       None \<Rightarrow> None
                     | Some (v, r') \<Rightarrow>
                         (case skip_ws r' of
                            [] \<Rightarrow> None
                          | e # es \<Rightarrow>
                              if e = CHR ''}'' then Some ([(k, v)], es)
                              else if e = CHR '','' then prepend (k, v) (scan_members n (skip_ws es))
                              else None)))))"

definition loads :: "string \<Rightarrow> json option" where
  "loads s =
     (case scan_value (2 * length s + 1) (skip_ws s) of
        None \<Rightarrow> None
      | Some (v, r) \<Rightarrow> if skip_ws r = [] then Some v else None)"



section \<open>Inspecting a value\<close>

definition j_str :: "json option \<Rightarrow> string option" where
  "j_str v = (case v of Some (J_Str s) \<Rightarrow> Some s | _ \<Rightarrow> None)"

definition j_int :: "json option \<Rightarrow> int option" where
  "j_int v = (case v of Some (J_Int i) \<Rightarrow> Some i | _ \<Rightarrow> None)"

definition j_arr :: "json option \<Rightarrow> json list option" where
  "j_arr v = (case v of Some (J_Arr vs) \<Rightarrow> Some vs | _ \<Rightarrow> None)"

definition j_obj :: "json option \<Rightarrow> (string \<times> json) list option" where
  "j_obj v = (case v of Some (J_Obj ms) \<Rightarrow> Some ms | _ \<Rightarrow> None)"

definition has_keys :: "(string \<times> json) list \<Rightarrow> string list \<Rightarrow> bool" where
  "has_keys ms ks \<longleftrightarrow> set (map fst ms) = set ks"

lemma j_simps [simp]:
  "j_str None = None" "j_str (Some (J_Str s)) = Some s"
  "j_int None = None" "j_int (Some (J_Int i)) = Some i"
  "j_arr None = None" "j_arr (Some (J_Arr vs)) = Some vs"
  "j_obj None = None" "j_obj (Some (J_Obj ms)) = Some ms"
  by (simp_all add: j_str_def j_int_def j_arr_def j_obj_def)

lemma j_Some:
  "j_str v = Some s \<longleftrightarrow> v = Some (J_Str s)" "j_int v = Some i \<longleftrightarrow> v = Some (J_Int i)"
  "j_arr v = Some vs \<longleftrightarrow> v = Some (J_Arr vs)" "j_obj v = Some ms \<longleftrightarrow> v = Some (J_Obj ms)"
  by (auto simp: j_str_def j_int_def j_arr_def j_obj_def split: option.splits json.splits)

lemma size_member: "map_of ms k = Some v \<Longrightarrow> size v < size (J_Obj ms)"
proof -
  assume "map_of ms k = Some v"
  then have "(k, v) \<in> set ms" by (rule map_of_SomeD)
  then show ?thesis by (induction ms) auto
qed

lemma size_element: "v \<in> set vs \<Longrightarrow> size v < size (J_Arr vs)"
  by (induction vs) auto

lemma size_set_item: "map_of ms k = Some (J_Arr vs) \<Longrightarrow> v \<in> set vs \<Longrightarrow> size v < size (J_Obj ms)"
  using size_element size_member order.strict_trans by blast

lemma size_field: "map_of ms k = Some (J_Obj fs) \<Longrightarrow> map_of fs l = Some v \<Longrightarrow> size v < size (J_Obj ms)"
  using size_member order.strict_trans by blast


section \<open>Decoding always ends: the fuel is enough\<close>

text \<open>Every scanner that succeeds leaves a shorter text.\<close>

lemma skip_ws_shorter: "length (skip_ws s) \<le> length s"
  by (simp add: skip_ws_def length_dropWhile_le)

lemma prepend_Some: "prepend x m = Some (ys, r) \<longleftrightarrow> (\<exists>zs. m = Some (zs, r) \<and> ys = x # zs)"
  by (cases m) (auto simp: prepend_def)

lemma scan_string_shorter: "scan_string s = Some (t, r) \<Longrightarrow> length r < length s"
proof (induction s arbitrary: t r rule: scan_string.induct)
  case (2 c cs)
  then show ?case
    by (fastforce simp: prepend_Some split: if_splits list.splits option.splits)
qed simp

lemma strip_prefix_shorter: "strip_prefix t s = Some r \<Longrightarrow> length s = length t + length r"
  by (induction t s rule: strip_prefix.induct) (auto split: if_splits)

lemma int_part_shorter: "int_part s = Some (i, r) \<Longrightarrow> length r < length s"
  by (cases s) (auto simp: int_part_def length_dropWhile_le le_imp_less_Suc split: if_splits)

lemma frac_part_shorter: "length (snd (frac_part s)) \<le> length s"
  by (cases s) (auto simp: frac_part_def intro: le_SucI length_dropWhile_le)

lemma exp_part_shorter: "length (snd (exp_part s)) \<le> length s"
proof (cases s)
  case (Cons c cs)
  have "length (dropWhile is_digit (drop k cs)) \<le> Suc (length cs)" for k
    using length_dropWhile_le [of is_digit "drop k cs"] by simp
  then show ?thesis using Cons by (simp add: exp_part_def Let_def)
qed (simp add: exp_part_def)

lemma scan_number_shorter: "scan_number s = Some (v, r) \<Longrightarrow> length r < length s"
proof -
  assume "scan_number s = Some (v, r)"
  then obtain s0 i r1 where i: "int_part s0 = Some (i, r1)" "length s0 \<le> length s"
      and r: "r = r1 \<or> r = snd (exp_part (snd (frac_part r1)))"
    by (cases s) (auto simp: scan_number_def Let_def split: if_splits option.splits prod.splits)
  have "length (snd (exp_part (snd (frac_part r1)))) \<le> length r1"
    using exp_part_shorter frac_part_shorter le_trans by blast
  then show ?thesis using i r int_part_shorter [OF i(1)] by auto
qed

lemma scan_constant_shorter:
  "list_all (\<lambda>(t, _). t \<noteq> []) cs \<Longrightarrow> scan_constant cs s = Some (v, r) \<Longrightarrow> length r < length s"
proof (induction cs s rule: scan_constant.induct)
  case (2 t w cs s)
  then show ?case
    using strip_prefix_shorter [of t s] by (fastforce split: option.splits)
qed (simp add: scan_number_shorter)

lemma constants_nonempty: "list_all (\<lambda>(t, _). t \<noteq> []) constants"
  by (simp add: constants_def)

lemmas shorter = scan_string_shorter scan_constant_shorter [OF constants_nonempty]

text \<open>A success after skipping blanks, one step further on.\<close>

lemma after_ws: "skip_ws r = c # cs \<Longrightarrow> length cs < length r"
  using skip_ws_shorter [of r] by simp

lemma scan_shorter:
  "scan_value n s = Some (v, r) \<Longrightarrow> length r < length s"
  "scan_elements n s = Some (vs, r) \<Longrightarrow> length r < length s"
  "scan_members n s = Some (ms, r) \<Longrightarrow> length r < length s"
proof (induction n s and n s and n s arbitrary: v r and vs r and ms r
    rule: scan_value_scan_elements_scan_members.induct)
  case (2 n s)
  from "2.prems" obtain c cs where s: "s = c # cs" by (cases s) auto
  consider "c = quote" | "c = CHR ''{''" | "c = CHR ''[''" | "c \<notin> {quote, CHR ''{'', CHR ''[''}" by blast
  then show ?case
  proof cases
    case 1
    then show ?thesis using "2.prems" s by (auto dest: shorter(1))
  next
    case 2
    then obtain d ds where d: "skip_ws cs = d # ds" using "2.prems" s by (auto split: list.splits)
    then show ?thesis
      using "2.prems" s 2 skip_ws_shorter [of cs] "2.IH"(1) [OF s _ _ d]
      by (fastforce split: if_splits option.splits)
  next
    case 3
    then obtain d ds where d: "skip_ws cs = d # ds" using "2.prems" s by (auto split: list.splits)
    then show ?thesis
      using "2.prems" s 3 skip_ws_shorter [of cs] "2.IH"(2) [OF s _ _ _ d]
      by (fastforce split: if_splits option.splits)
  next
    case 4
    then show ?thesis using "2.prems" shorter(2) [of s v r] s by simp
  qed
next
  case (4 n s)
  from "4.prems" obtain v r1 c cs where v: "scan_value n s = Some (v, r1)" and c: "skip_ws r1 = c # cs"
    by (auto split: option.splits list.splits)
  then have *: "length r1 < length s" "length cs < length r1" using "4.IH"(1) after_ws by auto
  show ?case
  proof (cases "c = CHR '']''")
    case False
    then obtain zs where "scan_elements n (skip_ws cs) = Some (zs, r)" "c = CHR '',''"
      using "4.prems" v c by (auto simp: prepend_Some split: if_splits)
    then show ?thesis using "4.IH"(2) [OF v refl c False] * skip_ws_shorter [of cs] by fastforce
  qed (use "4.prems" v c * in auto)
next
  case (6 n s)
  from "6.prems" obtain cs k r1 ds v r2 e es where
      s: "s = quote # cs" and k: "scan_string cs = Some (k, r1)" and ds: "skip_ws r1 = CHR '':'' # ds"
      and v: "scan_value n (skip_ws ds) = Some (v, r2)" and e: "skip_ws r2 = e # es"
    by (auto split: list.splits option.splits if_splits)
  have *: "length r1 < length cs" "length ds < length r1" "length r2 < length (skip_ws ds)"
      "length es < length r2"
    using k ds v e "6.IH"(1) [OF s _ k refl ds] after_ws shorter(1) by auto
  show ?case
  proof (cases "e = CHR ''}''")
    case False
    then obtain zs where z: "scan_members n (skip_ws es) = Some (zs, r)" "e = CHR '',''"
      using "6.prems" s k ds v e by (auto simp: prepend_Some split: if_splits)
    then have "length r < length (skip_ws es)"
      using "6.IH"(2) [OF s _ k refl ds _ v refl e False] by simp
    then show ?thesis using * skip_ws_shorter [of es] skip_ws_shorter [of ds] s by simp
  qed (use "6.prems" s k ds v e * skip_ws_shorter [of ds] in auto)
qed simp_all


lemmas scan_simps = scan_value.simps(2) scan_elements.simps(2) scan_members.simps(2)

declare scan_simps [simp del]

lemmas case_congs = list.case_cong option.case_cong prod.case_cong if_cong

lemma scan_fuel:
  "2 * length s < n \<Longrightarrow> scan_value (Suc n) s = scan_value n s"
  "2 * length s + 1 < n \<Longrightarrow> scan_elements (Suc n) s = scan_elements n s"
  "2 * length s + 1 < n \<Longrightarrow> scan_members (Suc n) s = scan_members n s"
proof (induction n arbitrary: s)
  case (Suc n)
  { case 1
    show ?case
    proof (cases s)
      case (Cons c cs)
      have "scan_elements (Suc n) (d # ds) = scan_elements n (d # ds)"
          "scan_members (Suc n) (d # ds) = scan_members n (d # ds)" if "skip_ws cs = d # ds" for d ds
        using Suc.IH(2,3) [of "d # ds"] skip_ws_shorter [of cs] that 1 Cons by simp_all
      then show ?thesis
        unfolding scan_value.simps(2) [of "Suc n"] scan_value.simps(2) [of n] Cons
        by (simp cong: case_congs)
    qed (simp add: scan_simps)
  next
    case 2
    have v: "scan_value (Suc n) s = scan_value n s" using Suc.IH(1) [of s] 2 by simp
    have "scan_elements (Suc n) (skip_ws cs) = scan_elements n (skip_ws cs)"
      if "scan_value n s = Some (v, r)" "skip_ws r = c # cs" for v r c cs
      using Suc.IH(2) [of "skip_ws cs"] scan_shorter(1) [OF that(1)] after_ws [OF that(2)]
        skip_ws_shorter [of cs] 2 by simp
    then show ?case
      unfolding scan_elements.simps(2) [of "Suc n"] scan_elements.simps(2) [of n] v
      by (simp cong: case_congs)
  next
    case 3
    show ?case
    proof (cases s)
      case (Cons c cs)
      have v: "scan_value (Suc n) (skip_ws ds) = scan_value n (skip_ws ds)"
        if "scan_string cs = Some (k, r)" "skip_ws r = d # ds" for k r d ds
        using Suc.IH(1) [of "skip_ws ds"] shorter(1) [OF that(1)] after_ws [OF that(2)]
          skip_ws_shorter [of ds] 3 Cons by simp
      have m: "scan_members (Suc n) (skip_ws es) = scan_members n (skip_ws es)"
        if "scan_string cs = Some (k, r)" "skip_ws r = d # ds" "scan_value n (skip_ws ds) = Some (v, r')"
          "skip_ws r' = e # es" for k r d ds v r' e es
        using Suc.IH(3) [of "skip_ws es"] shorter(1) [OF that(1)] after_ws [OF that(2)]
          scan_shorter(1) [OF that(3)] after_ws [OF that(4)] skip_ws_shorter [of ds]
          skip_ws_shorter [of es] 3 Cons by simp
      show ?thesis
        unfolding scan_members.simps(2) [of "Suc n" s] scan_members.simps(2) [of n s]
        by (simp add: Cons v m cong: case_congs)
    qed (simp add: scan_simps)
  }
qed simp_all

lemma loads_fuel: "2 * length s < n \<Longrightarrow>
    loads s = (case scan_value n (skip_ws s) of
                 None \<Rightarrow> None | Some (v, r) \<Rightarrow> if skip_ws r = [] then Some v else None)"
proof -
  assume n: "2 * length s < n"
  have "scan_value (2 * length s + 1 + k) (skip_ws s) = scan_value (2 * length s + 1) (skip_ws s)" for k
    using skip_ws_shorter [of s] by (induction k) (simp_all add: scan_fuel(1))
  from this [of "n - (2 * length s + 1)"] show ?thesis using n by (simp add: loads_def)
qed


section \<open>What is printed is read back\<close>

text \<open>Scanning stops in front of a separator or at the end of the text.\<close>

definition stops :: "string \<Rightarrow> bool" where
  "stops r \<longleftrightarrow> (case r of [] \<Rightarrow> True | c # _ \<Rightarrow> c \<in> set '',]}'')"

fun distinct_keys :: "json \<Rightarrow> bool" where
  "distinct_keys (J_Float t) \<longleftrightarrow> False"
| "distinct_keys (J_Arr vs) \<longleftrightarrow> list_all distinct_keys vs"
| "distinct_keys (J_Obj ms) \<longleftrightarrow> distinct (map fst ms) \<and> list_all (\<lambda>(_, v). distinct_keys v) ms"
| "distinct_keys v \<longleftrightarrow> True"

fun sort_keys :: "json \<Rightarrow> json" where
  "sort_keys (J_Arr vs) = J_Arr (map sort_keys vs)"
| "sort_keys (J_Obj ms) = J_Obj (sort_key fst (map (\<lambda>(k, v). (k, sort_keys v)) ms))"
| "sort_keys v = v"

lemma read_hex_digit_inverse: "read_hex_digit (hex_digit n) = Some (n mod 16)"
proof -
  have "n mod 16 \<in> set [0..<16]" by simp
  moreover have "list_all (\<lambda>m. read_hex_digit (''0123456789abcdef'' ! m) = Some m) [0..<16]"
    by code_simp
  ultimately show ?thesis unfolding hex_digit_def list_all_iff by blast
qed

lemma scan_escape: "scan_string (escape c @ r) = prepend c (scan_string r)"
proof -
  have n: "of_char c < (256 :: nat)" by simp
  then have "(of_char c :: nat) div 16 < 16" by (simp add: less_mult_imp_div_less)
  moreover have zero: "read_hex_digit (CHR ''0'') = Some 0" by code_simp
  ultimately have h: "read_hex 0 [CHR ''0'', CHR ''0'', hex_digit (of_char c div 16), hex_digit (of_char c)]
      = Some (of_char c :: nat)"
    by (simp add: read_hex_digit_inverse zero)
  show ?thesis
  proof (cases "c \<in> set [quote, backslash, CHR 0x0A, CHR 0x0D, CHR 0x09, CHR 0x0C, CHR 0x08]")
    case True
    then show ?thesis by (auto simp: escape_def unescape_def)
  next
    case False
    then show ?thesis using h n by (auto simp: escape_def simp del: read_hex.simps)
  qed
qed

lemma scan_quoted: "scan_string (tl (quoted s) @ r) = Some (s, r)"
  by (induction s) (auto simp: quoted_def scan_escape prepend_def simp del: scan_string.simps(2)
      intro: scan_string.simps(2) [THEN trans])


lemma not_digit: "c \<in> set (quote # '',]}-:{['') \<Longrightarrow> \<not> is_digit c"
  by (auto simp: is_digit_def)

lemma show_nat_0: "show_nat 0 = ''0''"
  by code_simp

lemma show_nat_is_digit: "c \<in> set (show_nat n) \<Longrightarrow> is_digit c"
proof (induction n rule: show_nat.induct)
  case (1 n)
  have "list_all (\<lambda>d. is_digit (char_of (48 + d))) [0 :: nat, 1, 2, 3, 4, 5, 6, 7, 8, 9]" by code_simp
  moreover have "d < 10 \<Longrightarrow> d \<in> set [0 :: nat, 1, 2, 3, 4, 5, 6, 7, 8, 9]" for d by auto
  ultimately have digit: "d < 10 \<Longrightarrow> is_digit (char_of (48 + d))" for d :: nat
    unfolding list_all_iff by blast
  show ?case
    using 1 digit [of n] digit [of "n mod 10"] by (auto simp: show_nat.simps [of n] split: if_splits)
qed

lemma show_nat_head: "0 < n \<Longrightarrow> \<exists>c cs. show_nat n = c # cs \<and> c \<noteq> CHR ''0''"
proof (induction n rule: show_nat.induct)
  case (1 n)
  show ?case
  proof (cases "n < 10")
    case True
    then have "of_char (char_of (48 + n) :: char) = 48 + n" by (rule of_char_digit)
    moreover have "of_char (CHR ''0'') = (48 :: nat)" by simp
    ultimately have "(char_of (48 + n) :: char) \<noteq> CHR ''0''" using 1(2) by (metis less_not_refl add_cancel_right_right)
    then show ?thesis using True by (simp add: show_nat.simps [of n])
  next
    case False
    then show ?thesis using 1 by (fastforce simp: show_nat.simps [of n])
  qed
qed

lemma stops_digit: "stops r \<Longrightarrow> takeWhile is_digit r = [] \<and> dropWhile is_digit r = r"
  by (cases r) (auto simp: stops_def not_digit)

lemma stops_parts: "stops r \<Longrightarrow> frac_part r = ([], r)" "stops r \<Longrightarrow> exp_part r = ([], r)"
  by (cases r; auto simp: stops_def frac_part_def exp_part_def)+

lemma int_part_show: "stops r \<Longrightarrow> int_part (show_nat n @ r) = Some (show_nat n, r)"
proof (cases "n = 0")
  case True
  then show ?thesis by (simp add: show_nat_0 int_part_def)
next
  case False
  assume r: "stops r"
  obtain c cs where c: "show_nat n = c # cs" "c \<noteq> CHR ''0''" using False show_nat_head by blast
  have "takeWhile is_digit (show_nat n @ r) = show_nat n @ takeWhile is_digit r"
      "dropWhile is_digit (show_nat n @ r) = dropWhile is_digit r"
    using show_nat_is_digit by (auto intro: takeWhile_append2 dropWhile_append2)
  moreover have "is_digit c" using show_nat_is_digit [of c n] c by simp
  ultimately show ?thesis using c stops_digit [OF r] by (auto simp: int_part_def)
qed

lemma show_nat_first: "\<exists>c cs. show_nat n = c # cs \<and> is_digit c"
  using show_nat_is_digit [of "hd (show_nat n)" n] show_nat_head [of n]
  by (cases "n = 0") (auto simp: show_nat_0)

lemma scan_number_show: "stops r \<Longrightarrow> scan_number (show_int i @ r) = Some (J_Int i, r)"
proof -
  assume r: "stops r"
  show ?thesis
  proof (cases "i < 0")
    case True
    then show ?thesis
      by (simp add: scan_number_def show_int_def int_part_show [OF r] read_show_nat stops_parts [OF r])
  next
    case False
    obtain c cs where c: "show_nat (nat i) = c # cs" "is_digit c" using show_nat_first by blast
    then have "c \<noteq> CHR ''-''" using not_digit by auto
    then have "scan_number (show_nat (nat i) @ r) = Some (J_Int (int (read_nat 0 (show_nat (nat i)))), r)"
      using int_part_show [OF r, of "nat i"] c by (simp add: scan_number_def stops_parts [OF r])
    then show ?thesis using False by (simp add: show_int_def read_show_nat)
  qed
qed

lemma scan_constant_show: "stops r \<Longrightarrow> scan_constant constants (show_int i @ r) = Some (J_Int i, r)"
proof -
  assume r: "stops r"
  obtain c cs where c: "show_nat (nat i) = c # cs" "is_digit c" using show_nat_first by blast
  obtain d ds where d: "show_nat (nat (- i)) = d # ds" "is_digit d" using show_nat_first by blast
  have "x \<noteq> y" if "is_digit x" "y \<in> set ''ntfNI-''" for x y using that by (auto simp: is_digit_def)
  from this [OF c(2)] this [OF d(2)]
  have "c \<noteq> CHR ''n''" "c \<noteq> CHR ''t''" "c \<noteq> CHR ''f''" "c \<noteq> CHR ''N''" "c \<noteq> CHR ''I''"
      "c \<noteq> CHR ''-''" "d \<noteq> CHR ''I''" by auto
  with c(1) d(1) have "scan_constant constants (show_int i @ r) = scan_number (show_int i @ r)"
    by (simp add: constants_def show_int_def)
  then show ?thesis using scan_number_show [OF r] by simp
qed

abbreviation value_starts :: string where
  "value_starts \<equiv> quote # ''ntf-0123456789[{''"

lemma dumps_first: "distinct_keys v \<Longrightarrow> \<exists>c cs. dumps v = c # cs \<and> c \<in> set value_starts"
proof (cases v)
  case (J_Int i)
  obtain c cs where "show_nat (nat i) = c # cs" "is_digit c" using show_nat_first by blast
  then show ?thesis using J_Int by (simp add: show_int_def is_digit_def) blast
qed (auto simp: quoted_def)

lemma skip_ws_start: "c \<in> set (value_starts @ '',]}:'') \<Longrightarrow> skip_ws (c # cs) = c # cs"
  by (auto simp: skip_ws_def)

lemma skip_ws_dumps: "distinct_keys v \<Longrightarrow> skip_ws (dumps v @ r) = dumps v @ r"
  using dumps_first [of v] skip_ws_start by fastforce

lemma sort_key_map: "sort_key f (map g xs) = map g (sort_key (\<lambda>x. f (g x)) xs)"
proof (induction xs)
  case (Cons x xs)
  have "insort_key f (g x) (map g ys) = map g (insort_key (\<lambda>x. f (g x)) x ys)" for ys
    by (induction ys) auto
  then show ?case using Cons by simp
qed simp

lemma sort_key_map_snd: "sort_key fst (map (\<lambda>(k, v). (k, f v)) xs) = map (\<lambda>(k, v). (k, f v)) (sort_key fst xs)"
  by (simp add: sort_key_map case_prod_unfold)

lemma those_Some: "(\<And>x. x \<in> set xs \<Longrightarrow> f x = Some (g x)) \<Longrightarrow> those (map f xs) = Some (map g xs)"
  by (induction xs) auto

text \<open>What the induction over a value gives for one of its parts.\<close>

definition read_back :: "json \<Rightarrow> bool" where
  "read_back v \<longleftrightarrow> (\<forall>n r. stops r \<longrightarrow> length (dumps v) \<le> n \<longrightarrow>
     scan_value n (dumps v @ r) = Some (sort_keys v, r))"

lemma read_backI:
  assumes "dumps v \<noteq> []"
    and "\<And>n r. stops r \<Longrightarrow> length (dumps v) \<le> Suc n \<Longrightarrow>
      scan_value (Suc n) (dumps v @ r) = Some (sort_keys v, r)"
  shows "read_back v"
  unfolding read_back_def using assms by (metis le_zero_eq length_0_conv not0_implies_Suc)

lemma scan_elements_join:
  assumes "list_all (\<lambda>v. distinct_keys v \<and> read_back v) (v # vs)"
    and "length (join '','' (map dumps (v # vs))) < n"
  shows "scan_elements n (join '','' (map dumps (v # vs)) @ CHR '']'' # r) = Some (map sort_keys (v # vs), r)"
  using assms
proof (induction vs arbitrary: v n)
  case Nil
  then obtain m where n: "n = Suc m" by (cases n) auto
  have "scan_value m (dumps v @ CHR '']'' # r) = Some (sort_keys v, CHR '']'' # r)"
    using Nil n by (auto simp: read_back_def stops_def)
  then show ?case using n by (simp add: scan_simps skip_ws_start)
next
  case (Cons w vs)
  then obtain m where n: "n = Suc m" by (cases n) auto
  have "scan_value m (dumps v @ CHR '','' # join '','' (map dumps (w # vs)) @ CHR '']'' # r)
      = Some (sort_keys v, CHR '','' # join '','' (map dumps (w # vs)) @ CHR '']'' # r)"
    using Cons.prems n by (auto simp: read_back_def stops_def)
  moreover have "skip_ws (join '','' (map dumps (w # vs)) @ CHR '']'' # r)
      = join '','' (map dumps (w # vs)) @ CHR '']'' # r"
    using Cons.prems skip_ws_dumps [of w] by (cases vs) auto
  moreover have "scan_elements m (join '','' (map dumps (w # vs)) @ CHR '']'' # r)
      = Some (map sort_keys (w # vs), r)"
    using Cons.prems n by (intro Cons.IH) auto
  ultimately show ?case using n by (simp add: scan_simps skip_ws_start prepend_def)
qed

abbreviation member_text :: "string \<times> json \<Rightarrow> string" where
  "member_text \<equiv> \<lambda>(k, v). quoted k @ '':'' @ dumps v"

abbreviation sorted_member :: "string \<times> json \<Rightarrow> string \<times> json" where
  "sorted_member \<equiv> \<lambda>(k, v). (k, sort_keys v)"

lemma quoted_scan: obtains q where "quoted k = quote # q" and "\<And>r. scan_string (q @ r) = Some (k, r)"
  using scan_quoted [of k] by (simp add: quoted_def)

lemma scan_members_join:
  assumes "list_all (\<lambda>(_, v). distinct_keys v \<and> read_back v) (m # ms)"
    and "length (join '','' (map member_text (m # ms))) < n"
  shows "scan_members n (join '','' (map member_text (m # ms)) @ CHR ''}'' # r)
      = Some (map sorted_member (m # ms), r)"
  using assms
proof (induction ms arbitrary: m n)
  case Nil
  obtain k v where m: "m = (k, v)" by (cases m)
  obtain n' where n: "n = Suc n'" using Nil by (cases n) auto
  have "scan_value n' (dumps v @ CHR ''}'' # r) = Some (sort_keys v, CHR ''}'' # r)"
    using Nil n m by (auto simp: read_back_def stops_def)
  moreover obtain q where "quoted k = quote # q" "\<And>r. scan_string (q @ r) = Some (k, r)"
    using quoted_scan [of k] by blast
  ultimately show ?case
    using n m skip_ws_dumps [of v] Nil by (simp add: scan_simps skip_ws_start)
next
  case (Cons m' ms)
  obtain k v where m: "m = (k, v)" by (cases m)
  obtain k' v' where m': "m' = (k', v')" by (cases m')
  obtain n' where n: "n = Suc n'" using Cons by (cases n) auto
  let ?rest = "join '','' (map member_text (m' # ms)) @ CHR ''}'' # r"
  have "scan_value n' (dumps v @ CHR '','' # ?rest) = Some (sort_keys v, CHR '','' # ?rest)"
    using Cons.prems n m by (auto simp: read_back_def stops_def)
  moreover have "skip_ws ?rest = ?rest"
    using m' by (cases ms) (auto simp: quoted_def skip_ws_start)
  moreover have "scan_members n' ?rest = Some (map sorted_member (m' # ms), r)"
    using Cons.prems n by (intro Cons.IH) auto
  moreover obtain q where "quoted k = quote # q" "\<And>r. scan_string (q @ r) = Some (k, r)"
    using quoted_scan [of k] by blast
  ultimately show ?case
    using n m skip_ws_dumps [of v] Cons.prems by (simp add: scan_simps skip_ws_start prepend_def)
qed


lemma dumps_Obj:
  "dumps (J_Obj ms) = ''{'' @ join '','' (map member_text (sort_key fst ms)) @ ''}''"
  unfolding dumps.simps sort_key_map_snd map_map by (simp add: comp_def case_prod_unfold)

lemma sort_keys_Obj: "sort_keys (J_Obj ms) = J_Obj (map sorted_member (sort_key fst ms))"
  by (simp add: sort_key_map_snd)

lemma scan_dumps: "distinct_keys v \<Longrightarrow> read_back v"
proof (induction v rule: dumps.induct)
  case (3 i)
  obtain c cs where c: "show_int i = c # cs" "c = CHR ''-'' \<or> is_digit c"
    using show_nat_first [of "nat i"] by (cases "i < 0") (auto simp: show_int_def)
  then have "c \<noteq> quote" "c \<noteq> CHR ''{''" "c \<noteq> CHR ''[''" using not_digit by auto
  then have "scan_value (Suc m) (show_int i @ r) = scan_constant constants (show_int i @ r)" for m r
    using c by (simp add: scan_simps)
  then show ?case using scan_constant_show [of _ i] c by (intro read_backI) auto
next
  case (5 s)
  obtain q where "quoted s = quote # q" "\<And>r. scan_string (q @ r) = Some (s, r)" using quoted_scan [of s] by blast
  then show ?case by (intro read_backI) (auto simp: scan_simps)
next
  case (6 vs)
  show ?case unfolding read_back_def
  proof (intro allI impI)
    fix n r assume n: "length (dumps (J_Arr vs)) \<le> n"
    show "scan_value n (dumps (J_Arr vs) @ r) = Some (sort_keys (J_Arr vs), r)"
    proof (cases vs)
      case (Cons w ws)
      obtain m where m: "n = Suc m" "length (join '','' (map dumps vs)) < m" using n by (cases n) auto
      have "scan_elements m (join '','' (map dumps vs) @ CHR '']'' # r) = Some (map sort_keys vs, r)"
        using scan_elements_join [of w ws m r] m 6 Cons by (simp add: list_all_iff)
      moreover obtain c cs where "join '','' (map dumps vs) @ CHR '']'' # r = c # cs" "c \<in> set value_starts"
        using dumps_first [of w] 6 Cons by (cases ws) auto
      moreover from this have "c \<noteq> CHR '']''" "skip_ws (c # cs) = c # cs" using skip_ws_start by auto
      ultimately show ?thesis using m by (simp add: scan_simps)
    qed (use n in \<open>cases n; simp add: scan_simps skip_ws_start\<close>)
  qed
next
  case (7 ms)
  define ms' where "ms' = sort_key fst ms"
  have ok: "list_all (\<lambda>(_, v). distinct_keys v \<and> read_back v) ms'"
    using 7 by (fastforce simp: ms'_def list_all_iff)
  have "distinct (map fst (sort_key fst ms))"
    using 7 by (metis distinct_keys.simps(3) distinct_map distinct_sort set_sort)
  then have dist: "distinct (map fst (map sorted_member ms'))"
    by (simp add: ms'_def comp_def case_prod_beta)
  show ?case unfolding read_back_def dumps_Obj sort_keys_Obj ms'_def [symmetric]
  proof (intro allI impI)
    fix n r assume n: "length (''{'' @ join '','' (map member_text ms') @ ''}'') \<le> n"
    show "scan_value n ((''{'' @ join '','' (map member_text ms') @ ''}'') @ r)
        = Some (J_Obj (map sorted_member ms'), r)"
    proof (cases ms')
      case (Cons w ws)
      obtain m where m: "n = Suc m" "length (join '','' (map member_text ms')) < m" using n by (cases n) auto
      have "scan_members m (join '','' (map member_text ms') @ CHR ''}'' # r) = Some (map sorted_member ms', r)"
        using scan_members_join [of w ws m r] m ok Cons by simp
      moreover obtain cs where "join '','' (map member_text ms') @ CHR ''}'' # r = quote # cs"
        using Cons by (cases w; cases ws) (auto simp: quoted_def)
      ultimately show ?thesis using m dist by (simp add: scan_simps skip_ws_start)
    qed (use n in \<open>cases n; simp add: scan_simps skip_ws_start\<close>)
  qed
qed (auto intro!: read_backI simp: scan_simps constants_def split: if_splits)

text \<open>Sorting the keys of an object changes no lookup.\<close>

lemma map_of_sorted:
  assumes "distinct (map fst ms)"
  shows "map_of (sort_key fst (map (\<lambda>(k, v). (k, f v)) ms)) k = map_option f (map_of ms k)"
proof -
  have "distinct (map fst (sort_key fst ms))"
    using assms by (metis distinct_map distinct_sort set_sort)
  then have "map_of (sort_key fst ms) = map_of ms"
    using assms by (intro map_of_inject_set [THEN iffD2]) simp_all
  then show ?thesis by (simp add: sort_key_map_snd map_of_map option.map_comp)
qed

lemma has_keys_sorted: "has_keys (sort_key fst (map (\<lambda>(k, v). (k, f v)) ms)) ks = has_keys ms ks"
  by (simp add: has_keys_def image_image case_prod_unfold)

lemma j_sort_keys:
  "j_str (map_option sort_keys v) = j_str v" "j_int (map_option sort_keys v) = j_int v"
  "j_arr (map_option sort_keys v) = map_option (map sort_keys) (j_arr v)"
  "j_obj (map_option sort_keys v) = map_option (\<lambda>ms. sort_key fst (map sorted_member ms)) (j_obj v)"
  by (auto simp: j_str_def j_int_def j_arr_def j_obj_def split: option.splits json.splits)

lemma distinct_keys_member: "distinct_keys (J_Obj ms) \<Longrightarrow> map_of ms k = Some v \<Longrightarrow> distinct_keys v"
  by (auto simp: list_all_iff dest!: map_of_SomeD)

lemma scan_loads:
  assumes "distinct_keys v"
  shows "loads (dumps v) = Some (sort_keys v)"
proof -
  have "scan_value (2 * length (dumps v) + 1) (dumps v @ []) = Some (sort_keys v, [])"
    using scan_dumps [OF assms, unfolded read_back_def, rule_format, of "[]" "2 * length (dumps v) + 1"]
    by (simp add: stops_def)
  then show ?thesis using skip_ws_dumps [OF assms, of "[]"] by (simp add: loads_def skip_ws_def)
qed

end
