(* ===== verification/Wire.thy ===== *)
theory Wire
  imports Json Calendar
begin

text \<open>
  The text forms of scalar values in the repository's documents: base64 (\<^verbatim>\<open>base64.b64encode\<close> and
  the strict \<^verbatim>\<open>b64decode(..., validate=True)\<close>), canonical UUIDv4 text (\<^verbatim>\<open>OpaqueId.parse\<close> and the
  mailbox's \<^verbatim>\<open>_uuid\<close>), and \<^verbatim>\<open>datetime.isoformat()\<close> of a UTC instant.
\<close>


section \<open>Base64\<close>

definition b64_char :: "nat \<Rightarrow> char" where
  "b64_char n =
     (if n < 26 then char_of (65 + n) else if n < 52 then char_of (71 + n)
      else if n < 62 then char_of (n - 4) else if n = 62 then CHR ''+'' else CHR ''/'')"

definition b64_value :: "char \<Rightarrow> nat option" where
  "b64_value c =
     (let n = of_char c :: nat
      in if 65 \<le> n \<and> n \<le> 90 then Some (n - 65)
         else if 97 \<le> n \<and> n \<le> 122 then Some (n - 71)
         else if 48 \<le> n \<and> n \<le> 57 then Some (n + 4)
         else if n = 43 then Some 62
         else if n = 47 then Some 63
         else None)"

fun b64encode :: "bytes \<Rightarrow> string" where
  "b64encode [] = []"
| "b64encode [a] = [b64_char (unat a div 4), b64_char (unat a mod 4 * 16), CHR ''='', CHR ''='']"
| "b64encode [a, b] = [b64_char (unat a div 4), b64_char (unat a mod 4 * 16 + unat b div 16),
     b64_char (unat b mod 16 * 4), CHR ''='']"
| "b64encode (a # b # c # rest) =
     b64_char (unat a div 4) # b64_char (unat a mod 4 * 16 + unat b div 16) #
     b64_char (unat b mod 16 * 4 + unat c div 64) # b64_char (unat c mod 64) # b64encode rest"

text \<open>
  The strict decoder: \<open>quad\<close> characters of the current group were read and leave \<open>left\<close>, \<open>pads\<close>
  padding characters count towards its end, \<open>padded\<close> says that padding has started.  As in the
  interpreter, leftover bits are not checked and padding after a full group is ignored.
\<close>

fun b64_scan :: "nat \<Rightarrow> nat \<Rightarrow> nat \<Rightarrow> bool \<Rightarrow> string \<Rightarrow> bytes option" where
  "b64_scan quad left pads padded [] = (if quad = 0 then Some [] else None)"
| "b64_scan quad left pads padded (c # cs) =
     (if c = CHR ''='' then
        (if 2 \<le> quad then
           (if 4 \<le> quad + (pads + 1) then (if cs = [] then Some [] else None)
            else b64_scan quad left (pads + 1) True cs)
         else b64_scan quad left pads True cs)
      else
        (case b64_value c of
           None \<Rightarrow> None
         | Some v \<Rightarrow>
             if padded then None
             else if quad = 0 then b64_scan 1 v 0 padded cs
             else if quad = 1 then
               map_option (Cons (of_nat (left * 4 + v div 16))) (b64_scan 2 (v mod 16) 0 padded cs)
             else if quad = 2 then
               map_option (Cons (of_nat (left * 16 + v div 4))) (b64_scan 3 (v mod 4) 0 padded cs)
             else map_option (Cons (of_nat (left * 64 + v))) (b64_scan 0 0 0 padded cs)))"

definition b64decode :: "string \<Rightarrow> bytes option" where
  "b64decode s = (if s \<noteq> [] \<and> hd s = CHR ''='' then None else b64_scan 0 0 0 False s)"

lemma b64_char_value: "n < 64 \<Longrightarrow> b64_value (b64_char n) = Some n \<and> b64_char n \<noteq> CHR ''=''"
proof -
  assume n: "n < 64"
  then have "n < 26 \<or> 26 \<le> n \<and> n < 52 \<or> 52 \<le> n \<and> n < 62 \<or> n = 62 \<or> n = 63" by linarith
  then have "b64_value (b64_char n) = Some n" by (auto simp: b64_char_def b64_value_def of_char_of Let_def)
  moreover have "b64_value (CHR ''='') = None" by code_simp
  ultimately show ?thesis by auto
qed

lemma byte_bounds:
  fixes a b :: byte
  shows "unat a < 256" "unat a div 4 < 64" "unat a mod 4 * 16 < 64" "unat a mod 16 * 4 < 64"
    "unat a mod 64 < 64" "unat a mod 4 * 16 + unat b div 16 < 64" "unat a mod 16 * 4 + unat b div 64 < 64"
proof -
  show *: "unat a < 256" for a :: byte using unsigned_less [of a, where 'a = nat] by simp
  show "unat a div 4 < 64" "unat a mod 64 < 64" using * [of a] by auto
  have "unat a mod 4 < 4" "unat a mod 16 < 16" "unat b div 16 < 16" "unat b div 64 < 4"
    using * [of a] * [of b] by auto
  then show "unat a mod 4 * 16 < 64" "unat a mod 16 * 4 < 64"
      "unat a mod 4 * 16 + unat b div 16 < 64" "unat a mod 16 * 4 + unat b div 64 < 64" by linarith+
qed

lemmas b64_chars = byte_bounds(2-) [THEN b64_char_value]

lemma b64_groups:
  fixes a b :: byte
  shows "of_nat (unat a div 4 * 4 + (unat a mod 4 * 16 + unat b div 16) div 16) = a"
    and "of_nat (unat a div 4 * 4 + (unat a mod 4 * 16) div 16) = a"
    and "of_nat ((k * 16 + unat a div 16) mod 16 * 16 + (unat a mod 16 * 4 + unat b div 64) div 4) = a"
    and "of_nat ((k * 16 + unat a div 16) mod 16 * 16 + (unat a mod 16 * 4) div 4) = a"
    and "of_nat ((k * 4 + unat a div 64) mod 4 * 64 + unat a mod 64) = a"
proof -
  have lt: "unat x div 16 < 16" "unat x div 64 < 4" for x :: byte
    using byte_bounds(1) [of x] by auto
  have "(unat a mod 4 * 16 + unat b div 16) div 16 = unat a mod 4"
      "(unat a mod 16 * 4 + unat b div 64) div 4 = unat a mod 16"
      "(k * 16 + unat a div 16) mod 16 = unat a div 16" "(k * 4 + unat a div 64) mod 4 = unat a div 64"
    using lt [of a] lt [of b] by auto
  then show "of_nat (unat a div 4 * 4 + (unat a mod 4 * 16 + unat b div 16) div 16) = a"
      "of_nat (unat a div 4 * 4 + (unat a mod 4 * 16) div 16) = a"
      "of_nat ((k * 16 + unat a div 16) mod 16 * 16 + (unat a mod 16 * 4 + unat b div 64) div 4) = a"
      "of_nat ((k * 16 + unat a div 16) mod 16 * 16 + (unat a mod 16 * 4) div 4) = a"
      "of_nat ((k * 4 + unat a div 64) mod 4 * 64 + unat a mod 64) = a"
    by (simp_all add: div_mult_mod_eq)
qed

lemma b64_scan_encode: "b64_scan 0 0 0 False (b64encode bs) = Some bs"
proof (induction bs rule: b64encode.induct)
  case (4 a b c rest)
  then show ?case
    using b64_groups(1) [of a b] b64_groups(3) [of "unat a mod 4" b c] b64_groups(5) [of "unat b mod 16" c]
    by (simp add: b64_chars)
next
  case (3 a b)
  then show ?case using b64_groups(1) [of a b] b64_groups(4) [of "unat a mod 4" b] by (simp add: b64_chars)
qed (simp_all add: b64_chars b64_groups)

lemma b64decode_encode: "b64decode (b64encode bs) = Some bs"
proof -
  have "b64encode bs \<noteq> [] \<Longrightarrow> hd (b64encode bs) \<noteq> CHR ''=''"
    by (cases bs rule: b64encode.cases) (simp_all add: b64_chars)
  then show ?thesis by (auto simp: b64decode_def b64_scan_encode)
qed



section \<open>UUID text\<close>

definition uuid_text :: "uuid \<Rightarrow> string" where
  "uuid_text u =
     (let h = hex (uuid_bytes u)
      in take 8 h @ ''-'' @ take 4 (drop 8 h) @ ''-'' @ take 4 (drop 12 h) @ ''-'' @
         take 4 (drop 16 h) @ ''-'' @ drop 20 h)"

text \<open>
  \<^verbatim>\<open>UUID(value)\<close> followed by the comparison of its text with \<open>value\<close>: whatever spelling the
  constructor tolerates, only canonical text passes.
\<close>

definition parse_uuid4 :: "string \<Rightarrow> uuid option" where
  "parse_uuid4 s =
     (case read_hex 0 (filter (\<lambda>c. c \<noteq> CHR ''-'') s) of
        None \<Rightarrow> None
      | Some n \<Rightarrow> let u = UUID (of_nat n) in if uuid_text u = s \<and> uuid4 u then Some u else None)"

lemma read_hex_hex: "read_hex acc (hex bs) = Some (from_bytes_be acc bs)"
proof (induction bs arbitrary: acc)
  case (Cons b bs)
  have "unat b div 16 < 16" using byte_bounds(1) [of b] by auto
  then show ?case
    using Cons by (simp add: hex_def hex_byte_def read_hex_digit_inverse algebra_simps)
qed (simp add: hex_def)

lemma hex_digit_all: "list_all P ''0123456789abcdef'' \<Longrightarrow> P (hex_digit n)"
proof -
  have "hex_digit n \<in> set ''0123456789abcdef''" unfolding hex_digit_def by (rule nth_mem) simp
  then show "list_all P ''0123456789abcdef'' \<Longrightarrow> ?thesis" unfolding list_all_iff by blast
qed

lemma hex_all: "list_all P ''0123456789abcdef'' \<Longrightarrow> list_all P (hex bs)"
  using hex_digit_all [of P] by (induction bs) (simp_all add: hex_def hex_byte_def)

lemma uuid_text_all: "list_all P ''0123456789abcdef'' \<Longrightarrow> P (CHR ''-'') \<Longrightarrow> list_all P (uuid_text u)"
  using hex_all [of P "uuid_bytes u"]
  by (auto simp: uuid_text_def Let_def list_all_iff dest!: in_set_takeD in_set_dropD)

lemma uuid_text_length: "length (uuid_text u) = 36"
proof -
  have "length (hex bs) = 2 * length bs" for bs by (induction bs) (simp_all add: hex_def hex_byte_def)
  moreover have "length (uuid_bytes u) = 16" by (simp add: uuid_bytes_def)
  ultimately show ?thesis by (simp add: uuid_text_def Let_def)
qed

lemma hex_no_dash: "CHR ''-'' \<notin> set (hex bs)"
  using hex_all [of "\<lambda>c. c \<noteq> CHR ''-''" bs] by (auto simp: list_all_iff)

lemma parse_uuid_text: "uuid4 u \<Longrightarrow> parse_uuid4 (uuid_text u) = Some u"
proof -
  assume u: "uuid4 u"
  let ?h = "hex (uuid_bytes u)"
  have no: "filter (\<lambda>c. c \<noteq> CHR ''-'') xs = xs" if "set xs \<subseteq> set ?h" for xs
    using that hex_no_dash by (auto intro!: filter_True)
  have sub: "set (take i (drop j ?h)) \<subseteq> set ?h" "set (take i ?h) \<subseteq> set ?h" "set (drop i ?h) \<subseteq> set ?h" for i j
    using set_take_subset set_drop_subset by fastforce+
  have "filter (\<lambda>c. c \<noteq> CHR ''-'') (uuid_text u)
      = take 8 ?h @ take 4 (drop 8 ?h) @ take 4 (drop 12 ?h) @ take 4 (drop 16 ?h) @ drop 20 ?h"
    using no [OF sub(1)] no [OF sub(2)] no [OF sub(3)] by (simp add: uuid_text_def Let_def)
  also have "\<dots> = ?h"
    using append_take_drop_id [of 8 ?h] append_take_drop_id [of 4 "drop 8 ?h"]
      append_take_drop_id [of 4 "drop 12 ?h"] append_take_drop_id [of 4 "drop 16 ?h"] by simp
  finally have "read_hex 0 (filter (\<lambda>c. c \<noteq> CHR ''-'') (uuid_text u)) = Some (from_bytes_be 0 (uuid_bytes u))"
    by (simp add: read_hex_hex)
  moreover have "from_bytes_be 0 (uuid_bytes u) = unat (uuid_int u)"
    using unsigned_less [of "uuid_int u", where 'a = nat] by (simp add: uuid_bytes_def from_to_bytes_be)
  ultimately show ?thesis using u by (simp add: parse_uuid4_def)
qed

lemma parse_uuid4_Some: "parse_uuid4 s = Some u \<longleftrightarrow> uuid4 u \<and> s = uuid_text u"
proof
  assume "parse_uuid4 s = Some u"
  then show "uuid4 u \<and> s = uuid_text u"
    by (auto simp: parse_uuid4_def Let_def split: option.splits if_splits)
qed (auto simp: parse_uuid_text)


section \<open>Timestamps\<close>

definition min_instant :: int where
  "min_instant = - 62135596800000000"

text \<open>The range of Python's \<^verbatim>\<open>datetime\<close>.\<close>

definition time_ok :: "int \<Rightarrow> bool" where
  "time_ok t \<longleftrightarrow> min_instant \<le> t \<and> t \<le> max_instant"

text \<open>\<^verbatim>\<open>datetime.isoformat()\<close> of a UTC instant omits a zero microsecond field.\<close>

definition isoformat :: "int \<Rightarrow> string" where
  "isoformat t =
     (let (y, m, d) = civil_from_days (t div 86400000000); us = t mod 86400000000
      in zero_pad 4 y @ ''-'' @ zero_pad 2 m @ ''-'' @ zero_pad 2 d @ ''T''
         @ zero_pad 2 (us div 3600000000) @ '':'' @ zero_pad 2 (us div 60000000 mod 60) @ '':''
         @ zero_pad 2 (us div 1000000 mod 60)
         @ (if us mod 1000000 = 0 then [] else ''.'' @ zero_pad 6 (us mod 1000000)) @ ''+00:00'')"

fun digit_runs :: "string \<Rightarrow> string \<Rightarrow> string list" where
  "digit_runs acc [] = [acc]"
| "digit_runs acc (c # cs) = (if is_digit c then digit_runs (acc @ [c]) cs else acc # digit_runs [] cs)"

definition iso_instant :: "int list \<Rightarrow> int option" where
  "iso_instant xs =
     (case xs of
        [y, m, d, hh, mm, ss, _, _] \<Rightarrow>
          Some ((days_from_civil y m d * 86400 + hh * 3600 + mm * 60 + ss) * 1000000)
      | [y, m, d, hh, mm, ss, us, _, _] \<Rightarrow>
          Some ((days_from_civil y m d * 86400 + hh * 3600 + mm * 60 + ss) * 1000000 + us)
      | _ \<Rightarrow> None)"

text \<open>The instant whose \<^const>\<open>isoformat\<close> is the given text, if there is one.\<close>

definition parse_iso :: "string \<Rightarrow> int option" where
  "parse_iso s =
     (case iso_instant (map (int \<circ> read_nat 0) (digit_runs [] s)) of
        None \<Rightarrow> None
      | Some t \<Rightarrow> if min_instant \<le> t \<and> t \<le> max_instant \<and> isoformat t = s then Some t else None)"

lemma digit_runs_append: "list_all is_digit w \<Longrightarrow> digit_runs acc (w @ r) = digit_runs (acc @ w) r"
  by (induction w arbitrary: acc) auto

lemma zero_pad_digits: "list_all is_digit (zero_pad k n)"
proof -
  have "is_digit (CHR ''0'')" by (simp add: is_digit_def)
  then show ?thesis using show_nat_is_digit [of _ "nat n"] by (auto simp: zero_pad_def Let_def list_all_iff)
qed

lemma read_zero_pad: "0 \<le> n \<Longrightarrow> int (read_nat 0 (zero_pad k n)) = n"
proof -
  have "read_nat 0 (replicate j (CHR ''0'') @ w) = read_nat 0 w" for j w by (induction j) auto
  then show "0 \<le> n \<Longrightarrow> ?thesis" by (simp add: zero_pad_def Let_def read_show_nat)
qed

lemma digit_runs_sep: "list_all is_digit w \<Longrightarrow> \<not> is_digit c \<Longrightarrow> digit_runs [] (w @ c # r) = w # digit_runs [] r"
  by (simp add: digit_runs_append)

lemma separators: "\<not> is_digit (CHR ''-'')" "\<not> is_digit (CHR ''T'')" "\<not> is_digit (CHR '':'')"
    "\<not> is_digit (CHR ''.'')" "\<not> is_digit (CHR ''+'')" "is_digit (CHR ''0'')"
  by (simp_all add: is_digit_def)

lemma parse_isoformat:
  assumes "min_instant \<le> t" and "t \<le> max_instant"
  shows "parse_iso (isoformat t) = Some t"
proof -
  define z us where "z = t div 86400000000" and "us = t mod 86400000000"
  obtain y m d where ymd: "civil_from_days z = (y, m, d)" by (cases "civil_from_days z")
  have "- 719162 \<le> z"
    using div_bounds [of 86400000000 t] assms(1) unfolding z_def min_instant_def by linarith
  then have pos: "0 \<le> y" "0 \<le> m" "0 \<le> d" "days_from_civil y m d = z"
    using days_from_civil_inverse [OF ymd] by auto
  define hh mm ss u where "hh = us div 3600000000" and "mm = us div 60000000 mod 60"
    and "ss = us div 1000000 mod 60" and "u = us mod 1000000"
  have us: "0 \<le> us" by (simp add: us_def)
  then have times: "0 \<le> hh" "0 \<le> mm" "0 \<le> ss" "0 \<le> u"
    by (simp_all add: hh_def mm_def ss_def u_def pos_imp_zdiv_nonneg_iff)
  have s: "us div 60000000 = us div 1000000 div 60" "hh = us div 1000000 div 60 div 60"
    by (simp_all add: hh_def zdiv_zmult2_eq [symmetric])
  have "us = ((hh * 60 + mm) * 60 + ss) * 1000000 + u"
    unfolding mm_def ss_def u_def s by (simp add: div_mult_mod_eq)
  moreover have "t = z * 86400000000 + us" by (simp add: z_def us_def)
  ultimately have t: "t = (z * 86400 + hh * 3600 + mm * 60 + ss) * 1000000 + u" by simp
  have iso: "isoformat t = zero_pad 4 y @ CHR ''-'' # zero_pad 2 m @ CHR ''-'' # zero_pad 2 d @ CHR ''T'' #
      zero_pad 2 hh @ CHR '':'' # zero_pad 2 mm @ CHR '':'' # zero_pad 2 ss @
      (if u = 0 then [] else CHR ''.'' # zero_pad 6 u) @ CHR ''+'' # ''00'' @ CHR '':'' # ''00''"
    using ymd by (simp add: isoformat_def z_def us_def hh_def mm_def ss_def u_def Let_def)
  have "digit_runs [] (isoformat t) = [zero_pad 4 y, zero_pad 2 m, zero_pad 2 d, zero_pad 2 hh,
      zero_pad 2 mm, zero_pad 2 ss] @ (if u = 0 then [] else [zero_pad 6 u]) @ [''00'', ''00'']"
    unfolding iso by (simp add: digit_runs_sep zero_pad_digits separators)
  then have "iso_instant (map (int \<circ> read_nat 0) (digit_runs [] (isoformat t))) = Some t"
    using pos times t by (simp add: iso_instant_def read_zero_pad)
  then show ?thesis using assms by (simp add: parse_iso_def)
qed

lemma parse_iso_Some: "parse_iso s = Some t \<longleftrightarrow> min_instant \<le> t \<and> t \<le> max_instant \<and> s = isoformat t"
proof
  assume "parse_iso s = Some t"
  then show "min_instant \<le> t \<and> t \<le> max_instant \<and> s = isoformat t"
    by (auto simp: parse_iso_def split: option.splits if_splits)
qed (auto simp: parse_isoformat)

end
