(* ===== verification/Mailbox_Frame.thy ===== *)
theory Mailbox_Frame
  imports Mailbox_Volatile Wire "HOL-Library.Monad_Syntax"
begin

text \<open>
  The state frame of the persistent mailbox repository (the codec of
  \<^verbatim>\<open>services/runner_mailbox/persistent.py\<close>): the whole repository as one canonical JSON document,
  and the decoder that accepts a document only if it is canonical, has exactly the expected fields
  and keeps every bound.  A timestamp is read with \<^const>\<open>parse_iso\<close>: \<^verbatim>\<open>fromisoformat\<close> accepts more
  spellings, which the comparison with the re-encoded state in \<^verbatim>\<open>_load_repository\<close> rejects.  A frame nested
  too deeply for Python's decoder, which raises \<^verbatim>\<open>RecursionError\<close>, or with an integer of more than 4300
  digits is rejected by its fields here; the exception itself is not modelled.
\<close>


section \<open>Scalars\<close>

definition FRAME_VERSION :: int where "FRAME_VERSION = 1"
definition MAX_FRAME_OVERHEAD :: int where "MAX_FRAME_OVERHEAD = 8388608"

definition bytes_wire :: "bytes \<Rightarrow> json" where
  "bytes_wire b = J_Str (b64encode b)"

definition datetime_wire :: "int \<Rightarrow> json" where
  "datetime_wire t = J_Str (isoformat t)"

definition uuid_wire :: "uuid \<Rightarrow> json" where
  "uuid_wire u = J_Str (uuid_text u)"

definition opt_wire :: "('a \<Rightarrow> json) \<Rightarrow> 'a option \<Rightarrow> json" where
  "opt_wire f x = (case x of None \<Rightarrow> J_Null | Some v \<Rightarrow> f v)"

definition bytes_from_wire :: "int \<Rightarrow> int \<Rightarrow> json option \<Rightarrow> bytes option" where
  "bytes_from_wire lo hi v = do {
     text \<leftarrow> j_str v;
     decoded \<leftarrow> b64decode text;
     if lo \<le> len decoded \<and> len decoded \<le> hi then Some decoded else None }"

definition datetime_from_wire :: "json option \<Rightarrow> int option" where
  "datetime_from_wire v = Option.bind (j_str v) parse_iso"

definition uuid_from_wire :: "json option \<Rightarrow> uuid option" where
  "uuid_from_wire v = Option.bind (j_str v) parse_uuid4"

definition opt_from_wire :: "(json option \<Rightarrow> 'a option) \<Rightarrow> json option \<Rightarrow> 'a option option" where
  "opt_from_wire f v = (if v = Some J_Null then Some None else map_option Some (f v))"

text \<open>\<^verbatim>\<open>_exact_mapping\<close>: an object with exactly the expected fields.\<close>

definition exact_mapping :: "string list \<Rightarrow> json option \<Rightarrow> (string \<Rightarrow> json option) option" where
  "exact_mapping expected v = do {
     ms \<leftarrow> j_obj v;
     if has_keys ms expected then Some (map_of ms) else None }"

fun mailbox_state_value :: "mailbox_state \<Rightarrow> string" where
  "mailbox_state_value S_EMPTY = ''empty''"
| "mailbox_state_value S_OFFERED = ''offered''"
| "mailbox_state_value S_CLAIMED_ONCE = ''claimed_once''"
| "mailbox_state_value S_RESULT_COMMITTED = ''result_committed''"
| "mailbox_state_value S_EXPIRED = ''expired''"
| "mailbox_state_value S_ABANDONED = ''abandoned''"

fun collection_state_value :: "collection_state \<Rightarrow> string" where
  "collection_state_value C_NONE = ''none''"
| "collection_state_value C_READY = ''ready''"
| "collection_state_value C_DELIVERING = ''delivering''"
| "collection_state_value C_ACKNOWLEDGED = ''acknowledged''"

definition mailbox_state_of :: "json option \<Rightarrow> mailbox_state option" where
  "mailbox_state_of v = do {
     text \<leftarrow> j_str v;
     find (\<lambda>s. mailbox_state_value s = text)
       [S_EMPTY, S_OFFERED, S_CLAIMED_ONCE, S_RESULT_COMMITTED, S_EXPIRED, S_ABANDONED] }"

definition collection_state_of :: "json option \<Rightarrow> collection_state option" where
  "collection_state_of v = do {
     text \<leftarrow> j_str v;
     find (\<lambda>s. collection_state_value s = text) [C_NONE, C_READY, C_DELIVERING, C_ACKNOWLEDGED] }"


section \<open>Records to the wire\<close>

definition binding_wire :: "action_binding \<Rightarrow> json" where
  "binding_wire b = J_Obj
     [(''mailbox_id'', uuid_wire (b_mailbox_id b)),
      (''action_id'', uuid_wire (b_action_id b)),
      (''intent_id'', uuid_wire (b_intent_id b)),
      (''attempt_id'', uuid_wire (b_attempt_id b)),
      (''connector_release'', J_Str (b_connector_release b)),
      (''capability'', J_Str (b_capability b)),
      (''selected_artifact_digest'', J_Str (b_selected_artifact_digest b)),
      (''dispatch_epoch'', J_Int (b_dispatch_epoch b)),
      (''fence'', J_Int (b_fence b)),
      (''authorization_epoch'', J_Int (b_authorization_epoch b)),
      (''claim_deadline_utc'', datetime_wire (instant (b_claim_deadline_utc b))),
      (''deadline_utc'', datetime_wire (instant (b_deadline_utc b))),
      (''wall_seconds'', J_Int (b_wall_seconds b)),
      (''response_bytes'', J_Int (b_response_bytes b)),
      (''envelope_digest'', J_Str (b_envelope_digest b))]"

definition evidence_wire :: "wrapped_evidence \<Rightarrow> json" where
  "evidence_wire e = J_Obj
     [(''object_id'', uuid_wire (we_object_id e)),
      (''kind'', J_Str (we_kind e)),
      (''byte_count'', J_Int (we_byte_count e)),
      (''storage_digest'', bytes_wire (we_storage_digest e)),
      (''semantic_mac'', bytes_wire (we_semantic_mac e)),
      (''nonce'', bytes_wire (we_nonce e)),
      (''wrapped_payload'', bytes_wire (we_wrapped_payload e))]"

definition result_wire :: "wrapped_result \<Rightarrow> json" where
  "result_wire w = J_Obj
     [(''byte_count'', J_Int (wr_byte_count w)),
      (''storage_digest'', bytes_wire (wr_storage_digest w)),
      (''semantic_mac'', bytes_wire (wr_semantic_mac w)),
      (''nonce'', bytes_wire (wr_nonce w)),
      (''wrapped_payload'', bytes_wire (wr_wrapped_payload w))]"

definition manifest_wire :: "committed_manifest \<Rightarrow> json" where
  "manifest_wire m = J_Obj
     [(''item_count'', J_Int (cm_item_count m)),
      (''storage_digest'', bytes_wire (cm_storage_digest m)),
      (''semantic_mac'', bytes_wire (cm_semantic_mac m))]"

definition tombstone_wire :: "uuid \<Rightarrow> tombstone \<Rightarrow> json" where
  "tombstone_wire k t = J_Obj
     [(''mailbox_id'', uuid_wire k),
      (''created_at'', datetime_wire (t_created_at t)),
      (''expires_at'', datetime_wire (t_expires_at t))]"

definition record_wire :: "mrec \<Rightarrow> json" where
  "record_wire r = J_Obj
     [(''binding'', binding_wire (r_binding r)),
      (''created_at'', datetime_wire (r_created_at r)),
      (''last_seen_utc'', datetime_wire (r_last_seen r)),
      (''action_credential_digest'', bytes_wire (r_action_digest r)),
      (''claim_credential_digest'', bytes_wire (r_claim_digest r)),
      (''collection_credential_digest'', bytes_wire (r_collection_digest r)),
      (''state'', J_Str (mailbox_state_value (r_state r))),
      (''collection_state'', J_Str (collection_state_value (r_collection r))),
      (''envelope_json'', opt_wire bytes_wire (r_envelope_json r)),
      (''action_key'', opt_wire bytes_wire (r_action_key r)),
      (''result_credential'', opt_wire bytes_wire (r_result_credential r)),
      (''result_credential_digest'', opt_wire bytes_wire (r_result_digest r)),
      (''evidence'', J_Arr (map (evidence_wire \<circ> snd) (sort_key fst (r_evidence r)))),
      (''result_envelope'', opt_wire result_wire (r_result r)),
      (''committed_evidence_manifest'', opt_wire manifest_wire (r_manifest r)),
      (''committed_at'', opt_wire datetime_wire (r_committed_at r)),
      (''terminal_at'', opt_wire datetime_wire (r_terminal_at r))]"

definition state_wire :: "repo \<Rightarrow> json" where
  "state_wire s = J_Obj
     [(''version'', J_Int FRAME_VERSION),
      (''records'', J_Arr (map (record_wire \<circ> snd) (sort_key fst (p_records s)))),
      (''tombstones'', J_Arr (map (\<lambda>(k, t). tombstone_wire k t) (sort_key fst (p_tombstones s)))),
      (''installation_last_seen_utc'', opt_wire datetime_wire (p_last_seen s)),
      (''total_active_material_bytes'', J_Int (p_active s)),
      (''total_evidence_bytes'', J_Int (p_evidence s)),
      (''total_committed_bytes'', J_Int (p_committed s))]"

definition encode_state :: "repo \<Rightarrow> bytes" where
  "encode_state s = encode (dumps (state_wire s))"


section \<open>Records from the wire\<close>

definition binding_from_wire :: "json option \<Rightarrow> action_binding option" where
  "binding_from_wire v = do {
     f \<leftarrow> exact_mapping [''mailbox_id'', ''action_id'', ''intent_id'', ''attempt_id'', ''connector_release'',
       ''capability'', ''selected_artifact_digest'', ''dispatch_epoch'', ''fence'', ''authorization_epoch'',
       ''claim_deadline_utc'', ''deadline_utc'', ''wall_seconds'', ''response_bytes'', ''envelope_digest''] v;
     mailbox_id \<leftarrow> uuid_from_wire (f ''mailbox_id'');
     action_id \<leftarrow> uuid_from_wire (f ''action_id'');
     intent_id \<leftarrow> uuid_from_wire (f ''intent_id'');
     attempt_id \<leftarrow> uuid_from_wire (f ''attempt_id'');
     release \<leftarrow> j_str (f ''connector_release'');
     capability \<leftarrow> j_str (f ''capability'');
     artifact \<leftarrow> j_str (f ''selected_artifact_digest'');
     dispatch \<leftarrow> j_int (f ''dispatch_epoch'');
     fence \<leftarrow> j_int (f ''fence'');
     authorization \<leftarrow> j_int (f ''authorization_epoch'');
     claim_deadline \<leftarrow> datetime_from_wire (f ''claim_deadline_utc'');
     deadline \<leftarrow> datetime_from_wire (f ''deadline_utc'');
     wall \<leftarrow> j_int (f ''wall_seconds'');
     response \<leftarrow> j_int (f ''response_bytes'');
     envelope \<leftarrow> j_str (f ''envelope_digest'');
     (let b = \<lparr>b_mailbox_id = mailbox_id, b_action_id = action_id, b_intent_id = intent_id,
                b_attempt_id = attempt_id, b_connector_release = release, b_capability = capability,
                b_selected_artifact_digest = artifact, b_dispatch_epoch = dispatch, b_fence = fence,
                b_authorization_epoch = authorization, b_claim_deadline_utc = utc claim_deadline,
                b_deadline_utc = utc deadline, b_wall_seconds = wall, b_response_bytes = response,
                b_envelope_digest = envelope\<rparr>
      in if action_binding_ok b then Some b else None) }"

definition evidence_from_wire :: "mailbox_limits \<Rightarrow> json option \<Rightarrow> wrapped_evidence option" where
  "evidence_from_wire l v = do {
     f \<leftarrow> exact_mapping [''object_id'', ''kind'', ''byte_count'', ''storage_digest'', ''semantic_mac'',
       ''nonce'', ''wrapped_payload''] v;
     kind \<leftarrow> j_str (f ''kind'');
     count \<leftarrow> j_int (f ''byte_count'');
     object_id \<leftarrow> uuid_from_wire (f ''object_id'');
     digest \<leftarrow> bytes_from_wire 32 32 (f ''storage_digest'');
     mac \<leftarrow> bytes_from_wire 32 32 (f ''semantic_mac'');
     nonce \<leftarrow> bytes_from_wire 12 12 (f ''nonce'');
     payload \<leftarrow> bytes_from_wire 16 (max_total_evidence_bytes l + 128) (f ''wrapped_payload'');
     Some \<lparr>we_object_id = object_id, we_kind = kind, we_byte_count = count, we_storage_digest = digest,
           we_semantic_mac = mac, we_nonce = nonce, we_wrapped_payload = payload\<rparr> }"

definition result_from_wire :: "json option \<Rightarrow> wrapped_result option" where
  "result_from_wire v = do {
     f \<leftarrow> exact_mapping [''byte_count'', ''storage_digest'', ''semantic_mac'', ''nonce'', ''wrapped_payload''] v;
     count \<leftarrow> j_int (f ''byte_count'');
     digest \<leftarrow> bytes_from_wire 32 32 (f ''storage_digest'');
     mac \<leftarrow> bytes_from_wire 32 32 (f ''semantic_mac'');
     nonce \<leftarrow> bytes_from_wire 12 12 (f ''nonce'');
     payload \<leftarrow> bytes_from_wire 16 (1048576 + 128) (f ''wrapped_payload'');
     Some \<lparr>wr_byte_count = count, wr_storage_digest = digest, wr_semantic_mac = mac, wr_nonce = nonce,
           wr_wrapped_payload = payload\<rparr> }"

definition manifest_from_wire :: "json option \<Rightarrow> committed_manifest option" where
  "manifest_from_wire v = do {
     f \<leftarrow> exact_mapping [''item_count'', ''storage_digest'', ''semantic_mac''] v;
     count \<leftarrow> j_int (f ''item_count'');
     digest \<leftarrow> bytes_from_wire 32 32 (f ''storage_digest'');
     mac \<leftarrow> bytes_from_wire 32 32 (f ''semantic_mac'');
     Some \<lparr>cm_item_count = count, cm_storage_digest = digest, cm_semantic_mac = mac\<rparr> }"

definition tombstone_from_wire :: "json option \<Rightarrow> (uuid \<times> tombstone) option" where
  "tombstone_from_wire v = do {
     f \<leftarrow> exact_mapping [''mailbox_id'', ''created_at'', ''expires_at''] v;
     k \<leftarrow> uuid_from_wire (f ''mailbox_id'');
     created \<leftarrow> datetime_from_wire (f ''created_at'');
     expires \<leftarrow> datetime_from_wire (f ''expires_at'');
     Some (k, \<lparr>t_created_at = created, t_expires_at = expires\<rparr>) }"

definition record_from_wire :: "mailbox_limits \<Rightarrow> json option \<Rightarrow> mrec option" where
  "record_from_wire l v = do {
     f \<leftarrow> exact_mapping [''binding'', ''created_at'', ''last_seen_utc'', ''action_credential_digest'',
       ''claim_credential_digest'', ''collection_credential_digest'', ''state'', ''collection_state'',
       ''envelope_json'', ''action_key'', ''result_credential'', ''result_credential_digest'', ''evidence'',
       ''result_envelope'', ''committed_evidence_manifest'', ''committed_at'', ''terminal_at''] v;
     raw \<leftarrow> j_arr (f ''evidence'');
     items \<leftarrow> (if len raw > 64 then None else those (map (\<lambda>j. evidence_from_wire l (Some j)) raw));
     evidence \<leftarrow> (if distinct (map we_object_id items) then Some (map (\<lambda>e. (we_object_id e, e)) items) else None);
     binding \<leftarrow> binding_from_wire (f ''binding'');
     created \<leftarrow> datetime_from_wire (f ''created_at'');
     seen \<leftarrow> datetime_from_wire (f ''last_seen_utc'');
     action_d \<leftarrow> bytes_from_wire 32 32 (f ''action_credential_digest'');
     claim_d \<leftarrow> bytes_from_wire 32 32 (f ''claim_credential_digest'');
     collection_d \<leftarrow> bytes_from_wire 32 32 (f ''collection_credential_digest'');
     state \<leftarrow> mailbox_state_of (f ''state'');
     collection \<leftarrow> collection_state_of (f ''collection_state'');
     envelope \<leftarrow> opt_from_wire (bytes_from_wire 1 8388608) (f ''envelope_json'');
     key \<leftarrow> opt_from_wire (bytes_from_wire 32 32) (f ''action_key'');
     credential \<leftarrow> opt_from_wire (bytes_from_wire 32 128) (f ''result_credential'');
     result_d \<leftarrow> opt_from_wire (bytes_from_wire 32 32) (f ''result_credential_digest'');
     result \<leftarrow> opt_from_wire result_from_wire (f ''result_envelope'');
     manifest \<leftarrow> opt_from_wire manifest_from_wire (f ''committed_evidence_manifest'');
     committed \<leftarrow> opt_from_wire datetime_from_wire (f ''committed_at'');
     terminal \<leftarrow> opt_from_wire datetime_from_wire (f ''terminal_at'');
     Some \<lparr>r_binding = binding, r_created_at = created, r_last_seen = seen, r_action_digest = action_d,
           r_claim_digest = claim_d, r_collection_digest = collection_d, r_state = state,
           r_collection = collection, r_envelope_json = envelope, r_action_key = key,
           r_result_credential = credential, r_result_digest = result_d, r_evidence = evidence,
           r_result = result, r_manifest = manifest, r_committed_at = committed, r_terminal_at = terminal\<rparr> }"

definition max_serialized_bytes :: "mailbox_limits \<Rightarrow> int" where
  "max_serialized_bytes l = max_total_active_material_bytes l + max_total_evidence_bytes l
     + max_total_committed_bytes l + MAX_FRAME_OVERHEAD"

text \<open>
  A document is read as ASCII text: other encodings that \<^verbatim>\<open>json.loads\<close> would detect cannot equal
  the canonical re-dump.  A repository is restored without its configuration, which
  \<^verbatim>\<open>_new_repository\<close> supplies.
\<close>

definition ascii_text :: "bytes \<Rightarrow> string option" where
  "ascii_text bs = (if list_all (\<lambda>b. b < 128) bs then Some (map (\<lambda>b. char_of (unat b)) bs) else None)"

record frame_state =
  fs_records :: "(uuid, mrec) dict"
  fs_tombstones :: "(uuid, tombstone) dict"
  fs_last_seen :: "int option"
  fs_active :: int
  fs_evidence :: int
  fs_committed :: int

definition state_from_wire :: "mailbox_limits \<Rightarrow> json option \<Rightarrow> frame_state option" where
  "state_from_wire l v = do {
     f \<leftarrow> exact_mapping [''version'', ''records'', ''tombstones'', ''installation_last_seen_utc'',
       ''total_active_material_bytes'', ''total_evidence_bytes'', ''total_committed_bytes''] v;
     version \<leftarrow> j_int (f ''version'');
     raw_records \<leftarrow> (if version = FRAME_VERSION then j_arr (f ''records'') else None);
     raw_tombstones \<leftarrow> j_arr (f ''tombstones'');
     items \<leftarrow> (if len raw_records > max_mailboxes l \<or> len raw_tombstones > max_tombstones l then None
               else those (map (\<lambda>j. record_from_wire l (Some j)) raw_records));
     records \<leftarrow> (if distinct (map (b_mailbox_id \<circ> r_binding) items)
                 then Some (map (\<lambda>r. (b_mailbox_id (r_binding r), r)) items) else None);
     tombstones \<leftarrow> those (map (\<lambda>j. tombstone_from_wire (Some j)) raw_tombstones);
     checked \<leftarrow> (if distinct (map fst tombstones) \<and> keys records \<inter> keys tombstones = {} then Some () else None);
     active \<leftarrow> j_int (f ''total_active_material_bytes'');
     evidence \<leftarrow> j_int (f ''total_evidence_bytes'');
     committed \<leftarrow> j_int (f ''total_committed_bytes'');
     seen \<leftarrow> (if 0 \<le> active \<and> 0 \<le> evidence \<and> 0 \<le> committed
              then opt_from_wire datetime_from_wire (f ''installation_last_seen_utc'') else None);
     Some \<lparr>fs_records = records, fs_tombstones = tombstones, fs_last_seen = seen, fs_active = active,
           fs_evidence = evidence, fs_committed = committed\<rparr> }"

definition decode_state :: "mailbox_limits \<Rightarrow> bytes \<Rightarrow> frame_state option" where
  "decode_state l encoded =
     (if encoded = [] \<or> len encoded > max_serialized_bytes l then None
      else do {
        text \<leftarrow> ascii_text encoded;
        decoded \<leftarrow> loads text;
        if encode (dumps decoded) \<noteq> encoded then None else state_from_wire l (Some decoded) })"

end
