(* ===== verification/Mailbox_Persistent.thy ===== *)
theory Mailbox_Persistent
  imports Mailbox_Frame Mailbox_Runs
begin

text \<open>
  The persistent mailbox repository (\<^verbatim>\<open>PersistentMailboxRepository\<close> of
  \<^verbatim>\<open>services/runner_mailbox/persistent.py\<close>): one encrypted and authenticated state frame in a
  database row.  Every public operation is one transaction that loads and verifies the frame, runs
  the volatile operation on it and replaces the frame if the state changed.  The cryptographic
  functions are those of \<^typ>\<open>lib\<close>, with HKDF as a further parameter; SQLite appears as the row it
  holds and as the point at which a transaction fails.
\<close>


section \<open>Configuration\<close>

definition MAX_FRAME_GENERATION :: int where "MAX_FRAME_GENERATION = 100000000"

definition FRAME_CONTEXT :: bytes where
  "FRAME_CONTEXT = encode ''mycogni.runner-mailbox.sqlite-frame.v1'' @ [0]"
definition OUTER_KEY_CONTEXT :: bytes where
  "OUTER_KEY_CONTEXT = encode ''mycogni.runner-mailbox.sqlite-frame-key.v1'' @ [0]"
definition INNER_KEY_CONTEXT :: bytes where
  "INNER_KEY_CONTEXT = encode ''mycogni.runner-mailbox.persistent-inner-key.v1'' @ [0]"
definition CONFIG_CONTEXT :: bytes where
  "CONFIG_CONTEXT = encode ''mycogni.runner-mailbox.persistent-config.v1'' @ [0]"

record frame_config =
  fc_maintenance :: bytes
  fc_limits :: mailbox_limits
  fc_outer_key :: bytes
  fc_inner_key :: bytes
  fc_installation_epoch :: bytes
  fc_restore_epoch :: bytes
  fc_config_digest :: bytes

text \<open>The days, seconds and microseconds of a non-negative \<^verbatim>\<open>timedelta\<close>.\<close>

definition timedelta_parts :: "int \<Rightarrow> int list" where
  "timedelta_parts t = [t div 86400000000, t mod 86400000000 div 1000000, t mod 1000000]"

definition configuration_fingerprint :: "lib \<Rightarrow> bytes \<Rightarrow> mailbox_limits \<Rightarrow> bytes" where
  "configuration_fingerprint L maintenance l =
     lib_sha256 L (CONFIG_CONTEXT @ maintenance @ encode (join ''|'' (map show_int
       ([max_mailboxes l, max_total_active_material_bytes l, max_total_evidence_bytes l,
         max_total_committed_bytes l] @ timedelta_parts (terminal_retention l)
        @ timedelta_parts (tombstone_retention l) @ [max_tombstones l]))))"

definition frame_aad :: "frame_config \<Rightarrow> int \<Rightarrow> bytes" where
  "frame_aad C generation =
     FRAME_CONTEXT @ to_bytes_be 4 (nat FRAME_VERSION) @ to_bytes_be 8 (nat generation)
       @ fc_installation_epoch C @ fc_restore_epoch C @ fc_config_digest C"

definition max_ciphertext_bytes :: "mailbox_limits \<Rightarrow> int" where
  "max_ciphertext_bytes l = max_serialized_bytes l + 16"


section \<open>Semantic validation\<close>

text \<open>\<^verbatim>\<open>_validate_repository_semantics\<close>: an authenticated state must still be a possible one.\<close>

definition semantic_credentials :: "mrec \<Rightarrow> bytes list" where
  "semantic_credentials r = [r_action_digest r, r_claim_digest r, r_collection_digest r]
     @ (case r_result_digest r of None \<Rightarrow> [] | Some d \<Rightarrow> if d = [] then [] else [d])"

definition times_ok :: "int option \<Rightarrow> mrec \<Rightarrow> bool" where
  "times_ok high_water r \<longleftrightarrow>
     r_created_at r \<le> r_last_seen r \<and>
     (case high_water of None \<Rightarrow> True | Some h \<Rightarrow> r_last_seen r \<le> h) \<and>
     r_created_at r < instant (b_claim_deadline_utc (r_binding r)) \<and>
     pred_option (\<lambda>t. r_created_at r \<le> t \<and> t \<le> r_last_seen r) (r_committed_at r) \<and>
     pred_option (\<lambda>t. r_created_at r \<le> t \<and> t \<le> r_last_seen r) (r_terminal_at r)"

definition no_active :: "mrec \<Rightarrow> bool" where
  "no_active r \<longleftrightarrow> r_envelope_json r = None \<and> r_action_key r = None \<and> r_result_credential r = None"

definition no_committed :: "mrec \<Rightarrow> bool" where
  "no_committed r \<longleftrightarrow> r_result r = None \<and> r_manifest r = None \<and> r_committed_at r = None"

definition lifecycle_ok :: "mrec \<Rightarrow> bool" where
  "lifecycle_ok r =
     (case r_state r of
        S_EMPTY \<Rightarrow>
          r_collection r = C_NONE \<and> no_active r \<and> r_result_digest r = None \<and> r_evidence r = [] \<and>
          no_committed r \<and> r_terminal_at r = None
      | S_OFFERED \<Rightarrow>
          r_collection r = C_NONE \<and>
          r_envelope_json r \<noteq> None \<and> r_action_key r \<noteq> None \<and> r_result_credential r \<noteq> None \<and>
          r_result_digest r \<noteq> None \<and> r_evidence r = [] \<and> no_committed r \<and> r_terminal_at r = None
      | S_CLAIMED_ONCE \<Rightarrow>
          r_collection r = C_NONE \<and> no_active r \<and> r_result_digest r \<noteq> None \<and> no_committed r \<and>
          r_terminal_at r = None
      | S_RESULT_COMMITTED \<Rightarrow>
          r_collection r \<in> {C_READY, C_DELIVERING, C_ACKNOWLEDGED} \<and> no_active r \<and>
          r_result_digest r = None \<and> r_committed_at r \<noteq> None \<and>
          (r_collection r = C_ACKNOWLEDGED \<longleftrightarrow> r_terminal_at r \<noteq> None) \<and>
          (case (r_committed_at r, r_terminal_at r) of
             (Some committed, Some ended) \<Rightarrow> r_collection r = C_ACKNOWLEDGED \<longrightarrow> committed \<le> ended
           | _ \<Rightarrow> True) \<and>
          (case r_result r of
             None \<Rightarrow> True
           | Some w \<Rightarrow> r_collection r \<noteq> C_ACKNOWLEDGED \<longrightarrow>
               wr_byte_count w + record_evidence_bytes r \<le> b_response_bytes (r_binding r))
      | _ \<Rightarrow>
          r_collection r = C_NONE \<and> no_active r \<and> r_result_digest r = None \<and> r_evidence r = [] \<and>
          no_committed r \<and> r_terminal_at r \<noteq> None)"

definition record_semantics :: "int option \<Rightarrow> mrec \<Rightarrow> bool" where
  "record_semantics high_water r \<longleftrightarrow>
     times_ok high_water r \<and> distinct (semantic_credentials r) \<and>
     len (r_evidence r) \<le> MAX_EVIDENCE_ITEMS \<and>
     record_evidence_bytes r \<le> b_response_bytes (r_binding r) \<and> lifecycle_ok r"

fun semantics_loop :: "int option \<Rightarrow> bytes set \<Rightarrow> (uuid, mrec) dict \<Rightarrow> bool" where
  "semantics_loop high_water observed [] \<longleftrightarrow> True"
| "semantics_loop high_water observed ((k, r) # rest) \<longleftrightarrow>
     record_semantics high_water r \<and> set (semantic_credentials r) \<inter> observed = {} \<and>
     semantics_loop high_water (observed \<union> set (semantic_credentials r)) rest"

definition frame_committed_bytes :: "mrec \<Rightarrow> int" where
  "frame_committed_bytes r =
     (if r_committed_at r \<noteq> None then result_bytes r + record_evidence_bytes r else 0)"

definition validate_repository_semantics :: "repo \<Rightarrow> bool" where
  "validate_repository_semantics s \<longleftrightarrow>
     ((p_records s \<noteq> [] \<or> p_tombstones s \<noteq> []) \<longrightarrow> p_last_seen s \<noteq> None) \<and>
     semantics_loop (p_last_seen s) {p_maintenance s} (p_records s) \<and>
     list_all (\<lambda>(_, t). t_created_at t < t_expires_at t \<and>
        t_expires_at t - t_created_at t = tombstone_retention (p_limits s) \<and>
        (case p_last_seen s of None \<Rightarrow> False | Some h \<Rightarrow> t_created_at t \<le> h)) (p_tombstones s) \<and>
     (let active = sum_vals active_bytes (p_records s);
          evidence = sum_vals record_evidence_bytes (p_records s);
          committed = sum_vals frame_committed_bytes (p_records s)
      in p_active s = active \<and> p_evidence s = evidence \<and> p_committed s = committed \<and>
         0 \<le> active \<and> 0 \<le> evidence \<and> 0 \<le> committed \<and>
         active \<le> max_total_active_material_bytes (p_limits s) \<and>
         evidence \<le> max_total_evidence_bytes (p_limits s) \<and>
         committed \<le> max_total_committed_bytes (p_limits s))"


section \<open>The stored frame\<close>

record frame_row =
  f_version :: int
  f_generation :: int
  f_nonce :: bytes
  f_ciphertext :: bytes
  f_digest :: bytes

text \<open>\<^verbatim>\<open>_new_repository\<close>, and the repository with the decoded state.\<close>

definition frame_repository :: "lib \<Rightarrow> frame_config \<Rightarrow> frame_state \<Rightarrow> repo" where
  "frame_repository L C f =
     \<lparr>p_records = fs_records f, p_tombstones = fs_tombstones f, p_maintenance = fc_maintenance C,
      p_limits = fc_limits C, p_keys = storage_keys_of L (fc_inner_key C), p_last_seen = fs_last_seen f,
      p_active = fs_active f, p_evidence = fs_evidence f, p_committed = fs_committed f\<rparr>"

definition empty_frame :: frame_state where
  "empty_frame = \<lparr>fs_records = [], fs_tombstones = [], fs_last_seen = None, fs_active = 0, fs_evidence = 0,
     fs_committed = 0\<rparr>"

text \<open>Every failure of a load is the same uncertainty, so a load returns an option.\<close>

definition load_repository :: "lib \<Rightarrow> frame_config \<Rightarrow> frame_row \<Rightarrow> repo option" where
  "load_repository L C row =
     (if f_version row \<noteq> FRAME_VERSION \<or> f_generation row < 0 \<or> f_generation row \<ge> MAX_FRAME_GENERATION \<or>
         length (f_nonce row) \<noteq> 12 \<or> length (f_digest row) \<noteq> 32 \<or> f_ciphertext row = [] \<or>
         len (f_ciphertext row) > max_ciphertext_bytes (fc_limits C)
      then None
      else if lib_sha256 L (f_ciphertext row) \<noteq> f_digest row then None
      else do {
        serialized \<leftarrow> lib_decrypt L (fc_outer_key C) (f_nonce row) (f_ciphertext row)
                        (frame_aad C (f_generation row));
        state \<leftarrow> decode_state (fc_limits C) serialized;
        (let s = frame_repository L C state
         in if validate_all L (p_keys s) (p_records s) \<noteq> Inr () \<or> \<not> validate_repository_semantics s \<or>
               serialized \<noteq> encode_state s
            then None else Some s) })"

definition write_repository ::
    "lib \<Rightarrow> frame_config \<Rightarrow> bytes \<Rightarrow> int \<Rightarrow> repo \<Rightarrow> mailbox_error + frame_row" where
  "write_repository L C nonce generation s =
     (if generation < 0 \<or> generation \<ge> MAX_FRAME_GENERATION then uncertain
      else if \<not> validate_repository_semantics s then uncertain
      else
        let serialized = encode_state s
        in if len serialized > max_serialized_bytes (fc_limits C) then Inl (Denied OVERSIZE)
           else
             let ciphertext = lib_encrypt L (fc_outer_key C) nonce serialized (frame_aad C generation)
             in Inr \<lparr>f_version = FRAME_VERSION, f_generation = generation, f_nonce = nonce,
                     f_ciphertext = ciphertext, f_digest = lib_sha256 L ciphertext\<rparr>)"


section \<open>Transactions\<close>

text \<open>A handle of one process on the database; a poisoned handle admits no further operation.\<close>

record mailbox_handle =
  h_row :: "frame_row option"
  h_owner :: int
  h_poisoned :: bool
  h_closed :: bool

text \<open>
  Where SQLite fails: the writer lock is contended or unavailable at the start, the row cannot be
  written, or the commit raises after the frame did or did not become durable.
\<close>

datatype storage_fault = No_Storage_Fault | Begin_Contended | Begin_Failed | Write_Failed | Commit_Failed bool

text \<open>
  What a transition raises: an error of the mailbox, or the \<^verbatim>\<open>sqlite3.ProgrammingError\<close> of a closed
  connection, which the handler for database errors raises again when it reads \<^verbatim>\<open>in_transaction\<close>.
\<close>

datatype persistent_error = Mailbox_Failure mailbox_error | Programming_Error

abbreviation uncertain_outcome :: "persistent_error + 'a" where
  "uncertain_outcome \<equiv> Inl (Mailbox_Failure (Denied INTERNAL_UNCERTAINTY))"

definition poison :: "mailbox_handle \<Rightarrow> (persistent_error + 'a) \<times> mailbox_handle" where
  "poison h = (uncertain_outcome, h\<lparr>h_poisoned := True\<rparr>)"

definition finish :: "mailbox_error + 'a \<Rightarrow> mailbox_handle \<Rightarrow> (persistent_error + 'a) \<times> mailbox_handle" where
  "finish result h =
     (case result of
        Inr v \<Rightarrow> (Inr v, h)
      | Inl e \<Rightarrow> (Inl (Mailbox_Failure e),
                  if e = Denied INTERNAL_UNCERTAINTY then h\<lparr>h_poisoned := True\<rparr> else h))"

definition is_value_error :: "mailbox_error + 'a \<Rightarrow> bool" where
  "is_value_error result = (case result of Inl e \<Rightarrow> e = Value_Error | Inr _ \<Rightarrow> False)"

definition persistent_transition ::
    "lib \<Rightarrow> frame_config \<Rightarrow> storage_fault \<Rightarrow> int \<Rightarrow> bytes \<Rightarrow> (repo \<Rightarrow> 'a outcome) \<Rightarrow> mailbox_handle
     \<Rightarrow> (persistent_error + 'a) \<times> mailbox_handle" where
  "persistent_transition L C fault pid nonce operation h =
     (if pid \<noteq> h_owner h then (uncertain_outcome, h)
      else if h_poisoned h then (uncertain_outcome, h)
      else if h_closed h then (Inl Programming_Error, h)
      else if fault = Begin_Contended then (Inl (Mailbox_Failure (Denied CONTENDED)), h)
      else if fault = Begin_Failed then poison h
      else
        case Option.bind (h_row h) (\<lambda>row. map_option (Pair row) (load_repository L C row)) of
          None \<Rightarrow> poison h
        | Some (row, s) \<Rightarrow>
            let (result, s') = operation s
            in if is_value_error result then poison h
               else if encode_state s' = encode_state s then finish result h
               else
                 (case write_repository L C nonce (f_generation row + 1) s' of
                    Inl e \<Rightarrow> finish (Inl e) h
                  | Inr row' \<Rightarrow>
                      (case fault of
                         Write_Failed \<Rightarrow> poison h
                       | Commit_Failed durable \<Rightarrow> poison (if durable then h\<lparr>h_row := Some row'\<rparr> else h)
                       | _ \<Rightarrow> finish result (h\<lparr>h_row := Some row'\<rparr>))))"

text \<open>The public operations of the repository, each of which is one transition.\<close>

definition persistent_perform ::
    "lib \<Rightarrow> frame_config \<Rightarrow> storage_fault \<Rightarrow> int \<Rightarrow> bytes \<Rightarrow> call \<Rightarrow> request \<Rightarrow> mailbox_handle
     \<Rightarrow> (persistent_error + reply) \<times> mailbox_handle" where
  "persistent_perform L C fault pid nonce c q h =
     persistent_transition L C fault pid nonce (perform L c q) h"

definition recovery_required :: "mailbox_handle \<Rightarrow> bool" where
  "recovery_required h \<longleftrightarrow> h_poisoned h"

definition close_handle :: "int \<Rightarrow> bool \<Rightarrow> mailbox_handle \<Rightarrow> (mailbox_error + unit) \<times> mailbox_handle" where
  "close_handle pid fails h =
     (if pid \<noteq> h_owner h then (uncertain, h)
      else if h_closed h then (Inr (), h)
      else if h_poisoned h then (Inr (), h\<lparr>h_closed := True\<rparr>)
      else if fails then (uncertain, h\<lparr>h_poisoned := True, h_closed := True\<rparr>)
      else (Inr (), h\<lparr>h_closed := True\<rparr>))"


section \<open>Opening\<close>

text \<open>What the constructor reads of the database file, its sidecars and its directory.\<close>

record file_info =
  fi_link :: bool
  fi_regular :: bool
  fi_directory :: bool
  fi_uid :: int
  fi_nlink :: int
  fi_mode :: int
  fi_identity :: "int \<times> int"

record database_files =
  df_ancestors :: "file_info list"
  df_parent :: file_info
  df_opened :: file_info
  df_main :: file_info
  df_sidecars :: "file_info list"

definition private_mode :: "file_info \<Rightarrow> bool" where
  "private_mode f \<longleftrightarrow> fi_mode f mod 64 = 0"

definition validate_private_ancestors :: "int \<Rightarrow> database_files \<Rightarrow> bool" where
  "validate_private_ancestors uid d \<longleftrightarrow>
     list_all (\<lambda>f. \<not> fi_link f \<and> fi_directory f) (df_ancestors d) \<and>
     fi_uid (df_parent d) = uid \<and> private_mode (df_parent d)"

definition prepare_database_file :: "int \<Rightarrow> database_files \<Rightarrow> (int \<times> int) option" where
  "prepare_database_file uid d =
     (if \<not> validate_private_ancestors uid d then None
      else
        let info = df_opened d
        in if \<not> fi_regular info \<or> fi_uid info \<noteq> uid \<or> fi_nlink info \<noteq> 1 \<or> \<not> private_mode info \<or>
              fi_identity info \<noteq> fi_identity (df_main d)
           then None else Some (fi_identity info))"

definition managed_file_ok :: "int \<Rightarrow> file_info \<Rightarrow> bool" where
  "managed_file_ok uid f \<longleftrightarrow>
     \<not> fi_link f \<and> fi_regular f \<and> fi_uid f = uid \<and> fi_nlink f = 1 \<and> private_mode f"

definition validate_managed_files :: "int \<Rightarrow> int \<times> int \<Rightarrow> database_files \<Rightarrow> bool" where
  "validate_managed_files uid identity d \<longleftrightarrow>
     validate_private_ancestors uid d \<and> managed_file_ok uid (df_main d) \<and>
     fi_identity (df_main d) = identity \<and> list_all (managed_file_ok uid) (df_sidecars d)"

definition make_config ::
    "lib \<Rightarrow> (bytes \<Rightarrow> bytes \<Rightarrow> bytes) \<Rightarrow> bytes \<Rightarrow> bytes \<Rightarrow> bytes \<Rightarrow> bytes \<Rightarrow> mailbox_limits
     \<Rightarrow> mailbox_error + frame_config" where
  "make_config L hkdf maintenance key installation restore_epoch limits =
     (if \<not> list_all (\<lambda>b. length b = 32) [maintenance, key, installation, restore_epoch] then Inl Value_Error
      else if card {maintenance, key, installation, restore_epoch} \<noteq> 4 then Inl Value_Error
      else Inr \<lparr>fc_maintenance = maintenance, fc_limits = limits, fc_outer_key = hkdf key OUTER_KEY_CONTEXT,
                fc_inner_key = hkdf key INNER_KEY_CONTEXT, fc_installation_epoch = installation,
                fc_restore_epoch = restore_epoch,
                fc_config_digest = configuration_fingerprint L maintenance limits\<rparr>)"

text \<open>A new database gets a frame of generation 0; an existing one must load.\<close>

definition open_repository ::
    "lib \<Rightarrow> frame_config \<Rightarrow> int \<Rightarrow> int \<Rightarrow> bytes \<Rightarrow> database_files \<Rightarrow> frame_row option
     \<Rightarrow> mailbox_error + mailbox_handle" where
  "open_repository L C pid uid nonce files stored =
     (case prepare_database_file uid files of
        None \<Rightarrow> uncertain
      | Some identity \<Rightarrow>
          if \<not> validate_managed_files uid identity files then uncertain
          else
            (case stored of
               None \<Rightarrow>
                 (case write_repository L C nonce 0 (frame_repository L C empty_frame) of
                    Inl e \<Rightarrow> uncertain
                  | Inr row \<Rightarrow> Inr \<lparr>h_row = Some row, h_owner = pid, h_poisoned = False, h_closed = False\<rparr>)
             | Some row \<Rightarrow>
                 (case load_repository L C row of
                    None \<Rightarrow> uncertain
                  | Some s \<Rightarrow> Inr \<lparr>h_row = Some row, h_owner = pid, h_poisoned = False, h_closed = False\<rparr>)))"

end
