(* ===== verification/Mailbox_Frame_Guarantees.thy ===== *)
theory Mailbox_Frame_Guarantees
  imports Mailbox_Frame
begin

text \<open>
  The state frame determines the repository: what \<^const>\<open>encode_state\<close> writes, \<^const>\<open>decode_state\<close> reads
  back, with every dictionary in the order of its keys.
\<close>


section \<open>The printed text\<close>

definition ascii :: "char \<Rightarrow> bool" where
  "ascii c \<longleftrightarrow> (of_char c :: nat) < 128"

lemma ascii_escape: "list_all ascii (escape c)"
proof -
  have hex: "ascii (hex_digit n)" for n by (rule hex_digit_all) code_simp
  have marks: "ascii backslash" "ascii quote" "ascii (CHR ''n'')" "ascii (CHR ''r'')" "ascii (CHR ''t'')"
    "ascii (CHR ''f'')" "ascii (CHR ''b'')" "ascii (CHR ''u'')" "ascii (CHR ''0'')" by code_simp+
  have "ascii c" if "32 \<le> (of_char c :: nat) \<and> (of_char c :: nat) \<le> 126" using that by (simp add: ascii_def)
  then show ?thesis unfolding escape_def using hex marks by simp
qed

lemma ascii_quoted: "list_all ascii (quoted s)"
proof -
  have "ascii quote" by code_simp
  moreover have "list_all ascii (concat (map escape s))" using ascii_escape by (induction s) auto
  ultimately show ?thesis by (simp add: quoted_def)
qed

lemma ascii_join: "list_all ascii sep \<Longrightarrow> (\<And>x. x \<in> set xs \<Longrightarrow> list_all ascii x) \<Longrightarrow> list_all ascii (join sep xs)"
  by (induction sep xs rule: join.induct) auto

lemma ascii_dumps: "distinct_keys j \<Longrightarrow> list_all ascii (dumps j)"
proof (induction j)
  case (J_Int i)
  have "ascii (CHR ''-'')" by code_simp
  moreover have "ascii c" if "is_digit c" for c using that by (auto simp: ascii_def is_digit_def)
  ultimately show ?case using show_nat_is_digit by (auto simp: show_int_def list_all_iff)
next
  case (J_Arr vs)
  have "list_all ascii ''[,]''" by code_simp
  moreover have "list_all ascii (join '','' (map dumps vs))"
    using J_Arr calculation by (intro ascii_join) (auto simp: list_all_iff)
  ultimately show ?case by simp
next
  case (J_Obj ms)
  have marks: "list_all ascii ''{,}:''" by code_simp
  have "list_all ascii (quoted k @ '':'' @ dumps v)" if "(k, v) \<in> set ms" for k v
    using J_Obj that ascii_quoted marks by (auto simp: list_all_iff)
  then have "list_all ascii (join '','' (map (\<lambda>(k, t). quoted k @ '':'' @ t)
      (sort_key fst (map (\<lambda>(k, v). (k, dumps v)) ms))))"
    using marks by (intro ascii_join) auto
  then show ?case using marks by simp
qed (simp_all add: ascii_quoted, code_simp+)

lemma ascii_text_encode: "list_all ascii t \<Longrightarrow> ascii_text (encode t) = Some t"
proof -
  assume t: "list_all ascii t"
  have one: "(of_char c :: byte) < 128 \<and> char_of (unat (of_char c :: byte)) = c" if "ascii c" for c
  proof -
    have "unat (of_char c :: byte) = (of_char c :: nat)"
      by (simp add: of_char_def unat_of_nat)
    then show ?thesis using that by (simp add: ascii_def word_less_nat_alt)
  qed
  then have "list_all (\<lambda>b. b < 128) (encode t)" and "map (\<lambda>b. char_of (unat b)) (encode t) = t"
    using t by (induction t) (auto simp: encode_def)
  then show ?thesis by (simp add: ascii_text_def)
qed

text \<open>Sorting the keys of a document does not change its text.\<close>

lemma sort_key_idem: "sort_key f (sort_key f xs) = sort_key f xs"
  by (rule sort_key_id_if_sorted) simp

lemma dumps_sort_keys: "dumps (sort_keys j) = dumps j"
proof (induction j)
  case (J_Arr vs)
  then show ?case by (simp cong: map_cong)
next
  case (J_Obj ms)
  have members: "(\<lambda>p. (fst p, dumps (sort_keys (snd p)))) p = (\<lambda>p. (fst p, dumps (snd p))) p" if "p \<in> set ms" for p
    using J_Obj [of p "snd p"] that by (cases p) auto
  have "sort_key fst (map (\<lambda>(k, v). (k, dumps v)) (sort_key fst (map (\<lambda>(k, v). (k, sort_keys v)) ms)))
      = map (\<lambda>p. (fst p, dumps (sort_keys (snd p)))) (sort_key fst ms)"
    by (simp add: sort_key_map case_prod_unfold sort_key_idem comp_def)
  also have "\<dots> = map (\<lambda>p. (fst p, dumps (snd p))) (sort_key fst ms)" using members by simp
  also have "\<dots> = sort_key fst (map (\<lambda>(k, v). (k, dumps v)) ms)"
    by (simp add: sort_key_map case_prod_unfold)
  finally show ?case by simp
qed simp_all

lemma exact_mapping_sorted:
  assumes "distinct (map fst ms)" and "set (map fst ms) = set ks"
  shows "exact_mapping ks (Some (sort_keys (J_Obj ms))) = Some (\<lambda>k. map_option sort_keys (map_of ms k))"
  using assms
  by (simp add: exact_mapping_def has_keys_sorted fun_eq_iff map_of_sorted) (simp add: has_keys_def)


section \<open>Values that have a wire form\<close>

definition wire_binding :: "action_binding \<Rightarrow> bool" where
  "wire_binding b \<longleftrightarrow> action_binding_ok b \<and> time_ok (instant (b_claim_deadline_utc b)) \<and>
     time_ok (instant (b_deadline_utc b))"

definition wire_evidence :: "mailbox_limits \<Rightarrow> wrapped_evidence \<Rightarrow> bool" where
  "wire_evidence l e \<longleftrightarrow> uuid4 (we_object_id e) \<and> length (we_storage_digest e) = 32 \<and>
     length (we_semantic_mac e) = 32 \<and> length (we_nonce e) = 12 \<and>
     16 \<le> len (we_wrapped_payload e) \<and> len (we_wrapped_payload e) \<le> max_total_evidence_bytes l + 128"

definition wire_result :: "wrapped_result \<Rightarrow> bool" where
  "wire_result w \<longleftrightarrow> length (wr_storage_digest w) = 32 \<and> length (wr_semantic_mac w) = 32 \<and>
     length (wr_nonce w) = 12 \<and> 16 \<le> len (wr_wrapped_payload w) \<and> len (wr_wrapped_payload w) \<le> 1048704"

definition wire_manifest :: "committed_manifest \<Rightarrow> bool" where
  "wire_manifest m \<longleftrightarrow> length (cm_storage_digest m) = 32 \<and> length (cm_semantic_mac m) = 32"

definition wire_tombstone :: "uuid \<Rightarrow> tombstone \<Rightarrow> bool" where
  "wire_tombstone k t \<longleftrightarrow> uuid4 k \<and> time_ok (t_created_at t) \<and> time_ok (t_expires_at t)"

definition sized :: "int \<Rightarrow> int \<Rightarrow> bytes \<Rightarrow> bool" where
  "sized lo hi b \<longleftrightarrow> lo \<le> len b \<and> len b \<le> hi"

definition wire_record :: "mailbox_limits \<Rightarrow> mrec \<Rightarrow> bool" where
  "wire_record l r \<longleftrightarrow> wire_binding (r_binding r) \<and> time_ok (r_created_at r) \<and> time_ok (r_last_seen r) \<and>
     length (r_action_digest r) = 32 \<and> length (r_claim_digest r) = 32 \<and> length (r_collection_digest r) = 32 \<and>
     pred_option (sized 1 8388608) (r_envelope_json r) \<and> pred_option (sized 32 32) (r_action_key r) \<and>
     pred_option (sized 32 128) (r_result_credential r) \<and> pred_option (sized 32 32) (r_result_digest r) \<and>
     len (r_evidence r) \<le> 64 \<and> wf_dict (r_evidence r) \<and>
     list_all (\<lambda>(k, e). k = we_object_id e \<and> wire_evidence l e) (r_evidence r) \<and>
     pred_option wire_result (r_result r) \<and> pred_option wire_manifest (r_manifest r) \<and>
     pred_option time_ok (r_committed_at r) \<and> pred_option time_ok (r_terminal_at r)"

lemma read_scalars:
  "sized lo hi b \<Longrightarrow> bytes_from_wire lo hi (Some (bytes_wire b)) = Some b"
  "time_ok t \<Longrightarrow> datetime_from_wire (Some (datetime_wire t)) = Some t"
  "uuid4 u \<Longrightarrow> uuid_from_wire (Some (uuid_wire u)) = Some u"
  "sort_keys (bytes_wire b) = bytes_wire b" "sort_keys (datetime_wire t) = datetime_wire t"
  "sort_keys (uuid_wire u) = uuid_wire u"
  by (simp_all add: bytes_from_wire_def bytes_wire_def b64decode_encode sized_def datetime_from_wire_def
      datetime_wire_def parse_isoformat time_ok_def uuid_from_wire_def uuid_wire_def parse_uuid_text)

lemma read_opt:
  "pred_option P x \<Longrightarrow> (\<And>v. P v \<Longrightarrow> f (Some (sort_keys (g v))) = Some v) \<Longrightarrow> (\<And>v. sort_keys (g v) \<noteq> J_Null) \<Longrightarrow>
     opt_from_wire f (Some (sort_keys (opt_wire g x))) = Some x"
  by (cases x) (simp_all add: opt_from_wire_def opt_wire_def)

lemma not_null:
  "bytes_wire b \<noteq> J_Null" "datetime_wire t \<noteq> J_Null"
  "sort_keys (result_wire w) \<noteq> J_Null" "sort_keys (manifest_wire m) \<noteq> J_Null"
  by (simp_all add: bytes_wire_def datetime_wire_def result_wire_def manifest_wire_def)

lemma sized_exact: "length b = n \<Longrightarrow> sized (int n) (int n) b"
  by (simp add: sized_def)

lemma read_states:
  "mailbox_state_of (Some (J_Str (mailbox_state_value st))) = Some st"
  "collection_state_of (Some (J_Str (collection_state_value co))) = Some co"
  by (cases st; simp add: mailbox_state_of_def) (cases co; simp add: collection_state_of_def)

lemma read_binding: "wire_binding b \<Longrightarrow> binding_from_wire (Some (sort_keys (binding_wire b))) = Some b"
proof -
  assume b: "wire_binding b"
  have utc: "utc (instant d) = d" if "is_utc d" for d using that by (cases d) (simp add: is_utc_def)
  have u: "uuid4 (b_mailbox_id b)" "uuid4 (b_action_id b)" "uuid4 (b_intent_id b)" "uuid4 (b_attempt_id b)"
    "is_utc (b_claim_deadline_utc b)" "is_utc (b_deadline_utc b)" "time_ok (instant (b_claim_deadline_utc b))"
    "time_ok (instant (b_deadline_utc b))" and ok: "action_binding_ok b"
    using b by (simp_all add: wire_binding_def action_binding_ok_def)
  have "action_binding_ok \<lparr>b_mailbox_id = b_mailbox_id b, b_action_id = b_action_id b, b_intent_id = b_intent_id b,
      b_attempt_id = b_attempt_id b, b_connector_release = b_connector_release b, b_capability = b_capability b,
      b_selected_artifact_digest = b_selected_artifact_digest b, b_dispatch_epoch = b_dispatch_epoch b,
      b_fence = b_fence b, b_authorization_epoch = b_authorization_epoch b,
      b_claim_deadline_utc = b_claim_deadline_utc b, b_deadline_utc = b_deadline_utc b,
      b_wall_seconds = b_wall_seconds b, b_response_bytes = b_response_bytes b,
      b_envelope_digest = b_envelope_digest b\<rparr>" using ok by (simp add: action_binding_ok_def)
  then show ?thesis
    unfolding binding_wire_def binding_from_wire_def
    by (subst exact_mapping_sorted) (simp_all add: read_scalars u utc Let_def)
qed

lemma read_evidence: "wire_evidence l e \<Longrightarrow> evidence_from_wire l (Some (sort_keys (evidence_wire e))) = Some e"
  unfolding evidence_wire_def evidence_from_wire_def wire_evidence_def
  by (subst exact_mapping_sorted) (simp_all add: read_scalars sized_def)

lemma read_result: "wire_result w \<Longrightarrow> result_from_wire (Some (sort_keys (result_wire w))) = Some w"
  unfolding result_wire_def result_from_wire_def wire_result_def
  by (subst exact_mapping_sorted) (simp_all add: read_scalars sized_def)

lemma read_manifest: "wire_manifest m \<Longrightarrow> manifest_from_wire (Some (sort_keys (manifest_wire m))) = Some m"
  unfolding manifest_wire_def manifest_from_wire_def wire_manifest_def
  by (subst exact_mapping_sorted) (simp_all add: read_scalars sized_def)

lemma read_tombstone: "wire_tombstone k t \<Longrightarrow> tombstone_from_wire (Some (sort_keys (tombstone_wire k t))) = Some (k, t)"
  unfolding tombstone_wire_def tombstone_from_wire_def wire_tombstone_def
  by (subst exact_mapping_sorted) (simp_all add: read_scalars)


section \<open>Records and repositories\<close>

definition canonical_record :: "mrec \<Rightarrow> mrec" where
  "canonical_record r = r\<lparr>r_evidence := sort_key fst (r_evidence r)\<rparr>"

definition canonical_repo :: "repo \<Rightarrow> repo" where
  "canonical_repo s = s\<lparr>p_records := map (\<lambda>(k, r). (k, canonical_record r)) (sort_key fst (p_records s)),
     p_tombstones := sort_key fst (p_tombstones s)\<rparr>"

definition frame_of :: "repo \<Rightarrow> frame_state" where
  "frame_of s = \<lparr>fs_records = p_records s, fs_tombstones = p_tombstones s, fs_last_seen = p_last_seen s,
     fs_active = p_active s, fs_evidence = p_evidence s, fs_committed = p_committed s\<rparr>"

definition wire_repo :: "repo \<Rightarrow> bool" where
  "wire_repo s \<longleftrightarrow>
     list_all (\<lambda>(k, r). k = b_mailbox_id (r_binding r) \<and> wire_record (p_limits s) r) (p_records s) \<and>
     list_all (\<lambda>(k, t). wire_tombstone k t) (p_tombstones s) \<and>
     wf_dict (p_records s) \<and> wf_dict (p_tombstones s) \<and> keys (p_records s) \<inter> keys (p_tombstones s) = {} \<and>
     len (p_records s) \<le> max_mailboxes (p_limits s) \<and> len (p_tombstones s) \<le> max_tombstones (p_limits s) \<and>
     pred_option time_ok (p_last_seen s) \<and> 0 \<le> p_active s \<and> 0 \<le> p_evidence s \<and> 0 \<le> p_committed s"

lemma distinct_map_sorted: "distinct (map f (sort_key k xs)) = distinct (map f xs)"
  by (simp add: distinct_map)

lemma read_record:
  assumes "wire_record l r"
  shows "record_from_wire l (Some (sort_keys (record_wire r))) = Some (canonical_record r)"
proof -
  note w = assms [unfolded wire_record_def]
  let ?es = "sort_key fst (r_evidence r)"
  have e: "k = we_object_id x \<and> wire_evidence l x" if "(k, x) \<in> set ?es" for k x
    using w that by (auto simp: list_all_iff)
  have those: "those (map (\<lambda>j. evidence_from_wire l (Some j)) (map sort_keys (map (evidence_wire \<circ> snd) ?es))) =
      Some (map snd ?es)"
    unfolding map_map comp_def using e by (intro those_Some) (auto simp: read_evidence)
  have ids: "map we_object_id (map snd ?es) = map fst ?es" using e by (auto simp: comp_def)
  then have "distinct (map we_object_id (map snd ?es))"
    using w by (simp only: distinct_map_sorted wf_dict_def)
  moreover have "map (\<lambda>e. (we_object_id e, e)) (map snd ?es) = ?es"
    using e by (auto simp: comp_def intro: map_idI)
  moreover have times: "opt_from_wire datetime_from_wire (Some (sort_keys (opt_wire datetime_wire x))) = Some x"
    if "pred_option time_ok x" for x by (rule read_opt [OF that]) (simp_all add: read_scalars not_null)
  moreover have bytes: "opt_from_wire (bytes_from_wire lo hi) (Some (sort_keys (opt_wire bytes_wire x))) = Some x"
    if "pred_option (sized lo hi) x" for x lo hi by (rule read_opt [OF that]) (simp_all add: read_scalars not_null)
  moreover have result: "opt_from_wire result_from_wire (Some (sort_keys (opt_wire result_wire (r_result r)))) = Some (r_result r)"
    by (rule read_opt [where P = wire_result]) (use w in \<open>simp_all add: read_result not_null\<close>)
  moreover have manifest: "opt_from_wire manifest_from_wire (Some (sort_keys (opt_wire manifest_wire (r_manifest r)))) = Some (r_manifest r)"
    by (rule read_opt [where P = wire_manifest]) (use w in \<open>simp_all add: read_manifest not_null\<close>)
  ultimately show ?thesis
    using w those unfolding record_wire_def record_from_wire_def
    by (subst exact_mapping_sorted)
      (simp_all add: read_scalars read_states read_binding sized_def canonical_record_def del: map_map)
qed

lemma canonical_record_fields [simp]:
  "r_binding (canonical_record r) = r_binding r" "r_state (canonical_record r) = r_state r"
  by (simp_all add: canonical_record_def)

lemma read_state:
  assumes "wire_repo s"
  shows "state_from_wire (p_limits s) (Some (sort_keys (state_wire s))) = Some (frame_of (canonical_repo s))"
proof -
  note w = assms [unfolded wire_repo_def]
  let ?rs = "sort_key fst (p_records s)" and ?ts = "sort_key fst (p_tombstones s)"
  have r: "k = b_mailbox_id (r_binding x) \<and> wire_record (p_limits s) x" if "(k, x) \<in> set ?rs" for k x
    using w that by (auto simp: list_all_iff)
  have t: "wire_tombstone k x" if "(k, x) \<in> set ?ts" for k x
    using w that by (auto simp: list_all_iff)
  have items: "those (map (\<lambda>j. record_from_wire (p_limits s) (Some j)) (map sort_keys (map (record_wire \<circ> snd) ?rs))) =
      Some (map (canonical_record \<circ> snd) ?rs)"
    unfolding map_map comp_def using r by (intro those_Some) (auto simp: read_record)
  have stones: "those (map (\<lambda>j. tombstone_from_wire (Some j)) (map sort_keys (map (\<lambda>(k, t). tombstone_wire k t) ?ts))) =
      Some ?ts"
    using those_Some [of ?ts "\<lambda>x. tombstone_from_wire (Some (sort_keys (case x of (k, t) \<Rightarrow> tombstone_wire k t)))" id] t
    by (auto simp: comp_def read_tombstone)
  have "map (b_mailbox_id \<circ> r_binding) (map (canonical_record \<circ> snd) ?rs) = map fst ?rs"
    using r by (auto simp: comp_def)
  then have distinct: "distinct (map (b_mailbox_id \<circ> r_binding) (map (canonical_record \<circ> snd) ?rs))"
    using w by (simp only: distinct_map_sorted wf_dict_def)
  have indexed: "map (\<lambda>r. (b_mailbox_id (r_binding r), r)) (map (canonical_record \<circ> snd) ?rs) =
      map (\<lambda>(k, r). (k, canonical_record r)) ?rs"
    using r by (auto simp: comp_def)
  have names: "fst ` (\<lambda>(k, r). (k, canonical_record r)) ` X = fst ` X" for X by force
  have fresh: "distinct (map fst ?ts)" using w by (simp add: distinct_map_sorted wf_dict_def)
  have times: "opt_from_wire datetime_from_wire (Some (sort_keys (opt_wire datetime_wire (p_last_seen s)))) = Some (p_last_seen s)"
    by (rule read_opt [where P = time_ok]) (use w in \<open>simp_all add: read_scalars not_null\<close>)
  show ?thesis
    unfolding state_wire_def state_from_wire_def
    by (subst exact_mapping_sorted)
      (use w in \<open>simp_all add: items stones distinct indexed names fresh times frame_of_def canonical_repo_def del: map_map\<close>)
qed

lemma wire_keys:
  "distinct_keys (uuid_wire u)" "distinct_keys (bytes_wire b)" "distinct_keys (datetime_wire t)"
  "distinct_keys (binding_wire x)" "distinct_keys (evidence_wire e)" "distinct_keys (result_wire w)"
  "distinct_keys (manifest_wire m)" "distinct_keys (tombstone_wire k y)"
  by (simp_all add: uuid_wire_def bytes_wire_def datetime_wire_def binding_wire_def evidence_wire_def result_wire_def
      manifest_wire_def tombstone_wire_def)

lemma opt_wire_keys: "(\<And>v. distinct_keys (f v)) \<Longrightarrow> distinct_keys (opt_wire f x)"
  by (cases x) (simp_all add: opt_wire_def)

lemma record_wire_keys: "distinct_keys (record_wire r)"
  by (simp add: record_wire_def wire_keys opt_wire_keys list_all_iff)

lemma state_wire_keys: "distinct_keys (state_wire s)"
  by (simp add: state_wire_def wire_keys opt_wire_keys record_wire_keys list_all_iff case_prod_unfold)

lemma encode_state_not_empty: "encode_state s \<noteq> []"
  by (simp add: encode_state_def encode_def state_wire_def)

lemma decode_encode:
  assumes "wire_repo s" and "len (encode_state s) \<le> max_serialized_bytes (p_limits s)"
  shows "decode_state (p_limits s) (encode_state s) = Some (frame_of (canonical_repo s))"
  using assms(2) encode_state_not_empty [of s]
  unfolding decode_state_def encode_state_def
  by (simp add: ascii_text_encode ascii_dumps state_wire_keys scan_loads dumps_sort_keys read_state [OF assms(1)])

end
