(* ===== verification/Mailbox_Persistent_Invariant.thy ===== *)
theory Mailbox_Persistent_Invariant
  imports Mailbox_Persistent Mailbox_Frame_Guarantees
begin

text \<open>
  What every state the mailbox can reach satisfies beyond the installation invariant, so that it can be
  written as a state frame and read back: timestamps are ordered and in range, digests have 32 bytes,
  tombstones carry the configured retention.
\<close>


section \<open>Result digests\<close>

definition digests_kept :: "(bytes \<Rightarrow> bool) \<Rightarrow> repo \<Rightarrow> bool" where
  "digests_kept P s \<longleftrightarrow> list_all (\<lambda>(k, r). pred_option P (r_result_digest r)) (p_records s)"

lemma digests_kept_cong: "p_records s' = p_records s \<Longrightarrow> digests_kept P s' = digests_kept P s"
  by (simp add: digests_kept_def)

lemma digests_kept_get: "digests_kept P s \<Longrightarrow> map_of (p_records s) k = Some r \<Longrightarrow> pred_option P (r_result_digest r)"
  by (auto simp: digests_kept_def list_all_iff dest!: map_of_SomeD)

lemma digests_kept_put:
  assumes "digests_kept P s" and "pred_option P (r_result_digest r)" and "p_records s1 = p_records s"
  shows "digests_kept P (put_record r s1)"
proof -
  have "list_all (\<lambda>(k, r). pred_option P (r_result_digest r)) (AList.update k r d)"
    if "list_all (\<lambda>(k, r). pred_option P (r_result_digest r)) d" for k and d :: "(uuid, mrec) dict"
    using that assms(2) by (induction d) auto
  then show ?thesis using assms by (simp add: digests_kept_def put_record_def)
qed

lemma digests_attempt:
  "digests_kept P s \<Longrightarrow> (\<And>x. m = Inr x \<Longrightarrow> digests_kept P (snd (k x))) \<Longrightarrow> digests_kept P (snd (attempt m s k))"
  by (cases m) simp_all

lemma record_helpers [simp]:
  "p_records (advance_installation_time now s) = p_records s"
  "p_records (snd (observe_time now p)) = p_records (snd p)"
  "r_result_digest (fst (observe_time now p)) = r_result_digest (fst p)"
  "p_records (snd (clear_claim_delivery_material p)) = p_records (snd p)"
  "r_result_digest (fst (clear_claim_delivery_material p)) = r_result_digest (fst p)"
  "p_records (snd (release_record_payloads p)) = p_records (snd p)"
  "r_result_digest (fst (release_record_payloads p)) = r_result_digest (fst p)"
  "p_records (snd (clear_action_material p)) = p_records (snd p)"
  "r_result_digest (fst (clear_action_material p)) = None"
  by (simp_all add: advance_installation_time_def observe_time_def clear_claim_delivery_material_def
      release_record_payloads_def clear_action_material_def clear_result_digest_def Let_def split: option.split)

lemma expire_if_due_digest:
  assumes "expire_if_due now (r, s) = (d, r1, s1)"
  shows "p_records s1 = p_records s" and "r_result_digest r1 \<in> {r_result_digest r, None}"
  using assms
  by (auto simp: expire_if_due_def observe_time_def clear_action_material_def release_record_payloads_def
      clear_claim_delivery_material_def clear_result_digest_def Let_def split: if_splits)

lemma digests_kept_due:
  assumes "digests_kept P s" and "map_of (p_records s) k = Some r" and "expire_if_due now (r, s) = (d, r1, s1)"
  shows "digests_kept P (put_record r1 s1)" and "pred_option P (r_result_digest r1)" and "digests_kept P s1"
proof -
  note r = digests_kept_get [OF assms(1,2)] and e = expire_if_due_digest [OF assms(3)]
  show "pred_option P (r_result_digest r1)" using r e(2) by auto
  then show "digests_kept P (put_record r1 s1)" by (rule digests_kept_put [OF assms(1) _ e(1)])
  show "digests_kept P s1" using assms(1) e(1) by (simp add: digests_kept_def)
qed

lemma create_digests:
  assumes "digests_kept P s"
  shows "digests_kept P (snd (create b x y z c s))"
  using assms unfolding create_def
  by (intro digests_attempt) (auto simp: Let_def digests_kept_cong [OF record_helpers(1)] intro!: digests_kept_put)

lemma offer_digests:
  assumes "digests_kept P s" and "P d"
  shows "digests_kept P (snd (offer L b en key a co cred d c s))"
  unfolding offer_def
  by (intro digests_attempt)
    (auto simp: get_record_Inr observe_time_def digests_kept_due [OF assms(1)]
      digests_kept_get [OF assms(1)] assms Let_def split: prod.splits if_splits intro!: digests_kept_put [OF assms(1)])

lemma claim_digests:
  assumes "digests_kept P s"
  shows "digests_kept P (snd (claim L b cd c s))"
  unfolding claim_def
  by (intro digests_attempt)
    (auto simp: get_record_Inr observe_time_def digests_kept_due [OF assms(1)]
      digests_kept_get [OF assms(1)] assms Let_def clear_claim_delivery_material_def
      split: prod.splits if_splits option.splits intro!: digests_kept_put [OF assms(1)])

lemma stage_evidence_digests:
  assumes "digests_kept P s"
  shows "digests_kept P (snd (stage_evidence L b rd ev c s))"
  unfolding stage_evidence_def
  by (intro digests_attempt)
    (auto simp: get_record_Inr observe_time_def digests_kept_due [OF assms(1)]
      digests_kept_get [OF assms(1)] assms Let_def attempt_def
      split: prod.splits if_splits sum.splits intro!: digests_kept_put [OF assms(1)])

lemma commit_result_digests:
  assumes "digests_kept P s"
  shows "digests_kept P (snd (commit_result L b rd json seals c s))"
  unfolding commit_result_def
  by (intro digests_attempt)
    (auto simp: get_record_Inr observe_time_def digests_kept_due [OF assms(1)]
      digests_kept_get [OF assms(1)] assms Let_def attempt_def
      split: prod.splits if_splits sum.splits intro!: digests_kept_put [OF assms(1)])

lemma collect_digests:
  assumes "digests_kept P s"
  shows "digests_kept P (snd (collect L k cd c s))"
  unfolding collect_def
  by (intro digests_attempt)
    (auto simp: get_record_Inr observe_time_def digests_kept_due [OF assms(1)]
      digests_kept_get [OF assms(1)] assms Let_def attempt_def
      split: prod.splits if_splits option.splits sum.splits intro!: digests_kept_put [OF assms(1)])

lemma acknowledge_collection_digests:
  assumes "digests_kept P s"
  shows "digests_kept P (snd (acknowledge_collection L k cd c s))"
  unfolding acknowledge_collection_def
  by (intro digests_attempt)
    (auto simp: get_record_Inr observe_time_def digests_kept_due [OF assms(1)]
      digests_kept_get [OF assms(1)] assms Let_def release_record_payloads_def
      split: prod.splits if_splits intro!: digests_kept_put [OF assms(1)])

lemma abandon_digests:
  assumes "digests_kept P s"
  shows "digests_kept P (snd (abandon L k cd c s))"
  unfolding abandon_def
  by (intro digests_attempt)
    (auto simp: get_record_Inr observe_time_def digests_kept_due [OF assms(1)]
      digests_kept_get [OF assms(1)] assms Let_def clear_action_material_def clear_result_digest_def
      clear_claim_delivery_material_def release_record_payloads_def
      split: prod.splits if_splits intro!: digests_kept_put [OF assms(1)])

lemma snapshot_digests:
  assumes "digests_kept P s"
  shows "digests_kept P (snd (snapshot L k cd c s))"
  unfolding snapshot_def
  by (intro digests_attempt)
    (auto simp: get_record_Inr observe_time_def digests_kept_due [OF assms(1)]
      digests_kept_get [OF assms(1)] assms Let_def expire_if_due_digest
      split: prod.splits if_splits intro!: digests_kept_put [OF assms(1)])

lemma expire_loop_digests: "digests_kept P s \<Longrightarrow> digests_kept P (fst (expire_loop now ks s acc))"
proof (induction ks arbitrary: s acc)
  case (Cons k ks)
  show ?case
  proof (cases "map_of (p_records s) k")
    case None
    then show ?thesis using Cons by simp
  next
    case (Some r)
    obtain d r1 s1 where e: "expire_if_due now (r, s) = (d, r1, s1)" by (cases "expire_if_due now (r, s)")
    obtain r2 s2 where o: "observe_time now (r1, s1) = (r2, s2)" by (cases "observe_time now (r1, s1)")
    note kept = digests_kept_due [OF Cons.prems Some e]
    have "digests_kept P (put_record r2 s2)"
      using digests_kept_put [OF kept(3), of r2 s2] record_helpers(2,3) [of now "(r1, s1)"] o kept(2) by simp
    then show ?thesis using Cons.IH kept(1) by (simp add: Some e o)
  qed
qed simp

lemma gc_loop_digests: "digests_kept P s \<Longrightarrow> digests_kept P (fst (gc_loop now expires ks s acc))"
proof (induction ks arbitrary: s acc)
  case (Cons k ks)
  have "digests_kept P (remove now expires k r s)" for r
    using Cons.prems by (auto simp: digests_kept_def remove_def list_all_iff AList.delete_eq)
  then show ?case using Cons unfolding gc_loop_Cons by (auto split: option.splits)
qed simp

lemma sweep_digests:
  assumes "digests_kept P s"
  shows "digests_kept P (snd (expire L m c s))" and "digests_kept P (snd (garbage_collect L m c s))"
proof -
  show "digests_kept P (snd (expire L m c s))"
    unfolding expire_def
    by (intro digests_attempt)
      (use assms expire_loop_digests [OF assms] in \<open>auto simp: case_prod_unfold Let_def digests_kept_cong [OF record_helpers(1)]\<close>)
  have "digests_kept P (drop_tombstones now (touch_all now s))" for now
    using assms by (auto simp: digests_kept_def drop_tombstones_def touch_all_def list_all_iff)
  then show "digests_kept P (snd (garbage_collect L m c s))"
    using garbage_collect_failure [of L m c s] garbage_collect_success(6) [of L m c s] gc_loop_digests assms
    by (cases "garbage_collect L m c s"; cases "fst (garbage_collect L m c s)") fastforce+
qed

text \<open>The digests a request brings in.\<close>

fun request_digests :: "request \<Rightarrow> bytes list" where
  "request_digests (Create b x y z) = [x, y, z]"
| "request_digests (Offer b en key a co cred d) = [d]"
| "request_digests q = []"

lemma perform_digests:
  assumes "digests_kept P s" and "list_all P (request_digests q)"
  shows "digests_kept P (snd (perform L c q s))"
  using assms(2)
  by (cases q) (simp_all add: create_digests offer_digests claim_digests stage_evidence_digests commit_result_digests
      collect_digests acknowledge_collection_digests abandon_digests snapshot_digests sweep_digests assms(1))



section \<open>Ordered histories\<close>

definition ordered_record :: "mrec \<Rightarrow> bool" where
  "ordered_record r \<longleftrightarrow>
     time_ok (r_created_at r) \<and> time_ok (r_last_seen r) \<and>
     time_ok (instant (b_claim_deadline_utc (r_binding r))) \<and> time_ok (instant (b_deadline_utc (r_binding r))) \<and>
     length (r_action_digest r) = 32 \<and> length (r_claim_digest r) = 32 \<and> length (r_collection_digest r) = 32 \<and>
     r_created_at r < instant (b_claim_deadline_utc (r_binding r)) \<and>
     pred_option (\<lambda>t. r_created_at r \<le> t \<and> t \<le> r_last_seen r) (r_committed_at r) \<and>
     pred_option (\<lambda>t. r_created_at r \<le> t \<and> t \<le> r_last_seen r) (r_terminal_at r) \<and>
     (\<forall>a b. r_committed_at r = Some a \<and> r_terminal_at r = Some b \<longrightarrow> a \<le> b)"

definition ordered_tombstone :: "int \<Rightarrow> int option \<Rightarrow> uuid \<times> tombstone \<Rightarrow> bool" where
  "ordered_tombstone retention high_water x \<longleftrightarrow>
     uuid4 (fst x) \<and> time_ok (t_created_at (snd x)) \<and> time_ok (t_expires_at (snd x)) \<and>
     t_expires_at (snd x) - t_created_at (snd x) = retention \<and>
     (\<exists>h. high_water = Some h \<and> t_created_at (snd x) \<le> h)"

definition ordered :: "repo \<Rightarrow> bool" where
  "ordered s \<longleftrightarrow>
     list_all (ordered_record \<circ> snd) (p_records s) \<and>
     list_all (ordered_tombstone (tombstone_retention (p_limits s)) (p_last_seen s)) (p_tombstones s) \<and>
     pred_option time_ok (p_last_seen s)"

lemma ordered_get: "ordered s \<Longrightarrow> map_of (p_records s) k = Some r \<Longrightarrow> ordered_record r"
  by (auto simp: ordered_def list_all_iff dest!: map_of_SomeD)

lemma ordered_tombstone_later:
  "ordered_tombstone d high x \<Longrightarrow> (\<And>h. high = Some h \<Longrightarrow> h \<le> now) \<Longrightarrow> ordered_tombstone d (Some now) x"
  by (force simp: ordered_tombstone_def)

lemma uncommitted_collection:
  assumes "record_inv L K r" and "r_state r \<noteq> S_RESULT_COMMITTED"
  shows "r_collection r = C_NONE" and "r_result r = None" and "r_manifest r = None" and "r_committed_at r = None"
    and "r_state r \<noteq> S_CLAIMED_ONCE \<Longrightarrow> r_evidence r = []"
  using assms
  by (auto simp: record_inv_def authentic_def validated_record_material_def validated_evidence_slots_def
      split: sum.splits if_splits)

lemma rstep_ordered:
  assumes "rstep L K now r r'" and "record_inv L K r" and "ordered_record r" and "r_last_seen r \<le> now" and "time_ok now"
  shows "ordered_record r'"
proof -
  note o = assms(3) [unfolded ordered_record_def]
  have bounds: "pred_option (\<lambda>t. r_created_at r \<le> t \<and> t \<le> now) (r_committed_at r)"
      "pred_option (\<lambda>t. r_created_at r \<le> t \<and> t \<le> now) (r_terminal_at r)" "r_created_at r \<le> now"
    using o assms(2,4) by (auto simp: pred_option_def record_inv_def)
  from assms(1) show ?thesis
  proof (cases rule: rstep.cases)
    case (committed w m validated result_json)
    have "r_terminal_at r = None"
      using assms(2) uncommitted_collection(1) [OF assms(2)] committed by (auto simp: record_inv_def terminal_def)
    then show ?thesis using committed o bounds assms(5) by (simp add: ordered_record_def)
  qed (use o bounds assms(5) in \<open>auto simp: ordered_record_def cleared_def pred_option_def\<close>)
qed

lemma list_all_values: "list_all (P \<circ> snd) d \<Longrightarrow> P v \<Longrightarrow> list_all (P \<circ> snd) (AList.update k v d)"
  by (induction d) auto

lemma op_effect_ordered:
  assumes "op_effect L now k s s'" and "repo_inv L s" and "ordered s" and "time_ok now"
  shows "ordered s'"
proof -
  obtain r r' where r: "map_of (p_records s) k = Some r" "rstep L (p_keys s) now r r'" "r_last_seen r \<le> now"
      "not_after s now" "s' = settle now r r' s"
    using assms(1) by (auto simp: op_effect_def)
  have "record_inv L (p_keys s) r" using repo_invD(3) [OF assms(2)] r(1) by (simp add: records_ok_def)
  then have "ordered_record r'" using rstep_ordered r(2,3) ordered_get [OF assms(3) r(1)] assms(4) by blast
  then have "list_all (ordered_record \<circ> snd) (p_records s')"
    using assms(3) by (simp add: r(5) settle_def ordered_def list_all_values)
  moreover have "list_all (ordered_tombstone (tombstone_retention (p_limits s')) (p_last_seen s')) (p_tombstones s')"
    using assms(3) r(4) ordered_tombstone_later by (auto simp: r(5) settle_def ordered_def list_all_iff)
  ultimately show ?thesis using assms(4) by (simp add: ordered_def) (simp add: r(5) settle_def)
qed

lemma sweep_ordered: "sweep L now s s' \<Longrightarrow> repo_inv L s \<Longrightarrow> ordered s \<Longrightarrow> time_ok now \<Longrightarrow> ordered s'"
  unfolding sweep_def
proof (induction rule: converse_rtranclp_induct)
  case (step s s1)
  then show ?case using op_effect_ordered op_effect_inv by blast
qed

lemma advance_ordered: "ordered s \<Longrightarrow> time_ok now \<Longrightarrow> ordered (advance_installation_time now s)"
  by (auto simp: ordered_def advance_installation_time_def list_all_iff split: option.splits
      intro: ordered_tombstone_later)

lemma touch_all_ordered:
  assumes "repo_inv L s" and "ordered s" and "not_after s now" and "time_ok now"
  shows "ordered (touch_all now s)" and "p_last_seen (touch_all now s) = Some now"
proof -
  have seen: "r_last_seen r \<le> now" if "(k, r) \<in> set (p_records s)" for k r
    using repo_invD(4,8) [OF assms(1)] assms(3) that
    by (fastforce simp: clock_bounds_def wf_dict_def dest: map_of_is_SomeI)
  have "ordered_record (r\<lparr>r_last_seen := now\<rparr>)" if "(k, r) \<in> set (p_records s)" for k r
    using assms(2,4) seen [OF that] that
    by (fastforce simp: ordered_def ordered_record_def list_all_iff pred_option_def)
  then have "ordered (s\<lparr>p_records := map (\<lambda>(k, r). (k, r\<lparr>r_last_seen := now\<rparr>)) (p_records s)\<rparr>)"
    using assms(2) by (auto simp: ordered_def list_all_iff)
  then show "ordered (touch_all now s)" unfolding touch_all_def using assms(4) by (rule advance_ordered)
  show "p_last_seen (touch_all now s) = Some now"
    using assms(3) by (auto simp: touch_all_def advance_installation_time_def split: option.split)
qed

lemma remove_ordered:
  assumes "repo_inv L s" and "ordered s" and "p_last_seen s = Some now" and "time_ok now"
    and "now + tombstone_retention (p_limits s) \<le> max_instant" and "map_of (p_records s) k = Some r"
  shows "ordered (remove now (now + tombstone_retention (p_limits s)) k r s)"
proof -
  have "uuid4 k"
    using repo_invD(3) [OF assms(1)] assms(6) by (auto simp: records_ok_def record_inv_def action_binding_ok_def)
  moreover have "time_ok (now + tombstone_retention (p_limits s))"
    using assms(4,5) repo_invD(1) [OF assms(1)] by (auto simp: time_ok_def mailbox_limits_ok_def)
  ultimately have "ordered_tombstone (tombstone_retention (p_limits s)) (Some now)
      (k, \<lparr>t_created_at = now, t_expires_at = now + tombstone_retention (p_limits s)\<rparr>)"
    using assms(4) by (simp add: ordered_tombstone_def)
  moreover have "list_all P (AList.update k v d)" if "list_all P d" "P (k, v)" for P v and d :: "(uuid, tombstone) dict"
    using that by (induction d) auto
  ultimately show ?thesis
    using assms(2,3) by (auto simp: ordered_def remove_def list_all_iff AList.delete_eq)
qed

lemma gc_loop_ordered:
  assumes "repo_inv L s" and "ordered s" and "p_last_seen s = Some now" and "time_ok now"
    and "now + tombstone_retention (p_limits s) \<le> max_instant"
  shows "ordered (fst (gc_loop now (now + tombstone_retention (p_limits s)) ks s acc))"
  using assms
proof (induction ks arbitrary: s acc)
  case (Cons k ks)
  let ?e = "now + tombstone_retention (p_limits s)"
  have "ordered (fst (gc_loop now ?e ks (remove now ?e k r s) acc'))"
    if "map_of (p_records s) k = Some r" "len (p_tombstones s) < max_tombstones (p_limits s)"
       "r_terminal_at r = Some t" for r t acc'
    using Cons.IH [of "remove now ?e k r s" acc'] remove_ordered [OF Cons.prems that(1)]
      remove_inv [OF Cons.prems(1) that(1)] Cons.prems that by (simp add: remove_def)
  then show ?case using Cons unfolding gc_loop_Cons by (auto split: option.splits)
qed simp

text \<open>What the service guarantees of a request to the persistent repository.\<close>

fun deadlines_ok :: "request \<Rightarrow> bool" where
  "deadlines_ok (Create b x y z) \<longleftrightarrow> time_ok (instant (b_claim_deadline_utc b)) \<and> time_ok (instant (b_deadline_utc b))"
| "deadlines_ok q \<longleftrightarrow> True"

definition durable_request :: "call \<Rightarrow> request \<Rightarrow> bool" where
  "durable_request c q \<longleftrightarrow> request_ok c q \<and> time_ok (instant (c_now c)) \<and>
     list_all (\<lambda>d. length d = 32) (request_digests q) \<and> deadlines_ok q"

lemma create_ordered:
  assumes "ordered s" and "durable_request c (Create b x y z)" and "create b x y z c s = (Inr snap, s')"
  shows "ordered s'"
proof -
  note ok = create_success [OF assms(3)]
  have "ordered_record (fresh_record b x y z (instant (c_now c)))"
    using assms(2) ok(9) by (simp add: ordered_record_def fresh_record_def durable_request_def)
  then show ?thesis
    using assms(1,2) ok(2) ordered_tombstone_later
    by (auto simp: ok(10) ordered_def list_all_iff durable_request_def)
qed

lemma perform_ordered:
  assumes "repo_inv L s" and "lib_ok L" and "ordered s" and "durable_request c q"
  shows "ordered (snd (perform L c q s))"
proof -
  have q: "request_ok c q" and now: "time_ok (instant (c_now c))" using assms(4) by (simp_all add: durable_request_def)
  show ?thesis
    using assms(1,2) q
  proof (cases rule: perform_cases)
    case (created b a cl co snap)
    then show ?thesis using create_ordered [OF assms(3)] assms(4) by simp
  next
    case (stepped k)
    then show ?thesis using op_effect_ordered assms(1,3) now by blast
  next
    case (expired m ids)
    note e = expire_sweep [OF assms(1) expired(2)]
    show ?thesis using sweep_ordered [OF e(1) assms(1,3) now] e(2) now by (simp add: advance_ordered)
  next
    case (collected m ids)
    note g = garbage_collect_success [OF collected(2)]
    let ?now = "instant (c_now c)" and ?s = "drop_tombstones (instant (c_now c)) (touch_all (instant (c_now c)) s)"
    note t = touch_all_ordered [OF assms(1,3) g(2) now]
    have "ordered ?s" using t(1) by (auto simp: ordered_def drop_tombstones_def list_all_iff)
    moreover have "repo_inv L ?s" by (rule drop_tombstones_inv [OF touch_all_inv [OF assms(1) g(2)]])
    moreover have "p_last_seen ?s = Some ?now" using t(2) by (simp add: drop_tombstones_def)
    moreover have "p_limits ?s = p_limits s" by (simp add: drop_tombstones_def touch_all_def)
    ultimately show ?thesis using gc_loop_ordered [of L ?s ?now] g(4,6) now by simp
  qed (use assms(3) in simp)
qed


section \<open>Reachable states are possible\<close>

lemma record_possible:
  assumes "record_inv L K r" and "ordered_record r" and "r_last_seen r \<le> h" and "pred_option (\<lambda>d. length d = 32) (r_result_digest r)"
  shows "record_semantics (Some h) r" and "semantic_credentials r = credentials_of r"
proof -
  show same: "semantic_credentials r = credentials_of r"
    using assms(4) by (auto simp: semantic_credentials_def credentials_of_def pred_option_def split: option.split)
  have times: "times_ok (Some h) r" using assms(1-3) by (simp add: times_ok_def ordered_record_def record_inv_def)
  have bytes: "0 \<le> result_bytes r"
    by (rule authentic_bytes_nonneg [OF record_inv_authentic [OF assms(1)]])
  note inv = assms(1) [unfolded record_inv_def material_ok_def terminal_def]
  have "lifecycle_ok r"
  proof (cases "r_state r = S_RESULT_COMMITTED")
    case True
    have "r_committed_at r \<noteq> None" "r_collection r \<in> {C_READY, C_DELIVERING, C_ACKNOWLEDGED}"
      using record_inv_authentic [OF assms(1)] True
      by (auto simp: authentic_def validated_record_material_def split: sum.splits if_splits)
    then show ?thesis
      using True inv assms(2)
      by (auto simp: lifecycle_ok_def no_active_def ordered_record_def result_bytes_def split: option.splits)
  next
    case False
    note un = uncommitted_collection [OF assms(1) False]
    show ?thesis
      using False inv un
      by (cases "r_state r") (auto simp: lifecycle_ok_def no_active_def no_committed_def split: option.splits)
  qed
  then show "record_semantics (Some h) r"
    using times inv same bytes by (simp add: record_semantics_def)
qed

lemma loop_possible:
  assumes "\<And>k r. (k, r) \<in> set d \<Longrightarrow> record_semantics h r \<and> semantic_credentials r = credentials_of r"
    and "wf_dict d"
    and "\<And>k r. (k, r) \<in> set d \<Longrightarrow> set (credentials_of r) \<inter> observed = {}"
    and "\<And>k r k' r'. (k, r) \<in> set d \<Longrightarrow> (k', r') \<in> set d \<Longrightarrow> k \<noteq> k' \<Longrightarrow>
      set (credentials_of r) \<inter> set (credentials_of r') = {}"
  shows "semantics_loop h observed d"
  using assms
proof (induction d arbitrary: observed)
  case (Cons a d)
  obtain k r where a: "a = (k, r)" by (cases a)
  have "k \<noteq> k'" if "(k', r') \<in> set d" for k' r' using Cons.prems(2) that by (force simp: a wf_dict_def)
  then have "set (credentials_of r') \<inter> (observed \<union> set (credentials_of r)) = {}" if "(k', r') \<in> set d" for k' r'
    using Cons.prems(3) [of k' r'] Cons.prems(4) [of k r k' r'] that by (auto simp: a)
  moreover have "\<And>k' r'. (k', r') \<in> set d \<Longrightarrow> record_semantics h r' \<and> semantic_credentials r' = credentials_of r'"
    and "\<And>k1 r1 k2 r2. (k1, r1) \<in> set d \<Longrightarrow> (k2, r2) \<in> set d \<Longrightarrow> k1 \<noteq> k2 \<Longrightarrow>
      set (credentials_of r1) \<inter> set (credentials_of r2) = {}"
    using Cons.prems(1,4) by (meson list.set_intros(2))+
  moreover have "wf_dict d" using Cons.prems(2) by (simp add: a wf_dict_def)
  ultimately have "semantics_loop h (observed \<union> set (credentials_of r)) d" by (intro Cons.IH)
  then show ?case using Cons.prems(1) [of k r] Cons.prems(3) [of k r] by (simp add: a)
qed simp

lemma reachable_possible:
  assumes "repo_inv L s" and "ordered s" and "digests_kept (\<lambda>d. length d = 32) s"
  shows "validate_repository_semantics s"
proof -
  have look: "map_of (p_records s) k = Some r" if "(k, r) \<in> set (p_records s)" for k r
    using repo_invD(8) [OF assms(1)] that by (simp add: wf_dict_def)
  have seen: "\<exists>h. p_last_seen s = Some h \<and> r_last_seen r \<le> h" if "(k, r) \<in> set (p_records s)" for k r
    using repo_invD(4) [OF assms(1)] look [OF that] by (auto simp: clock_bounds_def)
  have rec: "record_semantics (p_last_seen s) r \<and> semantic_credentials r = credentials_of r"
    if kr: "(k, r) \<in> set (p_records s)" for k r
  proof -
    obtain h where h: "p_last_seen s = Some h" "r_last_seen r \<le> h" using seen [OF kr] by blast
    have "record_inv L (p_keys s) r" using repo_invD(3) [OF assms(1)] look [OF kr] by (simp add: records_ok_def)
    from record_possible [OF this ordered_get [OF assms(2) look [OF kr]] h(2) digests_kept_get [OF assms(3) look [OF kr]]]
    show ?thesis by (simp add: h(1))
  qed
  have iso: "p_maintenance s \<notin> set (credentials_of r)"
    "(k', r') \<in> set (p_records s) \<Longrightarrow> k \<noteq> k' \<Longrightarrow> set (credentials_of r) \<inter> set (credentials_of r') = {}"
    if "(k, r) \<in> set (p_records s)" for k r k' r'
    using repo_invD(7) [OF assms(1)] look [OF that] look [of k' r'] unfolding credentials_isolated_def by metis+
  have "semantics_loop (p_last_seen s) {p_maintenance s} (p_records s)"
    by (rule loop_possible [OF rec repo_invD(8) [OF assms(1)]]) (use iso in auto)
  moreover have "list_all (\<lambda>(_, t). t_created_at t < t_expires_at t \<and>
        t_expires_at t - t_created_at t = tombstone_retention (p_limits s) \<and>
        (case p_last_seen s of None \<Rightarrow> False | Some h \<Rightarrow> t_created_at t \<le> h)) (p_tombstones s)"
    using assms(2) repo_invD(1) [OF assms(1)]
    by (fastforce simp: ordered_def ordered_tombstone_def list_all_iff mailbox_limits_ok_def)
  moreover have "(p_records s \<noteq> [] \<or> p_tombstones s \<noteq> []) \<longrightarrow> p_last_seen s \<noteq> None"
    using seen assms(2) by (cases "p_records s"; cases "p_tombstones s") (auto simp: ordered_def ordered_tombstone_def)
  moreover have "frame_committed_bytes = committed_bytes"
    by (simp add: fun_eq_iff frame_committed_bytes_def committed_bytes_def)
  moreover have "0 \<le> active_bytes r \<and> 0 \<le> record_evidence_bytes r \<and> 0 \<le> committed_bytes r"
    if "(k, r) \<in> set (p_records s)" for k r
    using authentic_bytes_nonneg [OF records_okD(3) [OF repo_invD(3) [OF assms(1)] look [OF that]]]
    by (simp add: active_bytes_def opt_len_def split: option.split)
  then have "0 \<le> sum_vals active_bytes (p_records s)" "0 \<le> sum_vals record_evidence_bytes (p_records s)"
      "0 \<le> sum_vals committed_bytes (p_records s)"
    unfolding sum_vals_def by (intro sum_list_nonneg; auto)+
  ultimately show ?thesis
    using repo_invD(5,6) [OF assms(1)]
    by (simp add: validate_repository_semantics_def totals_exact_def quotas_kept_def Let_def)
qed

end
