(* ===== verification/Mailbox_Persistent_Guarantees.thy ===== *)
theory Mailbox_Persistent_Guarantees
  imports Mailbox_Persistent_Invariant Mailbox_Delivery
begin

text \<open>
  The persistent repository implements the volatile one: reordering the dictionaries of a state is
  invisible to its authentication, every reachable state has a wire form, and a transition that
  finds no fault replies as the volatile operation does and leaves a frame that loads the state
  the operation left.
\<close>


section \<open>Authentication does not depend on order\<close>

lemma validated_slots_map:
  assumes "distinct (map fst evidence)" and "keys acc \<inter> keys evidence = {}"
    and "\<And>k e. (k, e) \<in> set evidence \<Longrightarrow> \<exists>u. unwrap L K mb k e = Inr u"
  shows "validated_slots L K mb acc evidence =
    Inr (acc @ map (\<lambda>(k, e). (k, projr (unwrap L K mb k e))) evidence)"
  using assms
proof (induction evidence arbitrary: acc)
  case (Cons x evidence)
  obtain k e where x: "x = (k, e)" by (cases x)
  obtain u where u: "unwrap L K mb k e = Inr u" using Cons.prems(3) [of k e] by (auto simp: x)
  have id: "eu_object_id u = k" by (rule unwrap_Inr(1) [OF u])
  have new: "k \<notin> keys acc" "map_of acc k = None" using Cons.prems(2) by (auto simp: x map_of_eq_None_iff)
  have "validated_slots L K mb (acc @ [(k, u)]) evidence =
      Inr ((acc @ [(k, u)]) @ map (\<lambda>(k, e). (k, projr (unwrap L K mb k e))) evidence)"
    using Cons.prems by (intro Cons.IH) (auto simp: x)
  then show ?case using new by (simp add: x u id update_new_append)
qed simp

lemma validated_slots_unwrap:
  "validated_slots L K mb acc evidence = Inr v \<Longrightarrow> (k, e) \<in> set evidence \<Longrightarrow> \<exists>u. unwrap L K mb k e = Inr u"
  by (induction L K mb acc evidence rule: validated_slots.induct) (auto split: sum.splits if_splits)

lemma evidence_unwraps:
  assumes "validated_evidence_slots L K mb evidence = Inr v" and "(k, e) \<in> set evidence"
  shows "\<exists>u. unwrap L K mb k e = Inr u"
  using validated_slots_unwrap [OF validated_evidence_slots_eq [OF assms(1)] assms(2)] .

lemma validated_evidence_map:
  assumes "wf_dict evidence" and "\<And>k e. (k, e) \<in> set evidence \<Longrightarrow> \<exists>u. unwrap L K mb k e = Inr u"
  shows "validated_evidence_slots L K mb evidence = Inr (map (\<lambda>(k, e). (k, projr (unwrap L K mb k e))) evidence)"
proof -
  have "fst ` (\<lambda>(k, e). (k, projr (unwrap L K mb k e))) ` set evidence = fst ` set evidence" by force
  then show ?thesis
    using validated_slots_map [of evidence "[]" L K mb] assms by (simp add: validated_evidence_slots_def wf_dict_def)
qed

lemma validated_evidence_sorted:
  assumes "validated_evidence_slots L K mb evidence = Inr v" and "wf_dict evidence"
  shows "validated_evidence_slots L K mb (sort_key fst evidence) = Inr (sort_key fst v)"
proof -
  note u = evidence_unwraps [OF assms(1)]
  let ?g = "\<lambda>(k, e). (k, projr (unwrap L K mb k e))"
  have v: "v = map ?g evidence" using validated_evidence_map [OF assms(2) u] assms(1) by simp
  have "sort_key fst v = map ?g (sort_key fst evidence)"
    unfolding v sort_key_map by (simp add: case_prod_unfold)
  moreover have "wf_dict (sort_key fst evidence)"
    using assms(2) by (simp add: wf_dict_def distinct_map_sorted)
  ultimately show ?thesis using validated_evidence_map [of "sort_key fst evidence" L K mb] u by simp
qed

lemma map_of_sort: "distinct (map fst d) \<Longrightarrow> map_of (sort_key fst d) = map_of d"
  using map_of_sorted [of d id] by (simp add: fun_eq_iff option.map_id0 case_prod_unfold)

lemma references_sorted:
  assumes "distinct (map fst v)"
  shows "validate_result_references L b json (sort_key fst v) = validate_result_references L b json v"
proof -
  have same: "reference_matches (sort_key fst v) = reference_matches v"
    unfolding fun_eq_iff reference_matches_def map_of_sort [OF assms] by simp
  show ?thesis unfolding validate_result_references_def set_sort same by (rule refl)
qed

lemma manifest_sorted:
  "validate_committed_manifest L K b w m (map fst (sort_key fst v)) = validate_committed_manifest L K b w m (map fst v)"
proof -
  have "map fst (sort_key fst v) = sort (map fst v)" using sort_key_map [of "\<lambda>x. x" fst v] by simp
  then have "build_committed_manifest L K b (map fst (sort_key fst v)) = build_committed_manifest L K b (map fst v)"
    by (simp add: fun_eq_iff build_committed_manifest_def sort_key_idem)
  then show ?thesis unfolding validate_committed_manifest_def by (simp only:)
qed

lemma canonical_material:
  assumes "validated_record_material L K r = Inr (v, j)" and "wf_dict (r_evidence r)"
  shows "validated_record_material L K (canonical_record r) = Inr (sort_key fst v, j)"
proof -
  have v: "validated_evidence_slots L K (b_mailbox_id (r_binding r)) (r_evidence r) = Inr v"
    using validated_material_evidence [OF assms(1)] by simp
  have d: "distinct (map fst v)" using validated_evidence_slots_Inr(1) [OF v] by (simp add: wf_dict_def)
  have empty: "sort_key fst v = [] \<longleftrightarrow> v = []" by (metis length_0_conv length_sort)
  show ?thesis
    using assms(1) v validated_evidence_sorted [OF v assms(2)]
    by (auto simp: validated_record_material_def canonical_record_def references_sorted [OF d] manifest_sorted empty
        split: if_splits option.splits sum.splits)
qed



section \<open>The canonical form of a state\<close>

lemma sum_list_sorted: "sum_list (map f (sort_key k xs)) = (sum_list (map f xs) :: 'a :: comm_monoid_add)"
proof (induction xs)
  case (Cons x xs)
  have "sum_list (map f (insort_key k x ys)) = f x + sum_list (map f ys)" for ys
    by (induction ys) (simp_all add: ac_simps)
  then show ?case using Cons by simp
qed simp

lemma sum_vals_sorted: "sum_vals f (map (\<lambda>(k, v). (k, g v)) (sort_key fst d)) = sum_vals (\<lambda>v. f (g v)) d"
  by (simp add: sum_vals_def sum_list_sorted comp_def case_prod_unfold)

lemma canonical_record_bytes:
  "record_evidence_bytes (canonical_record r) = record_evidence_bytes r"
  "active_bytes (canonical_record r) = active_bytes r" "result_bytes (canonical_record r) = result_bytes r"
  "committed_bytes (canonical_record r) = committed_bytes r" "credentials_of (canonical_record r) = credentials_of r"
proof -
  show e: "record_evidence_bytes (canonical_record r) = record_evidence_bytes r"
    by (simp add: record_evidence_bytes_def canonical_record_def sum_vals_def sum_list_sorted)
  show "active_bytes (canonical_record r) = active_bytes r" "credentials_of (canonical_record r) = credentials_of r"
    by (simp_all add: active_bytes_def credentials_of_def canonical_record_def)
  show w: "result_bytes (canonical_record r) = result_bytes r" by (simp add: result_bytes_def canonical_record_def)
  have c: "r_committed_at (canonical_record r) = r_committed_at r" by (simp add: canonical_record_def)
  show "committed_bytes (canonical_record r) = committed_bytes r" unfolding committed_bytes_def c e w by (rule refl)
qed

lemma canonical_record_inv:
  assumes "record_inv L K r"
  shows "record_inv L K (canonical_record r)"
proof -
  note inv = assms [unfolded record_inv_def]
  obtain v j where "validated_record_material L K r = Inr (v, j)"
    using inv by (auto simp: authentic_iff)
  then have "authentic L K (canonical_record r)" using canonical_material inv by (auto simp: authentic_iff)
  moreover have "material_ok (canonical_record r) = material_ok r"
    by (simp add: material_ok_def canonical_record_def split: option.split)
  ultimately show ?thesis
    using inv unfolding record_inv_def canonical_record_bytes
    by (simp add: canonical_record_def terminal_def wf_dict_def distinct_map_sorted)
qed

lemma canonical_repo_fields [simp]:
  "p_maintenance (canonical_repo s) = p_maintenance s" "p_limits (canonical_repo s) = p_limits s"
  "p_keys (canonical_repo s) = p_keys s" "p_last_seen (canonical_repo s) = p_last_seen s"
  "p_active (canonical_repo s) = p_active s" "p_evidence (canonical_repo s) = p_evidence s"
  "p_committed (canonical_repo s) = p_committed s"
  "p_tombstones (canonical_repo s) = sort_key fst (p_tombstones s)"
  by (simp_all add: canonical_repo_def)

lemma canonical_repo_get:
  assumes "wf_dict (p_records s)"
  shows "map_of (p_records (canonical_repo s)) k = map_option canonical_record (map_of (p_records s) k)"
  using assms by (simp add: canonical_repo_def map_of_map_vals wf_dict_def map_of_sort)

lemma canonical_repo_inv:
  assumes "repo_inv L s"
  shows "repo_inv L (canonical_repo s)"
proof -
  note get = canonical_repo_get [OF repo_invD(8) [OF assms]]
  have "keys_ok (canonical_repo s)"
    using repo_invD(2) [OF assms]
    by (simp add: keys_ok_def canonical_repo_def wf_dict_def distinct_map_sorted comp_def image_image case_prod_unfold)
  moreover have "records_ok L (canonical_repo s)"
    using repo_invD(3) [OF assms] canonical_record_inv by (auto simp: records_ok_def get)
  moreover have "clock_bounds (canonical_repo s)"
    using repo_invD(4) [OF assms] by (fastforce simp: clock_bounds_def get canonical_record_def)
  moreover have "totals_exact (canonical_repo s)"
    using repo_invD(5) [OF assms]
    by (simp add: totals_exact_def) (simp add: canonical_repo_def sum_vals_sorted canonical_record_bytes)
  moreover have "quotas_kept (canonical_repo s)"
    using repo_invD(6) [OF assms] by (simp add: quotas_kept_def) (simp add: canonical_repo_def)
  moreover have "credentials_isolated (canonical_repo s)"
    using repo_invD(7) [OF assms] by (fastforce simp: credentials_isolated_def get canonical_record_bytes)
  ultimately show ?thesis using repo_invD(1) [OF assms] by (simp add: repo_inv_def)
qed

lemma canonical_ordered:
  "ordered s \<Longrightarrow> ordered (canonical_repo s)" "digests_kept P s \<Longrightarrow> digests_kept P (canonical_repo s)"
  by (auto simp: ordered_def digests_kept_def canonical_repo_def list_all_iff ordered_record_def canonical_record_def)

lemma canonical_encode: "encode_state (canonical_repo s) = encode_state s"
proof -
  have r: "record_wire (canonical_record r) = record_wire r" for r
    by (simp add: record_wire_def canonical_record_def sort_key_idem)
  have "sort_key fst (map (\<lambda>(k, r). (k, canonical_record r)) (sort_key fst d)) =
      map (\<lambda>(k, r). (k, canonical_record r)) (sort_key fst d)" for d :: "(uuid, mrec) dict"
    by (simp add: sort_key_map case_prod_unfold sort_key_idem)
  then show ?thesis
    by (simp add: encode_state_def state_wire_def sort_key_idem) (simp add: canonical_repo_def comp_def r case_prod_unfold)
qed



section \<open>Reachable states have a wire form\<close>

text \<open>An authenticated ciphertext is sixteen bytes longer than its plaintext.\<close>

definition frame_lib :: "lib \<Rightarrow> bool" where
  "frame_lib L \<longleftrightarrow> lib_ok L \<and> (\<forall>k n c a p. lib_decrypt L k n c a = Some p \<longrightarrow> length c = length p + 16)"

lemma frame_libD:
  assumes "frame_lib L"
  shows "lib_ok L" and "lib_decrypt L k n c a = Some p \<Longrightarrow> length c = length p + 16"
    and "length (lib_encrypt L k n p a) = length p + 16"
  using assms lib_okD(3) [of L k n p a] by (auto simp: frame_lib_def)

lemma evidence_wire_form:
  assumes "frame_lib L" and "unwrap L K mb k e = Inr u" and "we_byte_count e \<le> max_total_evidence_bytes l"
  shows "k = we_object_id e \<and> wire_evidence l e"
proof -
  note u = unwrap_Inr [OF assms(2)]
  have "length (we_wrapped_payload e) = length (framed_evidence L u) + 16" by (rule frame_libD(2) [OF assms(1) u(8)])
  moreover have "len (framed_evidence L u) = 48 + we_byte_count e"
    using u(4) lib_okD(1) [OF frame_libD(1) [OF assms(1)]] by (simp add: framed_evidence_def uuid_bytes_def)
  moreover have "length (we_storage_digest e) = 32" "length (we_semantic_mac e) = 32" "length (we_nonce e) = 12"
    using assms(2) by (auto simp: unwrap_def split: if_splits)
  ultimately show ?thesis using u(1,2,5,7) assms(3) by (auto simp: wire_evidence_def evidence_upload_ok_def)
qed

lemma result_wire_form:
  assumes "frame_lib L" and "unwrap_result L K b w = Inr j" and "wr_byte_count w \<le> MAX_RESULT_ENVELOPE_BYTES"
  shows "wire_result w"
proof -
  note u = unwrap_result_Inr [OF assms(2)]
  have "length (wr_wrapped_payload w) = length (framed_result L b j) + 16" by (rule frame_libD(2) [OF assms(1) u(3)])
  moreover have "len (framed_result L b j) = 64 + wr_byte_count w"
    using u(1) lib_okD(1) [OF frame_libD(1) [OF assms(1)]] length_binding_digest [OF frame_libD(1) [OF assms(1)]]
    by (simp add: framed_result_def)
  moreover have "length (wr_storage_digest w) = 32" "length (wr_semantic_mac w) = 32" "length (wr_nonce w) = 12"
    using assms(2) by (auto simp: unwrap_result_def split: if_splits)
  ultimately show ?thesis using u(2) assms(3) by (auto simp: wire_result_def MAX_RESULT_ENVELOPE_BYTES_def)
qed

lemma committed_wire_form:
  assumes "frame_lib L" and "record_inv L K r"
  shows "pred_option wire_result (r_result r)" and "pred_option wire_manifest (r_manifest r)"
proof -
  obtain v where v: "validated_record_material L K r = Inr v" using record_inv_authentic [OF assms(2)] by (auto simp: authentic_iff)
  have "result_bytes r \<le> MAX_RESULT_ENVELOPE_BYTES" using assms(2) by (simp add: record_inv_def)
  then show "pred_option wire_result (r_result r)"
    using v result_wire_form [OF assms(1)]
    by (auto simp: validated_record_material_def result_bytes_def split: sum.splits if_splits option.splits)
  show "pred_option wire_manifest (r_manifest r)"
    using v by (auto simp: validated_record_material_def validate_committed_manifest_def wire_manifest_def
        split: sum.splits if_splits option.splits)
qed

lemma material_wire_form:
  assumes "material_ok r"
  shows "pred_option (sized 1 8388608) (r_envelope_json r)" and "pred_option (sized 32 32) (r_action_key r)"
    and "pred_option (sized 32 128) (r_result_credential r)"
proof -
  have sizes: "1 \<le> len bs" if "bs \<noteq> []" for bs :: bytes using that by (cases bs) simp_all
  show "pred_option (sized 1 8388608) (r_envelope_json r)" "pred_option (sized 32 32) (r_action_key r)"
    "pred_option (sized 32 128) (r_result_credential r)"
    using assms sizes unfolding material_ok_def claimed_action_ok_def credential_size_ok_def mailbox_consts sized_def
    by (simp_all split: if_splits option.splits)
qed

lemma evidence_wire_forms:
  assumes "frame_lib L" and "record_inv L K r" and "record_evidence_bytes r \<le> max_total_evidence_bytes l"
  shows "list_all (\<lambda>(k, e). k = we_object_id e \<and> wire_evidence l e) (r_evidence r)"
proof -
  obtain v where "validated_record_material L K r = Inr v"
    using record_inv_authentic [OF assms(2)] by (auto simp: authentic_iff)
  note slots = validated_material_evidence [OF this]
  have "k = we_object_id e \<and> wire_evidence l e" if e: "(k, e) \<in> set (r_evidence r)" for k e
  proof -
    obtain u where u: "unwrap L K (b_mailbox_id (r_binding r)) k e = Inr u" using evidence_unwraps [OF slots e] ..
    have get: "map_of (r_evidence r) k = Some e" using assms(2) e by (simp add: record_inv_def wf_dict_def)
    have "0 \<le> we_byte_count x" if "(j, x) \<in> set (r_evidence r)" for j x
      using validated_evidence_counts [OF slots that] by simp
    then have "we_byte_count e \<le> record_evidence_bytes r"
      unfolding record_evidence_bytes_def by (intro sum_vals_ge [OF get])
    then show ?thesis using assms(3) by (intro evidence_wire_form [OF assms(1) u]) simp
  qed
  then show ?thesis by (auto simp: list_all_iff)
qed

lemma record_wire_form:
  assumes "frame_lib L" and "record_inv L K r" and "ordered_record r"
    and "pred_option (\<lambda>d. length d = 32) (r_result_digest r)"
    and "record_evidence_bytes r \<le> max_total_evidence_bytes l"
  shows "wire_record l r"
proof -
  note inv = assms(2) [unfolded record_inv_def] and o = assms(3) [unfolded ordered_record_def]
  have "pred_option (sized 32 32) (r_result_digest r)" using assms(4) by (auto simp: pred_option_def sized_def)
  moreover have "pred_option time_ok (r_committed_at r)" "pred_option time_ok (r_terminal_at r)"
    using o by (auto simp: pred_option_def time_ok_def)
  moreover have "material_ok r" using inv by simp
  ultimately show ?thesis
    using inv o committed_wire_form [OF assms(1,2)] material_wire_form [of r] evidence_wire_forms [OF assms(1,2,5)]
    unfolding wire_record_def wire_binding_def MAX_EVIDENCE_ITEMS_def by blast
qed

definition durable_state :: "lib \<Rightarrow> frame_config \<Rightarrow> repo \<Rightarrow> bool" where
  "durable_state L C s \<longleftrightarrow> repo_inv L s \<and> ordered s \<and> digests_kept (\<lambda>d. length d = 32) s \<and>
     p_maintenance s = fc_maintenance C \<and> p_limits s = fc_limits C \<and> p_keys s = storage_keys_of L (fc_inner_key C)"

lemma repo_wire_form:
  assumes "frame_lib L" and "repo_inv L s" and "ordered s" and "digests_kept (\<lambda>d. length d = 32) s"
  shows "wire_repo s"
proof -
  note wf = repo_invD(8) [OF assms(2)] and nonneg = authentic_bytes_nonneg [OF records_okD(3) [OF repo_invD(3) [OF assms(2)]]]
  have get: "map_of (p_records s) k = Some r" if "(k, r) \<in> set (p_records s)" for k r
    using wf that by (simp add: wf_dict_def)
  have "k = b_mailbox_id (r_binding r) \<and> wire_record (p_limits s) r" if kr: "(k, r) \<in> set (p_records s)" for k r
  proof -
    have "record_evidence_bytes r \<le> p_evidence s"
      using repo_invD(5) [OF assms(2)] sum_vals_ge [OF get [OF kr], of record_evidence_bytes] nonneg(1) [OF get]
      by (simp add: totals_exact_def)
    then have "record_evidence_bytes r \<le> max_total_evidence_bytes (p_limits s)"
      using repo_invD(6) [OF assms(2)] by (simp add: quotas_kept_def)
    moreover have "b_mailbox_id (r_binding r) = k" "record_inv L (p_keys s) r"
      using repo_invD(3) [OF assms(2)] get [OF kr] by (simp_all add: records_ok_def)
    ultimately show ?thesis
      using record_wire_form [OF assms(1) _ ordered_get [OF assms(3) get [OF kr]]
          digests_kept_get [OF assms(4) get [OF kr]]] by blast
  qed
  moreover have "list_all (\<lambda>(k, t). wire_tombstone k t) (p_tombstones s)"
    using assms(3) by (auto simp: ordered_def ordered_tombstone_def wire_tombstone_def list_all_iff)
  moreover have "0 \<le> active_bytes r" "0 \<le> record_evidence_bytes r" "0 \<le> committed_bytes r"
    if "(k, r) \<in> set (p_records s)" for k r
    using nonneg [OF get [OF that]] by (simp_all add: active_bytes_def opt_len_def split: option.split)
  then have "0 \<le> p_active s" "0 \<le> p_evidence s" "0 \<le> p_committed s"
    using repo_invD(5) [OF assms(2)] unfolding totals_exact_def by (auto intro!: sum_vals_nonneg)
  moreover have "pred_option time_ok (p_last_seen s)" using assms(3) by (simp add: ordered_def)
  ultimately show ?thesis
    using repo_invD(2,6) [OF assms(2)] by (auto simp: wire_repo_def keys_ok_def quotas_kept_def list_all_iff)
qed

lemma durable_canonical: "durable_state L C s \<Longrightarrow> durable_state L C (canonical_repo s)"
  by (simp add: durable_state_def canonical_repo_inv canonical_ordered)

lemma durable_wire: "frame_lib L \<Longrightarrow> durable_state L C s \<Longrightarrow> wire_repo s"
  by (simp add: durable_state_def repo_wire_form)

lemma durable_possible: "durable_state L C s \<Longrightarrow> validate_repository_semantics s"
  using reachable_possible [of L s] by (simp add: durable_state_def)

lemma perform_constants:
  assumes "repo_inv L s" and "lib_ok L" and "request_ok c q"
  shows "p_maintenance (snd (perform L c q s)) = p_maintenance s \<and> p_limits (snd (perform L c q s)) = p_limits s \<and>
    p_keys (snd (perform L c q s)) = p_keys s"
  using assms
proof (cases rule: perform_cases)
  case (created b a cl co snap)
  then show ?thesis using create_success(10) [OF created(2)] by simp
next
  case (stepped k)
  then show ?thesis using op_effect_constants by blast
next
  case (expired m ids)
  then show ?thesis
    using expire_sweep(1,2) [OF assms(1) expired(2)] sweep_constants
    by (auto simp: advance_installation_time_def split: option.splits)
next
  case (collected m ids)
  then show ?thesis
    using garbage_collect_success(6) [OF collected(2)] gc_loop_constants
    by (simp add: drop_tombstones_def touch_all_def)
qed simp

lemma durable_perform:
  assumes "frame_lib L" and "durable_state L C s" and "durable_request c q"
  shows "durable_state L C (snd (perform L c q s))"
proof -
  have q: "request_ok c q" "list_all (\<lambda>d. length d = 32) (request_digests q)"
    using assms(3) by (simp_all add: durable_request_def)
  note lib = frame_libD(1) [OF assms(1)] and s = assms(2) [unfolded durable_state_def]
  show ?thesis
    using s perform_inv [OF _ lib q(1)] perform_ordered [OF _ lib _ assms(3)] perform_digests [OF _ q(2)]
      perform_constants [OF _ lib q(1)] by (simp add: durable_state_def)
qed

lemma frame_repository_of:
  "durable_state L C s \<Longrightarrow> frame_repository L C (frame_of s) = s"
  by (simp add: frame_repository_def frame_of_def durable_state_def)

lemma durable_validates: "durable_state L C s \<Longrightarrow> validate_all L (p_keys s) (p_records s) = Inr ()"
  using records_validate [of L s] by (simp add: durable_state_def)


section \<open>Frames\<close>

lemma load_written:
  assumes "frame_lib L" and "durable_state L C s" and "length nonce = 12"
    and "write_repository L C nonce g s = Inr row"
  shows "load_repository L C row = Some (canonical_repo s)" and "f_generation row = g"
proof -
  let ?t = "encode_state s"
  have g: "0 \<le> g" "g < MAX_FRAME_GENERATION" and fits: "len ?t \<le> max_serialized_bytes (fc_limits C)"
    and row: "row = \<lparr>f_version = FRAME_VERSION, f_generation = g, f_nonce = nonce,
      f_ciphertext = lib_encrypt L (fc_outer_key C) nonce ?t (frame_aad C g),
      f_digest = lib_sha256 L (lib_encrypt L (fc_outer_key C) nonce ?t (frame_aad C g))\<rparr>"
    using assms(4) by (auto simp: write_repository_def Let_def split: if_splits)
  show "f_generation row = g" by (simp add: row)
  have limits: "p_limits s = fc_limits C" using assms(2) by (simp add: durable_state_def)
  have decode: "decode_state (fc_limits C) ?t = Some (frame_of (canonical_repo s))"
    using decode_encode [OF durable_wire [OF assms(1,2)]] fits limits by simp
  note can = durable_canonical [OF assms(2)]
  have "length (lib_encrypt L (fc_outer_key C) nonce ?t (frame_aad C g)) = length ?t + 16"
    by (rule frame_libD(3) [OF assms(1)])
  then show "load_repository L C row = Some (canonical_repo s)"
    using g fits assms(3) lib_okD(1,3) [OF frame_libD(1) [OF assms(1)]] decode frame_repository_of [OF can]
      durable_validates [OF can] durable_possible [OF can]
    by (auto simp: load_repository_def row max_ciphertext_bytes_def Let_def canonical_encode)
qed

lemma load_canonical:
  assumes "frame_lib L" and "load_repository L C row = Some s" and "durable_state L C s"
  shows "canonical_repo s = s" and "len (encode_state s) \<le> max_serialized_bytes (fc_limits C)"
proof -
  obtain f where f: "decode_state (fc_limits C) (encode_state s) = Some f" "s = frame_repository L C f"
    using assms(2) by (auto simp: load_repository_def Let_def split: if_splits bind_splits)
  show fits: "len (encode_state s) \<le> max_serialized_bytes (fc_limits C)"
    using f(1) by (auto simp: decode_state_def split: if_splits)
  have "p_limits s = fc_limits C" using assms(3) by (simp add: durable_state_def)
  then have "f = frame_of (canonical_repo s)"
    using f(1) decode_encode [OF durable_wire [OF assms(1,3)]] fits by simp
  then show "canonical_repo s = s" using f(2) frame_repository_of [OF durable_canonical [OF assms(3)]] by simp
qed

lemma same_encoding:
  assumes "frame_lib L" and "durable_state L C s" and "durable_state L C s'" and "encode_state s = encode_state s'"
    and "len (encode_state s) \<le> max_serialized_bytes (fc_limits C)"
  shows "canonical_repo s = canonical_repo s'"
proof -
  have "p_limits s = fc_limits C" "p_limits s' = fc_limits C" using assms(2,3) by (simp_all add: durable_state_def)
  then have "frame_of (canonical_repo s) = frame_of (canonical_repo s')"
    using decode_encode [OF durable_wire [OF assms(1,2)]] decode_encode [OF durable_wire [OF assms(1,3)]] assms(4,5) by simp
  then show ?thesis
    using frame_repository_of [OF durable_canonical [OF assms(2)]] frame_repository_of [OF durable_canonical [OF assms(3)]]
    by metis
qed

end
