(* ===== verification/Mailbox_Persistent_Refinement.thy ===== *)
theory Mailbox_Persistent_Refinement
  imports Mailbox_Persistent_Guarantees
begin

text \<open>
  What the persistent repository promises its clients: a transition that meets no storage fault
  is the volatile operation, and one that meets a fault leaves the old frame or the complete new one.
  The guarantees are applied to a new database on which a mailbox is created.
\<close>


section \<open>Guarantees\<close>

text \<open>The states the persistent repository loads: a new one, and what requests make of it.\<close>

inductive durable_reachable :: "lib \<Rightarrow> frame_config \<Rightarrow> repo \<Rightarrow> bool" for L C where
  created: "durable_reachable L C (frame_repository L C empty_frame)"
| performed: "durable_reachable L C s \<Longrightarrow> durable_request c q \<Longrightarrow>
    durable_reachable L C (canonical_repo (snd (perform L c q s)))"

lemma durable_reachable_state:
  assumes "durable_reachable L C s" and "frame_lib L" and "mailbox_limits_ok (fc_limits C)"
  shows "durable_state L C s"
  using assms(1)
proof induction
  case created
  show ?case
    using assms(3)
    by (simp add: durable_state_def frame_repository_def empty_frame_def repo_inv_def keys_ok_def records_ok_def
        clock_bounds_def totals_exact_def quotas_kept_def credentials_isolated_def mailbox_limits_ok_def ordered_def
        digests_kept_def)
next
  case (performed s c q)
  then show ?case using durable_canonical durable_perform assms(2) by blast
qed


section \<open>A new database\<close>

text \<open>The size of a document is bounded without computing it: an escaped character has at most six bytes.\<close>

fun bulk :: "json \<Rightarrow> nat" where
  "bulk J_Null = 4"
| "bulk (J_Bool b) = 5"
| "bulk (J_Int i) = length (show_int i)"
| "bulk (J_Float t) = length t"
| "bulk (J_Str t) = 6 * length t + 2"
| "bulk (J_Arr vs) = 2 + sum_list (map (\<lambda>v. bulk v + 1) vs)"
| "bulk (J_Obj ms) = 2 + sum_list (map (\<lambda>(k, v). 6 * length k + bulk v + 4) ms)"

lemma quoted_length: "length (quoted t) \<le> 6 * length t + 2"
proof -
  have "length (escape c) \<le> 6" for c by (simp add: escape_def)
  then have "length (concat (map escape t)) \<le> 6 * length t" by (induction t) (simp_all add: add_mono)
  then show ?thesis by (simp add: quoted_def)
qed

lemma join_length: "length (join '','' xs) \<le> sum_list (map (\<lambda>x. length x + 1) xs)"
  by (induction "'',''" xs rule: join.induct) simp_all

lemma dumps_length: "length (dumps v) \<le> bulk v"
proof (induction v rule: dumps.induct)
  case (5 t)
  then show ?case using quoted_length by simp
next
  case (6 vs)
  have "sum_list (map (\<lambda>v. length (dumps v) + 1) vs) \<le> sum_list (map (\<lambda>v. bulk v + 1) vs)"
    using 6 by (intro sum_list_mono) simp
  then show ?case using join_length [of "map dumps vs"] by (simp add: comp_def)
next
  case (7 ms)
  have "length (member_text (k, v)) + 1 \<le> 6 * length k + bulk v + 4" if "(k, v) \<in> set ms" for k v
    using 7 that quoted_length [of k] by fastforce
  then have "sum_list (map (\<lambda>m. length (member_text m) + 1) ms) \<le>
      sum_list (map (\<lambda>(k, v). 6 * length k + bulk v + 4) ms)"
    by (intro sum_list_mono) auto
  then show ?case
    using join_length [of "map member_text (sort_key fst ms)"] sum_list_sorted [of "\<lambda>m. length (member_text m) + 1" fst ms]
    by (simp only: dumps_Obj bulk.simps map_map comp_def) simp
qed simp_all

lemma encode_state_length: "len (encode_state s) \<le> int (bulk (state_wire s))"
  using dumps_length [of "state_wire s"] by (simp add: encode_state_def encode_def)

definition sealing_lib :: lib where
  "sealing_lib = \<lparr>lib_sha256 = \<lambda>_. zeros 32, lib_hmac = \<lambda>_ _. zeros 32, lib_encrypt = \<lambda>_ _ p _. p @ zeros 16,
     lib_decrypt = \<lambda>_ _ c _. if 16 \<le> length c then Some (take (length c - 16) c) else None,
     lib_parse_result = \<lambda>_. None\<rparr>"

definition sample_config :: frame_config where
  "sample_config = \<lparr>fc_maintenance = replicate 32 9, fc_limits = default_limits, fc_outer_key = zeros 32,
     fc_inner_key = zeros 32, fc_installation_epoch = zeros 16, fc_restore_epoch = zeros 16, fc_config_digest = zeros 32\<rparr>"

definition new_state :: repo where
  "new_state = frame_repository sealing_lib sample_config empty_frame"

definition new_row :: frame_row where
  "new_row = projr (write_repository sealing_lib sample_config (zeros 12) 0 new_state)"

definition new_handle :: mailbox_handle where
  "new_handle = \<lparr>h_row = Some new_row, h_owner = 1, h_poisoned = False, h_closed = False\<rparr>"

definition durable_create :: request where
  "durable_create = Create sample_binding (replicate 32 1) (replicate 32 2) (replicate 32 3)"

definition created_state :: repo where
  "created_state = new_state\<lparr>p_records := [(sid 9,
     fresh_record sample_binding (replicate 32 1) (replicate 32 2) (replicate 32 3) 1)], p_last_seen := Some 1\<rparr>"

lemma sealing_lib_ok: "frame_lib sealing_lib"
  by (auto simp: frame_lib_def lib_ok_def sealing_lib_def zeros_def split: if_splits)

lemma sample_config_ok: "mailbox_limits_ok (fc_limits sample_config)"
  by (simp add: sample_config_def default_limits_ok)

lemma new_reachable: "durable_reachable sealing_lib sample_config new_state"
  unfolding new_state_def by (rule created)

lemma durable_create_ok: "durable_request (at_time 1) durable_create"
  using sample_binding_ok
  by (simp add: durable_request_def durable_create_def at_time_def sample_binding_def time_ok_def min_instant_def max_instant_def)

lemma sample_digits: "show_int 0 = ''0''" "show_int 1 = ''1''" "show_int 60 = ''60''" "show_int 1000 = ''1000''"
  by code_simp+

lemma sample_lengths:
  "length (isoformat 1) = 32" "length (isoformat 100) = 32" "length (isoformat 200) = 32"
  "length (b64encode (replicate 32 1)) = 44" "length (b64encode (replicate 32 2)) = 44"
  "length (b64encode (replicate 32 3)) = 44"
  by code_simp+

lemma new_state_fits: "len (encode_state new_state) \<le> max_serialized_bytes (fc_limits sample_config)"
  using encode_state_length [of new_state]
  by (simp add: new_state_def frame_repository_def empty_frame_def state_wire_def opt_wire_def sample_digits FRAME_VERSION_def
      max_serialized_bytes_def MAX_FRAME_OVERHEAD_def sample_config_def default_limits_def)

lemma new_row_written: "write_repository sealing_lib sample_config (zeros 12) 0 new_state = Inr new_row"
  and new_row_loads: "load_repository sealing_lib sample_config new_row = Some new_state"
  and new_row_generation: "f_generation new_row = 0"
proof -
  note s = durable_reachable_state [OF new_reachable sealing_lib_ok sample_config_ok]
  show w: "write_repository sealing_lib sample_config (zeros 12) 0 new_state = Inr new_row"
    using durable_possible [OF s] new_state_fits by (simp add: new_row_def write_repository_def MAX_FRAME_GENERATION_def Let_def)
  have "canonical_repo new_state = new_state"
    by (simp add: canonical_repo_def new_state_def frame_repository_def empty_frame_def)
  then show "load_repository sealing_lib sample_config new_row = Some new_state"
    using load_written(1) [OF sealing_lib_ok s _ w] by (simp add: zeros_def)
  show "f_generation new_row = 0" using load_written(2) [OF sealing_lib_ok s _ w] by (simp add: zeros_def)
qed

lemma created_performed:
  "perform sealing_lib (at_time 1) durable_create new_state =
     (Inr (Snap (snapshot_of (snd (hd (p_records created_state))))), created_state)"
  by (simp add: durable_create_def create_def validated_installation_now_def at_time_def is_utc_def new_state_def
      frame_repository_def empty_frame_def created_state_def sample_config_def default_limits_def attempt_def reply_of_def
      credential_in_use_def sample_binding_def fresh_record_def put_record_def advance_installation_time_def Let_def)

lemma created_state_fits: "len (encode_state created_state) \<le> max_serialized_bytes (fc_limits sample_config)"
proof -
  have "length zero_digest = 71" by code_simp
  then have "bulk (state_wire created_state) \<le> 100000"
    by (simp add: created_state_def new_state_def frame_repository_def empty_frame_def state_wire_def record_wire_def
        binding_wire_def fresh_record_def sample_binding_def opt_wire_def datetime_wire_def uuid_wire_def bytes_wire_def
        uuid_text_length sample_digits sample_lengths FRAME_VERSION_def)
  then show ?thesis
    using encode_state_length [of created_state]
    by (simp add: max_serialized_bytes_def MAX_FRAME_OVERHEAD_def sample_config_def default_limits_def)
qed


section \<open>Properties\<close>

text \<open>C25. No reachable state is impossible to the semantic validator: whatever sequence of requests produced
  a state, \<^verbatim>\<open>_validate_repository_semantics\<close> accepts it, so no request poisons a handle by its own effect.\<close>

theorem reachable_semantics:
  assumes "frame_lib L" and "mailbox_limits_ok (fc_limits C)" and "durable_reachable L C s"
  shows "validate_repository_semantics s"
  by (rule durable_possible [OF durable_reachable_state [OF assms(3,1,2)]])

theorem reachable_semantics_witness:
  "validate_repository_semantics (canonical_repo (snd (perform sealing_lib (at_time 1) durable_create new_state)))"
  by (rule reachable_semantics [OF sealing_lib_ok sample_config_ok performed [OF new_reachable durable_create_ok]])

text \<open>C23. A transition without a storage fault implements the volatile operation: it gives the volatile reply,
  and the frame it leaves loads the state the operation left, with its dictionaries in the order of
  their keys and a generation that grew by one exactly if the encoded state changed; the handle is poisoned only if
  the reply is an internal uncertainty.\<close>

theorem persistent_refines:
  assumes "frame_lib L" and "mailbox_limits_ok (fc_limits C)" and "durable_reachable L C s"
    and "h_row h = Some row" and "load_repository L C row = Some s"
    and "pid = h_owner h" and "\<not> h_poisoned h" and "\<not> h_closed h"
    and "durable_request c q" and "length nonce = 12" and "perform L c q s = (v, s')"
    and "f_generation row + 1 < MAX_FRAME_GENERATION" and "len (encode_state s') \<le> max_serialized_bytes (fc_limits C)"
  shows "\<exists>h' row'. persistent_perform L C No_Storage_Fault pid nonce c q h =
      (case v of Inl e \<Rightarrow> Inl (Mailbox_Failure e) | Inr x \<Rightarrow> Inr x, h') \<and>
    h_row h' = Some row' \<and> load_repository L C row' = Some (canonical_repo s') \<and>
    durable_reachable L C (canonical_repo s') \<and>
    f_generation row' = f_generation row + (if encode_state s' = encode_state s then 0 else 1) \<and>
    h_owner h' = h_owner h \<and> \<not> h_closed h' \<and> (h_poisoned h' \<longleftrightarrow> v = Inl (Denied INTERNAL_UNCERTAINTY))"
proof -
  note s = durable_reachable_state [OF assms(3,1,2)]
  have s': "durable_state L C s'" using durable_perform [OF assms(1) s assms(9)] assms(11) by simp
  have reach: "durable_reachable L C (canonical_repo s')" using performed [OF assms(3,9)] assms(11) by simp
  have no_value: "\<not> is_value_error v"
    using perform_no_value_error [OF frame_libD(1) [OF assms(1)], of s c q] s assms(9,11)
    by (auto simp: is_value_error_def durable_state_def durable_request_def split: sum.split)
  have gen: "0 \<le> f_generation row" using assms(5) by (auto simp: load_repository_def split: if_splits)
  note run = persistent_perform_def persistent_transition_def assms(4-8,11)
  show ?thesis
  proof (cases "encode_state s' = encode_state s")
    case True
    have "canonical_repo s' = s"
      using same_encoding [OF assms(1) s' s True] assms(13) load_canonical(1) [OF assms(1,5) s] by simp
    then show ?thesis
      using True reach assms(4-8) no_value by (cases v) (auto simp: run finish_def)
  next
    case False
    obtain row' where w: "write_repository L C nonce (f_generation row + 1) s' = Inr row'"
      using durable_possible [OF s'] assms(12,13) gen by (simp add: write_repository_def Let_def)
    note l = load_written [OF assms(1) s' assms(10) w]
    show ?thesis
      using False reach l assms(4-8) w no_value by (cases v) (auto simp: run finish_def)
  qed
qed

theorem persistent_refines_witness:
  "\<exists>h' row'. persistent_perform sealing_lib sample_config No_Storage_Fault 1 (zeros 12) (at_time 1) durable_create new_handle =
      (Inr (Snap (snapshot_of (snd (hd (p_records created_state))))), h') \<and>
    h_row h' = Some row' \<and> load_repository sealing_lib sample_config row' = Some (canonical_repo created_state)"
  using persistent_refines [OF sealing_lib_ok sample_config_ok new_reachable, of new_handle new_row 1 "at_time 1"
      durable_create "zeros 12" _ created_state, OF _ new_row_loads _ _ _ durable_create_ok _ created_performed _
      created_state_fits]
  by (auto simp: new_handle_def zeros_def new_row_generation MAX_FRAME_GENERATION_def)

text \<open>C24. Whatever fails, the stored frame is the old one or the complete new one, and a reply of success is given only
  for an effect that is stored: a transition leaves the row as it was and raises, or the encoded state did not
  change; or it leaves the frame of the state the operation left, with the operation's own reply or, if
  the outcome is reported as uncertain, a poisoned handle.\<close>

theorem persistent_fails_closed:
  assumes "persistent_perform L C fault pid nonce c q h = (r, h')"
  shows "h_row h' = h_row h \<and> (\<exists>e. r = Inl e) \<or>
    (\<exists>row s v s'. h_row h = Some row \<and> load_repository L C row = Some s \<and> perform L c q s = (v, s') \<and>
       (h_row h' = h_row h \<and> encode_state s' = encode_state s \<and>
          r = (case v of Inl e \<Rightarrow> Inl (Mailbox_Failure e) | Inr x \<Rightarrow> Inr x) \<or>
        (\<exists>row'. write_repository L C nonce (f_generation row + 1) s' = Inr row' \<and> h_row h' = Some row' \<and>
          (r = (case v of Inl e \<Rightarrow> Inl (Mailbox_Failure e) | Inr x \<Rightarrow> Inr x) \<or>
           r = uncertain_outcome \<and> h_poisoned h'))))"
proof (cases "Option.bind (h_row h) (\<lambda>row. map_option (Pair row) (load_repository L C row))")
  case None
  then show ?thesis using assms by (auto simp: persistent_perform_def persistent_transition_def poison_def split: if_splits)
next
  case (Some p)
  obtain row s where rs: "h_row h = Some row" "load_repository L C row = Some s"
    using Some by (auto simp: bind_eq_Some_conv)
  obtain v s' where v: "perform L c q s = (v, s')" by (cases "perform L c q s")
  note run = persistent_perform_def persistent_transition_def poison_def finish_def
  show ?thesis
  proof (cases "write_repository L C nonce (f_generation row + 1) s'")
    case (Inl e)
    then show ?thesis using assms rs v by (cases v) (auto simp: run split: if_splits)
  next
    case (Inr row')
    then show ?thesis using assms rs v by (cases fault; cases v) (auto simp: run split: if_splits)
  qed
qed

theorem persistent_fails_closed_witness:
  "\<exists>r h'. persistent_perform sealing_lib sample_config (Commit_Failed True) 1 (zeros 12) (at_time 1) durable_create new_handle
      = (r, h') \<and> (h_row h' = Some new_row \<or>
        (\<exists>row'. write_repository sealing_lib sample_config (zeros 12) 1 created_state = Inr row' \<and> h_row h' = Some row'))"
proof -
  obtain r h' where run: "persistent_perform sealing_lib sample_config (Commit_Failed True) 1 (zeros 12) (at_time 1)
      durable_create new_handle = (r, h')" by fastforce
  from persistent_fails_closed [OF this] show ?thesis
    using run by (auto simp: new_handle_def new_row_loads new_row_generation created_performed)
qed

text \<open>C26. A state frame that fits its bound is read back: decoding the encoding of a repository whose values
  have a wire form gives the repository, with every dictionary in the order of its keys.\<close>

theorem frame_roundtrip:
  assumes "wire_repo s" and "len (encode_state s) \<le> max_serialized_bytes (p_limits s)"
  shows "decode_state (p_limits s) (encode_state s) = Some (frame_of (canonical_repo s))"
  by (rule decode_encode [OF assms])

theorem frame_roundtrip_witness:
  "decode_state default_limits (encode_state created_state) = Some (frame_of (canonical_repo created_state))"
proof -
  have "durable_state sealing_lib sample_config created_state"
    using durable_perform [OF sealing_lib_ok durable_reachable_state [OF new_reachable sealing_lib_ok sample_config_ok]
        durable_create_ok] by (simp add: created_performed)
  then have "wire_repo created_state" by (rule durable_wire [OF sealing_lib_ok])
  then show ?thesis
    using frame_roundtrip [of created_state] created_state_fits
    by (simp add: created_state_def new_state_def frame_repository_def sample_config_def)
qed

end
