(* ===== verification/Auth_Domain.thy ===== *)
theory Auth_Domain
  imports Prelude
begin

text \<open>
  The value types of control-plane authentication (\<^verbatim>\<open>src/mycogni/domain/auth.py\<close>):
  purposes and scopes, the denial vocabulary, credentials, policy, the records the decision
  store retains and the unbound issues callers hand to it, each with the checks of its
  \<^verbatim>\<open>__post_init__\<close>.  An \<^verbatim>\<open>OpaqueId\<close> is its UUID; a \<^verbatim>\<open>SecretDigest\<close> is its bytes; every
  timestamp of a record passed \<^verbatim>\<open>require_utc\<close>, so it is an instant in microseconds.
\<close>


section \<open>Vocabularies\<close>

datatype auth_purpose =
    SETUP_AUTHORITY_CHANGE | EXTERNAL_ACTION_RESUME | EXCEPTION_SUBMISSION | KEY_RECOVERY_CHANGE
  | PROFILE_DELETION | DESTRUCTIVE_RESTORE | ALL_SESSION_REVOKE

datatype auth_scope =
    CHANGE_SETUP_AUTHORITY | RESUME_EXTERNAL_ACTIONS | SUBMIT_EXCEPTION | CHANGE_KEY_RECOVERY
  | DELETE_PROFILE | RESTORE_DESTRUCTIVELY | REVOKE_ALL_SESSIONS

fun purpose_scope :: "auth_purpose \<Rightarrow> auth_scope" where
  "purpose_scope SETUP_AUTHORITY_CHANGE = CHANGE_SETUP_AUTHORITY"
| "purpose_scope EXTERNAL_ACTION_RESUME = RESUME_EXTERNAL_ACTIONS"
| "purpose_scope EXCEPTION_SUBMISSION = SUBMIT_EXCEPTION"
| "purpose_scope KEY_RECOVERY_CHANGE = CHANGE_KEY_RECOVERY"
| "purpose_scope PROFILE_DELETION = DELETE_PROFILE"
| "purpose_scope DESTRUCTIVE_RESTORE = RESTORE_DESTRUCTIVELY"
| "purpose_scope ALL_SESSION_REVOKE = REVOKE_ALL_SESSIONS"

datatype auth_denial =
    A_NON_INTERACTIVE | A_TERMINAL_NOT_FOREGROUND | A_TERMINAL_BUSY | A_TERMINAL_FORKED
  | A_TERMINAL_IO_FAILED | A_TERMINAL_RESTORE_FAILED | A_INVALID_PROOF | A_ATTEMPTS_EXHAUSTED
  | A_REPLAYED | A_EXPIRED | A_NOT_YET_VALID | A_CLOCK_ROLLBACK | A_SESSION_NOT_FOUND | A_REVOKED
  | A_WRONG_ACTOR | A_WRONG_PROFILE | A_WRONG_INSTALLATION | A_WRONG_SESSION | A_WRONG_PURPOSE
  | A_SCOPE_WIDENING | A_STALE_EPOCH | A_MALFORMED_CREDENTIAL | A_OPERATOR_DECLINED
  | A_OUTPUT_INTERRUPTED | A_CAPACITY_EXHAUSTED

datatype root_purpose = INITIAL_BOOTSTRAP | EMERGENCY_REVOKE | REPROVISION

text \<open>The injected post-consume failures of \<^verbatim>\<open>adapters/auth/volatile.py\<close>.\<close>

datatype auth_crash_point = CRASH_BOOTSTRAP | CRASH_STEP_UP | CRASH_RECOVERY | CRASH_REPROVISION_PROOF

text \<open>
  How a decision ends without a value: a finite denial of \<^verbatim>\<open>AuthOutcome\<close>, or an exception
  (an injected crash, a \<^verbatim>\<open>ValueError\<close>, a \<^verbatim>\<open>KeyError\<close>, a broken token source, an
  instant past \<^verbatim>\<open>datetime.max\<close>, a disabled
  capability).
\<close>

datatype auth_error =
    Refused auth_denial | Auth_Crash auth_crash_point | Auth_Value_Error | Auth_Key_Error
  | Token_Contract | Capability_Disabled | Auth_Overflow


section \<open>Credentials and policy\<close>

definition MIN_SECRET_BYTES :: int where "MIN_SECRET_BYTES = 32"
definition SHA256_BYTES :: int where "SHA256_BYTES = 32"
definition DAY_SECONDS :: int where "DAY_SECONDS = 86400"
definition RECOVERY_MIN_SECONDS :: int where "RECOVERY_MIN_SECONDS = 30 * DAY_SECONDS"
definition RECOVERY_MAX_SECONDS :: int where "RECOVERY_MAX_SECONDS = 730 * DAY_SECONDS"
definition DEFAULT_RECOVERY_SECONDS :: int where "DEFAULT_RECOVERY_SECONDS = 365 * DAY_SECONDS"

record opaque_credential =
  oc_handle :: uuid
  oc_secret :: bytes

definition opaque_credential_ok :: "opaque_credential \<Rightarrow> bool" where
  "opaque_credential_ok c \<longleftrightarrow> uuid4 (oc_handle c) \<and> MIN_SECRET_BYTES \<le> len (oc_secret c)"

record auth_policy =
  bootstrap_ttl_seconds :: int
  session_ttl_seconds :: int
  step_up_ttl_seconds :: int
  recovery_ttl_seconds :: int
  activation_delay_seconds :: int
  max_attempts :: int
  reprovision_ceremony_ttl_seconds :: int
  reprovision_ceremony_capacity :: int
  reprovision_ceremony_tombstone_capacity :: int
  reprovision_ceremony_replay_seconds :: int

definition default_policy :: auth_policy where
  "default_policy = \<lparr>bootstrap_ttl_seconds = 300, session_ttl_seconds = 1800,
     step_up_ttl_seconds = 120, recovery_ttl_seconds = DEFAULT_RECOVERY_SECONDS,
     activation_delay_seconds = 0, max_attempts = 5, reprovision_ceremony_ttl_seconds = 60,
     reprovision_ceremony_capacity = 16, reprovision_ceremony_tombstone_capacity = 64,
     reprovision_ceremony_replay_seconds = 300\<rparr>"

definition auth_policy_ok :: "auth_policy \<Rightarrow> bool" where
  "auth_policy_ok p \<longleftrightarrow>
     1 \<le> bootstrap_ttl_seconds p \<and> bootstrap_ttl_seconds p \<le> 604800 \<and>
     1 \<le> session_ttl_seconds p \<and> session_ttl_seconds p \<le> 604800 \<and>
     1 \<le> step_up_ttl_seconds p \<and> step_up_ttl_seconds p \<le> 604800 \<and>
     RECOVERY_MIN_SECONDS \<le> recovery_ttl_seconds p \<and> recovery_ttl_seconds p \<le> RECOVERY_MAX_SECONDS \<and>
     0 \<le> activation_delay_seconds p \<and> activation_delay_seconds p \<le> 60 \<and>
     1 \<le> max_attempts p \<and> max_attempts p \<le> 10 \<and>
     1 \<le> reprovision_ceremony_ttl_seconds p \<and> reprovision_ceremony_ttl_seconds p \<le> 300 \<and>
     1 \<le> reprovision_ceremony_capacity p \<and> reprovision_ceremony_capacity p \<le> 1024 \<and>
     1 \<le> reprovision_ceremony_tombstone_capacity p \<and>
     reprovision_ceremony_tombstone_capacity p \<le> 1024 \<and>
     0 \<le> reprovision_ceremony_replay_seconds p \<and> reprovision_ceremony_replay_seconds p \<le> 86400"

lemma default_policy_ok: "auth_policy_ok default_policy"
  by (simp add: auth_policy_ok_def default_policy_def RECOVERY_MIN_SECONDS_def RECOVERY_MAX_SECONDS_def
      DEFAULT_RECOVERY_SECONDS_def DAY_SECONDS_def)


section \<open>Capabilities, grants and issues\<close>

record root_capability =
  cap_credential :: opaque_credential
  cap_installation_id :: uuid
  cap_actor_id :: uuid
  cap_profile_id :: uuid
  cap_purpose :: root_purpose

record root_binding =
  rb_handle :: uuid
  rb_installation_id :: uuid
  rb_actor_id :: uuid
  rb_profile_id :: uuid
  rb_purpose :: root_purpose

record authority_grant =
  gr_actor_id :: uuid
  gr_profile_id :: uuid
  gr_session_id :: uuid
  gr_evidence_id :: uuid
  gr_purpose :: auth_purpose
  gr_scopes :: "auth_scope set"
  gr_not_before :: int
  gr_expires_at :: int
  gr_epoch :: int

definition authority_grant_ok :: "authority_grant \<Rightarrow> bool" where
  "authority_grant_ok g \<longleftrightarrow>
     gr_not_before g < gr_expires_at g \<and> gr_scopes g = {purpose_scope (gr_purpose g)} \<and>
     1 \<le> gr_epoch g"

record grant_provenance =
  gp_grant :: authority_grant
  gp_used_at :: "int option"

definition grant_provenance_ok :: "grant_provenance \<Rightarrow> bool" where
  "grant_provenance_ok p \<longleftrightarrow>
     authority_grant_ok (gp_grant p) \<and>
     (case gp_used_at p of None \<Rightarrow> True | Some t \<Rightarrow> gr_not_before (gp_grant p) \<le> t)"

record root_issue =
  ri_handle :: uuid
  ri_digest :: bytes

record bootstrap_issue =
  bi_handle :: uuid
  bi_digest :: bytes
  bi_not_before :: int
  bi_expires_at :: int
  bi_attempts :: int

definition bootstrap_issue_ok :: "bootstrap_issue \<Rightarrow> bool" where
  "bootstrap_issue_ok i \<longleftrightarrow> bi_not_before i < bi_expires_at i \<and> 1 \<le> bi_attempts i"

record ceremony_issue =
  ci_handle :: uuid
  ci_digest :: bytes
  ci_expires_at :: int

record session_issue =
  si_handle :: uuid
  si_digest :: bytes
  si_not_before :: int
  si_expires_at :: int

definition session_issue_ok :: "session_issue \<Rightarrow> bool" where
  "session_issue_ok i \<longleftrightarrow> si_not_before i < si_expires_at i"

record recovery_issue =
  vi_handle :: uuid
  vi_digest :: bytes
  vi_not_before :: int
  vi_expires_at :: int
  vi_attempts :: int

definition recovery_issue_ok :: "recovery_issue \<Rightarrow> bool" where
  "recovery_issue_ok i \<longleftrightarrow> vi_not_before i < vi_expires_at i \<and> 1 \<le> vi_attempts i"

record bootstrap_decision =
  bd_actor_id :: uuid
  bd_profile_id :: uuid
  bd_epoch :: int
  bd_replacement :: "root_binding option"

record bootstrap_exchange =
  bx_session :: opaque_credential
  bx_recovery :: opaque_credential
  bx_actor_id :: uuid
  bx_profile_id :: uuid
  bx_epoch :: int
  bx_replacement :: "root_capability option"


section \<open>Retained records\<close>

record actor_record =
  ac_actor_id :: uuid
  ac_profile_id :: uuid
  ac_epoch :: int
  ac_last_observed :: int
  ac_initialized :: bool

definition actor_record_ok :: "actor_record \<Rightarrow> bool" where
  "actor_record_ok a \<longleftrightarrow> 1 \<le> ac_epoch a"

record root_record =
  rr_handle :: uuid
  rr_installation_id :: uuid
  rr_actor_id :: uuid
  rr_profile_id :: uuid
  rr_purpose :: root_purpose
  rr_digest :: bytes
  rr_consumed :: bool
  rr_retired_at :: "int option"

record composition_record =
  co_installation_id :: uuid
  co_operator_handle :: uuid
  co_operator_digest :: bytes
  co_service_handle :: uuid
  co_service_digest :: bytes

definition composition_record_ok :: "composition_record \<Rightarrow> bool" where
  "composition_record_ok c \<longleftrightarrow> co_operator_handle c \<noteq> co_service_handle c"

record ceremony_record =
  ce_handle :: uuid
  ce_digest :: bytes
  ce_bootstrap_handle :: uuid
  ce_installation_id :: uuid
  ce_service_handle :: uuid
  ce_expires_at :: int
  ce_replay_seconds :: int
  ce_terminal_at :: "int option"
  ce_terminal_denial :: "auth_denial option"

definition ceremony_record_ok :: "ceremony_record \<Rightarrow> bool" where
  "ceremony_record_ok c \<longleftrightarrow>
     0 \<le> ce_replay_seconds c \<and> ce_replay_seconds c \<le> DAY_SECONDS \<and>
     (ce_terminal_at c = None \<longleftrightarrow> ce_terminal_denial c = None)"

record bootstrap_record =
  bs_handle :: uuid
  bs_actor_id :: uuid
  bs_profile_id :: uuid
  bs_digest :: bytes
  bs_not_before :: int
  bs_expires_at :: int
  bs_attempts :: int
  bs_root_id :: "uuid option"
  bs_root_purpose :: "root_purpose option"
  bs_consumed :: bool
  bs_retired_at :: "int option"

definition bootstrap_record_ok :: "bootstrap_record \<Rightarrow> bool" where
  "bootstrap_record_ok b \<longleftrightarrow>
     bs_not_before b < bs_expires_at b \<and> 1 \<le> bs_attempts b \<and>
     (bs_root_id b = None \<longleftrightarrow> bs_root_purpose b = None)"

record session_record =
  ss_handle :: uuid
  ss_actor_id :: uuid
  ss_profile_id :: uuid
  ss_digest :: bytes
  ss_epoch :: int
  ss_not_before :: int
  ss_expires_at :: int
  ss_revoked :: bool
  ss_retired_at :: "int option"

definition session_record_ok :: "session_record \<Rightarrow> bool" where
  "session_record_ok x \<longleftrightarrow> ss_not_before x < ss_expires_at x \<and> 1 \<le> ss_epoch x"

record recovery_record =
  rv_handle :: uuid
  rv_actor_id :: uuid
  rv_profile_id :: uuid
  rv_digest :: bytes
  rv_epoch :: int
  rv_not_before :: int
  rv_expires_at :: int
  rv_attempts :: int
  rv_consumed :: bool
  rv_retired_at :: "int option"

definition recovery_record_ok :: "recovery_record \<Rightarrow> bool" where
  "recovery_record_ok x \<longleftrightarrow>
     rv_not_before x < rv_expires_at x \<and> 1 \<le> rv_epoch x \<and> 1 \<le> rv_attempts x"

record step_up_record =
  su_handle :: uuid
  su_actor_id :: uuid
  su_profile_id :: uuid
  su_session_id :: uuid
  su_digest :: bytes
  su_epoch :: int
  su_purpose :: auth_purpose
  su_scopes :: "auth_scope set"
  su_not_before :: int
  su_expires_at :: int
  su_attempts :: int
  su_consumed :: bool
  su_retired_at :: "int option"

definition step_up_record_ok :: "step_up_record \<Rightarrow> bool" where
  "step_up_record_ok x \<longleftrightarrow>
     su_not_before x < su_expires_at x \<and> 1 \<le> su_epoch x \<and>
     su_scopes x = {purpose_scope (su_purpose x)} \<and> 1 \<le> su_attempts x"

text \<open>Distinct purposes need distinct scopes: no grant serves two ceremonies.\<close>

lemma purpose_scope_inject: "purpose_scope p = purpose_scope q \<longleftrightarrow> p = q"
  by (cases p; cases q; simp)

end
