(* ===== verification/Auth_Store.thy ===== *)
theory Auth_Store
  imports Auth_Domain "HOL-Library.Product_Lexorder"
begin

text \<open>
  The volatile authentication decision store (\<^verbatim>\<open>VolatileAuthDecisionStore\<close> of
  \<^verbatim>\<open>src/mycogni/adapters/auth/volatile.py\<close>).  Every decision runs under one lock, so it is one
  function from the store to a result and a new store; the new store is returned on every path,
  because the code keeps what it mutated before it denied or crashed.  The dictionaries map a
  handle to the record stored under it, and a mutation of a looked-up record is an update of its
  entry.  Instants are UTC microseconds (the service checks \<^verbatim>\<open>require_utc\<close> on every clock
  reading before it calls the store) and are taken to stay below \<^verbatim>\<open>datetime.max\<close>.  Records
  handed in have passed their constructor checks; the checks that copying a held record or
  returning its fields would repeat are not written out again.
\<close>


section \<open>State\<close>

record auth_state =
  a_actors :: "(uuid, actor_record) dict"
  a_installation_actors :: "(uuid, uuid) dict"
  a_roots :: "(uuid, root_record) dict"
  a_bootstraps :: "(uuid, bootstrap_record) dict"
  a_sessions :: "(uuid, session_record) dict"
  a_recoveries :: "(uuid, recovery_record) dict"
  a_step_ups :: "(uuid, step_up_record) dict"
  a_grants :: "(uuid, grant_provenance) dict"
  a_compositions :: "(uuid, composition_record) dict"
  a_ceremonies :: "(uuid, ceremony_record) dict"
  a_crash_once :: "auth_crash_point option"

definition empty_store :: auth_state where
  "empty_store = \<lparr>a_actors = [], a_installation_actors = [], a_roots = [], a_bootstraps = [],
     a_sessions = [], a_recoveries = [], a_step_ups = [], a_grants = [], a_compositions = [],
     a_ceremonies = [], a_crash_once = None\<rparr>"

type_synonym 'a decision = "(auth_error + 'a) \<times> auth_state"

abbreviation refuse :: "auth_denial \<Rightarrow> auth_state \<Rightarrow> 'a decision" where
  "refuse d s \<equiv> (Inl (Refused d), s)"

definition proceed :: "'a decision \<Rightarrow> ('a \<Rightarrow> auth_state \<Rightarrow> 'b decision) \<Rightarrow> 'b decision" where
  "proceed x k = (case x of (Inl e, s) \<Rightarrow> (Inl e, s) | (Inr v, s) \<Rightarrow> k v s)"

lemma proceed_simps [simp]:
  "proceed (Inl e, s) k = (Inl e, s)" "proceed (Inr v, s) k = k v s"
  by (simp_all add: proceed_def)

definition arm_crash_once :: "auth_crash_point \<Rightarrow> auth_state \<Rightarrow> auth_state" where
  "arm_crash_once p s = s\<lparr>a_crash_once := Some p\<rparr>"

definition map_vals :: "('v \<Rightarrow> 'v) \<Rightarrow> ('k, 'v) dict \<Rightarrow> ('k, 'v) dict" where
  "map_vals f d = map (\<lambda>(k, v). (k, f v)) d"


section \<open>Helpers\<close>

definition crash_if_armed :: "auth_crash_point \<Rightarrow> auth_state \<Rightarrow> unit decision" where
  "crash_if_armed p s =
     (if a_crash_once s = Some p then (Inl (Auth_Crash p), s\<lparr>a_crash_once := None\<rparr>) else (Inr (), s))"

definition observe_actor :: "uuid \<Rightarrow> int \<Rightarrow> auth_state \<Rightarrow> unit decision" where
  "observe_actor actor_id now s =
     (case map_of (a_actors s) actor_id of
        None \<Rightarrow> refuse A_WRONG_ACTOR s
      | Some actor \<Rightarrow>
          if now < ac_last_observed actor then refuse A_CLOCK_ROLLBACK s
          else (Inr (), s\<lparr>a_actors :=
                 AList.update actor_id (actor\<lparr>ac_last_observed := now\<rparr>) (a_actors s)\<rparr>))"

definition time_denial :: "int \<Rightarrow> int \<Rightarrow> int \<Rightarrow> auth_denial option" where
  "time_denial now not_before expires_at =
     (if now < not_before then Some A_NOT_YET_VALID
      else if now \<ge> expires_at then Some A_EXPIRED else None)"

text \<open>\<^verbatim>\<open>self._actors[actor_id]\<close>\<close>

definition the_actor :: "uuid \<Rightarrow> auth_state \<Rightarrow> actor_record decision" where
  "the_actor actor_id s =
     (case map_of (a_actors s) actor_id of None \<Rightarrow> (Inl Auth_Key_Error, s) | Some a \<Rightarrow> (Inr a, s))"

definition put_actor :: "uuid \<Rightarrow> actor_record \<Rightarrow> auth_state \<Rightarrow> auth_state" where
  "put_actor k a s = s\<lparr>a_actors := AList.update k a (a_actors s)\<rparr>"

definition put_root :: "uuid \<Rightarrow> root_record \<Rightarrow> auth_state \<Rightarrow> auth_state" where
  "put_root k r s = s\<lparr>a_roots := AList.update k r (a_roots s)\<rparr>"

definition put_bootstrap :: "uuid \<Rightarrow> bootstrap_record \<Rightarrow> auth_state \<Rightarrow> auth_state" where
  "put_bootstrap k b s = s\<lparr>a_bootstraps := AList.update k b (a_bootstraps s)\<rparr>"

definition put_session :: "uuid \<Rightarrow> session_record \<Rightarrow> auth_state \<Rightarrow> auth_state" where
  "put_session k x s = s\<lparr>a_sessions := AList.update k x (a_sessions s)\<rparr>"

definition put_recovery :: "uuid \<Rightarrow> recovery_record \<Rightarrow> auth_state \<Rightarrow> auth_state" where
  "put_recovery k x s = s\<lparr>a_recoveries := AList.update k x (a_recoveries s)\<rparr>"

definition put_step_up :: "uuid \<Rightarrow> step_up_record \<Rightarrow> auth_state \<Rightarrow> auth_state" where
  "put_step_up k x s = s\<lparr>a_step_ups := AList.update k x (a_step_ups s)\<rparr>"

definition put_grant :: "uuid \<Rightarrow> grant_provenance \<Rightarrow> auth_state \<Rightarrow> auth_state" where
  "put_grant k x s = s\<lparr>a_grants := AList.update k x (a_grants s)\<rparr>"

definition put_ceremony :: "uuid \<Rightarrow> ceremony_record \<Rightarrow> auth_state \<Rightarrow> auth_state" where
  "put_ceremony k x s = s\<lparr>a_ceremonies := AList.update k x (a_ceremonies s)\<rparr>"

text \<open>\<^verbatim>\<open>consumed = True; retired_at_utc = now\<close> on each kind of record.\<close>

definition retire_bootstrap :: "int \<Rightarrow> bootstrap_record \<Rightarrow> bootstrap_record" where
  "retire_bootstrap now b = b\<lparr>bs_consumed := True, bs_retired_at := Some now\<rparr>"

definition retire_session :: "int \<Rightarrow> session_record \<Rightarrow> session_record" where
  "retire_session now x = x\<lparr>ss_revoked := True, ss_retired_at := Some now\<rparr>"

definition retire_recovery :: "int \<Rightarrow> recovery_record \<Rightarrow> recovery_record" where
  "retire_recovery now x = x\<lparr>rv_consumed := True, rv_retired_at := Some now\<rparr>"

definition retire_step_up :: "int \<Rightarrow> step_up_record \<Rightarrow> step_up_record" where
  "retire_step_up now x = x\<lparr>su_consumed := True, su_retired_at := Some now\<rparr>"

definition consume_root :: "int \<Rightarrow> root_record \<Rightarrow> root_record" where
  "consume_root now r = r\<lparr>rr_consumed := True, rr_retired_at := Some now\<rparr>"

text \<open>\<^verbatim>\<open>_wrong_proof\<close> on the three kinds of records that count attempts.\<close>

definition wrong_proof_denial :: "int \<Rightarrow> auth_denial" where
  "wrong_proof_denial attempts = (if attempts - 1 = 0 then A_ATTEMPTS_EXHAUSTED else A_INVALID_PROOF)"

definition wrong_bootstrap :: "int \<Rightarrow> bootstrap_record \<Rightarrow> bootstrap_record" where
  "wrong_bootstrap now b =
     (let b' = b\<lparr>bs_attempts := bs_attempts b - 1\<rparr>
      in if bs_attempts b' = 0 then retire_bootstrap now b' else b')"

definition wrong_recovery :: "int \<Rightarrow> recovery_record \<Rightarrow> recovery_record" where
  "wrong_recovery now x =
     (let x' = x\<lparr>rv_attempts := rv_attempts x - 1\<rparr>
      in if rv_attempts x' = 0 then retire_recovery now x' else x')"

definition wrong_step_up :: "int \<Rightarrow> step_up_record \<Rightarrow> step_up_record" where
  "wrong_step_up now x =
     (let x' = x\<lparr>su_attempts := su_attempts x - 1\<rparr>
      in if su_attempts x' = 0 then retire_step_up now x' else x')"

definition spent_denial :: "int \<Rightarrow> auth_denial" where
  "spent_denial attempts = (if attempts = 0 then A_ATTEMPTS_EXHAUSTED else A_REPLAYED)"

definition invalidate_bootstraps :: "uuid \<Rightarrow> int \<Rightarrow> auth_state \<Rightarrow> auth_state" where
  "invalidate_bootstraps actor_id now s =
     s\<lparr>a_bootstraps := map_vals (\<lambda>b. if bs_actor_id b = actor_id \<and> \<not> bs_consumed b
                                     then retire_bootstrap now b else b) (a_bootstraps s)\<rparr>"

definition consume_actor_recoveries :: "uuid \<Rightarrow> int \<Rightarrow> auth_state \<Rightarrow> auth_state" where
  "consume_actor_recoveries actor_id now s =
     s\<lparr>a_recoveries := map_vals (\<lambda>x. if rv_actor_id x = actor_id then retire_recovery now x else x)
         (a_recoveries s)\<rparr>"

definition retire_actor_authority :: "uuid \<Rightarrow> int \<Rightarrow> auth_state \<Rightarrow> auth_state" where
  "retire_actor_authority actor_id now s =
     s\<lparr>a_sessions := map_vals (\<lambda>x. if ss_actor_id x = actor_id then retire_session now x else x)
         (a_sessions s),
       a_step_ups := map_vals (\<lambda>x. if su_actor_id x = actor_id then retire_step_up now x else x)
         (a_step_ups s),
       a_recoveries := map_vals (\<lambda>x. if rv_actor_id x = actor_id then retire_recovery now x else x)
         (a_recoveries s)\<rparr>"

text \<open>The challenges of one session, burned when the session is rotated or revoked.\<close>

definition retire_session_challenges :: "uuid \<Rightarrow> int \<Rightarrow> auth_state \<Rightarrow> auth_state" where
  "retire_session_challenges session_id now s =
     s\<lparr>a_step_ups := map_vals (\<lambda>x. if su_session_id x = session_id then retire_step_up now x else x)
         (a_step_ups s)\<rparr>"


section \<open>Installation\<close>

definition composition_handles :: "auth_state \<Rightarrow> uuid set" where
  "composition_handles s =
     (\<Union>c \<in> snd ` set (a_compositions s). {co_operator_handle c, co_service_handle c})"

definition initialize_installation ::
    "uuid \<Rightarrow> uuid \<Rightarrow> uuid \<Rightarrow> root_record list \<Rightarrow> root_issue \<Rightarrow> root_issue \<Rightarrow> int \<Rightarrow> auth_state
     \<Rightarrow> unit decision" where
  "initialize_installation inst actor_id profile_id records operator service now s =
     (let incoming = set (map rr_handle records)
      in if inst \<in> keys (a_installation_actors s) \<or> actor_id \<in> keys (a_actors s)
           then (Inl Auth_Value_Error, s)
         else if length records \<noteq> 3 then (Inl Auth_Value_Error, s)
         else if \<not> distinct (map rr_handle records) then (Inl Auth_Value_Error, s)
         else if set (map rr_purpose records) \<noteq> {INITIAL_BOOTSTRAP, EMERGENCY_REVOKE, REPROVISION}
           then (Inl Auth_Value_Error, s)
         else if \<not> list_all (\<lambda>r. rr_installation_id r = inst \<and> rr_actor_id r = actor_id \<and>
                                 rr_profile_id r = profile_id) records
           then (Inl Auth_Value_Error, s)
         else if incoming \<inter> (keys (a_roots s) \<union> composition_handles s) \<noteq> {}
           then (Inl Auth_Value_Error, s)
         else if ri_handle operator = ri_handle service then (Inl Auth_Value_Error, s)
         else if {ri_handle operator, ri_handle service} \<inter>
                 (keys (a_roots s) \<union> composition_handles s \<union> incoming) \<noteq> {}
           then (Inl Auth_Value_Error, s)
         else (Inr (), s\<lparr>
           a_installation_actors := AList.update inst actor_id (a_installation_actors s),
           a_actors := AList.update actor_id
             \<lparr>ac_actor_id = actor_id, ac_profile_id = profile_id, ac_epoch = 1,
              ac_last_observed = now, ac_initialized = False\<rparr> (a_actors s),
           a_roots := fold (\<lambda>r d. AList.update (rr_handle r) r d) records (a_roots s),
           a_compositions := AList.update inst
             \<lparr>co_installation_id = inst, co_operator_handle = ri_handle operator,
              co_operator_digest = ri_digest operator, co_service_handle = ri_handle service,
              co_service_digest = ri_digest service\<rparr> (a_compositions s)\<rparr>))"

definition auth_state_exists :: "auth_state \<Rightarrow> bool" where
  "auth_state_exists s \<longleftrightarrow> a_installation_actors s \<noteq> []"


section \<open>Bootstraps\<close>

definition validate_root ::
    "root_capability \<Rightarrow> bytes \<Rightarrow> root_purpose list \<Rightarrow> auth_state \<Rightarrow> auth_error + root_record" where
  "validate_root cap digest expected s =
     (case map_of (a_roots s) (oc_handle (cap_credential cap)) of
        None \<Rightarrow> Inl (Refused A_INVALID_PROOF)
      | Some r \<Rightarrow>
          if rr_digest r \<noteq> digest then Inl (Refused A_INVALID_PROOF)
          else if cap_installation_id cap \<noteq> rr_installation_id r then Inl (Refused A_WRONG_INSTALLATION)
          else if cap_actor_id cap \<noteq> rr_actor_id r then Inl (Refused A_WRONG_ACTOR)
          else if cap_profile_id cap \<noteq> rr_profile_id r then Inl (Refused A_WRONG_PROFILE)
          else if cap_purpose cap \<noteq> rr_purpose r \<or> rr_purpose r \<notin> set expected
            then Inl (Refused A_WRONG_PURPOSE)
          else if rr_consumed r then Inl (Refused A_STALE_EPOCH)
          else Inr r)"

definition create_root_bootstrap ::
    "root_capability \<Rightarrow> bytes \<Rightarrow> bootstrap_record \<Rightarrow> int \<Rightarrow> auth_state \<Rightarrow> bootstrap_record decision" where
  "create_root_bootstrap root root_digest record now s =
     proceed (validate_root root root_digest [INITIAL_BOOTSTRAP, REPROVISION] s, s) (\<lambda>_ s.
     proceed (the_actor (cap_actor_id root) s) (\<lambda>actor s.
     proceed (observe_actor (ac_actor_id actor) now s) (\<lambda>_ s.
       if cap_purpose root = INITIAL_BOOTSTRAP \<and> ac_initialized actor then refuse A_STALE_EPOCH s
       else if cap_purpose root = REPROVISION \<and> \<not> ac_initialized actor then refuse A_STALE_EPOCH s
       else if bs_actor_id record \<noteq> ac_actor_id actor \<or> bs_profile_id record \<noteq> ac_profile_id actor \<or>
               bs_root_id record \<noteq> Some (oc_handle (cap_credential root)) \<or>
               bs_root_purpose record \<noteq> Some (cap_purpose root)
         then refuse A_WRONG_ACTOR s
       else (Inr record, put_bootstrap (bs_handle record) record
               (invalidate_bootstraps (ac_actor_id actor) now s)))))"

definition create_reprovision_bootstrap ::
    "opaque_credential \<Rightarrow> bytes \<Rightarrow> bootstrap_issue \<Rightarrow> int \<Rightarrow> auth_state \<Rightarrow> bootstrap_record decision" where
  "create_reprovision_bootstrap reprovision digest issue now s =
     (case map_of (a_roots s) (oc_handle reprovision) of
        None \<Rightarrow> refuse A_INVALID_PROOF s
      | Some root \<Rightarrow>
          if rr_digest root \<noteq> digest then refuse A_INVALID_PROOF s
          else if rr_purpose root \<noteq> REPROVISION then refuse A_WRONG_PURPOSE s
          else if rr_consumed root then refuse A_STALE_EPOCH s
          else (case map_of (a_actors s) (rr_actor_id root) of
                  None \<Rightarrow> refuse A_WRONG_ACTOR s
                | Some actor \<Rightarrow>
                    proceed (observe_actor (ac_actor_id actor) now s) (\<lambda>_ s.
                      if \<not> ac_initialized actor then refuse A_STALE_EPOCH s
                      else
                        let stored = \<lparr>bs_handle = bi_handle issue, bs_actor_id = rr_actor_id root,
                              bs_profile_id = rr_profile_id root, bs_digest = bi_digest issue,
                              bs_not_before = bi_not_before issue, bs_expires_at = bi_expires_at issue,
                              bs_attempts = bi_attempts issue, bs_root_id = Some (rr_handle root),
                              bs_root_purpose = Some REPROVISION, bs_consumed = False,
                              bs_retired_at = None\<rparr>
                        in (Inr stored, put_bootstrap (bs_handle stored) stored
                              (invalidate_bootstraps (ac_actor_id actor) now s)))))"

definition cancel_bootstrap :: "uuid \<Rightarrow> int \<Rightarrow> auth_state \<Rightarrow> auth_state" where
  "cancel_bootstrap handle now s =
     (case map_of (a_bootstraps s) handle of
        None \<Rightarrow> s
      | Some b \<Rightarrow> if bs_consumed b then s else put_bootstrap handle (retire_bootstrap now b) s)"

text \<open>The session and recovery a successful exchange issues, bound to the actor and its epoch.\<close>

definition issue_authority ::
    "actor_record \<Rightarrow> session_record \<Rightarrow> recovery_record \<Rightarrow> auth_state \<Rightarrow> auth_state" where
  "issue_authority actor session recovery s =
     (let x = session\<lparr>ss_actor_id := ac_actor_id actor, ss_profile_id := ac_profile_id actor,
                      ss_epoch := ac_epoch actor\<rparr>;
          v = recovery\<lparr>rv_actor_id := ac_actor_id actor, rv_profile_id := ac_profile_id actor,
                       rv_epoch := ac_epoch actor\<rparr>
      in put_recovery (rv_handle v) v (put_session (ss_handle x) x s))"

definition exchange_bootstrap ::
    "uuid \<Rightarrow> bytes \<Rightarrow> int \<Rightarrow> session_record \<Rightarrow> recovery_record \<Rightarrow> auth_state
     \<Rightarrow> bootstrap_decision decision" where
  "exchange_bootstrap handle presented now session recovery s =
     (case map_of (a_bootstraps s) handle of
        None \<Rightarrow> refuse A_INVALID_PROOF s
      | Some b \<Rightarrow>
          if bs_root_purpose b = Some REPROVISION then refuse A_WRONG_PURPOSE s
          else proceed (observe_actor (bs_actor_id b) now s) (\<lambda>_ s.
            if bs_consumed b then refuse (spent_denial (bs_attempts b)) s
            else (case time_denial now (bs_not_before b) (bs_expires_at b) of
              Some d \<Rightarrow> refuse d (if d = A_EXPIRED then put_bootstrap handle (retire_bootstrap now b) s
                                 else s)
            | None \<Rightarrow>
                if bs_digest b \<noteq> presented
                then refuse (wrong_proof_denial (bs_attempts b))
                       (put_bootstrap handle (wrong_bootstrap now b) s)
                else proceed (the_actor (bs_actor_id b) s) (\<lambda>actor s.
                  let finish = (\<lambda>actor s.
                        proceed (crash_if_armed CRASH_BOOTSTRAP
                            (put_bootstrap handle (retire_bootstrap now b) s)) (\<lambda>_ s.
                          (Inr \<lparr>bd_actor_id = ac_actor_id actor, bd_profile_id = ac_profile_id actor,
                                bd_epoch = ac_epoch actor, bd_replacement = None\<rparr>,
                           issue_authority actor session recovery s)))
                  in case bs_root_id b of
                       None \<Rightarrow> finish actor s
                     | Some root_id \<Rightarrow>
                         (case map_of (a_roots s) root_id of
                            None \<Rightarrow> refuse A_STALE_EPOCH s
                          | Some root \<Rightarrow>
                              if rr_consumed root \<or> Some (rr_purpose root) \<noteq> bs_root_purpose b
                                then refuse A_STALE_EPOCH s
                              else if rr_purpose root = INITIAL_BOOTSTRAP \<and> ac_initialized actor
                                then refuse A_STALE_EPOCH s
                              else
                                let actor' = actor\<lparr>ac_initialized := True\<rparr>
                                in finish actor' (put_actor (bs_actor_id b) actor'
                                     (put_root root_id (consume_root now root) s)))))))"


section \<open>Reprovision ceremonies\<close>

definition gc_ceremonies :: "int \<Rightarrow> auth_state \<Rightarrow> int \<times> auth_state" where
  "gc_ceremonies now s =
     (let expired = map_vals (\<lambda>c. if ce_terminal_at c = None \<and> now \<ge> ce_expires_at c
              then c\<lparr>ce_terminal_at := Some (ce_expires_at c), ce_terminal_denial := Some A_EXPIRED\<rparr>
              else c) (a_ceremonies s);
          doomed = (\<lambda>c. case ce_terminal_at c of None \<Rightarrow> False
                       | Some t \<Rightarrow> now \<ge> t + seconds (ce_replay_seconds c));
          kept = filter (\<lambda>(_, c). \<not> doomed c) expired
      in (len expired - len kept, s\<lparr>a_ceremonies := kept\<rparr>))"

definition trim_tombstones :: "uuid \<Rightarrow> int \<Rightarrow> auth_state \<Rightarrow> auth_state" where
  "trim_tombstones service_handle capacity s =
     (let candidates = filter (\<lambda>(_, c). ce_service_handle c = service_handle \<and> ce_terminal_at c \<noteq> None)
              (a_ceremonies s);
          ordered = map fst (sort_key (\<lambda>(k, c). (the (ce_terminal_at c), k)) candidates);
          doomed = take (nat (len ordered - capacity)) ordered
      in s\<lparr>a_ceremonies := fold AList.delete doomed (a_ceremonies s)\<rparr>)"

definition active_ceremonies :: "uuid \<Rightarrow> uuid \<Rightarrow> auth_state \<Rightarrow> int" where
  "active_ceremonies service_handle inst s =
     len (filter (\<lambda>(_, c). ce_service_handle c = service_handle \<and> ce_installation_id c = inst \<and>
                           ce_terminal_at c = None) (a_ceremonies s))"

text \<open>\<open>H\<close> is SHA-256 of \<^verbatim>\<open>hashlib\<close>, as \<^verbatim>\<open>_digest_credential\<close> uses it.\<close>

definition create_reprovision_ceremony ::
    "(bytes \<Rightarrow> bytes) \<Rightarrow> opaque_credential \<Rightarrow> bytes \<Rightarrow> opaque_credential \<Rightarrow> bytes \<Rightarrow> uuid \<Rightarrow>
     ceremony_issue \<Rightarrow> int \<Rightarrow> int \<Rightarrow> int \<Rightarrow> int \<Rightarrow> auth_state \<Rightarrow> uuid decision" where
  "create_reprovision_ceremony H service service_digest operator operator_digest bootstrap_handle
     issue now active_capacity tombstone_capacity replay_seconds s =
     (if active_capacity < 1 \<or> tombstone_capacity < 1 \<or> replay_seconds < 0 then (Inl Auth_Value_Error, s)
      else case map_of (a_bootstraps s) bootstrap_handle of
        None \<Rightarrow> refuse A_INVALID_PROOF s
      | Some b \<Rightarrow>
          if bs_root_purpose b \<noteq> Some REPROVISION then refuse A_WRONG_PURPOSE s
          else (case bs_root_id b of
            None \<Rightarrow> refuse A_INVALID_PROOF s
          | Some root_id \<Rightarrow>
              (case map_of (a_roots s) root_id of
                 None \<Rightarrow> refuse A_STALE_EPOCH s
               | Some root \<Rightarrow>
                   (case map_of (a_compositions s) (rr_installation_id root) of
                      None \<Rightarrow> refuse A_INVALID_PROOF s
                    | Some binding \<Rightarrow>
                        if oc_handle service \<noteq> co_service_handle binding \<or>
                           service_digest \<noteq> co_service_digest binding \<or>
                           service_digest \<noteq> H (oc_secret service) \<or>
                           oc_handle operator \<noteq> co_operator_handle binding \<or>
                           operator_digest \<noteq> co_operator_digest binding \<or>
                           operator_digest \<noteq> H (oc_secret operator)
                        then refuse A_INVALID_PROOF s
                        else
                          let s1 = snd (gc_ceremonies now s)
                          in if active_ceremonies (co_service_handle binding) (rr_installation_id root) s1
                                \<ge> active_capacity then refuse A_CAPACITY_EXHAUSTED s1
                             else if ci_handle issue \<in> keys (a_ceremonies s1) then refuse A_INVALID_PROOF s1
                             else
                               let c = \<lparr>ce_handle = ci_handle issue, ce_digest = ci_digest issue,
                                     ce_bootstrap_handle = bootstrap_handle,
                                     ce_installation_id = rr_installation_id root,
                                     ce_service_handle = co_service_handle binding,
                                     ce_expires_at = ci_expires_at issue,
                                     ce_replay_seconds = replay_seconds, ce_terminal_at = None,
                                     ce_terminal_denial = None\<rparr>
                               in if \<not> ceremony_record_ok c then (Inl Auth_Value_Error, s1)
                                  else (Inr (ci_handle issue),
                                        trim_tombstones (co_service_handle binding) tombstone_capacity
                                          (put_ceremony (ci_handle issue) c s1))))))"

definition ceremony_counts :: "uuid \<Rightarrow> auth_state \<Rightarrow> int \<times> int \<times> int" where
  "ceremony_counts service_handle s =
     (let records = filter (\<lambda>(_, c). ce_service_handle c = service_handle) (a_ceremonies s);
          active = len (filter (\<lambda>(_, c). ce_terminal_at c = None) records)
      in (active, len records - active, len records))"

definition exchange_reprovision_bootstrap ::
    "(bytes \<Rightarrow> bytes) \<Rightarrow> uuid \<Rightarrow> bytes \<Rightarrow> opaque_credential \<Rightarrow> bytes \<Rightarrow> opaque_credential \<Rightarrow> bytes \<Rightarrow>
     int \<Rightarrow> session_record \<Rightarrow> recovery_record \<Rightarrow> root_issue \<Rightarrow> int \<Rightarrow> int \<Rightarrow> auth_state
     \<Rightarrow> bootstrap_decision decision" where
  "exchange_reprovision_bootstrap H handle presented service service_digest ceremony ceremony_digest
     now session recovery replacement tombstone_capacity replay_seconds s =
     (case map_of (a_ceremonies s) (oc_handle ceremony) of
        None \<Rightarrow> refuse A_INVALID_PROOF s
      | Some proof0 \<Rightarrow>
     (case map_of (a_compositions s) (ce_installation_id proof0) of
        None \<Rightarrow> refuse A_INVALID_PROOF s
      | Some binding \<Rightarrow>
          if ce_service_handle proof0 \<noteq> co_service_handle binding \<or>
             ce_bootstrap_handle proof0 \<noteq> handle \<or>
             oc_handle service \<noteq> co_service_handle binding \<or>
             service_digest \<noteq> co_service_digest binding \<or>
             service_digest \<noteq> H (oc_secret service) \<or>
             ce_digest proof0 \<noteq> ceremony_digest \<or>
             ceremony_digest \<noteq> H (oc_secret ceremony)
          then refuse A_INVALID_PROOF s
          else
     (let s1 = snd (gc_ceremonies now s)
      in case map_of (a_ceremonies s1) (oc_handle ceremony) of
        None \<Rightarrow> refuse A_INVALID_PROOF s1
      | Some c \<Rightarrow>
          if ce_terminal_at c \<noteq> None
          then refuse (case ce_terminal_denial c of None \<Rightarrow> A_REPLAYED | Some d \<Rightarrow> d) s1
          else
     (case map_of (a_bootstraps s1) handle of
        None \<Rightarrow> refuse A_INVALID_PROOF s1
      | Some b \<Rightarrow>
     (case bs_root_id b of
        None \<Rightarrow> refuse A_INVALID_PROOF s1
      | Some root_id \<Rightarrow>
     (case map_of (a_roots s1) root_id of
        None \<Rightarrow> refuse A_WRONG_PURPOSE s1
      | Some root \<Rightarrow>
          if bs_root_purpose b \<noteq> Some REPROVISION then refuse A_WRONG_PURPOSE s1
          else if rr_installation_id root \<noteq> ce_installation_id c then refuse A_INVALID_PROOF s1
          else if now \<ge> ce_expires_at c then
            refuse A_EXPIRED (trim_tombstones (co_service_handle binding) tombstone_capacity
              (put_ceremony (oc_handle ceremony)
                (c\<lparr>ce_terminal_at := Some now, ce_terminal_denial := Some A_EXPIRED\<rparr>) s1))
          else
     (let s2 = trim_tombstones (co_service_handle binding) tombstone_capacity
              (put_ceremony (oc_handle ceremony)
                (c\<lparr>ce_terminal_at := Some now, ce_terminal_denial := Some A_REPLAYED,
                   ce_replay_seconds := replay_seconds\<rparr>) s1)
      in proceed (crash_if_armed CRASH_REPROVISION_PROOF s2) (\<lambda>_ s.
         proceed (observe_actor (bs_actor_id b) now s) (\<lambda>_ s.
           if bs_consumed b then refuse A_REPLAYED s
           else (case time_denial now (bs_not_before b) (bs_expires_at b) of
             Some d \<Rightarrow> refuse d (if d = A_EXPIRED then put_bootstrap handle (retire_bootstrap now b) s
                                else s)
           | None \<Rightarrow>
               if bs_digest b \<noteq> presented
               then refuse (wrong_proof_denial (bs_attempts b))
                      (put_bootstrap handle (wrong_bootstrap now b) s)
               else proceed (the_actor (bs_actor_id b) s) (\<lambda>actor s.
                 if rr_consumed root \<or> rr_purpose root \<noteq> REPROVISION then refuse A_STALE_EPOCH s
                 else if \<not> ac_initialized actor then refuse A_STALE_EPOCH s
                 else if ri_handle replacement \<in> keys (a_roots s) then refuse A_INVALID_PROOF s
                 else
                   let actor' = actor\<lparr>ac_epoch := ac_epoch actor + 1\<rparr>;
                       s3 = put_bootstrap handle (retire_bootstrap now b)
                              (retire_actor_authority (ac_actor_id actor) now
                                (put_actor (bs_actor_id b) actor'
                                  (put_root root_id (consume_root now root) s)));
                       new_root = \<lparr>rr_handle = ri_handle replacement,
                              rr_installation_id = rr_installation_id root,
                              rr_actor_id = rr_actor_id root, rr_profile_id = rr_profile_id root,
                              rr_purpose = REPROVISION, rr_digest = ri_digest replacement,
                              rr_consumed = False, rr_retired_at = None\<rparr>
                   in proceed (crash_if_armed CRASH_BOOTSTRAP s3) (\<lambda>_ s.
                        (Inr \<lparr>bd_actor_id = ac_actor_id actor', bd_profile_id = ac_profile_id actor',
                              bd_epoch = ac_epoch actor',
                              bd_replacement = Some \<lparr>rb_handle = ri_handle replacement,
                                rb_installation_id = rr_installation_id root,
                                rb_actor_id = rr_actor_id root, rb_profile_id = rr_profile_id root,
                                rb_purpose = REPROVISION\<rparr>\<rparr>,
                         put_root (ri_handle replacement) new_root
                           (issue_authority actor' session recovery s))))))))))))))"


section \<open>Sessions\<close>

text \<open>The allowed value is the session's handle together with its record.\<close>

definition authenticate_locked ::
    "opaque_credential \<Rightarrow> bytes \<Rightarrow> int \<Rightarrow> auth_state \<Rightarrow> session_record decision" where
  "authenticate_locked credential digest now s =
     (case map_of (a_sessions s) (oc_handle credential) of
        None \<Rightarrow> refuse A_SESSION_NOT_FOUND s
      | Some x \<Rightarrow>
          if ss_digest x \<noteq> digest then refuse A_INVALID_PROOF s
          else proceed (observe_actor (ss_actor_id x) now s) (\<lambda>_ s.
               proceed (the_actor (ss_actor_id x) s) (\<lambda>actor s.
                 if ss_epoch x \<noteq> ac_epoch actor then refuse A_STALE_EPOCH s
                 else if ss_revoked x then refuse A_REVOKED s
                 else (case time_denial now (ss_not_before x) (ss_expires_at x) of
                         Some d \<Rightarrow> refuse d s
                       | None \<Rightarrow> (Inr x, s)))))"

definition authenticate_session ::
    "opaque_credential \<Rightarrow> bytes \<Rightarrow> int \<Rightarrow> auth_state \<Rightarrow> session_record decision" where
  "authenticate_session credential digest now s = authenticate_locked credential digest now s"

definition create_step_up ::
    "opaque_credential \<Rightarrow> bytes \<Rightarrow> int \<Rightarrow> step_up_record \<Rightarrow> auth_state \<Rightarrow> step_up_record decision" where
  "create_step_up session session_digest now challenge s =
     proceed (authenticate_locked session session_digest now s) (\<lambda>current s.
       if su_actor_id challenge \<noteq> ss_actor_id current then refuse A_WRONG_ACTOR s
       else if su_profile_id challenge \<noteq> ss_profile_id current then refuse A_WRONG_PROFILE s
       else let issued = challenge\<lparr>su_session_id := ss_handle current, su_epoch := ss_epoch current\<rparr>
            in (Inr issued, put_step_up (su_handle issued) issued s))"

definition grant_of :: "step_up_record \<Rightarrow> authority_grant" where
  "grant_of x = \<lparr>gr_actor_id = su_actor_id x, gr_profile_id = su_profile_id x,
     gr_session_id = su_session_id x, gr_evidence_id = su_handle x, gr_purpose = su_purpose x,
     gr_scopes = su_scopes x, gr_not_before = su_not_before x, gr_expires_at = su_expires_at x,
     gr_epoch = su_epoch x\<rparr>"

definition consume_step_up ::
    "opaque_credential \<Rightarrow> bytes \<Rightarrow> opaque_credential \<Rightarrow> bytes \<Rightarrow> uuid \<Rightarrow> uuid \<Rightarrow> auth_purpose \<Rightarrow>
     auth_scope set \<Rightarrow> int \<Rightarrow> auth_state \<Rightarrow> step_up_record decision" where
  "consume_step_up challenge challenge_digest session session_digest actor_id profile_id purpose
     scopes now s =
     (case map_of (a_step_ups s) (oc_handle challenge) of
        None \<Rightarrow> refuse A_INVALID_PROOF s
      | Some x \<Rightarrow>
          proceed (authenticate_locked session session_digest now s) (\<lambda>_ s.
            if oc_handle session \<noteq> su_session_id x then refuse A_WRONG_SESSION s
            else proceed (the_actor (su_actor_id x) s) (\<lambda>actor s.
              if su_epoch x \<noteq> ac_epoch actor then refuse A_STALE_EPOCH s
              else if su_consumed x then refuse (spent_denial (su_attempts x)) s
              else (case time_denial now (su_not_before x) (su_expires_at x) of
                Some d \<Rightarrow> refuse d (if d = A_EXPIRED
                                   then put_step_up (oc_handle challenge) (retire_step_up now x) s
                                   else s)
              | None \<Rightarrow>
                  if su_digest x \<noteq> challenge_digest
                  then refuse (wrong_proof_denial (su_attempts x))
                         (put_step_up (oc_handle challenge) (wrong_step_up now x) s)
                  else if actor_id \<noteq> su_actor_id x then refuse A_WRONG_ACTOR s
                  else if profile_id \<noteq> su_profile_id x then refuse A_WRONG_PROFILE s
                  else if purpose \<noteq> su_purpose x then refuse A_WRONG_PURPOSE s
                  else if scopes \<noteq> su_scopes x then refuse A_SCOPE_WIDENING s
                  else
                    let x' = retire_step_up now x
                    in proceed (crash_if_armed CRASH_STEP_UP
                           (put_step_up (oc_handle challenge) x' s)) (\<lambda>_ s.
                         if \<not> authority_grant_ok (grant_of x') then (Inl Auth_Value_Error, s)
                         else (Inr x', put_grant (su_handle x')
                                \<lparr>gp_grant = grant_of x', gp_used_at = None\<rparr> s))))))"

definition rotate_session ::
    "opaque_credential \<Rightarrow> bytes \<Rightarrow> int \<Rightarrow> session_record \<Rightarrow> auth_state \<Rightarrow> session_record decision" where
  "rotate_session current current_digest now replacement s =
     proceed (authenticate_locked current current_digest now s) (\<lambda>prior s.
       let issued = replacement\<lparr>ss_actor_id := ss_actor_id prior, ss_profile_id := ss_profile_id prior,
                                ss_epoch := ss_epoch prior\<rparr>
       in (Inr issued, put_session (ss_handle issued) issued
            (retire_session_challenges (ss_handle prior) now
              (put_session (oc_handle current) (retire_session now prior) s))))"

definition revoke_session ::
    "opaque_credential \<Rightarrow> bytes \<Rightarrow> int \<Rightarrow> auth_state \<Rightarrow> uuid decision" where
  "revoke_session current current_digest now s =
     proceed (authenticate_locked current current_digest now s) (\<lambda>x s.
       (Inr (ss_handle x), retire_session_challenges (ss_handle x) now
          (put_session (oc_handle current) (retire_session now x) s)))"


section \<open>Grants\<close>

definition authorize_grant ::
    "opaque_credential \<Rightarrow> bytes \<Rightarrow> authority_grant \<Rightarrow> auth_purpose \<Rightarrow> int \<Rightarrow> auth_state
     \<Rightarrow> authority_grant decision" where
  "authorize_grant session session_digest grant purpose now s =
     (case map_of (a_grants s) (gr_evidence_id grant) of
        None \<Rightarrow> refuse A_INVALID_PROOF s
      | Some provenance \<Rightarrow>
          if gp_grant provenance \<noteq> grant then refuse A_INVALID_PROOF s
          else proceed (authenticate_locked session session_digest now s) (\<lambda>current s.
               proceed (the_actor (ss_actor_id current) s) (\<lambda>actor s.
                 if gr_actor_id grant \<noteq> ss_actor_id current then refuse A_WRONG_ACTOR s
                 else if gr_profile_id grant \<noteq> ss_profile_id current then refuse A_WRONG_PROFILE s
                 else if gr_session_id grant \<noteq> ss_handle current then refuse A_WRONG_SESSION s
                 else if gr_epoch grant \<noteq> ac_epoch actor then refuse A_STALE_EPOCH s
                 else if gr_purpose grant \<noteq> purpose then refuse A_WRONG_PURPOSE s
                 else (case time_denial now (gr_not_before grant) (gr_expires_at grant) of
                         Some d \<Rightarrow> refuse d s
                       | None \<Rightarrow>
                           if gp_used_at provenance \<noteq> None then refuse A_REPLAYED s
                           else (Inr grant, put_grant (gr_evidence_id grant)
                                  (provenance\<lparr>gp_used_at := Some now\<rparr>) s)))))"

definition create_authenticated_bootstrap ::
    "opaque_credential \<Rightarrow> bytes \<Rightarrow> authority_grant \<Rightarrow> bootstrap_record \<Rightarrow> int \<Rightarrow> auth_state
     \<Rightarrow> bootstrap_record decision" where
  "create_authenticated_bootstrap session session_digest grant record now s =
     proceed (authorize_grant session session_digest grant SETUP_AUTHORITY_CHANGE now s) (\<lambda>_ s.
       if bs_actor_id record \<noteq> gr_actor_id grant \<or> bs_profile_id record \<noteq> gr_profile_id grant \<or>
          bs_root_id record \<noteq> None
       then refuse A_WRONG_ACTOR s
       else (Inr record, put_bootstrap (bs_handle record) record
              (invalidate_bootstraps (bs_actor_id record) now s)))"

definition renew_recovery ::
    "opaque_credential \<Rightarrow> bytes \<Rightarrow> authority_grant \<Rightarrow> recovery_record \<Rightarrow> int \<Rightarrow> auth_state
     \<Rightarrow> recovery_record decision" where
  "renew_recovery session session_digest grant replacement now s =
     proceed (authorize_grant session session_digest grant KEY_RECOVERY_CHANGE now s) (\<lambda>_ s.
     proceed (the_actor (gr_actor_id grant) s) (\<lambda>actor s.
       let issued = replacement\<lparr>rv_actor_id := ac_actor_id actor, rv_profile_id := ac_profile_id actor,
                                rv_epoch := ac_epoch actor\<rparr>
       in (Inr issued, put_recovery (rv_handle issued) issued
            (consume_actor_recoveries (ac_actor_id actor) now s))))"

definition revoke_all_authenticated ::
    "opaque_credential \<Rightarrow> bytes \<Rightarrow> authority_grant \<Rightarrow> recovery_record \<Rightarrow> int \<Rightarrow> auth_state
     \<Rightarrow> recovery_record decision" where
  "revoke_all_authenticated session session_digest grant replacement now s =
     proceed (authorize_grant session session_digest grant ALL_SESSION_REVOKE now s) (\<lambda>_ s.
     proceed (the_actor (gr_actor_id grant) s) (\<lambda>actor s.
       let actor' = actor\<lparr>ac_epoch := ac_epoch actor + 1\<rparr>;
           issued = replacement\<lparr>rv_actor_id := ac_actor_id actor', rv_profile_id := ac_profile_id actor',
                                rv_epoch := ac_epoch actor'\<rparr>
       in (Inr issued, put_recovery (rv_handle issued) issued
            (retire_actor_authority (ac_actor_id actor') now
              (put_actor (gr_actor_id grant) actor' s)))))"

definition validate_grant ::
    "authority_grant \<Rightarrow> opaque_credential \<Rightarrow> bytes \<Rightarrow> int \<Rightarrow> auth_state \<Rightarrow> authority_grant decision" where
  "validate_grant grant session session_digest now s =
     authorize_grant session session_digest grant (gr_purpose grant) now s"


section \<open>Emergency, recovery and collection\<close>

definition emergency_revoke ::
    "root_capability \<Rightarrow> bytes \<Rightarrow> int \<Rightarrow> auth_state \<Rightarrow> int decision" where
  "emergency_revoke root root_digest now s =
     proceed (validate_root root root_digest [EMERGENCY_REVOKE] s, s) (\<lambda>r s.
     proceed (observe_actor (cap_actor_id root) now s) (\<lambda>_ s.
     let s1 = put_root (oc_handle (cap_credential root)) (consume_root now r) s
     in proceed (the_actor (cap_actor_id root) s1) (\<lambda>actor s.
          let actor' = actor\<lparr>ac_epoch := ac_epoch actor + 1\<rparr>
          in (Inr (ac_epoch actor'), retire_actor_authority (ac_actor_id actor') now
               (put_actor (cap_actor_id root) actor' s)))))"

definition recover ::
    "opaque_credential \<Rightarrow> bytes \<Rightarrow> int \<Rightarrow> session_issue \<Rightarrow> recovery_issue \<Rightarrow> auth_state
     \<Rightarrow> session_record decision" where
  "recover recovery digest now session replacement s =
     (case map_of (a_recoveries s) (oc_handle recovery) of
        None \<Rightarrow> refuse A_INVALID_PROOF s
      | Some x \<Rightarrow>
          proceed (observe_actor (rv_actor_id x) now s) (\<lambda>_ s.
            if rv_consumed x then refuse (spent_denial (rv_attempts x)) s
            else (case time_denial now (rv_not_before x) (rv_expires_at x) of
              Some d \<Rightarrow> refuse d (if d = A_EXPIRED
                                 then put_recovery (oc_handle recovery) (retire_recovery now x) s
                                 else s)
            | None \<Rightarrow>
                if rv_digest x \<noteq> digest
                then refuse (wrong_proof_denial (rv_attempts x))
                       (put_recovery (oc_handle recovery) (wrong_recovery now x) s)
                else proceed (the_actor (rv_actor_id x) s) (\<lambda>actor s.
                  if rv_epoch x \<noteq> ac_epoch actor
                  then refuse A_STALE_EPOCH (put_recovery (oc_handle recovery) (retire_recovery now x) s)
                  else
                    let actor' = actor\<lparr>ac_epoch := ac_epoch actor + 1\<rparr>;
                        s1 = retire_actor_authority (ac_actor_id actor') now
                               (put_actor (rv_actor_id x) actor'
                                 (consume_actor_recoveries (ac_actor_id actor) now s));
                        new_session = \<lparr>ss_handle = si_handle session, ss_actor_id = ac_actor_id actor',
                          ss_profile_id = ac_profile_id actor', ss_digest = si_digest session,
                          ss_epoch = ac_epoch actor', ss_not_before = si_not_before session,
                          ss_expires_at = si_expires_at session, ss_revoked = False,
                          ss_retired_at = None\<rparr>;
                        new_recovery = \<lparr>rv_handle = vi_handle replacement,
                          rv_actor_id = ac_actor_id actor', rv_profile_id = ac_profile_id actor',
                          rv_digest = vi_digest replacement, rv_epoch = ac_epoch actor',
                          rv_not_before = vi_not_before replacement,
                          rv_expires_at = vi_expires_at replacement,
                          rv_attempts = vi_attempts replacement, rv_consumed = False,
                          rv_retired_at = None\<rparr>
                    in proceed (crash_if_armed CRASH_RECOVERY s1) (\<lambda>_ s.
                         (Inr new_session,
                          put_recovery (rv_handle new_recovery) new_recovery
                            (put_session (ss_handle new_session) new_session s)))))))"

text \<open>
  \<^verbatim>\<open>garbage_collect\<close> compares \<^verbatim>\<open>timestamp()\<close> values; whole microseconds of this era are exact
  as floating-point numbers, so the comparison is the one on instants.
\<close>

definition past :: "int \<Rightarrow> int option \<Rightarrow> int option \<Rightarrow> bool" where
  "past cutoff retired_at expires_at \<longleftrightarrow>
     (case retired_at of None \<Rightarrow> False | Some t \<Rightarrow> t \<le> cutoff) \<or>
     (case expires_at of None \<Rightarrow> False | Some t \<Rightarrow> t \<le> cutoff)"

definition auth_garbage_collect :: "int \<Rightarrow> int \<Rightarrow> auth_state \<Rightarrow> int decision" where
  "auth_garbage_collect now retention s =
     (if retention < 0 \<or> 86400 < retention then (Inl Auth_Value_Error, s)
      else
        let cutoff = now - seconds retention;
            roots = filter (\<lambda>(_, r). \<not> past cutoff (rr_retired_at r) None) (a_roots s);
            bootstraps = filter (\<lambda>(_, b). \<not> past cutoff (bs_retired_at b) (Some (bs_expires_at b)))
              (a_bootstraps s);
            sessions = filter (\<lambda>(_, x). \<not> past cutoff (ss_retired_at x) (Some (ss_expires_at x)))
              (a_sessions s);
            recoveries = filter (\<lambda>(_, x). \<not> past cutoff (rv_retired_at x) (Some (rv_expires_at x)))
              (a_recoveries s);
            step_ups = filter (\<lambda>(_, x). \<not> past cutoff (su_retired_at x) (Some (su_expires_at x)))
              (a_step_ups s);
            grants = filter (\<lambda>(_, p). \<not> gr_expires_at (gp_grant p) \<le> cutoff) (a_grants s);
            (n, s') = gc_ceremonies now (s\<lparr>a_roots := roots, a_bootstraps := bootstraps,
              a_sessions := sessions, a_recoveries := recoveries, a_step_ups := step_ups,
              a_grants := grants\<rparr>)
        in (Inr ((len (a_roots s) - len roots) + (len (a_bootstraps s) - len bootstraps) +
                 (len (a_sessions s) - len sessions) + (len (a_recoveries s) - len recoveries) +
                 (len (a_step_ups s) - len step_ups) + (len (a_grants s) - len grants) + n), s'))"

end
