(* ===== verification/Auth_Runs.thy ===== *)
theory Auth_Runs
  imports Auth_Store
begin

text \<open>
  Requests to the decision store as data, and what every request preserves: records only age
  (a consumed record stays consumed, a revoked session stays revoked, attempts only run out),
  actors stay with epochs and clocks that never decrease, and only handles the request issues
  appear.  One generic relation on dictionaries (\<open>grows\<close>) carries the proofs for all six kinds
  of records.
\<close>


section \<open>Requests\<close>

datatype auth_request =
    Initialize uuid uuid uuid "root_record list" root_issue root_issue
  | Root_Bootstrap root_capability bytes bootstrap_record
  | Authenticated_Bootstrap opaque_credential bytes authority_grant bootstrap_record
  | Reprovision_Bootstrap opaque_credential bytes bootstrap_issue
  | Cancel_Bootstrap uuid
  | Exchange_Bootstrap uuid bytes session_record recovery_record
  | Ceremony opaque_credential bytes opaque_credential bytes uuid ceremony_issue int int int
  | Exchange_Reprovision uuid bytes opaque_credential bytes opaque_credential bytes session_record
      recovery_record root_issue int int
  | Authenticate opaque_credential bytes
  | Create_Step_Up opaque_credential bytes step_up_record
  | Consume_Step_Up opaque_credential bytes opaque_credential bytes uuid uuid auth_purpose
      "auth_scope set"
  | Rotate opaque_credential bytes session_record
  | Revoke opaque_credential bytes
  | Renew_Recovery opaque_credential bytes authority_grant recovery_record
  | Revoke_All opaque_credential bytes authority_grant recovery_record
  | Emergency root_capability bytes
  | Recover opaque_credential bytes session_issue recovery_issue
  | Validate_Grant authority_grant opaque_credential bytes
  | Collect_Retired int
  | Arm_Crash auth_crash_point

datatype auth_reply =
    R_Done | R_Bootstrap bootstrap_record | R_Decision bootstrap_decision | R_Session session_record
  | R_Step_Up step_up_record | R_Handle uuid | R_Recovery recovery_record | R_Epoch int
  | R_Grant authority_grant | R_Count int

definition replied :: "('a \<Rightarrow> auth_reply) \<Rightarrow> 'a decision \<Rightarrow> auth_reply decision" where
  "replied f x = proceed x (\<lambda>v s. (Inr (f v), s))"

lemma snd_replied [simp]: "snd (replied f x) = snd x"
  by (cases x; cases "fst x") (auto simp: replied_def)

fun decide :: "(bytes \<Rightarrow> bytes) \<Rightarrow> int \<Rightarrow> auth_request \<Rightarrow> auth_state \<Rightarrow> auth_reply decision" where
  "decide H now (Initialize inst actor profile records operator service) s =
     replied (\<lambda>_. R_Done) (initialize_installation inst actor profile records operator service now s)"
| "decide H now (Root_Bootstrap root d record) s =
     replied R_Bootstrap (create_root_bootstrap root d record now s)"
| "decide H now (Authenticated_Bootstrap x d grant record) s =
     replied R_Bootstrap (create_authenticated_bootstrap x d grant record now s)"
| "decide H now (Reprovision_Bootstrap x d issue) s =
     replied R_Bootstrap (create_reprovision_bootstrap x d issue now s)"
| "decide H now (Cancel_Bootstrap k) s = (Inr R_Done, cancel_bootstrap k now s)"
| "decide H now (Exchange_Bootstrap k d session recovery) s =
     replied R_Decision (exchange_bootstrap k d now session recovery s)"
| "decide H now (Ceremony sv sd op od k issue active tomb replay) s =
     replied R_Handle (create_reprovision_ceremony H sv sd op od k issue now active tomb replay s)"
| "decide H now (Exchange_Reprovision k d sv sd ce cd session recovery repl tomb replay) s =
     replied R_Decision (exchange_reprovision_bootstrap H k d sv sd ce cd now session recovery repl
       tomb replay s)"
| "decide H now (Authenticate x d) s = replied R_Session (authenticate_session x d now s)"
| "decide H now (Create_Step_Up x d challenge) s =
     replied R_Step_Up (create_step_up x d now challenge s)"
| "decide H now (Consume_Step_Up ch cd x d actor profile purpose scopes) s =
     replied R_Step_Up (consume_step_up ch cd x d actor profile purpose scopes now s)"
| "decide H now (Rotate x d repl) s = replied R_Session (rotate_session x d now repl s)"
| "decide H now (Revoke x d) s = replied R_Handle (revoke_session x d now s)"
| "decide H now (Renew_Recovery x d grant repl) s =
     replied R_Recovery (renew_recovery x d grant repl now s)"
| "decide H now (Revoke_All x d grant repl) s =
     replied R_Recovery (revoke_all_authenticated x d grant repl now s)"
| "decide H now (Emergency root d) s = replied R_Epoch (emergency_revoke root d now s)"
| "decide H now (Recover x d session repl) s =
     replied R_Session (recover x d now session repl s)"
| "decide H now (Validate_Grant grant x d) s = replied R_Grant (validate_grant grant x d now s)"
| "decide H now (Collect_Retired retention) s = replied R_Count (auth_garbage_collect now retention s)"
| "decide H now (Arm_Crash p) s = (Inr R_Done, arm_crash_once p s)"

text \<open>The handles a request may introduce; \<^verbatim>\<open>OpaqueId.new()\<close> never repeats one.\<close>

fun new_handles :: "auth_request \<Rightarrow> uuid list" where
  "new_handles (Initialize inst actor profile records operator service) =
     inst # actor # map rr_handle records @ [ri_handle operator, ri_handle service]"
| "new_handles (Root_Bootstrap _ _ record) = [bs_handle record]"
| "new_handles (Authenticated_Bootstrap _ _ _ record) = [bs_handle record]"
| "new_handles (Reprovision_Bootstrap _ _ issue) = [bi_handle issue]"
| "new_handles (Exchange_Bootstrap _ _ session recovery) = [ss_handle session, rv_handle recovery]"
| "new_handles (Ceremony _ _ _ _ _ issue _ _ _) = [ci_handle issue]"
| "new_handles (Exchange_Reprovision _ _ _ _ _ _ session recovery repl _ _) =
     [ss_handle session, rv_handle recovery, ri_handle repl]"
| "new_handles (Create_Step_Up _ _ challenge) = [su_handle challenge]"
| "new_handles (Rotate _ _ repl) = [ss_handle repl]"
| "new_handles (Renew_Recovery _ _ _ repl) = [rv_handle repl]"
| "new_handles (Revoke_All _ _ _ repl) = [rv_handle repl]"
| "new_handles (Recover _ _ session repl) = [si_handle session, vi_handle repl]"
| "new_handles _ = []"


section \<open>Dictionaries that only age\<close>

definition grows :: "('v \<Rightarrow> 'v \<Rightarrow> bool) \<Rightarrow> 'k set \<Rightarrow> ('k, 'v) dict \<Rightarrow> ('k, 'v) dict \<Rightarrow> bool" where
  "grows le N d d' \<longleftrightarrow>
     (\<forall>k v'. map_of d' k = Some v' \<longrightarrow> k \<in> N \<or> (\<exists>v. map_of d k = Some v \<and> le v v'))"

definition persists :: "('v \<Rightarrow> 'v \<Rightarrow> bool) \<Rightarrow> ('k, 'v) dict \<Rightarrow> ('k, 'v) dict \<Rightarrow> bool" where
  "persists le d d' \<longleftrightarrow> (\<forall>k v. map_of d k = Some v \<longrightarrow> (\<exists>v'. map_of d' k = Some v' \<and> le v v'))"

lemma lookup_map_vals [simp]: "map_of (map_vals f d) k = map_option f (map_of d k)"
  by (induction d) (auto simp: map_vals_def)

lemma grows_refl: "(\<And>v. le v v) \<Longrightarrow> grows le N d d"
  by (auto simp: grows_def)

lemma grows_old:
  "grows le N d d1 \<Longrightarrow> transp le \<Longrightarrow> map_of d1 k = Some v \<Longrightarrow> le v v' \<Longrightarrow>
     grows le N d (AList.update k v' d1)"
  by (auto simp: grows_def dest: transpD)

lemma grows_new: "grows le N d d1 \<Longrightarrow> k \<in> N \<Longrightarrow> grows le N d (AList.update k v' d1)"
  by (auto simp: grows_def)

lemma grows_map_vals:
  "grows le N d d1 \<Longrightarrow> transp le \<Longrightarrow> (\<And>v. le v (f v)) \<Longrightarrow> grows le N d (map_vals f d1)"
  by (fastforce simp: grows_def dest: transpD)

lemma grows_sub:
  "grows le N d d1 \<Longrightarrow> (\<And>k v. map_of d2 k = Some v \<Longrightarrow> map_of d1 k = Some v) \<Longrightarrow> grows le N d d2"
  unfolding grows_def by blast

lemma map_of_filter_Some:
  "wf_dict d \<Longrightarrow> map_of (filter P d) k = Some v \<Longrightarrow> map_of d k = Some v"
  by (induction d) (auto simp: wf_dict_def split: if_splits dest!: map_of_SomeD intro: rev_image_eqI)

lemma persists_refl: "(\<And>v. le v v) \<Longrightarrow> persists le d d"
  by (auto simp: persists_def)

lemma persists_old:
  "persists le d d1 \<Longrightarrow> transp le \<Longrightarrow> map_of d1 k = Some v \<Longrightarrow> le v v' \<Longrightarrow>
     persists le d (AList.update k v' d1)"
  unfolding persists_def map_of_update_eq by (metis option.inject transpD)

lemma persists_fresh:
  "persists le d d1 \<Longrightarrow> map_of d1 k = None \<Longrightarrow> persists le d (AList.update k v' d1)"
  unfolding persists_def map_of_update_eq by (metis option.distinct(1))


section \<open>How records age\<close>

definition actor_le :: "actor_record \<Rightarrow> actor_record \<Rightarrow> bool" where
  "actor_le a b \<longleftrightarrow> ac_actor_id b = ac_actor_id a \<and> ac_profile_id b = ac_profile_id a \<and>
     ac_epoch a \<le> ac_epoch b \<and> ac_last_observed a \<le> ac_last_observed b \<and>
     (ac_initialized a \<longrightarrow> ac_initialized b)"

definition root_le :: "root_record \<Rightarrow> root_record \<Rightarrow> bool" where
  "root_le r q \<longleftrightarrow> q = r\<lparr>rr_consumed := rr_consumed q, rr_retired_at := rr_retired_at q\<rparr> \<and>
     (rr_consumed r \<longrightarrow> rr_consumed q)"

definition bootstrap_le :: "bootstrap_record \<Rightarrow> bootstrap_record \<Rightarrow> bool" where
  "bootstrap_le b q \<longleftrightarrow> q = b\<lparr>bs_attempts := bs_attempts q, bs_consumed := bs_consumed q,
     bs_retired_at := bs_retired_at q\<rparr> \<and>
     bs_attempts q \<le> bs_attempts b \<and> (bs_consumed b \<longrightarrow> bs_consumed q)"

definition session_le :: "session_record \<Rightarrow> session_record \<Rightarrow> bool" where
  "session_le x y \<longleftrightarrow> y = x\<lparr>ss_revoked := ss_revoked y, ss_retired_at := ss_retired_at y\<rparr> \<and>
     (ss_revoked x \<longrightarrow> ss_revoked y)"

definition recovery_le :: "recovery_record \<Rightarrow> recovery_record \<Rightarrow> bool" where
  "recovery_le x y \<longleftrightarrow> y = x\<lparr>rv_attempts := rv_attempts y, rv_consumed := rv_consumed y,
     rv_retired_at := rv_retired_at y\<rparr> \<and>
     rv_attempts y \<le> rv_attempts x \<and> (rv_consumed x \<longrightarrow> rv_consumed y)"

definition step_up_le :: "step_up_record \<Rightarrow> step_up_record \<Rightarrow> bool" where
  "step_up_le x y \<longleftrightarrow> y = x\<lparr>su_attempts := su_attempts y, su_consumed := su_consumed y,
     su_retired_at := su_retired_at y\<rparr> \<and>
     su_attempts y \<le> su_attempts x \<and> (su_consumed x \<longrightarrow> su_consumed y)"

definition grant_le :: "grant_provenance \<Rightarrow> grant_provenance \<Rightarrow> bool" where
  "grant_le p q \<longleftrightarrow> gp_grant q = gp_grant p \<and> (gp_used_at p \<noteq> None \<longrightarrow> gp_used_at q \<noteq> None)"

lemmas le_defs = actor_le_def root_le_def bootstrap_le_def session_le_def recovery_le_def
  step_up_le_def grant_le_def

lemma le_refl [simp]:
  "actor_le a a" "root_le r r" "bootstrap_le b b" "session_le x x" "recovery_le v v" "step_up_le u u"
  "grant_le p p"
  by (simp_all add: le_defs)

lemma le_transp [simp]:
  "transp actor_le" "transp root_le" "transp bootstrap_le" "transp session_le" "transp recovery_le"
  "transp step_up_le" "transp grant_le"
proof -
  show "transp actor_le" by (rule transpI) (auto simp: actor_le_def)
  show "transp root_le"
    by (rule transpI, rename_tac x y z, case_tac x, case_tac y, case_tac z) (simp add: root_le_def)
  show "transp bootstrap_le"
    by (rule transpI, rename_tac x y z, case_tac x, case_tac y, case_tac z) (simp add: bootstrap_le_def)
  show "transp session_le"
    by (rule transpI, rename_tac x y z, case_tac x, case_tac y, case_tac z) (simp add: session_le_def)
  show "transp recovery_le"
    by (rule transpI, rename_tac x y z, case_tac x, case_tac y, case_tac z) (simp add: recovery_le_def)
  show "transp step_up_le"
    by (rule transpI, rename_tac x y z, case_tac x, case_tac y, case_tac z) (simp add: step_up_le_def)
  show "transp grant_le" by (rule transpI) (auto simp: grant_le_def)
qed

lemma le_retire [simp]:
  "bootstrap_le b (retire_bootstrap now b)" "session_le x (retire_session now x)"
  "recovery_le v (retire_recovery now v)" "step_up_le u (retire_step_up now u)"
  "root_le r (consume_root now r)" "grant_le p (p\<lparr>gp_used_at := Some now\<rparr>)"
  by (simp_all add: le_defs retire_bootstrap_def retire_session_def retire_recovery_def
      retire_step_up_def consume_root_def)

lemma le_wrong [simp]:
  "bootstrap_le b (wrong_bootstrap now b)" "recovery_le v (wrong_recovery now v)"
  "step_up_le u (wrong_step_up now u)"
  by (simp_all add: le_defs wrong_bootstrap_def wrong_recovery_def wrong_step_up_def Let_def
      retire_bootstrap_def retire_recovery_def retire_step_up_def)

end
