(* ===== verification/Auth_Ageing.thy ===== *)
theory Auth_Ageing
  imports Auth_Runs
begin

text \<open>
  Every request to the decision store only ages what the store holds.  \<open>advances N s0 s\<close> says
  that \<open>s\<close> is well indexed and came from \<open>s0\<close> by ageing records and adding records under
  handles of \<open>N\<close>; it is shown for each operation by composing rules for the single updates.
\<close>


section \<open>Well-indexed stores\<close>

definition indexed :: "('v \<Rightarrow> 'k) \<Rightarrow> ('k, 'v) dict \<Rightarrow> bool" where
  "indexed f d \<longleftrightarrow> wf_dict d \<and> list_all (\<lambda>(k, v). f v = k) d"

lemma indexed_Nil [simp]: "indexed f []"
  by (simp add: indexed_def)

lemma indexed_update: "indexed f d \<Longrightarrow> f v = k \<Longrightarrow> indexed f (AList.update k v d)"
  by (auto simp: indexed_def set_update_dict list_all_iff)

lemma indexed_filter: "indexed f d \<Longrightarrow> indexed f (filter P d)"
  by (auto simp: indexed_def wf_dict_def list_all_iff distinct_map_filter)

lemma indexed_map_vals: "indexed f d \<Longrightarrow> (\<And>v. f (g v) = f v) \<Longrightarrow> indexed f (map_vals g d)"
  by (auto simp: indexed_def wf_dict_def list_all_iff map_vals_def comp_def split_beta)

lemma indexed_lookup: "indexed f d \<Longrightarrow> map_of d k = Some v \<Longrightarrow> f v = k"
  by (auto simp: indexed_def list_all_iff dest: map_of_SomeD)

lemma indexed_sub: "indexed f d \<Longrightarrow> map_of (filter P d) k = Some v \<Longrightarrow> map_of d k = Some v"
  by (auto simp: indexed_def intro: map_of_filter_Some)

definition wf_store :: "auth_state \<Rightarrow> bool" where
  "wf_store s \<longleftrightarrow>
     indexed ac_actor_id (a_actors s) \<and> indexed rr_handle (a_roots s) \<and>
     indexed bs_handle (a_bootstraps s) \<and> indexed ss_handle (a_sessions s) \<and>
     indexed rv_handle (a_recoveries s) \<and> indexed su_handle (a_step_ups s) \<and>
     indexed (\<lambda>p. gr_evidence_id (gp_grant p)) (a_grants s)"

lemma wf_empty_store: "wf_store empty_store"
  by (simp add: wf_store_def empty_store_def)


section \<open>The ageing relation\<close>

definition unspent :: "auth_state \<Rightarrow> uuid set" where
  "unspent s = {k. \<exists>x. map_of (a_step_ups s) k = Some x \<and> \<not> su_consumed x}"

definition advances :: "uuid set \<Rightarrow> auth_state \<Rightarrow> auth_state \<Rightarrow> bool" where
  "advances N s0 s \<longleftrightarrow> wf_store s \<and>
     persists actor_le (a_actors s0) (a_actors s) \<and>
     grows actor_le N (a_actors s0) (a_actors s) \<and>
     grows root_le N (a_roots s0) (a_roots s) \<and>
     grows bootstrap_le N (a_bootstraps s0) (a_bootstraps s) \<and>
     grows session_le N (a_sessions s0) (a_sessions s) \<and>
     grows recovery_le N (a_recoveries s0) (a_recoveries s) \<and>
     grows step_up_le N (a_step_ups s0) (a_step_ups s) \<and>
     grows grant_le (N \<union> unspent s0) (a_grants s0) (a_grants s)"

lemma advances_refl: "wf_store s \<Longrightarrow> advances N s s"
  by (simp add: advances_def persists_refl grows_refl)

lemma advances_wf: "advances N s0 s \<Longrightarrow> wf_store s"
  by (simp add: advances_def)

lemma advances_actor:
  assumes "advances N s0 s" and "map_of (a_actors s) k = Some a" and "actor_le a a'"
  shows "advances N s0 (put_actor k a' s)"
  using assms
  by (auto simp: advances_def wf_store_def put_actor_def actor_le_def
      intro!: indexed_update persists_old grows_old dest: indexed_lookup)

lemma le_handle:
  "root_le r r' \<Longrightarrow> rr_handle r' = rr_handle r"
  "bootstrap_le b b' \<Longrightarrow> bs_handle b' = bs_handle b"
  "session_le x x' \<Longrightarrow> ss_handle x' = ss_handle x"
  "recovery_le v v' \<Longrightarrow> rv_handle v' = rv_handle v"
  "step_up_le u u' \<Longrightarrow> su_handle u' = su_handle u"
      apply (cases r; cases r'; simp add: root_le_def)
     apply (cases b; cases b'; simp add: bootstrap_le_def)
    apply (cases x; cases x'; simp add: session_le_def)
   apply (cases v; cases v'; simp add: recovery_le_def)
  apply (cases u; cases u'; simp add: step_up_le_def)
  done

lemma advances_root:
  assumes "advances N s0 s" and "map_of (a_roots s) k = Some r" and "root_le r r'"
  shows "advances N s0 (put_root k r' s)"
  using assms le_handle(1) [OF assms(3)]
  by (auto simp: advances_def wf_store_def put_root_def
      intro!: indexed_update grows_old dest: indexed_lookup)

lemma advances_bootstrap:
  assumes "advances N s0 s" and "map_of (a_bootstraps s) k = Some b" and "bootstrap_le b b'"
  shows "advances N s0 (put_bootstrap k b' s)"
  using assms le_handle(2) [OF assms(3)]
  by (auto simp: advances_def wf_store_def put_bootstrap_def
      intro!: indexed_update grows_old dest: indexed_lookup)

lemma advances_session:
  assumes "advances N s0 s" and "map_of (a_sessions s) k = Some x" and "session_le x x'"
  shows "advances N s0 (put_session k x' s)"
  using assms le_handle(3) [OF assms(3)]
  by (auto simp: advances_def wf_store_def put_session_def
      intro!: indexed_update grows_old dest: indexed_lookup)

lemma advances_recovery:
  assumes "advances N s0 s" and "map_of (a_recoveries s) k = Some x" and "recovery_le x x'"
  shows "advances N s0 (put_recovery k x' s)"
  using assms le_handle(4) [OF assms(3)]
  by (auto simp: advances_def wf_store_def put_recovery_def
      intro!: indexed_update grows_old dest: indexed_lookup)

lemma advances_step_up:
  assumes "advances N s0 s" and "map_of (a_step_ups s) k = Some x" and "step_up_le x x'"
  shows "advances N s0 (put_step_up k x' s)"
  using assms le_handle(5) [OF assms(3)]
  by (auto simp: advances_def wf_store_def put_step_up_def
      intro!: indexed_update grows_old dest: indexed_lookup)

lemma advances_grant:
  assumes "advances N s0 s" and "map_of (a_grants s) k = Some p" and "grant_le p q"
  shows "advances N s0 (put_grant k q s)"
  using assms
  by (auto simp: advances_def wf_store_def put_grant_def grant_le_def
      intro!: indexed_update grows_old dest: indexed_lookup)

text \<open>The updates the operations make on records they looked up.\<close>

lemma advances_aged:
  assumes "advances N s0 s"
  shows "map_of (a_actors s) k = Some a \<Longrightarrow> advances N s0 (put_actor k (a\<lparr>ac_epoch := ac_epoch a + 1\<rparr>) s)"
    and "map_of (a_actors s) k = Some a \<Longrightarrow> advances N s0 (put_actor k (a\<lparr>ac_initialized := True\<rparr>) s)"
    and "map_of (a_roots s) k = Some r \<Longrightarrow> advances N s0 (put_root k (consume_root now r) s)"
    and "map_of (a_bootstraps s) k = Some b \<Longrightarrow> advances N s0 (put_bootstrap k (retire_bootstrap now b) s)"
    and "map_of (a_bootstraps s) k = Some b \<Longrightarrow> advances N s0 (put_bootstrap k (wrong_bootstrap now b) s)"
    and "map_of (a_sessions s) k = Some x \<Longrightarrow> advances N s0 (put_session k (retire_session now x) s)"
    and "map_of (a_recoveries s) k = Some v \<Longrightarrow> advances N s0 (put_recovery k (retire_recovery now v) s)"
    and "map_of (a_recoveries s) k = Some v \<Longrightarrow> advances N s0 (put_recovery k (wrong_recovery now v) s)"
    and "map_of (a_step_ups s) k = Some u \<Longrightarrow> advances N s0 (put_step_up k (retire_step_up now u) s)"
    and "map_of (a_step_ups s) k = Some u \<Longrightarrow> advances N s0 (put_step_up k (wrong_step_up now u) s)"
    and "map_of (a_grants s) k = Some p \<Longrightarrow> advances N s0 (put_grant k (p\<lparr>gp_used_at := Some now\<rparr>) s)"
  using assms
  by (simp_all add: advances_actor actor_le_def advances_root advances_bootstrap advances_session
      advances_recovery advances_step_up advances_grant)

text \<open>Records under the handles of the request.\<close>

lemma advances_new:
  assumes "advances N s0 s" and "k \<in> N"
  shows "rr_handle r = k \<Longrightarrow> advances N s0 (put_root k r s)"
    and "bs_handle b = k \<Longrightarrow> advances N s0 (put_bootstrap k b s)"
    and "ss_handle x = k \<Longrightarrow> advances N s0 (put_session k x s)"
    and "rv_handle v = k \<Longrightarrow> advances N s0 (put_recovery k v s)"
    and "su_handle u = k \<Longrightarrow> advances N s0 (put_step_up k u s)"
  using assms
  by (auto simp: advances_def wf_store_def put_root_def put_bootstrap_def put_session_def
      put_recovery_def put_step_up_def intro!: indexed_update grows_new)

lemma advances_new_grant:
  assumes "advances N s0 s" and "k \<in> unspent s0" and "gr_evidence_id (gp_grant p) = k"
  shows "advances N s0 (put_grant k p s)"
  using assms by (auto simp: advances_def wf_store_def put_grant_def intro!: indexed_update grows_new)

text \<open>Sweeps over a whole dictionary.\<close>

lemma retire_handles [simp]:
  "bs_handle (retire_bootstrap now b) = bs_handle b" "ss_handle (retire_session now x) = ss_handle x"
  "rv_handle (retire_recovery now v) = rv_handle v" "su_handle (retire_step_up now u) = su_handle u"
  by (simp_all add: retire_bootstrap_def retire_session_def retire_recovery_def retire_step_up_def)

lemma advances_sweeps:
  assumes "advances N s0 s"
  shows "advances N s0 (invalidate_bootstraps a now s)"
    and "advances N s0 (consume_actor_recoveries a now s)"
    and "advances N s0 (retire_actor_authority a now s)"
    and "advances N s0 (retire_session_challenges h now s)"
  using assms
  by (simp_all add: advances_def wf_store_def invalidate_bootstraps_def consume_actor_recoveries_def
      retire_actor_authority_def retire_session_challenges_def indexed_map_vals grows_map_vals)

lemma advances_ceremonies [simp]:
  "advances N s0 (s\<lparr>a_ceremonies := d\<rparr>) = advances N s0 s"
  "advances N s0 (s\<lparr>a_crash_once := c\<rparr>) = advances N s0 s"
  "advances N s0 (put_ceremony k p s) = advances N s0 s"
  "advances N s0 (trim_tombstones h n s) = advances N s0 s"
  "advances N s0 (snd (gc_ceremonies now s)) = advances N s0 s"
  by (simp_all add: advances_def wf_store_def put_ceremony_def trim_tombstones_def gc_ceremonies_def Let_def)

lemma advances_issue:
  assumes "advances N s0 s" and "ss_handle x \<in> N" and "rv_handle v \<in> N"
  shows "advances N s0 (issue_authority actor x v s)"
  using assms by (simp add: issue_authority_def Let_def advances_new)


section \<open>Decisions\<close>

definition ends :: "(auth_state \<Rightarrow> bool) \<Rightarrow> 'a decision \<Rightarrow> bool" where
  "ends P x \<longleftrightarrow> P (snd x)"

lemma ends_simps [simp]: "ends P (r, s) \<longleftrightarrow> P s"
  by (simp add: ends_def)

lemma ends_proceed:
  "ends P x \<Longrightarrow> (\<And>v s. x = (Inr v, s) \<Longrightarrow> P s \<Longrightarrow> ends P (k v s)) \<Longrightarrow> ends P (proceed x k)"
  by (cases x; cases "fst x") (auto simp: proceed_def)

lemma ends_observe: "advances N s0 s \<Longrightarrow> ends (advances N s0) (observe_actor a now s)"
  using advances_actor [of N s0 s a]
  by (auto simp: observe_actor_def put_actor_def actor_le_def split: option.split)

lemma ends_the_actor: "P s \<Longrightarrow> ends P (the_actor a s)"
  by (auto simp: the_actor_def split: option.split)

lemma ends_crash: "advances N s0 s \<Longrightarrow> ends (advances N s0) (crash_if_armed p s)"
  by (auto simp: crash_if_armed_def)

lemmas ends_rules = ends_proceed ends_observe ends_the_actor ends_crash

text \<open>What a step that went on leaves behind.\<close>

lemma observe_actor_Inr:
  "observe_actor a now s = (Inr u, s') \<Longrightarrow>
     \<exists>actor. map_of (a_actors s) a = Some actor \<and> ac_last_observed actor \<le> now \<and>
       s' = put_actor a (actor\<lparr>ac_last_observed := now\<rparr>) s"
  by (auto simp: observe_actor_def put_actor_def split: option.splits if_splits)

lemma the_actor_Inr: "the_actor a s = (Inr v, s') \<longleftrightarrow> map_of (a_actors s) a = Some v \<and> s' = s"
  by (auto simp: the_actor_def split: option.splits)

lemma crash_Inr: "crash_if_armed p s = (Inr u, s') \<longleftrightarrow> a_crash_once s \<noteq> Some p \<and> s' = s"
  by (auto simp: crash_if_armed_def)

lemma proceed_Inr:
  "proceed x k = (Inr v, s') \<longleftrightarrow> (\<exists>u s. x = (Inr u, s) \<and> k u s = (Inr v, s'))"
  by (cases x; cases "fst x") (auto simp: proceed_def)

lemma put_selectors [simp]:
  "a_actors (put_actor k v_actor s) = AList.update k v_actor (a_actors s)"
  "a_roots (put_actor k v_actor s) = a_roots s"
  "a_bootstraps (put_actor k v_actor s) = a_bootstraps s"
  "a_sessions (put_actor k v_actor s) = a_sessions s"
  "a_recoveries (put_actor k v_actor s) = a_recoveries s"
  "a_step_ups (put_actor k v_actor s) = a_step_ups s"
  "a_grants (put_actor k v_actor s) = a_grants s"
  "a_ceremonies (put_actor k v_actor s) = a_ceremonies s"
  "a_compositions (put_actor k v_actor s) = a_compositions s"
  "a_actors (put_root k v_root s) = a_actors s"
  "a_roots (put_root k v_root s) = AList.update k v_root (a_roots s)"
  "a_bootstraps (put_root k v_root s) = a_bootstraps s"
  "a_sessions (put_root k v_root s) = a_sessions s"
  "a_recoveries (put_root k v_root s) = a_recoveries s"
  "a_step_ups (put_root k v_root s) = a_step_ups s" "a_grants (put_root k v_root s) = a_grants s"
  "a_ceremonies (put_root k v_root s) = a_ceremonies s"
  "a_compositions (put_root k v_root s) = a_compositions s"
  "a_actors (put_bootstrap k v_bootstrap s) = a_actors s"
  "a_roots (put_bootstrap k v_bootstrap s) = a_roots s"
  "a_bootstraps (put_bootstrap k v_bootstrap s) = AList.update k v_bootstrap (a_bootstraps s)"
  "a_sessions (put_bootstrap k v_bootstrap s) = a_sessions s"
  "a_recoveries (put_bootstrap k v_bootstrap s) = a_recoveries s"
  "a_step_ups (put_bootstrap k v_bootstrap s) = a_step_ups s"
  "a_grants (put_bootstrap k v_bootstrap s) = a_grants s"
  "a_ceremonies (put_bootstrap k v_bootstrap s) = a_ceremonies s"
  "a_compositions (put_bootstrap k v_bootstrap s) = a_compositions s"
  "a_actors (put_session k v_session s) = a_actors s"
  "a_roots (put_session k v_session s) = a_roots s"
  "a_bootstraps (put_session k v_session s) = a_bootstraps s"
  "a_sessions (put_session k v_session s) = AList.update k v_session (a_sessions s)"
  "a_recoveries (put_session k v_session s) = a_recoveries s"
  "a_step_ups (put_session k v_session s) = a_step_ups s"
  "a_grants (put_session k v_session s) = a_grants s"
  "a_ceremonies (put_session k v_session s) = a_ceremonies s"
  "a_compositions (put_session k v_session s) = a_compositions s"
  "a_actors (put_recovery k v_recovery s) = a_actors s"
  "a_roots (put_recovery k v_recovery s) = a_roots s"
  "a_bootstraps (put_recovery k v_recovery s) = a_bootstraps s"
  "a_sessions (put_recovery k v_recovery s) = a_sessions s"
  "a_recoveries (put_recovery k v_recovery s) = AList.update k v_recovery (a_recoveries s)"
  "a_step_ups (put_recovery k v_recovery s) = a_step_ups s"
  "a_grants (put_recovery k v_recovery s) = a_grants s"
  "a_ceremonies (put_recovery k v_recovery s) = a_ceremonies s"
  "a_compositions (put_recovery k v_recovery s) = a_compositions s"
  "a_actors (put_step_up k v_step_up s) = a_actors s"
  "a_roots (put_step_up k v_step_up s) = a_roots s"
  "a_bootstraps (put_step_up k v_step_up s) = a_bootstraps s"
  "a_sessions (put_step_up k v_step_up s) = a_sessions s"
  "a_recoveries (put_step_up k v_step_up s) = a_recoveries s"
  "a_step_ups (put_step_up k v_step_up s) = AList.update k v_step_up (a_step_ups s)"
  "a_grants (put_step_up k v_step_up s) = a_grants s"
  "a_ceremonies (put_step_up k v_step_up s) = a_ceremonies s"
  "a_compositions (put_step_up k v_step_up s) = a_compositions s"
  "a_actors (put_grant k v_grant s) = a_actors s" "a_roots (put_grant k v_grant s) = a_roots s"
  "a_bootstraps (put_grant k v_grant s) = a_bootstraps s"
  "a_sessions (put_grant k v_grant s) = a_sessions s"
  "a_recoveries (put_grant k v_grant s) = a_recoveries s"
  "a_step_ups (put_grant k v_grant s) = a_step_ups s"
  "a_grants (put_grant k v_grant s) = AList.update k v_grant (a_grants s)"
  "a_ceremonies (put_grant k v_grant s) = a_ceremonies s"
  "a_compositions (put_grant k v_grant s) = a_compositions s"
  "a_actors (put_ceremony k v_ceremony s) = a_actors s"
  "a_roots (put_ceremony k v_ceremony s) = a_roots s"
  "a_bootstraps (put_ceremony k v_ceremony s) = a_bootstraps s"
  "a_sessions (put_ceremony k v_ceremony s) = a_sessions s"
  "a_recoveries (put_ceremony k v_ceremony s) = a_recoveries s"
  "a_step_ups (put_ceremony k v_ceremony s) = a_step_ups s"
  "a_grants (put_ceremony k v_ceremony s) = a_grants s"
  "a_ceremonies (put_ceremony k v_ceremony s) = AList.update k v_ceremony (a_ceremonies s)"
  "a_compositions (put_ceremony k v_ceremony s) = a_compositions s"
  by (simp_all add: put_actor_def put_root_def put_bootstrap_def put_session_def put_recovery_def
      put_step_up_def put_grant_def put_ceremony_def)

lemma sweep_selectors [simp]:
  "a_actors (consume_actor_recoveries a now s) = a_actors s"
  "a_actors (retire_actor_authority a now s) = a_actors s"
  "a_roots (retire_actor_authority a now s) = a_roots s"
  "a_bootstraps (retire_actor_authority a now s) = a_bootstraps s"
  "a_grants (retire_actor_authority a now s) = a_grants s"
  "a_crash_once (retire_actor_authority a now s) = a_crash_once s"
  "gr_evidence_id (grant_of u) = su_handle u"
  by (simp_all add: consume_actor_recoveries_def retire_actor_authority_def grant_of_def)

lemma observed_selectors:
  assumes "observe_actor a now s = (Inr u, s')"
  shows "a_sessions s' = a_sessions s" "a_step_ups s' = a_step_ups s" "a_recoveries s' = a_recoveries s"
    "a_bootstraps s' = a_bootstraps s" "a_roots s' = a_roots s" "a_grants s' = a_grants s"
    "a_ceremonies s' = a_ceremonies s" "a_compositions s' = a_compositions s"
  using observe_actor_Inr [OF assms] by auto

lemma authenticate_Inr:
  assumes "authenticate_locked c d now s = (Inr x, s')"
  shows "map_of (a_sessions s) (oc_handle c) = Some x" and "a_sessions s' = a_sessions s"
    and "a_step_ups s' = a_step_ups s" and "a_grants s' = a_grants s" and "a_recoveries s' = a_recoveries s"
    and "a_bootstraps s' = a_bootstraps s" and "a_roots s' = a_roots s"
    and "a_ceremonies s' = a_ceremonies s"
  using assms
  by (auto simp: authenticate_locked_def proceed_Inr the_actor_Inr time_denial_def
      split: option.splits if_splits dest!: observe_actor_Inr)


section \<open>Every operation ages\<close>

lemma ends_authenticate:
  assumes "advances N s0 s"
  shows "ends (advances N s0) (authenticate_locked c d now s)"
  using assms unfolding authenticate_locked_def
  by (auto intro!: ends_rules split: option.splits)

lemma ends_create_step_up:
  assumes "advances N s0 s" and "su_handle u \<in> N"
  shows "ends (advances N s0) (create_step_up c d now u s)"
  using assms unfolding create_step_up_def Let_def
  by (auto intro!: ends_proceed ends_authenticate advances_new)

lemma ends_rotate:
  assumes "advances N s0 s" and "ss_handle x \<in> N"
  shows "ends (advances N s0) (rotate_session c d now x s)"
  using assms unfolding rotate_session_def Let_def
  by (auto intro!: ends_proceed ends_authenticate advances_new advances_sweeps advances_aged
      simp: authenticate_Inr)

lemma ends_revoke:
  assumes "advances N s0 s"
  shows "ends (advances N s0) (revoke_session c d now s)"
  using assms unfolding revoke_session_def
  by (auto intro!: ends_proceed ends_authenticate advances_sweeps advances_aged
      simp: authenticate_Inr)

lemma ends_authorize:
  assumes "advances N s0 s"
  shows "ends (advances N s0) (authorize_grant c d g p now s)"
  using assms unfolding authorize_grant_def
  by (auto intro!: ends_rules ends_authenticate advances_aged split: option.splits
      simp: authenticate_Inr the_actor_Inr)

lemma ends_create_authenticated_bootstrap:
  assumes "advances N s0 s" and "bs_handle b \<in> N"
  shows "ends (advances N s0) (create_authenticated_bootstrap c d g b now s)"
  using assms unfolding create_authenticated_bootstrap_def
  by (auto intro!: ends_proceed ends_authorize advances_new advances_sweeps)

lemma ends_renew_recovery:
  assumes "advances N s0 s" and "rv_handle v \<in> N"
  shows "ends (advances N s0) (renew_recovery c d g v now s)"
  using assms unfolding renew_recovery_def Let_def
  by (auto intro!: ends_rules ends_authorize advances_new advances_sweeps)

lemma ends_revoke_all:
  assumes "advances N s0 s" and "rv_handle v \<in> N"
  shows "ends (advances N s0) (revoke_all_authenticated c d g v now s)"
  using assms unfolding revoke_all_authenticated_def Let_def
  by (auto intro!: ends_rules ends_authorize advances_new advances_sweeps advances_aged
      simp: the_actor_Inr)

lemma ends_create_root_bootstrap:
  assumes "advances N s0 s" and "bs_handle b \<in> N"
  shows "ends (advances N s0) (create_root_bootstrap r d b now s)"
  using assms unfolding create_root_bootstrap_def
  by (auto intro!: ends_rules advances_new advances_sweeps)

lemma ends_create_reprovision_bootstrap:
  assumes "advances N s0 s" and "bi_handle i \<in> N"
  shows "ends (advances N s0) (create_reprovision_bootstrap c d i now s)"
  using assms unfolding create_reprovision_bootstrap_def Let_def
  by (auto intro!: ends_rules advances_new advances_sweeps split: option.splits)

lemma advances_cancel:
  assumes "advances N s0 s"
  shows "advances N s0 (cancel_bootstrap k now s)"
  using assms by (auto simp: cancel_bootstrap_def intro: advances_bootstrap split: option.splits)

lemma ends_emergency:
  assumes "advances N s0 s"
  shows "ends (advances N s0) (emergency_revoke r d now s)"
  using assms unfolding emergency_revoke_def Let_def validate_root_def
  by (auto intro!: ends_rules advances_sweeps advances_aged
      simp: the_actor_Inr observed_selectors split: option.splits if_splits)

lemma ends_consume_step_up:
  assumes "wf_store s"
  shows "ends (advances N s) (consume_step_up ch cd c d a p q sc now s)"
proof -
  have "su_handle x = oc_handle ch \<and> (su_consumed x \<or> oc_handle ch \<in> unspent s)"
    if "map_of (a_step_ups s) (oc_handle ch) = Some x" for x
    using that assms by (auto simp: wf_store_def unspent_def dest: indexed_lookup)
  then show ?thesis
    using advances_refl [OF assms, of N] unfolding consume_step_up_def Let_def
    by (auto intro!: ends_rules ends_authenticate advances_aged advances_new_grant
        simp: authenticate_Inr the_actor_Inr crash_Inr split: option.splits)
qed

lemma ends_recover:
  assumes "advances N s0 s" and "si_handle i \<in> N" and "vi_handle j \<in> N"
  shows "ends (advances N s0) (recover c d now i j s)"
  using assms unfolding recover_def Let_def
  by (auto intro!: ends_rules advances_new advances_sweeps advances_aged
      simp: the_actor_Inr observed_selectors crash_Inr split: option.splits)

lemma ends_exchange:
  assumes "advances N s0 s" and "ss_handle x \<in> N" and "rv_handle v \<in> N"
  shows "ends (advances N s0) (exchange_bootstrap k d now x v s)"
  using assms unfolding exchange_bootstrap_def Let_def
  by (auto intro!: ends_rules advances_issue advances_aged
      simp: the_actor_Inr observed_selectors crash_Inr split: option.splits)

lemma ends_collect:
  assumes "advances N s0 s"
  shows "ends (advances N s0) (auth_garbage_collect now retention s)"
proof -
  have sub: "grows le M d0 (filter P d)" if "grows le M d0 d" and "indexed f d"
    for le :: "'v \<Rightarrow> 'v \<Rightarrow> bool" and M :: "uuid set" and d0 d P and f :: "'v \<Rightarrow> uuid"
    using that by (blast intro: grows_sub indexed_sub)
  show ?thesis
    using assms unfolding auth_garbage_collect_def Let_def split_beta
    by (auto simp: ends_def advances_def wf_store_def gc_ceremonies_def Let_def intro: sub indexed_filter)
qed

lemma ceremony_selectors [simp]:
  "a_actors (trim_tombstones h n s) = a_actors s" "a_roots (trim_tombstones h n s) = a_roots s"
  "a_bootstraps (trim_tombstones h n s) = a_bootstraps s"
  "a_actors (snd (gc_ceremonies now s)) = a_actors s" "a_roots (snd (gc_ceremonies now s)) = a_roots s"
  "a_bootstraps (snd (gc_ceremonies now s)) = a_bootstraps s"
  by (simp_all add: trim_tombstones_def gc_ceremonies_def Let_def)

lemma ends_ceremony:
  assumes "advances N s0 s"
  shows "ends (advances N s0) (create_reprovision_ceremony H sv sd op od k i now n m r s)"
  using assms unfolding create_reprovision_ceremony_def Let_def
  by (auto split: option.splits)

lemma ends_exchange_reprovision:
  assumes "advances N s0 s" and "ss_handle x \<in> N" and "rv_handle v \<in> N" and "ri_handle r \<in> N"
  shows "ends (advances N s0) (exchange_reprovision_bootstrap H k d sv sd ce cd now x v r n m s)"
  using assms unfolding exchange_reprovision_bootstrap_def Let_def
  by (auto intro!: ends_rules advances_new advances_issue advances_sweeps advances_aged
      simp: the_actor_Inr observed_selectors crash_Inr split: option.splits)

lemma advances_initialize_roots:
  assumes "advances N s0 s" and "rr_handle ` set records \<subseteq> N"
  shows "advances N s0 (s\<lparr>a_roots := fold (\<lambda>r d. AList.update (rr_handle r) r d) records (a_roots s)\<rparr>)"
  using assms
proof (induction records arbitrary: s)
  case (Cons r records)
  then have "advances N s0 (put_root (rr_handle r) r s)"
    by (simp add: advances_new)
  from Cons.IH [OF this] Cons.prems show ?case
    by (simp add: put_root_def)
qed simp

lemma advances_new_actor:
  assumes "advances N s0 s" and "k \<in> N" and "map_of (a_actors s) k = None" and "ac_actor_id a = k"
  shows "advances N s0 (put_actor k a s)"
  using assms
  by (simp add: advances_def wf_store_def put_actor_def indexed_update grows_new persists_fresh)

lemma guard_Inr: "(if c then (Inl e, s) else x) = (Inr u, s') \<longleftrightarrow> \<not> c \<and> x = (Inr u, s')"
  by simp

lemma guard_Inl:
  "(if c then (Inl e, s) else x) = (Inl e', s') \<Longrightarrow> (x = (Inl e', s') \<Longrightarrow> s' = s) \<Longrightarrow> s' = s"
  by (simp split: if_splits)

lemma initialize_Inr:
  assumes "initialize_installation inst actor profile records op sv now s = (Inr u, s')"
  shows "actor \<notin> keys (a_actors s)"
    and "\<exists>d e. s' = put_actor actor \<lparr>ac_actor_id = actor, ac_profile_id = profile, ac_epoch = 1,
           ac_last_observed = now, ac_initialized = False\<rparr>
           (s\<lparr>a_roots := fold (\<lambda>r d. AList.update (rr_handle r) r d) records (a_roots s)\<rparr>)
             \<lparr>a_installation_actors := d, a_compositions := e\<rparr>"
proof -
  note ok = assms [unfolded initialize_installation_def Let_def guard_Inr prod.inject]
  show "actor \<notin> keys (a_actors s)" using conjunct1 [OF ok] by simp
  note eq = conjunct2 [OF conjunct2 [OF conjunct2 [OF conjunct2 [OF conjunct2 [OF conjunct2
    [OF conjunct2 [OF conjunct2 [OF conjunct2 [OF ok]]]]]]]]]
  show "\<exists>d e. s' = put_actor actor \<lparr>ac_actor_id = actor, ac_profile_id = profile, ac_epoch = 1,
           ac_last_observed = now, ac_initialized = False\<rparr>
           (s\<lparr>a_roots := fold (\<lambda>r d. AList.update (rr_handle r) r d) records (a_roots s)\<rparr>)
             \<lparr>a_installation_actors := d, a_compositions := e\<rparr>"
    unfolding eq [symmetric] put_actor_def by (intro exI auth_state.equality) simp_all
qed

lemma initialize_Inl: "initialize_installation inst actor profile records op sv now s = (Inl e, s') \<Longrightarrow> s' = s"
  unfolding initialize_installation_def Let_def by ((erule guard_Inl)+, simp)

lemma advances_registry [simp]:
  "advances N s0 (s\<lparr>a_installation_actors := d\<rparr>) = advances N s0 s"
  "advances N s0 (s\<lparr>a_compositions := e\<rparr>) = advances N s0 s"
  by (simp_all add: advances_def wf_store_def)

lemma ends_initialize:
  assumes "advances N s0 s" and "actor \<in> N" and "rr_handle ` set records \<subseteq> N"
  shows "ends (advances N s0) (initialize_installation inst actor profile records op sv now s)"
proof (cases "initialize_installation inst actor profile records op sv now s")
  case (Pair r s')
  show ?thesis
  proof (cases r)
    case (Inl e)
    then show ?thesis using Pair assms(1) initialize_Inl by (metis ends_simps)
  next
    case (Inr u)
    note ok = initialize_Inr [OF Pair [unfolded Inr]]
    have "map_of (a_actors s) actor = None"
      using ok(1) by (simp add: map_of_eq_None_iff)
    then have "advances N s0 (put_actor actor a
        (s\<lparr>a_roots := fold (\<lambda>r d. AList.update (rr_handle r) r d) records (a_roots s)\<rparr>))"
      if "ac_actor_id a = actor" for a
      using that assms by (intro advances_new_actor advances_initialize_roots) simp_all
    then show ?thesis
      using ok(2) Pair by (elim exE) (simp add: ends_def)
  qed
qed

theorem decide_advances:
  assumes "wf_store s"
  shows "advances (set (new_handles r)) s (snd (decide H now r s))"
  using advances_refl [OF assms, of "set (new_handles r)"]
  by (cases r)
    (simp_all flip: ends_def add: authenticate_session_def validate_grant_def arm_crash_once_def
      advances_cancel assms image_subset_iff
      ends_initialize ends_create_root_bootstrap ends_create_authenticated_bootstrap
      ends_create_reprovision_bootstrap ends_exchange ends_ceremony ends_exchange_reprovision
      ends_authenticate ends_create_step_up ends_consume_step_up ends_rotate ends_revoke
      ends_renew_recovery ends_revoke_all ends_emergency ends_recover ends_authorize ends_collect)

end
