(* ===== verification/Auth_Reach.thy ===== *)
theory Auth_Reach
  imports Auth_Ageing
begin

text \<open>
  Runs of the decision store: any sequence of requests at any clock readings, from any client,
  in which newly issued handles are fresh (\<^verbatim>\<open>OpaqueId.new()\<close> draws random UUIDs).  A run ages
  every record, so what is spent, revoked or cut off stays so; these facts are the basis of the
  guarantees.
\<close>


section \<open>Runs\<close>

inductive auth_steps ::
    "(bytes \<Rightarrow> bytes) \<Rightarrow> auth_state \<Rightarrow> uuid set \<Rightarrow> auth_state \<Rightarrow> uuid set \<Rightarrow> bool" for H where
  auth_refl: "auth_steps H s U s U"
| auth_step: "auth_steps H s U s1 U1 \<Longrightarrow> distinct (new_handles r) \<Longrightarrow> set (new_handles r) \<inter> U1 = {} \<Longrightarrow>
     auth_steps H s U (snd (decide H now r s1)) (U1 \<union> set (new_handles r))"

abbreviation auth_reachable :: "(bytes \<Rightarrow> bytes) \<Rightarrow> auth_state \<Rightarrow> uuid set \<Rightarrow> bool" where
  "auth_reachable H s U \<equiv> auth_steps H empty_store {} s U"

lemma auth_steps_trans:
  assumes "auth_steps H s1 U1 s2 U2" and "auth_steps H s0 U0 s1 U1"
  shows "auth_steps H s0 U0 s2 U2"
  using assms by (induction rule: auth_steps.induct) (auto intro: auth_step)

lemma auth_steps_grow: "auth_steps H s U s' U' \<Longrightarrow> U \<subseteq> U'"
  by (induction rule: auth_steps.induct) auto

lemma grows_trans:
  assumes "grows le N d0 d1" and "grows le M d1 d2" and "transp le"
  shows "grows le (N \<union> M) d0 d2"
  unfolding grows_def
proof (intro allI impI)
  fix k v assume "map_of d2 k = Some v"
  then consider "k \<in> M" | u where "map_of d1 k = Some u" and "le u v"
    using assms(2) unfolding grows_def by blast
  then show "k \<in> N \<union> M \<or> (\<exists>u. map_of d0 k = Some u \<and> le u v)"
    using assms(1,3) unfolding grows_def by cases (blast dest: transpD)+
qed

lemma grows_mono: "grows le N d0 d1 \<Longrightarrow> N \<subseteq> M \<Longrightarrow> grows le M d0 d1"
  unfolding grows_def by blast

lemma persists_trans:
  assumes "persists le d0 d1" and "persists le d1 d2" and "transp le"
  shows "persists le d0 d2"
  using assms unfolding persists_def by (blast dest: transpD)

lemma step_up_le_consumed: "step_up_le x y \<Longrightarrow> su_consumed x \<Longrightarrow> su_consumed y"
  by (simp add: step_up_le_def)

lemma advances_unspent: "advances N s0 s \<Longrightarrow> unspent s \<subseteq> N \<union> unspent s0"
  unfolding advances_def grows_def unspent_def by (elim conjE) (blast dest: step_up_le_consumed)

lemma advances_trans:
  assumes "advances N s0 s1" and "advances M s1 s2"
  shows "advances (N \<union> M) s0 s2"
proof -
  have "grows grant_le (N \<union> unspent s0 \<union> (M \<union> unspent s1)) (a_grants s0) (a_grants s2)"
    using assms unfolding advances_def by (elim conjE) (erule (1) grows_trans, simp)
  moreover have "N \<union> unspent s0 \<union> (M \<union> unspent s1) \<subseteq> N \<union> M \<union> unspent s0"
    using advances_unspent [OF assms(1)] by blast
  ultimately have "grows grant_le (N \<union> M \<union> unspent s0) (a_grants s0) (a_grants s2)"
    by (rule grows_mono)
  then show ?thesis
    using assms unfolding advances_def
    by (elim conjE, intro conjI) (assumption | (erule (1) grows_trans, simp) | (erule (1) persists_trans, simp))+
qed

lemma advances_mono: "advances N s0 s \<Longrightarrow> N \<subseteq> M \<Longrightarrow> advances M s0 s"
  by (auto simp: advances_def intro: grows_mono)

theorem auth_steps_advances:
  assumes "auth_steps H s U s' U'" and "wf_store s"
  shows "advances (U' - U) s s'"
  using assms
proof (induction rule: auth_steps.induct)
  case (auth_refl s U)
  then show ?case by (simp add: advances_refl)
next
  case (auth_step s U s1 U1 r now)
  have "advances (U1 - U \<union> set (new_handles r)) s (snd (decide H now r s1))"
    using auth_step by (auto intro!: advances_trans decide_advances advances_wf)
  moreover have "U1 - U \<union> set (new_handles r) \<subseteq> U1 \<union> set (new_handles r) - U"
    using auth_step.hyps auth_steps_grow [OF auth_step.hyps(1)] by blast
  ultimately show ?case by (rule advances_mono)
qed

lemma reachable_wf: "auth_reachable H s U \<Longrightarrow> wf_store s"
  using auth_steps_advances [of H empty_store "{}" s U] wf_empty_store advances_wf by blast


section \<open>Every record lies under an issued handle\<close>

definition issued :: "uuid set \<Rightarrow> auth_state \<Rightarrow> bool" where
  "issued U s \<longleftrightarrow> keys (a_actors s) \<subseteq> U \<and> keys (a_roots s) \<subseteq> U \<and> keys (a_bootstraps s) \<subseteq> U \<and>
     keys (a_sessions s) \<subseteq> U \<and> keys (a_recoveries s) \<subseteq> U \<and> keys (a_step_ups s) \<subseteq> U \<and>
     keys (a_grants s) \<subseteq> U"

lemma grows_keys: "grows le N d d' \<Longrightarrow> keys d \<subseteq> U \<Longrightarrow> keys d' \<subseteq> U \<union> N"
  unfolding grows_def subset_iff keys_map_of by blast

lemma advances_issued:
  assumes "advances N s s'" and "issued U s"
  shows "issued (U \<union> N) s'"
proof -
  have "keys (a_step_ups s) \<subseteq> U" and g: "keys (a_grants s) \<subseteq> U"
    using assms(2) by (simp_all add: issued_def)
  then have "unspent s \<subseteq> U"
    unfolding unspent_def subset_iff keys_map_of by blast
  moreover have "keys (a_grants s') \<subseteq> U \<union> (N \<union> unspent s)"
    by (rule grows_keys [OF _ g, of grant_le]) (use assms(1) in \<open>simp add: advances_def\<close>)
  ultimately have "keys (a_grants s') \<subseteq> U \<union> N" by blast
  then show ?thesis
    using assms unfolding advances_def issued_def
    by (elim conjE, intro conjI) (assumption | erule (1) grows_keys)+
qed

lemma reachable_issued:
  assumes "auth_reachable H s U"
  shows "issued U s"
proof -
  have "issued {} empty_store" by (simp add: issued_def empty_store_def)
  then show ?thesis
    using advances_issued [OF auth_steps_advances [OF assms wf_empty_store], of "{}"] by simp
qed


section \<open>A grant exists only for a spent challenge\<close>

definition grants_spent :: "auth_state \<Rightarrow> bool" where
  "grants_spent s \<longleftrightarrow> (\<forall>k p x. map_of (a_grants s) k = Some p \<longrightarrow>
     map_of (a_step_ups s) k = Some x \<longrightarrow> su_consumed x)"

lemma grants_spent_cong:
  "a_grants s' = a_grants s \<Longrightarrow> a_step_ups s' = a_step_ups s \<Longrightarrow> grants_spent s' = grants_spent s"
  by (simp add: grants_spent_def)

lemma grants_spent_put [simp]:
  "grants_spent (put_actor k a s) = grants_spent s" "grants_spent (put_root k r s) = grants_spent s"
  "grants_spent (put_bootstrap k b s) = grants_spent s" "grants_spent (put_session k x s) = grants_spent s"
  "grants_spent (put_recovery k v s) = grants_spent s" "grants_spent (put_ceremony k c s) = grants_spent s"
  "grants_spent (s\<lparr>a_crash_once := p\<rparr>) = grants_spent s"
  "grants_spent (invalidate_bootstraps i now s) = grants_spent s"
  "grants_spent (consume_actor_recoveries i now s) = grants_spent s"
  "grants_spent (trim_tombstones h n s) = grants_spent s"
  "grants_spent (snd (gc_ceremonies now s)) = grants_spent s"
  "grants_spent (issue_authority actor x v s) = grants_spent s"
  by (rule grants_spent_cong; simp add: invalidate_bootstraps_def consume_actor_recoveries_def
      trim_tombstones_def gc_ceremonies_def issue_authority_def Let_def)+

lemma grants_spent_step_up:
  assumes "grants_spent s" and "map_of (a_step_ups s) k = Some u" and "su_consumed u \<longrightarrow> su_consumed v"
  shows "grants_spent (put_step_up k v s)"
  using assms by (auto simp: grants_spent_def)

lemma grants_spent_sweep:
  assumes "grants_spent s" and "a_grants s' = a_grants s" and "a_step_ups s' = map_vals f (a_step_ups s)"
    and "\<And>x. su_consumed x \<Longrightarrow> su_consumed (f x)"
  shows "grants_spent s'"
  using assms(1,4) unfolding grants_spent_def assms(2,3) by auto

lemma grants_spent_update:
  assumes "grants_spent s"
  shows "map_of (a_step_ups s) k = Some u \<Longrightarrow> grants_spent (put_step_up k (retire_step_up now u) s)"
    and "map_of (a_step_ups s) k = Some u \<Longrightarrow> grants_spent (put_step_up k (wrong_step_up now u) s)"
    and "map_of (a_grants s) k = None \<Longrightarrow> grants_spent (put_step_up k v s)"
    and "map_of (a_grants s) k = Some p \<Longrightarrow> grants_spent (put_grant k q s)"
    and "map_of (a_step_ups s) k = Some u \<Longrightarrow> su_consumed u \<Longrightarrow> grants_spent (put_grant k q s)"
    and "grants_spent (retire_actor_authority i now s)"
    and "grants_spent (retire_session_challenges h now s)"
proof -
  show "map_of (a_step_ups s) k = Some u \<Longrightarrow> grants_spent (put_step_up k (retire_step_up now u) s)"
    by (rule grants_spent_step_up [OF assms]) (simp_all add: retire_step_up_def)
  show "map_of (a_step_ups s) k = Some u \<Longrightarrow> grants_spent (put_step_up k (wrong_step_up now u) s)"
    by (rule grants_spent_step_up [OF assms]) (simp, blast intro: step_up_le_consumed le_wrong(3))
  show "map_of (a_grants s) k = None \<Longrightarrow> grants_spent (put_step_up k v s)"
    using assms by (simp add: grants_spent_def)
  show "map_of (a_grants s) k = Some p \<Longrightarrow> grants_spent (put_grant k q s)"
    using assms unfolding grants_spent_def by (simp split: if_splits) blast
  show "map_of (a_step_ups s) k = Some u \<Longrightarrow> su_consumed u \<Longrightarrow> grants_spent (put_grant k q s)"
    using assms unfolding grants_spent_def by (simp split: if_splits)
  show "grants_spent (retire_actor_authority i now s)"
    by (rule grants_spent_sweep [OF assms, where f = "\<lambda>x. if su_actor_id x = i then retire_step_up now x else x"])
      (simp_all add: retire_actor_authority_def retire_step_up_def)
  show "grants_spent (retire_session_challenges h now s)"
    by (rule grants_spent_sweep [OF assms, where f = "\<lambda>x. if su_session_id x = h then retire_step_up now x else x"])
      (simp_all add: retire_session_challenges_def retire_step_up_def)
qed

lemma ends_grants_observe: "grants_spent s \<Longrightarrow> ends grants_spent (observe_actor a now s)"
  by (auto simp: observe_actor_def grants_spent_def split: option.split)

lemma ends_grants_crash: "grants_spent s \<Longrightarrow> ends grants_spent (crash_if_armed p s)"
  by (auto simp: crash_if_armed_def)

lemmas ends_grants = ends_proceed ends_the_actor ends_grants_observe ends_grants_crash

lemma ends_grants_authenticate: "grants_spent s \<Longrightarrow> ends grants_spent (authenticate_locked c d now s)"
  unfolding authenticate_locked_def by (auto intro!: ends_grants split: option.splits)

lemma ends_grants_authorize: "grants_spent s \<Longrightarrow> ends grants_spent (authorize_grant c d g p now s)"
  unfolding authorize_grant_def
  by (auto intro!: ends_grants ends_grants_authenticate grants_spent_update(4) split: option.splits
      simp: authenticate_Inr the_actor_Inr)

lemma ends_grants_sessions:
  assumes "grants_spent s"
  shows "map_of (a_grants s) (su_handle u) = None \<Longrightarrow> ends grants_spent (create_step_up c d now u s)"
    and "ends grants_spent (rotate_session c d now x s)"
    and "ends grants_spent (revoke_session c d now s)"
  using assms unfolding create_step_up_def rotate_session_def revoke_session_def Let_def
  by (auto intro!: ends_grants ends_grants_authenticate grants_spent_update(3,7) simp: authenticate_Inr)

lemma ends_grants_authorized:
  assumes "grants_spent s"
  shows "ends grants_spent (create_authenticated_bootstrap c d g b now s)"
    and "ends grants_spent (renew_recovery c d g v now s)"
    and "ends grants_spent (revoke_all_authenticated c d g v now s)"
  using assms
  unfolding create_authenticated_bootstrap_def renew_recovery_def revoke_all_authenticated_def Let_def
  by (auto intro!: ends_grants ends_grants_authorize grants_spent_update(6))

lemma ends_grants_roots:
  assumes "grants_spent s"
  shows "ends grants_spent (create_root_bootstrap r d b now s)"
    and "ends grants_spent (create_reprovision_bootstrap c d i now s)"
    and "ends grants_spent (emergency_revoke r d now s)"
    and "grants_spent (cancel_bootstrap k now s)"
  using assms
  unfolding create_root_bootstrap_def create_reprovision_bootstrap_def emergency_revoke_def
    cancel_bootstrap_def Let_def validate_root_def
  by (auto intro!: ends_grants grants_spent_update(6) split: option.splits)

lemma ends_grants_exchange:
  assumes "grants_spent s"
  shows "ends grants_spent (exchange_bootstrap k d now x v s)"
    and "ends grants_spent (recover c d now i j s)"
  using assms unfolding exchange_bootstrap_def recover_def Let_def
  by (auto intro!: ends_grants grants_spent_update(6) split: option.splits)

lemma ends_grants_ceremonies:
  assumes "grants_spent s"
  shows "ends grants_spent (create_reprovision_ceremony H sv sd op od k i now n m r s)"
    and "ends grants_spent (exchange_reprovision_bootstrap H k d sv sd ce cd now x v q n m s)"
  using assms unfolding create_reprovision_ceremony_def exchange_reprovision_bootstrap_def Let_def
  by (auto intro!: ends_grants grants_spent_update(6) split: option.splits)

lemma ends_grants_consume:
  assumes "grants_spent s" and "wf_store s"
  shows "ends grants_spent (consume_step_up ch cd c d a p q sc now s)"
proof -
  have "su_handle (retire_step_up now x) = oc_handle ch"
    if "map_of (a_step_ups s) (oc_handle ch) = Some x" for x
    using that assms(2) by (auto simp: wf_store_def dest: indexed_lookup)
  moreover have "su_consumed (retire_step_up now x)" for x
    by (simp add: retire_step_up_def)
  note retired = grants_spent_update(5) [OF _ _ this]
  ultimately show ?thesis
    using assms(1) unfolding consume_step_up_def Let_def
    by (auto intro!: ends_grants ends_grants_authenticate grants_spent_update(1,2) retired
        simp: authenticate_Inr the_actor_Inr crash_Inr split: option.splits)
qed

lemma ends_grants_collect:
  assumes "grants_spent s" and "wf_store s"
  shows "ends grants_spent (auth_garbage_collect now retention s)"
  using assms unfolding auth_garbage_collect_def Let_def split_beta
  by (auto simp: grants_spent_def wf_store_def gc_ceremonies_def Let_def dest!: indexed_sub)

lemma decide_grants_spent:
  assumes "grants_spent s" and "wf_store s" and "set (new_handles r) \<inter> keys (a_grants s) = {}"
  shows "grants_spent (snd (decide H now r s))"
proof (cases r)
  case (Initialize inst actor profile records op sv)
  let ?x = "initialize_installation inst actor profile records op sv now s"
  have "a_grants (snd ?x) = a_grants s \<and> a_step_ups (snd ?x) = a_step_ups s"
  proof (cases "fst ?x")
    case (Inl e)
    then show ?thesis using initialize_Inl [of inst actor profile records op sv now s e "snd ?x"]
      by (simp add: prod_eq_iff)
  next
    case (Inr u)
    then show ?thesis using initialize_Inr(2) [of inst actor profile records op sv now s u "snd ?x"]
      by (auto simp: prod_eq_iff)
  qed
  then show ?thesis
    using assms(1) Initialize by (simp add: grants_spent_cong [of "snd ?x" s])
qed (use assms in \<open>simp_all flip: ends_def add: authenticate_session_def validate_grant_def arm_crash_once_def
      map_of_eq_None_iff ends_grants_sessions ends_grants_authorized ends_grants_roots
      ends_grants_exchange ends_grants_ceremonies ends_grants_consume ends_grants_collect
      ends_grants_authenticate ends_grants_authorize\<close>)

lemma reachable_grants_spent:
  assumes "auth_reachable H s U"
  shows "grants_spent s"
proof -
  have "auth_steps H s0 U0 s U \<Longrightarrow> auth_reachable H s0 U0 \<Longrightarrow> grants_spent s0 \<Longrightarrow> grants_spent s" for s0 U0
  proof (induction rule: auth_steps.induct)
    case (auth_step s U s1 U1 r now)
    have "auth_reachable H s1 U1" using auth_step by (blast intro: auth_steps_trans)
    then have "wf_store s1" and "keys (a_grants s1) \<subseteq> U1"
      using reachable_wf reachable_issued by (auto simp: issued_def)
    with auth_step show ?case by (auto intro!: decide_grants_spent)
  qed
  moreover have "grants_spent empty_store" by (simp add: grants_spent_def empty_store_def)
  ultimately show ?thesis using assms by (blast intro: auth_refl)
qed

end
