(* ===== verification/Auth_Single_Use.thy ===== *)
theory Auth_Single_Use
  imports Auth_Reach
begin

text \<open>
  Single use of bootstraps, reprovision bootstraps, recovery proofs, step-up challenges and
  grants over arbitrary runs: one contract, the locale \<open>single_use\<close>, interpreted on the
  operation that presents each kind of proof.
\<close>


section \<open>The single-use contract\<close>

definition sound :: "auth_state \<Rightarrow> bool" where
  "sound s \<longleftrightarrow> wf_store s \<and> grants_spent s"

lemma reachable_sound: "auth_reachable H s U \<Longrightarrow> sound s"
  by (simp add: sound_def reachable_wf reachable_grants_spent)

text \<open>
  \<open>usable k s\<close>: a proof under handle \<open>k\<close> could still be accepted; \<open>present q k s\<close>: presenting
  it; \<open>introduced q\<close>: the handles of what the presentation issues in exchange.
\<close>

locale single_use =
  fixes usable :: "uuid \<Rightarrow> auth_state \<Rightarrow> bool"
    and present :: "'q \<Rightarrow> uuid \<Rightarrow> auth_state \<Rightarrow> 'v decision"
    and introduced :: "'q \<Rightarrow> uuid set"
  assumes ages: "advances N s s' \<Longrightarrow> usable k s' \<Longrightarrow> k \<in> N \<or> usable k s"
    and needs: "present q k s = (Inr v, s') \<Longrightarrow> usable k s"
    and keeps: "sound s \<Longrightarrow> wf_store (snd (present q k s))"
    and spends: "sound s \<Longrightarrow> present q k s = (Inr v, s') \<Longrightarrow> k \<notin> introduced q \<Longrightarrow> \<not> usable k s'"
    and known: "issued U s \<Longrightarrow> usable k s \<Longrightarrow> k \<in> U"
begin

lemma spent_stays:
  assumes "auth_steps H s U s' U'" and "wf_store s" and "k \<in> U" and "\<not> usable k s"
  shows "\<not> usable k s'"
  using ages [OF auth_steps_advances [OF assms(1,2)], of k] assms(3,4) by blast

lemma refused_when_spent: "\<not> usable k s \<Longrightarrow> \<exists>e. fst (present q k s) = Inl e"
  using needs [of q k s] by (cases "present q k s"; cases "fst (present q k s)") auto

lemma once:
  assumes "auth_reachable H s U" and "present q k s = (Inr v, s1)" and "introduced q \<inter> U = {}"
    and "auth_steps H s1 U1 s2 U2" and "U \<subseteq> U1"
  shows "\<exists>e. fst (present q' k s2) = Inl e"
proof -
  have k: "k \<in> U"
    using known [OF reachable_issued [OF assms(1)] needs [OF assms(2)]] .
  have "sound s" using assms(1) by (rule reachable_sound)
  then have "wf_store s1" and "\<not> usable k s1"
    using keeps [of s q k] spends [of s q k v s1] assms(2,3) k by auto
  then show ?thesis
    using spent_stays [OF assms(4)] refused_when_spent assms(5) k by blast
qed

end


section \<open>Its instances\<close>

definition bootstrap_usable :: "uuid \<Rightarrow> auth_state \<Rightarrow> bool" where
  "bootstrap_usable k s \<longleftrightarrow> (\<exists>b. map_of (a_bootstraps s) k = Some b \<and> \<not> bs_consumed b)"

definition recovery_usable :: "uuid \<Rightarrow> auth_state \<Rightarrow> bool" where
  "recovery_usable k s \<longleftrightarrow> (\<exists>x. map_of (a_recoveries s) k = Some x \<and> \<not> rv_consumed x)"

definition step_up_usable :: "uuid \<Rightarrow> auth_state \<Rightarrow> bool" where
  "step_up_usable k s \<longleftrightarrow> k \<in> unspent s"

definition grant_usable :: "uuid \<Rightarrow> auth_state \<Rightarrow> bool" where
  "grant_usable k s \<longleftrightarrow>
     (\<exists>p. map_of (a_grants s) k = Some p \<and> gp_used_at p = None) \<or> k \<in> unspent s"

lemma usable_ages:
  assumes "advances N s s'"
  shows "bootstrap_usable k s' \<Longrightarrow> k \<in> N \<or> bootstrap_usable k s"
    and "recovery_usable k s' \<Longrightarrow> k \<in> N \<or> recovery_usable k s"
    and "step_up_usable k s' \<Longrightarrow> k \<in> N \<or> step_up_usable k s"
    and "grant_usable k s' \<Longrightarrow> k \<in> N \<or> grant_usable k s"
proof -
  note g = assms [unfolded advances_def grows_def]
  show "bootstrap_usable k s' \<Longrightarrow> k \<in> N \<or> bootstrap_usable k s"
    using g unfolding bootstrap_usable_def bootstrap_le_def by (elim conjE) metis
  show "recovery_usable k s' \<Longrightarrow> k \<in> N \<or> recovery_usable k s"
    using g unfolding recovery_usable_def recovery_le_def by (elim conjE) metis
  show "step_up_usable k s' \<Longrightarrow> k \<in> N \<or> step_up_usable k s"
    using advances_unspent [OF assms] unfolding step_up_usable_def by blast
  show "grant_usable k s' \<Longrightarrow> k \<in> N \<or> grant_usable k s"
    using g advances_unspent [OF assms] unfolding grant_usable_def grant_le_def
    by (elim conjE) (metis UnE subsetD)
qed

lemma usable_issued:
  assumes "issued U s"
  shows "bootstrap_usable k s \<Longrightarrow> k \<in> U" and "recovery_usable k s \<Longrightarrow> k \<in> U"
    and "step_up_usable k s \<Longrightarrow> k \<in> U" and "grant_usable k s \<Longrightarrow> k \<in> U"
  using assms
  unfolding issued_def bootstrap_usable_def recovery_usable_def step_up_usable_def grant_usable_def
    unspent_def subset_iff keys_map_of by blast+

lemma sound_keeps:
  assumes "sound s" and "ends (advances N s) x"
  shows "wf_store (snd x)"
  using assms by (auto simp: sound_def ends_def dest: advances_wf)

definition present_bootstrap where
  "present_bootstrap = (\<lambda>(d, now, x, v) k s. exchange_bootstrap k d now x v s)"

definition present_reprovision where
  "present_reprovision = (\<lambda>(H, d, sv, sd, ce, cd, now, x, v, r, n, m) k s.
     exchange_reprovision_bootstrap H k d sv sd ce cd now x v r n m s)"

definition present_recovery where
  "present_recovery = (\<lambda>(secret, d, now, i, j) k s. recover \<lparr>oc_handle = k, oc_secret = secret\<rparr> d now i j s)"

definition present_step_up where
  "present_step_up = (\<lambda>(secret, cd, c, d, a, p, q, sc, now) k s.
     consume_step_up \<lparr>oc_handle = k, oc_secret = secret\<rparr> cd c d a p q sc now s)"

definition present_grant where
  "present_grant = (\<lambda>(c, d, g, p, now) k s. authorize_grant c d (g\<lparr>gr_evidence_id := k\<rparr>) p now s)"

lemma lookup_Inr:
  "(case m of None \<Rightarrow> (Inl e, s) | Some y \<Rightarrow> f y) = (Inr v, s') \<longleftrightarrow> (\<exists>y. m = Some y \<and> f y = (Inr v, s'))"
  by (cases m) simp_all

lemma window_Inr:
  "(case time_denial now a b of Some e \<Rightarrow> (Inl (f e), g e) | None \<Rightarrow> x) = (Inr v, s') \<longleftrightarrow>
     a \<le> now \<and> now < b \<and> x = (Inr v, s')"
  by (auto simp: time_denial_def)

lemmas decision_Inr = guard_Inr lookup_Inr window_Inr proceed_Inr the_actor_Inr crash_Inr

lemma exchange_Inr:
  assumes "exchange_bootstrap k d now x v s = (Inr r, s')"
  shows "\<exists>b. map_of (a_bootstraps s) k = Some b \<and> \<not> bs_consumed b \<and> bs_digest b = d \<and>
     bs_not_before b \<le> now \<and> now < bs_expires_at b \<and> bs_root_purpose b \<noteq> Some REPROVISION \<and>
     map_of (a_bootstraps s') k = Some (retire_bootstrap now b)"
  using assms unfolding exchange_bootstrap_def Let_def decision_Inr
  by (elim exE conjE) (auto simp: issue_authority_def Let_def proceed_Inr crash_Inr split: option.splits if_splits)

lemma exchange_reprovision_Inr:
  assumes "exchange_reprovision_bootstrap H k d sv sd ce cd now x v q n m s = (Inr r, s')"
  shows "\<exists>b. map_of (a_bootstraps s) k = Some b \<and> \<not> bs_consumed b \<and> bs_digest b = d \<and>
     bs_not_before b \<le> now \<and> now < bs_expires_at b \<and> bs_root_purpose b = Some REPROVISION \<and>
     map_of (a_bootstraps s') k = Some (retire_bootstrap now b)"
  using assms
  by (auto simp: exchange_reprovision_bootstrap_def Let_def proceed_Inr the_actor_Inr crash_Inr time_denial_def
      issue_authority_def observed_selectors split: option.splits if_splits)

lemma consume_step_up_Inr:
  assumes "consume_step_up ch cd c d a p q sc now s = (Inr r, s')"
  shows "\<exists>x. map_of (a_step_ups s) (oc_handle ch) = Some x \<and> \<not> su_consumed x \<and> su_digest x = cd \<and>
     su_not_before x \<le> now \<and> now < su_expires_at x \<and> a = su_actor_id x \<and> p = su_profile_id x \<and>
     q = su_purpose x \<and> sc = su_scopes x \<and> oc_handle c = su_session_id x \<and> r = retire_step_up now x \<and>
     map_of (a_step_ups s') (oc_handle ch) = Some r \<and> authority_grant_ok (grant_of r) \<and>
     map_of (a_grants s') (su_handle x) = Some \<lparr>gp_grant = grant_of r, gp_used_at = None\<rparr>"
  using assms
  by (auto simp: consume_step_up_def Let_def proceed_Inr the_actor_Inr crash_Inr time_denial_def
      split: option.splits if_splits)

lemma authorize_Inr:
  assumes "authorize_grant c d g p now s = (Inr r, s')"
  shows "\<exists>q x s1. map_of (a_grants s) (gr_evidence_id g) = Some q \<and> gp_grant q = g \<and> gp_used_at q = None \<and>
     gr_purpose g = p \<and> gr_not_before g \<le> now \<and> now < gr_expires_at g \<and> r = g \<and>
     authenticate_locked c d now s = (Inr x, s1) \<and> gr_actor_id g = ss_actor_id x \<and>
     gr_session_id g = ss_handle x \<and>
     s' = put_grant (gr_evidence_id g) (q\<lparr>gp_used_at := Some now\<rparr>) s1"
  using assms
  by (auto simp: authorize_grant_def proceed_Inr the_actor_Inr time_denial_def
      split: option.splits if_splits)

lemma recover_Inr:
  assumes "recover c d now i j s = (Inr r, s')"
  shows "\<exists>x actor. map_of (a_recoveries s) (oc_handle c) = Some x \<and> \<not> rv_consumed x \<and> rv_digest x = d \<and>
     rv_not_before x \<le> now \<and> now < rv_expires_at x \<and> map_of (a_actors s) (rv_actor_id x) = Some actor \<and>
     rv_epoch x = ac_epoch actor \<and> ss_epoch r = ac_epoch actor + 1 \<and> ss_handle r = si_handle i"
  using assms unfolding recover_def Let_def decision_Inr
  by (auto dest!: observe_actor_Inr)

lemma recover_spends:
  assumes "recover c d now i j s = (Inr r, s')" and "wf_store s"
    and "vi_handle j \<noteq> oc_handle c"
  shows "\<not> recovery_usable (oc_handle c) s'"
  using assms unfolding recover_def Let_def decision_Inr
  by (auto dest!: observe_actor_Inr simp: recovery_usable_def retire_actor_authority_def
      consume_actor_recoveries_def retire_recovery_def wf_store_def dest!: indexed_lookup)

lemma sound_refl: "sound s \<Longrightarrow> advances UNIV s s" and sound_wf: "sound s \<Longrightarrow> wf_store s"
  by (simp_all add: sound_def advances_refl)

interpretation bootstraps: single_use bootstrap_usable present_bootstrap
  "\<lambda>(d, now, x, v). {ss_handle x, rv_handle v}"
proof
  show "wf_store (snd (present_bootstrap q k s))" if "sound s" for q k s
    by (cases q) (auto simp: present_bootstrap_def that
        intro!: sound_keeps [OF that, of UNIV] ends_exchange sound_refl)
  show "bootstrap_usable k s" if "present_bootstrap q k s = (Inr v, s')" for q k s v s'
    using that by (cases q) (auto simp: present_bootstrap_def bootstrap_usable_def dest!: exchange_Inr)
  show "\<not> bootstrap_usable k s'" if "present_bootstrap q k s = (Inr v, s')" for q k s v s'
    using that by (cases q) (auto simp: present_bootstrap_def bootstrap_usable_def retire_bootstrap_def dest!: exchange_Inr)
qed (auto dest: usable_ages usable_issued)

interpretation reprovisions: single_use bootstrap_usable present_reprovision
  "\<lambda>(H, d, sv, sd, ce, cd, now, x, v, r, n, m). {ss_handle x, rv_handle v, ri_handle r}"
proof
  show "wf_store (snd (present_reprovision q k s))" if "sound s" for q k s
    by (cases q) (auto simp: present_reprovision_def that
        intro!: sound_keeps [OF that, of UNIV] ends_exchange_reprovision sound_refl)
  show "bootstrap_usable k s" if "present_reprovision q k s = (Inr v, s')" for q k s v s'
    using that by (cases q) (auto simp: present_reprovision_def bootstrap_usable_def dest!: exchange_reprovision_Inr)
  show "\<not> bootstrap_usable k s'" if "present_reprovision q k s = (Inr v, s')" for q k s v s'
    using that by (cases q) (auto simp: present_reprovision_def bootstrap_usable_def retire_bootstrap_def dest!: exchange_reprovision_Inr)
qed (auto dest: usable_ages usable_issued)

interpretation recoveries: single_use recovery_usable present_recovery
  "\<lambda>(secret, d, now, i, j). {si_handle i, vi_handle j}"
proof
  show "wf_store (snd (present_recovery q k s))" if "sound s" for q k s
    by (cases q) (auto simp: present_recovery_def that
        intro!: sound_keeps [OF that, of UNIV] ends_recover sound_refl)
  show "recovery_usable k s" if "present_recovery q k s = (Inr v, s')" for q k s v s'
    using that by (cases q) (auto simp: present_recovery_def recovery_usable_def dest!: recover_Inr)
  show "\<not> recovery_usable k s'" if "sound s" and "present_recovery q k s = (Inr v, s')"
    and "k \<notin> (case q of (secret, d, now, i, j) \<Rightarrow> {si_handle i, vi_handle j})" for q k s v s'
    using that by (cases q) (auto simp: present_recovery_def sound_wf dest!: recover_spends)
qed (auto dest: usable_ages usable_issued)

interpretation step_ups: single_use step_up_usable present_step_up "\<lambda>_. {}"
proof
  show "wf_store (snd (present_step_up q k s))" if "sound s" for q k s
    by (cases q) (auto simp: present_step_up_def sound_wf that
        intro!: sound_keeps [OF that, of UNIV] ends_consume_step_up)
  show "step_up_usable k s" if "present_step_up q k s = (Inr v, s')" for q k s v s'
    using that
    by (cases q) (auto simp: present_step_up_def step_up_usable_def unspent_def dest!: consume_step_up_Inr)
  show "\<not> step_up_usable k s'" if "present_step_up q k s = (Inr v, s')" for q k s v s'
    using that
    by (cases q) (auto simp: present_step_up_def step_up_usable_def unspent_def retire_step_up_def
        dest!: consume_step_up_Inr)
qed (auto dest: usable_ages usable_issued)

interpretation grants: single_use grant_usable present_grant "\<lambda>_. {}"
proof
  show "wf_store (snd (present_grant q k s))" if "sound s" for q k s
    by (cases q) (auto simp: present_grant_def that
        intro!: sound_keeps [OF that, of UNIV] ends_authorize sound_refl)
  show "grant_usable k s" if "present_grant q k s = (Inr v, s')" for q k s v s'
    using that by (cases q) (auto simp: present_grant_def grant_usable_def dest!: authorize_Inr)
  show "\<not> grant_usable k s'" if "sound s" and "present_grant q k s = (Inr v, s')" for q k s v s'
    using that
    by (cases q) (auto simp: present_grant_def grant_usable_def unspent_def sound_def grants_spent_def
        authenticate_Inr dest!: authorize_Inr)
qed (auto dest: usable_ages usable_issued)

end
