(* ===== verification/Auth_Samples.thy ===== *)
theory Auth_Samples
  imports Auth_Reach
begin

text \<open>
  A concrete installation on which the guarantees of the decision store are instantiated: one
  actor with its three roots, bootstrapped into a session and a recovery proof.  Digests stand for
  secrets one to one (the hash parameter is the identity).
\<close>

abbreviation inst0 :: uuid where "inst0 \<equiv> UUID 1"
abbreviation actor0 :: uuid where "actor0 \<equiv> UUID 2"
abbreviation profile0 :: uuid where "profile0 \<equiv> UUID 3"

definition cred :: "128 word \<Rightarrow> opaque_credential" where
  "cred n = \<lparr>oc_handle = UUID n, oc_secret = [1]\<rparr>"

definition root0 :: "128 word \<Rightarrow> root_purpose \<Rightarrow> root_record" where
  "root0 n p = \<lparr>rr_handle = UUID n, rr_installation_id = inst0, rr_actor_id = actor0,
     rr_profile_id = profile0, rr_purpose = p, rr_digest = [1], rr_consumed = False, rr_retired_at = None\<rparr>"

definition cap0 :: "128 word \<Rightarrow> root_purpose \<Rightarrow> root_capability" where
  "cap0 n p = \<lparr>cap_credential = cred n, cap_installation_id = inst0, cap_actor_id = actor0,
     cap_profile_id = profile0, cap_purpose = p\<rparr>"

definition bootstrap0 :: "128 word \<Rightarrow> (uuid \<times> root_purpose) option \<Rightarrow> bootstrap_record" where
  "bootstrap0 n r = \<lparr>bs_handle = UUID n, bs_actor_id = actor0, bs_profile_id = profile0, bs_digest = [1],
     bs_not_before = 0, bs_expires_at = 100, bs_attempts = 2, bs_root_id = map_option fst r,
     bs_root_purpose = map_option snd r, bs_consumed = False, bs_retired_at = None\<rparr>"

definition session0 :: "128 word \<Rightarrow> session_record" where
  "session0 n = \<lparr>ss_handle = UUID n, ss_actor_id = actor0, ss_profile_id = profile0, ss_digest = [1],
     ss_epoch = 1, ss_not_before = 0, ss_expires_at = 100, ss_revoked = False, ss_retired_at = None\<rparr>"

definition recovery0 :: "128 word \<Rightarrow> recovery_record" where
  "recovery0 n = \<lparr>rv_handle = UUID n, rv_actor_id = actor0, rv_profile_id = profile0, rv_digest = [1],
     rv_epoch = 1, rv_not_before = 0, rv_expires_at = 100, rv_attempts = 2, rv_consumed = False,
     rv_retired_at = None\<rparr>"

definition step_up0 :: "128 word \<Rightarrow> auth_purpose \<Rightarrow> step_up_record" where
  "step_up0 n p = \<lparr>su_handle = UUID n, su_actor_id = actor0, su_profile_id = profile0,
     su_session_id = UUID 31, su_digest = [1], su_epoch = 1, su_purpose = p,
     su_scopes = {purpose_scope p}, su_not_before = 0, su_expires_at = 100, su_attempts = 2,
     su_consumed = False, su_retired_at = None\<rparr>"

lemmas sample_record_defs = cred_def root0_def cap0_def bootstrap0_def session0_def recovery0_def step_up0_def

definition roots0 :: "root_record list" where
  "roots0 = [root0 11 INITIAL_BOOTSTRAP, root0 12 EMERGENCY_REVOKE, root0 13 REPROVISION]"

definition initialize0 :: auth_request where
  "initialize0 = Initialize inst0 actor0 profile0 roots0
     \<lparr>ri_handle = UUID 14, ri_digest = [1]\<rparr> \<lparr>ri_handle = UUID 15, ri_digest = [1]\<rparr>"

definition begin0 :: auth_request where
  "begin0 = Root_Bootstrap (cap0 11 INITIAL_BOOTSTRAP) [1] (bootstrap0 21 (Some (UUID 11, INITIAL_BOOTSTRAP)))"

definition exchange0 :: auth_request where
  "exchange0 = Exchange_Bootstrap (UUID 21) [1] (session0 31) (recovery0 32)"

definition actor_at :: "int \<Rightarrow> int \<Rightarrow> bool \<Rightarrow> actor_record" where
  "actor_at epoch now i = \<lparr>ac_actor_id = actor0, ac_profile_id = profile0, ac_epoch = epoch,
     ac_last_observed = now, ac_initialized = i\<rparr>"

definition installed :: auth_state where
  "installed = \<lparr>a_actors = [(actor0, actor_at 1 0 False)], a_installation_actors = [(inst0, actor0)],
     a_roots = map (\<lambda>r. (rr_handle r, r)) roots0, a_bootstraps = [], a_sessions = [], a_recoveries = [],
     a_step_ups = [], a_grants = [],
     a_compositions = [(inst0, \<lparr>co_installation_id = inst0, co_operator_handle = UUID 14,
       co_operator_digest = [1], co_service_handle = UUID 15, co_service_digest = [1]\<rparr>)],
     a_ceremonies = [], a_crash_once = None\<rparr>"

definition started :: auth_state where
  "started = installed\<lparr>a_actors := [(actor0, actor_at 1 1 False)],
     a_bootstraps := [(UUID 21, bootstrap0 21 (Some (UUID 11, INITIAL_BOOTSTRAP)))]\<rparr>"

definition signed_in :: auth_state where
  "signed_in = installed\<lparr>a_actors := [(actor0, actor_at 1 2 True)],
     a_roots := [(UUID 11, consume_root 2 (root0 11 INITIAL_BOOTSTRAP)), (UUID 12, root0 12 EMERGENCY_REVOKE),
       (UUID 13, root0 13 REPROVISION)],
     a_bootstraps := [(UUID 21, retire_bootstrap 2 (bootstrap0 21 (Some (UUID 11, INITIAL_BOOTSTRAP))))],
     a_sessions := [(UUID 31, session0 31)], a_recoveries := [(UUID 32, recovery0 32)]\<rparr>"

definition Hid :: "bytes \<Rightarrow> bytes" where
  "Hid b = b"

lemma initialize0_decision: "decide Hid 0 initialize0 empty_store = (Inr R_Done, installed)"
  by (simp add: initialize0_def initialize_installation_def replied_def empty_store_def
      composition_handles_def roots0_def sample_record_defs installed_def actor_at_def insert_commute)

lemma begin0_decision:
  "decide Hid 1 begin0 installed = (Inr (R_Bootstrap (bootstrap0 21 (Some (UUID 11, INITIAL_BOOTSTRAP)))), started)"
  by (simp add: begin0_def create_root_bootstrap_def validate_root_def the_actor_def observe_actor_def
      invalidate_bootstraps_def put_bootstrap_def map_vals_def installed_def started_def roots0_def
      sample_record_defs actor_at_def replied_def)

lemma exchange0_decision:
  "decide Hid 2 exchange0 started = (Inr (R_Decision \<lparr>bd_actor_id = actor0, bd_profile_id = profile0,
     bd_epoch = 1, bd_replacement = None\<rparr>), signed_in)"
  by (simp add: exchange0_def exchange_bootstrap_def observe_actor_def time_denial_def the_actor_def
      Let_def crash_if_armed_def issue_authority_def put_bootstrap_def put_actor_def put_root_def
      put_session_def put_recovery_def started_def signed_in_def installed_def roots0_def
      sample_record_defs actor_at_def replied_def consume_root_def retire_bootstrap_def)


section \<open>From the signed-in state\<close>

definition signed_out :: auth_state where
  "signed_out = signed_in\<lparr>a_actors := [(actor0, actor_at 1 3 True)],
     a_sessions := [(UUID 31, retire_session 3 (session0 31))]\<rparr>"

definition challenged :: auth_state where
  "challenged = signed_in\<lparr>a_actors := [(actor0, actor_at 1 3 True)],
     a_step_ups := [(UUID 41, step_up0 41 SETUP_AUTHORITY_CHANGE)]\<rparr>"

definition grant0 :: authority_grant where
  "grant0 = grant_of (step_up0 41 SETUP_AUTHORITY_CHANGE)"

definition granted :: auth_state where
  "granted = challenged\<lparr>a_actors := [(actor0, actor_at 1 4 True)],
     a_step_ups := [(UUID 41, retire_step_up 4 (step_up0 41 SETUP_AUTHORITY_CHANGE))],
     a_grants := [(UUID 41, \<lparr>gp_grant = grant0, gp_used_at = None\<rparr>)]\<rparr>"

definition invited :: auth_state where
  "invited = granted\<lparr>a_actors := [(actor0, actor_at 1 5 True)],
     a_grants := [(UUID 41, \<lparr>gp_grant = grant0, gp_used_at = Some 5\<rparr>)],
     a_bootstraps := a_bootstraps granted @ [(UUID 51, bootstrap0 51 None)]\<rparr>"

definition cut0 :: auth_state where
  "cut0 = signed_in\<lparr>a_actors := [(actor0, actor_at 2 3 True)],
     a_roots := [(UUID 11, consume_root 2 (root0 11 INITIAL_BOOTSTRAP)),
       (UUID 12, consume_root 3 (root0 12 EMERGENCY_REVOKE)), (UUID 13, root0 13 REPROVISION)],
     a_sessions := [(UUID 31, retire_session 3 (session0 31))],
     a_recoveries := [(UUID 32, retire_recovery 3 (recovery0 32))]\<rparr>"

lemmas sample_store_defs = installed_def started_def signed_in_def signed_out_def challenged_def granted_def
  invited_def cut0_def roots0_def actor_at_def

lemmas operation_defs = observe_actor_def time_denial_def the_actor_def Let_def crash_if_armed_def
  issue_authority_def invalidate_bootstraps_def retire_session_challenges_def retire_actor_authority_def
  consume_actor_recoveries_def put_bootstrap_def put_actor_def put_root_def put_session_def
  put_recovery_def put_step_up_def put_grant_def map_vals_def consume_root_def retire_bootstrap_def
  retire_session_def retire_recovery_def retire_step_up_def replied_def authenticate_locked_def

lemma revoke0_decision: "decide Hid 3 (Revoke (cred 31) [1]) signed_in = (Inr (R_Handle (UUID 31)), signed_out)"
  by (simp add: revoke_session_def operation_defs sample_store_defs sample_record_defs)

lemma challenge0_decision:
  "decide Hid 3 (Create_Step_Up (cred 31) [1] (step_up0 41 SETUP_AUTHORITY_CHANGE)) signed_in =
     (Inr (R_Step_Up (step_up0 41 SETUP_AUTHORITY_CHANGE)), challenged)"
  by (simp add: create_step_up_def operation_defs sample_store_defs sample_record_defs)

lemma grant0_decision:
  "decide Hid 4 (Consume_Step_Up (cred 41) [1] (cred 31) [1] actor0 profile0 SETUP_AUTHORITY_CHANGE
     {CHANGE_SETUP_AUTHORITY}) challenged =
     (Inr (R_Step_Up (retire_step_up 4 (step_up0 41 SETUP_AUTHORITY_CHANGE))), granted)"
  by (simp add: consume_step_up_def operation_defs sample_store_defs sample_record_defs grant0_def
      grant_of_def authority_grant_ok_def)

lemma invite0_decision:
  "decide Hid 5 (Authenticated_Bootstrap (cred 31) [1] grant0 (bootstrap0 51 None)) granted =
     (Inr (R_Bootstrap (bootstrap0 51 None)), invited)"
  by (simp add: create_authenticated_bootstrap_def authorize_grant_def operation_defs sample_store_defs
      sample_record_defs grant0_def grant_of_def)

lemma emergency0_decision:
  "decide Hid 3 (Emergency (cap0 12 EMERGENCY_REVOKE) [1]) signed_in = (Inr (R_Epoch 2), cut0)"
  by (simp add: emergency_revoke_def validate_root_def operation_defs sample_store_defs sample_record_defs)


section \<open>Reachability\<close>

definition used0 :: "uuid set" where
  "used0 = {UUID 1, UUID 2, UUID 11, UUID 12, UUID 13, UUID 14, UUID 15}"

lemma reach_decision:
  assumes "auth_reachable H s U" and "decide H now r s = (v, s')" and "distinct (new_handles r)"
    and "set (new_handles r) \<inter> U = {}" and "U' = U \<union> set (new_handles r)"
  shows "auth_reachable H s' U'"
  using auth_step [OF assms(1,3,4), of now] assms(2,5) by simp

lemma reach_installed: "auth_reachable Hid installed used0"
  by (rule reach_decision [OF auth_refl initialize0_decision])
    (auto simp: initialize0_def roots0_def root0_def used0_def)

lemma reach_started: "auth_reachable Hid started (used0 \<union> {UUID 21})"
  by (rule reach_decision [OF reach_installed begin0_decision])
    (auto simp: begin0_def bootstrap0_def used0_def)

lemma reach_signed_in: "auth_reachable Hid signed_in (used0 \<union> {UUID 21, UUID 31, UUID 32})"
  by (rule reach_decision [OF reach_started exchange0_decision])
    (auto simp: exchange0_def session0_def recovery0_def used0_def)

lemma reach_signed_out: "auth_reachable Hid signed_out (used0 \<union> {UUID 21, UUID 31, UUID 32})"
  by (rule reach_decision [OF reach_signed_in revoke0_decision]) auto

lemma reach_challenged: "auth_reachable Hid challenged (used0 \<union> {UUID 21, UUID 31, UUID 32, UUID 41})"
  by (rule reach_decision [OF reach_signed_in challenge0_decision]) (auto simp: step_up0_def used0_def)

lemma reach_granted: "auth_reachable Hid granted (used0 \<union> {UUID 21, UUID 31, UUID 32, UUID 41})"
  by (rule reach_decision [OF reach_challenged grant0_decision]) auto

lemma reach_invited: "auth_reachable Hid invited (used0 \<union> {UUID 21, UUID 31, UUID 32, UUID 41, UUID 51})"
  by (rule reach_decision [OF reach_granted invite0_decision]) (auto simp: bootstrap0_def used0_def)

end
