(* ===== verification/Auth_Guarantees.thy ===== *)
theory Auth_Guarantees
  imports Auth_Single_Use Auth_Samples
begin

text \<open>
  The guarantees of the decision store, stated over requests and runs: when a session
  authenticates, what revocation and the epoch-advancing ceremonies cut off for good, that every
  proof is spent by its first acceptance, and that guessing is bounded.
\<close>


section \<open>Sessions\<close>

lemma refusedI: "(\<And>v s'. x = (Inr v, s') \<Longrightarrow> False) \<Longrightarrow> \<exists>e. fst x = Inl e"
  by (cases x; cases "fst x") auto

lemma refused_replied [simp]: "(\<exists>e. fst (replied f x) = Inl e) \<longleftrightarrow> (\<exists>e. fst x = Inl e)"
  by (cases x; cases "fst x") (auto simp: replied_def)

lemma accepted_replied: "replied f x = (Inr r, s') \<longleftrightarrow> (\<exists>v. x = (Inr v, s') \<and> r = f v)"
  by (cases x; cases "fst x") (auto simp: replied_def)

lemma authenticate_accepts:
  assumes "authenticate_session c d now s = (Inr x, s')"
  obtains actor where "map_of (a_sessions s) (oc_handle c) = Some x" and "ss_digest x = d"
    and "map_of (a_actors s) (ss_actor_id x) = Some actor" and "ac_last_observed actor \<le> now"
    and "ss_epoch x = ac_epoch actor" and "\<not> ss_revoked x" and "ss_not_before x \<le> now"
    and "now < ss_expires_at x" and "s' = put_actor (ss_actor_id x) (actor\<lparr>ac_last_observed := now\<rparr>) s"
  using assms unfolding authenticate_session_def authenticate_locked_def decision_Inr
  by (auto dest!: observe_actor_Inr)

text \<open>C17. Authentication succeeds exactly for a stored session whose digest matches, whose actor
  exists and has not observed a later clock, whose epoch is the actor's, which is not revoked and
  is inside its validity window; it then changes nothing but the actor's clock.\<close>

theorem authenticate_session_iff:
  "authenticate_session c d now s = (Inr x, s') \<longleftrightarrow>
     (\<exists>actor. map_of (a_sessions s) (oc_handle c) = Some x \<and> ss_digest x = d \<and>
        map_of (a_actors s) (ss_actor_id x) = Some actor \<and> ac_last_observed actor \<le> now \<and>
        ss_epoch x = ac_epoch actor \<and> \<not> ss_revoked x \<and> ss_not_before x \<le> now \<and> now < ss_expires_at x \<and>
        s' = put_actor (ss_actor_id x) (actor\<lparr>ac_last_observed := now\<rparr>) s)"
  by (auto simp: authenticate_session_def authenticate_locked_def time_denial_def observe_actor_def
      the_actor_def put_actor_def split: option.splits if_splits)

definition dead_session :: "uuid \<Rightarrow> auth_state \<Rightarrow> bool" where
  "dead_session k s \<longleftrightarrow> (\<forall>x. map_of (a_sessions s) k = Some x \<longrightarrow>
     ss_revoked x \<or> (\<exists>a. map_of (a_actors s) (ss_actor_id x) = Some a \<and> ss_epoch x < ac_epoch a))"

lemma dead_session_refused:
  "dead_session (oc_handle c) s \<Longrightarrow> \<exists>e. fst (authenticate_session c d now s) = Inl e"
  by (rule refusedI) (auto simp: dead_session_def elim!: authenticate_accepts)

lemma session_le_fields:
  "session_le x y \<Longrightarrow> ss_actor_id y = ss_actor_id x \<and> ss_epoch y = ss_epoch x \<and>
     (ss_revoked x \<longrightarrow> ss_revoked y)"
  by (cases x; cases y) (simp add: session_le_def)

lemma dead_session_stays:
  assumes "advances N s s'" and "k \<notin> N" and "dead_session k s"
  shows "dead_session k s'"
  unfolding dead_session_def
proof (intro allI impI)
  fix y assume "map_of (a_sessions s') k = Some y"
  then obtain x where x: "map_of (a_sessions s) k = Some x" and le: "session_le x y"
    using assms(1,2) unfolding advances_def grows_def by blast
  show "ss_revoked y \<or> (\<exists>a. map_of (a_actors s') (ss_actor_id y) = Some a \<and> ss_epoch y < ac_epoch a)"
  proof (cases "ss_revoked x")
    case False
    then obtain a where "map_of (a_actors s) (ss_actor_id x) = Some a" and "ss_epoch x < ac_epoch a"
      using assms(3) x by (auto simp: dead_session_def)
    moreover obtain b where "map_of (a_actors s') (ss_actor_id x) = Some b" and "actor_le a b"
      using calculation(1) assms(1) unfolding advances_def persists_def by blast
    ultimately show ?thesis
      using session_le_fields [OF le] by (auto simp: actor_le_def)
  qed (use session_le_fields [OF le] in simp)
qed

text \<open>C15. A session that is revoked, or whose actor has moved to a later epoch, never authenticates
  again: whatever requests follow, at whatever clock readings, presenting its handle is refused.\<close>

theorem revoked_session_never_returns:
  assumes "auth_reachable H s U" and "map_of (a_sessions s) k = Some x"
    and "ss_revoked x \<or> (\<exists>a. map_of (a_actors s) (ss_actor_id x) = Some a \<and> ss_epoch x < ac_epoch a)"
    and "auth_steps H s U s' U'" and "oc_handle c = k"
  shows "\<exists>e. fst (decide H now (Authenticate c d) s') = Inl e"
proof -
  have "k \<in> keys (a_sessions s)" using assms(2) by (auto simp: keys_map_of)
  then have "k \<in> U" using reachable_issued [OF assms(1)] by (auto simp: issued_def)
  moreover have "dead_session k s" using assms(2,3) by (simp add: dead_session_def)
  ultimately have "dead_session k s'"
    using dead_session_stays [OF auth_steps_advances [OF assms(4) reachable_wf [OF assms(1)]], of k] by blast
  then show ?thesis
    using dead_session_refused assms(5) by simp
qed

theorem revoked_session_never_returns_witness:
  "auth_reachable Hid signed_out (used0 \<union> {UUID 21, UUID 31, UUID 32}) \<and>
   (\<exists>e. fst (decide Hid 9 (Authenticate (cred 31) [1]) signed_out) = Inl e)"
  using reach_signed_out
    revoked_session_never_returns [OF reach_signed_out _ _ auth_refl, of "UUID 31" "retire_session 3 (session0 31)"
      "cred 31" 9 "[1]"]
  by (simp add: signed_out_def retire_session_def cred_def)


section \<open>Ceremonies that cut off an actor's authority\<close>

text \<open>The actor whose authority a successful request replaces.\<close>

fun cut_actor :: "auth_request \<Rightarrow> auth_state \<Rightarrow> uuid option" where
  "cut_actor (Emergency root _) s = Some (cap_actor_id root)"
| "cut_actor (Revoke_All _ _ grant _) s = Some (gr_actor_id grant)"
| "cut_actor (Recover x _ _ _) s = map_option rv_actor_id (map_of (a_recoveries s) (oc_handle x))"
| "cut_actor (Exchange_Reprovision k _ _ _ _ _ _ _ _ _ _) s =
     map_option bs_actor_id (map_of (a_bootstraps s) k)"
| "cut_actor _ s = None"

definition all_but :: "'k set \<Rightarrow> ('v \<Rightarrow> bool) \<Rightarrow> ('k, 'v) dict \<Rightarrow> bool" where
  "all_but N P d \<longleftrightarrow> (\<forall>k x. map_of d k = Some x \<longrightarrow> k \<in> N \<or> P x)"

lemma all_but_update: "all_but N P d \<Longrightarrow> k \<in> N \<Longrightarrow> all_but N P (AList.update k v d)"
  by (simp add: all_but_def)

lemma all_but_map_vals: "(\<And>x. P (f x)) \<Longrightarrow> all_but N P (map_vals f d)"
  by (auto simp: all_but_def)

lemma all_but_grows:
  assumes "all_but N P d" and "grows le M d d'" and "\<And>x y. le x y \<Longrightarrow> P x \<Longrightarrow> P y"
  shows "all_but (N \<union> M) P d'"
  using assms unfolding all_but_def grows_def by (metis UnCI)

definition severed :: "uuid \<Rightarrow> uuid set \<Rightarrow> auth_state \<Rightarrow> bool" where
  "severed a N s \<longleftrightarrow>
     all_but N (\<lambda>x. ss_actor_id x = a \<longrightarrow> ss_revoked x) (a_sessions s) \<and>
     all_but N (\<lambda>x. rv_actor_id x = a \<longrightarrow> rv_consumed x) (a_recoveries s) \<and>
     all_but N (\<lambda>x. su_actor_id x = a \<longrightarrow> su_consumed x) (a_step_ups s)"

lemma severed_retire: "severed a N (retire_actor_authority a now s)"
  by (auto simp: severed_def retire_actor_authority_def retire_session_def retire_recovery_def
      retire_step_up_def intro!: all_but_map_vals)

lemma severed_put:
  assumes "severed a N s"
  shows "severed a N (put_root k r s)" and "severed a N (put_bootstrap k b s)"
    and "severed a N (put_actor k actor s)"
    and "k \<in> N \<Longrightarrow> severed a N (put_session k x s)" and "k \<in> N \<Longrightarrow> severed a N (put_recovery k v s)"
  using assms by (simp_all add: severed_def all_but_update)

lemma severed_issue:
  "severed a N s \<Longrightarrow> ss_handle x \<in> N \<Longrightarrow> rv_handle v \<in> N \<Longrightarrow> severed a N (issue_authority actor x v s)"
  by (simp add: issue_authority_def Let_def severed_put)

lemma severed_stays:
  assumes "severed a N s" and "advances M s s'"
  shows "severed a (N \<union> M) s'"
proof -
  have "recovery_le x y \<Longrightarrow> (rv_actor_id x = a \<longrightarrow> rv_consumed x) \<Longrightarrow> rv_actor_id y = a \<longrightarrow> rv_consumed y"
    and "step_up_le u w \<Longrightarrow> (su_actor_id u = a \<longrightarrow> su_consumed u) \<Longrightarrow> su_actor_id w = a \<longrightarrow> su_consumed w"
    for x y u w
    by (cases x; cases y; auto simp: recovery_le_def) (cases u; cases w; auto simp: step_up_le_def)
  then show ?thesis
    using assms session_le_fields unfolding severed_def advances_def
    by (intro conjI) (rule all_but_grows, blast, blast, metis)+
qed

definition actor_epoch :: "uuid \<Rightarrow> auth_state \<Rightarrow> int option" where
  "actor_epoch a s = map_option ac_epoch (map_of (a_actors s) a)"

definition bumped :: "uuid \<Rightarrow> auth_state \<Rightarrow> auth_state \<Rightarrow> bool" where
  "bumped a s s' \<longleftrightarrow> (\<exists>n. actor_epoch a s = Some n \<and> actor_epoch a s' = Some (n + 1))"

lemma actor_key: "wf_store s \<Longrightarrow> map_of (a_actors s) a = Some actor \<Longrightarrow> ac_actor_id actor = a"
  by (auto simp: wf_store_def dest: indexed_lookup)

lemma emergency_cuts:
  assumes "emergency_revoke root d now s = (Inr v, s')" and "wf_store s"
  shows "severed (cap_actor_id root) N s'" and "bumped (cap_actor_id root) s s'"
proof -
  obtain r actor s1 where "map_of (a_actors s) (cap_actor_id root) = Some actor"
    and s': "s' = retire_actor_authority (ac_actor_id actor) now (put_actor (cap_actor_id root)
               (actor\<lparr>ac_last_observed := now, ac_epoch := ac_epoch actor + 1\<rparr>) s1)"
    using assms(1) unfolding emergency_revoke_def Let_def decision_Inr
    by (auto dest!: observe_actor_Inr)
  moreover from this have "ac_actor_id actor = cap_actor_id root"
    using actor_key [OF assms(2)] by blast
  ultimately show "severed (cap_actor_id root) N s'" and "bumped (cap_actor_id root) s s'"
    by (simp_all add: severed_retire bumped_def actor_epoch_def)
qed

lemma authorized_actor:
  assumes "authorize_grant c d g p now s = (Inr r, s1)"
  obtains actor where "map_of (a_actors s) (gr_actor_id g) = Some actor"
    and "map_of (a_actors s1) (gr_actor_id g) = Some (actor\<lparr>ac_last_observed := now\<rparr>)"
proof -
  obtain q x s0 where "authenticate_session c d now s = (Inr x, s0)" and "gr_actor_id g = ss_actor_id x"
    and "s1 = put_grant (gr_evidence_id g) q s0"
    using authorize_Inr [OF assms] by (auto simp: authenticate_session_def)
  then show thesis
    using that by (auto elim!: authenticate_accepts)
qed

lemma revoke_all_cuts:
  assumes "revoke_all_authenticated c d g v now s = (Inr r, s')" and "wf_store s" and "rv_handle v \<in> N"
  shows "severed (gr_actor_id g) N s'" and "bumped (gr_actor_id g) s s'"
proof -
  obtain u s1 actor where a: "authorize_grant c d g ALL_SESSION_REVOKE now s = (Inr u, s1)"
    and b: "map_of (a_actors s1) (gr_actor_id g) = Some actor"
    and s': "s' = put_recovery (rv_handle v) r (retire_actor_authority (ac_actor_id actor) now
               (put_actor (gr_actor_id g) (actor\<lparr>ac_epoch := ac_epoch actor + 1\<rparr>) s1))"
    using assms(1) unfolding revoke_all_authenticated_def Let_def decision_Inr by auto
  from a obtain actor0 where actor0: "map_of (a_actors s) (gr_actor_id g) = Some actor0"
    and "actor = actor0\<lparr>ac_last_observed := now\<rparr>"
    by (rule authorized_actor) (use b in simp)
  moreover from this have "ac_actor_id actor = gr_actor_id g"
    using actor_key [OF assms(2) actor0] by simp
  ultimately show "severed (gr_actor_id g) N s'" and "bumped (gr_actor_id g) s s'"
    using s' assms(3) by (simp_all add: severed_retire severed_put bumped_def actor_epoch_def)
qed

lemma recover_cuts:
  assumes "recover c d now i j s = (Inr r, s')" and "wf_store s" and "si_handle i \<in> N" and "vi_handle j \<in> N"
    and "map_of (a_recoveries s) (oc_handle c) = Some x"
  shows "severed (rv_actor_id x) N s'" and "bumped (rv_actor_id x) s s'"
proof -
  obtain actor v s1 where actor: "map_of (a_actors s) (rv_actor_id x) = Some actor"
    and s': "s' = put_recovery (vi_handle j) v (put_session (si_handle i) r
        (retire_actor_authority (ac_actor_id actor) now (put_actor (rv_actor_id x)
           (actor\<lparr>ac_last_observed := now, ac_epoch := ac_epoch actor + 1\<rparr>) s1)))"
    using assms(1,5) unfolding recover_def Let_def decision_Inr
    by (auto dest!: observe_actor_Inr)
  moreover have "ac_actor_id actor = rv_actor_id x"
    using actor_key [OF assms(2) actor] by simp
  ultimately show "severed (rv_actor_id x) N s'" and "bumped (rv_actor_id x) s s'"
    using assms(3,4) by (simp_all add: severed_retire severed_put bumped_def actor_epoch_def)
qed

lemma reprovision_cuts:
  assumes "exchange_reprovision_bootstrap H k d sv sd ce cd now x v q n m s = (Inr r, s')" and "wf_store s"
    and "ss_handle x \<in> N" and "rv_handle v \<in> N" and "map_of (a_bootstraps s) k = Some b"
  shows "severed (bs_actor_id b) N s'" and "bumped (bs_actor_id b) s s'"
proof -
  obtain actor actor' b' root s1 where actor: "map_of (a_actors s) (bs_actor_id b) = Some actor"
    and s': "s' = put_root (ri_handle q) root (issue_authority actor' x v (put_bootstrap k b'
        (retire_actor_authority (ac_actor_id actor) now (put_actor (bs_actor_id b)
           (actor\<lparr>ac_last_observed := now, ac_epoch := ac_epoch actor + 1\<rparr>) s1))))"
    using assms(1,5) unfolding exchange_reprovision_bootstrap_def Let_def decision_Inr
    by (auto dest!: observe_actor_Inr)
  moreover have "ac_actor_id actor = bs_actor_id b"
    using actor_key [OF assms(2) actor] by simp
  ultimately show "severed (bs_actor_id b) N s'" and "bumped (bs_actor_id b) s s'"
    using assms(3,4)
    by (simp_all add: severed_retire severed_put severed_issue bumped_def actor_epoch_def
        issue_authority_def Let_def)
qed

lemma cut_severs:
  assumes "wf_store s" and "cut_actor r s = Some a" and "decide H now r s = (Inr v, s')"
  shows "severed a (set (new_handles r)) s'" and "bumped a s s'"
  using assms
  by (cases r; auto simp: accepted_replied intro: emergency_cuts revoke_all_cuts recover_cuts
      reprovision_cuts)+

lemma recovery_le_actor: "recovery_le x y \<Longrightarrow> rv_actor_id y = rv_actor_id x"
  and step_up_le_actor: "step_up_le u w \<Longrightarrow> su_actor_id w = su_actor_id u"
  by (cases x; cases y; simp add: recovery_le_def) (cases u; cases w; simp add: step_up_le_def)

text \<open>What is severed for new handles only stays out of use for every handle issued before.\<close>

lemma severed_unusable:
  assumes "severed a N s2" and "advances N s s2" and "k \<notin> N"
  shows "map_of (a_sessions s) k = Some x \<Longrightarrow> ss_actor_id x = a \<Longrightarrow> dead_session k s2"
    and "map_of (a_recoveries s) k = Some v \<Longrightarrow> rv_actor_id v = a \<Longrightarrow> \<not> recovery_usable k s2"
    and "map_of (a_step_ups s) k = Some u \<Longrightarrow> su_actor_id u = a \<Longrightarrow> \<not> step_up_usable k s2"
proof -
  note g = assms(2) [unfolded advances_def grows_def]
  show "dead_session k s2" if "map_of (a_sessions s) k = Some x" and "ss_actor_id x = a"
    unfolding dead_session_def
  proof (intro allI impI)
    fix y assume "map_of (a_sessions s2) k = Some y"
    moreover from this have "session_le x y" using g assms(3) that(1) by fastforce
    ultimately show "ss_revoked y \<or> (\<exists>a. map_of (a_actors s2) (ss_actor_id y) = Some a \<and> ss_epoch y < ac_epoch a)"
      using assms(1,3) that(2) session_le_fields [of x y] by (auto simp: severed_def all_but_def)
  qed
  show "\<not> recovery_usable k s2" if "map_of (a_recoveries s) k = Some v" and "rv_actor_id v = a"
  proof
    assume "recovery_usable k s2"
    then obtain y where "map_of (a_recoveries s2) k = Some y" and "\<not> rv_consumed y"
      by (auto simp: recovery_usable_def)
    moreover from this have "recovery_le v y" using g assms(3) that(1) by fastforce
    ultimately show False
      using assms(1,3) that(2) recovery_le_actor [of v y] by (auto simp: severed_def all_but_def)
  qed
  show "\<not> step_up_usable k s2" if "map_of (a_step_ups s) k = Some u" and "su_actor_id u = a"
  proof
    assume "step_up_usable k s2"
    then obtain y where "map_of (a_step_ups s2) k = Some y" and "\<not> su_consumed y"
      by (auto simp: step_up_usable_def unspent_def)
    moreover from this have "step_up_le u y" using g assms(3) that(1) by fastforce
    ultimately show False
      using assms(1,3) that(2) step_up_le_actor [of u y] by (auto simp: severed_def all_but_def)
  qed
qed

lemma cut_run:
  assumes "auth_reachable H s U" and "cut_actor r s = Some a" and "decide H now r s = (Inr v, s1)"
    and "set (new_handles r) \<inter> U = {}" and "auth_steps H s1 (U \<union> set (new_handles r)) s2 U2"
  obtains N where "severed a N s2" and "advances N s s2" and "N \<inter> U = {}"
proof
  let ?N = "set (new_handles r) \<union> (U2 - (U \<union> set (new_handles r)))"
  have wf: "wf_store s" using assms(1) by (rule reachable_wf)
  have "advances (set (new_handles r)) s s1"
    using decide_advances [OF wf, of r H now] assms(3) by simp
  moreover from this have "advances (U2 - (U \<union> set (new_handles r))) s1 s2"
    using auth_steps_advances [OF assms(5)] advances_wf by blast
  ultimately show "severed a ?N s2" and "advances ?N s s2"
    using severed_stays [OF cut_severs(1) [OF wf assms(2,3)]] advances_trans by blast+
  show "?N \<inter> U = {}" using assms(4) by blast
qed

text \<open>C14. A successful emergency revocation, revocation of all sessions, recovery or reprovision
  advances the actor's epoch by one and cuts off everything the actor held: in every later state
  no session and no recovery proof of the actor that existed before the request is accepted, and
  none of its step-up challenges is usable.\<close>

theorem authority_is_cut_off:
  assumes "auth_reachable H s U" and "cut_actor r s = Some a" and "decide H now r s = (Inr v, s1)"
    and "set (new_handles r) \<inter> U = {}" and "auth_steps H s1 (U \<union> set (new_handles r)) s2 U2"
  shows "(\<exists>n. actor_epoch a s = Some n \<and> actor_epoch a s1 = Some (n + 1)) \<and>
    (\<forall>c x d t. map_of (a_sessions s) (oc_handle c) = Some x \<longrightarrow> ss_actor_id x = a \<longrightarrow>
       (\<exists>e. fst (decide H t (Authenticate c d) s2) = Inl e)) \<and>
    (\<forall>c x d i j t. map_of (a_recoveries s) (oc_handle c) = Some x \<longrightarrow> rv_actor_id x = a \<longrightarrow>
       (\<exists>e. fst (decide H t (Recover c d i j) s2) = Inl e)) \<and>
    (\<forall>k x. map_of (a_step_ups s) k = Some x \<longrightarrow> su_actor_id x = a \<longrightarrow> \<not> step_up_usable k s2)"
proof -
  obtain N where N: "severed a N s2" "advances N s s2" and "N \<inter> U = {}"
    using cut_run [OF assms] .
  then have old: "k \<notin> N" if "k \<in> U" for k using that by blast
  have "issued U s" using assms(1) by (rule reachable_issued)
  then have known: "map_of (a_sessions s) k = Some x \<Longrightarrow> k \<notin> N" "map_of (a_recoveries s) k = Some v \<Longrightarrow> k \<notin> N"
    "map_of (a_step_ups s) k = Some u \<Longrightarrow> k \<notin> N" for k x v u
    using old unfolding issued_def subset_iff keys_map_of by blast+
  have "\<exists>e. fst (recover c d t i j s2) = Inl e" if "\<not> recovery_usable (oc_handle c) s2" for c d i j t
    using that by (intro refusedI) (auto simp: recovery_usable_def dest!: recover_Inr)
  then show ?thesis
    using cut_severs(2) [OF reachable_wf [OF assms(1)] assms(2,3)] severed_unusable [OF N] known
      dead_session_refused
    by (simp add: bumped_def)
qed

theorem authority_is_cut_off_witness:
  "cut_actor (Emergency (cap0 12 EMERGENCY_REVOKE) [1]) signed_in = Some actor0 \<and>
   (\<exists>n. actor_epoch actor0 signed_in = Some n \<and> actor_epoch actor0 cut0 = Some (n + 1)) \<and>
   (\<exists>e. fst (decide Hid 9 (Authenticate (cred 31) [1]) cut0) = Inl e)"
proof -
  have "map_of (a_sessions signed_in) (oc_handle (cred 31)) = Some (session0 31)"
    and "ss_actor_id (session0 31) = actor0"
    by (simp_all add: signed_in_def cred_def session0_def)
  moreover have "cut_actor (Emergency (cap0 12 EMERGENCY_REVOKE) [1]) signed_in = Some actor0"
    by (simp add: cap0_def)
  ultimately show ?thesis
    using authority_is_cut_off [OF reach_signed_in _ emergency0_decision _ auth_refl, of actor0] by auto
qed


section \<open>Proofs are accepted once\<close>

lemma credential_eta [simp]: "\<lparr>oc_handle = oc_handle c, oc_secret = oc_secret c\<rparr> = c"
  by simp

text \<open>A bootstrap code is exchanged at most once: after a successful exchange every later
  exchange of the same handle, with any proof at any time, is refused.\<close>

theorem bootstrap_exchanged_once:
  assumes "auth_reachable H s U" and "decide H now (Exchange_Bootstrap k d x v) s = (Inr r, s1)"
    and "{ss_handle x, rv_handle v} \<inter> U = {}"
    and "auth_steps H s1 (U \<union> {ss_handle x, rv_handle v}) s2 U2"
  shows "\<exists>e. fst (decide H now' (Exchange_Bootstrap k d' x' v') s2) = Inl e"
proof -
  obtain u where "present_bootstrap (d, now, x, v) k s = (Inr u, s1)"
    using assms(2) by (auto simp: accepted_replied present_bootstrap_def)
  from bootstraps.once [OF assms(1) this _ assms(4) Un_upper1, of "(d', now', x', v')"] assms(3)
  show ?thesis by (simp add: present_bootstrap_def)
qed

theorem bootstrap_exchanged_once_witness:
  "decide Hid 2 exchange0 started = (Inr (R_Decision \<lparr>bd_actor_id = actor0, bd_profile_id = profile0,
     bd_epoch = 1, bd_replacement = None\<rparr>), signed_in) \<and>
   (\<exists>e. fst (decide Hid 3 exchange0 signed_in) = Inl e)"
  using exchange0_decision
    bootstrap_exchanged_once [OF reach_started exchange0_decision [unfolded exchange0_def] _ auth_refl]
  by (simp add: exchange0_def session0_def recovery0_def used0_def)

text \<open>A recovery proof is accepted at most once.\<close>

theorem recovery_accepted_once:
  assumes "auth_reachable H s U" and "decide H now (Recover c d i j) s = (Inr r, s1)"
    and "{si_handle i, vi_handle j} \<inter> U = {}"
    and "auth_steps H s1 (U \<union> {si_handle i, vi_handle j}) s2 U2" and "oc_handle c' = oc_handle c"
  shows "\<exists>e. fst (decide H now' (Recover c' d' i' j') s2) = Inl e"
proof -
  obtain u where "present_recovery (oc_secret c, d, now, i, j) (oc_handle c) s = (Inr u, s1)"
    using assms(2) by (auto simp: accepted_replied present_recovery_def)
  from recoveries.once [OF assms(1) this _ assms(4) Un_upper1, of "(oc_secret c', d', now', i', j')"] assms(3)
  show ?thesis by (simp add: present_recovery_def flip: assms(5))
qed

theorem recovery_accepted_once_witness:
  "\<exists>s1 v. decide Hid 3 (Recover (cred 32) [1] \<lparr>si_handle = UUID 61, si_digest = [1], si_not_before = 0,
        si_expires_at = 100\<rparr> \<lparr>vi_handle = UUID 62, vi_digest = [1], vi_not_before = 0, vi_expires_at = 100,
        vi_attempts = 2\<rparr>) signed_in = (Inr v, s1) \<and>
     (\<forall>d i j. \<exists>e. fst (decide Hid 4 (Recover (cred 32) d i j) s1) = Inl e)"
proof -
  let ?i = "\<lparr>si_handle = UUID 61, si_digest = [1], si_not_before = 0, si_expires_at = 100\<rparr>"
  let ?j = "\<lparr>vi_handle = UUID 62, vi_digest = [1], vi_not_before = 0, vi_expires_at = 100, vi_attempts = 2\<rparr>"
  have "\<exists>v s1. decide Hid 3 (Recover (cred 32) [1] ?i ?j) signed_in = (Inr v, s1)"
    by (simp add: recover_def operation_defs sample_store_defs sample_record_defs)
  then obtain v s1 where ok: "decide Hid 3 (Recover (cred 32) [1] ?i ?j) signed_in = (Inr v, s1)" by blast
  from recovery_accepted_once [OF reach_signed_in ok _ auth_refl, of "cred 32"] ok show ?thesis
    by (auto simp: used0_def)
qed

text \<open>A step-up challenge is consumed at most once.\<close>

theorem step_up_consumed_once:
  assumes "auth_reachable H s U"
    and "decide H now (Consume_Step_Up ch cd c d a p q sc) s = (Inr r, s1)"
    and "auth_steps H s1 U s2 U2" and "oc_handle ch' = oc_handle ch"
  shows "\<exists>e. fst (decide H now' (Consume_Step_Up ch' cd' c' d' a' p' q' sc') s2) = Inl e"
proof -
  obtain u where "present_step_up (oc_secret ch, cd, c, d, a, p, q, sc, now) (oc_handle ch) s = (Inr u, s1)"
    using assms(2) by (auto simp: accepted_replied present_step_up_def)
  from step_ups.once [OF assms(1) this _ assms(3) subset_refl,
      of "(oc_secret ch', cd', c', d', a', p', q', sc', now')"]
  show ?thesis by (simp add: present_step_up_def flip: assms(4))
qed

theorem step_up_consumed_once_witness:
  "auth_reachable Hid challenged (used0 \<union> {UUID 21, UUID 31, UUID 32, UUID 41}) \<and>
   (\<exists>e. fst (decide Hid 5 (Consume_Step_Up (cred 41) [1] (cred 31) [1] actor0 profile0
      SETUP_AUTHORITY_CHANGE {CHANGE_SETUP_AUTHORITY}) granted) = Inl e)"
  using reach_challenged step_up_consumed_once [OF reach_challenged grant0_decision auth_refl refl] by blast

text \<open>The grant a request spends.\<close>

fun spent_grant :: "auth_request \<Rightarrow> authority_grant option" where
  "spent_grant (Authenticated_Bootstrap _ _ grant _) = Some grant"
| "spent_grant (Renew_Recovery _ _ grant _) = Some grant"
| "spent_grant (Revoke_All _ _ grant _) = Some grant"
| "spent_grant (Validate_Grant grant _ _) = Some grant"
| "spent_grant _ = None"

fun spent_purpose :: "auth_request \<Rightarrow> auth_purpose option" where
  "spent_purpose (Authenticated_Bootstrap _ _ grant _) = Some SETUP_AUTHORITY_CHANGE"
| "spent_purpose (Renew_Recovery _ _ grant _) = Some KEY_RECOVERY_CHANGE"
| "spent_purpose (Revoke_All _ _ grant _) = Some ALL_SESSION_REVOKE"
| "spent_purpose (Validate_Grant grant _ _) = Some (gr_purpose grant)"
| "spent_purpose _ = None"

lemma unspent_simps:
  "unspent (put_recovery k v s) = unspent s" "unspent (put_actor k a s) = unspent s"
  "unspent (put_bootstrap k b s) = unspent s" "unspent (invalidate_bootstraps i now s) = unspent s"
  "unspent (consume_actor_recoveries i now s) = unspent s"
  "unspent (retire_actor_authority i now s) \<subseteq> unspent s"
  by (auto simp: unspent_def invalidate_bootstraps_def consume_actor_recoveries_def
      retire_actor_authority_def retire_step_up_def split: if_splits)

lemma grants_simps [simp]:
  "a_grants (invalidate_bootstraps i now s) = a_grants s"
  "a_grants (consume_actor_recoveries i now s) = a_grants s"
  by (simp_all add: invalidate_bootstraps_def consume_actor_recoveries_def)

lemma grant_request_authorizes:
  assumes "decide H now r s = (Inr v, s')" and "spent_grant r = Some g"
  obtains c d p u s1 where "authorize_grant c d g p now s = (Inr u, s1)" and "spent_purpose r = Some p"
    and "a_grants s' = a_grants s1" and "unspent s' \<subseteq> unspent s1"
proof (cases r)
  case (Authenticated_Bootstrap c d g' b)
  then show thesis
    using assms that
    by (auto simp: accepted_replied create_authenticated_bootstrap_def decision_Inr unspent_simps)
next
  case (Renew_Recovery c d g' b)
  then show thesis
    using assms that
    by (auto simp: accepted_replied renew_recovery_def decision_Inr Let_def unspent_simps)
next
  case (Revoke_All c d g' b)
  then show thesis
    using assms that unspent_simps(6)
    by (auto simp: accepted_replied revoke_all_authenticated_def decision_Inr Let_def unspent_simps(1,2))
      (metis unspent_simps(2,6))
next
  case (Validate_Grant g' c d)
  then show thesis
    using assms that by (auto simp: accepted_replied validate_grant_def)
qed (use assms in simp_all)

lemma grant_request_needs:
  assumes "decide H now r s = (Inr v, s')" and "spent_grant r = Some g"
  shows "grant_usable (gr_evidence_id g) s"
  by (rule grant_request_authorizes [OF assms]) (auto simp: grant_usable_def dest!: authorize_Inr)

lemma grant_request_spends:
  assumes "decide H now r s = (Inr v, s')" and "spent_grant r = Some g" and "sound s"
  shows "\<not> grant_usable (gr_evidence_id g) s'"
proof (rule grant_request_authorizes [OF assms(1,2)])
  fix c d p u s1
  assume a: "authorize_grant c d g p now s = (Inr u, s1)"
    and eq: "a_grants s' = a_grants s1" and sub: "unspent s' \<subseteq> unspent s1"
  from a have "present_grant (c, d, g, p, now) (gr_evidence_id g) s = (Inr u, s1)"
    by (simp add: present_grant_def)
  then have "\<not> grant_usable (gr_evidence_id g) s1"
    using grants.spends [OF assms(3)] by blast
  then show ?thesis using eq sub by (auto simp: grant_usable_def)
qed

text \<open>C16. An authority grant is good for one use: once any request that spends it has succeeded,
  every later request that presents a grant with the same evidence is refused; and it succeeds only
  for the purpose the grant was issued for, inside its window and while it is unused.\<close>

theorem grant_spent_once:
  assumes "auth_reachable H s U" and "spent_grant r = Some g" and "decide H now r s = (Inr v, s1)"
    and "set (new_handles r) \<inter> U = {}" and "auth_steps H s1 (U \<union> set (new_handles r)) s2 U2"
    and "spent_grant r' = Some g'" and "gr_evidence_id g' = gr_evidence_id g"
  shows "(\<exists>e. fst (decide H now' r' s2) = Inl e) \<and> spent_purpose r = Some (gr_purpose g) \<and>
    gr_not_before g \<le> now \<and> now < gr_expires_at g \<and>
    map_of (a_grants s) (gr_evidence_id g) = Some \<lparr>gp_grant = g, gp_used_at = None\<rparr>"
proof (intro conjI refusedI)
  have "sound s" using assms(1) by (rule reachable_sound)
  then have "\<not> grant_usable (gr_evidence_id g) s1" by (rule grant_request_spends [OF assms(3,2)])
  moreover have "gr_evidence_id g \<in> U"
    by (rule grants.known [OF reachable_issued [OF assms(1)] grant_request_needs [OF assms(3,2)]])
  moreover have "wf_store s1"
    using decide_advances [OF reachable_wf [OF assms(1)], of r H now] assms(3) by (auto dest: advances_wf)
  ultimately have "\<not> grant_usable (gr_evidence_id g) s2"
    using grants.spent_stays [OF assms(5)] by blast
  then show False if "decide H now' r' s2 = (Inr u, s3)" for u s3
    using grant_request_needs [OF that assms(6)] assms(7) by simp
qed (rule grant_request_authorizes [OF assms(3,2)], use authorize_Inr in force)+

theorem grant_spent_once_witness:
  "(\<exists>e. fst (decide Hid 6 (Validate_Grant grant0 (cred 31) [1]) invited) = Inl e) \<and>
   gr_purpose grant0 = SETUP_AUTHORITY_CHANGE"
  using grant_spent_once [OF reach_granted _ invite0_decision _ auth_refl, of grant0
      "Validate_Grant grant0 (cred 31) [1]" grant0 6]
  by (simp add: bootstrap0_def used0_def)

text \<open>C19. Emergency revocation does not reach outstanding bootstrap codes: a code that was issued to
  the actor from an authenticated session before the revocation is still exchanged afterwards, and
  the session it yields carries the new epoch and authenticates.\<close>

theorem bootstrap_outlives_emergency:
  assumes "emergency_revoke root rd now s = (Inr n, s1)" and "wf_store s"
    and "map_of (a_bootstraps s) k = Some b" and "bs_actor_id b = cap_actor_id root"
    and "bs_root_id b = None" and "bs_root_purpose b = None" and "\<not> bs_consumed b"
    and "bs_not_before b \<le> t" and "t < bs_expires_at b" and "now \<le> t"
    and "a_crash_once s \<noteq> Some CRASH_BOOTSTRAP"
    and "oc_handle c = ss_handle x" and "\<not> ss_revoked x" and "ss_not_before x \<le> t" and "t < ss_expires_at x"
  shows "\<exists>r s2 s3. exchange_bootstrap k (bs_digest b) t x v s1 = (Inr r, s2) \<and> bd_epoch r = n \<and>
    authenticate_session c (ss_digest x) t s2 = (Inr (x\<lparr>ss_actor_id := bs_actor_id b,
      ss_profile_id := bd_profile_id r, ss_epoch := n\<rparr>), s3)"
proof -
  obtain r actor where actor: "map_of (a_actors s) (cap_actor_id root) = Some actor"
    and n: "n = ac_epoch actor + 1"
    and s1: "s1 = retire_actor_authority (ac_actor_id actor) now (put_actor (cap_actor_id root)
               (actor\<lparr>ac_last_observed := now, ac_epoch := ac_epoch actor + 1\<rparr>)
               (put_root (oc_handle (cap_credential root)) r
                 (put_actor (cap_actor_id root) (actor\<lparr>ac_last_observed := now\<rparr>) s)))"
    using assms(1) unfolding emergency_revoke_def Let_def decision_Inr
    by (auto dest!: observe_actor_Inr)
  have crash: "a_crash_once s1 = a_crash_once s"
    by (simp add: s1 put_actor_def put_root_def)
  have key: "ac_actor_id actor = cap_actor_id root" using actor_key [OF assms(2) actor] .
  show ?thesis
    using assms(3-) actor key crash
    by (simp add: n s1 exchange_bootstrap_def observe_actor_def time_denial_def the_actor_def Let_def
        crash_if_armed_def issue_authority_def authenticate_session_def authenticate_locked_def
        put_bootstrap_def)
qed

theorem bootstrap_outlives_emergency_witness:
  "\<exists>n s1 r s2 s3. emergency_revoke (cap0 12 EMERGENCY_REVOKE) [1] 6 invited = (Inr n, s1) \<and>
     exchange_bootstrap (UUID 51) [1] 7 (session0 52) (recovery0 53) s1 = (Inr r, s2) \<and> bd_epoch r = n \<and>
     authenticate_session (cred 52) [1] 7 s2 = (Inr ((session0 52)\<lparr>ss_epoch := n, ss_profile_id := bd_profile_id r\<rparr>), s3)"
proof -
  have "\<exists>n s1. emergency_revoke (cap0 12 EMERGENCY_REVOKE) [1] 6 invited = (Inr n, s1)"
    by (simp add: emergency_revoke_def validate_root_def operation_defs sample_store_defs sample_record_defs)
  then obtain n s1 where e: "emergency_revoke (cap0 12 EMERGENCY_REVOKE) [1] 6 invited = (Inr n, s1)" by blast
  have b: "map_of (a_bootstraps invited) (UUID 51) = Some (bootstrap0 51 None)"
    by (simp add: sample_store_defs)
  from bootstrap_outlives_emergency [OF e reachable_wf [OF reach_invited] b, of 7 "cred 52" "session0 52" "recovery0 53"]
  show ?thesis
    using e by (simp add: sample_record_defs invited_def granted_def challenged_def signed_in_def installed_def)
qed

end
