(* ===== verification/Auth_Service.thy ===== *)
theory Auth_Service
  imports Auth_Guarantees
begin

text \<open>
  The authentication service (\<^verbatim>\<open>AuthService\<close> of \<^verbatim>\<open>src/mycogni/application/auth.py\<close>) over its
  decision-store port.  Every method reads the clock, draws credentials, builds the records it
  proposes and makes one call to the store; a method is therefore the computation of that request
  (or of the exception that pre-empts it) followed by the store's decision.  The store is an
  argument of every method.
\<close>


section \<open>The service and its ports\<close>

datatype auth_service_mode = SYNTHETIC_FULL | CUSTODIED_STATIC_ROOTS

definition TOKEN_BYTES :: int where "TOKEN_BYTES = 32"

text \<open>\<open>sv_hash\<close> is \<^verbatim>\<open>hashlib.sha256\<close>.\<close>

record auth_service =
  sv_hash :: "bytes \<Rightarrow> bytes"
  sv_policy :: auth_policy
  sv_mode :: auth_service_mode
  sv_identity :: opaque_credential

text \<open>What one call draws from its environment: the clock reading, and for the \<open>i\<close>-th credential
  the token source's material and the fresh \<^verbatim>\<open>OpaqueId.new()\<close>.\<close>

record auth_draw =
  dr_clock :: datetime
  dr_token :: "nat \<Rightarrow> bytes"
  dr_id :: "nat \<Rightarrow> uuid"

type_synonym 'st decision_store = "int \<Rightarrow> auth_request \<Rightarrow> 'st \<Rightarrow> (auth_error + auth_reply) \<times> 'st"

record ceremony_authorization =
  ca_credential :: opaque_credential
  ca_bootstrap_handle :: uuid

definition onward :: "auth_error + 'a \<Rightarrow> ('a \<Rightarrow> auth_error + 'b) \<Rightarrow> auth_error + 'b" where
  "onward m k = (case m of Inl e \<Rightarrow> Inl e | Inr x \<Rightarrow> k x)"

lemma onward_simps [simp]: "onward (Inl e) k = Inl e" "onward (Inr x) k = k x"
  by (simp_all add: onward_def)

lemma onward_Inr: "onward m k = Inr y \<longleftrightarrow> (\<exists>x. m = Inr x \<and> k x = Inr y)"
  by (cases m) auto

text \<open>A value is built by its constructor, which raises when its check fails.\<close>

definition built :: "('a \<Rightarrow> bool) \<Rightarrow> 'a \<Rightarrow> auth_error + 'a" where
  "built ok x = (if ok x then Inr x else Inl Auth_Value_Error)"

definition service_now :: "auth_draw \<Rightarrow> auth_error + int" where
  "service_now e = (if is_utc (dr_clock e) then Inr (instant (dr_clock e)) else Inl Auth_Value_Error)"

definition new_credential :: "auth_service \<Rightarrow> auth_draw \<Rightarrow> nat \<Rightarrow> auth_error + opaque_credential \<times> bytes" where
  "new_credential sv e i =
     (if len (dr_token e i) \<noteq> TOKEN_BYTES then Inl Token_Contract
      else Inr (\<lparr>oc_handle = dr_id e i, oc_secret = dr_token e i\<rparr>, sv_hash sv (dr_token e i)))"

definition window :: "auth_service \<Rightarrow> int \<Rightarrow> int \<Rightarrow> auth_error + int \<times> int" where
  "window sv now ttl =
     (let not_before = now + seconds (activation_delay_seconds (sv_policy sv));
          expires = not_before + seconds ttl
      in if max_instant < not_before \<or> max_instant < expires then Inl Auth_Overflow
         else Inr (not_before, expires))"

definition digest_of :: "auth_service \<Rightarrow> opaque_credential \<Rightarrow> bytes" where
  "digest_of sv c = sv_hash sv (oc_secret c)"

definition require_reprovision_enabled :: "auth_service \<Rightarrow> auth_error + unit" where
  "require_reprovision_enabled sv =
     (if sv_mode sv = CUSTODIED_STATIC_ROOTS then Inl Capability_Disabled else Inr ())"

text \<open>
  One store call: the request was computed, or an exception pre-empted it; \<open>k\<close> turns the allowed
  value into the method's own result.
\<close>

definition ask ::
    "'st decision_store \<Rightarrow> auth_error + int \<times> auth_request \<Rightarrow> (auth_reply \<Rightarrow> auth_error + 'a) \<Rightarrow> 'st
     \<Rightarrow> (auth_error + 'a) \<times> 'st" where
  "ask D m k s =
     (case m of
        Inl e \<Rightarrow> (Inl e, s)
      | Inr (now, q) \<Rightarrow> (case D now q s of (r, s') \<Rightarrow> (onward r k, s')))"


section \<open>The requests\<close>

definition begin_bootstrap_request ::
    "auth_service \<Rightarrow> auth_draw \<Rightarrow> root_capability \<Rightarrow> auth_error + int \<times> auth_request" where
  "begin_bootstrap_request sv e root =
     (if sv_mode sv = CUSTODIED_STATIC_ROOTS \<and> cap_purpose root = REPROVISION then Inl Capability_Disabled
      else onward (service_now e) (\<lambda>now.
           onward (new_credential sv e 0) (\<lambda>(c, d).
           onward (window sv now (bootstrap_ttl_seconds (sv_policy sv))) (\<lambda>(nb, ex).
           onward (built bootstrap_record_ok
             \<lparr>bs_handle = oc_handle c, bs_actor_id = cap_actor_id root, bs_profile_id = cap_profile_id root,
              bs_digest = d, bs_not_before = nb, bs_expires_at = ex,
              bs_attempts = max_attempts (sv_policy sv),
              bs_root_id = Some (oc_handle (cap_credential root)), bs_root_purpose = Some (cap_purpose root),
              bs_consumed = False, bs_retired_at = None\<rparr>) (\<lambda>record.
             Inr (now, Root_Bootstrap root (digest_of sv (cap_credential root)) record))))))"

definition begin_authenticated_request ::
    "auth_service \<Rightarrow> auth_draw \<Rightarrow> opaque_credential \<Rightarrow> authority_grant \<Rightarrow> auth_error + int \<times> auth_request" where
  "begin_authenticated_request sv e session grant =
     onward (service_now e) (\<lambda>now.
     onward (new_credential sv e 0) (\<lambda>(c, d).
     onward (window sv now (bootstrap_ttl_seconds (sv_policy sv))) (\<lambda>(nb, ex).
     onward (built bootstrap_record_ok
       \<lparr>bs_handle = oc_handle c, bs_actor_id = gr_actor_id grant, bs_profile_id = gr_profile_id grant,
        bs_digest = d, bs_not_before = nb, bs_expires_at = ex, bs_attempts = max_attempts (sv_policy sv),
        bs_root_id = None, bs_root_purpose = None, bs_consumed = False, bs_retired_at = None\<rparr>) (\<lambda>record.
       Inr (now, Authenticated_Bootstrap session (digest_of sv session) grant record)))))"

definition begin_reprovision_request ::
    "auth_service \<Rightarrow> auth_draw \<Rightarrow> opaque_credential \<Rightarrow> auth_error + int \<times> auth_request" where
  "begin_reprovision_request sv e reprovision =
     onward (require_reprovision_enabled sv) (\<lambda>_.
     onward (service_now e) (\<lambda>now.
     onward (new_credential sv e 0) (\<lambda>(c, d).
     onward (window sv now (bootstrap_ttl_seconds (sv_policy sv))) (\<lambda>(nb, ex).
     onward (built bootstrap_issue_ok
       \<lparr>bi_handle = oc_handle c, bi_digest = d, bi_not_before = nb, bi_expires_at = ex,
        bi_attempts = max_attempts (sv_policy sv)\<rparr>) (\<lambda>issue.
       Inr (now, Reprovision_Bootstrap reprovision (digest_of sv reprovision) issue))))))"

definition cancel_request :: "auth_draw \<Rightarrow> uuid \<Rightarrow> auth_error + int \<times> auth_request" where
  "cancel_request e handle = onward (service_now e) (\<lambda>now. Inr (now, Cancel_Bootstrap handle))"

definition ceremony_request ::
    "auth_service \<Rightarrow> auth_draw \<Rightarrow> opaque_credential \<Rightarrow> opaque_credential \<Rightarrow> auth_error + int \<times> auth_request" where
  "ceremony_request sv e bootstrap operator =
     onward (require_reprovision_enabled sv) (\<lambda>_.
     onward (service_now e) (\<lambda>now.
     onward (new_credential sv e 0) (\<lambda>(c, d).
       let expires = now + seconds (reprovision_ceremony_ttl_seconds (sv_policy sv))
       in if max_instant < expires then Inl Auth_Overflow
          else Inr (now, Ceremony (sv_identity sv) (digest_of sv (sv_identity sv)) operator
                 (digest_of sv operator) (oc_handle bootstrap)
                 \<lparr>ci_handle = oc_handle c, ci_digest = d, ci_expires_at = expires\<rparr>
                 (reprovision_ceremony_capacity (sv_policy sv))
                 (reprovision_ceremony_tombstone_capacity (sv_policy sv))
                 (reprovision_ceremony_replay_seconds (sv_policy sv))))))"

text \<open>The session and recovery records an exchange proposes, bound to a placeholder identity.\<close>

definition proposed_session :: "opaque_credential \<Rightarrow> bytes \<Rightarrow> uuid \<Rightarrow> int \<Rightarrow> int \<Rightarrow> session_record" where
  "proposed_session c d placeholder nb ex =
     \<lparr>ss_handle = oc_handle c, ss_actor_id = placeholder, ss_profile_id = placeholder, ss_digest = d,
      ss_epoch = 1, ss_not_before = nb, ss_expires_at = ex, ss_revoked = False, ss_retired_at = None\<rparr>"

definition proposed_recovery ::
    "opaque_credential \<Rightarrow> bytes \<Rightarrow> uuid \<Rightarrow> uuid \<Rightarrow> int \<Rightarrow> int \<Rightarrow> int \<Rightarrow> int \<Rightarrow> recovery_record" where
  "proposed_recovery c d actor profile epoch nb ex attempts =
     \<lparr>rv_handle = oc_handle c, rv_actor_id = actor, rv_profile_id = profile, rv_digest = d,
      rv_epoch = epoch, rv_not_before = nb, rv_expires_at = ex, rv_attempts = attempts,
      rv_consumed = False, rv_retired_at = None\<rparr>"

definition exchange_request ::
    "auth_service \<Rightarrow> auth_draw \<Rightarrow> opaque_credential \<Rightarrow> ceremony_authorization option
     \<Rightarrow> auth_error + int \<times> auth_request" where
  "exchange_request sv e bootstrap authorization =
     onward (service_now e) (\<lambda>now.
     onward (new_credential sv e 0) (\<lambda>(session, session_digest).
     onward (new_credential sv e 1) (\<lambda>(recovery, recovery_digest).
     onward (new_credential sv e 2) (\<lambda>(root, root_digest).
     onward (window sv now (session_ttl_seconds (sv_policy sv))) (\<lambda>(snb, sex).
     onward (window sv now (recovery_ttl_seconds (sv_policy sv))) (\<lambda>(rnb, rex).
     onward (built session_record_ok (proposed_session session session_digest (dr_id e 3) snb sex)) (\<lambda>x.
     onward (built recovery_record_ok (proposed_recovery recovery recovery_digest (dr_id e 3) (dr_id e 3) 1
               rnb rex (max_attempts (sv_policy sv)))) (\<lambda>v.
       Inr (now, case authorization of
              None \<Rightarrow> Exchange_Bootstrap (oc_handle bootstrap) (digest_of sv bootstrap) x v
            | Some a \<Rightarrow> Exchange_Reprovision (oc_handle bootstrap) (digest_of sv bootstrap)
                (sv_identity sv) (digest_of sv (sv_identity sv)) (ca_credential a)
                (digest_of sv (ca_credential a)) x v \<lparr>ri_handle = oc_handle root, ri_digest = root_digest\<rparr>
                (reprovision_ceremony_tombstone_capacity (sv_policy sv))
                (reprovision_ceremony_replay_seconds (sv_policy sv)))))))))))"

definition authenticate_request ::
    "auth_service \<Rightarrow> auth_draw \<Rightarrow> opaque_credential \<Rightarrow> auth_error + int \<times> auth_request" where
  "authenticate_request sv e session =
     onward (service_now e) (\<lambda>now. Inr (now, Authenticate session (digest_of sv session)))"

definition step_up_request ::
    "auth_service \<Rightarrow> auth_draw \<Rightarrow> opaque_credential \<Rightarrow> uuid \<Rightarrow> uuid \<Rightarrow> auth_purpose \<Rightarrow> auth_scope set
     \<Rightarrow> auth_error + int \<times> auth_request" where
  "step_up_request sv e session actor_id profile_id purpose scopes =
     (if scopes \<noteq> {purpose_scope purpose} then Inl (Refused A_SCOPE_WIDENING)
      else onward (service_now e) (\<lambda>now.
           onward (new_credential sv e 0) (\<lambda>(c, d).
           onward (window sv now (step_up_ttl_seconds (sv_policy sv))) (\<lambda>(nb, ex).
           onward (built step_up_record_ok
             \<lparr>su_handle = oc_handle c, su_actor_id = actor_id, su_profile_id = profile_id,
              su_session_id = oc_handle session, su_digest = d, su_epoch = 1, su_purpose = purpose,
              su_scopes = scopes, su_not_before = nb, su_expires_at = ex,
              su_attempts = max_attempts (sv_policy sv), su_consumed = False, su_retired_at = None\<rparr>) (\<lambda>u.
             Inr (now, Create_Step_Up session (digest_of sv session) u))))))"

definition consume_step_up_request ::
    "auth_service \<Rightarrow> auth_draw \<Rightarrow> opaque_credential \<Rightarrow> opaque_credential \<Rightarrow> uuid \<Rightarrow> uuid \<Rightarrow> auth_purpose \<Rightarrow>
     auth_scope set \<Rightarrow> auth_error + int \<times> auth_request" where
  "consume_step_up_request sv e challenge session actor_id profile_id purpose scopes =
     onward (service_now e) (\<lambda>now.
       Inr (now, Consume_Step_Up challenge (digest_of sv challenge) session (digest_of sv session)
              actor_id profile_id purpose scopes))"

definition rotate_request ::
    "auth_service \<Rightarrow> auth_draw \<Rightarrow> opaque_credential \<Rightarrow> auth_error + int \<times> auth_request" where
  "rotate_request sv e session =
     onward (service_now e) (\<lambda>now.
     onward (new_credential sv e 0) (\<lambda>(c, d).
     onward (window sv now (session_ttl_seconds (sv_policy sv))) (\<lambda>(nb, ex).
     onward (built session_record_ok (proposed_session c d (dr_id e 1) nb ex)) (\<lambda>x.
       Inr (now, Rotate session (digest_of sv session) x)))))"

definition revoke_request ::
    "auth_service \<Rightarrow> auth_draw \<Rightarrow> opaque_credential \<Rightarrow> auth_error + int \<times> auth_request" where
  "revoke_request sv e session =
     onward (service_now e) (\<lambda>now. Inr (now, Revoke session (digest_of sv session)))"

text \<open>\<^verbatim>\<open>renew_recovery\<close> and \<^verbatim>\<open>revoke_all_authenticated\<close> propose the same replacement record.\<close>

definition replacement_request ::
    "(opaque_credential \<Rightarrow> bytes \<Rightarrow> authority_grant \<Rightarrow> recovery_record \<Rightarrow> auth_request) \<Rightarrow> auth_service \<Rightarrow>
     auth_draw \<Rightarrow> opaque_credential \<Rightarrow> authority_grant \<Rightarrow> auth_error + int \<times> auth_request" where
  "replacement_request q sv e session grant =
     onward (service_now e) (\<lambda>now.
     onward (new_credential sv e 0) (\<lambda>(c, d).
     onward (window sv now (recovery_ttl_seconds (sv_policy sv))) (\<lambda>(nb, ex).
     onward (built recovery_record_ok (proposed_recovery c d (gr_actor_id grant) (gr_profile_id grant)
               (gr_epoch grant) nb ex (max_attempts (sv_policy sv)))) (\<lambda>v.
       Inr (now, q session (digest_of sv session) grant v)))))"

definition emergency_request ::
    "auth_service \<Rightarrow> auth_draw \<Rightarrow> root_capability \<Rightarrow> auth_error + int \<times> auth_request" where
  "emergency_request sv e root =
     onward (service_now e) (\<lambda>now. Inr (now, Emergency root (digest_of sv (cap_credential root))))"

definition recover_request ::
    "auth_service \<Rightarrow> auth_draw \<Rightarrow> opaque_credential \<Rightarrow> auth_error + int \<times> auth_request" where
  "recover_request sv e recovery =
     onward (service_now e) (\<lambda>now.
     onward (new_credential sv e 0) (\<lambda>(session, session_digest).
     onward (new_credential sv e 1) (\<lambda>(replacement, replacement_digest).
     onward (window sv now (session_ttl_seconds (sv_policy sv))) (\<lambda>(snb, sex).
     onward (window sv now (recovery_ttl_seconds (sv_policy sv))) (\<lambda>(rnb, rex).
     onward (built session_issue_ok \<lparr>si_handle = oc_handle session, si_digest = session_digest,
               si_not_before = snb, si_expires_at = sex\<rparr>) (\<lambda>i.
     onward (built recovery_issue_ok \<lparr>vi_handle = oc_handle replacement, vi_digest = replacement_digest,
               vi_not_before = rnb, vi_expires_at = rex, vi_attempts = max_attempts (sv_policy sv)\<rparr>) (\<lambda>j.
       Inr (now, Recover recovery (digest_of sv recovery) i j))))))))"

definition validate_grant_request ::
    "auth_service \<Rightarrow> auth_draw \<Rightarrow> authority_grant \<Rightarrow> opaque_credential \<Rightarrow> auth_error + int \<times> auth_request" where
  "validate_grant_request sv e grant session =
     onward (service_now e) (\<lambda>now. Inr (now, Validate_Grant grant session (digest_of sv session)))"

definition collect_request :: "auth_draw \<Rightarrow> int \<Rightarrow> auth_error + int \<times> auth_request" where
  "collect_request e retention = onward (service_now e) (\<lambda>now. Inr (now, Collect_Retired retention))"


section \<open>The methods\<close>

text \<open>A store adapter answers each operation with its own kind of value; any other answer would
  fail where the service reads it.\<close>

definition credential_result :: "auth_service \<Rightarrow> auth_draw \<Rightarrow> auth_reply \<Rightarrow> auth_error + opaque_credential" where
  "credential_result sv e _ = onward (new_credential sv e 0) (\<lambda>(c, _). Inr c)"

definition bootstrap_exchange_ok :: "bootstrap_exchange \<Rightarrow> bool" where
  "bootstrap_exchange_ok x \<longleftrightarrow> 1 \<le> bx_epoch x \<and>
     (case bx_replacement x of None \<Rightarrow> True
      | Some r \<Rightarrow> cap_purpose r = REPROVISION \<and> cap_actor_id r = bx_actor_id x \<and>
                  cap_profile_id r = bx_profile_id x)"

definition begin_bootstrap ::
    "'st decision_store \<Rightarrow> auth_service \<Rightarrow> auth_draw \<Rightarrow> root_capability \<Rightarrow> 'st
     \<Rightarrow> (auth_error + opaque_credential) \<times> 'st" where
  "begin_bootstrap D sv e root = ask D (begin_bootstrap_request sv e root) (credential_result sv e)"

definition begin_authenticated_bootstrap ::
    "'st decision_store \<Rightarrow> auth_service \<Rightarrow> auth_draw \<Rightarrow> opaque_credential \<Rightarrow> authority_grant \<Rightarrow> 'st
     \<Rightarrow> (auth_error + opaque_credential) \<times> 'st" where
  "begin_authenticated_bootstrap D sv e session grant =
     ask D (begin_authenticated_request sv e session grant) (credential_result sv e)"

definition begin_reprovision ::
    "'st decision_store \<Rightarrow> auth_service \<Rightarrow> auth_draw \<Rightarrow> opaque_credential \<Rightarrow> 'st
     \<Rightarrow> (auth_error + opaque_credential) \<times> 'st" where
  "begin_reprovision D sv e reprovision =
     ask D (begin_reprovision_request sv e reprovision) (credential_result sv e)"

definition service_cancel :: "'st decision_store \<Rightarrow> auth_draw \<Rightarrow> uuid \<Rightarrow> 'st \<Rightarrow> (auth_error + unit) \<times> 'st" where
  "service_cancel D e handle = ask D (cancel_request e handle) (\<lambda>_. Inr ())"

definition authorize_reprovision_ceremony ::
    "'st decision_store \<Rightarrow> auth_service \<Rightarrow> auth_draw \<Rightarrow> opaque_credential \<Rightarrow> opaque_credential \<Rightarrow> 'st
     \<Rightarrow> (auth_error + ceremony_authorization) \<times> 'st" where
  "authorize_reprovision_ceremony D sv e bootstrap operator =
     ask D (ceremony_request sv e bootstrap operator) (\<lambda>_.
       onward (new_credential sv e 0) (\<lambda>(c, _).
         Inr \<lparr>ca_credential = c, ca_bootstrap_handle = oc_handle bootstrap\<rparr>))"

definition exchange_result ::
    "auth_service \<Rightarrow> auth_draw \<Rightarrow> auth_reply \<Rightarrow> auth_error + bootstrap_exchange" where
  "exchange_result sv e r =
     (case r of
        R_Decision record \<Rightarrow>
          onward (new_credential sv e 0) (\<lambda>(session, _).
          onward (new_credential sv e 1) (\<lambda>(recovery, _).
          onward (new_credential sv e 2) (\<lambda>(root, _).
            built bootstrap_exchange_ok
              \<lparr>bx_session = session, bx_recovery = recovery, bx_actor_id = bd_actor_id record,
               bx_profile_id = bd_profile_id record, bx_epoch = bd_epoch record,
               bx_replacement = map_option (\<lambda>b. \<lparr>cap_credential = root,
                  cap_installation_id = rb_installation_id b, cap_actor_id = rb_actor_id b,
                  cap_profile_id = rb_profile_id b, cap_purpose = rb_purpose b\<rparr>) (bd_replacement record)\<rparr>)))
      | _ \<Rightarrow> Inl Auth_Value_Error)"

definition service_exchange ::
    "'st decision_store \<Rightarrow> auth_service \<Rightarrow> auth_draw \<Rightarrow> opaque_credential \<Rightarrow> ceremony_authorization option \<Rightarrow>
     'st \<Rightarrow> (auth_error + bootstrap_exchange) \<times> 'st" where
  "service_exchange D sv e bootstrap authorization =
     ask D (exchange_request sv e bootstrap authorization) (exchange_result sv e)"

definition exchange_confirmed_request ::
    "auth_service \<Rightarrow> auth_draw \<Rightarrow> opaque_credential \<Rightarrow> ceremony_authorization \<Rightarrow> auth_error + int \<times> auth_request" where
  "exchange_confirmed_request sv e bootstrap authorization =
     onward (require_reprovision_enabled sv) (\<lambda>_.
       if ca_bootstrap_handle authorization \<noteq> oc_handle bootstrap then Inl (Refused A_INVALID_PROOF)
       else exchange_request sv e bootstrap (Some authorization))"

definition exchange_confirmed_reprovision ::
    "'st decision_store \<Rightarrow> auth_service \<Rightarrow> auth_draw \<Rightarrow> opaque_credential \<Rightarrow> ceremony_authorization \<Rightarrow> 'st
     \<Rightarrow> (auth_error + bootstrap_exchange) \<times> 'st" where
  "exchange_confirmed_reprovision D sv e bootstrap authorization =
     ask D (exchange_confirmed_request sv e bootstrap authorization) (exchange_result sv e)"

definition service_authenticate ::
    "'st decision_store \<Rightarrow> auth_service \<Rightarrow> auth_draw \<Rightarrow> opaque_credential \<Rightarrow> 'st \<Rightarrow> (auth_error + uuid) \<times> 'st" where
  "service_authenticate D sv e session =
     ask D (authenticate_request sv e session)
       (\<lambda>r. case r of R_Session x \<Rightarrow> Inr (ss_handle x) | _ \<Rightarrow> Inl Auth_Value_Error)"

definition issue_step_up ::
    "'st decision_store \<Rightarrow> auth_service \<Rightarrow> auth_draw \<Rightarrow> opaque_credential \<Rightarrow> uuid \<Rightarrow> uuid \<Rightarrow> auth_purpose \<Rightarrow>
     auth_scope set \<Rightarrow> 'st \<Rightarrow> (auth_error + opaque_credential) \<times> 'st" where
  "issue_step_up D sv e session actor_id profile_id purpose scopes =
     ask D (step_up_request sv e session actor_id profile_id purpose scopes) (credential_result sv e)"

definition service_consume_step_up ::
    "'st decision_store \<Rightarrow> auth_service \<Rightarrow> auth_draw \<Rightarrow> opaque_credential \<Rightarrow> opaque_credential \<Rightarrow> uuid \<Rightarrow> uuid \<Rightarrow>
     auth_purpose \<Rightarrow> auth_scope set \<Rightarrow> 'st \<Rightarrow> (auth_error + authority_grant) \<times> 'st" where
  "service_consume_step_up D sv e challenge session actor_id profile_id purpose scopes =
     ask D (consume_step_up_request sv e challenge session actor_id profile_id purpose scopes)
       (\<lambda>r. case r of R_Step_Up x \<Rightarrow> built authority_grant_ok (grant_of x) | _ \<Rightarrow> Inl Auth_Value_Error)"

definition service_rotate ::
    "'st decision_store \<Rightarrow> auth_service \<Rightarrow> auth_draw \<Rightarrow> opaque_credential \<Rightarrow> 'st
     \<Rightarrow> (auth_error + opaque_credential) \<times> 'st" where
  "service_rotate D sv e session = ask D (rotate_request sv e session) (credential_result sv e)"

definition service_revoke ::
    "'st decision_store \<Rightarrow> auth_service \<Rightarrow> auth_draw \<Rightarrow> opaque_credential \<Rightarrow> 'st \<Rightarrow> (auth_error + uuid) \<times> 'st" where
  "service_revoke D sv e session =
     ask D (revoke_request sv e session) (\<lambda>r. case r of R_Handle k \<Rightarrow> Inr k | _ \<Rightarrow> Inl Auth_Value_Error)"

definition service_renew_recovery ::
    "'st decision_store \<Rightarrow> auth_service \<Rightarrow> auth_draw \<Rightarrow> opaque_credential \<Rightarrow> authority_grant \<Rightarrow> 'st
     \<Rightarrow> (auth_error + opaque_credential) \<times> 'st" where
  "service_renew_recovery D sv e session grant =
     ask D (replacement_request Renew_Recovery sv e session grant) (credential_result sv e)"

definition service_revoke_all ::
    "'st decision_store \<Rightarrow> auth_service \<Rightarrow> auth_draw \<Rightarrow> opaque_credential \<Rightarrow> authority_grant \<Rightarrow> 'st
     \<Rightarrow> (auth_error + opaque_credential) \<times> 'st" where
  "service_revoke_all D sv e session grant =
     ask D (replacement_request Revoke_All sv e session grant) (credential_result sv e)"

definition service_emergency ::
    "'st decision_store \<Rightarrow> auth_service \<Rightarrow> auth_draw \<Rightarrow> root_capability \<Rightarrow> 'st \<Rightarrow> (auth_error + int) \<times> 'st" where
  "service_emergency D sv e root =
     ask D (emergency_request sv e root) (\<lambda>r. case r of R_Epoch n \<Rightarrow> Inr n | _ \<Rightarrow> Inl Auth_Value_Error)"

definition service_recover ::
    "'st decision_store \<Rightarrow> auth_service \<Rightarrow> auth_draw \<Rightarrow> opaque_credential \<Rightarrow> 'st
     \<Rightarrow> (auth_error + bootstrap_exchange) \<times> 'st" where
  "service_recover D sv e recovery =
     ask D (recover_request sv e recovery) (\<lambda>r. case r of
        R_Session x \<Rightarrow>
          onward (new_credential sv e 0) (\<lambda>(session, _).
          onward (new_credential sv e 1) (\<lambda>(replacement, _).
            built bootstrap_exchange_ok
              \<lparr>bx_session = session, bx_recovery = replacement, bx_actor_id = ss_actor_id x,
               bx_profile_id = ss_profile_id x, bx_epoch = ss_epoch x, bx_replacement = None\<rparr>))
      | _ \<Rightarrow> Inl Auth_Value_Error)"

definition service_validate_grant ::
    "'st decision_store \<Rightarrow> auth_service \<Rightarrow> auth_draw \<Rightarrow> authority_grant \<Rightarrow> opaque_credential \<Rightarrow> 'st
     \<Rightarrow> (auth_error + authority_grant) \<times> 'st" where
  "service_validate_grant D sv e grant session =
     ask D (validate_grant_request sv e grant session)
       (\<lambda>r. case r of R_Grant g \<Rightarrow> Inr g | _ \<Rightarrow> Inl Auth_Value_Error)"

definition service_collect ::
    "'st decision_store \<Rightarrow> auth_draw \<Rightarrow> int \<Rightarrow> 'st \<Rightarrow> (auth_error + int) \<times> 'st" where
  "service_collect D e retention =
     ask D (collect_request e retention) (\<lambda>r. case r of R_Count n \<Rightarrow> Inr n | _ \<Rightarrow> Inl Auth_Value_Error)"


section \<open>Service calls as data\<close>

datatype service_call =
    Begin_Bootstrap root_capability
  | Begin_Authenticated opaque_credential authority_grant
  | Begin_Reprovision opaque_credential
  | Cancel uuid
  | Authorize_Ceremony opaque_credential opaque_credential
  | Exchange opaque_credential
  | Exchange_Confirmed opaque_credential ceremony_authorization
  | Authenticate_Session opaque_credential
  | Issue_Step_Up opaque_credential uuid uuid auth_purpose "auth_scope set"
  | Use_Step_Up opaque_credential opaque_credential uuid uuid auth_purpose "auth_scope set"
  | Rotate_Session opaque_credential
  | Revoke_Session opaque_credential
  | Renew opaque_credential authority_grant
  | Revoke_Everything opaque_credential authority_grant
  | Emergency_Revoke root_capability
  | Recover_Access opaque_credential
  | Check_Grant authority_grant opaque_credential
  | Collect int

fun request_of :: "auth_service \<Rightarrow> auth_draw \<Rightarrow> service_call \<Rightarrow> auth_error + int \<times> auth_request" where
  "request_of sv e (Begin_Bootstrap root) = begin_bootstrap_request sv e root"
| "request_of sv e (Begin_Authenticated session grant) = begin_authenticated_request sv e session grant"
| "request_of sv e (Begin_Reprovision c) = begin_reprovision_request sv e c"
| "request_of sv e (Cancel handle) = cancel_request e handle"
| "request_of sv e (Authorize_Ceremony bootstrap operator) = ceremony_request sv e bootstrap operator"
| "request_of sv e (Exchange bootstrap) = exchange_request sv e bootstrap None"
| "request_of sv e (Exchange_Confirmed bootstrap a) = exchange_confirmed_request sv e bootstrap a"
| "request_of sv e (Authenticate_Session session) = authenticate_request sv e session"
| "request_of sv e (Issue_Step_Up session a p purpose scopes) =
     step_up_request sv e session a p purpose scopes"
| "request_of sv e (Use_Step_Up challenge session a p purpose scopes) =
     consume_step_up_request sv e challenge session a p purpose scopes"
| "request_of sv e (Rotate_Session session) = rotate_request sv e session"
| "request_of sv e (Revoke_Session session) = revoke_request sv e session"
| "request_of sv e (Renew session grant) = replacement_request Renew_Recovery sv e session grant"
| "request_of sv e (Revoke_Everything session grant) = replacement_request Revoke_All sv e session grant"
| "request_of sv e (Emergency_Revoke root) = emergency_request sv e root"
| "request_of sv e (Recover_Access c) = recover_request sv e c"
| "request_of sv e (Check_Grant grant session) = validate_grant_request sv e grant session"
| "request_of sv e (Collect retention) = collect_request e retention"

end
