(* ===== verification/Auth_Service_Guarantees.thy ===== *)
theory Auth_Service_Guarantees
  imports Auth_Service
begin

text \<open>
  Guarantees of the authentication service in front of the decision store: signing in through a
  bootstrap code completes (over the contract \<open>sign_in_store\<close> of a store, interpreted on the
  volatile store), a service composed with static roots never spends a reprovision root, and under
  a valid policy the service never fails for reasons of its own.
\<close>


section \<open>Draws that honour the ports' contracts\<close>

text \<open>
  The clock is UTC and far enough from \<^verbatim>\<open>datetime.max\<close> for the longest window a policy allows,
  and the token source returns the number of bytes it was asked for.
\<close>

definition good_draw :: "auth_draw \<Rightarrow> bool" where
  "good_draw e \<longleftrightarrow> is_utc (dr_clock e) \<and> (\<forall>i. len (dr_token e i) = TOKEN_BYTES) \<and>
     instant (dr_clock e) + seconds (60 + RECOVERY_MAX_SECONDS) \<le> max_instant"

abbreviation opens_at :: "auth_service \<Rightarrow> auth_draw \<Rightarrow> int" where
  "opens_at sv e \<equiv> instant (dr_clock e) + seconds (activation_delay_seconds (sv_policy sv))"

lemma good_now: "good_draw e \<Longrightarrow> service_now e = Inr (instant (dr_clock e))"
  by (simp add: good_draw_def service_now_def)

lemma good_credential:
  "good_draw e \<Longrightarrow> new_credential sv e i =
     Inr (\<lparr>oc_handle = dr_id e i, oc_secret = dr_token e i\<rparr>, sv_hash sv (dr_token e i))"
  by (simp add: good_draw_def new_credential_def)

lemma good_window:
  assumes "good_draw e" and "auth_policy_ok (sv_policy sv)" and "0 \<le> ttl" and "ttl \<le> RECOVERY_MAX_SECONDS"
  shows "window sv (instant (dr_clock e)) ttl = Inr (opens_at sv e, opens_at sv e + seconds ttl)"
  using assms by (simp add: good_draw_def window_def Let_def auth_policy_ok_def)

lemma policy_windows:
  assumes "auth_policy_ok p"
  shows "1 \<le> bootstrap_ttl_seconds p" "bootstrap_ttl_seconds p \<le> RECOVERY_MAX_SECONDS"
    "1 \<le> session_ttl_seconds p" "session_ttl_seconds p \<le> RECOVERY_MAX_SECONDS"
    "1 \<le> step_up_ttl_seconds p" "step_up_ttl_seconds p \<le> RECOVERY_MAX_SECONDS"
    "1 \<le> recovery_ttl_seconds p" "recovery_ttl_seconds p \<le> RECOVERY_MAX_SECONDS"
    "1 \<le> max_attempts p" "0 \<le> activation_delay_seconds p"
    "1 \<le> reprovision_ceremony_ttl_seconds p" "reprovision_ceremony_ttl_seconds p \<le> RECOVERY_MAX_SECONDS"
  using assms
  by (simp_all add: auth_policy_ok_def RECOVERY_MIN_SECONDS_def RECOVERY_MAX_SECONDS_def DAY_SECONDS_def)

lemmas good_steps = good_now good_credential good_window policy_windows built_def


section \<open>What signing in needs of a store\<close>

text \<open>
  \<open>code_open s k d nb ex t\<close>: the code \<open>k\<close> with digest \<open>d\<close> can be exchanged in its window from clock
  reading \<open>t\<close> on; \<open>session_live\<close> likewise for sessions; \<open>ready\<close>: nothing in the store is broken.
\<close>

locale sign_in_store =
  fixes D :: "'st decision_store"
    and ready :: "'st \<Rightarrow> bool"
    and code_open :: "'st \<Rightarrow> uuid \<Rightarrow> bytes \<Rightarrow> int \<Rightarrow> int \<Rightarrow> int \<Rightarrow> bool"
    and session_live :: "'st \<Rightarrow> uuid \<Rightarrow> bytes \<Rightarrow> int \<Rightarrow> int \<Rightarrow> int \<Rightarrow> bool"
  assumes code_issued:
      "ready s \<Longrightarrow> D now (Root_Bootstrap root d b) s = (Inr r, s') \<Longrightarrow> cap_purpose root = INITIAL_BOOTSTRAP \<Longrightarrow>
       \<not> bs_consumed b \<Longrightarrow>
       code_open s' (bs_handle b) (bs_digest b) (bs_not_before b) (bs_expires_at b) now"
    and code_exchanged:
      "code_open s k d nb ex t \<Longrightarrow> nb \<le> now \<Longrightarrow> now < ex \<Longrightarrow> t \<le> now \<Longrightarrow> \<not> ss_revoked x \<Longrightarrow>
       \<exists>r s'. D now (Exchange_Bootstrap k d x v) s = (Inr (R_Decision r), s') \<and> 1 \<le> bd_epoch r \<and>
         bd_replacement r = None \<and>
         session_live s' (ss_handle x) (ss_digest x) (ss_not_before x) (ss_expires_at x) now"
    and session_accepted:
      "session_live s (oc_handle c) d nb ex t \<Longrightarrow> nb \<le> now \<Longrightarrow> now < ex \<Longrightarrow> t \<le> now \<Longrightarrow>
       \<exists>x s'. D now (Authenticate c d) s = (Inr (R_Session x), s') \<and> ss_handle x = oc_handle c"
begin

lemma begun_code_open:
  assumes "ready s" and "begin_bootstrap D sv e root s = (Inr c, s1)" and "cap_purpose root = INITIAL_BOOTSTRAP"
  shows "code_open s1 (oc_handle c) (digest_of sv c)
      (instant (dr_clock e) + seconds (activation_delay_seconds (sv_policy sv)))
      (instant (dr_clock e) + seconds (activation_delay_seconds (sv_policy sv)) +
        seconds (bootstrap_ttl_seconds (sv_policy sv)))
      (instant (dr_clock e))"
proof -
  obtain now q r where q: "begin_bootstrap_request sv e root = Inr (now, q)"
    and D: "D now q s = (Inr r, s1)" and c: "credential_result sv e r = Inr c"
    using assms(2)
    by (auto simp: begin_bootstrap_def ask_def onward_Inr split: sum.splits prod.splits)
  from c have "c = \<lparr>oc_handle = dr_id e 0, oc_secret = dr_token e 0\<rparr>"
    by (auto simp: credential_result_def new_credential_def onward_Inr split: if_splits)
  moreover obtain b where "q = Root_Bootstrap root (digest_of sv (cap_credential root)) b"
    and "now = instant (dr_clock e)" and "\<not> bs_consumed b" and "bs_handle b = dr_id e 0"
    and "bs_digest b = sv_hash sv (dr_token e 0)"
    and "bs_not_before b = now + seconds (activation_delay_seconds (sv_policy sv))"
    and "bs_expires_at b = bs_not_before b + seconds (bootstrap_ttl_seconds (sv_policy sv))"
    using q unfolding begin_bootstrap_request_def
    by (auto simp: onward_Inr service_now_def new_credential_def window_def built_def Let_def split: if_splits)
  ultimately show ?thesis
    using code_issued [OF assms(1), of now root "digest_of sv (cap_credential root)" b r s1] D assms(3)
    by (simp add: digest_of_def)
qed

lemma sign_in:
  assumes "ready s" and "begin_bootstrap D sv e root s = (Inr c, s1)" and "cap_purpose root = INITIAL_BOOTSTRAP"
    and policy: "auth_policy_ok (sv_policy sv)" and draws: "good_draw e'" "good_draw e''"
    and "opens_at sv e \<le> instant (dr_clock e')"
    and "instant (dr_clock e') < opens_at sv e + seconds (bootstrap_ttl_seconds (sv_policy sv))"
    and "opens_at sv e' \<le> instant (dr_clock e'')"
    and "instant (dr_clock e'') < opens_at sv e' + seconds (session_ttl_seconds (sv_policy sv))"
  shows "\<exists>x s2 s3. service_exchange D sv e' c None s1 = (Inr x, s2) \<and>
    service_authenticate D sv e'' (bx_session x) s2 = (Inr (oc_handle (bx_session x)), s3)"
proof -
  let ?now = "instant (dr_clock e')"
  let ?x = "proposed_session \<lparr>oc_handle = dr_id e' 0, oc_secret = dr_token e' 0\<rparr> (sv_hash sv (dr_token e' 0))
    (dr_id e' 3) (opens_at sv e') (opens_at sv e' + seconds (session_ttl_seconds (sv_policy sv)))"
  let ?v = "proposed_recovery \<lparr>oc_handle = dr_id e' 1, oc_secret = dr_token e' 1\<rparr> (sv_hash sv (dr_token e' 1))
    (dr_id e' 3) (dr_id e' 3) 1 (opens_at sv e') (opens_at sv e' + seconds (recovery_ttl_seconds (sv_policy sv)))
    (max_attempts (sv_policy sv))"
  note delay = policy_windows(10) [OF policy]
  have req: "exchange_request sv e' c None = Inr (?now, Exchange_Bootstrap (oc_handle c) (digest_of sv c) ?x ?v)"
    using policy_windows [OF policy]
    by (simp add: exchange_request_def good_now [OF draws(1)] good_credential [OF draws(1)]
        good_window [OF draws(1) policy] built_def session_record_ok_def recovery_record_ok_def
        proposed_session_def proposed_recovery_def)
  have "instant (dr_clock e) \<le> ?now" using assms(7) delay by linarith
  then obtain r s2 where D: "D ?now (Exchange_Bootstrap (oc_handle c) (digest_of sv c) ?x ?v) s1 =
      (Inr (R_Decision r), s2)" and r: "1 \<le> bd_epoch r" "bd_replacement r = None"
    and live: "session_live s2 (dr_id e' 0) (sv_hash sv (dr_token e' 0)) (opens_at sv e')
      (opens_at sv e' + seconds (session_ttl_seconds (sv_policy sv))) ?now"
    using code_exchanged [OF begun_code_open [OF assms(1-3)], of ?now ?x ?v] assms(7,8)
    by (auto simp: proposed_session_def)
  let ?c = "\<lparr>oc_handle = dr_id e' 0, oc_secret = dr_token e' 0\<rparr>"
  obtain x where x: "service_exchange D sv e' c None s1 = (Inr x, s2)" and "bx_session x = ?c"
    using r unfolding service_exchange_def ask_def req sum.case prod.case D
    by (simp add: exchange_result_def good_credential [OF draws(1)] built_def bootstrap_exchange_ok_def)
  moreover obtain y s3 where "D (instant (dr_clock e'')) (Authenticate ?c (digest_of sv ?c)) s2 =
      (Inr (R_Session y), s3)" and "ss_handle y = oc_handle ?c"
    using session_accepted [of s2 ?c "digest_of sv ?c" _ _ ?now "instant (dr_clock e'')"] live assms(9,10) delay
    by (force simp: digest_of_def)
  ultimately show ?thesis
    by (intro exI [of _ x] exI [of _ s2] exI [of _ s3])
      (simp add: service_authenticate_def ask_def authenticate_request_def good_now [OF draws(2)])
qed

end


section \<open>The volatile store\<close>

definition epochs_ok :: "auth_state \<Rightarrow> bool" where
  "epochs_ok s \<longleftrightarrow> list_all (\<lambda>(_, a). 1 \<le> ac_epoch a) (a_actors s)"

definition store_ready :: "auth_state \<Rightarrow> bool" where
  "store_ready s \<longleftrightarrow> wf_store s \<and> epochs_ok s \<and> a_crash_once s = None"

definition code_open :: "auth_state \<Rightarrow> uuid \<Rightarrow> bytes \<Rightarrow> int \<Rightarrow> int \<Rightarrow> int \<Rightarrow> bool" where
  "code_open s k d nb ex t \<longleftrightarrow> a_crash_once s = None \<and>
     (\<exists>b a root_id root. map_of (a_bootstraps s) k = Some b \<and> bs_digest b = d \<and> bs_not_before b = nb \<and>
        bs_expires_at b = ex \<and> \<not> bs_consumed b \<and> map_of (a_actors s) (bs_actor_id b) = Some a \<and>
        ac_actor_id a = bs_actor_id b \<and> 1 \<le> ac_epoch a \<and> ac_last_observed a \<le> t \<and> \<not> ac_initialized a \<and>
        bs_root_id b = Some root_id \<and> map_of (a_roots s) root_id = Some root \<and> \<not> rr_consumed root \<and>
        rr_purpose root = INITIAL_BOOTSTRAP \<and> bs_root_purpose b = Some INITIAL_BOOTSTRAP)"

definition session_live :: "auth_state \<Rightarrow> uuid \<Rightarrow> bytes \<Rightarrow> int \<Rightarrow> int \<Rightarrow> int \<Rightarrow> bool" where
  "session_live s k d nb ex t \<longleftrightarrow>
     (\<exists>x a. map_of (a_sessions s) k = Some x \<and> ss_handle x = k \<and> ss_digest x = d \<and> ss_not_before x = nb \<and>
        ss_expires_at x = ex \<and> \<not> ss_revoked x \<and> map_of (a_actors s) (ss_actor_id x) = Some a \<and>
        ss_epoch x = ac_epoch a \<and> ac_last_observed a \<le> t)"

lemma volatile_code_issued:
  assumes "store_ready s" and "create_root_bootstrap root d b now s = (Inr r, s')"
    and "cap_purpose root = INITIAL_BOOTSTRAP" and "\<not> bs_consumed b"
  shows "code_open s' (bs_handle b) (bs_digest b) (bs_not_before b) (bs_expires_at b) now"
proof -
  obtain root_rec actor where ok: "map_of (a_roots s) (oc_handle (cap_credential root)) = Some root_rec"
      "rr_purpose root_rec = INITIAL_BOOTSTRAP" "\<not> rr_consumed root_rec"
    and actor: "map_of (a_actors s) (cap_actor_id root) = Some actor"
    and b: "bs_actor_id b = ac_actor_id actor" "bs_root_id b = Some (oc_handle (cap_credential root))"
      "bs_root_purpose b = Some INITIAL_BOOTSTRAP" "\<not> ac_initialized actor"
    and s': "s' = put_bootstrap (bs_handle b) b (invalidate_bootstraps (ac_actor_id actor) now
       (put_actor (ac_actor_id actor) (actor\<lparr>ac_last_observed := now\<rparr>) s))"
    using assms(1-3) actor_key [of s "cap_actor_id root"]
    unfolding create_root_bootstrap_def validate_root_def decision_Inr store_ready_def
    by (auto dest!: observe_actor_Inr split: option.splits if_splits)
  have "ac_actor_id actor = cap_actor_id root" and "1 \<le> ac_epoch actor"
    using assms(1) actor actor_key map_of_SomeD [OF actor]
    by (auto simp: store_ready_def epochs_ok_def list_all_iff)
  then show ?thesis
    using ok actor b assms(1,4)
    by (simp add: s' code_open_def store_ready_def invalidate_bootstraps_def put_bootstrap_def put_actor_def)
qed

lemma volatile_code_exchanged:
  assumes "code_open s k d nb ex t" and "nb \<le> now" and "now < ex" and "t \<le> now" and "\<not> ss_revoked x"
  shows "\<exists>r s'. exchange_bootstrap k d now x v s = (Inr r, s') \<and> 1 \<le> bd_epoch r \<and> bd_replacement r = None \<and>
    session_live s' (ss_handle x) (ss_digest x) (ss_not_before x) (ss_expires_at x) now"
  using assms
  by (auto simp: code_open_def session_live_def exchange_bootstrap_def observe_actor_def time_denial_def
      the_actor_def Let_def crash_if_armed_def issue_authority_def put_bootstrap_def put_actor_def
      put_root_def put_session_def put_recovery_def)

lemma volatile_session_accepted:
  assumes "session_live s (oc_handle c) d nb ex t" and "nb \<le> now" and "now < ex" and "t \<le> now"
  shows "\<exists>x s'. authenticate_session c d now s = (Inr x, s') \<and> ss_handle x = oc_handle c"
  using assms
  by (auto simp: session_live_def authenticate_session_def authenticate_locked_def observe_actor_def
      time_denial_def the_actor_def)

interpretation volatile_sign_in: sign_in_store "decide H" store_ready code_open session_live for H
proof
  fix s s' now d r and root :: root_capability and b :: bootstrap_record
  assume "store_ready s" and "decide H now (Root_Bootstrap root d b) s = (Inr r, s')"
    and "cap_purpose root = INITIAL_BOOTSTRAP" and "\<not> bs_consumed b"
  then show "code_open s' (bs_handle b) (bs_digest b) (bs_not_before b) (bs_expires_at b) now"
    by (auto simp: accepted_replied intro: volatile_code_issued)
next
  fix s k d nb ex t now and x :: session_record and v :: recovery_record
  assume "code_open s k d nb ex t" and "nb \<le> now" and "now < ex" and "t \<le> now" and "\<not> ss_revoked x"
  from volatile_code_exchanged [OF this]
  show "\<exists>r s'. decide H now (Exchange_Bootstrap k d x v) s = (Inr (R_Decision r), s') \<and> 1 \<le> bd_epoch r \<and>
      bd_replacement r = None \<and>
      session_live s' (ss_handle x) (ss_digest x) (ss_not_before x) (ss_expires_at x) now"
    by (auto simp: accepted_replied)
next
  fix s d nb ex t now and c :: opaque_credential
  assume "session_live s (oc_handle c) d nb ex t" and "nb \<le> now" and "now < ex" and "t \<le> now"
  from volatile_session_accepted [OF this]
  show "\<exists>x s'. decide H now (Authenticate c d) s = (Inr (R_Session x), s') \<and> ss_handle x = oc_handle c"
    by (auto simp: accepted_replied)
qed

text \<open>C21. Signing in completes: when a bootstrap was begun for the installation's initial root, the
  code the service returned can be exchanged by any later call inside its window, and the session
  credential of that exchange authenticates inside the session window.\<close>

theorem sign_in_completes:
  assumes "store_ready s" and "begin_bootstrap (decide H) sv e root s = (Inr c, s1)"
    and "cap_purpose root = INITIAL_BOOTSTRAP" and "auth_policy_ok (sv_policy sv)"
    and "good_draw e'" and "good_draw e''"
    and "opens_at sv e \<le> instant (dr_clock e')"
    and "instant (dr_clock e') < opens_at sv e + seconds (bootstrap_ttl_seconds (sv_policy sv))"
    and "opens_at sv e' \<le> instant (dr_clock e'')"
    and "instant (dr_clock e'') < opens_at sv e' + seconds (session_ttl_seconds (sv_policy sv))"
  shows "\<exists>x s2 s3. service_exchange (decide H) sv e' c None s1 = (Inr x, s2) \<and>
    service_authenticate (decide H) sv e'' (bx_session x) s2 = (Inr (oc_handle (bx_session x)), s3)"
  by (rule volatile_sign_in.sign_in [OF assms])

definition sample_service :: auth_service where
  "sample_service = \<lparr>sv_hash = Hid, sv_policy = default_policy, sv_mode = SYNTHETIC_FULL,
     sv_identity = \<lparr>oc_handle = UUID 15, oc_secret = [1]\<rparr>\<rparr>"

definition sample_draw :: "int \<Rightarrow> 128 word \<Rightarrow> auth_draw" where
  "sample_draw t n = \<lparr>dr_clock = utc t, dr_token = (\<lambda>i. replicate 32 (of_nat i)),
     dr_id = (\<lambda>i. UUID (n + of_nat i))\<rparr>"

lemma sample_draw_good: "t \<le> 1000000000 \<Longrightarrow> good_draw (sample_draw t n)"
  by (simp add: good_draw_def sample_draw_def is_utc_def TOKEN_BYTES_def RECOVERY_MAX_SECONDS_def
      DAY_SECONDS_def max_instant_def)

lemma installed_ready: "store_ready installed"
  using reachable_wf [OF reach_installed]
  by (simp add: store_ready_def epochs_ok_def installed_def actor_at_def)

lemma sample_begin:
  "\<exists>c s1. begin_bootstrap (decide Hid) sample_service (sample_draw 1 21) (cap0 11 INITIAL_BOOTSTRAP) installed =
     (Inr c, s1)"
  by (simp add: begin_bootstrap_def ask_def begin_bootstrap_request_def service_now_def new_credential_def
      window_def Let_def built_def bootstrap_record_ok_def sample_service_def sample_draw_def is_utc_def
      TOKEN_BYTES_def default_policy_def max_instant_def credential_result_def create_root_bootstrap_def
      validate_root_def digest_of_def Hid_def operation_defs sample_store_defs sample_record_defs)

theorem sign_in_completes_witness:
  "\<exists>c s1 x s2 s3.
     begin_bootstrap (decide Hid) sample_service (sample_draw 1 21) (cap0 11 INITIAL_BOOTSTRAP) installed =
       (Inr c, s1) \<and>
     service_exchange (decide Hid) sample_service (sample_draw 2 31) c None s1 = (Inr x, s2) \<and>
     service_authenticate (decide Hid) sample_service (sample_draw 3 41) (bx_session x) s2 =
       (Inr (oc_handle (bx_session x)), s3)"
proof -
  obtain c s1 where c: "begin_bootstrap (decide Hid) sample_service (sample_draw 1 21)
      (cap0 11 INITIAL_BOOTSTRAP) installed = (Inr c, s1)"
    using sample_begin by blast
  have "\<exists>x s2 s3. service_exchange (decide Hid) sample_service (sample_draw 2 31) c None s1 = (Inr x, s2) \<and>
     service_authenticate (decide Hid) sample_service (sample_draw 3 41) (bx_session x) s2 =
       (Inr (oc_handle (bx_session x)), s3)"
    by (rule sign_in_completes [OF installed_ready c])
      (simp_all add: cap0_def sample_draw_good default_policy_ok sample_service_def,
       simp_all add: sample_draw_def default_policy_def)
  with c show ?thesis by blast
qed


section \<open>Static roots\<close>

text \<open>The whole effect of a service call on the store.\<close>

definition serve_call :: "(bytes \<Rightarrow> bytes) \<Rightarrow> auth_service \<Rightarrow> auth_draw \<times> service_call \<Rightarrow> auth_state \<Rightarrow> auth_state" where
  "serve_call H sv = (\<lambda>(e, call) s. case request_of sv e call of
     Inl _ \<Rightarrow> s | Inr (now, q) \<Rightarrow> snd (decide H now q s))"

fun reprovisions :: "auth_request \<Rightarrow> bool" where
  "reprovisions (Root_Bootstrap root _ _) \<longleftrightarrow> cap_purpose root = REPROVISION"
| "reprovisions (Reprovision_Bootstrap _ _ _) \<longleftrightarrow> True"
| "reprovisions (Ceremony _ _ _ _ _ _ _ _ _) \<longleftrightarrow> True"
| "reprovisions (Exchange_Reprovision _ _ _ _ _ _ _ _ _ _ _) \<longleftrightarrow> True"
| "reprovisions _ \<longleftrightarrow> False"

lemmas service_request_defs = begin_bootstrap_request_def begin_authenticated_request_def
  begin_reprovision_request_def require_reprovision_enabled_def cancel_request_def ceremony_request_def
  exchange_request_def exchange_confirmed_request_def authenticate_request_def step_up_request_def
  consume_step_up_request_def rotate_request_def revoke_request_def replacement_request_def
  emergency_request_def recover_request_def validate_grant_request_def collect_request_def

lemma static_requests:
  assumes "sv_mode sv = CUSTODIED_STATIC_ROOTS" and "request_of sv e call = Inr (now, q)"
  shows "\<not> reprovisions q"
  using assms
  by (cases call)
    (auto simp: service_request_defs onward_Inr split: if_splits)

text \<open>An unspent reprovision root, and that no other request spends it.\<close>

definition holds_root :: "uuid \<Rightarrow> root_record \<Rightarrow> auth_state \<Rightarrow> bool" where
  "holds_root k r s \<longleftrightarrow> map_of (a_roots s) k = Some r \<and> rr_purpose r = REPROVISION \<and> \<not> rr_consumed r \<and>
     rr_retired_at r = None"

lemma holds_root_cong: "a_roots s' = a_roots s \<Longrightarrow> holds_root k r s' = holds_root k r s"
  by (simp add: holds_root_def)

lemma holds_root_put [simp]:
  "holds_root k r (put_actor i a s) = holds_root k r s"
  "holds_root k r (put_bootstrap i b s) = holds_root k r s"
  "holds_root k r (put_session i x s) = holds_root k r s"
  "holds_root k r (put_recovery i v s) = holds_root k r s"
  "holds_root k r (put_step_up i u s) = holds_root k r s"
  "holds_root k r (put_grant i g s) = holds_root k r s"
  "holds_root k r (invalidate_bootstraps i now s) = holds_root k r s"
  "holds_root k r (consume_actor_recoveries i now s) = holds_root k r s"
  "holds_root k r (retire_actor_authority i now s) = holds_root k r s"
  "holds_root k r (retire_session_challenges i now s) = holds_root k r s"
  "holds_root k r (issue_authority actor x v s) = holds_root k r s"
  by (rule holds_root_cong; simp add: invalidate_bootstraps_def consume_actor_recoveries_def
      retire_session_challenges_def issue_authority_def Let_def)+

lemma holds_root_put_root:
  "holds_root k r s \<Longrightarrow> map_of (a_roots s) i = Some q \<Longrightarrow> rr_purpose q \<noteq> REPROVISION \<Longrightarrow>
     holds_root k r (put_root i (consume_root now q) s)"
  by (auto simp: holds_root_def)

lemma ends_root_observe: "holds_root k r s \<Longrightarrow> ends (holds_root k r) (observe_actor a now s)"
  by (auto simp: observe_actor_def holds_root_def split: option.split)

lemma ends_root_crash: "holds_root k r s \<Longrightarrow> ends (holds_root k r) (crash_if_armed p s)"
  by (auto simp: crash_if_armed_def holds_root_def)

lemmas ends_root = ends_proceed ends_the_actor ends_root_observe ends_root_crash

lemma ends_root_authenticate: "holds_root k r s \<Longrightarrow> ends (holds_root k r) (authenticate_locked c d now s)"
  unfolding authenticate_locked_def by (auto intro!: ends_root split: option.splits)

lemma ends_root_authorize: "holds_root k r s \<Longrightarrow> ends (holds_root k r) (authorize_grant c d g p now s)"
  unfolding authorize_grant_def by (auto intro!: ends_root ends_root_authenticate split: option.splits)

lemma ends_root_sessions:
  assumes "holds_root k r s"
  shows "ends (holds_root k r) (create_step_up c d now u s)"
    and "ends (holds_root k r) (consume_step_up ch cd c d a p q sc now s)"
    and "ends (holds_root k r) (rotate_session c d now x s)"
    and "ends (holds_root k r) (revoke_session c d now s)"
  using assms unfolding create_step_up_def consume_step_up_def rotate_session_def revoke_session_def Let_def
  by (auto intro!: ends_root ends_root_authenticate split: option.splits)

lemma ends_root_authorized:
  assumes "holds_root k r s"
  shows "ends (holds_root k r) (create_authenticated_bootstrap c d g b now s)"
    and "ends (holds_root k r) (renew_recovery c d g v now s)"
    and "ends (holds_root k r) (revoke_all_authenticated c d g v now s)"
  using assms
  unfolding create_authenticated_bootstrap_def renew_recovery_def revoke_all_authenticated_def Let_def
  by (auto intro!: ends_root ends_root_authorize)

lemma ends_root_bootstraps:
  assumes "holds_root k r s"
  shows "ends (holds_root k r) (create_root_bootstrap root d b now s)"
    and "holds_root k r (cancel_bootstrap h now s)"
    and "ends (holds_root k r) (recover c d now i j s)"
  using assms unfolding create_root_bootstrap_def cancel_bootstrap_def recover_def Let_def
  by (auto intro!: ends_root split: option.splits)

lemma ends_root_emergency:
  assumes "holds_root k r s"
  shows "ends (holds_root k r) (emergency_revoke root d now s)"
  using assms unfolding emergency_revoke_def Let_def validate_root_def
  by (auto intro!: ends_root holds_root_put_root simp: observed_selectors split: option.splits if_splits)

lemma ends_root_exchange:
  assumes "holds_root k r s"
  shows "ends (holds_root k r) (exchange_bootstrap h d now x v s)"
  using assms unfolding exchange_bootstrap_def Let_def
  by (auto intro!: ends_root holds_root_put_root split: option.splits)

lemma ends_root_collect:
  assumes "holds_root k r s" and "wf_store s"
  shows "ends (holds_root k r) (auth_garbage_collect now retention s)"
proof -
  have "map_of (filter (\<lambda>(_, q). \<not> past cutoff (rr_retired_at q) None) (a_roots s)) k = Some r" for cutoff
    using assms
    by (auto simp: holds_root_def wf_store_def indexed_def wf_dict_def past_def map_of_eq_Some_iff
        distinct_map_filter)
  then show ?thesis
    using assms(1) unfolding auth_garbage_collect_def Let_def split_beta
    by (auto simp: holds_root_def gc_ceremonies_def Let_def split_beta)
qed

lemma request_keeps_root:
  assumes "request_of sv e call = Inr (now, q)" and "\<not> reprovisions q" and "holds_root k r s" and "wf_store s"
  shows "holds_root k r (snd (decide H now q s))"
proof -
  have "\<not> (\<exists>i a p rs op sv. q = Initialize i a p rs op sv) \<and> (\<forall>p. q \<noteq> Arm_Crash p)"
    using assms(1)
    by (cases call)
      (auto simp: service_request_defs Let_def onward_Inr split: if_splits option.splits)
  then show ?thesis
    using assms(2-4)
    by (cases q)
      (simp_all flip: ends_def add: authenticate_session_def validate_grant_def ends_root_authenticate
        ends_root_authorize ends_root_sessions ends_root_authorized ends_root_bootstraps
        ends_root_emergency ends_root_exchange ends_root_collect)
qed

lemma serve_call_wf: "wf_store s \<Longrightarrow> wf_store (serve_call H sv p s)"
  by (auto simp: serve_call_def split: prod.splits sum.splits intro: advances_wf [OF decide_advances])

text \<open>A service composed with static roots never spends a reprovision root: whatever calls are
  made, with whatever arguments and clock readings, an unspent reprovision root is still in the
  store unchanged.\<close>

theorem static_roots_are_kept:
  assumes "sv_mode sv = CUSTODIED_STATIC_ROOTS" and "wf_store s" and "map_of (a_roots s) k = Some r"
    and "rr_purpose r = REPROVISION" and "\<not> rr_consumed r" and "rr_retired_at r = None"
  shows "map_of (a_roots (fold (serve_call H sv) calls s)) k = Some r"
proof -
  have "holds_root k r (fold (serve_call H sv) calls s)" if "wf_store s" and "holds_root k r s" for s
    using that
  proof (induction calls arbitrary: s)
    case (Cons p calls)
    obtain e call where p: "p = (e, call)" by (cases p)
    have "holds_root k r (serve_call H sv p s)"
      using request_keeps_root [OF _ static_requests [OF assms(1)]] Cons.prems
      by (auto simp: serve_call_def p split: prod.splits sum.splits)
    then show ?case using Cons serve_call_wf by simp
  qed simp
  then show ?thesis using assms by (simp add: holds_root_def)
qed

theorem static_roots_are_kept_witness:
  "map_of (a_roots (fold (serve_call Hid (sample_service\<lparr>sv_mode := CUSTODIED_STATIC_ROOTS\<rparr>))
     [(sample_draw 3 51, Emergency_Revoke (cap0 12 EMERGENCY_REVOKE))] signed_in)) (UUID 13) =
   Some (root0 13 REPROVISION)"
  using static_roots_are_kept [OF _ reachable_wf [OF reach_signed_in], of
      "sample_service\<lparr>sv_mode := CUSTODIED_STATIC_ROOTS\<rparr>" "UUID 13" "root0 13 REPROVISION" Hid
      "[(sample_draw 3 51, Emergency_Revoke (cap0 12 EMERGENCY_REVOKE))]"]
  by (simp add: signed_in_def root0_def)


section \<open>Failures of the service itself\<close>

text \<open>The grant a call carries passed the constructor of \<^verbatim>\<open>AuthorityGrant\<close>.\<close>

fun call_grant_ok :: "service_call \<Rightarrow> bool" where
  "call_grant_ok (Begin_Authenticated _ grant) = authority_grant_ok grant"
| "call_grant_ok (Renew _ grant) = authority_grant_ok grant"
| "call_grant_ok (Revoke_Everything _ grant) = authority_grant_ok grant"
| "call_grant_ok (Check_Grant grant _) = authority_grant_ok grant"
| "call_grant_ok _ = True"

text \<open>Under a valid policy, a UTC clock below the end of the calendar and a token source that
  keeps its contract, the service fails before its store call only for the three refusals its
  methods state: a scope other than the purpose's, a ceremony proof for another bootstrap, and
  reprovisioning in a composition with static roots.\<close>

theorem service_fails_only_as_stated:
  assumes "auth_policy_ok (sv_policy sv)" and "good_draw e" and "call_grant_ok call"
    and "request_of sv e call = Inl err"
  shows "(err = Refused A_SCOPE_WIDENING \<and>
            (\<exists>session a p purpose scopes. call = Issue_Step_Up session a p purpose scopes \<and>
               scopes \<noteq> {purpose_scope purpose})) \<or>
         (err = Refused A_INVALID_PROOF \<and>
            (\<exists>bootstrap a. call = Exchange_Confirmed bootstrap a \<and>
               ca_bootstrap_handle a \<noteq> oc_handle bootstrap)) \<or>
         (err = Capability_Disabled \<and> sv_mode sv = CUSTODIED_STATIC_ROOTS)"
proof -
  note good = good_now [OF assms(2)] good_credential [OF assms(2)] good_window [OF assms(2,1)]
  have cap: "instant (dr_clock e) + seconds (reprovision_ceremony_ttl_seconds (sv_policy sv)) \<le> max_instant"
    using assms(2) policy_windows(12) [OF assms(1)] by (simp add: good_draw_def)
  show ?thesis
    using assms(3,4) policy_windows [OF assms(1)] cap
    by (cases call)
      (auto simp: service_request_defs good built_def bootstrap_record_ok_def bootstrap_issue_ok_def
        session_record_ok_def recovery_record_ok_def step_up_record_ok_def session_issue_ok_def
        recovery_issue_ok_def proposed_session_def proposed_recovery_def authority_grant_ok_def Let_def
        split: if_splits)
qed

theorem service_fails_only_as_stated_witness:
  "request_of sample_service (sample_draw 3 51) (Issue_Step_Up (cred 31) actor0 profile0 ALL_SESSION_REVOKE {}) =
     Inl (Refused A_SCOPE_WIDENING) \<and> {} \<noteq> {purpose_scope ALL_SESSION_REVOKE}"
proof -
  let ?call = "Issue_Step_Up (cred 31) actor0 profile0 ALL_SESSION_REVOKE {}"
  have r: "request_of sample_service (sample_draw 3 51) ?call = Inl (Refused A_SCOPE_WIDENING)"
    by (simp add: step_up_request_def)
  have "\<exists>session a p purpose scopes. ?call = Issue_Step_Up session a p purpose scopes \<and>
      scopes \<noteq> {purpose_scope purpose}"
    using service_fails_only_as_stated [of sample_service "sample_draw 3 51" ?call, OF _ _ _ r]
    by (simp add: sample_service_def default_policy_ok sample_draw_good)
  with r show ?thesis by simp
qed

end
