(* ===== verification/Auth_Bounds.thy ===== *)
theory Auth_Bounds
  imports Auth_Guarantees "HOL-Library.Multiset"
begin

text \<open>
  Bounds the decision store keeps: guesses at a proof, the observed clock of an actor, the
  number of reprovision ceremonies, and what garbage collection may remove.
\<close>


section \<open>Guessing\<close>

text \<open>Presenting a list of proofs for one bootstrap, one after the other.\<close>

fun presentations ::
    "uuid \<Rightarrow> int \<Rightarrow> session_record \<Rightarrow> recovery_record \<Rightarrow> bytes list \<Rightarrow> auth_state
     \<Rightarrow> (auth_error + bootstrap_decision) list \<times> auth_state" where
  "presentations k now x v [] s = ([], s)"
| "presentations k now x v (d # ds) s =
     (let (r, s1) = exchange_bootstrap k d now x v s;
          (rs, s2) = presentations k now x v ds s1
      in (r # rs, s2))"

definition open_bootstrap :: "uuid \<Rightarrow> int \<Rightarrow> bootstrap_record \<Rightarrow> auth_state \<Rightarrow> bool" where
  "open_bootstrap k now b s \<longleftrightarrow> map_of (a_bootstraps s) k = Some b \<and>
     bs_root_purpose b \<noteq> Some REPROVISION \<and> bs_not_before b \<le> now \<and> now < bs_expires_at b \<and>
     (\<exists>a. map_of (a_actors s) (bs_actor_id b) = Some a \<and> ac_last_observed a \<le> now)"

lemma wrong_presentation:
  assumes "open_bootstrap k now b s" and "\<not> bs_consumed b" and "d \<noteq> bs_digest b"
  obtains s' where "exchange_bootstrap k d now x v s = (Inl (Refused (wrong_proof_denial (bs_attempts b))), s')"
    and "open_bootstrap k now (wrong_bootstrap now b) s'"
  using assms
  by (auto simp: open_bootstrap_def exchange_bootstrap_def observe_actor_def time_denial_def Let_def
      wrong_bootstrap_def retire_bootstrap_def)

lemma spent_presentation:
  assumes "open_bootstrap k now b s" and "bs_consumed b" and "now \<le> t"
  shows "fst (exchange_bootstrap k d t x v s) = Inl (Refused (spent_denial (bs_attempts b)))"
  using assms by (auto simp: open_bootstrap_def exchange_bootstrap_def observe_actor_def)

lemma wrong_bootstrap_fields [simp]:
  "bs_attempts (wrong_bootstrap now b) = bs_attempts b - 1" "bs_digest (wrong_bootstrap now b) = bs_digest b"
  "bs_consumed (wrong_bootstrap now b) \<longleftrightarrow> bs_consumed b \<or> bs_attempts b = 1"
  by (auto simp: wrong_bootstrap_def retire_bootstrap_def Let_def)

lemma wrong_presentations:
  assumes "open_bootstrap k now b s" and "\<not> bs_consumed b" and "bs_attempts b = int (Suc n)"
    and "length ds = Suc n" and "bs_digest b \<notin> set ds"
  shows "\<exists>b' s'. presentations k now x v ds s =
           (replicate n (Inl (Refused A_INVALID_PROOF)) @ [Inl (Refused A_ATTEMPTS_EXHAUSTED)], s') \<and>
         open_bootstrap k now b' s' \<and> bs_consumed b' \<and> bs_attempts b' = 0"
  using assms
proof (induction n arbitrary: b s ds)
  case (0 b s)
  then obtain d where ds: "ds = [d]" by (auto simp: length_Suc_conv)
  then have "d \<noteq> bs_digest b" using 0 by auto
  then obtain s1 where "exchange_bootstrap k d now x v s = (Inl (Refused A_ATTEMPTS_EXHAUSTED), s1)"
    and "open_bootstrap k now (wrong_bootstrap now b) s1"
    using 0 wrong_presentation [of k now b s d x v] by (auto simp: wrong_proof_denial_def)
  then show ?case
    using 0 by (intro exI [of _ "wrong_bootstrap now b"] exI [of _ s1]) (simp add: ds)
next
  case (Suc n b s)
  then obtain d ds' where ds: "ds = d # ds'" and "d \<noteq> bs_digest b" by (auto simp: length_Suc_conv)
  then obtain s1 where s1: "exchange_bootstrap k d now x v s = (Inl (Refused A_INVALID_PROOF), s1)"
    and "open_bootstrap k now (wrong_bootstrap now b) s1"
    using Suc.prems wrong_presentation [of k now b s d x v] by (auto simp: wrong_proof_denial_def)
  then show ?case
    using Suc.IH [of "wrong_bootstrap now b" s1 ds'] Suc.prems ds by (auto simp: s1)
qed

text \<open>Presentations only age the store, and aged codes never regain an attempt.\<close>

lemma presentations_wf:
  assumes "wf_store s"
  shows "wf_store (snd (presentations k now x v ds s))"
  using assms
proof (induction ds arbitrary: s)
  case (Cons d ds)
  have "wf_store (snd (exchange_bootstrap k d now x v s))"
    using ends_exchange [OF advances_refl [OF Cons.prems, of UNIV], of x v k d now]
    by (simp add: ends_def advances_wf)
  from Cons.IH [OF this] show ?case by (simp add: split_beta Let_def)
qed simp

lemma attempts_never_return:
  assumes "auth_steps H s U s2 U2" and "wf_store s" and "k \<in> U"
    and "map_of (a_bootstraps s) k = Some b" and "map_of (a_bootstraps s2) k = Some c"
  shows "bs_attempts c \<le> bs_attempts b \<and> (bs_consumed b \<longrightarrow> bs_consumed c)"
  using auth_steps_advances [OF assms(1,2)] assms(3-5)
  unfolding advances_def grows_def bootstrap_le_def by fastforce

text \<open>C18. Guessing a bootstrap code is bounded in the decision store of \<^verbatim>\<open>adapters/auth/volatile.py\<close>: \<open>n\<close> wrong proofs
  against a code with \<open>n\<close> attempts left are answered with \<open>n - 1\<close> invalid-proof denials and one exhaustion; from
  then on, whatever requests follow and whenever, no presentation of the code, not even with the right proof, is
  accepted; and no run of requests ever gives a code an attempt back, so guesses between other requests count as
  well.\<close>

theorem bootstrap_guesses_bounded:
  assumes "auth_reachable H s U" and "map_of (a_bootstraps s) k = Some b" and "bs_root_purpose b \<noteq> Some REPROVISION"
    and "\<not> bs_consumed b" and "bs_attempts b = int n" and "0 < n"
    and "bs_not_before b \<le> now" and "now < bs_expires_at b"
    and "map_of (a_actors s) (bs_actor_id b) = Some a" and "ac_last_observed a \<le> now"
    and "length ds = n" and "bs_digest b \<notin> set ds"
  shows "fst (presentations k now x v ds s) =
           replicate (n - 1) (Inl (Refused A_INVALID_PROOF)) @ [Inl (Refused A_ATTEMPTS_EXHAUSTED)] \<and>
         (now \<le> t \<longrightarrow> fst (exchange_bootstrap k d t x v (snd (presentations k now x v ds s))) =
           Inl (Refused A_ATTEMPTS_EXHAUSTED)) \<and>
         (\<forall>s2 U2 d t x' v'. auth_steps H (snd (presentations k now x v ds s)) U s2 U2 \<longrightarrow>
           (\<exists>e. fst (exchange_bootstrap k d t x' v' s2) = Inl e)) \<and>
         (\<forall>s2 U2 c. auth_steps H s U s2 U2 \<longrightarrow> map_of (a_bootstraps s2) k = Some c \<longrightarrow>
           bs_attempts c \<le> bs_attempts b)"
proof -
  have "bootstrap_usable k s" using assms(2,4) by (simp add: bootstrap_usable_def)
  then have k: "k \<in> U" by (rule bootstraps.known [OF reachable_issued [OF assms(1)]])
  have wf: "wf_store s" by (rule reachable_wf [OF assms(1)])
  obtain m where "n = Suc m" using assms(6) by (cases n) auto
  moreover have "open_bootstrap k now b s" using assms by (simp add: open_bootstrap_def)
  ultimately obtain b' s' where run: "presentations k now x v ds s =
      (replicate (n - 1) (Inl (Refused A_INVALID_PROOF)) @ [Inl (Refused A_ATTEMPTS_EXHAUSTED)], s')"
    and b': "open_bootstrap k now b' s'" "bs_consumed b'" "bs_attempts b' = 0"
    using wrong_presentations [of k now b s m ds x v] assms(4,5,11,12) by auto
  have spent: "\<not> bootstrap_usable k s'" using b' by (simp add: open_bootstrap_def bootstrap_usable_def)
  have "wf_store s'" using presentations_wf [OF wf, of k now x v ds] run by simp
  then have "\<exists>e. fst (exchange_bootstrap k d t x' v' s2) = Inl e" if "auth_steps H s' U s2 U2" for s2 U2 d t x' v'
    using bootstraps.refused_when_spent [OF bootstraps.spent_stays [OF that _ k spent], of "(d, t, x', v')"]
    by (simp add: present_bootstrap_def)
  moreover have "fst (exchange_bootstrap k d t x v s') = Inl (Refused A_ATTEMPTS_EXHAUSTED)" if "now \<le> t"
    using spent_presentation [OF b'(1,2) that, of d x v] b'(3) by (simp add: spent_denial_def)
  moreover have "bs_attempts c \<le> bs_attempts b"
    if "auth_steps H s U s2 U2" "map_of (a_bootstraps s2) k = Some c" for s2 U2 c
    using attempts_never_return [OF that(1) wf k assms(2) that(2)] by blast
  ultimately show ?thesis using run by auto
qed

theorem bootstrap_guesses_bounded_witness:
  "fst (presentations (UUID 21) 2 (session0 31) (recovery0 32) [[7], [8]] started) =
     [Inl (Refused A_INVALID_PROOF), Inl (Refused A_ATTEMPTS_EXHAUSTED)] \<and>
   fst (exchange_bootstrap (UUID 21) [1] 3 (session0 31) (recovery0 32)
     (snd (presentations (UUID 21) 2 (session0 31) (recovery0 32) [[7], [8]] started))) =
     Inl (Refused A_ATTEMPTS_EXHAUSTED)"
proof -
  have "map_of (a_bootstraps started) (UUID 21) = Some (bootstrap0 21 (Some (UUID 11, INITIAL_BOOTSTRAP)))"
    and "map_of (a_actors started) actor0 = Some (actor_at 1 1 False)"
    by (simp_all add: started_def)
  then show ?thesis
    using bootstrap_guesses_bounded [OF reach_started, of "UUID 21" "bootstrap0 21 (Some (UUID 11, INITIAL_BOOTSTRAP))"
        2 2 "actor_at 1 1 False" "[[7], [8]]" "session0 31" "recovery0 32" 3 "[1]"]
    by (simp add: bootstrap0_def actor_at_def)
qed


section \<open>The observed clock\<close>

text \<open>Time does not run back for an actor: if a session of an actor authenticated at \<open>t\<close>, then
  after any further requests a session of the same actor authenticates only at \<open>t\<close> or later.\<close>

theorem actor_clock_monotone:
  assumes "auth_reachable H s U" and "authenticate_session c d t s = (Inr x, s1)"
    and "auth_steps H s1 U s2 U2"
    and "authenticate_session c' d' t' s2 = (Inr x', s3)" and "ss_actor_id x' = ss_actor_id x"
  shows "t \<le> t'"
proof -
  from assms(2) obtain a where "map_of (a_actors s1) (ss_actor_id x) = Some a" and "ac_last_observed a = t"
    by (rule authenticate_accepts) auto
  moreover have "wf_store s1"
    using ends_authenticate [OF advances_refl [OF reachable_wf [OF assms(1)], of UNIV], of c d t] assms(2)
    by (auto simp: authenticate_session_def dest: advances_wf)
  ultimately obtain b where b: "map_of (a_actors s2) (ss_actor_id x) = Some b" and "t \<le> ac_last_observed b"
    using auth_steps_advances [OF assms(3)] unfolding advances_def persists_def actor_le_def by blast
  from assms(4) have "ac_last_observed b \<le> t'"
    by (rule authenticate_accepts) (use b assms(5) in simp)
  with \<open>t \<le> ac_last_observed b\<close> show ?thesis by simp
qed

theorem actor_clock_monotone_witness:
  "\<exists>s1 s3. authenticate_session (cred 31) [1] 4 signed_in = (Inr (session0 31), s1) \<and>
     authenticate_session (cred 31) [1] 5 s1 = (Inr (session0 31), s3) \<and> (4 :: int) \<le> 5"
proof -
  let ?s1 = "signed_in\<lparr>a_actors := [(actor0, actor_at 1 4 True)]\<rparr>"
  have 1: "authenticate_session (cred 31) [1] 4 signed_in = (Inr (session0 31), ?s1)"
    by (simp add: authenticate_session_def operation_defs sample_store_defs sample_record_defs)
  have 2: "authenticate_session (cred 31) [1] 5 ?s1 =
      (Inr (session0 31), signed_in\<lparr>a_actors := [(actor0, actor_at 1 5 True)]\<rparr>)"
    by (simp add: authenticate_session_def operation_defs sample_store_defs sample_record_defs)
  show ?thesis
    using 1 2 actor_clock_monotone [OF reach_signed_in 1 auth_refl 2 refl] by blast
qed


section \<open>Ceremonies\<close>

lemma fold_delete: "fold AList.delete ks d = filter (\<lambda>(k, _). k \<notin> set ks) d"
  by (induction ks arbitrary: d) (auto simp: AList.delete_eq intro!: filter_cong)

lemma filter_notin_take: "distinct xs \<Longrightarrow> filter (\<lambda>x. x \<notin> set (take m xs)) xs = drop m xs"
proof (induction xs arbitrary: m)
  case (Cons a xs)
  show ?case
  proof (cases m)
    case (Suc m')
    have "filter (\<lambda>x. x \<noteq> a \<and> x \<notin> set (take m' xs)) xs = filter (\<lambda>x. x \<notin> set (take m' xs)) xs"
      using Cons.prems by (intro filter_cong) auto
    then show ?thesis using Cons Suc by simp
  qed simp
qed simp

definition tombstones :: "uuid \<Rightarrow> auth_state \<Rightarrow> (uuid, ceremony_record) dict" where
  "tombstones h s = filter (\<lambda>(_, c). ce_service_handle c = h \<and> ce_terminal_at c \<noteq> None) (a_ceremonies s)"

definition doomed_tombstones :: "uuid \<Rightarrow> int \<Rightarrow> auth_state \<Rightarrow> uuid list" where
  "doomed_tombstones h n s =
     (let ordered = map fst (sort_key (\<lambda>(k, c). (the (ce_terminal_at c), k)) (tombstones h s))
      in take (nat (len ordered - n)) ordered)"

lemma trim_eq:
  "a_ceremonies (trim_tombstones h n s) =
     filter (\<lambda>(k, _). k \<notin> set (doomed_tombstones h n s)) (a_ceremonies s)"
  unfolding trim_tombstones_def doomed_tombstones_def tombstones_def Let_def fold_delete by simp

lemma doomed_finished:
  assumes "wf_dict (a_ceremonies s)" and "k \<in> set (doomed_tombstones h n s)" and "(k, c) \<in> set (a_ceremonies s)"
  shows "ce_terminal_at c \<noteq> None"
proof -
  have "k \<in> fst ` set (tombstones h s)"
    using assms(2) by (auto simp: doomed_tombstones_def Let_def dest!: in_set_takeD)
  then obtain c' where "(k, c') \<in> set (a_ceremonies s)" and "ce_terminal_at c' \<noteq> None"
    by (auto simp: tombstones_def)
  moreover have "c' = c"
    using wf_dict_map_of [OF assms(1), of k] calculation(1) assms(3) by (metis option.inject)
  ultimately show ?thesis by simp
qed

lemma doomed_open:
  "wf_dict (a_ceremonies s) \<Longrightarrow> (k, c) \<in> set (a_ceremonies s) \<Longrightarrow> ce_terminal_at c = None \<Longrightarrow>
     k \<notin> set (doomed_tombstones h n s)"
  using doomed_finished by blast

lemma trim_bounds:
  assumes "wf_dict (a_ceremonies s)" and "0 \<le> n"
  shows "len (tombstones h (trim_tombstones h n s)) \<le> n"
proof -
  let ?keys = "map fst (tombstones h s)"
  define ord where "ord = map fst (sort_key (\<lambda>(k, c). (the (ce_terminal_at c), k)) (tombstones h s))"
  have perm: "mset ord = mset ?keys" by (simp add: ord_def mset_map)
  moreover have "distinct ?keys"
    using assms(1) by (simp add: tombstones_def wf_dict_def distinct_map_filter)
  ultimately have d: "distinct ord" by (metis mset_eq_imp_distinct_iff)
  have doom: "doomed_tombstones h n s = take (nat (len ord - n)) ord"
    by (simp only: doomed_tombstones_def Let_def ord_def)
  have "tombstones h (trim_tombstones h n s) =
      filter (\<lambda>p. fst p \<notin> set (doomed_tombstones h n s)) (tombstones h s)"
    unfolding tombstones_def trim_eq filter_filter by (rule filter_cong) auto
  then have "length (tombstones h (trim_tombstones h n s)) =
      length (filter (\<lambda>k. k \<notin> set (doomed_tombstones h n s)) ?keys)"
    by (simp add: filter_map comp_def)
  also have "\<dots> = length (filter (\<lambda>k. k \<notin> set (doomed_tombstones h n s)) ord)"
    by (metis mset_filter perm size_mset)
  also have "\<dots> = length (drop (nat (len ord - n)) ord)"
    unfolding doom by (simp only: filter_notin_take [OF d])
  finally show ?thesis using assms(2) by simp
qed

lemma trim_keeps_active:
  assumes "wf_dict (a_ceremonies s)"
  shows "active_ceremonies h inst (trim_tombstones h' n s) = active_ceremonies h inst s"
proof -
  have "filter (\<lambda>(_, c). ce_service_handle c = h \<and> ce_installation_id c = inst \<and> ce_terminal_at c = None)
      (a_ceremonies (trim_tombstones h' n s)) =
    filter (\<lambda>(_, c). ce_service_handle c = h \<and> ce_installation_id c = inst \<and> ce_terminal_at c = None)
      (a_ceremonies s)"
    unfolding trim_eq filter_filter
    by (rule filter_cong [OF refl]) (auto simp: doomed_open [OF assms])
  then show ?thesis by (simp add: active_ceremonies_def)
qed

lemma trim_keeps_entry:
  assumes "wf_dict (a_ceremonies s)" and "map_of (a_ceremonies s) k = Some c" and "ce_terminal_at c = None"
  shows "map_of (a_ceremonies (trim_tombstones h n s)) k = Some c"
proof -
  have "(k, c) \<in> set (a_ceremonies (trim_tombstones h n s))"
    using doomed_open [OF assms(1) map_of_SomeD [OF assms(2)] assms(3)] map_of_SomeD [OF assms(2)] by (simp add: trim_eq)
  moreover have "wf_dict (a_ceremonies (trim_tombstones h n s))"
    using assms(1) by (simp add: trim_eq wf_dict_def distinct_map_filter)
  ultimately show ?thesis by (simp add: wf_dict_map_of)
qed

lemma update_fresh: "k \<notin> keys d \<Longrightarrow> AList.update k v d = d @ [(k, v)]"
  by (induction d) auto

lemma wf_gc_ceremonies: "wf_dict (a_ceremonies s) \<Longrightarrow> wf_dict (a_ceremonies (snd (gc_ceremonies now s)))"
  by (auto simp: gc_ceremonies_def Let_def wf_dict_def map_vals_def comp_def split_beta
      intro!: distinct_map_filter)

lemma ceremony_Inr:
  assumes "create_reprovision_ceremony H sv sd op od k i now n m r s = (Inr u, s')"
  shows "\<exists>c. s' = trim_tombstones (oc_handle sv) m (put_ceremony (ci_handle i) c (snd (gc_ceremonies now s))) \<and>
     ce_terminal_at c = None \<and> 1 \<le> m \<and> ce_service_handle c = oc_handle sv \<and>
     active_ceremonies (oc_handle sv) (ce_installation_id c) (snd (gc_ceremonies now s)) < n \<and>
     ci_handle i \<notin> keys (a_ceremonies (snd (gc_ceremonies now s)))"
  using assms unfolding create_reprovision_ceremony_def Let_def decision_Inr prod.inject
  by (elim exE conjE, intro exI conjI) (simp, erule sym, simp_all)

text \<open>Authorizing a reprovision ceremony keeps the number of open ceremonies of the service in
  the installation within the active capacity and the number of its finished ceremonies within the
  tombstone capacity.\<close>

theorem ceremonies_within_capacity:
  assumes "create_reprovision_ceremony H sv sd op od k i now n m r s = (Inr u, s')"
    and "wf_dict (a_ceremonies s)"
  shows "len (tombstones (oc_handle sv) s') \<le> m \<and>
    (\<exists>c. map_of (a_ceremonies s') (ci_handle i) = Some c \<and> ce_terminal_at c = None \<and>
      active_ceremonies (oc_handle sv) (ce_installation_id c) s' \<le> n)"
proof -
  let ?h = "oc_handle sv"
  define s1 where s1: "s1 = snd (gc_ceremonies now s)"
  obtain c where c: "ce_terminal_at c = None" "ce_service_handle c = ?h"
    and m: "1 \<le> m" and less: "active_ceremonies ?h (ce_installation_id c) s1 < n"
    and new: "ci_handle i \<notin> keys (a_ceremonies s1)"
    and s': "s' = trim_tombstones ?h m (put_ceremony (ci_handle i) c s1)"
    using ceremony_Inr [OF assms(1)] unfolding s1 by blast
  let ?s2 = "put_ceremony (ci_handle i) c s1"
  have wf: "wf_dict (a_ceremonies ?s2)"
    using wf_gc_ceremonies [OF assms(2)] s1 by simp
  have "active_ceremonies ?h (ce_installation_id c) ?s2 = active_ceremonies ?h (ce_installation_id c) s1 + 1"
    using c by (simp add: active_ceremonies_def update_fresh [OF new])
  then have "active_ceremonies ?h (ce_installation_id c) s' \<le> n"
    using less trim_keeps_active [OF wf] s' by simp
  moreover have "map_of (a_ceremonies s') (ci_handle i) = Some c"
    using trim_keeps_entry [OF wf, of "ci_handle i" c] c s' by simp
  ultimately show ?thesis
    using c trim_bounds [OF wf, of m ?h] m s' by auto
qed

theorem ceremonies_within_capacity_witness:
  "\<exists>u s'. create_reprovision_ceremony Hid (cred 15) [1] (cred 14) [1] (UUID 51)
       \<lparr>ci_handle = UUID 71, ci_digest = [1], ci_expires_at = 60\<rparr> 5 1 1 300
       (signed_in\<lparr>a_bootstraps := [(UUID 51, bootstrap0 51 (Some (UUID 13, REPROVISION)))]\<rparr>) = (Inr u, s') \<and>
     len (tombstones (UUID 15) s') \<le> 1 \<and> active_ceremonies (UUID 15) inst0 s' \<le> 1"
proof -
  let ?s = "signed_in\<lparr>a_bootstraps := [(UUID 51, bootstrap0 51 (Some (UUID 13, REPROVISION)))]\<rparr>"
  let ?i = "\<lparr>ci_handle = UUID 71, ci_digest = [1], ci_expires_at = 60\<rparr>"
  let ?c = "\<lparr>ce_handle = UUID 71, ce_digest = [1], ce_bootstrap_handle = UUID 51, ce_installation_id = inst0,
    ce_service_handle = UUID 15, ce_expires_at = 60, ce_replay_seconds = 300, ce_terminal_at = None,
    ce_terminal_denial = None\<rparr>"
  have ok: "create_reprovision_ceremony Hid (cred 15) [1] (cred 14) [1] (UUID 51) ?i 5 1 1 300 ?s =
      (Inr (UUID 71), ?s\<lparr>a_ceremonies := [(UUID 71, ?c)]\<rparr>)"
    by (simp add: create_reprovision_ceremony_def gc_ceremonies_def trim_tombstones_def active_ceremonies_def
        put_ceremony_def Let_def map_vals_def sample_store_defs sample_record_defs Hid_def
        ceremony_record_ok_def DAY_SECONDS_def consume_root_def)
  show ?thesis
    using ok ceremonies_within_capacity [OF ok]
    by (simp add: signed_in_def installed_def cred_def)
qed


section \<open>Garbage collection\<close>

definition surviving :: "('v \<Rightarrow> bool) \<Rightarrow> 'v option \<Rightarrow> 'v option" where
  "surviving gone m = (case m of None \<Rightarrow> None | Some v \<Rightarrow> if gone v then None else Some v)"

lemma map_of_surviving:
  assumes "indexed f d"
  shows "map_of (filter (\<lambda>(_, v). \<not> gone v) d) k = surviving gone (map_of d k)"
proof -
  have "wf_dict d" using assms by (simp add: indexed_def)
  then show ?thesis
  proof (induction d)
    case (Cons p d)
    obtain a v where p: "p = (a, v)" by (cases p)
    then have "map_of d a = None" using Cons.prems by (simp add: map_of_eq_None_iff)
    then show ?case using Cons p by (cases "a = k") (simp_all add: surviving_def)
  qed (simp add: surviving_def)
qed

text \<open>Collection with a valid retention removes exactly the records that were retired, or whose
  validity ended, at least the retention period ago, and leaves every other root, bootstrap,
  session, recovery proof, challenge and grant as it was; actors are never removed.\<close>

theorem collection_is_exact:
  assumes "wf_store s" and "0 \<le> retention" and "retention \<le> 86400"
    and "auth_garbage_collect now retention s = (r, s')" and "cutoff = now - seconds retention"
  shows "a_actors s' = a_actors s \<and>
    map_of (a_roots s') k = surviving (\<lambda>x. past cutoff (rr_retired_at x) None) (map_of (a_roots s) k) \<and>
    map_of (a_bootstraps s') k =
      surviving (\<lambda>x. past cutoff (bs_retired_at x) (Some (bs_expires_at x))) (map_of (a_bootstraps s) k) \<and>
    map_of (a_sessions s') k =
      surviving (\<lambda>x. past cutoff (ss_retired_at x) (Some (ss_expires_at x))) (map_of (a_sessions s) k) \<and>
    map_of (a_recoveries s') k =
      surviving (\<lambda>x. past cutoff (rv_retired_at x) (Some (rv_expires_at x))) (map_of (a_recoveries s) k) \<and>
    map_of (a_step_ups s') k =
      surviving (\<lambda>x. past cutoff (su_retired_at x) (Some (su_expires_at x))) (map_of (a_step_ups s) k) \<and>
    map_of (a_grants s') k =
      surviving (\<lambda>p. gr_expires_at (gp_grant p) \<le> cutoff) (map_of (a_grants s) k)"
proof -
  have s': "s' = snd (auth_garbage_collect now retention s)" using assms(4) by simp
  have range: "\<not> (retention < 0 \<or> 86400 < retention)" using assms(2,3) by simp
  have ix: "indexed rr_handle (a_roots s)" "indexed bs_handle (a_bootstraps s)"
    "indexed ss_handle (a_sessions s)" "indexed rv_handle (a_recoveries s)"
    "indexed su_handle (a_step_ups s)" "indexed (\<lambda>p. gr_evidence_id (gp_grant p)) (a_grants s)"
    using assms(1) by (simp_all add: wf_store_def)
  note kept = ix [THEN map_of_surviving, unfolded split_def]
  show ?thesis
    by (simp add: s' auth_garbage_collect_def range gc_ceremonies_def Let_def split_def assms(5))
      (intro conjI; rule kept)
qed

theorem collection_is_exact_witness:
  "\<exists>r s'. auth_garbage_collect 200000003 100 signed_out = (r, s') \<and>
     map_of (a_sessions s') (UUID 31) = None \<and> map_of (a_roots s') (UUID 13) = Some (root0 13 REPROVISION)"
proof -
  let ?x = "auth_garbage_collect 200000003 100 signed_out"
  have "a_actors (snd ?x) = a_actors signed_out \<and> map_of (a_sessions (snd ?x)) (UUID 31) = None"
    using collection_is_exact [OF reachable_wf [OF reach_signed_out], of 100 200000003 "fst ?x" "snd ?x"
        "200000003 - seconds 100" "UUID 31"]
    by (simp add: surviving_def past_def sample_store_defs sample_record_defs retire_session_def)
  moreover have "map_of (a_roots (snd ?x)) (UUID 13) = Some (root0 13 REPROVISION)"
    using collection_is_exact [OF reachable_wf [OF reach_signed_out], of 100 200000003 "fst ?x" "snd ?x"
        "200000003 - seconds 100" "UUID 13"]
    by (simp add: surviving_def past_def sample_store_defs sample_record_defs)
  ultimately show ?thesis by (metis prod.collapse)
qed

end
