(* ===== verification/Auth_Snapshot.thy ===== *)
theory Auth_Snapshot
  imports Auth_Bounds
begin

text \<open>
  The durable form of the decision store: the explicit snapshot with its consistency check
  (\<^verbatim>\<open>AuthStateSnapshotV1\<close> of \<^verbatim>\<open>application/auth.py\<close>), export and rehydration of the volatile store
  (\<^verbatim>\<open>adapters/auth/volatile.py\<close>), the custody bundle that a loaded store is compared with, and the
  proof that every decision leaves a store that can be rehydrated.
\<close>

section \<open>Snapshots\<close>

record auth_snapshot =
  sn_actors :: "actor_record list"
  sn_installation_actors :: "(uuid \<times> uuid) list"
  sn_roots :: "root_record list"
  sn_bootstraps :: "bootstrap_record list"
  sn_sessions :: "session_record list"
  sn_recoveries :: "recovery_record list"
  sn_step_ups :: "step_up_record list"
  sn_grants :: "grant_provenance list"
  sn_compositions :: "composition_record list"
  sn_ceremonies :: "ceremony_record list"

text \<open>\<open>find_by f xs k\<close>: the record of \<open>xs\<close> whose key is \<open>k\<close>.\<close>

definition find_by :: "('v \<Rightarrow> 'k) \<Rightarrow> 'v list \<Rightarrow> 'k \<Rightarrow> 'v option" where
  "find_by f xs = map_of (map (\<lambda>x. (f x, x)) xs)"

abbreviation gp_evidence :: "grant_provenance \<Rightarrow> uuid" where
  "gp_evidence p \<equiv> gr_evidence_id (gp_grant p)"

definition unique_keys :: "auth_snapshot \<Rightarrow> bool" where
  "unique_keys sn \<longleftrightarrow>
     distinct (map ac_actor_id (sn_actors sn)) \<and> distinct (map rr_handle (sn_roots sn)) \<and>
     distinct (map bs_handle (sn_bootstraps sn)) \<and> distinct (map ss_handle (sn_sessions sn)) \<and>
     distinct (map rv_handle (sn_recoveries sn)) \<and> distinct (map su_handle (sn_step_ups sn)) \<and>
     distinct (map ce_handle (sn_ceremonies sn)) \<and> distinct (map fst (sn_installation_actors sn)) \<and>
     distinct (map co_installation_id (sn_compositions sn))"

definition coverage_ok :: "auth_snapshot \<Rightarrow> bool" where
  "coverage_ok sn \<longleftrightarrow>
     distinct (map snd (sn_installation_actors sn)) \<and>
     set (map snd (sn_installation_actors sn)) = set (map ac_actor_id (sn_actors sn)) \<and>
     set (map fst (sn_installation_actors sn)) = set (map co_installation_id (sn_compositions sn))"

definition actor_bound :: "auth_snapshot \<Rightarrow> uuid \<Rightarrow> uuid \<Rightarrow> bool" where
  "actor_bound sn actor_id profile_id \<longleftrightarrow>
     (case find_by ac_actor_id (sn_actors sn) actor_id of
        None \<Rightarrow> False | Some a \<Rightarrow> ac_profile_id a = profile_id)"

definition epoch_reached :: "auth_snapshot \<Rightarrow> uuid \<Rightarrow> int \<Rightarrow> bool" where
  "epoch_reached sn actor_id epoch \<longleftrightarrow>
     (case find_by ac_actor_id (sn_actors sn) actor_id of None \<Rightarrow> False | Some a \<Rightarrow> epoch \<le> ac_epoch a)"

definition roots_bound :: "auth_snapshot \<Rightarrow> bool" where
  "roots_bound sn \<longleftrightarrow>
     list_all (\<lambda>r. map_of (sn_installation_actors sn) (rr_installation_id r) = Some (rr_actor_id r) \<and>
                   actor_bound sn (rr_actor_id r) (rr_profile_id r)) (sn_roots sn) \<and>
     distinct (map (\<lambda>r. (rr_installation_id r, rr_purpose r)) (filter (\<lambda>r. \<not> rr_consumed r) (sn_roots sn)))"

fun handles_unique :: "uuid set \<Rightarrow> composition_record list \<Rightarrow> bool" where
  "handles_unique seen [] \<longleftrightarrow> True"
| "handles_unique seen (c # cs) \<longleftrightarrow>
     co_operator_handle c \<notin> seen \<and> co_service_handle c \<notin> seen \<and>
     handles_unique (seen \<union> {co_operator_handle c, co_service_handle c}) cs"

definition records_bound :: "auth_snapshot \<Rightarrow> bool" where
  "records_bound sn \<longleftrightarrow>
     list_all (\<lambda>b. actor_bound sn (bs_actor_id b) (bs_profile_id b)) (sn_bootstraps sn) \<and>
     list_all (\<lambda>x. actor_bound sn (ss_actor_id x) (ss_profile_id x) \<and>
                   epoch_reached sn (ss_actor_id x) (ss_epoch x)) (sn_sessions sn) \<and>
     list_all (\<lambda>x. actor_bound sn (rv_actor_id x) (rv_profile_id x) \<and>
                   epoch_reached sn (rv_actor_id x) (rv_epoch x)) (sn_recoveries sn) \<and>
     list_all (\<lambda>x. actor_bound sn (su_actor_id x) (su_profile_id x) \<and>
                   epoch_reached sn (su_actor_id x) (su_epoch x)) (sn_step_ups sn)"

definition bootstraps_bound :: "auth_snapshot \<Rightarrow> bool" where
  "bootstraps_bound sn \<longleftrightarrow> list_all (\<lambda>b.
     case bs_root_id b of
       None \<Rightarrow> True
     | Some root_id \<Rightarrow>
         (case find_by rr_handle (sn_roots sn) root_id of
            None \<Rightarrow> False
          | Some r \<Rightarrow> bs_root_purpose b = Some (rr_purpose r) \<and> bs_actor_id b = rr_actor_id r \<and>
                      bs_profile_id b = rr_profile_id r)) (sn_bootstraps sn)"

definition step_ups_bound :: "auth_snapshot \<Rightarrow> bool" where
  "step_ups_bound sn \<longleftrightarrow> list_all (\<lambda>u.
     case find_by ss_handle (sn_sessions sn) (su_session_id u) of
       None \<Rightarrow> su_consumed u
     | Some x \<Rightarrow> su_actor_id u = ss_actor_id x \<and> su_profile_id u = ss_profile_id x \<and>
                 su_epoch u = ss_epoch x) (sn_step_ups sn)"

definition grants_bound :: "auth_snapshot \<Rightarrow> bool" where
  "grants_bound sn \<longleftrightarrow>
     distinct (map gp_evidence (sn_grants sn)) \<and>
     list_all (\<lambda>p. let g = gp_grant p in
       actor_bound sn (gr_actor_id g) (gr_profile_id g) \<and> epoch_reached sn (gr_actor_id g) (gr_epoch g) \<and>
       (case find_by ss_handle (sn_sessions sn) (gr_session_id g) of
          None \<Rightarrow> True
        | Some x \<Rightarrow> ss_actor_id x = gr_actor_id g \<and> ss_profile_id x = gr_profile_id g \<and>
                    ss_epoch x = gr_epoch g) \<and>
       (case find_by su_handle (sn_step_ups sn) (gr_evidence_id g) of
          None \<Rightarrow> True
        | Some u \<Rightarrow> su_actor_id u = gr_actor_id g \<and> su_profile_id u = gr_profile_id g \<and>
                    su_session_id u = gr_session_id g \<and> su_epoch u = gr_epoch g \<and>
                    su_purpose u = gr_purpose g \<and> su_scopes u = gr_scopes g)) (sn_grants sn)"

definition ceremonies_bound :: "auth_snapshot \<Rightarrow> bool" where
  "ceremonies_bound sn \<longleftrightarrow> list_all (\<lambda>c.
     (case find_by co_installation_id (sn_compositions sn) (ce_installation_id c) of
        None \<Rightarrow> False | Some m \<Rightarrow> co_service_handle m = ce_service_handle c) \<and>
     (case find_by bs_handle (sn_bootstraps sn) (ce_bootstrap_handle c) of
        None \<Rightarrow> ce_terminal_at c \<noteq> None
      | Some b \<Rightarrow> bs_root_purpose b = Some REPROVISION \<and>
          (case bs_root_id b of
             None \<Rightarrow> False
           | Some root_id \<Rightarrow>
               (case find_by rr_handle (sn_roots sn) root_id of
                  None \<Rightarrow> False
                | Some r \<Rightarrow> rr_purpose r = REPROVISION \<and> rr_installation_id r = ce_installation_id c \<and>
                            rr_actor_id r = bs_actor_id b \<and> rr_profile_id r = bs_profile_id b))))
     (sn_ceremonies sn)"

definition auth_snapshot_ok :: "auth_snapshot \<Rightarrow> bool" where
  "auth_snapshot_ok sn \<longleftrightarrow>
     unique_keys sn \<and> coverage_ok sn \<and> roots_bound sn \<and>
     handles_unique (set (map rr_handle (sn_roots sn))) (sn_compositions sn) \<and>
     records_bound sn \<and> bootstraps_bound sn \<and> step_ups_bound sn \<and> grants_bound sn \<and> ceremonies_bound sn"


section \<open>Export and rehydration\<close>

text \<open>\<^verbatim>\<open>replace(item)\<close> runs the constructor of every copied record again; decoding a stored row
  runs the constructors of all of them.\<close>

definition copies_ok :: "auth_snapshot \<Rightarrow> bool" where
  "copies_ok sn \<longleftrightarrow>
     list_all actor_record_ok (sn_actors sn) \<and> list_all bootstrap_record_ok (sn_bootstraps sn) \<and>
     list_all session_record_ok (sn_sessions sn) \<and> list_all recovery_record_ok (sn_recoveries sn) \<and>
     list_all step_up_record_ok (sn_step_ups sn) \<and> list_all ceremony_record_ok (sn_ceremonies sn)"

definition decoded_ok :: "auth_snapshot \<Rightarrow> bool" where
  "decoded_ok sn \<longleftrightarrow> copies_ok sn \<and> list_all grant_provenance_ok (sn_grants sn) \<and>
     list_all composition_record_ok (sn_compositions sn)"

definition snapshot_values :: "auth_state \<Rightarrow> auth_snapshot" where
  "snapshot_values s = \<lparr>sn_actors = map snd (a_actors s), sn_installation_actors = a_installation_actors s,
     sn_roots = map snd (a_roots s), sn_bootstraps = map snd (a_bootstraps s),
     sn_sessions = map snd (a_sessions s), sn_recoveries = map snd (a_recoveries s),
     sn_step_ups = map snd (a_step_ups s), sn_grants = map snd (a_grants s),
     sn_compositions = map snd (a_compositions s), sn_ceremonies = map snd (a_ceremonies s)\<rparr>"

definition export_durable_state :: "auth_state \<Rightarrow> auth_error + auth_snapshot" where
  "export_durable_state s =
     (if copies_ok (snapshot_values s) \<and> auth_snapshot_ok (snapshot_values s) then Inr (snapshot_values s)
      else Inl Auth_Value_Error)"

definition index_by :: "('v \<Rightarrow> 'k) \<Rightarrow> 'v list \<Rightarrow> ('k, 'v) dict" where
  "index_by f xs = fold (\<lambda>x. AList.update (f x) x) xs []"

definition from_durable_state :: "auth_snapshot \<Rightarrow> auth_state" where
  "from_durable_state sn = \<lparr>a_actors = index_by ac_actor_id (sn_actors sn),
     a_installation_actors = fold (\<lambda>(k, v). AList.update k v) (sn_installation_actors sn) [],
     a_roots = index_by rr_handle (sn_roots sn), a_bootstraps = index_by bs_handle (sn_bootstraps sn),
     a_sessions = index_by ss_handle (sn_sessions sn), a_recoveries = index_by rv_handle (sn_recoveries sn),
     a_step_ups = index_by su_handle (sn_step_ups sn), a_grants = index_by gp_evidence (sn_grants sn),
     a_compositions = index_by co_installation_id (sn_compositions sn),
     a_ceremonies = index_by ce_handle (sn_ceremonies sn), a_crash_once = None\<rparr>"


section \<open>Custody\<close>

record custody_bundle =
  cb_installation_id :: uuid
  cb_actor_id :: uuid
  cb_profile_id :: uuid
  cb_generation :: int
  cb_operator :: opaque_credential
  cb_service :: opaque_credential
  cb_initial_bootstrap :: root_capability
  cb_emergency_revoke :: root_capability
  cb_reprovision :: root_capability

definition cb_roots :: "custody_bundle \<Rightarrow> root_capability list" where
  "cb_roots b = [cb_initial_bootstrap b, cb_emergency_revoke b, cb_reprovision b]"

definition custody_bundle_ok :: "custody_bundle \<Rightarrow> bool" where
  "custody_bundle_ok b \<longleftrightarrow>
     1 \<le> cb_generation b \<and> cb_generation b \<le> 2 ^ 64 - 1 \<and>
     map cap_purpose (cb_roots b) = [INITIAL_BOOTSTRAP, EMERGENCY_REVOKE, REPROVISION] \<and>
     list_all (\<lambda>r. cap_installation_id r = cb_installation_id b \<and> cap_actor_id r = cb_actor_id b \<and>
                   cap_profile_id r = cb_profile_id b) (cb_roots b) \<and>
     (let credentials = cb_operator b # cb_service b # map cap_credential (cb_roots b)
      in distinct (map oc_handle credentials) \<and> list_all (\<lambda>c. len (oc_secret c) = 32) credentials)"

definition verify_loaded_composition :: "(bytes \<Rightarrow> bytes) \<Rightarrow> custody_bundle \<Rightarrow> auth_state \<Rightarrow> bool" where
  "verify_loaded_composition H b s \<longleftrightarrow>
     map_of (a_installation_actors s) (cb_installation_id b) = Some (cb_actor_id b) \<and>
     (case map_of (a_actors s) (cb_actor_id b) of
        None \<Rightarrow> False | Some actor \<Rightarrow> ac_profile_id actor = cb_profile_id b) \<and>
     (case map_of (a_compositions s) (cb_installation_id b) of
        None \<Rightarrow> False
      | Some m \<Rightarrow> co_operator_handle m = oc_handle (cb_operator b) \<and>
                  co_operator_digest m = H (oc_secret (cb_operator b)) \<and>
                  co_service_handle m = oc_handle (cb_service b) \<and>
                  co_service_digest m = H (oc_secret (cb_service b))) \<and>
     list_all (\<lambda>root.
       case map_of (a_roots s) (oc_handle (cap_credential root)) of
         None \<Rightarrow> False
       | Some r \<Rightarrow> rr_installation_id r = cb_installation_id b \<and> rr_actor_id r = cb_actor_id b \<and>
                   rr_profile_id r = cb_profile_id b \<and> rr_purpose r = cap_purpose root \<and>
                   rr_digest r = H (oc_secret (cap_credential root)) \<and>
                   \<not> (cap_purpose root = REPROVISION \<and> rr_consumed r)) (cb_roots b)"


section \<open>Round trips\<close>

lemma index_by_append: "distinct (map f xs) \<Longrightarrow> index_by f xs = map (\<lambda>x. (f x, x)) xs"
proof -
  have "distinct (map f xs) \<Longrightarrow> set (map f xs) \<inter> fst ` set d = {} \<Longrightarrow>
      fold (\<lambda>x. AList.update (f x) x) xs d = d @ map (\<lambda>x. (f x, x)) xs" for d
  proof (induction xs arbitrary: d)
    case (Cons x xs)
    have "AList.update (f x) x d = d @ [(f x, x)]"
      using Cons.prems by (induction d) auto
    then show ?case using Cons by auto
  qed simp
  from this [of "[]"] show "distinct (map f xs) \<Longrightarrow> ?thesis" by (simp add: index_by_def)
qed

lemma index_by_values: "indexed f d \<Longrightarrow> index_by f (map snd d) = d"
proof -
  assume ix: "indexed f d"
  then have "map f (map snd d) = map fst d"
    by (auto simp: indexed_def list_all_iff)
  then have "distinct (map f (map snd d))" using ix by (simp only: indexed_def wf_dict_def)
  then have "index_by f (map snd d) = map (\<lambda>x. (f x, x)) (map snd d)" by (rule index_by_append)
  also have "\<dots> = d" using ix by (auto simp: indexed_def list_all_iff intro!: map_idI)
  finally show ?thesis .
qed

lemma fold_update_pairs: "wf_dict d \<Longrightarrow> fold (\<lambda>(k, v). AList.update k v) d [] = d"
proof -
  have "distinct (map fst xs) \<Longrightarrow> fst ` set xs \<inter> fst ` set d = {} \<Longrightarrow>
      fold (\<lambda>(k, v). AList.update k v) xs d = d @ xs" for xs d :: "('a \<times> 'b) list"
  proof (induction xs arbitrary: d)
    case (Cons x xs)
    obtain k v where x: "x = (k, v)" by (cases x)
    have "AList.update k v d = d @ [(k, v)]"
      using Cons.prems x by (induction d) auto
    then show ?case using Cons x by auto
  qed simp
  from this [of d "[]"] show "wf_dict d \<Longrightarrow> ?thesis" by (simp add: wf_dict_def)
qed

text \<open>Every dictionary of the store files its records under their own handles.\<close>

definition well_indexed :: "auth_state \<Rightarrow> bool" where
  "well_indexed s \<longleftrightarrow> wf_store s \<and> wf_dict (a_installation_actors s) \<and>
     indexed co_installation_id (a_compositions s) \<and> indexed ce_handle (a_ceremonies s)"

lemma rehydrate: "well_indexed s \<Longrightarrow> from_durable_state (snapshot_values s) = s\<lparr>a_crash_once := None\<rparr>"
  by (simp add: well_indexed_def wf_store_def from_durable_state_def snapshot_values_def index_by_values
      fold_update_pairs)

lemma export_Inr: "export_durable_state s = Inr sn \<longleftrightarrow>
    sn = snapshot_values s \<and> copies_ok (snapshot_values s) \<and> auth_snapshot_ok (snapshot_values s)"
  by (auto simp: export_durable_state_def)

text \<open>What is exported comes back: rehydrating the snapshot of a store gives the same store, with
  every record under its handle, except that no injected failure stays armed.\<close>

theorem export_roundtrip:
  assumes "well_indexed s" and "export_durable_state s = Inr sn"
  shows "from_durable_state sn = s\<lparr>a_crash_once := None\<rparr>"
  using assms rehydrate by (simp add: export_Inr)

section \<open>Every decision keeps the store exportable in form\<close>

text \<open>What \<^const>\<open>wf_store\<close> leaves open: the dictionaries of ceremonies, compositions and
  installations, and the constructor checks of grants and compositions.\<close>

definition tidy :: "auth_state \<Rightarrow> bool" where
  "tidy s \<longleftrightarrow> wf_dict (a_installation_actors s) \<and> indexed co_installation_id (a_compositions s) \<and>
     indexed ce_handle (a_ceremonies s) \<and> list_all (grant_provenance_ok \<circ> snd) (a_grants s) \<and>
     list_all (composition_record_ok \<circ> snd) (a_compositions s)"

lemma tidy_cong:
  "a_installation_actors s' = a_installation_actors s \<Longrightarrow> a_compositions s' = a_compositions s \<Longrightarrow>
   a_ceremonies s' = a_ceremonies s \<Longrightarrow> a_grants s' = a_grants s \<Longrightarrow> tidy s' = tidy s"
  by (simp add: tidy_def)

lemma installation_selectors [simp]:
  "a_installation_actors (put_actor k a s) = a_installation_actors s"
  "a_installation_actors (put_root k r s) = a_installation_actors s"
  "a_installation_actors (put_bootstrap k b s) = a_installation_actors s"
  "a_installation_actors (put_session k x s) = a_installation_actors s"
  "a_installation_actors (put_recovery k v s) = a_installation_actors s"
  "a_installation_actors (put_step_up k u s) = a_installation_actors s"
  "a_installation_actors (put_grant k g s) = a_installation_actors s"
  "a_installation_actors (put_ceremony k c s) = a_installation_actors s"
  by (simp_all add: put_actor_def put_root_def put_bootstrap_def put_session_def put_recovery_def
      put_step_up_def put_grant_def put_ceremony_def)

lemma tidy_put [simp]:
  "tidy (put_actor i a s) = tidy s" "tidy (put_root i q s) = tidy s"
  "tidy (put_bootstrap i b s) = tidy s" "tidy (put_session i x s) = tidy s"
  "tidy (put_recovery i v s) = tidy s" "tidy (put_step_up i u s) = tidy s"
  "tidy (invalidate_bootstraps i now s) = tidy s" "tidy (consume_actor_recoveries i now s) = tidy s"
  "tidy (retire_actor_authority i now s) = tidy s" "tidy (retire_session_challenges i now s) = tidy s"
  "tidy (issue_authority actor x v s) = tidy s" "tidy (s\<lparr>a_crash_once := p\<rparr>) = tidy s"
  by (rule tidy_cong; simp add: invalidate_bootstraps_def consume_actor_recoveries_def
      retire_actor_authority_def retire_session_challenges_def issue_authority_def Let_def)+

lemma list_all_update: "list_all (P \<circ> snd) d \<Longrightarrow> P v \<Longrightarrow> list_all (P \<circ> snd) (AList.update k v d)"
  by (induction d) auto

lemma tidy_grant: "tidy s \<Longrightarrow> grant_provenance_ok p \<Longrightarrow> tidy (put_grant k p s)"
  by (simp add: tidy_def list_all_update)

lemma tidy_ceremony: "tidy s \<Longrightarrow> ce_handle c = k \<Longrightarrow> tidy (put_ceremony k c s)"
  by (simp add: tidy_def indexed_update)

lemma tidy_ceremony_sweeps:
  assumes "tidy s"
  shows "tidy (snd (gc_ceremonies now s))" and "tidy (trim_tombstones h n s)"
proof -
  have "ce_handle (if ce_terminal_at c = None \<and> now \<ge> ce_expires_at c
      then c\<lparr>ce_terminal_at := Some (ce_expires_at c), ce_terminal_denial := Some A_EXPIRED\<rparr> else c) =
      ce_handle c" for c by simp
  then show "tidy (snd (gc_ceremonies now s))"
    using assms by (simp add: tidy_def gc_ceremonies_def Let_def indexed_filter indexed_map_vals)
  show "tidy (trim_tombstones h n s)"
    using assms by (simp add: tidy_def trim_tombstones_def Let_def fold_delete indexed_filter)
qed

lemma ends_tidy_observe: "tidy s \<Longrightarrow> ends tidy (observe_actor a now s)"
  by (auto simp: observe_actor_def tidy_def split: option.split)

lemma ends_tidy_crash: "tidy s \<Longrightarrow> ends tidy (crash_if_armed p s)"
  by (auto simp: crash_if_armed_def)

lemmas ends_tidy = ends_proceed ends_the_actor ends_tidy_observe ends_tidy_crash

lemma ends_tidy_authenticate: "tidy s \<Longrightarrow> ends tidy (authenticate_locked c d now s)"
  unfolding authenticate_locked_def by (auto intro!: ends_tidy split: option.splits)

lemma tidy_used:
  assumes "tidy s" and "map_of (a_grants s) k = Some p" and "\<not> now < gr_not_before (gp_grant p)"
  shows "grant_provenance_ok (p\<lparr>gp_used_at := Some now\<rparr>)"
  using assms map_of_SomeD [OF assms(2)] by (auto simp: tidy_def list_all_iff grant_provenance_ok_def)

lemma ends_tidy_authorize: "tidy s \<Longrightarrow> ends tidy (authorize_grant c d g p now s)"
  unfolding authorize_grant_def
  by (auto intro!: ends_tidy ends_tidy_authenticate tidy_grant simp: authenticate_Inr the_actor_Inr
      time_denial_def intro: tidy_used split: option.splits if_splits)

lemma ends_tidy_sessions:
  assumes "tidy s"
  shows "ends tidy (create_step_up c d now u s)" and "ends tidy (rotate_session c d now x s)"
    and "ends tidy (revoke_session c d now s)"
  using assms unfolding create_step_up_def rotate_session_def revoke_session_def Let_def
  by (auto intro!: ends_tidy ends_tidy_authenticate)

lemma ends_tidy_consume:
  assumes "tidy s"
  shows "ends tidy (consume_step_up ch cd c d a p q sc now s)"
  using assms unfolding consume_step_up_def Let_def
  by (auto intro!: ends_tidy ends_tidy_authenticate tidy_grant simp: grant_provenance_ok_def
      split: option.splits)

lemma ends_tidy_authorized:
  assumes "tidy s"
  shows "ends tidy (create_authenticated_bootstrap c d g b now s)"
    and "ends tidy (renew_recovery c d g v now s)" and "ends tidy (revoke_all_authenticated c d g v now s)"
  using assms
  unfolding create_authenticated_bootstrap_def renew_recovery_def revoke_all_authenticated_def Let_def
  by (auto intro!: ends_tidy ends_tidy_authorize)

lemma ends_tidy_roots:
  assumes "tidy s"
  shows "ends tidy (create_root_bootstrap r d b now s)" and "ends tidy (create_reprovision_bootstrap c d i now s)"
    and "ends tidy (emergency_revoke r d now s)" and "tidy (cancel_bootstrap k now s)"
  using assms
  unfolding create_root_bootstrap_def create_reprovision_bootstrap_def emergency_revoke_def
    cancel_bootstrap_def Let_def validate_root_def
  by (auto intro!: ends_tidy split: option.splits)

lemma ends_tidy_exchange:
  assumes "tidy s"
  shows "ends tidy (exchange_bootstrap k d now x v s)" and "ends tidy (recover c d now i j s)"
  using assms unfolding exchange_bootstrap_def recover_def Let_def
  by (auto intro!: ends_tidy split: option.splits)

lemma ends_tidy_ceremony:
  assumes "tidy s"
  shows "ends tidy (create_reprovision_ceremony H sv sd op od k i now n m r s)"
  using assms unfolding create_reprovision_ceremony_def Let_def
  by (auto intro!: tidy_ceremony tidy_ceremony_sweeps split: option.splits)

lemma ends_tidy_reprovision:
  assumes "tidy s"
  shows "ends tidy (exchange_reprovision_bootstrap H k d sv sd ce cd now x v q n m s)"
proof -
  have gc: "tidy (snd (gc_ceremonies now s))" using assms by (rule tidy_ceremony_sweeps)
  then have "ce_handle c = oc_handle ce"
    if "map_of (a_ceremonies (snd (gc_ceremonies now s))) (oc_handle ce) = Some c" for c
    using that by (auto simp: tidy_def dest: indexed_lookup)
  then show ?thesis
    using assms gc unfolding exchange_reprovision_bootstrap_def Let_def
    by (auto intro!: ends_tidy tidy_ceremony tidy_ceremony_sweeps(2) split: option.splits)
qed

lemma ends_tidy_collect:
  assumes "tidy s"
  shows "ends tidy (auth_garbage_collect now retention s)"
proof -
  have "tidy (snd (gc_ceremonies now (s\<lparr>a_roots := r, a_bootstraps := b, a_sessions := x, a_recoveries := v,
      a_step_ups := u, a_grants := filter P (a_grants s)\<rparr>)))" for r b x v u P
    using assms by (intro tidy_ceremony_sweeps(1)) (auto simp: tidy_def list_all_iff)
  then show ?thesis
    using assms by (simp add: auth_garbage_collect_def Let_def split_def ends_def)
qed

lemma ends_tidy_initialize:
  assumes "tidy s"
  shows "ends tidy (initialize_installation inst actor profile records op sv now s)"
proof (cases "initialize_installation inst actor profile records op sv now s")
  case (Pair r s')
  show ?thesis
  proof (cases r)
    case (Inl e)
    then show ?thesis using Pair assms initialize_Inl by (metis ends_simps)
  next
    case (Inr u)
    note ok = Pair [unfolded Inr initialize_installation_def Let_def guard_Inr prod.inject]
    note tail = conjunct2 [OF conjunct2 [OF conjunct2 [OF conjunct2 [OF conjunct2 [OF conjunct2 [OF ok]]]]]]
    have "ri_handle op \<noteq> ri_handle sv" by (rule conjunct1 [OF tail])
    note eq = conjunct2 [OF conjunct2 [OF conjunct2 [OF tail]]]
    show ?thesis
      unfolding Pair ends_simps eq [symmetric]
      using assms \<open>ri_handle op \<noteq> ri_handle sv\<close>
      by (simp add: tidy_def indexed_update list_all_update composition_record_ok_def)
  qed
qed

lemma decide_tidy:
  assumes "tidy s"
  shows "tidy (snd (decide H now r s))"
  using assms
  by (cases r)
    (simp_all flip: ends_def add: authenticate_session_def validate_grant_def arm_crash_once_def
      ends_tidy_initialize ends_tidy_sessions ends_tidy_consume ends_tidy_authorized ends_tidy_roots
      ends_tidy_exchange ends_tidy_ceremony ends_tidy_reprovision ends_tidy_collect
      ends_tidy_authenticate ends_tidy_authorize)

lemma decide_well_indexed:
  assumes "wf_store s" and "tidy s"
  shows "well_indexed (snd (decide H now r s))"
  using decide_tidy [OF assms(2), of H now r] advances_wf [OF decide_advances [OF assms(1), of r H now]]
  by (simp add: well_indexed_def tidy_def)

lemma reachable_tidy:
  assumes "auth_reachable H s U"
  shows "tidy s"
proof -
  have "auth_steps H s0 U0 s U \<Longrightarrow> tidy s0 \<Longrightarrow> tidy s" for s0 U0
    by (induction rule: auth_steps.induct) (auto intro: decide_tidy)
  moreover have "tidy empty_store" by (simp add: tidy_def empty_store_def)
  ultimately show ?thesis using assms by blast
qed


section \<open>A concrete store\<close>

lemmas snapshot_defs = auth_snapshot_ok_def unique_keys_def coverage_ok_def roots_bound_def records_bound_def
  bootstraps_bound_def step_ups_bound_def grants_bound_def ceremonies_bound_def actor_bound_def
  epoch_reached_def find_by_def snapshot_values_def

lemma installed_exports: "auth_snapshot_ok (snapshot_values installed)" "copies_ok (snapshot_values installed)"
  by (simp_all add: snapshot_defs copies_ok_def sample_store_defs sample_record_defs actor_record_ok_def)

theorem export_roundtrip_witness:
  "export_durable_state installed = Inr (snapshot_values installed) \<and>
   from_durable_state (snapshot_values installed) = installed"
proof -
  have "well_indexed installed"
    using reachable_wf [OF reach_installed] reachable_tidy [OF reach_installed]
    by (simp add: well_indexed_def tidy_def)
  moreover have "export_durable_state installed = Inr (snapshot_values installed)"
    by (simp add: export_durable_state_def installed_exports)
  ultimately show ?thesis
    using export_roundtrip [of installed] by (simp add: installed_def)
qed

end
