(* ===== verification/Auth_Codec.thy ===== *)
theory Auth_Codec
  imports Auth_Snapshot Wire "HOL-Library.Monad_Syntax"
begin

text \<open>
  The canonical text of the durable authentication state (\<^verbatim>\<open>_encode\<close>, \<^verbatim>\<open>_decode\<close>, \<^verbatim>\<open>_snapshot\<close> and
  \<^verbatim>\<open>_restore\<close> of \<^verbatim>\<open>adapters/auth/sqlite.py\<close>): tagged JSON values, records with a fixed field list,
  collections sorted by handle.  Decoding yields a value of any kind, and the constructor of a
  record checks the kinds of its fields as well as its own conditions.  \<^verbatim>\<open>datetime.fromisoformat\<close>,
  which accepts more than \<^verbatim>\<open>isoformat\<close> writes, is the parameter \<open>F\<close>.  It is a function of 8-bit texts: a
  state row edited to separate date and time by a character above \<^verbatim>\<open>\u00ff\<close>, which \<^verbatim>\<open>fromisoformat\<close>
  takes, is corrupt in the model.
\<close>


section \<open>Failures of the SQLite store\<close>

datatype durable_error =
    Raised auth_error
  | Outside_Schema
  | Secret_Bearing
  | Authority_Not_Unique
  | State_Corrupt
  | Failed_Before_Commit
  | Outcome_Unknown
  | Runtime_Unavailable


section \<open>Vocabularies\<close>

fun purpose_value :: "auth_purpose \<Rightarrow> string" where
  "purpose_value SETUP_AUTHORITY_CHANGE = ''setup_authority_change''"
| "purpose_value EXTERNAL_ACTION_RESUME = ''external_action_resume''"
| "purpose_value EXCEPTION_SUBMISSION = ''exception_submission''"
| "purpose_value KEY_RECOVERY_CHANGE = ''key_recovery_change''"
| "purpose_value PROFILE_DELETION = ''profile_deletion''"
| "purpose_value DESTRUCTIVE_RESTORE = ''destructive_restore''"
| "purpose_value ALL_SESSION_REVOKE = ''all_session_revoke''"

fun scope_value :: "auth_scope \<Rightarrow> string" where
  "scope_value CHANGE_SETUP_AUTHORITY = ''change_setup_authority''"
| "scope_value RESUME_EXTERNAL_ACTIONS = ''resume_external_actions''"
| "scope_value SUBMIT_EXCEPTION = ''submit_exception''"
| "scope_value CHANGE_KEY_RECOVERY = ''change_key_recovery''"
| "scope_value DELETE_PROFILE = ''delete_profile''"
| "scope_value RESTORE_DESTRUCTIVELY = ''restore_destructively''"
| "scope_value REVOKE_ALL_SESSIONS = ''revoke_all_sessions''"

fun root_purpose_value :: "root_purpose \<Rightarrow> string" where
  "root_purpose_value INITIAL_BOOTSTRAP = ''initial_bootstrap''"
| "root_purpose_value EMERGENCY_REVOKE = ''emergency_revoke''"
| "root_purpose_value REPROVISION = ''reprovision''"

text \<open>The denials of the V1 vocabulary with their values; the terminal denials are not part of it.\<close>

definition v1_denials :: "(auth_denial \<times> string) list" where
  "v1_denials = [(A_NON_INTERACTIVE, ''non_interactive''), (A_INVALID_PROOF, ''invalid_proof''),
     (A_ATTEMPTS_EXHAUSTED, ''attempts_exhausted''), (A_REPLAYED, ''replayed''), (A_EXPIRED, ''expired''),
     (A_NOT_YET_VALID, ''not_yet_valid''), (A_CLOCK_ROLLBACK, ''clock_rollback''),
     (A_SESSION_NOT_FOUND, ''session_not_found''), (A_REVOKED, ''revoked''), (A_WRONG_ACTOR, ''wrong_actor''),
     (A_WRONG_PROFILE, ''wrong_profile''), (A_WRONG_INSTALLATION, ''wrong_installation''),
     (A_WRONG_SESSION, ''wrong_session''), (A_WRONG_PURPOSE, ''wrong_purpose''),
     (A_SCOPE_WIDENING, ''scope_widening''), (A_STALE_EPOCH, ''stale_epoch''),
     (A_MALFORMED_CREDENTIAL, ''malformed_credential''), (A_OPERATOR_DECLINED, ''operator_declined''),
     (A_OUTPUT_INTERRUPTED, ''output_interrupted''), (A_CAPACITY_EXHAUSTED, ''capacity_exhausted'')]"

definition all_purposes :: "auth_purpose list" where
  "all_purposes = [SETUP_AUTHORITY_CHANGE, EXTERNAL_ACTION_RESUME, EXCEPTION_SUBMISSION,
     KEY_RECOVERY_CHANGE, PROFILE_DELETION, DESTRUCTIVE_RESTORE, ALL_SESSION_REVOKE]"

text \<open>In the order of their values, which is the order in which a set of scopes is written.\<close>

definition all_scopes :: "auth_scope list" where
  "all_scopes = [CHANGE_KEY_RECOVERY, CHANGE_SETUP_AUTHORITY, DELETE_PROFILE, RESTORE_DESTRUCTIVELY,
     RESUME_EXTERNAL_ACTIONS, REVOKE_ALL_SESSIONS, SUBMIT_EXCEPTION]"

definition all_root_purposes :: "root_purpose list" where
  "all_root_purposes = [INITIAL_BOOTSTRAP, EMERGENCY_REVOKE, REPROVISION]"

definition denial_of :: "string \<Rightarrow> auth_denial option" where
  "denial_of v = map_option fst (find (\<lambda>(_, w). w = v) v1_denials)"

definition purpose_of :: "string \<Rightarrow> auth_purpose option" where
  "purpose_of v = find (\<lambda>p. purpose_value p = v) all_purposes"

definition scope_of :: "string \<Rightarrow> auth_scope option" where
  "scope_of v = find (\<lambda>s. scope_value s = v) all_scopes"

definition root_purpose_of :: "string \<Rightarrow> root_purpose option" where
  "root_purpose_of v = find (\<lambda>p. root_purpose_value p = v) all_root_purposes"


section \<open>Encoding\<close>

definition tagged :: "string \<Rightarrow> string \<Rightarrow> json" where
  "tagged kind v = J_Obj [(''type'', J_Str kind), (''value'', J_Str v)]"

definition encode_id :: "uuid \<Rightarrow> json" where
  "encode_id u = tagged ''opaque_id'' (uuid_text u)"

definition encode_digest :: "bytes \<Rightarrow> json" where
  "encode_digest d = tagged ''secret_digest'' (b64encode d)"

definition encode_time :: "int \<Rightarrow> json" where
  "encode_time t = tagged ''utc_datetime'' (isoformat t)"

definition encode_enum :: "string \<Rightarrow> string \<Rightarrow> json" where
  "encode_enum name v = J_Obj [(''type'', J_Str ''enum''), (''name'', J_Str name), (''value'', J_Str v)]"

definition encode_denial :: "auth_denial \<Rightarrow> json" where
  "encode_denial d = encode_enum ''AuthDenial'' (the (map_of v1_denials d))"

definition encode_purpose :: "auth_purpose \<Rightarrow> json" where
  "encode_purpose p = encode_enum ''AuthPurpose'' (purpose_value p)"

definition encode_root_purpose :: "root_purpose \<Rightarrow> json" where
  "encode_root_purpose p = encode_enum ''RootPurpose'' (root_purpose_value p)"

definition encode_scopes :: "auth_scope set \<Rightarrow> json" where
  "encode_scopes ss = J_Obj [(''type'', J_Str ''frozenset''),
     (''items'', J_Arr (map (\<lambda>s. encode_enum ''AuthScope'' (scope_value s)) (filter (\<lambda>s. s \<in> ss) all_scopes)))]"

definition encode_opt :: "('a \<Rightarrow> json) \<Rightarrow> 'a option \<Rightarrow> json" where
  "encode_opt f x = (case x of None \<Rightarrow> J_Null | Some v \<Rightarrow> f v)"

definition encode_record :: "string \<Rightarrow> (string \<times> json) list \<Rightarrow> json" where
  "encode_record name fs =
     J_Obj [(''type'', J_Str ''record''), (''name'', J_Str name), (''fields'', J_Obj fs)]"

definition encode_actor :: "actor_record \<Rightarrow> json" where
  "encode_actor a = encode_record ''ActorRecord''
     [(''actor_id'', encode_id (ac_actor_id a)), (''represented_profile_id'', encode_id (ac_profile_id a)),
      (''epoch'', J_Int (ac_epoch a)), (''last_observed_utc'', encode_time (ac_last_observed a)),
      (''initialized'', J_Bool (ac_initialized a))]"

definition encode_grant :: "authority_grant \<Rightarrow> json" where
  "encode_grant g = encode_record ''AuthorityGrant''
     [(''actor_id'', encode_id (gr_actor_id g)), (''represented_profile_id'', encode_id (gr_profile_id g)),
      (''session_id'', encode_id (gr_session_id g)),
      (''authority_evidence_id'', encode_id (gr_evidence_id g)),
      (''purpose'', encode_purpose (gr_purpose g)), (''scopes'', encode_scopes (gr_scopes g)),
      (''not_before_utc'', encode_time (gr_not_before g)), (''expires_at_utc'', encode_time (gr_expires_at g)),
      (''epoch'', J_Int (gr_epoch g))]"

definition encode_bootstrap :: "bootstrap_record \<Rightarrow> json" where
  "encode_bootstrap b = encode_record ''BootstrapRecord''
     [(''handle'', encode_id (bs_handle b)), (''actor_id'', encode_id (bs_actor_id b)),
      (''represented_profile_id'', encode_id (bs_profile_id b)), (''digest'', encode_digest (bs_digest b)),
      (''not_before_utc'', encode_time (bs_not_before b)), (''expires_at_utc'', encode_time (bs_expires_at b)),
      (''attempts_remaining'', J_Int (bs_attempts b)),
      (''root_capability_id'', encode_opt encode_id (bs_root_id b)),
      (''root_purpose'', encode_opt encode_root_purpose (bs_root_purpose b)),
      (''consumed'', J_Bool (bs_consumed b)), (''retired_at_utc'', encode_opt encode_time (bs_retired_at b))]"

definition encode_composition :: "composition_record \<Rightarrow> json" where
  "encode_composition c = encode_record ''CompositionBindingRecord''
     [(''installation_id'', encode_id (co_installation_id c)),
      (''operator_handle'', encode_id (co_operator_handle c)),
      (''operator_digest'', encode_digest (co_operator_digest c)),
      (''service_handle'', encode_id (co_service_handle c)),
      (''service_digest'', encode_digest (co_service_digest c))]"

definition encode_provenance :: "grant_provenance \<Rightarrow> json" where
  "encode_provenance p = encode_record ''GrantProvenanceRecord''
     [(''grant'', encode_grant (gp_grant p)), (''used_at_utc'', encode_opt encode_time (gp_used_at p))]"

definition encode_recovery :: "recovery_record \<Rightarrow> json" where
  "encode_recovery v = encode_record ''RecoveryRecord''
     [(''handle'', encode_id (rv_handle v)), (''actor_id'', encode_id (rv_actor_id v)),
      (''represented_profile_id'', encode_id (rv_profile_id v)), (''digest'', encode_digest (rv_digest v)),
      (''epoch'', J_Int (rv_epoch v)), (''not_before_utc'', encode_time (rv_not_before v)),
      (''expires_at_utc'', encode_time (rv_expires_at v)), (''attempts_remaining'', J_Int (rv_attempts v)),
      (''consumed'', J_Bool (rv_consumed v)), (''retired_at_utc'', encode_opt encode_time (rv_retired_at v))]"

definition encode_ceremony :: "ceremony_record \<Rightarrow> json" where
  "encode_ceremony c = encode_record ''ReprovisionCeremonyRecord''
     [(''handle'', encode_id (ce_handle c)), (''digest'', encode_digest (ce_digest c)),
      (''bootstrap_handle'', encode_id (ce_bootstrap_handle c)),
      (''installation_id'', encode_id (ce_installation_id c)),
      (''service_handle'', encode_id (ce_service_handle c)),
      (''expires_at_utc'', encode_time (ce_expires_at c)), (''replay_seconds'', J_Int (ce_replay_seconds c)),
      (''terminal_at_utc'', encode_opt encode_time (ce_terminal_at c)),
      (''terminal_denial'', encode_opt encode_denial (ce_terminal_denial c))]"

definition encode_root :: "root_record \<Rightarrow> json" where
  "encode_root r = encode_record ''RootCapabilityRecord''
     [(''handle'', encode_id (rr_handle r)), (''installation_id'', encode_id (rr_installation_id r)),
      (''actor_id'', encode_id (rr_actor_id r)), (''represented_profile_id'', encode_id (rr_profile_id r)),
      (''purpose'', encode_root_purpose (rr_purpose r)), (''digest'', encode_digest (rr_digest r)),
      (''consumed'', J_Bool (rr_consumed r)), (''retired_at_utc'', encode_opt encode_time (rr_retired_at r))]"

definition encode_session :: "session_record \<Rightarrow> json" where
  "encode_session x = encode_record ''SessionRecord''
     [(''handle'', encode_id (ss_handle x)), (''actor_id'', encode_id (ss_actor_id x)),
      (''represented_profile_id'', encode_id (ss_profile_id x)), (''digest'', encode_digest (ss_digest x)),
      (''epoch'', J_Int (ss_epoch x)), (''not_before_utc'', encode_time (ss_not_before x)),
      (''expires_at_utc'', encode_time (ss_expires_at x)), (''revoked'', J_Bool (ss_revoked x)),
      (''retired_at_utc'', encode_opt encode_time (ss_retired_at x))]"

definition encode_step_up :: "step_up_record \<Rightarrow> json" where
  "encode_step_up u = encode_record ''StepUpRecord''
     [(''handle'', encode_id (su_handle u)), (''actor_id'', encode_id (su_actor_id u)),
      (''represented_profile_id'', encode_id (su_profile_id u)), (''session_id'', encode_id (su_session_id u)),
      (''digest'', encode_digest (su_digest u)), (''epoch'', J_Int (su_epoch u)),
      (''purpose'', encode_purpose (su_purpose u)), (''scopes'', encode_scopes (su_scopes u)),
      (''not_before_utc'', encode_time (su_not_before u)), (''expires_at_utc'', encode_time (su_expires_at u)),
      (''attempts_remaining'', J_Int (su_attempts u)), (''consumed'', J_Bool (su_consumed u)),
      (''retired_at_utc'', encode_opt encode_time (su_retired_at u))]"

text \<open>One collection: pairs of handle and record in the order of the handles.\<close>

definition encode_collection :: "('v \<Rightarrow> uuid) \<Rightarrow> ('v \<Rightarrow> json) \<Rightarrow> 'v list \<Rightarrow> json" where
  "encode_collection key f xs = J_Arr (map (\<lambda>x. J_Arr [encode_id (key x), f x]) (sort_key key xs))"

definition snapshot_json :: "auth_snapshot \<Rightarrow> json" where
  "snapshot_json sn = J_Obj
     [(''actors'', encode_collection ac_actor_id encode_actor (sn_actors sn)),
      (''installation_actors'', encode_collection fst (\<lambda>(_, a). encode_id a) (sn_installation_actors sn)),
      (''roots'', encode_collection rr_handle encode_root (sn_roots sn)),
      (''bootstraps'', encode_collection bs_handle encode_bootstrap (sn_bootstraps sn)),
      (''sessions'', encode_collection ss_handle encode_session (sn_sessions sn)),
      (''recoveries'', encode_collection rv_handle encode_recovery (sn_recoveries sn)),
      (''step_ups'', encode_collection su_handle encode_step_up (sn_step_ups sn)),
      (''grant_provenance'', encode_collection gp_evidence encode_provenance (sn_grants sn)),
      (''composition_bindings'', encode_collection co_installation_id encode_composition (sn_compositions sn)),
      (''reprovision_ceremonies'', encode_collection ce_handle encode_ceremony (sn_ceremonies sn))]"

definition v1_denials_only :: "auth_snapshot \<Rightarrow> bool" where
  "v1_denials_only sn \<longleftrightarrow> list_all (\<lambda>c. case ce_terminal_denial c of
     None \<Rightarrow> True | Some d \<Rightarrow> map_of v1_denials d \<noteq> None) (sn_ceremonies sn)"

fun contains :: "string \<Rightarrow> string \<Rightarrow> bool" where
  "contains pattern [] \<longleftrightarrow> pattern = []"
| "contains pattern (c # cs) \<longleftrightarrow> take (length pattern) (c # cs) = pattern \<or> contains pattern cs"

definition secret_bearing :: "string \<Rightarrow> bool" where
  "secret_bearing t \<longleftrightarrow> contains ''auth_secret'' t \<or> contains ''OpaqueCredential'' t \<or> contains ''Sensitive'' t"

definition snapshot_text :: "auth_state \<Rightarrow> durable_error + string" where
  "snapshot_text s =
     (case export_durable_state s of
        Inl e \<Rightarrow> Inl (Raised e)
      | Inr sn \<Rightarrow>
          if \<not> v1_denials_only sn then Inl Outside_Schema
          else let payload = dumps (snapshot_json sn)
               in if secret_bearing payload then Inl Secret_Bearing else Inr payload)"



section \<open>Decoding\<close>

datatype auth_value =
    V_None | V_Bool bool | V_Int int | V_Str string
  | V_Id uuid | V_Digest bytes | V_Time datetime
  | V_Denial auth_denial | V_Purpose auth_purpose | V_Scope auth_scope | V_Root_Purpose root_purpose
  | V_Set "auth_value list"
  | V_Actor actor_record | V_Grant authority_grant | V_Bootstrap bootstrap_record
  | V_Composition composition_record | V_Provenance grant_provenance | V_Recovery recovery_record
  | V_Ceremony ceremony_record | V_Root root_record | V_Session session_record | V_Step_Up step_up_record

definition as_id :: "auth_value option \<Rightarrow> uuid option" where
  "as_id v = (case v of Some (V_Id u) \<Rightarrow> Some u | _ \<Rightarrow> None)"

definition as_digest :: "auth_value option \<Rightarrow> bytes option" where
  "as_digest v = (case v of Some (V_Digest d) \<Rightarrow> Some d | _ \<Rightarrow> None)"

definition as_utc :: "auth_value option \<Rightarrow> int option" where
  "as_utc v = (case v of Some (V_Time d) \<Rightarrow> (if is_utc d then Some (instant d) else None) | _ \<Rightarrow> None)"

definition as_int :: "auth_value option \<Rightarrow> int option" where
  "as_int v = (case v of Some (V_Int i) \<Rightarrow> Some i | _ \<Rightarrow> None)"

definition as_bool :: "auth_value option \<Rightarrow> bool option" where
  "as_bool v = (case v of Some (V_Bool b) \<Rightarrow> Some b | _ \<Rightarrow> None)"

definition as_denial :: "auth_value option \<Rightarrow> auth_denial option" where
  "as_denial v = (case v of Some (V_Denial d) \<Rightarrow> Some d | _ \<Rightarrow> None)"

definition as_purpose :: "auth_value option \<Rightarrow> auth_purpose option" where
  "as_purpose v = (case v of Some (V_Purpose p) \<Rightarrow> Some p | _ \<Rightarrow> None)"

definition as_root_purpose :: "auth_value option \<Rightarrow> root_purpose option" where
  "as_root_purpose v = (case v of Some (V_Root_Purpose p) \<Rightarrow> Some p | _ \<Rightarrow> None)"

definition as_grant :: "auth_value option \<Rightarrow> authority_grant option" where
  "as_grant v = (case v of Some (V_Grant g) \<Rightarrow> Some g | _ \<Rightarrow> None)"

text \<open>
  A record checks only that its scopes are a frozenset equal to the expected one, and a member of
  a \<^verbatim>\<open>StrEnum\<close> equals its text: plain strings pass for scopes.
\<close>

definition as_scope :: "auth_value \<Rightarrow> auth_scope option" where
  "as_scope v = (case v of V_Scope s \<Rightarrow> Some s | V_Str t \<Rightarrow> scope_of t | _ \<Rightarrow> None)"

definition as_scopes :: "auth_value option \<Rightarrow> auth_scope set option" where
  "as_scopes v = (case v of Some (V_Set vs) \<Rightarrow> map_option set (those (map as_scope vs)) | _ \<Rightarrow> None)"

definition as_opt :: "(auth_value option \<Rightarrow> 'a option) \<Rightarrow> auth_value option \<Rightarrow> 'a option option" where
  "as_opt f v = (if v = Some V_None then Some None else map_option Some (f v))"

definition checked :: "('a \<Rightarrow> bool) \<Rightarrow> 'a \<Rightarrow> 'a option" where
  "checked ok x = (if ok x then Some x else None)"

type_synonym field_map = "string \<Rightarrow> auth_value option"

definition make_actor :: "field_map \<Rightarrow> actor_record option" where
  "make_actor m = do {
     a \<leftarrow> as_id (m ''actor_id''); p \<leftarrow> as_id (m ''represented_profile_id''); e \<leftarrow> as_int (m ''epoch'');
     t \<leftarrow> as_utc (m ''last_observed_utc''); i \<leftarrow> as_bool (m ''initialized'');
     checked actor_record_ok \<lparr>ac_actor_id = a, ac_profile_id = p, ac_epoch = e, ac_last_observed = t,
       ac_initialized = i\<rparr> }"

definition make_grant :: "field_map \<Rightarrow> authority_grant option" where
  "make_grant m = do {
     a \<leftarrow> as_id (m ''actor_id''); p \<leftarrow> as_id (m ''represented_profile_id''); s \<leftarrow> as_id (m ''session_id'');
     v \<leftarrow> as_id (m ''authority_evidence_id''); q \<leftarrow> as_purpose (m ''purpose''); sc \<leftarrow> as_scopes (m ''scopes'');
     nb \<leftarrow> as_utc (m ''not_before_utc''); ex \<leftarrow> as_utc (m ''expires_at_utc''); e \<leftarrow> as_int (m ''epoch'');
     checked authority_grant_ok \<lparr>gr_actor_id = a, gr_profile_id = p, gr_session_id = s, gr_evidence_id = v,
       gr_purpose = q, gr_scopes = sc, gr_not_before = nb, gr_expires_at = ex, gr_epoch = e\<rparr> }"

definition make_bootstrap :: "field_map \<Rightarrow> bootstrap_record option" where
  "make_bootstrap m = do {
     h \<leftarrow> as_id (m ''handle''); a \<leftarrow> as_id (m ''actor_id''); p \<leftarrow> as_id (m ''represented_profile_id'');
     d \<leftarrow> as_digest (m ''digest''); nb \<leftarrow> as_utc (m ''not_before_utc''); ex \<leftarrow> as_utc (m ''expires_at_utc'');
     n \<leftarrow> as_int (m ''attempts_remaining''); r \<leftarrow> as_opt as_id (m ''root_capability_id'');
     q \<leftarrow> as_opt as_root_purpose (m ''root_purpose''); c \<leftarrow> as_bool (m ''consumed'');
     t \<leftarrow> as_opt as_utc (m ''retired_at_utc'');
     checked bootstrap_record_ok \<lparr>bs_handle = h, bs_actor_id = a, bs_profile_id = p, bs_digest = d,
       bs_not_before = nb, bs_expires_at = ex, bs_attempts = n, bs_root_id = r, bs_root_purpose = q,
       bs_consumed = c, bs_retired_at = t\<rparr> }"

definition make_composition :: "field_map \<Rightarrow> composition_record option" where
  "make_composition m = do {
     i \<leftarrow> as_id (m ''installation_id''); oh \<leftarrow> as_id (m ''operator_handle'');
     od \<leftarrow> as_digest (m ''operator_digest''); sh \<leftarrow> as_id (m ''service_handle'');
     sd \<leftarrow> as_digest (m ''service_digest'');
     checked composition_record_ok \<lparr>co_installation_id = i, co_operator_handle = oh,
       co_operator_digest = od, co_service_handle = sh, co_service_digest = sd\<rparr> }"

definition make_provenance :: "field_map \<Rightarrow> grant_provenance option" where
  "make_provenance m = do {
     g \<leftarrow> as_grant (m ''grant''); t \<leftarrow> as_opt as_utc (m ''used_at_utc'');
     checked grant_provenance_ok \<lparr>gp_grant = g, gp_used_at = t\<rparr> }"

definition make_recovery :: "field_map \<Rightarrow> recovery_record option" where
  "make_recovery m = do {
     h \<leftarrow> as_id (m ''handle''); a \<leftarrow> as_id (m ''actor_id''); p \<leftarrow> as_id (m ''represented_profile_id'');
     d \<leftarrow> as_digest (m ''digest''); e \<leftarrow> as_int (m ''epoch''); nb \<leftarrow> as_utc (m ''not_before_utc'');
     ex \<leftarrow> as_utc (m ''expires_at_utc''); n \<leftarrow> as_int (m ''attempts_remaining'');
     c \<leftarrow> as_bool (m ''consumed''); t \<leftarrow> as_opt as_utc (m ''retired_at_utc'');
     checked recovery_record_ok \<lparr>rv_handle = h, rv_actor_id = a, rv_profile_id = p, rv_digest = d,
       rv_epoch = e, rv_not_before = nb, rv_expires_at = ex, rv_attempts = n, rv_consumed = c,
       rv_retired_at = t\<rparr> }"

definition make_ceremony :: "field_map \<Rightarrow> ceremony_record option" where
  "make_ceremony m = do {
     h \<leftarrow> as_id (m ''handle''); d \<leftarrow> as_digest (m ''digest''); b \<leftarrow> as_id (m ''bootstrap_handle'');
     i \<leftarrow> as_id (m ''installation_id''); s \<leftarrow> as_id (m ''service_handle'');
     ex \<leftarrow> as_utc (m ''expires_at_utc''); n \<leftarrow> as_int (m ''replay_seconds'');
     t \<leftarrow> as_opt as_utc (m ''terminal_at_utc''); q \<leftarrow> as_opt as_denial (m ''terminal_denial'');
     checked ceremony_record_ok \<lparr>ce_handle = h, ce_digest = d, ce_bootstrap_handle = b,
       ce_installation_id = i, ce_service_handle = s, ce_expires_at = ex, ce_replay_seconds = n,
       ce_terminal_at = t, ce_terminal_denial = q\<rparr> }"

definition make_root :: "field_map \<Rightarrow> root_record option" where
  "make_root m = do {
     h \<leftarrow> as_id (m ''handle''); i \<leftarrow> as_id (m ''installation_id''); a \<leftarrow> as_id (m ''actor_id'');
     p \<leftarrow> as_id (m ''represented_profile_id''); q \<leftarrow> as_root_purpose (m ''purpose'');
     d \<leftarrow> as_digest (m ''digest''); c \<leftarrow> as_bool (m ''consumed''); t \<leftarrow> as_opt as_utc (m ''retired_at_utc'');
     Some \<lparr>rr_handle = h, rr_installation_id = i, rr_actor_id = a, rr_profile_id = p, rr_purpose = q,
       rr_digest = d, rr_consumed = c, rr_retired_at = t\<rparr> }"

definition make_session :: "field_map \<Rightarrow> session_record option" where
  "make_session m = do {
     h \<leftarrow> as_id (m ''handle''); a \<leftarrow> as_id (m ''actor_id''); p \<leftarrow> as_id (m ''represented_profile_id'');
     d \<leftarrow> as_digest (m ''digest''); e \<leftarrow> as_int (m ''epoch''); nb \<leftarrow> as_utc (m ''not_before_utc'');
     ex \<leftarrow> as_utc (m ''expires_at_utc''); c \<leftarrow> as_bool (m ''revoked'');
     t \<leftarrow> as_opt as_utc (m ''retired_at_utc'');
     checked session_record_ok \<lparr>ss_handle = h, ss_actor_id = a, ss_profile_id = p, ss_digest = d,
       ss_epoch = e, ss_not_before = nb, ss_expires_at = ex, ss_revoked = c, ss_retired_at = t\<rparr> }"

definition make_step_up :: "field_map \<Rightarrow> step_up_record option" where
  "make_step_up m = do {
     h \<leftarrow> as_id (m ''handle''); a \<leftarrow> as_id (m ''actor_id''); p \<leftarrow> as_id (m ''represented_profile_id'');
     s \<leftarrow> as_id (m ''session_id''); d \<leftarrow> as_digest (m ''digest''); e \<leftarrow> as_int (m ''epoch'');
     q \<leftarrow> as_purpose (m ''purpose''); sc \<leftarrow> as_scopes (m ''scopes''); nb \<leftarrow> as_utc (m ''not_before_utc'');
     ex \<leftarrow> as_utc (m ''expires_at_utc''); n \<leftarrow> as_int (m ''attempts_remaining'');
     c \<leftarrow> as_bool (m ''consumed''); t \<leftarrow> as_opt as_utc (m ''retired_at_utc'');
     checked step_up_record_ok \<lparr>su_handle = h, su_actor_id = a, su_profile_id = p, su_session_id = s,
       su_digest = d, su_epoch = e, su_purpose = q, su_scopes = sc, su_not_before = nb,
       su_expires_at = ex, su_attempts = n, su_consumed = c, su_retired_at = t\<rparr> }"

text \<open>\<^verbatim>\<open>_V1_RECORD_FIELDS\<close> and \<^verbatim>\<open>_RECORD_TYPES\<close>: the fields of each record and its constructor.\<close>

definition record_types :: "(string \<times> string list \<times> (field_map \<Rightarrow> auth_value option)) list" where
  "record_types =
     [(''ActorRecord'', [''actor_id'', ''represented_profile_id'', ''epoch'', ''last_observed_utc'',
         ''initialized''], map_option V_Actor \<circ> make_actor),
      (''AuthorityGrant'', [''actor_id'', ''represented_profile_id'', ''session_id'',
         ''authority_evidence_id'', ''purpose'', ''scopes'', ''not_before_utc'', ''expires_at_utc'', ''epoch''],
         map_option V_Grant \<circ> make_grant),
      (''BootstrapRecord'', [''handle'', ''actor_id'', ''represented_profile_id'', ''digest'',
         ''not_before_utc'', ''expires_at_utc'', ''attempts_remaining'', ''root_capability_id'',
         ''root_purpose'', ''consumed'', ''retired_at_utc''], map_option V_Bootstrap \<circ> make_bootstrap),
      (''CompositionBindingRecord'', [''installation_id'', ''operator_handle'', ''operator_digest'',
         ''service_handle'', ''service_digest''], map_option V_Composition \<circ> make_composition),
      (''GrantProvenanceRecord'', [''grant'', ''used_at_utc''], map_option V_Provenance \<circ> make_provenance),
      (''RecoveryRecord'', [''handle'', ''actor_id'', ''represented_profile_id'', ''digest'', ''epoch'',
         ''not_before_utc'', ''expires_at_utc'', ''attempts_remaining'', ''consumed'', ''retired_at_utc''],
         map_option V_Recovery \<circ> make_recovery),
      (''ReprovisionCeremonyRecord'', [''handle'', ''digest'', ''bootstrap_handle'', ''installation_id'',
         ''service_handle'', ''expires_at_utc'', ''replay_seconds'', ''terminal_at_utc'', ''terminal_denial''],
         map_option V_Ceremony \<circ> make_ceremony),
      (''RootCapabilityRecord'', [''handle'', ''installation_id'', ''actor_id'', ''represented_profile_id'',
         ''purpose'', ''digest'', ''consumed'', ''retired_at_utc''], map_option V_Root \<circ> make_root),
      (''SessionRecord'', [''handle'', ''actor_id'', ''represented_profile_id'', ''digest'', ''epoch'',
         ''not_before_utc'', ''expires_at_utc'', ''revoked'', ''retired_at_utc''],
         map_option V_Session \<circ> make_session),
      (''StepUpRecord'', [''handle'', ''actor_id'', ''represented_profile_id'', ''session_id'', ''digest'',
         ''epoch'', ''purpose'', ''scopes'', ''not_before_utc'', ''expires_at_utc'', ''attempts_remaining'',
         ''consumed'', ''retired_at_utc''], map_option V_Step_Up \<circ> make_step_up)]"

definition enum_member :: "string \<Rightarrow> string \<Rightarrow> auth_value option" where
  "enum_member name v =
     (if name = ''AuthDenial'' then map_option V_Denial (denial_of v)
      else if name = ''AuthPurpose'' then map_option V_Purpose (purpose_of v)
      else if name = ''AuthScope'' then map_option V_Scope (scope_of v)
      else if name = ''RootPurpose'' then map_option V_Root_Purpose (root_purpose_of v)
      else None)"

text \<open>The scalar kinds: a tag and a text.\<close>

definition decode_scalar :: "(string \<Rightarrow> datetime option) \<Rightarrow> string \<Rightarrow> string \<Rightarrow> auth_value option" where
  "decode_scalar F kind v =
     (if kind = ''opaque_id'' then map_option V_Id (parse_uuid4 v)
      else if kind = ''secret_digest'' then
        (case b64decode v of
           None \<Rightarrow> None | Some raw \<Rightarrow> if len raw = SHA256_BYTES then Some (V_Digest raw) else None)
      else if kind = ''utc_datetime'' then map_option V_Time (F v)
      else None)"

function decode :: "(string \<Rightarrow> datetime option) \<Rightarrow> json \<Rightarrow> auth_value option" where
  "decode F J_Null = Some V_None"
| "decode F (J_Bool b) = Some (V_Bool b)"
| "decode F (J_Int i) = Some (V_Int i)"
| "decode F (J_Str s) = Some (V_Str s)"
| "decode F (J_Float t) = None"
| "decode F (J_Arr vs) = None"
| "decode F (J_Obj ms) =
     Option.bind (j_str (map_of ms ''type'')) (\<lambda>kind.
       if kind = ''enum'' then
         if has_keys ms [''type'', ''name'', ''value''] then
           Option.bind (j_str (map_of ms ''name'')) (\<lambda>name.
           Option.bind (j_str (map_of ms ''value'')) (\<lambda>v. enum_member name v))
         else None
       else if kind = ''frozenset'' then
         if has_keys ms [''type'', ''items''] then
           Option.bind (j_arr (map_of ms ''items'')) (\<lambda>vs. map_option V_Set (those (map (decode F) vs)))
         else None
       else if kind = ''record'' then
         if has_keys ms [''type'', ''name'', ''fields''] then
           Option.bind (j_str (map_of ms ''name'')) (\<lambda>name.
           Option.bind (map_of record_types name) (\<lambda>(expected, build).
           Option.bind (j_obj (map_of ms ''fields'')) (\<lambda>fs.
             if has_keys fs expected
             then build (\<lambda>k. case map_of fs k of None \<Rightarrow> None | Some v \<Rightarrow> decode F v)
             else None)))
         else None
       else if has_keys ms [''type'', ''value''] then
         Option.bind (j_str (map_of ms ''value'')) (decode_scalar F kind)
       else None)"
  by pat_completeness auto

termination decode
proof (relation "measure (size \<circ> snd)", goal_cases)
  case 2
  then show ?case unfolding in_measure comp_apply snd_conv j_Some by (metis size_set_item)
next
  case 3
  then show ?case unfolding in_measure comp_apply snd_conv j_Some by (metis size_field)
qed (rule wf_measure)


section \<open>Restoring\<close>

definition restore_pair :: "(string \<Rightarrow> datetime option) \<Rightarrow> (auth_value option \<Rightarrow> 'v option) \<Rightarrow> (uuid \<Rightarrow> 'v \<Rightarrow> bool) \<Rightarrow>
    json \<Rightarrow> (uuid \<times> 'v) option" where
  "restore_pair F item matches pair =
     (case pair of
        J_Arr [a, b] \<Rightarrow> do {
          key \<leftarrow> as_id (decode F a); x \<leftarrow> item (decode F b);
          if matches key x then Some (key, x) else None }
      | _ \<Rightarrow> None)"

definition restore_collection ::
    "(string \<Rightarrow> datetime option) \<Rightarrow> (string \<times> json) list \<Rightarrow> string \<Rightarrow> (auth_value option \<Rightarrow> 'v option) \<Rightarrow>
     (uuid \<Rightarrow> 'v \<Rightarrow> bool) \<Rightarrow> (uuid \<times> 'v) list option" where
  "restore_collection F ms name item matches =
     Option.bind (j_arr (map_of ms name)) (\<lambda>pairs.
     Option.bind (those (map (restore_pair F item matches) pairs)) (\<lambda>kvs.
       if distinct (map fst kvs) then Some kvs else None))"

definition as_actor :: "auth_value option \<Rightarrow> actor_record option" where
  "as_actor v = (case v of Some (V_Actor x) \<Rightarrow> Some x | _ \<Rightarrow> None)"
definition as_root :: "auth_value option \<Rightarrow> root_record option" where
  "as_root v = (case v of Some (V_Root x) \<Rightarrow> Some x | _ \<Rightarrow> None)"
definition as_bootstrap :: "auth_value option \<Rightarrow> bootstrap_record option" where
  "as_bootstrap v = (case v of Some (V_Bootstrap x) \<Rightarrow> Some x | _ \<Rightarrow> None)"
definition as_session :: "auth_value option \<Rightarrow> session_record option" where
  "as_session v = (case v of Some (V_Session x) \<Rightarrow> Some x | _ \<Rightarrow> None)"
definition as_recovery :: "auth_value option \<Rightarrow> recovery_record option" where
  "as_recovery v = (case v of Some (V_Recovery x) \<Rightarrow> Some x | _ \<Rightarrow> None)"
definition as_step_up :: "auth_value option \<Rightarrow> step_up_record option" where
  "as_step_up v = (case v of Some (V_Step_Up x) \<Rightarrow> Some x | _ \<Rightarrow> None)"
definition as_provenance :: "auth_value option \<Rightarrow> grant_provenance option" where
  "as_provenance v = (case v of Some (V_Provenance x) \<Rightarrow> Some x | _ \<Rightarrow> None)"
definition as_composition :: "auth_value option \<Rightarrow> composition_record option" where
  "as_composition v = (case v of Some (V_Composition x) \<Rightarrow> Some x | _ \<Rightarrow> None)"
definition as_ceremony :: "auth_value option \<Rightarrow> ceremony_record option" where
  "as_ceremony v = (case v of Some (V_Ceremony x) \<Rightarrow> Some x | _ \<Rightarrow> None)"

lemmas as_defs = as_id_def as_digest_def as_utc_def as_int_def as_bool_def as_denial_def as_purpose_def as_root_purpose_def as_grant_def as_scopes_def as_actor_def as_root_def as_bootstrap_def as_session_def as_recovery_def as_step_up_def as_provenance_def as_composition_def as_ceremony_def
  as_scope_def as_opt_def

definition collection_names :: "string list" where
  "collection_names = [''actors'', ''installation_actors'', ''roots'', ''bootstraps'', ''sessions'',
     ''recoveries'', ''step_ups'', ''grant_provenance'', ''composition_bindings'', ''reprovision_ceremonies'']"

definition restore_snapshot :: "(string \<Rightarrow> datetime option) \<Rightarrow> json \<Rightarrow> auth_snapshot option" where
  "restore_snapshot F doc =
     (case doc of
        J_Obj ms \<Rightarrow>
          if \<not> has_keys ms collection_names then None
          else do {
            ac \<leftarrow> restore_collection F ms ''actors'' as_actor (\<lambda>k x. ac_actor_id x = k);
            ia \<leftarrow> restore_collection F ms ''installation_actors'' as_id (\<lambda>_ _. True);
            ro \<leftarrow> restore_collection F ms ''roots'' as_root (\<lambda>k x. rr_handle x = k);
            bo \<leftarrow> restore_collection F ms ''bootstraps'' as_bootstrap (\<lambda>k x. bs_handle x = k);
            se \<leftarrow> restore_collection F ms ''sessions'' as_session (\<lambda>k x. ss_handle x = k);
            re \<leftarrow> restore_collection F ms ''recoveries'' as_recovery (\<lambda>k x. rv_handle x = k);
            su \<leftarrow> restore_collection F ms ''step_ups'' as_step_up (\<lambda>k x. su_handle x = k);
            gp \<leftarrow> restore_collection F ms ''grant_provenance'' as_provenance (\<lambda>k x. gp_evidence x = k);
            co \<leftarrow> restore_collection F ms ''composition_bindings'' as_composition (\<lambda>k x. co_installation_id x = k);
            ce \<leftarrow> restore_collection F ms ''reprovision_ceremonies'' as_ceremony (\<lambda>k x. ce_handle x = k);
            checked auth_snapshot_ok \<lparr>sn_actors = map snd ac, sn_installation_actors = ia,
              sn_roots = map snd ro, sn_bootstraps = map snd bo, sn_sessions = map snd se,
              sn_recoveries = map snd re, sn_step_ups = map snd su, sn_grants = map snd gp,
              sn_compositions = map snd co, sn_ceremonies = map snd ce\<rparr> }
      | _ \<Rightarrow> None)"

definition restore :: "(string \<Rightarrow> datetime option) \<Rightarrow> string \<Rightarrow> durable_error + auth_state" where
  "restore F payload =
     (case Option.bind (loads payload) (restore_snapshot F) of
        None \<Rightarrow> Inl State_Corrupt
      | Some sn \<Rightarrow> Inr (from_durable_state sn))"

end
