(* ===== verification/Auth_Codec_Guarantees.thy ===== *)
theory Auth_Codec_Guarantees
  imports Auth_Codec
begin

text \<open>
  The text of the durable state determines the state: what \<^verbatim>\<open>_snapshot\<close> writes, \<^verbatim>\<open>_restore\<close> reads
  back, with every collection in the order of its handles.
\<close>


section \<open>The order of keys does not matter to the decoder\<close>

lemma decode_sort_keys: "distinct_keys j \<Longrightarrow> decode F (sort_keys j) = decode F j"
proof (induction j rule: measure_induct_rule [of size])
  case (less j)
  show ?case
  proof (cases j)
    case (J_Obj ms)
    note dk = less.prems [unfolded J_Obj]
    have look: "map_of (sort_key fst (map (\<lambda>(k, v). (k, sort_keys v)) ms)) k = map_option sort_keys (map_of ms k)" for k
      using dk by (intro map_of_sorted) simp
    have arr: "those (map (decode F) (map sort_keys vs)) = those (map (decode F) vs)"
      if "map_of ms k = Some (J_Arr vs)" for k vs
    proof -
      have "decode F (sort_keys v) = decode F v" if "v \<in> set vs" for v
        using less.IH [of v] size_set_item [OF \<open>map_of ms k = Some (J_Arr vs)\<close> that] J_Obj that
          distinct_keys_member [OF dk \<open>map_of ms k = Some (J_Arr vs)\<close>] by (simp add: list_all_iff)
      then show ?thesis by (simp cong: map_cong)
    qed
    have obj: "(\<lambda>l. case map_of (sort_key fst (map (\<lambda>(k, v). (k, sort_keys v)) fs)) l of
          None \<Rightarrow> None | Some v \<Rightarrow> decode F v) = (\<lambda>l. case map_of fs l of None \<Rightarrow> None | Some v \<Rightarrow> decode F v)"
      if "map_of ms k = Some (J_Obj fs)" for k fs
    proof
      fix l
      have dfs: "distinct_keys (J_Obj fs)" using distinct_keys_member [OF dk that] .
      have "decode F (sort_keys v) = decode F v" if "map_of fs l = Some v" for v
        using less.IH [of v] size_field [OF \<open>map_of ms k = Some (J_Obj fs)\<close> that] J_Obj
          distinct_keys_member [OF dfs that] by simp
      moreover have "distinct (map fst fs)" using dfs by simp
      ultimately show "(case map_of (sort_key fst (map (\<lambda>(k, v). (k, sort_keys v)) fs)) l of
          None \<Rightarrow> None | Some v \<Rightarrow> decode F v) = (case map_of fs l of None \<Rightarrow> None | Some v \<Rightarrow> decode F v)"
        by (simp add: map_of_sorted split: option.split)
    qed
    have arr': "Option.bind (map_option (map sort_keys) (j_arr (map_of ms k)))
          (\<lambda>vs. map_option V_Set (those (map (decode F) vs)))
        = Option.bind (j_arr (map_of ms k)) (\<lambda>vs. map_option V_Set (those (map (decode F) vs)))" for k
      by (cases "j_arr (map_of ms k)") (simp_all add: j_Some arr del: map_map)
    have obj': "Option.bind (map_option (\<lambda>fs. sort_key fst (map sorted_member fs)) (j_obj (map_of ms k)))
          (\<lambda>fs. if has_keys fs e then b (\<lambda>l. case map_of fs l of None \<Rightarrow> None | Some v \<Rightarrow> decode F v) else None)
        = Option.bind (j_obj (map_of ms k))
          (\<lambda>fs. if has_keys fs e then b (\<lambda>l. case map_of fs l of None \<Rightarrow> None | Some v \<Rightarrow> decode F v) else None)"
      for k e and b :: "field_map \<Rightarrow> auth_value option"
      by (cases "j_obj (map_of ms k)") (simp_all add: j_Some obj has_keys_sorted)
    show ?thesis
      unfolding J_Obj sort_keys.simps decode.simps(7) look has_keys_sorted j_sort_keys arr' obj' by (rule refl)
  qed simp_all
qed



section \<open>Scalars and records\<close>

text \<open>What the type of a digest guarantees.\<close>

definition digest_ok :: "bytes \<Rightarrow> bool" where
  "digest_ok d \<longleftrightarrow> len d = SHA256_BYTES"

text \<open>\<^verbatim>\<open>datetime.fromisoformat\<close> inverts \<^verbatim>\<open>isoformat\<close>.\<close>

definition iso_inverse :: "(string \<Rightarrow> datetime option) \<Rightarrow> bool" where
  "iso_inverse F \<longleftrightarrow> (\<forall>t. time_ok t \<longrightarrow> F (isoformat t) = Some (utc t))"

lemma canonical_iso_inverse: "iso_inverse (\<lambda>s. map_option utc (parse_iso s))"
  by (simp add: iso_inverse_def time_ok_def parse_isoformat)

lemma decode_tagged: "kind \<notin> {''enum'', ''frozenset'', ''record''} \<Longrightarrow>
    decode F (tagged kind v) = decode_scalar F kind v"
  by (simp add: tagged_def has_keys_def)

lemma decode_id: "uuid4 u \<Longrightarrow> decode F (encode_id u) = Some (V_Id u)"
  by (simp add: encode_id_def decode_tagged decode_scalar_def parse_uuid_text)

lemma decode_digest: "digest_ok d \<Longrightarrow> decode F (encode_digest d) = Some (V_Digest d)"
  by (simp add: encode_digest_def decode_tagged decode_scalar_def b64decode_encode digest_ok_def)

lemma decode_time: "iso_inverse F \<Longrightarrow> time_ok t \<Longrightarrow> decode F (encode_time t) = Some (V_Time (utc t))"
  by (simp add: encode_time_def decode_tagged decode_scalar_def iso_inverse_def)

lemma decode_enum: "decode F (encode_enum name v) = enum_member name v"
  by (simp add: encode_enum_def has_keys_def insert_commute)

lemma decode_purpose: "decode F (encode_purpose p) = Some (V_Purpose p)"
  by (cases p) (simp_all add: encode_purpose_def decode_enum enum_member_def purpose_of_def all_purposes_def)

lemma decode_root_purpose: "decode F (encode_root_purpose p) = Some (V_Root_Purpose p)"
  by (cases p) (simp_all add: encode_root_purpose_def decode_enum enum_member_def root_purpose_of_def
      all_root_purposes_def)

lemma scope_of_value: "scope_of (scope_value s) = Some s"
  by (cases s) (simp_all add: scope_of_def all_scopes_def)

lemma decode_denial: "map_of v1_denials d \<noteq> None \<Longrightarrow> decode F (encode_denial d) = Some (V_Denial d)"
  by (cases d) (simp_all add: encode_denial_def decode_enum enum_member_def denial_of_def v1_denials_def)

lemma decode_scopes: "decode F (encode_scopes ss) = Some (V_Set (map V_Scope (filter (\<lambda>s. s \<in> ss) all_scopes)))"
proof -
  have "those (map (\<lambda>s. enum_member ''AuthScope'' (scope_value s)) (filter (\<lambda>s. s \<in> ss) all_scopes))
      = Some (map V_Scope (filter (\<lambda>s. s \<in> ss) all_scopes))"
    by (rule those_Some) (simp add: enum_member_def scope_of_value)
  then show ?thesis
    by (simp add: encode_scopes_def has_keys_def decode_enum comp_def insert_commute)
qed

lemma as_scopes_all: "as_scopes (Some (V_Set (map V_Scope (filter (\<lambda>s. s \<in> ss) all_scopes)))) = Some ss"
proof -
  have "those (map as_scope (map V_Scope xs)) = Some xs" for xs
    by (induction xs) (simp_all add: as_scope_def)
  moreover have "set all_scopes = UNIV" by (auto simp: all_scopes_def intro: auth_scope.exhaust)
  ultimately show ?thesis by (auto simp: as_scopes_def)
qed

lemma decode_opt:
  "decode F (encode_opt f x) = (case x of None \<Rightarrow> Some V_None | Some v \<Rightarrow> decode F (f v))"
  by (cases x) (simp_all add: encode_opt_def)

lemma decode_record:
  "decode F (encode_record name fs) =
     (case map_of record_types name of
        None \<Rightarrow> None
      | Some (expected, build) \<Rightarrow>
          if set (map fst fs) = set expected
          then build (\<lambda>k. case map_of fs k of None \<Rightarrow> None | Some v \<Rightarrow> decode F v) else None)"
  by (simp add: encode_record_def has_keys_def insert_commute split: option.split)

definition storable_actor :: "actor_record \<Rightarrow> bool" where
  "storable_actor a \<longleftrightarrow> actor_record_ok a \<and> uuid4 (ac_actor_id a) \<and> uuid4 (ac_profile_id a) \<and>
     time_ok (ac_last_observed a)"

definition storable_grant :: "authority_grant \<Rightarrow> bool" where
  "storable_grant g \<longleftrightarrow> authority_grant_ok g \<and> uuid4 (gr_actor_id g) \<and> uuid4 (gr_profile_id g) \<and>
     uuid4 (gr_session_id g) \<and> uuid4 (gr_evidence_id g) \<and> time_ok (gr_not_before g) \<and> time_ok (gr_expires_at g)"

definition storable_provenance :: "grant_provenance \<Rightarrow> bool" where
  "storable_provenance p \<longleftrightarrow> grant_provenance_ok p \<and> storable_grant (gp_grant p) \<and> pred_option time_ok (gp_used_at p)"

definition storable_bootstrap :: "bootstrap_record \<Rightarrow> bool" where
  "storable_bootstrap b \<longleftrightarrow> bootstrap_record_ok b \<and> uuid4 (bs_handle b) \<and> uuid4 (bs_actor_id b) \<and>
     uuid4 (bs_profile_id b) \<and> digest_ok (bs_digest b) \<and> time_ok (bs_not_before b) \<and> time_ok (bs_expires_at b) \<and>
     pred_option uuid4 (bs_root_id b) \<and> pred_option time_ok (bs_retired_at b)"

definition storable_composition :: "composition_record \<Rightarrow> bool" where
  "storable_composition c \<longleftrightarrow> composition_record_ok c \<and> uuid4 (co_installation_id c) \<and>
     uuid4 (co_operator_handle c) \<and> digest_ok (co_operator_digest c) \<and> uuid4 (co_service_handle c) \<and>
     digest_ok (co_service_digest c)"

definition storable_recovery :: "recovery_record \<Rightarrow> bool" where
  "storable_recovery v \<longleftrightarrow> recovery_record_ok v \<and> uuid4 (rv_handle v) \<and> uuid4 (rv_actor_id v) \<and>
     uuid4 (rv_profile_id v) \<and> digest_ok (rv_digest v) \<and> time_ok (rv_not_before v) \<and> time_ok (rv_expires_at v) \<and>
     pred_option time_ok (rv_retired_at v)"

definition storable_ceremony :: "ceremony_record \<Rightarrow> bool" where
  "storable_ceremony c \<longleftrightarrow> ceremony_record_ok c \<and> uuid4 (ce_handle c) \<and> digest_ok (ce_digest c) \<and>
     uuid4 (ce_bootstrap_handle c) \<and> uuid4 (ce_installation_id c) \<and> uuid4 (ce_service_handle c) \<and>
     time_ok (ce_expires_at c) \<and> pred_option time_ok (ce_terminal_at c) \<and>
     pred_option (\<lambda>d. map_of v1_denials d \<noteq> None) (ce_terminal_denial c)"

definition storable_root :: "root_record \<Rightarrow> bool" where
  "storable_root r \<longleftrightarrow> uuid4 (rr_handle r) \<and> uuid4 (rr_installation_id r) \<and> uuid4 (rr_actor_id r) \<and>
     uuid4 (rr_profile_id r) \<and> digest_ok (rr_digest r) \<and> pred_option time_ok (rr_retired_at r)"

definition storable_session :: "session_record \<Rightarrow> bool" where
  "storable_session x \<longleftrightarrow> session_record_ok x \<and> uuid4 (ss_handle x) \<and> uuid4 (ss_actor_id x) \<and>
     uuid4 (ss_profile_id x) \<and> digest_ok (ss_digest x) \<and> time_ok (ss_not_before x) \<and> time_ok (ss_expires_at x) \<and>
     pred_option time_ok (ss_retired_at x)"

definition storable_step_up :: "step_up_record \<Rightarrow> bool" where
  "storable_step_up u \<longleftrightarrow> step_up_record_ok u \<and> uuid4 (su_handle u) \<and> uuid4 (su_actor_id u) \<and>
     uuid4 (su_profile_id u) \<and> uuid4 (su_session_id u) \<and> digest_ok (su_digest u) \<and> time_ok (su_not_before u) \<and>
     time_ok (su_expires_at u) \<and> pred_option time_ok (su_retired_at u)"

lemmas storable_defs = storable_actor_def storable_grant_def storable_provenance_def storable_bootstrap_def
  storable_composition_def storable_recovery_def storable_ceremony_def storable_root_def storable_session_def
  storable_step_up_def

text \<open>A field of any storable kind is found and read back by the constructor.\<close>

lemma read_fields:
  "uuid4 u \<Longrightarrow> as_id (decode F (encode_id u)) = Some u"
  "digest_ok d \<Longrightarrow> as_digest (decode F (encode_digest d)) = Some d"
  "iso_inverse F \<Longrightarrow> time_ok t \<Longrightarrow> as_utc (decode F (encode_time t)) = Some t"
  "as_purpose (decode F (encode_purpose p)) = Some p"
  "as_root_purpose (decode F (encode_root_purpose q)) = Some q"
  "as_scopes (decode F (encode_scopes ss)) = Some ss"
  "as_int (Some (V_Int i)) = Some i" "as_bool (Some (V_Bool b)) = Some b"
  "pred_option uuid4 ou \<Longrightarrow> as_opt as_id (decode F (encode_opt encode_id ou)) = Some ou"
  "iso_inverse F \<Longrightarrow> pred_option time_ok ot \<Longrightarrow> as_opt as_utc (decode F (encode_opt encode_time ot)) = Some ot"
  "as_opt as_root_purpose (decode F (encode_opt encode_root_purpose oq)) = Some oq"
  "pred_option (\<lambda>d. map_of v1_denials d \<noteq> None) od \<Longrightarrow>
     as_opt as_denial (decode F (encode_opt encode_denial od)) = Some od"
  by (simp_all add: decode_id decode_digest decode_time decode_purpose decode_root_purpose decode_scopes
      as_scopes_all decode_opt decode_denial as_defs(1-9) as_opt_def is_utc_def pred_option_def split: option.split)

lemma decode_actor: "iso_inverse F \<Longrightarrow> storable_actor a \<Longrightarrow> decode F (encode_actor a) = Some (V_Actor a)"
  by (cases a) (simp add: encode_actor_def decode_record record_types_def make_actor_def read_fields
      checked_def storable_actor_def)

lemma decode_grant: "iso_inverse F \<Longrightarrow> storable_grant g \<Longrightarrow> decode F (encode_grant g) = Some (V_Grant g)"
  by (cases g) (simp add: encode_grant_def decode_record record_types_def make_grant_def read_fields
      checked_def storable_grant_def)

lemma decode_provenance:
  "iso_inverse F \<Longrightarrow> storable_provenance p \<Longrightarrow> decode F (encode_provenance p) = Some (V_Provenance p)"
  by (cases p) (simp add: encode_provenance_def decode_record record_types_def make_provenance_def read_fields
      checked_def storable_provenance_def decode_grant as_grant_def)

lemma decode_bootstrap:
  "iso_inverse F \<Longrightarrow> storable_bootstrap b \<Longrightarrow> decode F (encode_bootstrap b) = Some (V_Bootstrap b)"
  by (cases b) (simp add: encode_bootstrap_def decode_record record_types_def make_bootstrap_def read_fields
      checked_def storable_bootstrap_def)

lemma decode_composition:
  "storable_composition c \<Longrightarrow> decode F (encode_composition c) = Some (V_Composition c)"
  by (cases c) (simp add: encode_composition_def decode_record record_types_def make_composition_def read_fields
      checked_def storable_composition_def)

lemma decode_recovery:
  "iso_inverse F \<Longrightarrow> storable_recovery v \<Longrightarrow> decode F (encode_recovery v) = Some (V_Recovery v)"
  by (cases v) (simp add: encode_recovery_def decode_record record_types_def make_recovery_def read_fields
      checked_def storable_recovery_def)

lemma decode_ceremony:
  "iso_inverse F \<Longrightarrow> storable_ceremony c \<Longrightarrow> decode F (encode_ceremony c) = Some (V_Ceremony c)"
  by (cases c) (simp add: encode_ceremony_def decode_record record_types_def make_ceremony_def read_fields
      checked_def storable_ceremony_def)

lemma decode_root: "iso_inverse F \<Longrightarrow> storable_root r \<Longrightarrow> decode F (encode_root r) = Some (V_Root r)"
  by (cases r) (simp add: encode_root_def decode_record record_types_def make_root_def read_fields
      storable_root_def)

lemma decode_session:
  "iso_inverse F \<Longrightarrow> storable_session x \<Longrightarrow> decode F (encode_session x) = Some (V_Session x)"
  by (cases x) (simp add: encode_session_def decode_record record_types_def make_session_def read_fields
      checked_def storable_session_def)

lemma decode_step_up:
  "iso_inverse F \<Longrightarrow> storable_step_up u \<Longrightarrow> decode F (encode_step_up u) = Some (V_Step_Up u)"
  by (cases u) (simp add: encode_step_up_def decode_record record_types_def make_step_up_def read_fields
      checked_def storable_step_up_def)



section \<open>Collections and the whole document\<close>

lemma restore_pair_sorted:
  "distinct_keys j \<Longrightarrow> restore_pair F item matches (sort_keys j) = restore_pair F item matches j"
proof (cases j)
  case (J_Arr vs)
  then show "distinct_keys j \<Longrightarrow> ?thesis"
    by (cases vs rule: remdups_adj.cases; (cases "tl (tl vs)")?)
      (auto simp: restore_pair_def decode_sort_keys split: list.split)
qed (simp_all add: restore_pair_def)

lemma restore_collection_sorted:
  assumes "distinct_keys (J_Obj ms)"
  shows "restore_collection F (sort_key fst (map sorted_member ms)) name item matches =
    restore_collection F ms name item matches"
proof -
  have "map (restore_pair F item matches) (map sort_keys ps) = map (restore_pair F item matches) ps"
    if "map_of ms name = Some (J_Arr ps)" for ps
    using distinct_keys_member [OF assms that] by (auto simp: list_all_iff restore_pair_sorted)
  then show ?thesis
    using assms unfolding restore_collection_def
    by (cases "j_arr (map_of ms name)") (simp_all add: map_of_sorted j_sort_keys j_Some del: map_map)
qed

lemma restore_snapshot_sorted: "distinct_keys j \<Longrightarrow> restore_snapshot F (sort_keys j) = restore_snapshot F j"
proof (cases j)
  case (J_Obj ms)
  then show "distinct_keys j \<Longrightarrow> ?thesis"
    by (simp add: restore_snapshot_def has_keys_sorted restore_collection_sorted del: distinct_keys.simps)
qed (simp_all add: restore_snapshot_def)

lemma restore_encoded:
  assumes "distinct (map key xs)"
    and "\<And>x. x \<in> set xs \<Longrightarrow> uuid4 (key x) \<and> item (decode F (f x)) = Some (g x) \<and> matches (key x) (g x)"
    and "map_of ms name = Some (encode_collection key f xs)"
  shows "restore_collection F ms name item matches = Some (map (\<lambda>x. (key x, g x)) (sort_key key xs))"
proof -
  have "those (map (restore_pair F item matches) (map (\<lambda>x. J_Arr [encode_id (key x), f x]) (sort_key key xs)))
      = those (map (\<lambda>x. restore_pair F item matches (J_Arr [encode_id (key x), f x])) (sort_key key xs))"
    by (simp add: comp_def)
  also have "\<dots> = Some (map (\<lambda>x. (key x, g x)) (sort_key key xs))"
    using assms(2) by (intro those_Some) (simp add: restore_pair_def decode_id as_id_def)
  finally have those: "those (map (restore_pair F item matches)
      (map (\<lambda>x. J_Arr [encode_id (key x), f x]) (sort_key key xs))) = Some (map (\<lambda>x. (key x, g x)) (sort_key key xs))" .
  have "distinct (map key (sort_key key xs))"
    using assms(1) by (metis distinct_map distinct_sort set_sort)
  then have "distinct (map fst (map (\<lambda>x. (key x, g x)) (sort_key key xs)))" by (simp add: comp_def)
  then show ?thesis
    using assms(3) those by (simp add: restore_collection_def encode_collection_def del: map_map)
qed

definition storable :: "auth_snapshot \<Rightarrow> bool" where
  "storable sn \<longleftrightarrow>
     list_all storable_actor (sn_actors sn) \<and>
     list_all (\<lambda>(i, a). uuid4 i \<and> uuid4 a) (sn_installation_actors sn) \<and>
     list_all storable_root (sn_roots sn) \<and> list_all storable_bootstrap (sn_bootstraps sn) \<and>
     list_all storable_session (sn_sessions sn) \<and> list_all storable_recovery (sn_recoveries sn) \<and>
     list_all storable_step_up (sn_step_ups sn) \<and> list_all storable_provenance (sn_grants sn) \<and>
     list_all storable_composition (sn_compositions sn) \<and> list_all storable_ceremony (sn_ceremonies sn)"

definition sorted_snapshot :: "auth_snapshot \<Rightarrow> auth_snapshot" where
  "sorted_snapshot sn = \<lparr>sn_actors = sort_key ac_actor_id (sn_actors sn),
     sn_installation_actors = sort_key fst (sn_installation_actors sn),
     sn_roots = sort_key rr_handle (sn_roots sn), sn_bootstraps = sort_key bs_handle (sn_bootstraps sn),
     sn_sessions = sort_key ss_handle (sn_sessions sn), sn_recoveries = sort_key rv_handle (sn_recoveries sn),
     sn_step_ups = sort_key su_handle (sn_step_ups sn), sn_grants = sort_key gp_evidence (sn_grants sn),
     sn_compositions = sort_key co_installation_id (sn_compositions sn),
     sn_ceremonies = sort_key ce_handle (sn_ceremonies sn)\<rparr>"

lemma scalar_keys:
  "distinct_keys (encode_id u)" "distinct_keys (encode_digest d)" "distinct_keys (encode_time t)"
  "distinct_keys (encode_purpose p)" "distinct_keys (encode_root_purpose q)" "distinct_keys (encode_denial e)"
  "distinct_keys (encode_scopes ss)"
  by (simp_all add: encode_id_def encode_digest_def encode_time_def encode_purpose_def encode_root_purpose_def
      encode_denial_def encode_scopes_def tagged_def encode_enum_def list_all_iff)

lemma opt_keys: "(\<And>v. distinct_keys (f v)) \<Longrightarrow> distinct_keys (encode_opt f x)"
  by (cases x) (simp_all add: encode_opt_def)

lemma record_keys:
  "distinct_keys (encode_record name fs) \<longleftrightarrow> distinct (map fst fs) \<and> list_all (\<lambda>(_, v). distinct_keys v) fs"
  by (simp add: encode_record_def)

lemma grant_keys: "distinct_keys (encode_grant g)"
  by (simp add: encode_grant_def record_keys scalar_keys)

lemma encoded_keys:
  "distinct_keys (encode_actor a)" "distinct_keys (encode_bootstrap b)" "distinct_keys (encode_composition c)"
  "distinct_keys (encode_provenance p)" "distinct_keys (encode_recovery v)" "distinct_keys (encode_ceremony e)"
  "distinct_keys (encode_root r)" "distinct_keys (encode_session x)" "distinct_keys (encode_step_up u)"
  by (simp_all add: encode_actor_def encode_bootstrap_def encode_composition_def encode_provenance_def
      encode_recovery_def encode_ceremony_def encode_root_def encode_session_def encode_step_up_def
      record_keys scalar_keys opt_keys grant_keys)

lemma collection_keys: "(\<And>x. distinct_keys (f x)) \<Longrightarrow> distinct_keys (encode_collection key f xs)"
  by (simp add: encode_collection_def list_all_iff scalar_keys)

lemma snapshot_keys: "distinct_keys (snapshot_json sn)"
  by (simp add: snapshot_json_def collection_keys encoded_keys scalar_keys case_prod_unfold)

lemma restore_snapshot_json:
  assumes "iso_inverse F" and "storable sn" and "unique_keys sn" and "distinct (map gp_evidence (sn_grants sn))"
    and "auth_snapshot_ok (sorted_snapshot sn)"
  shows "restore_snapshot F (snapshot_json sn) = Some (sorted_snapshot sn)"
proof -
  obtain ms where ms: "snapshot_json sn = J_Obj ms" by (simp add: snapshot_json_def)
  note look = ms [unfolded snapshot_json_def json.inject, symmetric]
  note u = assms(3) [unfolded unique_keys_def]
  have "has_keys ms collection_names" by (simp add: look has_keys_def collection_names_def)
  moreover have "restore_collection F ms ''actors'' as_actor (\<lambda>k x. ac_actor_id x = k)
      = Some (map (\<lambda>x. (ac_actor_id x, x)) (sort_key ac_actor_id (sn_actors sn)))"
    using assms(1,2) u by (intro restore_encoded) (auto simp: look storable_def list_all_iff decode_actor as_actor_def storable_actor_def)
  moreover have "restore_collection F ms ''installation_actors'' as_id (\<lambda>_ _. True)
      = Some (map (\<lambda>x. (fst x, snd x)) (sort_key fst (sn_installation_actors sn)))"
    using assms(2) u by (intro restore_encoded) (auto simp: look storable_def list_all_iff decode_id as_id_def)
  moreover have "restore_collection F ms ''roots'' as_root (\<lambda>k x. rr_handle x = k)
      = Some (map (\<lambda>x. (rr_handle x, x)) (sort_key rr_handle (sn_roots sn)))"
    using assms(1,2) u by (intro restore_encoded) (auto simp: look storable_def list_all_iff decode_root as_root_def storable_root_def)
  moreover have "restore_collection F ms ''bootstraps'' as_bootstrap (\<lambda>k x. bs_handle x = k)
      = Some (map (\<lambda>x. (bs_handle x, x)) (sort_key bs_handle (sn_bootstraps sn)))"
    using assms(1,2) u by (intro restore_encoded) (auto simp: look storable_def list_all_iff decode_bootstrap as_bootstrap_def storable_bootstrap_def)
  moreover have "restore_collection F ms ''sessions'' as_session (\<lambda>k x. ss_handle x = k)
      = Some (map (\<lambda>x. (ss_handle x, x)) (sort_key ss_handle (sn_sessions sn)))"
    using assms(1,2) u by (intro restore_encoded) (auto simp: look storable_def list_all_iff decode_session as_session_def storable_session_def)
  moreover have "restore_collection F ms ''recoveries'' as_recovery (\<lambda>k x. rv_handle x = k)
      = Some (map (\<lambda>x. (rv_handle x, x)) (sort_key rv_handle (sn_recoveries sn)))"
    using assms(1,2) u by (intro restore_encoded) (auto simp: look storable_def list_all_iff decode_recovery as_recovery_def storable_recovery_def)
  moreover have "restore_collection F ms ''step_ups'' as_step_up (\<lambda>k x. su_handle x = k)
      = Some (map (\<lambda>x. (su_handle x, x)) (sort_key su_handle (sn_step_ups sn)))"
    using assms(1,2) u by (intro restore_encoded) (auto simp: look storable_def list_all_iff decode_step_up as_step_up_def storable_step_up_def)
  moreover have "restore_collection F ms ''grant_provenance'' as_provenance (\<lambda>k x. gp_evidence x = k)
      = Some (map (\<lambda>x. (gp_evidence x, x)) (sort_key gp_evidence (sn_grants sn)))"
    using assms(1,2,4) by (intro restore_encoded)
      (auto simp: look storable_def list_all_iff decode_provenance as_provenance_def storable_provenance_def storable_grant_def)
  moreover have "restore_collection F ms ''composition_bindings'' as_composition (\<lambda>k x. co_installation_id x = k)
      = Some (map (\<lambda>x. (co_installation_id x, x)) (sort_key co_installation_id (sn_compositions sn)))"
    using assms(1,2) u by (intro restore_encoded) (auto simp: look storable_def list_all_iff decode_composition as_composition_def storable_composition_def)
  moreover have "restore_collection F ms ''reprovision_ceremonies'' as_ceremony (\<lambda>k x. ce_handle x = k)
      = Some (map (\<lambda>x. (ce_handle x, x)) (sort_key ce_handle (sn_ceremonies sn)))"
    using assms(1,2) u by (intro restore_encoded) (auto simp: look storable_def list_all_iff decode_ceremony as_ceremony_def storable_ceremony_def)
  ultimately show ?thesis
    using assms(5) unfolding ms restore_snapshot_def
    by (simp add: comp_def checked_def sorted_snapshot_def)
qed



section \<open>Sorting keeps a snapshot consistent\<close>

lemma distinct_sorted: "distinct (map f (sort_key k xs)) = distinct (map f xs)"
  by (rule mset_eq_imp_distinct_iff) (simp add: mset_map)

lemma list_all_sorted: "list_all P (sort_key k xs) = list_all P xs"
  by (simp add: list_all_iff)

lemma find_by_sorted: "distinct (map f xs) \<Longrightarrow> find_by f (sort_key k xs) = find_by f xs"
  unfolding find_by_def by (intro map_of_inject_set [THEN iffD2]) (simp_all add: comp_def distinct_sorted)

lemma map_of_fst_sorted: "distinct (map fst xs) \<Longrightarrow> map_of (sort_key fst xs) = map_of xs"
  by (intro map_of_inject_set [THEN iffD2]) (simp_all add: distinct_sorted)

lemma handles_unique_set:
  "distinct cs \<Longrightarrow> handles_unique seen cs \<longleftrightarrow>
     (\<forall>c \<in> set cs. {co_operator_handle c, co_service_handle c} \<inter> seen = {} \<and>
        (\<forall>c' \<in> set cs. c \<noteq> c' \<longrightarrow>
           {co_operator_handle c, co_service_handle c} \<inter> {co_operator_handle c', co_service_handle c'} = {}))"
  by (induction cs arbitrary: seen) auto

lemma handles_unique_sorted: "distinct (map f cs) \<Longrightarrow> handles_unique seen (sort_key k cs) = handles_unique seen cs"
  using distinct_sorted [of "\<lambda>x. x" k cs] by (auto simp: handles_unique_set distinct_map)

lemma filter_distinct_sorted:
  "distinct (map f (filter P (sort_key k xs))) = distinct (map f (filter P xs))"
  by (rule mset_eq_imp_distinct_iff) (simp add: mset_map)

lemma sorted_fields:
  "sn_actors (sorted_snapshot sn) = sort_key ac_actor_id (sn_actors sn)"
  "sn_installation_actors (sorted_snapshot sn) = sort_key fst (sn_installation_actors sn)"
  "sn_roots (sorted_snapshot sn) = sort_key rr_handle (sn_roots sn)"
  "sn_bootstraps (sorted_snapshot sn) = sort_key bs_handle (sn_bootstraps sn)"
  "sn_sessions (sorted_snapshot sn) = sort_key ss_handle (sn_sessions sn)"
  "sn_recoveries (sorted_snapshot sn) = sort_key rv_handle (sn_recoveries sn)"
  "sn_step_ups (sorted_snapshot sn) = sort_key su_handle (sn_step_ups sn)"
  "sn_grants (sorted_snapshot sn) = sort_key gp_evidence (sn_grants sn)"
  "sn_compositions (sorted_snapshot sn) = sort_key co_installation_id (sn_compositions sn)"
  "sn_ceremonies (sorted_snapshot sn) = sort_key ce_handle (sn_ceremonies sn)"
  by (simp_all add: sorted_snapshot_def)

lemma sorted_snapshot_ok:
  assumes "auth_snapshot_ok sn"
  shows "auth_snapshot_ok (sorted_snapshot sn)"
proof -
  have u: "unique_keys sn" and g: "grants_bound sn" using assms by (simp_all add: auth_snapshot_ok_def)
  note d = u [unfolded unique_keys_def]
  have "distinct (map gp_evidence (sn_grants sn))" using g by (simp add: grants_bound_def)
  note find = find_by_sorted [where f = ac_actor_id] find_by_sorted [where f = rr_handle]
    find_by_sorted [where f = bs_handle] find_by_sorted [where f = ss_handle]
    find_by_sorted [where f = su_handle] find_by_sorted [where f = co_installation_id]
  note sorting = sorted_fields distinct_sorted list_all_sorted find map_of_fst_sorted
    handles_unique_sorted [where f = co_installation_id] filter_distinct_sorted
  have same: "actor_bound (sorted_snapshot sn) = actor_bound sn" "epoch_reached (sorted_snapshot sn) = epoch_reached sn"
    using d by (auto simp: fun_eq_iff actor_bound_def epoch_reached_def sorted_fields find)
  have "unique_keys (sorted_snapshot sn)" using u by (simp add: unique_keys_def sorting)
  moreover have "coverage_ok (sorted_snapshot sn) = coverage_ok sn"
    using d by (simp add: coverage_ok_def sorting)
  moreover have "roots_bound (sorted_snapshot sn) = roots_bound sn"
    using d by (simp add: roots_bound_def sorting same cong: option.case_cong)
  moreover have "records_bound (sorted_snapshot sn) = records_bound sn"
    using d by (simp add: records_bound_def sorting same)
  moreover have "bootstraps_bound (sorted_snapshot sn) = bootstraps_bound sn"
    using d by (simp add: bootstraps_bound_def sorting same cong: option.case_cong)
  moreover have "step_ups_bound (sorted_snapshot sn) = step_ups_bound sn"
    using d by (simp add: step_ups_bound_def sorting same cong: option.case_cong)
  moreover have "grants_bound (sorted_snapshot sn) = grants_bound sn"
    using d by (simp add: grants_bound_def sorting same cong: option.case_cong)
  moreover have "ceremonies_bound (sorted_snapshot sn) = ceremonies_bound sn"
    using d by (simp add: ceremonies_bound_def sorting same cong: option.case_cong)
  ultimately show ?thesis using assms d by (simp add: auth_snapshot_ok_def sorting)
qed


section \<open>The text of a store\<close>

text \<open>The store with every dictionary in the order of its keys, as it is rehydrated.\<close>

definition canonical :: "auth_state \<Rightarrow> auth_state" where
  "canonical s = \<lparr>a_actors = sort_key fst (a_actors s),
     a_installation_actors = sort_key fst (a_installation_actors s), a_roots = sort_key fst (a_roots s),
     a_bootstraps = sort_key fst (a_bootstraps s), a_sessions = sort_key fst (a_sessions s),
     a_recoveries = sort_key fst (a_recoveries s), a_step_ups = sort_key fst (a_step_ups s),
     a_grants = sort_key fst (a_grants s), a_compositions = sort_key fst (a_compositions s),
     a_ceremonies = sort_key fst (a_ceremonies s), a_crash_once = None\<rparr>"

lemma sort_key_cong_on: "(\<And>x. x \<in> set xs \<Longrightarrow> f x = g x) \<Longrightarrow> sort_key f xs = sort_key g xs"
proof (induction xs)
  case (Cons x xs)
  have "(\<And>y. y \<in> set (x # ys) \<Longrightarrow> f y = g y) \<Longrightarrow> insort_key f x ys = insort_key g x ys" for ys
    by (induction ys) auto
  from this [of "sort_key g xs"] show ?case using Cons by simp
qed simp

lemma indexed_sorted:
  assumes "indexed f d"
  shows "sort_key f (map snd d) = map snd (sort_key fst d)" and "indexed f (sort_key fst d)"
proof -
  have "sort_key (\<lambda>x. f (snd x)) d = sort_key fst d"
    using assms by (intro sort_key_cong_on) (auto simp: indexed_def list_all_iff)
  then show "sort_key f (map snd d) = map snd (sort_key fst d)" by (simp add: sort_key_map)
  show "indexed f (sort_key fst d)" using assms by (simp add: indexed_def wf_dict_def distinct_sorted list_all_iff)
qed

lemma canonical_values:
  "well_indexed s \<Longrightarrow> snapshot_values (canonical s) = sorted_snapshot (snapshot_values s)"
  by (simp add: well_indexed_def wf_store_def snapshot_values_def canonical_def sorted_snapshot_def indexed_sorted)

lemma canonical_forms:
  "wf_store s \<Longrightarrow> wf_store (canonical s)" "tidy s \<Longrightarrow> tidy (canonical s)"
  "well_indexed s \<Longrightarrow> well_indexed (canonical s)"
  by (auto simp: well_indexed_def wf_store_def tidy_def canonical_def indexed_sorted wf_dict_def
      distinct_sorted list_all_sorted)

lemma canonical_lookup:
  assumes "wf_store s"
  shows "map_of (a_actors (canonical s)) = map_of (a_actors s)"
    and "map_of (a_roots (canonical s)) = map_of (a_roots s)"
    and "map_of (a_bootstraps (canonical s)) = map_of (a_bootstraps s)"
    and "map_of (a_sessions (canonical s)) = map_of (a_sessions s)"
    and "map_of (a_recoveries (canonical s)) = map_of (a_recoveries s)"
    and "map_of (a_step_ups (canonical s)) = map_of (a_step_ups s)"
    and "map_of (a_grants (canonical s)) = map_of (a_grants s)"
  using assms by (simp_all add: canonical_def wf_store_def indexed_def wf_dict_def map_of_fst_sorted)

lemma rehydrate_sorted:
  assumes "well_indexed s"
  shows "from_durable_state (sorted_snapshot (snapshot_values s)) = canonical s"
  using rehydrate [OF canonical_forms(3) [OF assms]] canonical_values [OF assms] by (simp add: canonical_def)

lemma snapshot_text_Inr: "snapshot_text s = Inr t \<longleftrightarrow>
    export_durable_state s = Inr (snapshot_values s) \<and> v1_denials_only (snapshot_values s) \<and>
    t = dumps (snapshot_json (snapshot_values s)) \<and> \<not> secret_bearing t"
  by (auto simp: snapshot_text_def export_durable_state_def Let_def split: if_splits)

lemma restore_text:
  assumes "iso_inverse F" and "well_indexed s" and "storable (snapshot_values s)" and "snapshot_text s = Inr t"
  shows "restore F t = Inr (canonical s)"
proof -
  have ok: "auth_snapshot_ok (snapshot_values s)" and t: "t = dumps (snapshot_json (snapshot_values s))"
    using assms(4) by (auto simp: snapshot_text_Inr export_Inr)
  have "loads t = Some (sort_keys (snapshot_json (snapshot_values s)))"
    unfolding t by (rule scan_loads [OF snapshot_keys])
  moreover have "restore_snapshot F (sort_keys (snapshot_json (snapshot_values s)))
      = Some (sorted_snapshot (snapshot_values s))"
    using ok by (simp add: restore_snapshot_sorted snapshot_keys restore_snapshot_json assms(1,3)
        sorted_snapshot_ok auth_snapshot_ok_def [of "snapshot_values s"] grants_bound_def)
  ultimately show ?thesis by (simp add: restore_def rehydrate_sorted assms(2))
qed

end
