(* ===== verification/Auth_Text.thy ===== *)
theory Auth_Text
  imports Auth_Codec_Guarantees Sample_Ids
begin

text \<open>
  When \<^verbatim>\<open>_snapshot\<close> refuses to write: its test for secret-bearing text searches the whole document for
  three words, and only the base64 text of a digest can spell one of them.
\<close>


section \<open>Searching a printed document\<close>

definition secret_words :: "string list" where
  "secret_words = [''auth_secret'', ''OpaqueCredential'', ''Sensitive'']"

lemma secret_bearing_words: "secret_bearing t \<longleftrightarrow> (\<exists>w \<in> set secret_words. contains w t)"
  by (simp add: secret_bearing_def secret_words_def)

lemma contains_iff: "contains w t \<longleftrightarrow> (\<exists>a b. t = a @ w @ b)"
proof (induction t)
  case (Cons c t)
  have "take (length w) (c # t) = w \<longleftrightarrow> (\<exists>b. c # t = w @ b)"
    by (metis append_eq_conv_conj append_take_drop_id)
  moreover have "(\<exists>a b. c # t = a @ w @ b) \<longleftrightarrow> (\<exists>b. c # t = w @ b) \<or> (\<exists>a b. t = a @ w @ b)"
    by (metis append_Cons append_Nil list.exhaust list.inject)
  ultimately show ?case using Cons by (simp del: take_Cons)
qed auto

lemma contains_set: "contains w t \<Longrightarrow> set w \<subseteq> set t \<and> length w \<le> length t"
  by (auto simp: contains_iff)

lemma contains_between:
  assumes "w \<noteq> []" and "c \<notin> set w"
  shows "contains w (xs @ c # ys) \<longleftrightarrow> contains w xs \<or> contains w ys"
proof
  assume "contains w (xs @ c # ys)"
  then obtain a b where ab: "xs @ c # ys = a @ w @ b" by (auto simp: contains_iff)
  then show "contains w xs \<or> contains w ys"
  proof (cases "length a + length w \<le> length xs")
    case True
    then have "take (length xs) (xs @ c # ys) = a @ w @ take (length xs - length a - length w) b"
      using ab by simp
    then show ?thesis by (auto simp: contains_iff)
  next
    case False
    have "length xs < length a"
    proof (rule ccontr)
      assume "\<not> length xs < length a"
      then have lt: "length a \<le> length xs" "length xs - length a < length w" using False by linarith+
      then have "(a @ w @ b) ! length xs = w ! (length xs - length a)" by (simp add: nth_append)
      then have "c = w ! (length xs - length a)" by (simp add: ab [symmetric])
      then show False using assms(2) nth_mem [OF lt(2)] by simp
    qed
    then have "drop (Suc (length xs)) (xs @ c # ys) = drop (Suc (length xs)) a @ w @ b" using ab by simp
    then show ?thesis by (auto simp: contains_iff)
  qed
next
  assume "contains w xs \<or> contains w ys"
  then show "contains w (xs @ c # ys)"
    unfolding contains_iff by (metis append_Cons append_assoc)
qed

lemma contains_around:
  assumes "w \<noteq> []" and "c \<notin> set w"
  shows "contains w (c # ys) \<longleftrightarrow> contains w ys" and "contains w (xs @ [c]) \<longleftrightarrow> contains w xs"
  using contains_between [OF assms, of "[]" ys] contains_between [OF assms, of xs "[]"] assms(1) by simp_all

lemma contains_join:
  assumes "w \<noteq> []" and "c \<notin> set w"
  shows "contains w (join [c] xs) \<longleftrightarrow> (\<exists>x \<in> set xs. contains w x)"
  using assms(1) by (induction "[c]" xs rule: join.induct) (simp_all add: contains_between [OF assms])

declare contains.simps [simp del]

definition plain :: "char \<Rightarrow> bool" where
  "plain c \<longleftrightarrow> 32 \<le> (of_char c :: nat) \<and> (of_char c :: nat) \<le> 126 \<and> c \<noteq> quote \<and> c \<noteq> backslash"

lemma escape_plain: "list_all plain s \<Longrightarrow> concat (map escape s) = s"
proof (induction s)
  case (Cons c s)
  have "(of_char (CHR 0x0A) :: nat) = 10" "(of_char (CHR 0x0D) :: nat) = 13" "(of_char (CHR 0x09) :: nat) = 9"
    "(of_char (CHR 0x0C) :: nat) = 12" "(of_char (CHR 0x08) :: nat) = 8" by simp_all
  then have "escape c = [c]" using Cons.prems by (auto simp: escape_def plain_def)
  then show ?case using Cons by simp
qed simp

text \<open>Every string of the document is plain and spells none of the words.\<close>

definition clean_string :: "string \<Rightarrow> bool" where
  "clean_string s \<longleftrightarrow> list_all plain s \<and> \<not> secret_bearing s"

fun clean :: "json \<Rightarrow> bool" where
  "clean (J_Str s) \<longleftrightarrow> clean_string s"
| "clean (J_Arr vs) \<longleftrightarrow> list_all clean vs"
| "clean (J_Obj ms) \<longleftrightarrow> list_all (\<lambda>(k, v). clean_string k \<and> clean v) ms"
| "clean (J_Float t) \<longleftrightarrow> False"
| "clean v \<longleftrightarrow> True"

lemma word_facts:
  assumes "w \<in> set secret_words"
  shows "w \<noteq> []" "5 < length w" "\<not> is_digit (hd w)" "hd w \<noteq> CHR ''-''"
    "set w \<inter> {quote, CHR '','', CHR '':'', CHR ''['', CHR '']'', CHR ''{'', CHR ''}''} = {}"
  using assms by (auto simp: secret_words_def is_digit_def)

lemma contains_bracket:
  assumes "w \<in> set secret_words" and "c \<in> {quote, CHR ''['', CHR ''{''}" and "d \<in> {quote, CHR '']'', CHR ''}''}"
  shows "contains w (c # xs @ [d]) \<longleftrightarrow> contains w xs"
proof -
  have "c \<notin> set w" "d \<notin> set w" using word_facts(5) [OF assms(1)] assms(2,3) by auto
  note out = contains_around [OF word_facts(1) [OF assms(1)]]
  show ?thesis using out(1) [OF \<open>c \<notin> set w\<close>, of "xs @ [d]"] out(2) [OF \<open>d \<notin> set w\<close>, of xs] by blast
qed

lemma contains_quoted: "w \<in> set secret_words \<Longrightarrow> clean_string s \<Longrightarrow> \<not> contains w (quoted s)"
  unfolding quoted_def
  by (subst contains_bracket) (auto simp: escape_plain clean_string_def secret_bearing_words)

lemma contains_commas:
  "w \<in> set secret_words \<Longrightarrow> contains w (join '','' xs) \<longleftrightarrow> (\<exists>x \<in> set xs. contains w x)"
  by (rule contains_join) (use word_facts(1,5) [of w] in auto)

lemma contains_dumps: "w \<in> set secret_words \<Longrightarrow> clean j \<Longrightarrow> \<not> contains w (dumps j)"
proof (induction j)
  case J_Null
  then show ?case using word_facts(2) [of w] contains_set [of w "dumps J_Null"] by auto
next
  case (J_Bool b)
  then show ?case using word_facts(2) [of w] contains_set [of w "dumps (J_Bool b)"] by (auto split: if_splits)
next
  case (J_Int i)
  note w = word_facts [OF this(1)]
  have "hd w \<notin> set (show_int i)" using w(3,4) show_nat_is_digit by (auto simp: show_int_def)
  then show ?case using contains_set [of w "show_int i"] hd_in_set [OF w(1)] by auto
next
  case (J_Str s)
  then show ?case by (simp add: contains_quoted)
next
  case (J_Arr vs)
  have "\<not> contains w (dumps v)" if "v \<in> set vs" for v using J_Arr that by (auto simp: list_all_iff)
  then show ?case using J_Arr(2) by (simp add: contains_bracket contains_commas)
next
  case (J_Obj ms)
  have "\<not> contains w (quoted k @ CHR '':'' # dumps v)" if "(k, v) \<in> set ms" for k v
  proof -
    have "clean_string k" "\<not> contains w (dumps v)" using J_Obj that by (auto simp: list_all_iff)
    then show ?thesis
      using word_facts(1,5) [OF J_Obj(2)] contains_quoted [OF J_Obj(2)] by (subst contains_between) auto
  qed
  then show ?case using J_Obj(2) by (auto simp: contains_bracket contains_commas)
qed simp

lemma clean_text: "clean j \<Longrightarrow> \<not> secret_bearing (dumps j)"
  by (auto simp: secret_bearing_words contains_dumps)


section \<open>The words of a snapshot\<close>

definition vocabulary :: "string list" where
  "vocabulary = [
    ''type'', ''value'', ''opaque_id'', ''secret_digest'', ''utc_datetime'', ''enum'', ''name'',
    ''AuthDenial'', ''AuthPurpose'', ''RootPurpose'', ''frozenset'', ''items'', ''AuthScope'',
    ''record'', ''fields'', ''ActorRecord'', ''actor_id'', ''represented_profile_id'', ''epoch'',
    ''last_observed_utc'', ''initialized'', ''AuthorityGrant'', ''session_id'',
    ''authority_evidence_id'', ''purpose'', ''scopes'', ''not_before_utc'', ''expires_at_utc'',
    ''BootstrapRecord'', ''handle'', ''digest'', ''attempts_remaining'', ''root_capability_id'',
    ''root_purpose'', ''consumed'', ''retired_at_utc'', ''CompositionBindingRecord'',
    ''installation_id'', ''operator_handle'', ''operator_digest'', ''service_handle'',
    ''service_digest'', ''GrantProvenanceRecord'', ''grant'', ''used_at_utc'', ''RecoveryRecord'',
    ''ReprovisionCeremonyRecord'', ''bootstrap_handle'', ''replay_seconds'', ''terminal_at_utc'',
    ''terminal_denial'', ''RootCapabilityRecord'', ''SessionRecord'', ''revoked'', ''StepUpRecord'',
    ''actors'', ''installation_actors'', ''roots'', ''bootstraps'', ''sessions'', ''recoveries'',
    ''step_ups'', ''grant_provenance'', ''composition_bindings'', ''reprovision_ceremonies'']"

lemma clean_vocabulary: "list_all clean_string vocabulary"
  by code_simp

lemma clean_names: "s \<in> set vocabulary \<Longrightarrow> clean_string s"
  using clean_vocabulary by (simp add: list_all_iff)

lemma clean_value_lists:
  "list_all (clean_string \<circ> purpose_value) all_purposes"
  "list_all (clean_string \<circ> root_purpose_value) all_root_purposes"
  "list_all (clean_string \<circ> scope_value) all_scopes"
  "list_all (clean_string \<circ> snd) v1_denials"
  by code_simp+

lemma clean_values:
  "clean_string (purpose_value p)" "clean_string (root_purpose_value q)" "clean_string (scope_value sc)"
  "map_of v1_denials d \<noteq> None \<Longrightarrow> clean_string (the (map_of v1_denials d))"
proof -
  have "p \<in> set all_purposes" by (cases p) (simp_all add: all_purposes_def)
  moreover have "q \<in> set all_root_purposes" by (cases q) (simp_all add: all_root_purposes_def)
  moreover have "sc \<in> set all_scopes" by (cases sc) (simp_all add: all_scopes_def)
  ultimately show "clean_string (purpose_value p)" "clean_string (root_purpose_value q)" "clean_string (scope_value sc)"
    using clean_value_lists by (simp_all add: list_all_iff)
  show "map_of v1_denials d \<noteq> None \<Longrightarrow> clean_string (the (map_of v1_denials d))"
    using clean_value_lists(4) map_of_SomeD [of v1_denials d] by (fastforce simp: list_all_iff)
qed

lemma clean_marked:
  assumes "list_all plain s" and "set s \<inter> {CHR ''_'', CHR ''O'', CHR ''S''} = {}"
  shows "clean_string s"
proof -
  have "set w \<inter> {CHR ''_'', CHR ''O'', CHR ''S''} \<noteq> {}" if "w \<in> set secret_words" for w
    using that by (auto simp: secret_words_def)
  then show ?thesis using assms contains_set by (fastforce simp: clean_string_def secret_bearing_words)
qed

lemma plain_digits: "is_digit c \<Longrightarrow> plain c \<and> c \<notin> {CHR ''_'', CHR ''O'', CHR ''S''}"
  by (auto simp: is_digit_def plain_def)

lemma clean_uuid: "clean_string (uuid_text u)"
proof -
  have "list_all (\<lambda>c. plain c \<and> c \<notin> {CHR ''_'', CHR ''O'', CHR ''S''}) (uuid_text u)"
    by (rule uuid_text_all; code_simp)
  then show ?thesis by (intro clean_marked) (auto simp: list_all_iff)
qed

lemma clean_iso: "clean_string (isoformat t)"
proof -
  have "plain c \<and> c \<notin> {CHR ''_'', CHR ''O'', CHR ''S''}" if "c \<in> set (isoformat t)" for c
  proof -
    have "is_digit c \<or> c \<in> set ''-T:.+''"
      using that zero_pad_digits separators(6)
      by (auto simp: isoformat_def list_all_iff Let_def split: prod.splits if_splits)
    moreover have "list_all (\<lambda>c. plain c \<and> c \<notin> {CHR ''_'', CHR ''O'', CHR ''S''}) ''-T:.+''" by code_simp
    ultimately show ?thesis using plain_digits unfolding list_all_iff by blast
  qed
  then show ?thesis by (intro clean_marked) (auto simp: list_all_iff)
qed

text \<open>The base64 alphabet has no underscore, so a digest can spell only the other two words.\<close>

lemma plain_b64: "c \<in> set (b64encode bs) \<Longrightarrow> plain c \<and> c \<noteq> CHR ''_''"
proof -
  have one: "plain (b64_char n) \<and> b64_char n \<noteq> CHR ''_''" if "n < 64" for n
  proof -
    have "n < 26 \<or> 26 \<le> n \<and> n < 52 \<or> 52 \<le> n \<and> n < 62 \<or> n = 62 \<or> n = 63" using that by linarith
    moreover have "b64_value (CHR ''_'') = None" "b64_value quote = None" "b64_value backslash = None" by code_simp+
    then have "b64_char n \<notin> {CHR ''_'', quote, backslash}" using b64_char_value [OF that] by auto
    ultimately show ?thesis by (auto simp: b64_char_def plain_def of_char_of)
  qed
  have pad: "plain (CHR ''='') \<and> CHR ''='' \<noteq> CHR ''_''" by code_simp
  show "c \<in> set (b64encode bs) \<Longrightarrow> plain c \<and> c \<noteq> CHR ''_''"
    by (induction bs rule: b64encode.induct) (use one byte_bounds pad in \<open>force simp: \<close>)+
qed

lemma clean_digest: "\<not> secret_bearing (b64encode d) \<Longrightarrow> clean (encode_digest d)"
  using plain_b64 clean_names [of "''secret_digest''"] clean_names [of "''type''"] clean_names [of "''value''"]
  by (auto simp: encode_digest_def tagged_def clean_string_def list_all_iff vocabulary_def)

lemma clean_scalars:
  "clean (encode_id u)" "clean (encode_time t)" "clean (encode_purpose p)" "clean (encode_root_purpose q)"
  "map_of v1_denials e \<noteq> None \<Longrightarrow> clean (encode_denial e)" "clean (encode_scopes ss)"
  by (simp_all add: encode_id_def encode_time_def tagged_def encode_enum_def encode_purpose_def encode_root_purpose_def
      encode_denial_def encode_scopes_def clean_names vocabulary_def clean_uuid clean_iso clean_values list_all_iff)

lemma clean_opt: "pred_option (\<lambda>v. clean (f v)) x \<Longrightarrow> clean (encode_opt f x)"
  by (cases x) (simp_all add: encode_opt_def)

lemma clean_opts: "clean (encode_opt encode_id ou)" "clean (encode_opt encode_time ot)"
    "clean (encode_opt encode_root_purpose oq)"
  by (simp_all add: clean_opt pred_option_def clean_scalars)

lemma clean_record:
  "clean_string name \<Longrightarrow> clean (encode_record name fs) \<longleftrightarrow> list_all (\<lambda>(k, v). clean_string k \<and> clean v) fs"
  by (simp add: encode_record_def clean_names vocabulary_def)

lemma clean_grant: "clean (encode_grant g)"
  by (simp add: encode_grant_def clean_record clean_names vocabulary_def clean_scalars)

lemma clean_records:
  "clean (encode_actor a)" "clean (encode_provenance p)"
  "\<not> secret_bearing (b64encode (bs_digest b)) \<Longrightarrow> clean (encode_bootstrap b)"
  "\<not> secret_bearing (b64encode (co_operator_digest c)) \<Longrightarrow>
   \<not> secret_bearing (b64encode (co_service_digest c)) \<Longrightarrow> clean (encode_composition c)"
  "\<not> secret_bearing (b64encode (rv_digest v)) \<Longrightarrow> clean (encode_recovery v)"
  "\<not> secret_bearing (b64encode (ce_digest e)) \<Longrightarrow>
   pred_option (\<lambda>d. map_of v1_denials d \<noteq> None) (ce_terminal_denial e) \<Longrightarrow> clean (encode_ceremony e)"
  "\<not> secret_bearing (b64encode (rr_digest r)) \<Longrightarrow> clean (encode_root r)"
  "\<not> secret_bearing (b64encode (ss_digest x)) \<Longrightarrow> clean (encode_session x)"
  "\<not> secret_bearing (b64encode (su_digest u)) \<Longrightarrow> clean (encode_step_up u)"
  by (simp_all add: encode_actor_def encode_provenance_def encode_bootstrap_def encode_composition_def
      encode_recovery_def encode_ceremony_def encode_root_def encode_session_def encode_step_up_def
      clean_record clean_names vocabulary_def clean_scalars clean_opts clean_grant clean_digest)
    (cases "ce_terminal_denial e"; simp add: encode_opt_def clean_scalars)

text \<open>The digests a snapshot carries.\<close>

definition digests :: "auth_snapshot \<Rightarrow> bytes set" where
  "digests sn = rr_digest ` set (sn_roots sn) \<union> bs_digest ` set (sn_bootstraps sn) \<union>
     ss_digest ` set (sn_sessions sn) \<union> rv_digest ` set (sn_recoveries sn) \<union> su_digest ` set (sn_step_ups sn) \<union>
     co_operator_digest ` set (sn_compositions sn) \<union> co_service_digest ` set (sn_compositions sn) \<union>
     ce_digest ` set (sn_ceremonies sn)"

lemma clean_collection:
  "(\<And>x. x \<in> set xs \<Longrightarrow> clean (f x)) \<Longrightarrow> clean (encode_collection key f xs)"
  by (simp add: encode_collection_def list_all_iff clean_scalars)

lemma clean_snapshot:
  assumes "v1_denials_only sn" and "\<forall>d \<in> digests sn. \<not> secret_bearing (b64encode d)"
  shows "clean (snapshot_json sn)"
proof -
  have d: "\<And>r. r \<in> set (sn_roots sn) \<Longrightarrow> \<not> secret_bearing (b64encode (rr_digest r))"
    "\<And>r. r \<in> set (sn_bootstraps sn) \<Longrightarrow> \<not> secret_bearing (b64encode (bs_digest r))"
    "\<And>r. r \<in> set (sn_sessions sn) \<Longrightarrow> \<not> secret_bearing (b64encode (ss_digest r))"
    "\<And>r. r \<in> set (sn_recoveries sn) \<Longrightarrow> \<not> secret_bearing (b64encode (rv_digest r))"
    "\<And>r. r \<in> set (sn_step_ups sn) \<Longrightarrow> \<not> secret_bearing (b64encode (su_digest r))"
    "\<And>r. r \<in> set (sn_compositions sn) \<Longrightarrow> \<not> secret_bearing (b64encode (co_operator_digest r))"
    "\<And>r. r \<in> set (sn_compositions sn) \<Longrightarrow> \<not> secret_bearing (b64encode (co_service_digest r))"
    "\<And>r. r \<in> set (sn_ceremonies sn) \<Longrightarrow> \<not> secret_bearing (b64encode (ce_digest r))"
    using assms(2) by (auto simp: digests_def)
  have v: "pred_option (\<lambda>d. map_of v1_denials d \<noteq> None) (ce_terminal_denial c)" if "c \<in> set (sn_ceremonies sn)" for c
    using assms(1) that by (auto simp: v1_denials_only_def list_all_iff pred_option_def split: option.splits)
  have "clean (encode_collection ce_handle encode_ceremony (sn_ceremonies sn))"
    by (rule clean_collection) (use d v in \<open>simp add: clean_records\<close>)
  then show ?thesis
    by (simp add: snapshot_json_def clean_names vocabulary_def clean_collection clean_records clean_scalars d
        case_prod_unfold)
qed

lemma unspelt_text:
  assumes "v1_denials_only sn"
    and "\<forall>d \<in> digests sn. \<not> contains ''OpaqueCredential'' (b64encode d) \<and> \<not> contains ''Sensitive'' (b64encode d)"
  shows "\<not> secret_bearing (dumps (snapshot_json sn))"
proof -
  have "\<not> contains ''auth_secret'' (b64encode d)" for d
    using contains_set [of "''auth_secret''" "b64encode d"] plain_b64 [of "CHR ''_''" d] by auto
  then show ?thesis using assms by (intro clean_text clean_snapshot) (auto simp: secret_bearing_def)
qed

text \<open>A state that exports and keeps to the V1 denials is written, unless the base64 text of one of its
  digests happens to contain \<^verbatim>\<open>OpaqueCredential\<close> or \<^verbatim>\<open>Sensitive\<close>: nothing else in the document can
  match the search for secret-bearing text.\<close>

theorem snapshot_written:
  assumes "export_durable_state s = Inr sn" and "v1_denials_only sn"
    and "\<forall>d \<in> digests sn. \<not> contains ''OpaqueCredential'' (b64encode d) \<and> \<not> contains ''Sensitive'' (b64encode d)"
  shows "snapshot_text s = Inr (dumps (snapshot_json sn))"
  using assms(1,2) unspelt_text [OF assms(2,3)] by (simp add: snapshot_text_def)

section \<open>A concrete store\<close>

text \<open>An installation with full digests and at most one bootstrap, which has one attempt left.\<close>

definition digest32 :: bytes where
  "digest32 = replicate 32 1"

definition vroot :: "nat \<Rightarrow> root_purpose \<Rightarrow> root_record" where
  "vroot n p = \<lparr>rr_handle = sid n, rr_installation_id = sid 1, rr_actor_id = sid 2, rr_profile_id = sid 3,
     rr_purpose = p, rr_digest = digest32, rr_consumed = False, rr_retired_at = None\<rparr>"

definition vroots :: "root_record list" where
  "vroots = [vroot 11 INITIAL_BOOTSTRAP, vroot 12 EMERGENCY_REVOKE, vroot 13 REPROVISION]"

definition vbootstrap :: bootstrap_record where
  "vbootstrap = \<lparr>bs_handle = sid 21, bs_actor_id = sid 2, bs_profile_id = sid 3, bs_digest = digest32,
     bs_not_before = 0, bs_expires_at = 100, bs_attempts = 1, bs_root_id = Some (sid 11),
     bs_root_purpose = Some INITIAL_BOOTSTRAP, bs_consumed = False, bs_retired_at = None\<rparr>"

definition vactor :: actor_record where
  "vactor = \<lparr>ac_actor_id = sid 2, ac_profile_id = sid 3, ac_epoch = 1, ac_last_observed = 0, ac_initialized = False\<rparr>"

definition vcomposition :: composition_record where
  "vcomposition = \<lparr>co_installation_id = sid 1, co_operator_handle = sid 14, co_operator_digest = digest32,
     co_service_handle = sid 15, co_service_digest = digest32\<rparr>"

definition vinstalled :: "(uuid \<times> bootstrap_record) list \<Rightarrow> auth_state" where
  "vinstalled bs = \<lparr>a_actors = [(sid 2, vactor)], a_installation_actors = [(sid 1, sid 2)],
     a_roots = map (\<lambda>r. (rr_handle r, r)) vroots, a_bootstraps = bs, a_sessions = [], a_recoveries = [],
     a_step_ups = [], a_grants = [], a_compositions = [(sid 1, vcomposition)], a_ceremonies = [],
     a_crash_once = None\<rparr>"

abbreviation vnarrow :: auth_state where "vnarrow \<equiv> vinstalled [(sid 21, vbootstrap)]"

lemmas vstore_defs = vinstalled_def vactor_def vcomposition_def vroots_def vroot_def vbootstrap_def

lemma vstore_exports:
  assumes "bs \<in> {[], [(sid 21, vbootstrap)]}"
  shows "export_durable_state (vinstalled bs) = Inr (snapshot_values (vinstalled bs))"
  using assms
  by (auto simp: export_Inr snapshot_defs copies_ok_def vstore_defs sid_inject actor_record_ok_def
      bootstrap_record_ok_def)

lemma vstore_storable:
  assumes "bs \<in> {[], [(sid 21, vbootstrap)]}"
  shows "storable (snapshot_values (vinstalled bs))"
proof -
  have "digest_ok digest32" by (simp add: digest_ok_def digest32_def SHA256_BYTES_def)
  moreover have "time_ok 0" "time_ok 100" by (simp_all add: time_ok_def min_instant_def max_instant_def)
  ultimately show ?thesis
    using assms
    by (auto simp: storable_def snapshot_values_def vstore_defs storable_defs uuid4_sid sid_inject actor_record_ok_def
        bootstrap_record_ok_def composition_record_ok_def)
qed

lemma vstore_forms:
  assumes "bs \<in> {[], [(sid 21, vbootstrap)]}"
  shows "well_indexed (vinstalled bs)" "tidy (vinstalled bs)" "canonical (vinstalled bs) = vinstalled bs"
  using assms
  by (auto simp: well_indexed_def wf_store_def tidy_def indexed_def vstore_defs composition_record_ok_def sid_inject
      canonical_def sid_order)

lemma vstore_written:
  assumes "bs \<in> {[], [(sid 21, vbootstrap)]}"
  shows "snapshot_text (vinstalled bs) = Inr (dumps (snapshot_json (snapshot_values (vinstalled bs))))"
proof -
  have "\<not> contains ''OpaqueCredential'' (b64encode digest32) \<and> \<not> contains ''Sensitive'' (b64encode digest32)"
    by code_simp
  moreover have "digests (snapshot_values (vinstalled bs)) = {digest32}"
    using assms by (auto simp: digests_def snapshot_values_def vstore_defs)
  ultimately have "\<not> secret_bearing (dumps (snapshot_json (snapshot_values (vinstalled bs))))"
    by (intro unspelt_text) (simp_all add: v1_denials_only_def snapshot_values_def vinstalled_def)
  then show ?thesis
    using vstore_exports [OF assms] by (simp add: snapshot_text_def v1_denials_only_def snapshot_values_def vinstalled_def)
qed

text \<open>C28. The durable text determines the store: if writing a store succeeds, reading the text back gives
  the same store, with every dictionary in the order of its handles and no injected failure armed.\<close>

theorem state_text_roundtrip:
  assumes "iso_inverse F" and "well_indexed s" and "storable (snapshot_values s)" and "snapshot_text s = Inr t"
  shows "restore F t = Inr (canonical s)"
  using assms by (rule restore_text)

theorem state_text_roundtrip_witness:
  "\<exists>t. snapshot_text vnarrow = Inr t \<and> restore (\<lambda>s. map_option utc (parse_iso s)) t = Inr vnarrow"
  using state_text_roundtrip [OF canonical_iso_inverse vstore_forms(1) vstore_storable vstore_written, of "[(sid 21, vbootstrap)]"]
  by (simp add: vstore_forms(3) vstore_written)

theorem snapshot_written_witness:
  "snapshot_text vnarrow = Inr (dumps (snapshot_json (snapshot_values vnarrow)))"
proof (rule snapshot_written)
  show "export_durable_state vnarrow = Inr (snapshot_values vnarrow)" by (simp add: vstore_exports)
  show "v1_denials_only (snapshot_values vnarrow)" by (simp add: v1_denials_only_def snapshot_values_def vinstalled_def)
  have "\<not> contains ''OpaqueCredential'' (b64encode digest32) \<and> \<not> contains ''Sensitive'' (b64encode digest32)"
    by code_simp
  then show "\<forall>d \<in> digests (snapshot_values vnarrow).
      \<not> contains ''OpaqueCredential'' (b64encode d) \<and> \<not> contains ''Sensitive'' (b64encode d)"
    by (auto simp: digests_def snapshot_values_def vstore_defs)
qed

end
