(* ===== verification/Auth_Durable.thy ===== *)
theory Auth_Durable
  imports Auth_Text
begin

text \<open>
  The SQLite decision store of \<^verbatim>\<open>adapters/auth/sqlite.py\<close>: every decision is one transaction that
  loads the row, runs the volatile store on it, writes the canonical text and the authority registry
  back and commits.  The database is its two tables; a commit that raises may or may not have
  become durable.
\<close>


section \<open>The transaction of the SQLite store\<close>

datatype authority_kind = Root_Kind | Operator_Kind | Service_Kind

definition STATE_SCHEMA_VERSION :: int where "STATE_SCHEMA_VERSION = 1"

record durable_row =
  rw_schema_version :: int
  rw_revision :: int
  rw_state :: string

text \<open>
  The two tables and the runtime's readiness: an abandoned runtime admits no further work until
  an operator reconciles it.
\<close>

record durable_store =
  du_row :: "durable_row option"
  du_authorities :: "(uuid \<times> authority_kind \<times> uuid) set"
  du_abandoned :: bool

text \<open>Where a transaction may fail: the armed crash points, and a commit that raised, after which
  the transaction may or may not have become durable.\<close>

datatype transaction_fault = No_Fault | Fail_Before_Commit | Fail_Commit bool | Fail_After_Commit

definition registry_entries :: "auth_snapshot \<Rightarrow> (uuid \<times> authority_kind \<times> uuid) list" where
  "registry_entries sn =
     map (\<lambda>r. (rr_handle r, Root_Kind, rr_installation_id r)) (sn_roots sn) @
     concat (map (\<lambda>c. [(co_operator_handle c, Operator_Kind, co_installation_id c),
                       (co_service_handle c, Service_Kind, co_installation_id c)]) (sn_compositions sn))"

definition authority_registry :: "auth_state \<Rightarrow> durable_error + (uuid \<times> authority_kind \<times> uuid) set" where
  "authority_registry s =
     (case export_durable_state s of
        Inl e \<Rightarrow> Inl (Raised e)
      | Inr sn \<Rightarrow> if distinct (map fst (registry_entries sn)) then Inr (set (registry_entries sn))
                  else Inl Authority_Not_Unique)"

definition load_state ::
    "(string \<Rightarrow> datetime option) \<Rightarrow> durable_store \<Rightarrow> durable_error + auth_state \<times> int \<times> bool" where
  "load_state F du =
     (case du_row du of
        None \<Rightarrow> Inr (empty_store, 0, False)
      | Some row \<Rightarrow>
          if rw_schema_version row \<noteq> STATE_SCHEMA_VERSION \<or> rw_revision row < 1 then Inl State_Corrupt
          else case restore F (rw_state row) of
                 Inl e \<Rightarrow> Inl e
               | Inr store \<Rightarrow>
                   (case authority_registry store of
                      Inl e \<Rightarrow> Inl e
                    | Inr expected \<Rightarrow>
                        if du_authorities du \<noteq> expected then Inl State_Corrupt
                        else Inr (store, rw_revision row, True)))"

text \<open>A denial is a returned value and is persisted; an exception leaves the block and rolls back.\<close>

fun raised :: "auth_error + 'a \<Rightarrow> auth_error option" where
  "raised (Inl (Refused d)) = None"
| "raised (Inl e) = Some e"
| "raised (Inr v) = None"

definition decision_locked ::
    "(string \<Rightarrow> datetime option) \<Rightarrow> transaction_fault \<Rightarrow> (auth_state \<Rightarrow> 'a decision) \<Rightarrow> durable_store
     \<Rightarrow> (durable_error + (auth_error + 'a)) \<times> durable_store" where
  "decision_locked F fault operation du =
     (case load_state F du of
        Inl e \<Rightarrow> (Inl e, du)
      | Inr (store, revision, exists) \<Rightarrow>
          let (result, store') = operation store
          in case raised result of
               Some e \<Rightarrow> (Inl (Raised e), du)
             | None \<Rightarrow>
                 (case snapshot_text store' of
                    Inl e \<Rightarrow> (Inl e, du)
                  | Inr payload \<Rightarrow>
                      (case authority_registry store' of
                         Inl e \<Rightarrow> (Inl e, du)
                       | Inr authorities \<Rightarrow>
                           let du' = du\<lparr>du_row := Some \<lparr>rw_schema_version = STATE_SCHEMA_VERSION,
                                          rw_revision = (if exists then revision + 1 else 1),
                                          rw_state = payload\<rparr>,
                                        du_authorities := authorities\<rparr>
                           in case fault of
                                No_Fault \<Rightarrow> (Inr result, du')
                              | Fail_Before_Commit \<Rightarrow> (Inl Failed_Before_Commit, du)
                              | Fail_Commit done_ \<Rightarrow> (Inl Outcome_Unknown, if done_ then du' else du)
                              | Fail_After_Commit \<Rightarrow> (Inl Outcome_Unknown, du'))))"

definition durable_decision ::
    "(string \<Rightarrow> datetime option) \<Rightarrow> transaction_fault \<Rightarrow> (auth_state \<Rightarrow> 'a decision) \<Rightarrow> durable_store
     \<Rightarrow> (durable_error + (auth_error + 'a)) \<times> durable_store" where
  "durable_decision F fault operation du =
     (if du_abandoned du then (Inl Runtime_Unavailable, du)
      else let (r, du') = decision_locked F fault operation du
           in case r of
                Inl State_Corrupt \<Rightarrow> (r, du'\<lparr>du_abandoned := True\<rparr>)
              | Inl Outcome_Unknown \<Rightarrow> (r, du'\<lparr>du_abandoned := True\<rparr>)
              | _ \<Rightarrow> (r, du'))"

definition durable_read ::
    "(string \<Rightarrow> datetime option) \<Rightarrow> (auth_state \<Rightarrow> 'a) \<Rightarrow> durable_store
     \<Rightarrow> (durable_error + 'a) \<times> durable_store" where
  "durable_read F operation du =
     (if du_abandoned du then (Inl Runtime_Unavailable, du)
      else case load_state F du of
             Inl e \<Rightarrow> (Inl e, if e = State_Corrupt then du\<lparr>du_abandoned := True\<rparr> else du)
           | Inr (store, _) \<Rightarrow> (Inr (operation store), du))"

definition new_durable :: durable_store where
  "new_durable = \<lparr>du_row = None, du_authorities = {}, du_abandoned = False\<rparr>"

text \<open>The methods of the store forward one decision of the volatile store to the transaction.\<close>

definition durable_decide ::
    "(string \<Rightarrow> datetime option) \<Rightarrow> transaction_fault \<Rightarrow> (bytes \<Rightarrow> bytes) \<Rightarrow> int \<Rightarrow> auth_request
     \<Rightarrow> durable_store \<Rightarrow> (durable_error + (auth_error + auth_reply)) \<times> durable_store" where
  "durable_decide F fault H now q du = durable_decision F fault (decide H now q) du"

definition durable_state_exists ::
    "(string \<Rightarrow> datetime option) \<Rightarrow> durable_store \<Rightarrow> (durable_error + bool) \<times> durable_store" where
  "durable_state_exists F du = durable_read F auth_state_exists du"

definition durable_verify_composition ::
    "(string \<Rightarrow> datetime option) \<Rightarrow> (bytes \<Rightarrow> bytes) \<Rightarrow> custody_bundle \<Rightarrow> durable_store
     \<Rightarrow> (durable_error + bool) \<times> durable_store" where
  "durable_verify_composition F H bundle du = durable_read F (verify_loaded_composition H bundle) du"


section \<open>Guarantees of the durable store\<close>

text \<open>The transaction after a load and a decision that did not raise.\<close>

lemma decision_locked_cases:
  assumes "load_state F du = Inr (s, revision, exists)"
  shows "decision_locked F fault operation du =
    (case raised (fst (operation s)) of
       Some e \<Rightarrow> (Inl (Raised e), du)
     | None \<Rightarrow>
         (case snapshot_text (snd (operation s)) of
            Inl e \<Rightarrow> (Inl e, du)
          | Inr payload \<Rightarrow>
              (case authority_registry (snd (operation s)) of
                 Inl e \<Rightarrow> (Inl e, du)
               | Inr authorities \<Rightarrow>
                   let du' = du\<lparr>du_row := Some \<lparr>rw_schema_version = STATE_SCHEMA_VERSION,
                                  rw_revision = (if exists then revision + 1 else 1), rw_state = payload\<rparr>,
                                du_authorities := authorities\<rparr>
                   in case fault of
                        No_Fault \<Rightarrow> (Inr (fst (operation s)), du')
                      | Fail_Before_Commit \<Rightarrow> (Inl Failed_Before_Commit, du)
                      | Fail_Commit done_ \<Rightarrow> (Inl Outcome_Unknown, if done_ then du' else du)
                      | Fail_After_Commit \<Rightarrow> (Inl Outcome_Unknown, du'))))"
  unfolding decision_locked_def assms sum.case prod.case case_prod_unfold Let_def fst_conv snd_conv by (rule refl)

lemma mset_concat_map: "mset (concat (map f xs)) = (\<Sum>x\<in>#mset xs. mset (f x))"
  by (induction xs) simp_all

lemma registry_sorted:
  "mset (registry_entries (sorted_snapshot sn)) = mset (registry_entries sn)"
  by (simp add: registry_entries_def sorted_fields mset_concat_map)

lemma registry_canonical:
  assumes "well_indexed s" and "export_durable_state s = Inr (snapshot_values s)"
  shows "authority_registry (canonical s) = authority_registry s"
proof -
  let ?sn = "snapshot_values s"
  have ok: "auth_snapshot_ok ?sn" "copies_ok ?sn" using assms(2) by (simp_all add: export_Inr)
  then have "export_durable_state (canonical s) = Inr (sorted_snapshot ?sn)"
    using sorted_snapshot_ok [of ?sn] assms(1)
    by (simp add: export_durable_state_def canonical_values copies_ok_def sorted_fields list_all_sorted)
  moreover have "set (registry_entries (sorted_snapshot ?sn)) = set (registry_entries ?sn)"
    by (rule mset_eq_setD [OF registry_sorted])
  moreover have "distinct (map fst (registry_entries (sorted_snapshot ?sn))) = distinct (map fst (registry_entries ?sn))"
    by (rule mset_eq_imp_distinct_iff) (simp add: mset_map registry_sorted)
  ultimately show ?thesis by (simp add: authority_registry_def assms(2))
qed

lemma committed_loads:
  assumes "iso_inverse F" and "well_indexed s" and "storable (snapshot_values s)"
    and "snapshot_text s = Inr payload" and "authority_registry s = Inr authorities" and "1 \<le> revision"
    and "du_row du = Some \<lparr>rw_schema_version = STATE_SCHEMA_VERSION, rw_revision = revision, rw_state = payload\<rparr>"
    and "du_authorities du = authorities"
  shows "load_state F du = Inr (canonical s, revision, True)"
proof -
  have "export_durable_state s = Inr (snapshot_values s)" using assms(4) by (simp add: snapshot_text_Inr)
  then show ?thesis
    using assms by (simp add: load_state_def restore_text registry_canonical)
qed

lemma load_abandoned: "load_state F (du\<lparr>du_abandoned := b\<rparr>) = load_state F du"
  by (simp add: load_state_def cong: option.case_cong if_cong sum.case_cong)

lemma snapshot_text_errors: "snapshot_text s = Inl e \<Longrightarrow> e \<noteq> State_Corrupt \<and> e \<noteq> Outcome_Unknown"
  by (auto simp: snapshot_text_def Let_def split: sum.splits if_splits)

lemma registry_errors: "authority_registry s = Inl e \<Longrightarrow> e \<noteq> State_Corrupt \<and> e \<noteq> Outcome_Unknown"
  by (auto simp: authority_registry_def split: sum.splits if_splits)

text \<open>C20. A durable decision is atomic and implements the volatile one.  If it returns, the store that
  a later transaction reads back from the written text is the one the volatile decision left behind,
  with its dictionaries in the order of their handles and the next revision; if it raises, the tables
  are as they were, unless the outcome is reported as unknown, in which case they hold the old or the
  new state and the runtime admits no further work.\<close>

theorem durable_decision_refines:
  assumes "iso_inverse F" and "\<not> du_abandoned du" and "load_state F du = Inr (s, revision, exists)"
    and "0 \<le> revision" and "wf_store s" and "tidy s"
    and "decide H now q s = (v, s')" and "storable (snapshot_values s')"
    and "durable_decide F fault H now q du = (r, du')"
  shows "(r = Inr v \<and> \<not> du_abandoned du' \<and>
            load_state F du' = Inr (canonical s', if exists then revision + 1 else 1, True)) \<or>
         (\<exists>e. r = Inl e \<and> e \<noteq> Outcome_Unknown \<and> du' = du) \<or>
         (r = Inl Outcome_Unknown \<and> du_abandoned du' \<and>
            (load_state F du' = load_state F du \<or>
             load_state F du' = Inr (canonical s', if exists then revision + 1 else 1, True)))"
proof -
  let ?rev = "if exists then revision + 1 else 1"
  have wi: "well_indexed s'"
    using decide_well_indexed [OF assms(5,6), of H now q] assms(7) by simp
  have locked: "durable_decide F fault H now q du =
      (let (r, du') = decision_locked F fault (decide H now q) du
       in case r of Inl State_Corrupt \<Rightarrow> (r, du'\<lparr>du_abandoned := True\<rparr>)
          | Inl Outcome_Unknown \<Rightarrow> (r, du'\<lparr>du_abandoned := True\<rparr>) | _ \<Rightarrow> (r, du'))"
    using assms(2) by (simp add: durable_decide_def durable_decision_def)
  note run = assms(9) [unfolded locked decision_locked_cases [OF assms(3)] assms(7) fst_conv snd_conv]
  consider (raise) e where "raised v = Some e"
    | (unwritten) e where "raised v = None" "snapshot_text s' = Inl e"
    | (registry) payload e where "raised v = None" "snapshot_text s' = Inr payload" "authority_registry s' = Inl e"
    | (written) payload authorities where "raised v = None" "snapshot_text s' = Inr payload"
        "authority_registry s' = Inr authorities"
    by (metis option.exhaust sum.exhaust)
  then show ?thesis
  proof cases
    case (raise e)
    then show ?thesis using run by (auto simp: Let_def split: durable_error.splits)
  next
    case (unwritten e)
    then show ?thesis using run snapshot_text_errors [of s' e] by (cases e) (auto simp: Let_def)
  next
    case (registry payload e)
    then show ?thesis using run registry_errors [of s' e] by (cases e) (auto simp: Let_def)
  next
    case (written payload authorities)
    have loads: "load_state F (du\<lparr>du_row := Some \<lparr>rw_schema_version = STATE_SCHEMA_VERSION,
        rw_revision = ?rev, rw_state = payload\<rparr>, du_authorities := authorities\<rparr>) =
        Inr (canonical s', ?rev, True)"
      by (rule committed_loads [OF assms(1) wi assms(8) written(2,3)]) (use assms(4) in auto)
    show ?thesis
      using run written loads assms(2)
      by (cases fault) (auto simp: Let_def load_abandoned split: if_splits)
  qed
qed

text \<open>Presenting a list of proofs for one bootstrap through the durable store.\<close>

fun durable_presentations ::
    "(string \<Rightarrow> datetime option) \<Rightarrow> uuid \<Rightarrow> int \<Rightarrow> session_record \<Rightarrow> recovery_record \<Rightarrow> bytes list \<Rightarrow> durable_store
     \<Rightarrow> (durable_error + (auth_error + bootstrap_decision)) list \<times> durable_store" where
  "durable_presentations F k now x v [] du = ([], du)"
| "durable_presentations F k now x v (d # ds) du =
     (let (r, du1) = durable_decision F No_Fault (exchange_bootstrap k d now x v) du;
          (rs, du2) = durable_presentations F k now x v ds du1
      in (r # rs, du2))"

lemma exhausted_not_exported:
  assumes "map_of (a_bootstraps s) k = Some b" and "bs_attempts b = 0"
  shows "export_durable_state s = Inl Auth_Value_Error"
proof -
  have "b \<in> set (sn_bootstraps (snapshot_values s))"
    using map_of_SomeD [OF assms(1)] by (force simp: snapshot_values_def)
  moreover have "\<not> bootstrap_record_ok b" using assms(2) by (simp add: bootstrap_record_ok_def)
  ultimately have "\<not> copies_ok (snapshot_values s)" by (auto simp: copies_ok_def list_all_iff)
  then show ?thesis by (simp add: export_durable_state_def)
qed

lemma last_guess_rolls_back:
  assumes "\<not> du_abandoned du" and "load_state F du = Inr (s, revision, exists)"
    and "open_bootstrap k now b s" and "\<not> bs_consumed b" and "bs_attempts b = 1" and "d \<noteq> bs_digest b"
  shows "durable_decision F No_Fault (exchange_bootstrap k d now x v) du = (Inl (Raised Auth_Value_Error), du)"
proof -
  obtain s' where s': "exchange_bootstrap k d now x v s = (Inl (Refused A_ATTEMPTS_EXHAUSTED), s')"
    and "open_bootstrap k now (wrong_bootstrap now b) s'"
    using wrong_presentation [OF assms(3,4,6), of x v] assms(5) by (auto simp: wrong_proof_denial_def)
  then have "export_durable_state s' = Inl Auth_Value_Error"
    using exhausted_not_exported [of s' k "wrong_bootstrap now b"] assms(5) by (simp add: open_bootstrap_def)
  then show ?thesis
    using assms(1,2) s'
    by (simp add: durable_decision_def decision_locked_def snapshot_text_def Let_def)
qed

text \<open>C22. The exhaustion of a code never becomes durable: while one attempt is left, presenting wrong
  proofs through the durable store raises and rolls back each time, so any number of guesses
  leaves the tables as they were, with the attempt still open.\<close>

theorem durable_guesses_unbounded:
  assumes "\<not> du_abandoned du" and "load_state F du = Inr (s, revision, exists)"
    and "map_of (a_bootstraps s) k = Some b" and "bs_root_purpose b \<noteq> Some REPROVISION"
    and "\<not> bs_consumed b" and "bs_attempts b = 1" and "bs_not_before b \<le> now" and "now < bs_expires_at b"
    and "map_of (a_actors s) (bs_actor_id b) = Some a" and "ac_last_observed a \<le> now"
    and "bs_digest b \<notin> set ds"
  shows "durable_presentations F k now x v ds du = (replicate (length ds) (Inl (Raised Auth_Value_Error)), du)"
proof -
  have "open_bootstrap k now b s" using assms by (simp add: open_bootstrap_def)
  then show ?thesis
    using assms(11) last_guess_rolls_back [OF assms(1,2) _ assms(5,6)]
    by (induction ds) auto
qed


section \<open>A concrete durable store\<close>

definition vinitialize :: auth_request where
  "vinitialize = Initialize (sid 1) (sid 2) (sid 3) vroots
     \<lparr>ri_handle = sid 14, ri_digest = digest32\<rparr> \<lparr>ri_handle = sid 15, ri_digest = digest32\<rparr>"

lemma vinitialize_decision: "decide Hid 0 vinitialize empty_store = (Inr R_Done, vinstalled [])"
  by (simp add: vinitialize_def initialize_installation_def replied_def empty_store_def composition_handles_def
      vstore_defs sid_inject insert_commute)

lemma vstore_registry:
  assumes "bs \<in> {[], [(sid 21, vbootstrap)]}"
  shows "authority_registry (vinstalled bs) = Inr (set (registry_entries (snapshot_values (vinstalled bs))))"
  by (simp add: authority_registry_def vstore_exports [OF assms])
    (simp add: registry_entries_def snapshot_values_def vstore_defs sid_inject)

definition narrow_durable :: durable_store where
  "narrow_durable = \<lparr>du_row = Some \<lparr>rw_schema_version = STATE_SCHEMA_VERSION, rw_revision = 1,
       rw_state = dumps (snapshot_json (snapshot_values vnarrow))\<rparr>,
     du_authorities = set (registry_entries (snapshot_values vnarrow)), du_abandoned = False\<rparr>"

theorem durable_decision_refines_witness:
  "\<exists>du'. durable_decide (\<lambda>s. map_option utc (parse_iso s)) No_Fault Hid 0 vinitialize new_durable =
     (Inr (Inr R_Done), du') \<and>
     load_state (\<lambda>s. map_option utc (parse_iso s)) du' = Inr (vinstalled [], 1, True)"
proof -
  let ?F = "\<lambda>s. map_option utc (parse_iso s)"
  have open_du: "\<not> du_abandoned new_durable" by (simp add: new_durable_def)
  have load: "load_state ?F new_durable = Inr (empty_store, 0, False)" by (simp add: load_state_def new_durable_def)
  have "\<exists>du'. durable_decide ?F No_Fault Hid 0 vinitialize new_durable = (Inr (Inr R_Done), du')"
    by (simp add: durable_decide_def durable_decision_def decision_locked_cases [OF load] vinitialize_decision
        vstore_registry vstore_written open_du Let_def)
  then obtain du' where du': "durable_decide ?F No_Fault Hid 0 vinitialize new_durable = (Inr (Inr R_Done), du')"
    by blast
  have "tidy empty_store" by (simp add: tidy_def empty_store_def)
  from durable_decision_refines [OF canonical_iso_inverse open_du load _ wf_empty_store this vinitialize_decision
      vstore_storable du'] show ?thesis
    using du' by (auto simp: vstore_forms)
qed

theorem durable_guesses_unbounded_witness:
  "durable_presentations (\<lambda>s. map_option utc (parse_iso s)) (sid 21) 2 (session0 31) (recovery0 32)
     [[7], [8], [9]] narrow_durable = (replicate 3 (Inl (Raised Auth_Value_Error)), narrow_durable)"
proof -
  let ?F = "\<lambda>s. map_option utc (parse_iso s)"
  have load: "load_state ?F narrow_durable = Inr (vnarrow, 1, True)"
    using committed_loads [OF canonical_iso_inverse vstore_forms(1) vstore_storable vstore_written vstore_registry,
        of "[(sid 21, vbootstrap)]" 1 narrow_durable]
    by (simp add: narrow_durable_def vstore_forms(3))
  have "map_of (a_bootstraps vnarrow) (sid 21) = Some vbootstrap" by (simp add: vinstalled_def)
  moreover have "map_of (a_actors vnarrow) (bs_actor_id vbootstrap) = Some vactor"
    by (simp add: vinstalled_def vbootstrap_def)
  moreover have "\<not> du_abandoned narrow_durable" by (simp add: narrow_durable_def)
  moreover have "bs_digest vbootstrap \<notin> set [[7], [8], [9]]"
  proof -
    have "length (bs_digest vbootstrap) = 32" by (simp add: vbootstrap_def digest32_def)
    then show ?thesis by auto
  qed
  moreover have "bs_root_purpose vbootstrap \<noteq> Some REPROVISION" "\<not> bs_consumed vbootstrap" "bs_attempts vbootstrap = 1"
    "bs_not_before vbootstrap \<le> 2" "2 < bs_expires_at vbootstrap" "ac_last_observed vactor \<le> 2"
    by (simp_all add: vbootstrap_def vactor_def)
  moreover have "length [[7], [8], [9 :: byte]] = 3" by simp
  ultimately show ?thesis
    using durable_guesses_unbounded [OF _ load, of "sid 21" vbootstrap 2 vactor "[[7], [8], [9]]" "session0 31" "recovery0 32"]
    by metis
qed

end
