(* ===== verification/Auth_Code.thy ===== *)
theory Auth_Code
  imports Auth_Domain Wire Sample_Ids
begin

text \<open>
  The operator code (\<^verbatim>\<open>OpaqueCredential.operator_code\<close> and \<^verbatim>\<open>parse_operator_code\<close> of
  \<^verbatim>\<open>domain/auth.py\<close>): the one text in which a credential leaves the program and comes back.
\<close>


section \<open>Rendering and parsing\<close>

definition MAX_OPERATOR_CODE_CHARS :: int where "MAX_OPERATOR_CODE_CHARS = 128"

text \<open>The URL-safe alphabet replaces two characters; the strict decoder maps them back and keeps the
  standard ones.\<close>

definition url_char :: "char \<Rightarrow> char" where
  "url_char c = (if c = CHR ''+'' then CHR ''-'' else if c = CHR ''/'' then CHR ''_'' else c)"

definition std_char :: "char \<Rightarrow> char" where
  "std_char c = (if c = CHR ''-'' then CHR ''+'' else if c = CHR ''_'' then CHR ''/'' else c)"

definition rstrip :: "(char \<Rightarrow> bool) \<Rightarrow> string \<Rightarrow> string" where
  "rstrip P s = rev (dropWhile P (rev s))"

definition is_pad :: "char \<Rightarrow> bool" where "is_pad c \<longleftrightarrow> c = CHR ''=''"

definition is_space :: "char \<Rightarrow> bool" where
  "is_space c \<longleftrightarrow> (let n = of_char c :: nat in 9 \<le> n \<and> n \<le> 13 \<or> 28 \<le> n \<and> n \<le> 32 \<or> n = 133 \<or> n = 160)"

definition operator_code :: "opaque_credential \<Rightarrow> string" where
  "operator_code c = uuid_text (oc_handle c) @ ''.'' @ rstrip is_pad (map url_char (b64encode (oc_secret c)))"

definition parse_operator_code :: "string \<Rightarrow> opaque_credential option" where
  "parse_operator_code v =
     (if \<not> (1 \<le> len v \<and> len v \<le> MAX_OPERATOR_CODE_CHARS) then None
      else let stripped = rstrip is_space (dropWhile is_space v);
               handle_text = takeWhile (\<lambda>c. c \<noteq> CHR ''.'') stripped
           in case dropWhile (\<lambda>c. c \<noteq> CHR ''.'') stripped of
                [] \<Rightarrow> None
              | _ # encoded \<Rightarrow>
                  let padding = replicate (nat (- len encoded mod 4)) (CHR ''='')
                  in case b64decode (map std_char (encoded @ padding)) of
                       None \<Rightarrow> None
                     | Some secret \<Rightarrow>
                         case parse_uuid4 handle_text of
                           None \<Rightarrow> None
                         | Some handle \<Rightarrow>
                             let c = \<lparr>oc_handle = handle, oc_secret = secret\<rparr>
                             in if opaque_credential_ok c then Some c else None)"


section \<open>The characters of a code\<close>

lemmas b64_not_pad = b64_chars [THEN conjunct2, THEN not_sym]

lemma b64_alphabet: "c \<in> set (b64encode bs) \<Longrightarrow> c = CHR ''='' \<or> b64_value c \<noteq> None"
  by (induction bs rule: b64encode.induct) (auto simp: b64_chars)

lemma std_url: "c = CHR ''='' \<or> b64_value c \<noteq> None \<Longrightarrow> std_char (url_char c) = c"
proof -
  have "b64_value (CHR ''-'') = None" "b64_value (CHR ''_'') = None" by code_simp+
  then show "c = CHR ''='' \<or> b64_value c \<noteq> None \<Longrightarrow> ?thesis" by (auto simp: std_char_def url_char_def)
qed

lemma b64_padding:
  "\<exists>body k. b64encode bs = body @ replicate k (CHR ''='') \<and> CHR ''='' \<notin> set body \<and> k \<le> 2 \<and>
     (length body + k) mod 4 = 0 \<and> (bs \<noteq> [] \<longrightarrow> body \<noteq> [])"
proof (induction bs rule: b64encode.induct)
  case 1
  show ?case by (rule exI [of _ "[]"], rule exI [of _ 0]) simp
next
  case (2 a)
  let ?body = "[b64_char (unat a div 4), b64_char (unat a mod 4 * 16)]"
  have "b64encode [a] = ?body @ replicate 2 (CHR ''='')" by (simp add: numeral_2_eq_2)
  moreover have "CHR ''='' \<notin> set ?body" by (simp add: b64_not_pad)
  ultimately show ?case by (intro exI [of _ ?body] exI [of _ "2::nat"]) simp
next
  case (3 a b)
  let ?body = "[b64_char (unat a div 4), b64_char (unat a mod 4 * 16 + unat b div 16), b64_char (unat b mod 16 * 4)]"
  have "b64encode [a, b] = ?body @ replicate 1 (CHR ''='')" by simp
  moreover have "CHR ''='' \<notin> set ?body" by (simp add: b64_not_pad)
  ultimately show ?case by (intro exI [of _ ?body] exI [of _ "1::nat"]) simp
next
  case (4 a b c rest)
  then obtain body k where IH: "b64encode rest = body @ replicate k (CHR ''='')" "CHR ''='' \<notin> set body" "k \<le> 2"
    "(length body + k) mod 4 = 0" by (elim exE conjE) (rule that)
  let ?q = "[b64_char (unat a div 4), b64_char (unat a mod 4 * 16 + unat b div 16),
     b64_char (unat b mod 16 * 4 + unat c div 64), b64_char (unat c mod 64)]"
  have "b64encode (a # b # c # rest) = (?q @ body) @ replicate k (CHR ''='')" using IH(1) by simp
  moreover have "CHR ''='' \<notin> set (?q @ body)" using IH(2) by (simp add: b64_not_pad)
  moreover have "(length (?q @ body) + k) mod 4 = 0" using IH(4) by (simp add: add.assoc)
  ultimately show ?case using IH(3) by (intro exI [of _ "?q @ body"] exI [of _ k]) simp
qed

lemma pad_count: "(n + k) mod 4 = 0 \<Longrightarrow> k \<le> 2 \<Longrightarrow> nat (- int n mod 4) = k"
proof -
  assume k: "k \<le> 2" and "(n + k) mod 4 = 0"
  then obtain m where "n + k = 4 * m" by auto
  then have "- int n = int k + 4 * (- int m)" by simp
  then have "- int n mod 4 = int k mod 4" by (simp only: mod_mult_self2)
  then show ?thesis using k by simp
qed

lemma repad:
  assumes "s \<noteq> []"
  shows "\<exists>encoded. rstrip is_pad (map url_char (b64encode s)) = encoded \<and> encoded \<noteq> [] \<and>
    map std_char (encoded @ replicate (nat (- len encoded mod 4)) (CHR ''='')) = b64encode s \<and>
    set encoded \<subseteq> url_char ` set (b64encode s) \<and> length encoded \<le> length (b64encode s)"
proof -
  obtain body k where b: "b64encode s = body @ replicate k (CHR ''='')" "CHR ''='' \<notin> set body" "k \<le> 2"
    "(length body + k) mod 4 = 0" "body \<noteq> []" using b64_padding [of s] assms by (elim exE conjE) (rule that, simp_all)
  have one: "url_char (CHR ''='') = CHR ''=''" "std_char (CHR ''='') = CHR ''=''"
    "url_char c = CHR ''='' \<Longrightarrow> c = CHR ''=''" for c by (auto simp: url_char_def std_char_def split: if_splits)
  have last: "\<not> is_pad (last (map url_char body))"
    using b(2,5) one(3) by (metis is_pad_def last_map last_in_set)
  have "rstrip is_pad (map url_char body @ replicate k (CHR ''='')) = map url_char body"
  proof -
    have "dropWhile is_pad (replicate k (CHR ''='') @ xs) = dropWhile is_pad xs" for xs
      by (induction k) (simp_all add: is_pad_def)
    moreover have "dropWhile is_pad (rev (map url_char body)) = rev (map url_char body)"
      using last b(5) by (auto simp: dropWhile_eq_self_iff hd_rev)
    ultimately show ?thesis by (simp add: rstrip_def)
  qed
  then have "rstrip is_pad (map url_char (b64encode s)) = map url_char body" by (simp add: b(1) one)
  moreover have "nat (- int (length body) mod 4) = k" by (rule pad_count [OF b(4,3)])
  moreover have "std_char (url_char c) = c" if "c \<in> set body" for c
    using std_url b64_alphabet [of c s] that b(1) by auto
  then have "map (std_char \<circ> url_char) body = body" by (simp add: map_idI)
  ultimately show ?thesis
    using b(1,5) one(2) by (intro exI [of _ "map url_char body"]) (simp add: image_mono)
qed

text \<open>No character of a code is a space, and the handle has no dot.\<close>

lemma b64_not_space: "b64_value c \<noteq> None \<Longrightarrow> \<not> is_space c"
proof -
  define n where "n = (of_char c :: nat)"
  have "b64_value c \<noteq> None \<Longrightarrow> 33 \<le> n \<and> n \<le> 122"
    unfolding b64_value_def n_def [symmetric] Let_def by (simp split: if_splits)
  then show "b64_value c \<noteq> None \<Longrightarrow> ?thesis" unfolding is_space_def n_def [symmetric] Let_def by linarith
qed

lemma code_spaces:
  "c \<in> set (uuid_text u) \<Longrightarrow> \<not> is_space c \<and> c \<noteq> CHR ''.''"
  "c \<in> url_char ` set (b64encode bs) \<Longrightarrow> \<not> is_space c"
proof -
  assume "c \<in> set (uuid_text u)"
  moreover have "list_all (\<lambda>c. \<not> is_space c \<and> c \<noteq> CHR ''.'') (uuid_text u)" by (rule uuid_text_all; code_simp)
  ultimately show "\<not> is_space c \<and> c \<noteq> CHR ''.''" unfolding list_all_iff by blast
next
  assume "c \<in> url_char ` set (b64encode bs)"
  then obtain d where "d \<in> set (b64encode bs)" and c: "c = url_char d" by (rule imageE)
  then have d: "d = CHR ''='' \<or> b64_value d \<noteq> None" using b64_alphabet by simp
  have spaces: "\<not> is_space (CHR ''='')" "\<not> is_space (CHR ''-'')" "\<not> is_space (CHR ''_'')" by code_simp+
  then have "\<not> is_space d" using d b64_not_space by metis
  then show "\<not> is_space c" using spaces by (simp add: c url_char_def)
qed

lemma rstrip_none: "\<forall>c \<in> set s. \<not> P c \<Longrightarrow> rstrip P (dropWhile P s) = s"
proof -
  assume no: "\<forall>c \<in> set s. \<not> P c"
  then have "dropWhile P xs = xs" if "set xs = set s" for xs using that by (cases xs) auto
  then show ?thesis by (simp add: rstrip_def)
qed

lemma b64_length: "3 * length (b64encode bs) \<le> 4 * (length bs + 2)"
  by (induction bs rule: b64encode.induct) simp_all

text \<open>A credential survives its operator code: parsing the code of any credential whose secret has at
  most 66 bytes gives the credential back.\<close>

theorem operator_code_roundtrip:
  assumes "opaque_credential_ok c" and "len (oc_secret c) \<le> 66"
  shows "parse_operator_code (operator_code c) = Some c"
proof -
  have u: "uuid4 (oc_handle c)" and s: "oc_secret c \<noteq> []"
    using assms(1) by (auto simp: opaque_credential_ok_def MIN_SECRET_BYTES_def)
  obtain encoded where e: "rstrip is_pad (map url_char (b64encode (oc_secret c))) = encoded" "encoded \<noteq> []"
    "map std_char (encoded @ replicate (nat (- len encoded mod 4)) (CHR ''='')) = b64encode (oc_secret c)"
    "set encoded \<subseteq> url_char ` set (b64encode (oc_secret c))" "length encoded \<le> length (b64encode (oc_secret c))"
    using repad [OF s] by (elim exE conjE) (rule that)
  let ?h = "uuid_text (oc_handle c)"
  have code: "operator_code c = ?h @ CHR ''.'' # encoded" by (simp add: operator_code_def e(1))
  have "length (oc_secret c) \<le> 66" using assms(2) by simp
  then have "4 * (length (oc_secret c) + 2) \<le> 272" by simp
  with b64_length [of "oc_secret c"] have "3 * length (b64encode (oc_secret c)) \<le> 272" by (rule order_trans)
  then have "length encoded \<le> 90" using e(5) by simp
  then have size: "1 \<le> len (operator_code c) \<and> len (operator_code c) \<le> MAX_OPERATOR_CODE_CHARS"
    unfolding code MAX_OPERATOR_CODE_CHARS_def by (simp add: uuid_text_length)
  have "\<not> is_space (CHR ''.'')" by code_simp
  then have "rstrip is_space (dropWhile is_space (operator_code c)) = operator_code c"
    using code_spaces(1) [of _ "oc_handle c"] code_spaces(2) [OF subsetD [OF e(4)]]
    by (intro rstrip_none) (auto simp: code)
  moreover have "takeWhile (\<lambda>c. c \<noteq> CHR ''.'') (?h @ CHR ''.'' # encoded) = ?h"
    "dropWhile (\<lambda>c. c \<noteq> CHR ''.'') (?h @ CHR ''.'' # encoded) = CHR ''.'' # encoded"
    using code_spaces(1) [of _ "oc_handle c"] by (simp_all add: takeWhile_append2 dropWhile_append2)
  moreover have "opaque_credential_ok \<lparr>oc_handle = oc_handle c, oc_secret = oc_secret c\<rparr>"
    using assms(1) by (simp add: opaque_credential_ok_def)
  ultimately show ?thesis
    using size e(3) u assms(1) by (simp add: Let_def parse_operator_code_def code b64decode_encode parse_uuid_text)
qed

theorem operator_code_roundtrip_witness:
  "parse_operator_code (operator_code \<lparr>oc_handle = sid 1, oc_secret = replicate 32 7\<rparr>) =
     Some \<lparr>oc_handle = sid 1, oc_secret = replicate 32 7\<rparr>"
  by (rule operator_code_roundtrip) (simp_all add: opaque_credential_ok_def uuid4_sid MIN_SECRET_BYTES_def)

end
