(* ===== verification/Key_Records.thy ===== *)
theory Key_Records
  imports Regex
begin

text \<open>
  The value types of \<^verbatim>\<open>application/keys.py\<close>: key-encryption-key references, profile-key bindings,
  wrapped keys, the readiness sentinel, and the two one-use objects, the handle on an unwrapped
  profile key and the preparation of a wrap.  An \<^verbatim>\<open>OpaqueId\<close> is its UUID.
\<close>


section \<open>Constants and identities\<close>

definition PROFILE_DEK_BYTES :: int where "PROFILE_DEK_BYTES = 32"
definition WRAP_NONCE_BYTES :: int where "WRAP_NONCE_BYTES = 12"
definition WRAPPED_PROFILE_KEY_BYTES :: int where "WRAPPED_PROFILE_KEY_BYTES = 48"
definition WRAPPED_KEY_FORMAT_VERSION :: int where "WRAPPED_KEY_FORMAT_VERSION = 1"
definition WRAPPED_KEY_AAD_VERSION :: int where "WRAPPED_KEY_AAD_VERSION = 1"
definition WRAP_SUITE :: string where "WRAP_SUITE = ''A256GCM''"

lemmas key_consts = PROFILE_DEK_BYTES_def WRAP_NONCE_BYTES_def WRAPPED_PROFILE_KEY_BYTES_def
  WRAPPED_KEY_FORMAT_VERSION_def WRAPPED_KEY_AAD_VERSION_def WRAP_SUITE_def

definition rx_provider_kind :: rx where
  "rx_provider_kind = seqs [Cls lower, Rep (Cls (lower @ digits @ ''-'')) 0 (Some 31)]"

definition positive_u32 :: "int \<Rightarrow> bool" where
  "positive_u32 v \<longleftrightarrow> 1 \<le> v \<and> v \<le> 0xFFFFFFFF"

definition positive_u16 :: "int \<Rightarrow> bool" where
  "positive_u16 v \<longleftrightarrow> 1 \<le> v \<and> v \<le> 0xFFFF"

record active_kek_ref =
  kk_provider_kind :: string
  kk_provider_instance_id :: uuid
  kk_kek_id :: uuid
  kk_kek_version :: int

definition active_kek_ref_ok :: "active_kek_ref \<Rightarrow> bool" where
  "active_kek_ref_ok k \<longleftrightarrow>
     fullmatch rx_provider_kind (kk_provider_kind k) \<and> uuid4 (kk_provider_instance_id k) \<and>
     uuid4 (kk_kek_id k) \<and> positive_u32 (kk_kek_version k)"

record profile_key_binding =
  pb_installation_id :: uuid
  pb_profile_id :: uuid
  pb_profile_key_version :: int
  pb_catalog_schema_version :: int

definition profile_key_binding_ok :: "profile_key_binding \<Rightarrow> bool" where
  "profile_key_binding_ok b \<longleftrightarrow>
     uuid4 (pb_installation_id b) \<and> uuid4 (pb_profile_id b) \<and>
     positive_u32 (pb_profile_key_version b) \<and> positive_u16 (pb_catalog_schema_version b)"

record wrapped_profile_key =
  wk_kek_ref :: active_kek_ref
  wk_binding :: profile_key_binding
  wk_nonce :: bytes
  wk_ciphertext :: bytes
  wk_format_version :: int
  wk_aad_version :: int
  wk_suite :: string

definition wrapped_profile_key_ok :: "wrapped_profile_key \<Rightarrow> bool" where
  "wrapped_profile_key_ok w \<longleftrightarrow>
     wk_format_version w = WRAPPED_KEY_FORMAT_VERSION \<and> wk_aad_version w = WRAPPED_KEY_AAD_VERSION \<and>
     wk_suite w = WRAP_SUITE \<and> len (wk_nonce w) = WRAP_NONCE_BYTES \<and>
     len (wk_ciphertext w) = WRAPPED_PROFILE_KEY_BYTES"

datatype source_status = SRC_READABLE | SRC_UNAVAILABLE | SRC_UNSAFE | SRC_CORRUPT

datatype key_readiness_state = KEY_READY | KEY_RECOVERY_REQUIRED

record key_readiness =
  rd_state :: key_readiness_state
  rd_source_status :: source_status

record readiness_sentinel =
  rs_kek_ref :: active_kek_ref
  rs_installation_id :: uuid
  rs_catalog_id :: uuid
  rs_sentinel_id :: uuid
  rs_nonce :: bytes
  rs_ciphertext :: bytes
  rs_format_version :: int
  rs_aad_version :: int
  rs_suite :: string

definition readiness_sentinel_ok :: "readiness_sentinel \<Rightarrow> bool" where
  "readiness_sentinel_ok s \<longleftrightarrow>
     rs_format_version s = WRAPPED_KEY_FORMAT_VERSION \<and> rs_aad_version s = WRAPPED_KEY_AAD_VERSION \<and>
     rs_suite s = WRAP_SUITE \<and> len (rs_nonce s) = WRAP_NONCE_BYTES \<and>
     len (rs_ciphertext s) = WRAPPED_PROFILE_KEY_BYTES"

datatype secret_failure =
    F_UNAVAILABLE | F_UNSAFE_STORAGE | F_FORKED_PROCESS | F_MALFORMED_RECORD | F_PROVIDER_MISMATCH
  | F_CATALOG_KEY_MISMATCH | F_READINESS_REQUIRED | F_RECOVERY_REQUIRED | F_PROVIDER_ALREADY_ACTIVE
  | F_USAGE_LIMIT | F_NONCE_REUSE


section \<open>The handle on an unwrapped profile key\<close>

text \<open>
  \<open>pid\<close> is the process that calls, \<open>current\<close> the answer of the issuer's check at that moment.
  Every refusal is the same redacted error.
\<close>

record dek_handle =
  dh_material :: bytes
  dh_pid :: int
  dh_active :: bool
  dh_closed :: bool
  dh_used :: bool

definition new_dek_handle :: "bytes \<Rightarrow> int \<Rightarrow> dek_handle option" where
  "new_dek_handle material pid =
     (if len material \<noteq> PROFILE_DEK_BYTES then None
      else Some \<lparr>dh_material = material, dh_pid = pid, dh_active = False, dh_closed = False, dh_used = False\<rparr>)"

definition close_locked :: "dek_handle \<Rightarrow> dek_handle" where
  "close_locked h =
     (if dh_closed h then h
      else h\<lparr>dh_material := replicate (length (dh_material h)) 0, dh_closed := True, dh_active := False\<rparr>)"

datatype handle_error = Handle_Not_Available

definition dek_enter :: "int \<Rightarrow> bool \<Rightarrow> dek_handle \<Rightarrow> (handle_error + unit) \<times> dek_handle" where
  "dek_enter pid current h =
     (if pid \<noteq> dh_pid h \<or> dh_closed h \<or> \<not> current \<or> dh_active h then (Inl Handle_Not_Available, h)
      else (Inr (), h\<lparr>dh_active := True\<rparr>))"

text \<open>
  The operation holds a view of the handle's own buffer and runs while the re-entrant lock is held, so it may
  call the handle again: it is a function of the handle, and it may raise.  The handle is closed in
  both cases.
\<close>

datatype 'e use_error = Use_Refused handle_error | Use_Raised 'e

definition dek_use :: "int \<Rightarrow> bool \<Rightarrow> (dek_handle \<Rightarrow> ('e + 'a) \<times> dek_handle) \<Rightarrow> dek_handle \<Rightarrow> ('e use_error + 'a) \<times> dek_handle" where
  "dek_use pid current operation h =
     (if pid \<noteq> dh_pid h \<or> dh_closed h \<or> \<not> current \<or> \<not> dh_active h \<or> dh_used h
      then (Inl (Use_Refused Handle_Not_Available), h)
      else case operation (h\<lparr>dh_used := True\<rparr>) of
             (Inl e, h') \<Rightarrow> (Inl (Use_Raised e), close_locked h')
           | (Inr v, h') \<Rightarrow> (Inr v, close_locked h'))"

definition dek_close :: "int \<Rightarrow> dek_handle \<Rightarrow> (handle_error + unit) \<times> dek_handle" where
  "dek_close pid h = (if pid \<noteq> dh_pid h then (Inl Handle_Not_Available, h) else (Inr (), close_locked h))"


section \<open>The preparation of a wrap\<close>

record key_preparation =
  kp_binding :: profile_key_binding
  kp_nonce :: bytes
  kp_issuer :: nat
  kp_pid :: int
  kp_consumed :: bool

definition new_preparation :: "profile_key_binding \<Rightarrow> bytes \<Rightarrow> nat \<Rightarrow> int \<Rightarrow> key_preparation option" where
  "new_preparation b nonce issuer pid =
     (if len nonce \<noteq> WRAP_NONCE_BYTES then None
      else Some \<lparr>kp_binding = b, kp_nonce = nonce, kp_issuer = issuer, kp_pid = pid, kp_consumed = False\<rparr>)"

text \<open>Consumption is recorded before the issuer is checked, so a refused completion is spent too.\<close>

definition consume_preparation ::
    "int \<Rightarrow> nat \<Rightarrow> bool \<Rightarrow> key_preparation \<Rightarrow> (handle_error + (profile_key_binding \<times> bytes)) \<times> key_preparation" where
  "consume_preparation pid issuer current p =
     (if pid \<noteq> kp_pid p then (Inl Handle_Not_Available, p)
      else if kp_consumed p then (Inl Handle_Not_Available, p)
      else let p' = p\<lparr>kp_consumed := True\<rparr>
           in if issuer \<noteq> kp_issuer p \<or> \<not> current then (Inl Handle_Not_Available, p')
              else (Inr (kp_binding p, kp_nonce p), p'))"


section \<open>One use\<close>

text \<open>
  The calls that may reach a handle, in any order: \<open>Use\<close> runs an operation that itself makes calls and
  then returns or raises, and \<open>Look\<close> reads a view that an operation was given, also after the
  operation has ended.  The log has what every operation is shown and what every look reads.
\<close>

datatype handle_call = Enter int bool | Use int bool "handle_call list" bool | Look | Close int

datatype key_sight = Shown bytes | Looked bytes

fun handle_step :: "handle_call \<Rightarrow> dek_handle \<Rightarrow> key_sight list \<times> dek_handle"
  and handle_run :: "handle_call list \<Rightarrow> dek_handle \<Rightarrow> key_sight list \<times> dek_handle" where
  "handle_step (Enter pid current) h = ([], snd (dek_enter pid current h))"
| "handle_step (Use pid current body raises) h =
     (case dek_use pid current
         (\<lambda>g. case handle_run body g of
                (log, g') \<Rightarrow> (let sights = Shown (dh_material g) # log in if raises then Inl sights else Inr sights, g')) h of
        (Inl (Use_Refused _), h') \<Rightarrow> ([], h')
      | (Inl (Use_Raised log), h') \<Rightarrow> (log, h')
      | (Inr log, h') \<Rightarrow> (log, h'))"
| "handle_step Look h = (if dh_used h then [Looked (dh_material h)] else [], h)"
| "handle_step (Close pid) h = ([], snd (dek_close pid h))"
| "handle_run [] h = ([], h)"
| "handle_run (c # cs) h =
     (case handle_step c h of (log, h') \<Rightarrow> (case handle_run cs h' of (log', h'') \<Rightarrow> (log @ log', h'')))"

definition erased :: "dek_handle \<Rightarrow> bool" where
  "erased h \<longleftrightarrow> dh_closed h \<and> dh_material h = replicate (length (dh_material h)) 0"

lemma close_erases: "\<not> dh_closed h \<Longrightarrow> erased (close_locked h)"
  by (simp add: erased_def close_locked_def)

lemma erased_run: "erased h \<Longrightarrow> \<exists>k. handle_run cs h = (replicate k (Looked (dh_material h)), h)"
proof (induction cs)
  case Nil
  then show ?case by (intro exI [of _ 0]) simp
next
  case (Cons c cs)
  have "\<exists>k. handle_step c h = (replicate k (Looked (dh_material h)), h)"
    using Cons.prems by (cases c) (auto simp: erased_def dek_enter_def dek_use_def dek_close_def close_locked_def
      intro: exI [of _ 0] exI [of _ "Suc 0"])
  then show ?case using Cons by (fastforce simp: replicate_add [symmetric])
qed

lemma unused_run: "erased h \<Longrightarrow> \<not> dh_used h \<Longrightarrow> handle_run cs h = ([], h)"
proof (induction cs)
  case (Cons c cs)
  have "handle_step c h = ([], h)"
    using Cons.prems by (cases c) (simp_all add: erased_def dek_enter_def dek_use_def dek_close_def close_locked_def)
  then show ?case using Cons by simp
qed simp

text \<open>An operation that runs is alone: a handle in use refuses a further use, and its view is the key until the
  handle is closed and zeros from then on.\<close>

lemma in_use_run:
  assumes "\<not> dh_closed h" and "dh_used h" and "handle_run cs h = (log, h')"
  shows "\<exists>a b. log = replicate a (Looked (dh_material h)) @ replicate b (Looked (replicate (length (dh_material h)) 0)) \<and>
    (if dh_closed h' then erased h' \<and> length (dh_material h') = length (dh_material h)
     else b = 0 \<and> dh_used h' \<and> dh_material h' = dh_material h)"
  using assms
proof (induction cs arbitrary: h log)
  case Nil
  then show ?case by (intro exI [of _ 0]) simp
next
  case (Cons c cs)
  obtain l g where g: "handle_step c h = (l, g)" by (cases "handle_step c h")
  obtain l2 where l2: "handle_run cs g = (l2, h')" "log = l @ l2" using Cons.prems(3) g by (auto split: prod.splits)
  have step: "dh_closed g \<and> erased g \<and> l = [] \<and> length (dh_material g) = length (dh_material h) \<or>
      \<not> dh_closed g \<and> dh_used g \<and> dh_material g = dh_material h \<and> (l = [] \<or> l = [Looked (dh_material h)])"
    using g Cons.prems(1,2) close_erases [of h]
    by (cases c) (auto simp: dek_enter_def dek_use_def dek_close_def close_locked_def split: if_splits)
  show ?case
  proof (cases "dh_closed g")
    case True
    then have "erased g" "l = []" and same: "length (dh_material g) = length (dh_material h)" using step by auto
    obtain k where "handle_run cs g = (replicate k (Looked (dh_material g)), g)" using erased_run [OF \<open>erased g\<close>] by blast
    moreover have "dh_material g = replicate (length (dh_material h)) 0" using \<open>erased g\<close> same by (simp add: erased_def)
    ultimately have "log = replicate k (Looked (replicate (length (dh_material h)) 0))" "h' = g" using l2 \<open>l = []\<close> by simp_all
    then show ?thesis using \<open>erased g\<close> same True by (intro exI [of _ 0] exI [of _ k]) simp
  next
    case False
    then have m: "dh_used g" "dh_material g = dh_material h" "l = replicate (length l) (Looked (dh_material h))" using step by auto
    from Cons.IH [OF False m(1) l2(1)] obtain a b where "l2 = replicate a (Looked (dh_material h)) @
        replicate b (Looked (replicate (length (dh_material h)) 0))" and
      "if dh_closed h' then erased h' \<and> length (dh_material h') = length (dh_material h)
       else b = 0 \<and> dh_used h' \<and> dh_material h' = dh_material h" using m(2) by auto
    moreover from this m(3) l2(2) have "log = replicate (length l + a) (Looked (dh_material h)) @
        replicate b (Looked (replicate (length (dh_material h)) 0))"
      by (simp add: replicate_add)
    ultimately show ?thesis by blast
  qed
qed

lemma use_runs:
  assumes "\<not> dh_closed h" and "\<not> dh_used h" and "dh_pid h = pid" and "dh_active h"
  obtains a b h' where "handle_step (Use pid True body raises) h =
      (Shown (dh_material h) # replicate a (Looked (dh_material h)) @ replicate b (Looked (replicate (length (dh_material h)) 0)), h')"
    and "erased h'" and "length (dh_material h') = length (dh_material h)"
proof -
  obtain log g where g: "handle_run body (h\<lparr>dh_used := True\<rparr>) = (log, g)" by (cases "handle_run body (h\<lparr>dh_used := True\<rparr>)")
  have used: "\<not> dh_closed (h\<lparr>dh_used := True\<rparr>)" "dh_used (h\<lparr>dh_used := True\<rparr>)"
    and same: "dh_material (h\<lparr>dh_used := True\<rparr>) = dh_material h" using assms(1) by simp_all
  from in_use_run [OF used g]
  obtain a b where log: "log = replicate a (Looked (dh_material h)) @ replicate b (Looked (replicate (length (dh_material h)) 0))"
      and "if dh_closed g then erased g \<and> length (dh_material g) = length (dh_material h)
        else b = 0 \<and> dh_used g \<and> dh_material g = dh_material h"
    unfolding same by blast
  then have "erased (close_locked g) \<and> length (dh_material (close_locked g)) = length (dh_material h)"
    using close_erases [of g] by (auto simp: close_locked_def split: if_splits)
  moreover have "handle_step (Use pid True body raises) h = (Shown (dh_material h) # log, close_locked g)"
    using assms by (simp add: dek_use_def g Let_def)
  ultimately show thesis using that log by blast
qed

lemma fresh_run:
  assumes "\<not> dh_closed h" and "\<not> dh_used h" and "handle_run cs h = (log, h')"
  shows "log = [] \<or> (\<exists>a b. log = Shown (dh_material h) # replicate a (Looked (dh_material h)) @
    replicate b (Looked (replicate (length (dh_material h)) 0))) \<and> erased h' \<and> length (dh_material h') = length (dh_material h)"
  using assms
proof (induction cs arbitrary: h log)
  case (Cons c cs)
  obtain l g where g: "handle_step c h = (l, g)" by (cases "handle_step c h")
  obtain l2 where l2: "handle_run cs g = (l2, h')" "log = l @ l2" using Cons.prems(3) g by (auto split: prod.splits)
  show ?case
  proof (cases "\<exists>pid body raises. c = Use pid True body raises \<and> dh_pid h = pid \<and> dh_active h")
    case True
    then obtain pid body raises where c: "c = Use pid True body raises" "dh_pid h = pid" "dh_active h" by blast
    obtain a b where l: "l = Shown (dh_material h) # replicate a (Looked (dh_material h)) @
          replicate b (Looked (replicate (length (dh_material h)) 0))"
        and e: "erased g" "length (dh_material g) = length (dh_material h)"
      using use_runs [OF Cons.prems(1,2) c(2,3), of body raises] g c(1) by auto
    obtain k where k: "handle_run cs g = (replicate k (Looked (dh_material g)), g)" using erased_run [OF e(1)] by blast
    have "dh_material g = replicate (length (dh_material h)) 0" using e by (simp add: erased_def)
    then have "log = Shown (dh_material h) # replicate a (Looked (dh_material h)) @
        replicate (b + k) (Looked (replicate (length (dh_material h)) 0))" "h' = g"
      using l l2 k by (simp_all add: replicate_add)
    then show ?thesis using e by blast
  next
    case False
    then have step: "l = [] \<and> (erased g \<and> \<not> dh_used g \<or> \<not> dh_closed g \<and> \<not> dh_used g \<and> dh_material g = dh_material h)"
      using g Cons.prems(1,2) close_erases [of h]
      by (cases c) (auto simp: dek_enter_def dek_use_def dek_close_def close_locked_def split: if_splits)
    show ?thesis
    proof (cases "dh_closed g")
      case True
      then have "handle_run cs g = ([], g)" using step unused_run by auto
      then show ?thesis using step l2 by simp
    next
      case False
      then show ?thesis using Cons.IH [OF False _ l2(1)] step l2(2) by (auto simp: erased_def)
    qed
  qed
qed simp


text \<open>An operation that uses the handle again, reads its view, closes the handle, reads the view again and raises, and a
  second use afterwards.\<close>

definition reentrant_calls :: "handle_call list" where
  "reentrant_calls =
     [Enter 1 True, Use 1 True [Use 1 True [Look] False, Look, Close 1, Look] True, Look, Use 1 True [] False]"


lemma preparation_consumed_once:
  "consume_preparation pid issuer current p = (Inr x, p') \<Longrightarrow>
     x = (kp_binding p, kp_nonce p) \<and> \<not> kp_consumed p \<and> p' = p\<lparr>kp_consumed := True\<rparr>"
  "kp_consumed p \<Longrightarrow> consume_preparation pid issuer current p = (Inl Handle_Not_Available, p)"
  by (auto simp: consume_preparation_def Let_def split: if_splits)

end
