(* ===== verification/Key_Catalog.thy ===== *)
theory Key_Catalog
  imports Key_Records Wire "HOL-Library.Monad_Syntax"
begin

text \<open>
  The durable catalog of wrapped profile keys: \<^verbatim>\<open>SqliteKeyCatalog\<close> of
  \<^verbatim>\<open>adapters/persistence/key_catalog.py\<close> over the tables of the migration \<^verbatim>\<open>0003_key_catalog.py\<close>, and
  the identities of \<^verbatim>\<open>application/key_catalog.py\<close>.  The four tables are lists of rows with the
  columns as SQLite holds them (identifiers as text); an \<^verbatim>\<open>INSERT\<close> that violates a constraint raises.
  A method is one transaction; \<open>fault\<close> says where its commit fails.
\<close>


section \<open>Identities and failures\<close>

definition KEY_CATALOG_SCHEMA_VERSION :: int where "KEY_CATALOG_SCHEMA_VERSION = 1"

datatype catalog_state = K_PREPARING | K_ACTIVE | K_RECOVERY_REQUIRED

fun catalog_state_value :: "catalog_state \<Rightarrow> string" where
  "catalog_state_value K_PREPARING = ''preparing''"
| "catalog_state_value K_ACTIVE = ''active''"
| "catalog_state_value K_RECOVERY_REQUIRED = ''recovery_required''"

definition catalog_state_of :: "string \<Rightarrow> catalog_state option" where
  "catalog_state_of v = find (\<lambda>s. catalog_state_value s = v) [K_PREPARING, K_ACTIVE, K_RECOVERY_REQUIRED]"

record catalog_identity =
  ci_installation_id :: uuid
  ci_catalog_id :: uuid
  ci_sentinel_id :: uuid
  ci_active_kek :: active_kek_ref
  ci_usage_limit :: int
  ci_schema_version :: int

definition catalog_identity_ok :: "catalog_identity \<Rightarrow> bool" where
  "catalog_identity_ok i \<longleftrightarrow>
     2 \<le> ci_usage_limit i \<and> ci_usage_limit i \<le> 100000 \<and> ci_schema_version i = KEY_CATALOG_SCHEMA_VERSION"

record catalog_snapshot =
  cs_identity :: catalog_identity
  cs_state :: catalog_state
  cs_revision :: int
  cs_sentinel :: "readiness_sentinel option"

definition sentinel_matches :: "catalog_identity \<Rightarrow> readiness_sentinel \<Rightarrow> bool" where
  "sentinel_matches i s \<longleftrightarrow>
     rs_kek_ref s = ci_active_kek i \<and> rs_installation_id s = ci_installation_id i \<and>
     rs_catalog_id s = ci_catalog_id i \<and> rs_sentinel_id s = ci_sentinel_id i"

definition catalog_snapshot_ok :: "catalog_snapshot \<Rightarrow> bool" where
  "catalog_snapshot_ok c \<longleftrightarrow>
     1 \<le> cs_revision c \<and> (cs_sentinel c = None \<longleftrightarrow> cs_state c = K_PREPARING) \<and>
     (case cs_sentinel c of None \<Rightarrow> True | Some s \<Rightarrow> sentinel_matches (cs_identity c) s)"

datatype catalog_failure =
    KF_NOT_INITIALIZED | KF_IDENTITY_MISMATCH | KF_RECOVERY_REQUIRED | KF_DUPLICATE_PROFILE_KEY
  | KF_NONCE_REUSE | KF_USAGE_LIMIT | KF_COMMIT_OUTCOME_UNKNOWN | KF_CORRUPT | KF_UNAVAILABLE

text \<open>What the body of a transaction raises: a catalog error, a type or value error, a driver error.\<close>

datatype body_error = Catalog_Error catalog_failure | Bad_Value | Driver_Error

text \<open>What a method raises: a catalog error, an uncaught value error, the runtime's refusal of work.\<close>

datatype key_error = Key_Failure catalog_failure | Key_Bad_Value | Key_Runtime_Unavailable


section \<open>Tables\<close>

record catalog_row =
  cr_schema_version :: int
  cr_revision :: int
  cr_state :: string
  cr_installation_id :: string
  cr_catalog_id :: string
  cr_sentinel_id :: string
  cr_provider_kind :: string
  cr_provider_instance_id :: string
  cr_kek_id :: string
  cr_kek_version :: int
  cr_usage_limit :: int
  cr_usage_reserved :: int
  cr_source_commitment :: bytes

record nonce_row =
  nr_reservation_id :: string
  nr_catalog_id :: string
  nr_provider_instance_id :: string
  nr_kek_id :: string
  nr_kek_version :: int
  nr_nonce :: bytes
  nr_purpose :: string
  nr_lifecycle :: string
  nr_usage_sequence :: int
  nr_profile_id :: "string option"
  nr_profile_key_version :: "int option"

record sentinel_row =
  sr_catalog_id :: string
  sr_sentinel_id :: string
  sr_reservation_id :: string
  sr_format_version :: int
  sr_aad_version :: int
  sr_suite :: string
  sr_ciphertext :: bytes

record wrapped_row =
  ww_profile_id :: string
  ww_profile_key_version :: int
  ww_catalog_schema_version :: int
  ww_installation_id :: string
  ww_reservation_id :: string
  ww_format_version :: int
  ww_aad_version :: int
  ww_suite :: string
  ww_ciphertext :: bytes

record key_tables =
  kt_catalog :: "catalog_row option"
  kt_nonces :: "nonce_row list"
  kt_sentinel :: "sentinel_row option"
  kt_wrapped :: "wrapped_row list"

text \<open>The domain in which a nonce and a usage number must not repeat.\<close>

definition nonce_domain :: "nonce_row \<Rightarrow> string \<times> string \<times> int" where
  "nonce_domain r = (nr_provider_instance_id r, nr_kek_id r, nr_kek_version r)"

definition nonce_row_ok :: "nonce_row \<Rightarrow> bool" where
  "nonce_row_ok r \<longleftrightarrow>
     length (nr_reservation_id r) = 36 \<and> length (nr_nonce r) = 12 \<and>
     nr_purpose r \<in> {''sentinel'', ''profile''} \<and> nr_lifecycle r \<in> {''reserved'', ''committed'', ''burned''} \<and>
     1 \<le> nr_usage_sequence r \<and>
     (nr_purpose r = ''sentinel'' \<and> nr_profile_id r = None \<and> nr_profile_key_version r = None \<or>
      nr_purpose r = ''profile'' \<and> nr_profile_id r \<noteq> None \<and>
        (case nr_profile_key_version r of None \<Rightarrow> False | Some v \<Rightarrow> 1 \<le> v))"

text \<open>The uniqueness constraints on two rows; a null never equals a null.\<close>

definition nonce_rows_clash :: "nonce_row \<Rightarrow> nonce_row \<Rightarrow> bool" where
  "nonce_rows_clash a b \<longleftrightarrow>
     nr_reservation_id a = nr_reservation_id b \<or>
     nonce_domain a = nonce_domain b \<and> nr_nonce a = nr_nonce b \<or>
     nonce_domain a = nonce_domain b \<and> nr_usage_sequence a = nr_usage_sequence b \<or>
     nr_profile_id a \<noteq> None \<and> nr_profile_key_version a \<noteq> None \<and>
       nr_profile_id a = nr_profile_id b \<and> nr_profile_key_version a = nr_profile_key_version b"

definition insert_nonce :: "nonce_row \<Rightarrow> key_tables \<Rightarrow> body_error + key_tables" where
  "insert_nonce r db =
     (if \<not> nonce_row_ok r \<or> list_ex (nonce_rows_clash r) (kt_nonces db) \<or>
         map_option cr_catalog_id (kt_catalog db) \<noteq> Some (nr_catalog_id r)
      then Inl Driver_Error
      else Inr (db\<lparr>kt_nonces := kt_nonces db @ [r]\<rparr>))"

definition wrapped_row_ok :: "wrapped_row \<Rightarrow> bool" where
  "wrapped_row_ok w \<longleftrightarrow>
     length (ww_profile_id w) = 36 \<and> positive_u32 (ww_profile_key_version w) \<and>
     ww_catalog_schema_version w = 1 \<and> length (ww_installation_id w) = 36 \<and>
     ww_format_version w = 1 \<and> ww_aad_version w = 1 \<and> ww_suite w = ''A256GCM'' \<and>
     length (ww_ciphertext w) = 48"

definition insert_wrapped :: "wrapped_row \<Rightarrow> key_tables \<Rightarrow> body_error + key_tables" where
  "insert_wrapped w db =
     (if \<not> wrapped_row_ok w \<or>
         list_ex (\<lambda>x. ww_profile_id x = ww_profile_id w \<and> ww_profile_key_version x = ww_profile_key_version w \<or>
                      ww_reservation_id x = ww_reservation_id w) (kt_wrapped db) \<or>
         \<not> list_ex (\<lambda>r. nr_reservation_id r = ww_reservation_id w) (kt_nonces db)
      then Inl Driver_Error
      else Inr (db\<lparr>kt_wrapped := kt_wrapped db @ [w]\<rparr>))"

definition insert_sentinel :: "sentinel_row \<Rightarrow> key_tables \<Rightarrow> body_error + key_tables" where
  "insert_sentinel s db =
     (if kt_sentinel db \<noteq> None \<or> length (sr_sentinel_id s) \<noteq> 36 \<or> sr_format_version s \<noteq> 1 \<or>
         sr_aad_version s \<noteq> 1 \<or> sr_suite s \<noteq> ''A256GCM'' \<or> length (sr_ciphertext s) \<noteq> 48 \<or>
         map_option cr_catalog_id (kt_catalog db) \<noteq> Some (sr_catalog_id s) \<or>
         \<not> list_ex (\<lambda>r. nr_reservation_id r = sr_reservation_id s) (kt_nonces db)
      then Inl Driver_Error
      else Inr (db\<lparr>kt_sentinel := Some s\<rparr>))"

definition catalog_row_ok :: "catalog_row \<Rightarrow> bool" where
  "catalog_row_ok c \<longleftrightarrow>
     cr_schema_version c = 1 \<and> 1 \<le> cr_revision c \<and>
     cr_state c \<in> {''preparing'', ''active'', ''recovery_required''} \<and>
     length (cr_installation_id c) = 36 \<and> length (cr_catalog_id c) = 36 \<and> length (cr_sentinel_id c) = 36 \<and>
     length (cr_provider_instance_id c) = 36 \<and> length (cr_kek_id c) = 36 \<and> positive_u32 (cr_kek_version c) \<and>
     2 \<le> cr_usage_limit c \<and> cr_usage_limit c \<le> 4294967295 \<and>
     1 \<le> cr_usage_reserved c \<and> cr_usage_reserved c \<le> cr_usage_limit c \<and> length (cr_source_commitment c) = 32"

definition insert_catalog :: "catalog_row \<Rightarrow> key_tables \<Rightarrow> body_error + key_tables" where
  "insert_catalog c db =
     (if kt_catalog db \<noteq> None \<or> \<not> catalog_row_ok c then Inl Driver_Error
      else Inr (db\<lparr>kt_catalog := Some c\<rparr>))"

text \<open>\<^verbatim>\<open>SELECT * FROM key_nonce_reservations WHERE reservation_id=...\<close>\<close>

definition reservation_row :: "string \<Rightarrow> key_tables \<Rightarrow> nonce_row option" where
  "reservation_row rid db = find (\<lambda>r. nr_reservation_id r = rid) (kt_nonces db)"

definition profile_row :: "profile_key_binding \<Rightarrow> key_tables \<Rightarrow> wrapped_row option" where
  "profile_row b db =
     find (\<lambda>w. ww_profile_id w = uuid_text (pb_profile_id b) \<and> ww_profile_key_version w = pb_profile_key_version b)
       (kt_wrapped db)"

definition profile_reservation_row :: "profile_key_binding \<Rightarrow> key_tables \<Rightarrow> nonce_row option" where
  "profile_reservation_row b db =
     find (\<lambda>r. nr_purpose r = ''profile'' \<and> nr_profile_id r = Some (uuid_text (pb_profile_id b)) \<and>
               nr_profile_key_version r = Some (pb_profile_key_version b)) (kt_nonces db)"

text \<open>\<^verbatim>\<open>UPDATE ... SET lifecycle='committed' WHERE reservation_id=... AND lifecycle='reserved'\<close> and its row count.\<close>

definition commit_reservation :: "string \<Rightarrow> key_tables \<Rightarrow> nat \<times> key_tables" where
  "commit_reservation rid db =
     (let hit = (\<lambda>r. nr_reservation_id r = rid \<and> nr_lifecycle r = ''reserved'')
      in (length (filter hit (kt_nonces db)),
          db\<lparr>kt_nonces := map (\<lambda>r. if hit r then r\<lparr>nr_lifecycle := ''committed''\<rparr> else r) (kt_nonces db)\<rparr>))"

text \<open>An update of the singleton catalog row under a condition, with its row count.\<close>

definition update_catalog ::
    "(catalog_row \<Rightarrow> bool) \<Rightarrow> (catalog_row \<Rightarrow> catalog_row) \<Rightarrow> key_tables \<Rightarrow> body_error + (nat \<times> key_tables)" where
  "update_catalog cond f db =
     (case kt_catalog db of
        None \<Rightarrow> Inr (0, db)
      | Some c \<Rightarrow> if \<not> cond c then Inr (0, db)
                  else if \<not> catalog_row_ok (f c) then Inl Driver_Error
                  else Inr (1, db\<lparr>kt_catalog := Some (f c)\<rparr>))"


section \<open>Strict loading\<close>

text \<open>A comparison of columns is not true if one of them is null.\<close>

fun sql_ne :: "'a option \<Rightarrow> 'a \<Rightarrow> bool" where
  "sql_ne None y \<longleftrightarrow> False"
| "sql_ne (Some x) y \<longleftrightarrow> x \<noteq> y"

definition foreign_row :: "catalog_identity \<Rightarrow> nonce_row \<Rightarrow> bool" where
  "foreign_row i r \<longleftrightarrow>
     nr_catalog_id r \<noteq> uuid_text (ci_catalog_id i) \<or>
     nr_provider_instance_id r \<noteq> uuid_text (kk_provider_instance_id (ci_active_kek i)) \<or>
     nr_kek_id r \<noteq> uuid_text (kk_kek_id (ci_active_kek i)) \<or>
     nr_kek_version r \<noteq> kk_kek_version (ci_active_kek i)"

definition invalid_wrapped :: "catalog_identity \<Rightarrow> key_tables \<Rightarrow> wrapped_row \<Rightarrow> bool" where
  "invalid_wrapped i db w =
     (case reservation_row (ww_reservation_id w) db of
        None \<Rightarrow> True
      | Some n \<Rightarrow>
          nr_purpose n \<noteq> ''profile'' \<or> nr_lifecycle n \<noteq> ''committed'' \<or>
          sql_ne (nr_profile_id n) (ww_profile_id w) \<or> sql_ne (nr_profile_key_version n) (ww_profile_key_version w) \<or>
          foreign_row i n \<or> ww_installation_id w \<noteq> uuid_text (ci_installation_id i) \<or>
          ww_catalog_schema_version w \<noteq> ci_schema_version i)"

definition orphan_committed :: "key_tables \<Rightarrow> nonce_row \<Rightarrow> bool" where
  "orphan_committed db n \<longleftrightarrow>
     nr_purpose n = ''profile'' \<and> nr_lifecycle n = ''committed'' \<and>
     (case find (\<lambda>w. ww_reservation_id w = nr_reservation_id n) (kt_wrapped db) of
        None \<Rightarrow> True
      | Some w \<Rightarrow> sql_ne (nr_profile_id n) (ww_profile_id w) \<or>
                  sql_ne (nr_profile_key_version n) (ww_profile_key_version w))"

text \<open>
  \<^verbatim>\<open>_validate_ledger\<close>: the aggregates over an empty table are null, which is not an integer, but the
  count is compared first.
\<close>

definition ledger_ok :: "catalog_identity \<Rightarrow> int \<Rightarrow> key_tables \<Rightarrow> bool" where
  "ledger_ok i usage_reserved db \<longleftrightarrow>
     (let ns = kt_nonces db; sequence = map nr_usage_sequence ns
      in len ns = usage_reserved \<and> Min (set sequence) = 1 \<and> Max (set sequence) = usage_reserved \<and>
         length (filter (\<lambda>r. nr_purpose r = ''sentinel'') ns) = 1 \<and>
         length (filter (\<lambda>r. nr_purpose r = ''sentinel'' \<and> nr_usage_sequence r = 1) ns) = 1 \<and>
         \<not> list_ex (\<lambda>r. 1 < nr_usage_sequence r \<and> nr_purpose r \<noteq> ''profile'') ns \<and>
         \<not> list_ex (foreign_row i) ns \<and>
         \<not> list_ex (invalid_wrapped i db) (kt_wrapped db) \<and> \<not> list_ex (orphan_committed db) ns)"

definition validate_ledger :: "catalog_identity \<Rightarrow> int \<Rightarrow> key_tables \<Rightarrow> body_error + unit" where
  "validate_ledger i usage_reserved db =
     (if kt_nonces db = [] \<and> usage_reserved = 0 then Inl Bad_Value
      else if kt_nonces db = [] \<or> \<not> ledger_ok i usage_reserved db then Inl (Catalog_Error KF_CORRUPT)
      else Inr ())"

definition value_of :: "'a option \<Rightarrow> body_error + 'a" where
  "value_of x = (case x of None \<Rightarrow> Inl Bad_Value | Some v \<Rightarrow> Inr v)"

definition require_value :: "body_error \<Rightarrow> bool \<Rightarrow> body_error + unit" where
  "require_value e b = (if b then Inr () else Inl e)"

definition then_do :: "body_error + 'a \<Rightarrow> ('a \<Rightarrow> body_error + 'b) \<Rightarrow> body_error + 'b" where
  "then_do x f = (case x of Inl e \<Rightarrow> Inl e | Inr v \<Rightarrow> f v)"

definition kek_of_row :: "catalog_row \<Rightarrow> active_kek_ref option" where
  "kek_of_row c = do {
     p \<leftarrow> parse_uuid4 (cr_provider_instance_id c); k \<leftarrow> parse_uuid4 (cr_kek_id c);
     let r = \<lparr>kk_provider_kind = cr_provider_kind c, kk_provider_instance_id = p, kk_kek_id = k,
               kk_kek_version = cr_kek_version c\<rparr>;
     if active_kek_ref_ok r then Some r else None }"

definition identity_of_row :: "active_kek_ref \<Rightarrow> catalog_row \<Rightarrow> catalog_identity option" where
  "identity_of_row kek c = do {
     i \<leftarrow> parse_uuid4 (cr_installation_id c); k \<leftarrow> parse_uuid4 (cr_catalog_id c);
     s \<leftarrow> parse_uuid4 (cr_sentinel_id c);
     let r = \<lparr>ci_installation_id = i, ci_catalog_id = k, ci_sentinel_id = s, ci_active_kek = kek,
               ci_usage_limit = cr_usage_limit c, ci_schema_version = cr_schema_version c\<rparr>;
     if catalog_identity_ok r then Some r else None }"

definition sentinel_of_row ::
    "active_kek_ref \<Rightarrow> catalog_row \<Rightarrow> sentinel_row \<Rightarrow> nonce_row \<Rightarrow> readiness_sentinel option" where
  "sentinel_of_row kek c s n = do {
     i \<leftarrow> parse_uuid4 (cr_installation_id c); k \<leftarrow> parse_uuid4 (cr_catalog_id c);
     sid \<leftarrow> parse_uuid4 (sr_sentinel_id s);
     let r = \<lparr>rs_kek_ref = kek, rs_installation_id = i, rs_catalog_id = k, rs_sentinel_id = sid,
               rs_nonce = nr_nonce n, rs_ciphertext = sr_ciphertext s, rs_format_version = sr_format_version s,
               rs_aad_version = sr_aad_version s, rs_suite = sr_suite s\<rparr>;
     if readiness_sentinel_ok r then Some r else None }"

text \<open>The join of the sentinel row with its reservation.\<close>

definition load_sentinel :: "active_kek_ref \<Rightarrow> catalog_row \<Rightarrow> key_tables \<Rightarrow> body_error + readiness_sentinel option" where
  "load_sentinel kek c db =
     (case kt_sentinel db of
        None \<Rightarrow> Inr None
      | Some s \<Rightarrow>
          (case reservation_row (sr_reservation_id s) db of
             None \<Rightarrow> Inr None
           | Some n \<Rightarrow>
               if nr_lifecycle n \<noteq> ''committed'' \<or> nr_purpose n \<noteq> ''sentinel''
               then Inl (Catalog_Error KF_CORRUPT)
               else then_do (value_of (sentinel_of_row kek c s n)) (\<lambda>x. Inr (Some x))))"

definition load_snapshot :: "key_tables \<Rightarrow> body_error + catalog_snapshot" where
  "load_snapshot db =
     (case kt_catalog db of
        None \<Rightarrow> Inl (Catalog_Error KF_NOT_INITIALIZED)
      | Some c \<Rightarrow>
          then_do (value_of (kek_of_row c)) (\<lambda>kek.
          then_do (value_of (catalog_state_of (cr_state c))) (\<lambda>state.
          then_do (load_sentinel kek c db) (\<lambda>sentinel.
          then_do (value_of (identity_of_row kek c)) (\<lambda>identity.
          then_do (require_value Bad_Value (length (cr_source_commitment c) = 32)) (\<lambda>_.
          then_do (validate_ledger identity (cr_usage_reserved c) db) (\<lambda>_.
            let snapshot = \<lparr>cs_identity = identity, cs_state = state, cs_revision = cr_revision c,
                             cs_sentinel = sentinel\<rparr>
            in then_do (require_value Bad_Value (catalog_snapshot_ok snapshot)) (\<lambda>_. Inr snapshot))))))))"

definition assert_active_binding :: "catalog_snapshot \<Rightarrow> profile_key_binding \<Rightarrow> body_error + unit" where
  "assert_active_binding sn b =
     (if cs_state sn \<noteq> K_ACTIVE then Inl (Catalog_Error KF_RECOVERY_REQUIRED)
      else if pb_installation_id b \<noteq> ci_installation_id (cs_identity sn) \<or>
              pb_catalog_schema_version b \<noteq> ci_schema_version (cs_identity sn)
      then Inl (Catalog_Error KF_IDENTITY_MISMATCH)
      else Inr ())"


section \<open>Bodies of the transactions\<close>

definition initial_row :: "catalog_identity \<Rightarrow> bytes \<Rightarrow> catalog_row" where
  "initial_row i commitment =
     \<lparr>cr_schema_version = ci_schema_version i, cr_revision = 1, cr_state = ''preparing'',
      cr_installation_id = uuid_text (ci_installation_id i), cr_catalog_id = uuid_text (ci_catalog_id i),
      cr_sentinel_id = uuid_text (ci_sentinel_id i), cr_provider_kind = kk_provider_kind (ci_active_kek i),
      cr_provider_instance_id = uuid_text (kk_provider_instance_id (ci_active_kek i)),
      cr_kek_id = uuid_text (kk_kek_id (ci_active_kek i)), cr_kek_version = kk_kek_version (ci_active_kek i),
      cr_usage_limit = ci_usage_limit i, cr_usage_reserved = 1, cr_source_commitment = commitment\<rparr>"

definition reservation_for ::
    "catalog_identity \<Rightarrow> uuid \<Rightarrow> bytes \<Rightarrow> string \<Rightarrow> int \<Rightarrow> profile_key_binding option \<Rightarrow> nonce_row" where
  "reservation_for i rid nonce purpose sequence b =
     \<lparr>nr_reservation_id = uuid_text rid, nr_catalog_id = uuid_text (ci_catalog_id i),
      nr_provider_instance_id = uuid_text (kk_provider_instance_id (ci_active_kek i)),
      nr_kek_id = uuid_text (kk_kek_id (ci_active_kek i)), nr_kek_version = kk_kek_version (ci_active_kek i),
      nr_nonce = nonce, nr_purpose = purpose, nr_lifecycle = ''reserved'', nr_usage_sequence = sequence,
      nr_profile_id = map_option (uuid_text \<circ> pb_profile_id) b,
      nr_profile_key_version = map_option pb_profile_key_version b\<rparr>"

definition begin_initialization_body ::
    "uuid \<Rightarrow> catalog_identity \<Rightarrow> bytes \<Rightarrow> bytes \<Rightarrow> key_tables \<Rightarrow> body_error + (uuid \<times> key_tables)" where
  "begin_initialization_body rid i nonce commitment db =
     (if kt_catalog db \<noteq> None then Inl (Catalog_Error KF_IDENTITY_MISMATCH)
      else then_do (insert_catalog (initial_row i commitment) db) (\<lambda>db1.
           then_do (insert_nonce (reservation_for i rid nonce ''sentinel'' 1 None) db1) (\<lambda>db2. Inr (rid, db2))))"

definition stage_initialization_finish :: "uuid \<Rightarrow> readiness_sentinel \<Rightarrow> key_tables \<Rightarrow> body_error + key_tables" where
  "stage_initialization_finish rid s db =
     then_do (load_snapshot db) (\<lambda>sn.
       if cs_state sn \<noteq> K_PREPARING \<or> \<not> sentinel_matches (cs_identity sn) s
       then Inl (Catalog_Error KF_IDENTITY_MISMATCH)
       else case reservation_row (uuid_text rid) db of
              None \<Rightarrow> Inl (Catalog_Error KF_IDENTITY_MISMATCH)
            | Some r \<Rightarrow>
                if nr_purpose r \<noteq> ''sentinel'' \<or> nr_lifecycle r \<noteq> ''reserved'' \<or> nr_nonce r \<noteq> rs_nonce s
                then Inl (Catalog_Error KF_IDENTITY_MISMATCH)
                else
                  then_do (insert_sentinel
                    \<lparr>sr_catalog_id = uuid_text (ci_catalog_id (cs_identity sn)),
                     sr_sentinel_id = uuid_text (ci_sentinel_id (cs_identity sn)),
                     sr_reservation_id = uuid_text rid, sr_format_version = rs_format_version s,
                     sr_aad_version = rs_aad_version s, sr_suite = rs_suite s,
                     sr_ciphertext = rs_ciphertext s\<rparr> db) (\<lambda>db1.
                  let (changed, db2) = commit_reservation (uuid_text rid) db1
                  in if changed \<noteq> 1 then Inl (Catalog_Error KF_CORRUPT)
                     else then_do (update_catalog
                            (\<lambda>c. cr_state c = ''preparing'' \<and> cr_revision c = cs_revision sn)
                            (\<lambda>c. c\<lparr>cr_state := ''active'', cr_revision := cr_revision c + 1\<rparr>) db2) (\<lambda>(rows, db3).
                          if rows \<noteq> 1 then Inl (Catalog_Error KF_CORRUPT) else Inr db3)))"

definition load_initialization_record :: "key_tables \<Rightarrow> body_error + (uuid \<times> bytes \<times> bytes)" where
  "load_initialization_record db =
     then_do (load_snapshot db) (\<lambda>sn.
       if cs_state sn \<noteq> K_PREPARING then Inl (Catalog_Error KF_IDENTITY_MISMATCH)
       else case filter (\<lambda>r. nr_purpose r = ''sentinel'' \<and> nr_lifecycle r = ''reserved'') (kt_nonces db) of
              [r] \<Rightarrow>
                (case kt_catalog db of
                   None \<Rightarrow> Inl (Catalog_Error KF_CORRUPT)
                 | Some c \<Rightarrow>
                     then_do (value_of (parse_uuid4 (nr_reservation_id r))) (\<lambda>rid.
                     then_do (require_value Bad_Value (length (nr_nonce r) = 12 \<and> length (cr_source_commitment c) = 32)) (\<lambda>_.
                       Inr (rid, nr_nonce r, cr_source_commitment c))))
            | _ \<Rightarrow> Inl (Catalog_Error KF_CORRUPT))"

definition nonce_in_use :: "catalog_identity \<Rightarrow> bytes \<Rightarrow> nonce_row \<Rightarrow> bool" where
  "nonce_in_use i nonce r \<longleftrightarrow>
     nr_provider_instance_id r = uuid_text (kk_provider_instance_id (ci_active_kek i)) \<and>
     nr_kek_id r = uuid_text (kk_kek_id (ci_active_kek i)) \<and>
     nr_kek_version r = kk_kek_version (ci_active_kek i) \<and> nr_nonce r = nonce"

definition reserve_body ::
    "uuid \<Rightarrow> profile_key_binding \<Rightarrow> bytes \<Rightarrow> key_tables \<Rightarrow> body_error + (uuid \<times> key_tables)" where
  "reserve_body rid b nonce db =
     then_do (load_snapshot db) (\<lambda>sn.
     then_do (assert_active_binding sn b) (\<lambda>_.
       if profile_row b db \<noteq> None \<or> profile_reservation_row b db \<noteq> None
       then Inl (Catalog_Error KF_DUPLICATE_PROFILE_KEY)
       else if list_ex (nonce_in_use (cs_identity sn) nonce) (kt_nonces db)
       then Inl (Catalog_Error KF_NONCE_REUSE)
       else case kt_catalog db of
              None \<Rightarrow> Inl Bad_Value
            | Some c \<Rightarrow>
                if cr_usage_reserved c \<ge> ci_usage_limit (cs_identity sn) then Inl (Catalog_Error KF_USAGE_LIMIT)
                else
                  then_do (insert_nonce (reservation_for (cs_identity sn) rid nonce ''profile''
                    (cr_usage_reserved c + 1) (Some b)) db) (\<lambda>db1.
                  then_do (update_catalog
                    (\<lambda>c'. cr_revision c' = cs_revision sn \<and> cr_state c' = ''active'')
                    (\<lambda>c'. c'\<lparr>cr_usage_reserved := cr_usage_reserved c + 1, cr_revision := cr_revision c' + 1\<rparr>)
                    db1) (\<lambda>(rows, db2).
                    if rows \<noteq> 1 then Inl (Catalog_Error KF_CORRUPT) else Inr (rid, db2)))))"

definition reservation_matches :: "catalog_snapshot \<Rightarrow> profile_key_binding \<Rightarrow> bytes \<Rightarrow> string \<Rightarrow> nonce_row \<Rightarrow> bool" where
  "reservation_matches sn b nonce lifecycle r \<longleftrightarrow>
     \<not> foreign_row (cs_identity sn) r \<and> nr_nonce r = nonce \<and> nr_purpose r = ''profile'' \<and>
     nr_lifecycle r = lifecycle \<and> nr_profile_id r = Some (uuid_text (pb_profile_id b)) \<and>
     nr_profile_key_version r = Some (pb_profile_key_version b)"

definition publish_body ::
    "uuid \<Rightarrow> profile_key_binding \<Rightarrow> bytes \<Rightarrow> wrapped_profile_key \<Rightarrow> key_tables \<Rightarrow> body_error + (unit \<times> key_tables)" where
  "publish_body rid b nonce w db =
     then_do (load_snapshot db) (\<lambda>sn.
     then_do (assert_active_binding sn (wk_binding w)) (\<lambda>_.
       if wk_kek_ref w \<noteq> ci_active_kek (cs_identity sn) then Inl (Catalog_Error KF_IDENTITY_MISMATCH)
       else if \<not> (case reservation_row (uuid_text rid) db of
                    None \<Rightarrow> False | Some r \<Rightarrow> reservation_matches sn b nonce ''reserved'' r)
       then Inl (Catalog_Error KF_IDENTITY_MISMATCH)
       else if profile_row (wk_binding w) db \<noteq> None then Inl (Catalog_Error KF_DUPLICATE_PROFILE_KEY)
       else
         then_do (insert_wrapped
           \<lparr>ww_profile_id = uuid_text (pb_profile_id (wk_binding w)),
            ww_profile_key_version = pb_profile_key_version (wk_binding w),
            ww_catalog_schema_version = pb_catalog_schema_version (wk_binding w),
            ww_installation_id = uuid_text (pb_installation_id (wk_binding w)),
            ww_reservation_id = uuid_text rid, ww_format_version = wk_format_version w,
            ww_aad_version = wk_aad_version w, ww_suite = wk_suite w, ww_ciphertext = wk_ciphertext w\<rparr> db) (\<lambda>db1.
         let (changed, db2) = commit_reservation (uuid_text rid) db1
         in if changed \<noteq> 1 then Inl (Catalog_Error KF_CORRUPT)
            else then_do (update_catalog (\<lambda>_. True) (\<lambda>c. c\<lparr>cr_revision := cr_revision c + 1\<rparr>) db2) (\<lambda>(_, db3).
                   Inr ((), db3)))))"

text \<open>The record of a published key, as \<^verbatim>\<open>load_profile_key\<close> and \<^verbatim>\<open>reconcile_profile_key\<close> build it.\<close>

definition stored_key ::
    "catalog_snapshot \<Rightarrow> profile_key_binding \<Rightarrow> key_tables \<Rightarrow> body_error + wrapped_profile_key option" where
  "stored_key sn b db =
     (case profile_row b db of
        None \<Rightarrow> Inr None
      | Some row \<Rightarrow>
          (case reservation_row (ww_reservation_id row) db of
             None \<Rightarrow> Inl (Catalog_Error KF_CORRUPT)
           | Some r \<Rightarrow>
               if nr_lifecycle r \<noteq> ''committed'' then Inl (Catalog_Error KF_CORRUPT)
               else
                 let w = \<lparr>wk_kek_ref = ci_active_kek (cs_identity sn), wk_binding = b, wk_nonce = nr_nonce r,
                           wk_ciphertext = ww_ciphertext row, wk_format_version = ww_format_version row,
                           wk_aad_version = ww_aad_version row, wk_suite = ww_suite row\<rparr>
                 in then_do (require_value Bad_Value (wrapped_profile_key_ok w)) (\<lambda>_. Inr (Some w))))"

definition load_profile_body :: "profile_key_binding \<Rightarrow> key_tables \<Rightarrow> body_error + wrapped_profile_key option" where
  "load_profile_body b db =
     then_do (load_snapshot db) (\<lambda>sn. then_do (assert_active_binding sn b) (\<lambda>_. stored_key sn b db))"

definition reconcile_profile_body :: "profile_key_binding \<Rightarrow> key_tables \<Rightarrow> body_error + wrapped_profile_key option" where
  "reconcile_profile_body b db =
     then_do (load_snapshot db) (\<lambda>sn.
       if pb_installation_id b \<noteq> ci_installation_id (cs_identity sn) \<or>
          pb_catalog_schema_version b \<noteq> ci_schema_version (cs_identity sn)
       then Inl (Catalog_Error KF_IDENTITY_MISMATCH)
       else stored_key sn b db)"

definition require_recovery_body :: "key_tables \<Rightarrow> body_error + (unit \<times> key_tables)" where
  "require_recovery_body db =
     then_do (load_snapshot db) (\<lambda>sn.
       if cs_state sn = K_RECOVERY_REQUIRED then Inr ((), db)
       else then_do (update_catalog (\<lambda>c. cr_revision c = cs_revision sn)
              (\<lambda>c. c\<lparr>cr_state := ''recovery_required'', cr_revision := cr_revision c + 1\<rparr>) db) (\<lambda>(rows, db1).
              if rows \<noteq> 1 then Inl (Catalog_Error KF_CORRUPT) else Inr ((), db1)))"


section \<open>Transactions\<close>

text \<open>
  The owned runtime admits work, or was opened after a dirty stop and admits reconciliation only,
  or was abandoned.
\<close>

datatype runtime_mode = Accepting | Reconciling | Abandoned

record key_store =
  ks_tables :: key_tables
  ks_mode :: runtime_mode

datatype commit_fault = Commit_Works | Crash_Before_Commit | Commit_Raises bool | Crash_After_Commit

abbreviation latch :: "key_store \<Rightarrow> key_store" where
  "latch st \<equiv> st\<lparr>ks_mode := Abandoned\<rparr>"

text \<open>\<^verbatim>\<open>_latch_commit_ambiguity\<close> around a unit of work that ends in \<^verbatim>\<open>_commit_or_latch\<close>.\<close>

definition catalog_write ::
    "commit_fault \<Rightarrow> (key_tables \<Rightarrow> body_error + ('a \<times> key_tables)) \<Rightarrow> key_store \<Rightarrow> (key_error + 'a) \<times> key_store" where
  "catalog_write fault body st =
     (if ks_mode st \<noteq> Accepting then (Inl Key_Runtime_Unavailable, st)
      else case body (ks_tables st) of
             Inl (Catalog_Error e) \<Rightarrow>
               (Inl (Key_Failure e), if e \<in> {KF_CORRUPT, KF_NONCE_REUSE} then latch st else st)
           | Inl Driver_Error \<Rightarrow> (Inl (Key_Failure KF_UNAVAILABLE), latch st)
           | Inl Bad_Value \<Rightarrow> (Inl Key_Bad_Value, st)
           | Inr (v, db) \<Rightarrow>
               (case fault of
                  Commit_Works \<Rightarrow> (Inr v, st\<lparr>ks_tables := db\<rparr>)
                | Crash_Before_Commit \<Rightarrow> (Inl (Key_Failure KF_COMMIT_OUTCOME_UNKNOWN), latch st)
                | Commit_Raises durable \<Rightarrow>
                    (Inl (Key_Failure KF_COMMIT_OUTCOME_UNKNOWN),
                     latch (if durable then st\<lparr>ks_tables := db\<rparr> else st))
                | Crash_After_Commit \<Rightarrow>
                    (Inl (Key_Failure KF_COMMIT_OUTCOME_UNKNOWN), latch (st\<lparr>ks_tables := db\<rparr>))))"

text \<open>Reads report a malformed row as corruption; \<open>driver\<close> is the code for a driver error.\<close>

definition catalog_read ::
    "catalog_failure \<Rightarrow> (key_tables \<Rightarrow> body_error + 'a) \<Rightarrow> key_store \<Rightarrow> (key_error + 'a) \<times> key_store" where
  "catalog_read driver body st =
     (if ks_mode st \<noteq> Accepting then (Inl Key_Runtime_Unavailable, st)
      else case body (ks_tables st) of
             Inr v \<Rightarrow> (Inr v, st)
           | Inl (Catalog_Error e) \<Rightarrow> (Inl (Key_Failure e), if e = KF_CORRUPT then latch st else st)
           | Inl Bad_Value \<Rightarrow> (Inl (Key_Failure KF_CORRUPT), latch st)
           | Inl Driver_Error \<Rightarrow> (Inl (Key_Failure driver), latch st))"

text \<open>The inspection of a runtime that was opened for reconciliation changes nothing.\<close>

definition reconciliation_read :: "(key_tables \<Rightarrow> body_error + 'a) \<Rightarrow> key_store \<Rightarrow> key_error + 'a" where
  "reconciliation_read body st =
     (if ks_mode st \<noteq> Reconciling then Inl Key_Runtime_Unavailable
      else case body (ks_tables st) of
             Inr v \<Rightarrow> Inr v
           | Inl (Catalog_Error e) \<Rightarrow> Inl (Key_Failure e)
           | Inl _ \<Rightarrow> Inl (Key_Failure KF_CORRUPT))"

definition begin_initialization ::
    "commit_fault \<Rightarrow> uuid \<Rightarrow> catalog_identity \<Rightarrow> bytes \<Rightarrow> bytes \<Rightarrow> key_store \<Rightarrow> (key_error + uuid) \<times> key_store" where
  "begin_initialization fault rid i nonce commitment st =
     (if length nonce \<noteq> 12 \<or> length commitment \<noteq> 32 then (Inl Key_Bad_Value, st)
      else catalog_write fault (begin_initialization_body rid i nonce commitment) st)"

definition load_catalog :: "key_store \<Rightarrow> (key_error + catalog_snapshot) \<times> key_store" where
  "load_catalog st = catalog_read KF_UNAVAILABLE load_snapshot st"

definition finish_initialization ::
    "commit_fault \<Rightarrow> uuid \<Rightarrow> readiness_sentinel \<Rightarrow> key_store \<Rightarrow> (key_error + catalog_snapshot) \<times> key_store" where
  "finish_initialization fault rid s st =
     (case catalog_write fault (\<lambda>db. then_do (stage_initialization_finish rid s db) (\<lambda>db'. Inr ((), db'))) st of
        (Inl e, st') \<Rightarrow> (Inl e, st')
      | (Inr _, st') \<Rightarrow> load_catalog st')"

definition load_initialization :: "key_store \<Rightarrow> (key_error + (uuid \<times> bytes \<times> bytes)) \<times> key_store" where
  "load_initialization st = catalog_read KF_CORRUPT load_initialization_record st"

definition load_initialization_for_reconciliation :: "key_store \<Rightarrow> key_error + (uuid \<times> bytes \<times> bytes)" where
  "load_initialization_for_reconciliation st = reconciliation_read load_initialization_record st"

text \<open>The reconciliation writes in a transaction of its own; a driver error leaves the runtime as it is.\<close>

definition finish_initialization_for_reconciliation ::
    "commit_fault \<Rightarrow> uuid \<Rightarrow> readiness_sentinel \<Rightarrow> key_store \<Rightarrow> (key_error + unit) \<times> key_store" where
  "finish_initialization_for_reconciliation fault rid s st =
     (if ks_mode st \<noteq> Reconciling then (Inl Key_Runtime_Unavailable, st)
      else case stage_initialization_finish rid s (ks_tables st) of
             Inl (Catalog_Error e) \<Rightarrow> (Inl (Key_Failure e), st)
           | Inl Driver_Error \<Rightarrow> (Inl (Key_Failure KF_UNAVAILABLE), st)
           | Inl Bad_Value \<Rightarrow> (Inl Key_Bad_Value, st)
           | Inr db \<Rightarrow>
               (case fault of
                  Commit_Raises durable \<Rightarrow>
                    (Inl (Key_Failure KF_UNAVAILABLE), if durable then st\<lparr>ks_tables := db\<rparr> else st)
                | _ \<Rightarrow> (Inr (), st\<lparr>ks_tables := db\<rparr>)))"

definition load_catalog_for_reconciliation :: "key_store \<Rightarrow> key_error + catalog_snapshot" where
  "load_catalog_for_reconciliation st = reconciliation_read load_snapshot st"

definition reconcile_profile_key :: "profile_key_binding \<Rightarrow> key_store \<Rightarrow> key_error + wrapped_profile_key option" where
  "reconcile_profile_key b st = reconciliation_read (reconcile_profile_body b) st"

definition reserve_profile_preparation ::
    "commit_fault \<Rightarrow> uuid \<Rightarrow> key_preparation \<Rightarrow> key_store \<Rightarrow> (key_error + uuid) \<times> key_store" where
  "reserve_profile_preparation fault rid p st =
     catalog_write fault (reserve_body rid (kp_binding p) (kp_nonce p)) st"

definition publish_profile_key ::
    "commit_fault \<Rightarrow> uuid \<Rightarrow> key_preparation \<Rightarrow> wrapped_profile_key \<Rightarrow> key_store \<Rightarrow> (key_error + unit) \<times> key_store" where
  "publish_profile_key fault rid p w st =
     (if wk_binding w \<noteq> kp_binding p \<or> wk_nonce w \<noteq> kp_nonce p then (Inl (Key_Failure KF_IDENTITY_MISMATCH), st)
      else catalog_write fault (publish_body rid (kp_binding p) (kp_nonce p) w) st)"

definition load_profile_key :: "profile_key_binding \<Rightarrow> key_store \<Rightarrow> (key_error + wrapped_profile_key option) \<times> key_store" where
  "load_profile_key b st = catalog_read KF_UNAVAILABLE (load_profile_body b) st"

definition require_recovery :: "commit_fault \<Rightarrow> key_store \<Rightarrow> (key_error + unit) \<times> key_store" where
  "require_recovery fault st =
     (if ks_mode st = Accepting \<and> require_recovery_body (ks_tables st) = Inr ((), ks_tables st)
      then (Inr (), st)
      else catalog_write fault require_recovery_body st)"

end
