(* ===== verification/Key_Catalog_Guarantees.thy ===== *)
theory Key_Catalog_Guarantees
  imports Key_Catalog
begin

text \<open>
  The ledger invariant of the key catalog and what follows from it: whatever sequence of operations,
  failed commits and restarts produced the tables, they load, no nonce was given out twice under
  the key, and a published key stays what it is.
\<close>


section \<open>The invariant\<close>

text \<open>An identity that its constructors accept.\<close>

definition identity_wf :: "catalog_identity \<Rightarrow> bool" where
  "identity_wf i \<longleftrightarrow> catalog_identity_ok i \<and> active_kek_ref_ok (ci_active_kek i) \<and>
     uuid4 (ci_installation_id i) \<and> uuid4 (ci_catalog_id i) \<and> uuid4 (ci_sentinel_id i)"

definition ledger_inv :: "catalog_identity \<Rightarrow> nonce_row list \<Rightarrow> bool" where
  "ledger_inv i ns \<longleftrightarrow>
     ns \<noteq> [] \<and> map nr_usage_sequence ns = [1..len ns] \<and>
     nr_purpose (hd ns) = ''sentinel'' \<and> list_all (\<lambda>r. nr_purpose r = ''profile'') (tl ns) \<and>
     list_all (\<lambda>r. nonce_row_ok r \<and> \<not> foreign_row i r) ns \<and> sorted_wrt (\<lambda>a b. \<not> nonce_rows_clash b a) ns"

definition wrapped_inv :: "catalog_identity \<Rightarrow> key_tables \<Rightarrow> bool" where
  "wrapped_inv i db \<longleftrightarrow>
     distinct (map ww_reservation_id (kt_wrapped db)) \<and>
     list_all (\<lambda>w. wrapped_row_ok w \<and> \<not> invalid_wrapped i db w) (kt_wrapped db) \<and>
     list_all (\<lambda>n. \<not> orphan_committed db n) (kt_nonces db)"

definition sentinel_inv :: "catalog_identity \<Rightarrow> catalog_state \<Rightarrow> key_tables \<Rightarrow> bool" where
  "sentinel_inv i s db =
     (case kt_sentinel db of
        None \<Rightarrow> s = K_PREPARING \<and> nr_lifecycle (hd (kt_nonces db)) = ''reserved'' \<and> tl (kt_nonces db) = []
      | Some x \<Rightarrow> s \<noteq> K_PREPARING \<and> nr_lifecycle (hd (kt_nonces db)) = ''committed'' \<and>
          sr_reservation_id x = nr_reservation_id (hd (kt_nonces db)) \<and>
          sr_sentinel_id x = uuid_text (ci_sentinel_id i) \<and> sr_format_version x = 1 \<and> sr_aad_version x = 1 \<and>
          sr_suite x = ''A256GCM'' \<and> length (sr_ciphertext x) = 48)"

definition current_row :: "catalog_identity \<Rightarrow> bytes \<Rightarrow> catalog_state \<Rightarrow> int \<Rightarrow> int \<Rightarrow> catalog_row" where
  "current_row i commitment s v used =
     (initial_row i commitment)\<lparr>cr_state := catalog_state_value s, cr_revision := v, cr_usage_reserved := used\<rparr>"

definition catalog_inv :: "catalog_identity \<Rightarrow> key_tables \<Rightarrow> bool" where
  "catalog_inv i db \<longleftrightarrow>
     ledger_inv i (kt_nonces db) \<and> wrapped_inv i db \<and> len (kt_nonces db) \<le> ci_usage_limit i \<and>
     (\<exists>commitment s v. kt_catalog db = Some (current_row i commitment s v (len (kt_nonces db))) \<and>
        length commitment = 32 \<and> 1 \<le> v \<and> sentinel_inv i s db)"

lemma ledger_invI:
  assumes "ns \<noteq> []" and "map nr_usage_sequence ns = [1..len ns]" and "nr_purpose (hd ns) = ''sentinel''"
    and "\<And>r. r \<in> set (tl ns) \<Longrightarrow> nr_purpose r = ''profile''"
    and "\<And>r. r \<in> set ns \<Longrightarrow> nonce_row_ok r \<and> \<not> foreign_row i r"
    and "sorted_wrt (\<lambda>a b. \<not> nonce_rows_clash b a) ns"
  shows "ledger_inv i ns"
  using assms unfolding ledger_inv_def list_all_iff by blast

lemma ledger_invD:
  assumes "ledger_inv i ns"
  shows "ns \<noteq> []" and "map nr_usage_sequence ns = [1..len ns]" and "nr_purpose (hd ns) = ''sentinel''"
    and "r \<in> set (tl ns) \<Longrightarrow> nr_purpose r = ''profile''"
    and "r \<in> set ns \<Longrightarrow> nonce_row_ok r" and "r \<in> set ns \<Longrightarrow> \<not> foreign_row i r"
    and "sorted_wrt (\<lambda>a b. \<not> nonce_rows_clash b a) ns"
  using assms unfolding ledger_inv_def list_all_iff by blast+

lemma catalog_invI:
  assumes "ledger_inv i (kt_nonces db)" and "wrapped_inv i db" and "len (kt_nonces db) \<le> ci_usage_limit i"
    and "kt_catalog db = Some (current_row i commitment s v (len (kt_nonces db)))" and "length commitment = 32"
    and "1 \<le> v" and "sentinel_inv i s db"
  shows "catalog_inv i db"
  using assms unfolding catalog_inv_def by blast

lemma clash_sym: "nonce_rows_clash a b \<longleftrightarrow> nonce_rows_clash b a"
  by (auto simp: nonce_rows_clash_def)

lemma ledger_ids: "ledger_inv i ns \<Longrightarrow> distinct (map nr_reservation_id ns)"
proof -
  have "sorted_wrt (\<lambda>a b. \<not> nonce_rows_clash b a) ns \<Longrightarrow> distinct (map nr_reservation_id ns)"
    by (induction ns) (auto simp: nonce_rows_clash_def)
  then show "ledger_inv i ns \<Longrightarrow> ?thesis" by (simp add: ledger_inv_def)
qed

lemma ledger_no_clash:
  assumes "ledger_inv i ns" and "a \<in> set ns" and "b \<in> set ns" and "a \<noteq> b"
  shows "\<not> nonce_rows_clash a b"
proof -
  have "sorted_wrt (\<lambda>a b. \<not> nonce_rows_clash b a) ns \<Longrightarrow> \<not> nonce_rows_clash a b"
    using assms(2-4) by (induction ns) (auto simp: clash_sym)
  then show ?thesis using assms(1) by (simp add: ledger_inv_def)
qed

lemma find_distinct:
  assumes "distinct (map f xs)" and "x \<in> set xs"
  shows "find (\<lambda>y. f y = f x) xs = Some x"
  using assms by (induction xs) (auto simp: rev_image_eqI)

lemma reservation_row_set:
  "reservation_row rid db = Some r \<Longrightarrow> r \<in> set (kt_nonces db) \<and> nr_reservation_id r = rid"
  by (auto simp: reservation_row_def find_Some_iff)

lemma reservation_row_get:
  "ledger_inv i (kt_nonces db) \<Longrightarrow> r \<in> set (kt_nonces db) \<Longrightarrow> reservation_row (nr_reservation_id r) db = Some r"
  unfolding reservation_row_def by (rule find_distinct [OF ledger_ids])


section \<open>A kept ledger loads\<close>

lemma ledger_counts:
  assumes "ledger_inv i ns"
  shows "Min (set (map nr_usage_sequence ns)) = 1" and "Max (set (map nr_usage_sequence ns)) = len ns"
    and "filter (\<lambda>r. nr_purpose r = ''sentinel'') ns = [hd ns]" and "nr_usage_sequence (hd ns) = 1"
    and "r \<in> set ns \<Longrightarrow> nr_purpose r \<noteq> ''profile'' \<Longrightarrow> r = hd ns"
proof -
  note inv = assms [unfolded ledger_inv_def]
  obtain n rest where ns: "ns = n # rest" using inv by (cases ns) auto
  have len: "1 \<le> len ns" by (simp add: ns)
  have seq: "map nr_usage_sequence ns = [1..len ns]" using inv by blast
  show "Min (set (map nr_usage_sequence ns)) = 1" unfolding seq using len by (intro Min_eqI) auto
  show "Max (set (map nr_usage_sequence ns)) = len ns" unfolding seq using len by (intro Max_eqI) auto
  have "filter (\<lambda>r. nr_purpose r = ''sentinel'') rest = []"
    using inv by (auto simp: ns list_all_iff filter_empty_conv)
  then show "filter (\<lambda>r. nr_purpose r = ''sentinel'') ns = [hd ns]" using inv by (simp add: ns)
  have "hd (map nr_usage_sequence ns) = hd [1..len ns]" unfolding seq by (rule refl)
  then show "nr_usage_sequence (hd ns) = 1" using upto_rec1 [OF len] by (simp add: ns)
  show "r = hd ns" if "r \<in> set ns" "nr_purpose r \<noteq> ''profile''"
    using that inv by (auto simp: ns list_all_iff)
qed

lemma inv_validates:
  assumes "ledger_inv i (kt_nonces db)" and "wrapped_inv i db"
  shows "validate_ledger i (len (kt_nonces db)) db = Inr ()"
proof -
  let ?ns = "kt_nonces db"
  note c = ledger_counts [OF assms(1)] and inv = assms(1) [unfolded ledger_inv_def]
  have "filter (\<lambda>r. nr_purpose r = ''sentinel'' \<and> nr_usage_sequence r = 1) ?ns =
      filter (\<lambda>r. nr_usage_sequence r = 1) (filter (\<lambda>r. nr_purpose r = ''sentinel'') ?ns)"
    by (simp add: conj_commute)
  then have "length (filter (\<lambda>r. nr_purpose r = ''sentinel'' \<and> nr_usage_sequence r = 1) ?ns) = 1"
    by (simp add: c(3,4))
  moreover have "\<not> list_ex (\<lambda>r. 1 < nr_usage_sequence r \<and> nr_purpose r \<noteq> ''profile'') ?ns"
    using c(4,5) by (force simp: list_ex_iff)
  moreover have "\<not> list_ex (foreign_row i) ?ns" "?ns \<noteq> []" using inv by (auto simp: list_all_iff list_ex_iff)
  moreover have "\<not> list_ex (invalid_wrapped i db) (kt_wrapped db)" "\<not> list_ex (orphan_committed db) ?ns"
    using assms(2) by (auto simp: wrapped_inv_def list_all_iff list_ex_iff)
  ultimately show ?thesis
    using c(1-3) unfolding validate_ledger_def ledger_ok_def Let_def by simp
qed

lemma state_of_value [simp]: "catalog_state_of (catalog_state_value s) = Some s"
  by (cases s) (simp_all add: catalog_state_of_def)

lemma row_parses:
  assumes "identity_wf i"
  shows "kek_of_row (current_row i commitment s v used) = Some (ci_active_kek i)"
    and "identity_of_row (ci_active_kek i) (current_row i commitment s v used) = Some i"
    and "parse_uuid4 (cr_installation_id (current_row i commitment s v used)) = Some (ci_installation_id i)"
    and "parse_uuid4 (cr_catalog_id (current_row i commitment s v used)) = Some (ci_catalog_id i)"
proof -
  have i: "\<lparr>ci_installation_id = ci_installation_id i, ci_catalog_id = ci_catalog_id i, ci_sentinel_id = ci_sentinel_id i,
      ci_active_kek = ci_active_kek i, ci_usage_limit = ci_usage_limit i, ci_schema_version = ci_schema_version i\<rparr> = i"
    by simp
  show "kek_of_row (current_row i commitment s v used) = Some (ci_active_kek i)"
    "parse_uuid4 (cr_installation_id (current_row i commitment s v used)) = Some (ci_installation_id i)"
    "parse_uuid4 (cr_catalog_id (current_row i commitment s v used)) = Some (ci_catalog_id i)"
    using assms
    by (simp_all add: identity_wf_def active_kek_ref_ok_def kek_of_row_def current_row_def initial_row_def parse_uuid_text)
  show "identity_of_row (ci_active_kek i) (current_row i commitment s v used) = Some i"
    using assms
    by (simp add: identity_wf_def identity_of_row_def current_row_def initial_row_def parse_uuid_text Let_def i)
qed

definition loaded :: "catalog_identity \<Rightarrow> catalog_state \<Rightarrow> int \<Rightarrow> key_tables \<Rightarrow> catalog_snapshot" where
  "loaded i s v db = \<lparr>cs_identity = i, cs_state = s, cs_revision = v, cs_sentinel =
     map_option (\<lambda>x. \<lparr>rs_kek_ref = ci_active_kek i, rs_installation_id = ci_installation_id i,
       rs_catalog_id = ci_catalog_id i, rs_sentinel_id = ci_sentinel_id i, rs_nonce = nr_nonce (hd (kt_nonces db)),
       rs_ciphertext = sr_ciphertext x, rs_format_version = 1, rs_aad_version = 1, rs_suite = ''A256GCM''\<rparr>)
     (kt_sentinel db)\<rparr>"

lemma loaded_fields [simp]:
  "cs_identity (loaded i s v db) = i" "cs_state (loaded i s v db) = s" "cs_revision (loaded i s v db) = v"
  by (simp_all add: loaded_def)

lemma sentinel_loads:
  assumes "identity_wf i" and "ledger_inv i (kt_nonces db)" and "sentinel_inv i s db"
  shows "load_sentinel (ci_active_kek i) (current_row i commitment s v used) db = Inr (cs_sentinel (loaded i s v db))"
proof (cases "kt_sentinel db")
  case (Some x)
  let ?n = "hd (kt_nonces db)"
  have n: "?n \<in> set (kt_nonces db)" using assms(2) by (auto simp: ledger_inv_def)
  have ok: "nonce_row_ok ?n" "nr_purpose ?n = ''sentinel''"
    using assms(2) n by (auto simp: ledger_inv_def list_all_iff)
  show ?thesis
    using reservation_row_get [OF assms(2) n] assms(1,3) ok Some row_parses(3,4) [OF assms(1)]
    by (simp add: load_sentinel_def sentinel_inv_def loaded_def sentinel_of_row_def then_do_def value_of_def
        parse_uuid_text identity_wf_def readiness_sentinel_ok_def key_consts nonce_row_ok_def)
qed (simp add: load_sentinel_def loaded_def)

lemma inv_loads:
  assumes "identity_wf i" and "catalog_inv i db"
  obtains commitment s v where "load_snapshot db = Inr (loaded i s v db)" and "length commitment = 32" and "1 \<le> v"
    and "kt_catalog db = Some (current_row i commitment s v (len (kt_nonces db)))" and "sentinel_inv i s db"
proof -
  note inv = assms(2) [unfolded catalog_inv_def]
  obtain commitment s v where c: "kt_catalog db = Some (current_row i commitment s v (len (kt_nonces db)))"
      "length commitment = 32" "1 \<le> v" "sentinel_inv i s db"
    using inv by blast
  have "catalog_snapshot_ok \<lparr>cs_identity = i, cs_state = s, cs_revision = v, cs_sentinel = cs_sentinel (loaded i s v db)\<rparr>"
    using c(3,4) by (auto simp: catalog_snapshot_ok_def loaded_def sentinel_inv_def sentinel_matches_def split: option.splits)
  moreover have "cr_state (current_row i commitment s v (len (kt_nonces db))) = catalog_state_value s"
    "cr_source_commitment (current_row i commitment s v (len (kt_nonces db))) = commitment"
    "cr_usage_reserved (current_row i commitment s v (len (kt_nonces db))) = len (kt_nonces db)"
    "cr_revision (current_row i commitment s v (len (kt_nonces db))) = v"
    by (simp_all add: current_row_def initial_row_def)
  moreover have "validate_ledger i (len (kt_nonces db)) db = Inr ()" using inv_validates inv by blast
  moreover have "load_sentinel (ci_active_kek i) (current_row i commitment s v (len (kt_nonces db))) db =
      Inr (cs_sentinel (loaded i s v db))"
    using sentinel_loads [OF assms(1) _ c(4)] inv by blast
  ultimately have "load_snapshot db = Inr (loaded i s v db)"
    using c(2) by (simp add: load_snapshot_def c(1) row_parses(1,2) [OF assms(1)] then_do_def value_of_def require_value_def Let_def
        loaded_def [of i s v db])
  then show thesis using that c by blast
qed


section \<open>Every operation keeps the invariant\<close>

text \<open>Rewriting a loaded snapshot in the body of a transaction.\<close>

lemma then_do_Inr [simp]: "then_do (Inr v) f = f v" and then_do_Inl [simp]: "then_do (Inl e) f = Inl e"
  by (simp_all add: then_do_def)

lemma then_do_eq_Inr: "then_do x f = Inr y \<longleftrightarrow> (\<exists>v. x = Inr v \<and> f v = Inr y)"
  by (cases x) simp_all

lemma current_row_sel [simp]:
  "cr_state (current_row i c s v u) = catalog_state_value s" "cr_revision (current_row i c s v u) = v"
  "cr_usage_reserved (current_row i c s v u) = u" "cr_catalog_id (current_row i c s v u) = uuid_text (ci_catalog_id i)"
  "current_row i c s v u\<lparr>cr_revision := v'\<rparr> = current_row i c s v' u"
  "current_row i c s v u\<lparr>cr_usage_reserved := u', cr_revision := v'\<rparr> = current_row i c s v' u'"
  "current_row i c s v u\<lparr>cr_state := catalog_state_value s', cr_revision := v'\<rparr> = current_row i c s' v' u"
  by (simp_all add: current_row_def initial_row_def)

lemma state_values [simp]:
  "catalog_state_value s = ''preparing'' \<longleftrightarrow> s = K_PREPARING" "catalog_state_value s = ''active'' \<longleftrightarrow> s = K_ACTIVE"
  by (cases s; simp)+

lemma reservation_fields [simp]:
  "nr_reservation_id (reservation_for i rid nonce purpose q b) = uuid_text rid"
  "nr_nonce (reservation_for i rid nonce purpose q b) = nonce"
  "nr_purpose (reservation_for i rid nonce purpose q b) = purpose"
  "nr_lifecycle (reservation_for i rid nonce purpose q b) = ''reserved''"
  "nr_usage_sequence (reservation_for i rid nonce purpose q b) = q"
  "nr_catalog_id (reservation_for i rid nonce purpose q b) = uuid_text (ci_catalog_id i)"
  "nr_profile_id (reservation_for i rid nonce purpose q b) = map_option (uuid_text \<circ> pb_profile_id) b"
  "nr_profile_key_version (reservation_for i rid nonce purpose q b) = map_option pb_profile_key_version b"
  "\<not> foreign_row i (reservation_for i rid nonce purpose q b)"
  by (simp_all add: reservation_for_def foreign_row_def)

lemma insert_nonce_Inr:
  "insert_nonce r db = Inr db' \<longleftrightarrow>
     nonce_row_ok r \<and> \<not> list_ex (nonce_rows_clash r) (kt_nonces db) \<and>
     map_option cr_catalog_id (kt_catalog db) = Some (nr_catalog_id r) \<and> db' = db\<lparr>kt_nonces := kt_nonces db @ [r]\<rparr>"
  by (auto simp: insert_nonce_def)

lemma update_catalog_Inr:
  assumes "kt_catalog db = Some c"
  shows "update_catalog cond f db = Inr (1, db') \<longleftrightarrow> cond c \<and> catalog_row_ok (f c) \<and> db' = db\<lparr>kt_catalog := Some (f c)\<rparr>"
  using assms by (auto simp: update_catalog_def)

lemma begin_inv:
  assumes "identity_wf i" and "length commitment = 32" and "kt_nonces db = []" and "kt_wrapped db = []"
    and "kt_sentinel db = None" and "begin_initialization_body rid i nonce commitment db = Inr (v, db')"
  shows "catalog_inv i db'" and "v = rid" and "nr_nonce (hd (kt_nonces db')) = nonce"
proof -
  let ?r = "reservation_for i rid nonce ''sentinel'' 1 None"
  have db': "db' = db\<lparr>kt_catalog := Some (initial_row i commitment), kt_nonces := [?r]\<rparr>" "v = rid" "nonce_row_ok ?r"
    using assms(3,6)
    by (auto simp: begin_initialization_body_def then_do_eq_Inr insert_catalog_def insert_nonce_Inr split: if_splits)
  have "initial_row i commitment = current_row i commitment K_PREPARING 1 1"
    by (simp add: current_row_def initial_row_def)
  moreover have "\<not> orphan_committed db' ?r" by (simp add: orphan_committed_def)
  moreover have "2 \<le> ci_usage_limit i" using assms(1) by (simp add: identity_wf_def catalog_identity_ok_def)
  ultimately show "catalog_inv i db'"
    using assms(2,4,5) db' by (auto simp: catalog_inv_def ledger_inv_def wrapped_inv_def sentinel_inv_def)
  show "v = rid" "nr_nonce (hd (kt_nonces db')) = nonce" using db' by simp_all
qed

lemma find_append: "find P (xs @ ys) = (case find P xs of None \<Rightarrow> find P ys | Some x \<Rightarrow> Some x)"
  by (induction xs) simp_all

lemma find_map: "find P (map f xs) = map_option f (find (\<lambda>x. P (f x)) xs)"
  by (induction xs) simp_all

lemma map_seq_append:
  assumes "map f ns = [1..len ns]" and "f r = len ns + 1"
  shows "map f (ns @ [r]) = [1..len (ns @ [r])]"
proof -
  have "[1..len ns + 1] = [1..len ns] @ [len ns + 1]" using upto_rec2 [of 1 "len ns + 1"] by simp
  then show ?thesis using assms by (simp add: add.commute)
qed

lemma ledger_append:
  assumes "ledger_inv i ns" and "nonce_row_ok r" and "\<not> foreign_row i r" and "nr_purpose r = ''profile''"
    and "nr_usage_sequence r = len ns + 1" and "\<not> list_ex (nonce_rows_clash r) ns"
  shows "ledger_inv i (ns @ [r])"
proof (rule ledger_invI)
  note inv = ledger_invD [OF assms(1)]
  show "map nr_usage_sequence (ns @ [r]) = [1..len (ns @ [r])]" by (rule map_seq_append [OF inv(2) assms(5)])
  show "sorted_wrt (\<lambda>a b. \<not> nonce_rows_clash b a) (ns @ [r])"
    using inv(7) assms(6) by (auto simp: sorted_wrt_append list_ex_iff)
  show "nr_purpose (hd (ns @ [r])) = ''sentinel''" using inv(1,3) by simp
  show "nr_purpose x = ''profile''" if "x \<in> set (tl (ns @ [r]))" for x using that inv(1,4) assms(4) by auto
  show "nonce_row_ok x \<and> \<not> foreign_row i x" if "x \<in> set (ns @ [r])" for x using that inv(5,6) assms(2,3) by auto
qed simp

text \<open>A row that is added reserved changes nothing for the published keys.\<close>

lemma wrapped_append:
  assumes "wrapped_inv i db" and "nr_lifecycle r = ''reserved''" and "kt_nonces db' = kt_nonces db @ [r]"
    and "kt_wrapped db' = kt_wrapped db"
  shows "wrapped_inv i db'"
proof -
  have "\<not> invalid_wrapped i db' w" if "\<not> invalid_wrapped i db w" for w
    using that by (auto simp: invalid_wrapped_def reservation_row_def assms(3) find_append split: option.splits)
  moreover have "orphan_committed db' n = orphan_committed db n" for n
    by (simp add: orphan_committed_def assms(4))
  moreover have "\<not> orphan_committed db' r" using assms(2) by (simp add: orphan_committed_def)
  ultimately show ?thesis using assms(1) by (auto simp: wrapped_inv_def assms(3,4) list_all_iff)
qed

lemma reserve_effect:
  assumes "identity_wf i" and "catalog_inv i db" and "reserve_body rid b nonce db = Inr (x, db')"
  obtains commitment v where "x = rid" and "kt_catalog db = Some (current_row i commitment K_ACTIVE v (len (kt_nonces db)))"
    and "len (kt_nonces db) < ci_usage_limit i" and "profile_row b db = None"
    and "insert_nonce (reservation_for i rid nonce ''profile'' (len (kt_nonces db) + 1) (Some b)) db =
      Inr (db\<lparr>kt_nonces := kt_nonces db @ [reservation_for i rid nonce ''profile'' (len (kt_nonces db) + 1) (Some b)]\<rparr>)"
    and "db' = db\<lparr>kt_nonces := kt_nonces db @ [reservation_for i rid nonce ''profile'' (len (kt_nonces db) + 1) (Some b)],
      kt_catalog := Some (current_row i commitment K_ACTIVE (v + 1) (len (kt_nonces db) + 1))\<rparr>"
    and "length commitment = 32" and "1 \<le> v" and "sentinel_inv i K_ACTIVE db"
    and "pb_installation_id b = ci_installation_id i" and "pb_catalog_schema_version b = ci_schema_version i"
proof -
  obtain commitment s v where l: "load_snapshot db = Inr (loaded i s v db)" "length commitment = 32" "1 \<le> v"
      "kt_catalog db = Some (current_row i commitment s v (len (kt_nonces db)))" "sentinel_inv i s db"
    using inv_loads [OF assms(1,2)] by blast
  have active: "s = K_ACTIVE" using assms(3) by (auto simp: reserve_body_def l(1) assert_active_binding_def split: if_splits)
  show thesis
    using assms(3) l(2-5)
    by (intro that [of commitment v])
      (auto simp: reserve_body_def l(1,4) active assert_active_binding_def then_do_eq_Inr insert_nonce_def update_catalog_def
        split: if_splits)
qed

lemma reserve_inv:
  assumes "identity_wf i" and "catalog_inv i db" and "reserve_body rid b nonce db = Inr (x, db')"
  shows "catalog_inv i db'"
  using assms
proof (cases rule: reserve_effect)
  case (1 commitment v)
  let ?r = "reservation_for i rid nonce ''profile'' (len (kt_nonces db) + 1) (Some b)"
  note inv = assms(2) [unfolded catalog_inv_def]
  have led: "ledger_inv i (kt_nonces db)" and wr: "wrapped_inv i db" using inv by blast+
  have new: "nonce_row_ok ?r" "\<not> list_ex (nonce_rows_clash ?r) (kt_nonces db)" using 1(5) by (simp_all add: insert_nonce_Inr)
  have "ledger_inv i (kt_nonces db')" using ledger_append [OF led new(1) _ _ _ new(2)] by (simp add: 1(6))
  moreover have "wrapped_inv i db'" by (rule wrapped_append [OF wr, of ?r]) (simp_all add: 1(6))
  moreover have "sentinel_inv i K_ACTIVE db'"
    using 1(9) ledger_invD(1) [OF led] by (auto simp: sentinel_inv_def 1(6) split: option.splits)
  ultimately show ?thesis
    using 1(3,7,8) by (intro catalog_invI [of _ _ commitment K_ACTIVE "v + 1"]) (simp_all add: 1(6) add.commute)
qed


text \<open>Committing a reservation keeps everything of a row but its lifecycle.\<close>

definition committed_row :: "string \<Rightarrow> nonce_row \<Rightarrow> nonce_row" where
  "committed_row rid r = (if nr_reservation_id r = rid \<and> nr_lifecycle r = ''reserved'' then r\<lparr>nr_lifecycle := ''committed''\<rparr> else r)"

lemma committed_row_fields [simp]:
  "nr_reservation_id (committed_row rid r) = nr_reservation_id r" "nr_nonce (committed_row rid r) = nr_nonce r"
  "nr_purpose (committed_row rid r) = nr_purpose r" "nr_usage_sequence (committed_row rid r) = nr_usage_sequence r"
  "nr_profile_id (committed_row rid r) = nr_profile_id r"
  "nr_profile_key_version (committed_row rid r) = nr_profile_key_version r"
  "foreign_row i (committed_row rid r) = foreign_row i r" "nonce_row_ok r \<Longrightarrow> nonce_row_ok (committed_row rid r)"
  "nonce_rows_clash (committed_row rid r) (committed_row rid q) = nonce_rows_clash r q"
  "nr_lifecycle r = ''committed'' \<Longrightarrow> nr_lifecycle (committed_row rid r) = ''committed''"
  by (auto simp: committed_row_def foreign_row_def nonce_row_ok_def nonce_rows_clash_def nonce_domain_def)

lemma ledger_commit:
  assumes "ledger_inv i ns"
  shows "ledger_inv i (map (committed_row rid) ns)"
proof (rule ledger_invI)
  note inv = ledger_invD [OF assms]
  have "nr_usage_sequence \<circ> committed_row rid = nr_usage_sequence" by (simp add: fun_eq_iff)
  then show "map nr_usage_sequence (map (committed_row rid) ns) = [1..len (map (committed_row rid) ns)]"
    unfolding map_map length_map using inv(2) by simp
  show "sorted_wrt (\<lambda>a b. \<not> nonce_rows_clash b a) (map (committed_row rid) ns)"
    using inv(7) by (simp add: sorted_wrt_map)
  show "nr_purpose (hd (map (committed_row rid) ns)) = ''sentinel''" using inv(1,3) by (simp add: hd_map)
  show "nr_purpose x = ''profile''" if "x \<in> set (tl (map (committed_row rid) ns))" for x
    using that inv(4) by (auto simp: map_tl [symmetric])
  show "nonce_row_ok x \<and> \<not> foreign_row i x" if "x \<in> set (map (committed_row rid) ns)" for x
    using that inv(5,6) by auto
qed (use ledger_invD(1) [OF assms] in simp)

lemma commit_reservation_eq:
  "commit_reservation rid db = (length (filter (\<lambda>r. nr_reservation_id r = rid \<and> nr_lifecycle r = ''reserved'') (kt_nonces db)),
     db\<lparr>kt_nonces := map (committed_row rid) (kt_nonces db)\<rparr>)"
  by (simp add: commit_reservation_def committed_row_def Let_def)

lemma reservation_row_commit:
  assumes "kt_nonces db' = map (committed_row rid) (kt_nonces db)"
  shows "reservation_row x db' = map_option (committed_row rid) (reservation_row x db)"
  by (simp add: reservation_row_def assms find_map)

lemma invalid_commit:
  assumes "kt_nonces db' = map (committed_row rid) (kt_nonces db)" and "\<not> invalid_wrapped i db w"
  shows "\<not> invalid_wrapped i db' w"
  using assms(2) by (auto simp: invalid_wrapped_def reservation_row_commit [OF assms(1)] split: option.splits)

lemma valid_wrapped_committed:
  "wrapped_inv i db \<Longrightarrow> w \<in> set (kt_wrapped db) \<Longrightarrow> reservation_row (ww_reservation_id w) db = Some r \<Longrightarrow>
     nr_lifecycle r = ''committed'' \<and> nr_purpose r = ''profile'' \<and> \<not> foreign_row i r"
  by (auto simp: wrapped_inv_def list_all_iff invalid_wrapped_def)

definition published_row :: "uuid \<Rightarrow> wrapped_profile_key \<Rightarrow> wrapped_row" where
  "published_row rid w =
     \<lparr>ww_profile_id = uuid_text (pb_profile_id (wk_binding w)),
      ww_profile_key_version = pb_profile_key_version (wk_binding w),
      ww_catalog_schema_version = pb_catalog_schema_version (wk_binding w),
      ww_installation_id = uuid_text (pb_installation_id (wk_binding w)),
      ww_reservation_id = uuid_text rid, ww_format_version = wk_format_version w,
      ww_aad_version = wk_aad_version w, ww_suite = wk_suite w, ww_ciphertext = wk_ciphertext w\<rparr>"

lemma publish_effect:
  assumes "identity_wf i" and "catalog_inv i db" and "publish_body rid (wk_binding w) (wk_nonce w) w db = Inr (x, db')"
  obtains commitment v r where "kt_catalog db = Some (current_row i commitment K_ACTIVE v (len (kt_nonces db)))"
    and "reservation_row (uuid_text rid) db = Some r" and "nr_lifecycle r = ''reserved''" and "nr_purpose r = ''profile''"
    and "nr_nonce r = wk_nonce w" and "nr_profile_id r = Some (uuid_text (pb_profile_id (wk_binding w)))"
    and "nr_profile_key_version r = Some (pb_profile_key_version (wk_binding w))" and "\<not> foreign_row i r"
    and "profile_row (wk_binding w) db = None" and "wrapped_row_ok (published_row rid w)"
    and "db' = db\<lparr>kt_wrapped := kt_wrapped db @ [published_row rid w], kt_nonces := map (committed_row (uuid_text rid)) (kt_nonces db),
      kt_catalog := Some (current_row i commitment K_ACTIVE (v + 1) (len (kt_nonces db)))\<rparr>"
    and "length commitment = 32" and "1 \<le> v" and "sentinel_inv i K_ACTIVE db" and "wk_kek_ref w = ci_active_kek i"
    and "pb_installation_id (wk_binding w) = ci_installation_id i" and "pb_catalog_schema_version (wk_binding w) = ci_schema_version i"
    and "\<forall>x \<in> set (kt_wrapped db). ww_reservation_id x \<noteq> uuid_text rid"
proof -
  obtain commitment s v where l: "load_snapshot db = Inr (loaded i s v db)" "length commitment = 32" "1 \<le> v"
      "kt_catalog db = Some (current_row i commitment s v (len (kt_nonces db)))" "sentinel_inv i s db"
    using inv_loads [OF assms(1,2)] by blast
  have active: "s = K_ACTIVE" using assms(3) by (auto simp: publish_body_def l(1) assert_active_binding_def split: if_splits)
  note body = assms(3) [unfolded publish_body_def l(1) then_do_Inr published_row_def [symmetric] active]
  obtain r where r: "reservation_row (uuid_text rid) db = Some r"
      "reservation_matches (loaded i K_ACTIVE v db) (wk_binding w) (wk_nonce w) ''reserved'' r"
    using body by (auto simp: then_do_eq_Inr split: if_splits option.splits)
  have ins: "insert_wrapped (published_row rid w) db = Inr (db\<lparr>kt_wrapped := kt_wrapped db @ [published_row rid w]\<rparr>)"
    using body by (auto simp: then_do_eq_Inr insert_wrapped_def split: if_splits)
  show thesis
  proof (rule that [of commitment v r])
    show "db' = db\<lparr>kt_wrapped := kt_wrapped db @ [published_row rid w],
        kt_nonces := map (committed_row (uuid_text rid)) (kt_nonces db),
        kt_catalog := Some (current_row i commitment K_ACTIVE (v + 1) (len (kt_nonces db)))\<rparr>"
      using body by (auto simp: then_do_eq_Inr ins commit_reservation_eq update_catalog_def l(4) active split: if_splits)
    show "wrapped_row_ok (published_row rid w)" "\<forall>x \<in> set (kt_wrapped db). ww_reservation_id x \<noteq> uuid_text rid"
      using ins by (auto simp: insert_wrapped_def published_row_def list_ex_iff split: if_splits)
    show "profile_row (wk_binding w) db = None" "wk_kek_ref w = ci_active_kek i"
      "pb_installation_id (wk_binding w) = ci_installation_id i" "pb_catalog_schema_version (wk_binding w) = ci_schema_version i"
      using body by (auto simp: assert_active_binding_def then_do_eq_Inr split: if_splits)
  qed (use l active r in \<open>auto simp: reservation_matches_def\<close>)
qed

lemma publish_wrapped:
  assumes "ledger_inv i (kt_nonces db)" and "wrapped_inv i db" and "reservation_row (uuid_text rid) db = Some r"
    and "nr_lifecycle r = ''reserved''" and "nr_purpose r = ''profile''" and "\<not> foreign_row i r"
    and "nr_profile_id r = Some (ww_profile_id w)" and "nr_profile_key_version r = Some (ww_profile_key_version w)"
    and "ww_reservation_id w = uuid_text rid" and "wrapped_row_ok w" and "ww_installation_id w = uuid_text (ci_installation_id i)"
    and "ww_catalog_schema_version w = ci_schema_version i"
    and "kt_nonces db' = map (committed_row (uuid_text rid)) (kt_nonces db)" and "kt_wrapped db' = kt_wrapped db @ [w]"
    and "\<forall>x \<in> set (kt_wrapped db). ww_reservation_id x \<noteq> uuid_text rid"
  shows "wrapped_inv i db'"
proof -
  let ?c = "committed_row (uuid_text rid)"
  note inv = assms(2) [unfolded wrapped_inv_def list_all_iff] and get = reservation_row_commit [OF assms(13)]
  have r: "r \<in> set (kt_nonces db)" "nr_reservation_id r = uuid_text rid" using reservation_row_set [OF assms(3)] by auto
  have valid: "\<not> invalid_wrapped i db' w"
    using assms(4-12) r(2) by (simp add: invalid_wrapped_def get assms(3) committed_row_def foreign_row_def)
  have absent: "find (\<lambda>x. ww_reservation_id x = uuid_text rid) (kt_wrapped db) = None"
    using assms(15) by (simp add: find_None_iff)
  have "\<not> orphan_committed db' (?c n)" if n: "n \<in> set (kt_nonces db)" for n
  proof (cases "nr_reservation_id n = uuid_text rid")
    case True
    then have "n = r" using reservation_row_get [OF assms(1) n] assms(3) by simp
    then show ?thesis
      using True absent assms(7-9) by (simp add: orphan_committed_def assms(14) find_append)
  next
    case False
    then have "?c n = n" by (simp add: committed_row_def)
    then show ?thesis using inv n by (auto simp: orphan_committed_def assms(14) find_append split: option.splits)
  qed
  then have "\<forall>n \<in> set (kt_nonces db'). \<not> orphan_committed db' n" by (auto simp: assms(13))
  moreover have "distinct (map ww_reservation_id (kt_wrapped db'))" using inv assms(9,15) by (auto simp: assms(14))
  moreover have "wrapped_row_ok x \<and> \<not> invalid_wrapped i db' x" if "x \<in> set (kt_wrapped db')" for x
    using that inv valid assms(10) invalid_commit [OF assms(13)] by (auto simp: assms(14))
  ultimately show ?thesis by (simp add: wrapped_inv_def list_all_iff)
qed

lemma publish_inv:
  assumes "identity_wf i" and "catalog_inv i db" and "publish_body rid (wk_binding w) (wk_nonce w) w db = Inr (x, db')"
  shows "catalog_inv i db'"
  using assms
proof (cases rule: publish_effect)
  case (1 commitment v r)
  note inv = assms(2) [unfolded catalog_inv_def]
  have led: "ledger_inv i (kt_nonces db)" and wr: "wrapped_inv i db" and lim: "len (kt_nonces db) \<le> ci_usage_limit i"
    using inv by blast+
  have "wrapped_inv i db'"
    using 1 by (intro publish_wrapped [OF led wr 1(2-4,8)]) (simp_all add: published_row_def)
  moreover have "ledger_inv i (kt_nonces db')" using ledger_commit [OF led] by (simp add: 1(11))
  moreover have "sentinel_inv i K_ACTIVE db'"
    using 1(14) ledger_invD(1) [OF led] by (auto simp: sentinel_inv_def 1(11) hd_map split: option.splits)
  ultimately show ?thesis
    using lim 1(12,13) by (intro catalog_invI [of _ _ commitment K_ACTIVE "v + 1"]) (simp_all add: 1(11))
qed

lemma finish_inv:
  assumes "identity_wf i" and "catalog_inv i db" and "stage_initialization_finish rid x db = Inr db'"
  shows "catalog_inv i db'" and "kt_wrapped db' = kt_wrapped db"
    and "kt_nonces db' = map (committed_row (uuid_text rid)) (kt_nonces db)"
proof -
  obtain commitment s v where l: "load_snapshot db = Inr (loaded i s v db)" "length commitment = 32" "1 \<le> v"
      "kt_catalog db = Some (current_row i commitment s v (len (kt_nonces db)))" "sentinel_inv i s db"
    using inv_loads [OF assms(1,2)] by blast
  have s: "s = K_PREPARING" using assms(3) by (auto simp: stage_initialization_finish_def l(1) split: if_splits)
  note inv = assms(2) [unfolded catalog_inv_def] and body = assms(3) [unfolded stage_initialization_finish_def l(1) then_do_Inr s]
  have led: "ledger_inv i (kt_nonces db)" and wr: "wrapped_inv i db" and lim: "len (kt_nonces db) \<le> ci_usage_limit i"
    using inv by blast+
  obtain row where row: "db' = db\<lparr>kt_sentinel := Some row, kt_nonces := map (committed_row (uuid_text rid)) (kt_nonces db),
      kt_catalog := Some (current_row i commitment K_ACTIVE (v + 1) (len (kt_nonces db)))\<rparr>"
      "sr_sentinel_id row = uuid_text (ci_sentinel_id i)" "sr_reservation_id row = uuid_text rid" "sr_format_version row = 1"
      "sr_aad_version row = 1" "sr_suite row = ''A256GCM''" "length (sr_ciphertext row) = 48"
    using body current_row_sel(7) [where i = i and c = commitment and s = K_PREPARING and v = v and s' = K_ACTIVE]
    by (auto simp: then_do_eq_Inr insert_sentinel_def commit_reservation_eq update_catalog_def l(4) s
        split: if_splits option.splits)
  show "kt_wrapped db' = kt_wrapped db" "kt_nonces db' = map (committed_row (uuid_text rid)) (kt_nonces db)"
    by (simp_all add: row(1))
  obtain r where r: "reservation_row (uuid_text rid) db = Some r" "nr_purpose r = ''sentinel''"
    using body by (auto split: option.splits if_splits)
  have n: "kt_nonces db = [r]" "nr_reservation_id r = uuid_text rid" "nr_lifecycle r = ''reserved''"
  proof -
    have "r = hd (kt_nonces db)" using ledger_counts(5) [OF led] reservation_row_set [OF r(1)] r(2) by auto
    moreover have "tl (kt_nonces db) = []" "nr_lifecycle (hd (kt_nonces db)) = ''reserved''"
      using l(5) s by (auto simp: sentinel_inv_def split: option.splits)
    ultimately show "kt_nonces db = [r]" "nr_lifecycle r = ''reserved''" using ledger_invD(1) [OF led]
      by (cases "kt_nonces db"; simp)+
    show "nr_reservation_id r = uuid_text rid" using reservation_row_set [OF r(1)] by simp
  qed
  have "sentinel_inv i K_ACTIVE db'" using n row(2-) by (simp add: sentinel_inv_def row(1) committed_row_def)
  moreover have "ledger_inv i (kt_nonces db')" using ledger_commit [OF led] by (simp add: row(1))
  moreover have "wrapped_inv i db'"
  proof -
    have "kt_nonces db' = map (committed_row (uuid_text rid)) (kt_nonces db)" by (simp add: row(1))
    note valid = invalid_commit [OF this]
    have "\<not> orphan_committed db' (committed_row (uuid_text rid) r)" using r(2) by (simp add: orphan_committed_def)
    then show ?thesis using wr valid by (auto simp: wrapped_inv_def list_all_iff row(1) n(1))
  qed
  ultimately show "catalog_inv i db'"
    using lim l(2,3) by (intro catalog_invI [of _ _ commitment K_ACTIVE "v + 1"]) (simp_all add: row(1))
qed

lemma recover_inv:
  assumes "identity_wf i" and "catalog_inv i db" and "load_snapshot db = Inr sn" and "cs_state sn \<noteq> K_PREPARING"
    and "require_recovery_body db = Inr (x, db')"
  shows "catalog_inv i db'" and "kt_wrapped db' = kt_wrapped db" and "kt_nonces db' = kt_nonces db"
proof -
  obtain commitment s v where l: "load_snapshot db = Inr (loaded i s v db)" "length commitment = 32" "1 \<le> v"
      "kt_catalog db = Some (current_row i commitment s v (len (kt_nonces db)))" "sentinel_inv i s db"
    using inv_loads [OF assms(1,2)] by blast
  have s: "s \<noteq> K_PREPARING" using assms(3,4) l(1) by auto
  have db': "db' = db \<or> db' = db\<lparr>kt_catalog := Some (current_row i commitment K_RECOVERY_REQUIRED (v + 1) (len (kt_nonces db)))\<rparr>"
    using assms(5) current_row_sel(7) [where i = i and c = commitment and s = s and v = v and s' = K_RECOVERY_REQUIRED]
    by (auto simp: require_recovery_body_def l(1,4) then_do_eq_Inr update_catalog_def split: if_splits)
  then show same: "kt_wrapped db' = kt_wrapped db" "kt_nonces db' = kt_nonces db" by auto
  note inv = assms(2) [unfolded catalog_inv_def]
  have "wrapped_inv i db'" using inv same by (simp add: wrapped_inv_def invalid_wrapped_def orphan_committed_def reservation_row_def)
  moreover have "sentinel_inv i K_RECOVERY_REQUIRED db'"
    using l(5) s db' by (auto simp: sentinel_inv_def split: option.splits)
  ultimately show "catalog_inv i db'"
    using db' assms(2) inv l(2,3)
    by (elim disjE) (simp, intro catalog_invI [of _ _ commitment K_RECOVERY_REQUIRED "v + 1"], simp_all)
qed


section \<open>Histories\<close>

text \<open>What one committed transaction does to the tables.\<close>

inductive tables_step :: "catalog_identity \<Rightarrow> key_tables \<Rightarrow> key_tables \<Rightarrow> bool" for i where
  unchanged: "tables_step i db db"
| begun: "begin_initialization_body rid i nonce commitment db = Inr (x, db') \<Longrightarrow> length commitment = 32 \<Longrightarrow>
    tables_step i db db'"
| finished: "stage_initialization_finish rid s db = Inr db' \<Longrightarrow> tables_step i db db'"
| reserved: "reserve_body rid b nonce db = Inr (x, db') \<Longrightarrow> tables_step i db db'"
| published: "publish_body rid (wk_binding w) (wk_nonce w) w db = Inr (x, db') \<Longrightarrow> tables_step i db db'"
| recovered: "require_recovery_body db = Inr (x, db') \<Longrightarrow> tables_step i db db'"

text \<open>The calls on the catalog of one identity, in any state, with any commit faults, and restarts of the runtime.\<close>

inductive key_step :: "catalog_identity \<Rightarrow> key_store \<Rightarrow> key_store \<Rightarrow> bool" for i where
  "key_step i st (snd (begin_initialization fault rid i nonce commitment st))"
| "key_step i st (snd (finish_initialization fault rid s st))"
| "key_step i st (snd (finish_initialization_for_reconciliation fault rid s st))"
| "key_step i st (snd (reserve_profile_preparation fault rid p st))"
| "key_step i st (snd (publish_profile_key fault rid p w st))"
| "key_step i st (snd (require_recovery fault st))"
| "key_step i st (snd (load_catalog st))"
| "key_step i st (snd (load_initialization st))"
| "key_step i st (snd (load_profile_key b st))"
| "key_step i st (st\<lparr>ks_mode := m\<rparr>)"

definition empty_tables :: key_tables where
  "empty_tables = \<lparr>kt_catalog = None, kt_nonces = [], kt_sentinel = None, kt_wrapped = []\<rparr>"

definition new_key_store :: key_store where
  "new_key_store = \<lparr>ks_tables = empty_tables, ks_mode = Accepting\<rparr>"

abbreviation key_reachable :: "catalog_identity \<Rightarrow> key_store \<Rightarrow> bool" where
  "key_reachable i \<equiv> (key_step i)\<^sup>*\<^sup>* new_key_store"

lemma catalog_write_tables:
  assumes "catalog_write fault body st = (r, st')"
  shows "ks_tables st' = ks_tables st \<or> (\<exists>v. body (ks_tables st) = Inr (v, ks_tables st'))"
  using assms by (auto simp: catalog_write_def split: if_splits sum.splits body_error.splits commit_fault.splits)

lemma catalog_read_tables: "ks_tables (snd (catalog_read e body st)) = ks_tables st"
  by (auto simp: catalog_read_def split: if_splits sum.splits body_error.splits)

lemma key_step_tables:
  assumes "key_step i st st'"
  shows "tables_step i (ks_tables st) (ks_tables st')"
  using assms
proof cases
  case (1 fault rid nonce commitment)
  show ?thesis
  proof (cases "length nonce \<noteq> 12 \<or> length commitment \<noteq> 32")
    case False
    obtain r where w: "catalog_write fault (begin_initialization_body rid i nonce commitment) st = (r, st')"
      using 1 False by (metis begin_initialization_def prod.collapse)
    show ?thesis using catalog_write_tables [OF w] False by (auto intro: tables_step.unchanged tables_step.begun)
  qed (use 1 in \<open>simp add: begin_initialization_def tables_step.unchanged\<close>)
next
  case (2 fault rid s)
  let ?w = "catalog_write fault (\<lambda>db. then_do (stage_initialization_finish rid s db) (\<lambda>db'. Inr ((), db'))) st"
  obtain r st1 where w: "?w = (r, st1)" by (cases ?w)
  have "ks_tables st' = ks_tables st1"
    using 2 w by (auto simp: finish_initialization_def load_catalog_def catalog_read_tables split: sum.splits)
  then show ?thesis
    using catalog_write_tables [OF w] by (auto simp: then_do_eq_Inr intro: tables_step.unchanged tables_step.finished)
next
  case (3 fault rid s)
  then have "ks_tables st' = ks_tables st \<or> stage_initialization_finish rid s (ks_tables st) = Inr (ks_tables st')"
    by (auto simp: finish_initialization_for_reconciliation_def split: if_splits sum.splits body_error.splits commit_fault.splits)
  then show ?thesis by (auto intro: tables_step.unchanged tables_step.finished)
next
  case (4 fault rid p)
  obtain r where w: "catalog_write fault (reserve_body rid (kp_binding p) (kp_nonce p)) st = (r, st')"
    using 4 by (metis reserve_profile_preparation_def prod.collapse)
  show ?thesis using catalog_write_tables [OF w] by (auto intro: tables_step.unchanged tables_step.reserved)
next
  case (5 fault rid p w)
  show ?thesis
  proof (cases "wk_binding w \<noteq> kp_binding p \<or> wk_nonce w \<noteq> kp_nonce p")
    case False
    obtain r where "catalog_write fault (publish_body rid (wk_binding w) (wk_nonce w) w) st = (r, st')"
      using 5 False by (metis publish_profile_key_def prod.collapse)
    from catalog_write_tables [OF this] show ?thesis by (auto intro: tables_step.unchanged tables_step.published)
  qed (use 5 in \<open>simp add: publish_profile_key_def tables_step.unchanged\<close>)
next
  case (6 fault)
  show ?thesis
  proof (cases "ks_mode st = Accepting \<and> require_recovery_body (ks_tables st) = Inr ((), ks_tables st)")
    case False
    obtain r where "catalog_write fault require_recovery_body st = (r, st')"
      using 6 False by (metis require_recovery_def prod.collapse)
    from catalog_write_tables [OF this] show ?thesis by (auto intro: tables_step.unchanged tables_step.recovered)
  qed (use 6 in \<open>simp add: require_recovery_def tables_step.unchanged\<close>)
qed (simp_all add: load_catalog_def load_initialization_def load_profile_key_def catalog_read_tables tables_step.unchanged)

lemma not_initialized: "kt_catalog db = None \<Longrightarrow> load_snapshot db = Inl (Catalog_Error KF_NOT_INITIALIZED)"
  by (simp add: load_snapshot_def)

text \<open>
  Recovery may be required of a catalog that is still being prepared.  The snapshot then has no
  sentinel although it is past its preparation, so its constructor refuses it, and nothing can
  change the tables any more.
\<close>

definition unloadable :: "key_tables \<Rightarrow> bool" where
  "unloadable db \<longleftrightarrow> kt_catalog db \<noteq> None \<and> load_snapshot db \<in> {Inl Bad_Value, Inl (Catalog_Error KF_CORRUPT)}"

lemma unloadable_not_Inr [simp]: "unloadable db \<Longrightarrow> load_snapshot db \<noteq> Inr sn" "\<not> unloadable empty_tables"
  by (auto simp: unloadable_def empty_tables_def)

lemma unloadable_stays: "unloadable db \<Longrightarrow> tables_step i db db' \<Longrightarrow> db' = db"
  by (erule tables_step.cases)
    (auto simp: unloadable_def begin_initialization_body_def stage_initialization_finish_def reserve_body_def publish_body_def
      require_recovery_body_def split: if_splits)

lemma no_sentinel_unloadable:
  assumes "identity_wf i" and "kt_catalog db = Some (current_row i commitment K_RECOVERY_REQUIRED v used)" and "kt_sentinel db = None"
  shows "unloadable db"
proof -
  have none: "load_sentinel (ci_active_kek i) (current_row i commitment K_RECOVERY_REQUIRED v used) db = Inr None"
    by (simp add: load_sentinel_def assms(3))
  have bad: "\<not> catalog_snapshot_ok \<lparr>cs_identity = i, cs_state = K_RECOVERY_REQUIRED, cs_revision = r, cs_sentinel = None\<rparr>" for r
    by (simp add: catalog_snapshot_ok_def)
  show ?thesis
    unfolding unloadable_def load_snapshot_def assms(2) option.case row_parses(1,2) [OF assms(1)] current_row_sel(1) state_of_value
      value_of_def then_do_Inr none
    using bad by (simp add: require_value_def row_parses(1,2) [OF assms(1)] none Let_def validate_ledger_def)
qed

lemma recover_preparing:
  assumes "identity_wf i" and "catalog_inv i db" and "load_snapshot db = Inr sn" and "cs_state sn = K_PREPARING"
    and "require_recovery_body db = Inr (x, db')"
  shows "unloadable db'"
proof -
  obtain commitment s v where l: "load_snapshot db = Inr (loaded i s v db)"
      "kt_catalog db = Some (current_row i commitment s v (len (kt_nonces db)))" "sentinel_inv i s db"
    using inv_loads [OF assms(1,2)] by blast
  have s: "s = K_PREPARING" using assms(3,4) l(1) by auto
  then have "kt_sentinel db = None" using l(3) by (auto simp: sentinel_inv_def split: option.splits)
  moreover have "db' = db\<lparr>kt_catalog := Some (current_row i commitment K_RECOVERY_REQUIRED (v + 1) (len (kt_nonces db)))\<rparr>"
    using assms(5) current_row_sel(7) [where i = i and c = commitment and s = s and v = v and s' = K_RECOVERY_REQUIRED]
    by (auto simp: require_recovery_body_def l(1,2) s then_do_eq_Inr update_catalog_def split: if_splits)
  ultimately show ?thesis by (intro no_sentinel_unloadable [OF assms(1)]) simp_all
qed

text \<open>What \<^const>\<open>require_recovery\<close> made of a catalog under preparation.\<close>

definition bricked :: "key_tables \<Rightarrow> key_tables \<Rightarrow> bool" where
  "bricked db db' \<longleftrightarrow> (\<exists>sn. load_snapshot db = Inr sn \<and> cs_state sn = K_PREPARING \<and> require_recovery_body db = Inr ((), db'))"

lemma tables_step_inv:
  assumes "identity_wf i" and "tables_step i db db'" and "db = empty_tables \<or> catalog_inv i db"
  shows "db' = empty_tables \<or> catalog_inv i db' \<or> unloadable db' \<and> bricked db db'"
proof -
  have none: "load_snapshot empty_tables = Inl (Catalog_Error KF_NOT_INITIALIZED)"
    by (simp add: empty_tables_def not_initialized)
  show ?thesis
    using assms(2)
  proof cases
    case unchanged
    then show ?thesis using assms(3) by blast
  next
    case (begun rid nonce commitment x)
    then have "kt_catalog db = None" by (auto simp: begin_initialization_body_def split: if_splits)
    then have "db = empty_tables" using assms(3) by (auto simp: catalog_inv_def)
    then show ?thesis using begin_inv(1) [OF assms(1) begun(2) _ _ _ begun(1)] by (simp add: empty_tables_def)
  next
    case (finished rid s)
    then show ?thesis using assms(3) finish_inv(1) [OF assms(1)] none by (auto simp: stage_initialization_finish_def)
  next
    case (reserved rid b nonce x)
    then show ?thesis using assms(3) reserve_inv [OF assms(1)] none by (auto simp: reserve_body_def)
  next
    case (published rid w x)
    then show ?thesis using assms(3) publish_inv [OF assms(1)] none by (auto simp: publish_body_def)
  next
    case (recovered x)
    then obtain sn where sn: "load_snapshot db = Inr sn" by (auto simp: require_recovery_body_def then_do_eq_Inr)
    then have inv: "catalog_inv i db" using assms(3) none by auto
    show ?thesis
    proof (cases "cs_state sn = K_PREPARING")
      case True
      then show ?thesis using recover_preparing [OF assms(1) inv sn True recovered] sn recovered by (auto simp: bricked_def)
    next
      case False
      then show ?thesis using recover_inv(1) [OF assms(1) inv sn False recovered] by blast
    qed
  qed
qed

lemma key_reachable_inv:
  assumes "identity_wf i" and "key_reachable i st"
  shows "ks_tables st = empty_tables \<or> catalog_inv i (ks_tables st) \<or>
    unloadable (ks_tables st) \<and> (\<exists>st0. key_reachable i st0 \<and> bricked (ks_tables st0) (ks_tables st))"
  using assms(2)
proof induction
  case (step st st')
  note t = key_step_tables [OF step.hyps(2)]
  show ?case
  proof (cases "unloadable (ks_tables st)")
    case True
    then show ?thesis using step.IH unloadable_stays [OF True t] by (auto simp: catalog_inv_def)
  next
    case False
    then show ?thesis using tables_step_inv [OF assms(1) t] step.IH step.hyps(1) by blast
  qed
qed (simp add: new_key_store_def)

lemma loadable_inv:
  assumes "identity_wf i" and "key_reachable i st" and "load_snapshot (ks_tables st) = Inr sn"
  shows "catalog_inv i (ks_tables st)"
  using key_reachable_inv [OF assms(1,2)] assms(3) by (auto simp: empty_tables_def not_initialized)

end
