(* ===== verification/Key_Catalog_Properties.thy ===== *)
theory Key_Catalog_Properties
  imports Key_Catalog_Guarantees Sample_Ids
begin

text \<open>
  What the key catalog promises its service: reachable tables load, nonces are unique, published
  keys are permanent, reservation and publication complete, usage is bounded; and the state that
  a recovery request makes of a catalog under preparation.
\<close>


section \<open>Published keys\<close>

lemma uuid_text_inject: "uuid4 u \<Longrightarrow> uuid4 v \<Longrightarrow> uuid_text u = uuid_text v \<longleftrightarrow> u = v"
  by (metis option.inject parse_uuid_text)

text \<open>A key is stored under a binding with the row of its nonce.\<close>

definition stored :: "key_tables \<Rightarrow> profile_key_binding \<Rightarrow> wrapped_row \<Rightarrow> nonce_row \<Rightarrow> bool" where
  "stored db b row r \<longleftrightarrow>
     profile_row b db = Some row \<and> reservation_row (ww_reservation_id row) db = Some r \<and> nr_lifecycle r = ''committed''"

definition key_of_rows :: "catalog_identity \<Rightarrow> profile_key_binding \<Rightarrow> wrapped_row \<Rightarrow> nonce_row \<Rightarrow> wrapped_profile_key" where
  "key_of_rows i b row r = \<lparr>wk_kek_ref = ci_active_kek i, wk_binding = b, wk_nonce = nr_nonce r,
     wk_ciphertext = ww_ciphertext row, wk_format_version = ww_format_version row,
     wk_aad_version = ww_aad_version row, wk_suite = ww_suite row\<rparr>"

lemma profile_row_set:
  "profile_row b db = Some row \<Longrightarrow> row \<in> set (kt_wrapped db) \<and> ww_profile_id row = uuid_text (pb_profile_id b) \<and>
     ww_profile_key_version row = pb_profile_key_version b"
  by (auto simp: profile_row_def find_Some_iff)

lemma load_profile_Inr:
  assumes "load_profile_key b st = (Inr x, st')"
  shows "st' = st" and "ks_mode st = Accepting" and "load_profile_body b (ks_tables st) = Inr x"
  using assms by (auto simp: load_profile_key_def catalog_read_def split: if_splits sum.splits body_error.splits)

lemma load_profile_body_Inr:
  assumes "identity_wf i" and "catalog_inv i db" and "load_profile_body b db = Inr x"
  shows "pb_installation_id b = ci_installation_id i" and "pb_catalog_schema_version b = ci_schema_version i"
    and "x = None \<Longrightarrow> profile_row b db = None"
    and "x = Some w \<Longrightarrow> \<exists>row r. stored db b row r \<and> w = key_of_rows i b row r"
proof -
  obtain commitment s v where l: "load_snapshot db = Inr (loaded i s v db)"
    using inv_loads [OF assms(1,2)] by blast
  note body = assms(3) [unfolded load_profile_body_def l then_do_Inr]
  show "pb_installation_id b = ci_installation_id i" "pb_catalog_schema_version b = ci_schema_version i"
    using body by (auto simp: assert_active_binding_def split: if_splits)
  have k: "stored_key (loaded i s v db) b db = Inr x" using body by (auto simp: then_do_eq_Inr)
  show "profile_row b db = None" if "x = None"
    using k that by (auto simp: stored_key_def then_do_eq_Inr Let_def split: option.splits if_splits)
  show "\<exists>row r. stored db b row r \<and> w = key_of_rows i b row r" if "x = Some w"
    using k that by (auto simp: stored_key_def stored_def key_of_rows_def then_do_eq_Inr Let_def split: option.splits if_splits)
qed

lemma load_needs_catalog:
  assumes "identity_wf i" and "key_reachable i st" and "load_profile_body b (ks_tables st) = Inr x"
  shows "catalog_inv i (ks_tables st)"
  using loadable_inv [OF assms(1,2)] assms(3) by (auto simp: load_profile_body_def then_do_eq_Inr)

lemma stored_facts:
  assumes "catalog_inv i db" and "stored db b row r"
  shows "row \<in> set (kt_wrapped db)" and "r \<in> set (kt_nonces db)" and "nr_reservation_id r = ww_reservation_id row"
    and "nr_purpose r = ''profile''" and "\<not> foreign_row i r"
  using assms(2) profile_row_set reservation_row_set valid_wrapped_committed [of i db row r] assms(1)
  by (auto simp: stored_def catalog_inv_def)

lemma nonce_determines_row:
  assumes "ledger_inv i ns" and "r \<in> set ns" and "r' \<in> set ns" and "nr_nonce r = nr_nonce r'"
  shows "r = r'"
proof (rule ccontr)
  assume "r \<noteq> r'"
  moreover have "nonce_domain r = nonce_domain r'"
    using ledger_invD(6) [OF assms(1)] assms(2,3) by (auto simp: foreign_row_def nonce_domain_def)
  ultimately show False using ledger_no_clash [OF assms(1-3)] assms(4) by (simp add: nonce_rows_clash_def)
qed

lemma stored_nonce_determines_binding:
  assumes "catalog_inv i db" and "stored db b row r" and "stored db b' row' r'" and "nr_nonce r = nr_nonce r'"
    and "profile_key_binding_ok b" and "profile_key_binding_ok b'"
  shows "pb_profile_id b = pb_profile_id b'" and "pb_profile_key_version b = pb_profile_key_version b'"
proof -
  have led: "ledger_inv i (kt_nonces db)" and wr: "wrapped_inv i db" using assms(1) by (auto simp: catalog_inv_def)
  note f = stored_facts [OF assms(1,2)] and f' = stored_facts [OF assms(1,3)]
  have "r = r'" by (rule nonce_determines_row [OF led f(2) f'(2) assms(4)])
  then have "row = row'"
    using f f' wr find_distinct [of ww_reservation_id "kt_wrapped db"] by (auto simp: wrapped_inv_def distinct_map inj_on_def)
  then show "pb_profile_id b = pb_profile_id b'" "pb_profile_key_version b = pb_profile_key_version b'"
    using profile_row_set [of b db row] profile_row_set [of b' db row'] assms(2,3,5,6)
    by (auto simp: stored_def profile_key_binding_ok_def uuid_text_inject)
qed

lemma tables_step_keeps_key:
  assumes "identity_wf i" and "catalog_inv i db" and "tables_step i db db'" and "stored db b row r"
  shows "stored db' b row r"
proof -
  have keep: "stored db' b row r" if ns: "kt_nonces db' = map (committed_row rid) (kt_nonces db)"
      and more: "\<exists>ws. kt_wrapped db' = kt_wrapped db @ ws" for rid
  proof -
    obtain ws where ws: "kt_wrapped db' = kt_wrapped db @ ws" using more by blast
    have "profile_row b db' = Some row" using assms(4) by (simp add: stored_def profile_row_def ws find_append)
    moreover have "committed_row rid r = r" using assms(4) by (simp add: stored_def committed_row_def)
    ultimately show ?thesis using assms(4) by (simp add: stored_def reservation_row_commit [OF ns])
  qed
  show ?thesis
    using assms(3)
  proof cases
    case (begun rid nonce commitment x)
    then show ?thesis using assms(2) by (auto simp: begin_initialization_body_def catalog_inv_def split: if_splits)
  next
    case (finished rid s)
    show ?thesis
      by (intro keep [of "uuid_text rid"]) (simp_all add: finish_inv(2,3) [OF assms(1,2) finished])
  next
    case (reserved rid b' nonce x)
    show ?thesis
      using assms(1,2) reserved
    proof (cases rule: reserve_effect)
      case (1 commitment v)
      show ?thesis using assms(4) by (simp add: stored_def 1(6) profile_row_def reservation_row_def find_append)
    qed
  next
    case (published rid w x)
    show ?thesis
      using assms(1,2) published
    proof (cases rule: publish_effect)
      case (1 commitment v q)
      show ?thesis by (rule keep [of "uuid_text rid"]) (simp_all add: 1(11))
    qed
  next
    case (recovered x)
    then have "kt_wrapped db' = kt_wrapped db \<and> kt_nonces db' = kt_nonces db"
      by (auto simp: require_recovery_body_def then_do_eq_Inr update_catalog_def split: if_splits option.splits)
    then show ?thesis using assms(4) by (simp add: stored_def profile_row_def reservation_row_def)
  qed (use assms(4) in simp)
qed

lemma stored_not_preparing:
  assumes "identity_wf i" and "catalog_inv i db" and "stored db b row r" and "load_snapshot db = Inr sn"
  shows "cs_state sn \<noteq> K_PREPARING"
proof
  assume p: "cs_state sn = K_PREPARING"
  obtain s v where "load_snapshot db = Inr (loaded i s v db)" and "sentinel_inv i s db" using inv_loads [OF assms(1,2)] by blast
  then have "tl (kt_nonces db) = []" using assms(4) p by (auto simp: sentinel_inv_def split: option.splits)
  moreover have led: "ledger_inv i (kt_nonces db)" using assms(2) by (simp add: catalog_inv_def)
  ultimately have "kt_nonces db = [hd (kt_nonces db)]" using ledger_invD(1) by (metis list.collapse)
  then have "r = hd (kt_nonces db)" using stored_facts(2) [OF assms(2,3)] by (metis empty_iff empty_set insert_iff list.simps(15))
  then show False using ledger_invD(3) [OF led] stored_facts(4) [OF assms(2,3)] by simp
qed

lemma key_steps_keep_key:
  assumes "identity_wf i" and "(key_step i)\<^sup>*\<^sup>* st st'" and "catalog_inv i (ks_tables st)" and "stored (ks_tables st) b row r"
  shows "catalog_inv i (ks_tables st') \<and> stored (ks_tables st') b row r"
  using assms(2)
proof induction
  case (step st1 st2)
  have t: "tables_step i (ks_tables st1) (ks_tables st2)" by (rule key_step_tables [OF step.hyps(2)])
  have kept: "stored (ks_tables st2) b row r" using tables_step_keeps_key [OF assms(1) _ t] step.IH by blast
  then have "ks_tables st2 \<noteq> empty_tables" by (auto simp: stored_def profile_row_def empty_tables_def)
  moreover have "\<not> bricked (ks_tables st1) (ks_tables st2)"
    using stored_not_preparing [OF assms(1)] step.IH by (auto simp: bricked_def)
  ultimately show ?case using tables_step_inv [OF assms(1) t] kept step.IH by blast
qed (use assms(3,4) in simp)


section \<open>Reservation and publication complete\<close>

lemma row_accepted:
  assumes "identity_wf i" and "length commitment = 32" and "1 \<le> v" and "1 \<le> used" and "used \<le> ci_usage_limit i"
  shows "catalog_row_ok (current_row i commitment s v used)"
  using assms
  by (cases s) (simp_all add: catalog_row_ok_def current_row_def initial_row_def identity_wf_def catalog_identity_ok_def
      active_kek_ref_ok_def KEY_CATALOG_SCHEMA_VERSION_def uuid_text_length)

lemma publish_reserved:
  assumes "identity_wf i" and "catalog_inv i db" and "reserve_body rid (wk_binding w) (wk_nonce w) db = Inr (rid, db1)"
    and "wk_kek_ref w = ci_active_kek i" and "wrapped_profile_key_ok w" and "profile_key_binding_ok (wk_binding w)"
  obtains db2 r where "publish_body rid (wk_binding w) (wk_nonce w) w db1 = Inr ((), db2)"
    and "stored db2 (wk_binding w) (published_row rid w) r" and "nr_nonce r = wk_nonce w"
  using assms(1-3)
proof (cases rule: reserve_effect)
  case (1 commitment v)
  let ?b = "wk_binding w" and ?ns = "kt_nonces db" and ?rid = "uuid_text rid" and ?c = "committed_row (uuid_text rid)"
  let ?r = "reservation_for i rid (wk_nonce w) ''profile'' (len (kt_nonces db) + 1) (Some ?b)"
  have inv1: "catalog_inv i db1" by (rule reserve_inv [OF assms(1-3)])
  have ns: "kt_nonces db1 = ?ns @ [?r]" and ws: "kt_wrapped db1 = kt_wrapped db" by (simp_all add: 1(6))
  have fresh: "\<forall>n \<in> set ?ns. nr_reservation_id n \<noteq> ?rid"
    using 1(5) by (auto simp: insert_nonce_Inr list_ex_iff nonce_rows_clash_def)
  then have row: "reservation_row ?rid db1 = Some ?r"
    by (auto simp: reservation_row_def ns find_append find_Some_iff split: option.split)
  have count: "filter (\<lambda>n. nr_reservation_id n = ?rid \<and> nr_lifecycle n = ''reserved'') (kt_nonces db1) = [?r]"
    using fresh by (auto simp: ns filter_empty_conv)
  have absent: "profile_row ?b db1 = None" using 1(4) by (simp add: profile_row_def ws)
  have unused: "ww_reservation_id x \<noteq> ?rid" if "x \<in> set (kt_wrapped db)" for x
  proof -
    have "\<not> invalid_wrapped i db x" using assms(2) that by (auto simp: catalog_inv_def wrapped_inv_def list_all_iff)
    then show ?thesis using fresh reservation_row_set [of _ db] by (fastforce simp: invalid_wrapped_def split: option.splits)
  qed
  have "wrapped_row_ok (published_row rid w)"
    using assms(1,5,6) 1(11)
    by (simp add: wrapped_row_ok_def published_row_def uuid_text_length wrapped_profile_key_ok_def key_consts
        profile_key_binding_ok_def identity_wf_def catalog_identity_ok_def KEY_CATALOG_SCHEMA_VERSION_def)
  moreover have "\<not> list_ex (\<lambda>x. ww_profile_id x = ww_profile_id (published_row rid w) \<and>
      ww_profile_key_version x = ww_profile_key_version (published_row rid w) \<or>
      ww_reservation_id x = ww_reservation_id (published_row rid w)) (kt_wrapped db1)"
    using absent unused by (auto simp: list_ex_iff profile_row_def find_None_iff ws published_row_def)
  moreover have "list_ex (\<lambda>n. nr_reservation_id n = ww_reservation_id (published_row rid w)) (kt_nonces db1)"
    by (simp add: ns published_row_def)
  ultimately have ins: "insert_wrapped (published_row rid w) db1 =
      Inr (db1\<lparr>kt_wrapped := kt_wrapped db1 @ [published_row rid w]\<rparr>)"
    by (simp add: insert_wrapped_def)
  have cat: "kt_catalog db1 = Some (current_row i commitment K_ACTIVE (v + 1) (len ?ns + 1))" by (simp add: 1(6))
  have load: "load_snapshot db1 = Inr (loaded i K_ACTIVE (v + 1) db1)"
  proof -
    obtain c' s' v' where l: "load_snapshot db1 = Inr (loaded i s' v' db1)"
        "kt_catalog db1 = Some (current_row i c' s' v' (len (kt_nonces db1)))"
      using inv_loads [OF assms(1) inv1] by blast
    have "s' = K_ACTIVE \<and> v' = v + 1"
      using l(2) cat arg_cong [of _ _ cr_state] arg_cong [of _ _ cr_revision]
      by (metis current_row_sel(1,2) option.inject state_values(2))
    then show ?thesis using l(1) by simp
  qed
  define db2 where "db2 = db1\<lparr>kt_wrapped := kt_wrapped db1 @ [published_row rid w], kt_nonces := map ?c (kt_nonces db1),
      kt_catalog := Some (current_row i commitment K_ACTIVE (2 + v) (len ?ns + 1))\<rparr>"
  have "catalog_row_ok (current_row i commitment K_ACTIVE (2 + v) (len ?ns + 1))"
    using 1(3,7,8) by (intro row_accepted [OF assms(1)]) auto
  then have "publish_body rid ?b (wk_nonce w) w db1 = Inr ((), db2)"
    unfolding publish_body_def load then_do_Inr published_row_def [symmetric] ins commit_reservation_eq
    using 1(10,11) row absent assms(4) count
    by (simp add: add.commute [of v 2] assert_active_binding_def reservation_matches_def update_catalog_def cat db2_def)
  moreover have "stored db2 ?b (published_row rid w) (?c ?r)"
  proof -
    have "profile_row ?b db2 = Some (published_row rid w)"
      using absent by (simp add: profile_row_def db2_def find_append published_row_def)
    moreover have "kt_nonces db2 = map ?c (kt_nonces db1)" by (simp add: db2_def)
    then have "reservation_row ?rid db2 = Some (?c ?r)" using row by (simp add: reservation_row_commit)
    ultimately show ?thesis by (simp add: stored_def published_row_def committed_row_def)
  qed
  ultimately show thesis using that by simp
qed


definition prepared_tables :: "uuid \<Rightarrow> catalog_identity \<Rightarrow> bytes \<Rightarrow> bytes \<Rightarrow> key_tables" where
  "prepared_tables rid i nonce commitment =
     \<lparr>kt_catalog = Some (current_row i commitment K_PREPARING 1 1),
      kt_nonces = [reservation_for i rid nonce ''sentinel'' 1 None], kt_sentinel = None, kt_wrapped = []\<rparr>"

lemma begin_succeeds:
  assumes "identity_wf i" and "length nonce = 12" and "length commitment = 32"
  shows "begin_initialization_body rid i nonce commitment empty_tables = Inr (rid, prepared_tables rid i nonce commitment)"
proof -
  have "initial_row i commitment = current_row i commitment K_PREPARING 1 1" by (simp add: current_row_def initial_row_def)
  moreover have "2 \<le> ci_usage_limit i" using assms(1) by (simp add: identity_wf_def catalog_identity_ok_def)
  then have "catalog_row_ok (current_row i commitment K_PREPARING 1 1)" using assms by (intro row_accepted) auto
  ultimately show ?thesis
    using assms(2)
    by (simp add: begin_initialization_body_def empty_tables_def insert_catalog_def insert_nonce_def nonce_row_ok_def
        uuid_text_length prepared_tables_def)
qed

lemma prepared_inv:
  assumes "identity_wf i" and "length nonce = 12" and "length commitment = 32"
  shows "catalog_inv i (prepared_tables rid i nonce commitment)"
    and "load_snapshot (prepared_tables rid i nonce commitment) =
      Inr \<lparr>cs_identity = i, cs_state = K_PREPARING, cs_revision = 1, cs_sentinel = None\<rparr>"
proof -
  let ?db = "prepared_tables rid i nonce commitment"
  show inv: "catalog_inv i ?db"
    by (rule begin_inv(1) [OF assms(1,3) _ _ _ begin_succeeds [OF assms]]) (simp_all add: empty_tables_def)
  obtain c s v where l: "load_snapshot ?db = Inr (loaded i s v ?db)" "kt_catalog ?db = Some (current_row i c s v (len (kt_nonces ?db)))"
    using inv_loads [OF assms(1) inv] by blast
  have "s = K_PREPARING \<and> v = 1"
    using l(2) arg_cong [of _ _ cr_state] arg_cong [of _ _ cr_revision]
    by (simp add: prepared_tables_def) (metis current_row_sel(1,2) state_values(1))
  then show "load_snapshot ?db = Inr \<lparr>cs_identity = i, cs_state = K_PREPARING, cs_revision = 1, cs_sentinel = None\<rparr>"
    using l(1) by (simp add: loaded_def prepared_tables_def)
qed

definition finished_row :: "uuid \<Rightarrow> catalog_identity \<Rightarrow> readiness_sentinel \<Rightarrow> sentinel_row" where
  "finished_row rid i s =
     \<lparr>sr_catalog_id = uuid_text (ci_catalog_id i), sr_sentinel_id = uuid_text (ci_sentinel_id i),
      sr_reservation_id = uuid_text rid, sr_format_version = rs_format_version s,
      sr_aad_version = rs_aad_version s, sr_suite = rs_suite s, sr_ciphertext = rs_ciphertext s\<rparr>"

definition active_tables :: "uuid \<Rightarrow> catalog_identity \<Rightarrow> readiness_sentinel \<Rightarrow> bytes \<Rightarrow> key_tables" where
  "active_tables rid i s commitment =
     \<lparr>kt_catalog = Some (current_row i commitment K_ACTIVE 2 1),
      kt_nonces = [committed_row (uuid_text rid) (reservation_for i rid (rs_nonce s) ''sentinel'' 1 None)],
      kt_sentinel = Some (finished_row rid i s), kt_wrapped = []\<rparr>"

lemma finish_succeeds:
  assumes "identity_wf i" and "readiness_sentinel_ok s" and "sentinel_matches i s" and "length commitment = 32"
  shows "stage_initialization_finish rid s (prepared_tables rid i (rs_nonce s) commitment) = Inr (active_tables rid i s commitment)"
proof -
  let ?db = "prepared_tables rid i (rs_nonce s) commitment" and ?r = "reservation_for i rid (rs_nonce s) ''sentinel'' 1 None"
  have nonce: "length (rs_nonce s) = 12" using assms(2) by (simp add: readiness_sentinel_ok_def key_consts)
  have row: "reservation_row (uuid_text rid) ?db = Some ?r" by (simp add: reservation_row_def prepared_tables_def)
  have "insert_sentinel (finished_row rid i s) ?db = Inr (?db\<lparr>kt_sentinel := Some (finished_row rid i s)\<rparr>)"
    using assms(2)
    by (simp add: insert_sentinel_def finished_row_def prepared_tables_def uuid_text_length readiness_sentinel_ok_def key_consts)
  moreover have "2 \<le> ci_usage_limit i" using assms(1) by (simp add: identity_wf_def catalog_identity_ok_def)
  then have "catalog_row_ok (current_row i commitment K_ACTIVE 2 1)" using assms by (intro row_accepted) auto
  moreover have "current_row i commitment K_PREPARING 1 1\<lparr>cr_state := ''active'', cr_revision := 2\<rparr> = current_row i commitment K_ACTIVE 2 1"
    using current_row_sel(7) [where s' = K_ACTIVE] by simp
  ultimately show ?thesis
    unfolding stage_initialization_finish_def prepared_inv(2) [OF assms(1) nonce assms(4)] then_do_Inr
      catalog_snapshot.simps finished_row_def [symmetric] row commit_reservation_eq
    using assms(3) by (simp add: prepared_tables_def active_tables_def update_catalog_def)
qed

lemma active_inv:
  assumes "identity_wf i" and "readiness_sentinel_ok s" and "sentinel_matches i s" and "length commitment = 32"
  shows "catalog_inv i (active_tables rid i s commitment)"
proof -
  have "length (rs_nonce s) = 12" using assms(2) by (simp add: readiness_sentinel_ok_def key_consts)
  then show ?thesis by (rule finish_inv(1) [OF assms(1) prepared_inv(1) [OF assms(1) _ assms(4)] finish_succeeds [OF assms]])
qed

text \<open>A binding without a reservation gets one, while the catalog is active and below its limit.\<close>

lemma reserve_succeeds:
  assumes "identity_wf i" and "catalog_inv i db" and "load_snapshot db = Inr sn" and "cs_state sn = K_ACTIVE"
    and "pb_installation_id b = ci_installation_id i" and "pb_catalog_schema_version b = ci_schema_version i"
    and "profile_key_binding_ok b" and "length nonce = 12" and "len (kt_nonces db) < ci_usage_limit i"
    and "profile_row b db = None" and "profile_reservation_row b db = None"
    and "\<forall>r \<in> set (kt_nonces db). nr_nonce r \<noteq> nonce \<and> nr_reservation_id r \<noteq> uuid_text rid"
  shows "\<exists>db'. reserve_body rid b nonce db = Inr (rid, db')"
proof -
  let ?r = "reservation_for i rid nonce ''profile'' (len (kt_nonces db) + 1) (Some b)"
  obtain commitment s v where l: "load_snapshot db = Inr (loaded i s v db)" "length commitment = 32" "1 \<le> v"
      "kt_catalog db = Some (current_row i commitment s v (len (kt_nonces db)))"
    using inv_loads [OF assms(1,2)] by blast
  have s: "s = K_ACTIVE" using assms(3,4) l(1) by auto
  have led: "ledger_inv i (kt_nonces db)" using assms(2) by (simp add: catalog_inv_def)
  have "\<not> nonce_rows_clash ?r n" if n: "n \<in> set (kt_nonces db)" for n
  proof -
    have "nr_usage_sequence n \<in> set (map nr_usage_sequence (kt_nonces db))" using n by simp
    then have seq: "nr_usage_sequence n \<noteq> len (kt_nonces db) + 1" unfolding ledger_invD(2) [OF led] by simp
    have "nr_profile_id n \<noteq> Some (uuid_text (pb_profile_id b)) \<or> nr_profile_key_version n \<noteq> Some (pb_profile_key_version b)"
      using ledger_invD(5) [OF led n] assms(11) n by (auto simp: nonce_row_ok_def profile_reservation_row_def find_None_iff)
    then show ?thesis using assms(12) n seq by (auto simp: nonce_rows_clash_def)
  qed
  moreover have "nonce_row_ok ?r"
    using assms(7,8) by (simp add: nonce_row_ok_def uuid_text_length profile_key_binding_ok_def positive_u32_def)
  ultimately have ins: "insert_nonce ?r db = Inr (db\<lparr>kt_nonces := kt_nonces db @ [?r]\<rparr>)"
    by (auto simp: insert_nonce_def l(4) list_ex_iff)
  have "catalog_row_ok (current_row i commitment K_ACTIVE (v + 1) (len (kt_nonces db) + 1))"
    using l(2,3) assms(9) by (intro row_accepted [OF assms(1)]) auto
  moreover have "\<not> list_ex (nonce_in_use i nonce) (kt_nonces db)" using assms(12) by (auto simp: list_ex_iff nonce_in_use_def)
  ultimately show ?thesis
    unfolding reserve_body_def l(1) then_do_Inr
    using assms(5,6,9-11) by (simp add: assert_active_binding_def s l(4) ins update_catalog_def)
qed


lemma creation_completes:
  assumes "identity_wf i" and "key_reachable i st" and "ks_mode st = Accepting"
    and "load_snapshot (ks_tables st) = Inr sn" and "cs_state sn = K_ACTIVE"
    and "len (kt_nonces (ks_tables st)) < ci_usage_limit i"
    and "profile_row (kp_binding p) (ks_tables st) = None" and "profile_reservation_row (kp_binding p) (ks_tables st) = None"
    and "\<forall>r \<in> set (kt_nonces (ks_tables st)). nr_nonce r \<noteq> kp_nonce p \<and> nr_reservation_id r \<noteq> uuid_text rid"
    and "profile_key_binding_ok (kp_binding p)" and "pb_installation_id (kp_binding p) = ci_installation_id i"
    and "pb_catalog_schema_version (kp_binding p) = ci_schema_version i"
    and "wrapped_profile_key_ok w" and "wk_kek_ref w = ci_active_kek i" and "wk_binding w = kp_binding p" and "wk_nonce w = kp_nonce p"
  shows "\<exists>st1 st2. reserve_profile_preparation Commit_Works rid p st = (Inr rid, st1) \<and>
    publish_profile_key Commit_Works rid p w st1 = (Inr (), st2) \<and> load_profile_key (kp_binding p) st2 = (Inr (Some w), st2)"
proof -
  have inv: "catalog_inv i (ks_tables st)" by (rule loadable_inv [OF assms(1,2,4)])
  have "length (kp_nonce p) = 12" using assms(13,16) by (simp add: wrapped_profile_key_ok_def key_consts)
  then obtain db1 where r: "reserve_body rid (wk_binding w) (wk_nonce w) (ks_tables st) = Inr (rid, db1)"
    using reserve_succeeds [OF assms(1) inv assms(4,5,11,12,10) _ assms(6-9)] by (auto simp: assms(15,16))
  obtain db2 q where p: "publish_body rid (wk_binding w) (wk_nonce w) w db1 = Inr ((), db2)"
      "stored db2 (wk_binding w) (published_row rid w) q" "nr_nonce q = wk_nonce w"
    using publish_reserved [OF assms(1) inv r assms(14,13)] assms(10,15) by auto
  have inv1: "catalog_inv i db1" by (rule reserve_inv [OF assms(1) inv r])
  have inv2: "catalog_inv i db2" by (rule publish_inv [OF assms(1) inv1 p(1)])
  obtain c s v where l2: "load_snapshot db2 = Inr (loaded i s v db2)" "kt_catalog db2 = Some (current_row i c s v (len (kt_nonces db2)))"
    using inv_loads [OF assms(1) inv2] by blast
  have "s = K_ACTIVE"
    using assms(1) inv1 p(1)
  proof (cases rule: publish_effect)
    case (1 c' v' r')
    then show ?thesis using l2(2) arg_cong [of _ _ cr_state] by simp (metis current_row_sel(1) state_values(2))
  qed
  moreover have "stored_key (loaded i s v db2) (kp_binding p) db2 = Inr (Some w)"
    using p(2,3) assms(13-16)
    by (cases w) (simp add: stored_key_def stored_def published_row_def Let_def require_value_def wrapped_profile_key_ok_def)
  ultimately have "load_profile_body (kp_binding p) db2 = Inr (Some w)"
    using assms(11,12) by (simp add: load_profile_body_def l2(1) assert_active_binding_def)
  then show ?thesis
    using r p(1) assms(3,15,16)
    by (simp add: reserve_profile_preparation_def publish_profile_key_def load_profile_key_def catalog_write_def catalog_read_def)
qed


section \<open>A sample catalog\<close>

definition sample_identity :: catalog_identity where
  "sample_identity = \<lparr>ci_installation_id = sid 1, ci_catalog_id = sid 2, ci_sentinel_id = sid 3,
     ci_active_kek = \<lparr>kk_provider_kind = ''owner-file'', kk_provider_instance_id = sid 4, kk_kek_id = sid 5, kk_kek_version = 1\<rparr>,
     ci_usage_limit = 10, ci_schema_version = 1\<rparr>"

definition sample_sentinel :: readiness_sentinel where
  "sample_sentinel = \<lparr>rs_kek_ref = ci_active_kek sample_identity, rs_installation_id = sid 1, rs_catalog_id = sid 2,
     rs_sentinel_id = sid 3, rs_nonce = replicate 12 0, rs_ciphertext = replicate 48 1, rs_format_version = 1,
     rs_aad_version = 1, rs_suite = ''A256GCM''\<rparr>"

definition sample_profile :: profile_key_binding where
  "sample_profile = \<lparr>pb_installation_id = sid 1, pb_profile_id = sid 6, pb_profile_key_version = 1, pb_catalog_schema_version = 1\<rparr>"

definition sample_key :: wrapped_profile_key where
  "sample_key = \<lparr>wk_kek_ref = ci_active_kek sample_identity, wk_binding = sample_profile, wk_nonce = replicate 12 7,
     wk_ciphertext = replicate 48 2, wk_format_version = 1, wk_aad_version = 1, wk_suite = ''A256GCM''\<rparr>"

definition sample_preparation :: key_preparation where
  "sample_preparation = \<lparr>kp_binding = sample_profile, kp_nonce = replicate 12 7, kp_issuer = 0, kp_pid = 1, kp_consumed = False\<rparr>"

definition sample_store :: key_store where
  "sample_store = \<lparr>ks_tables = active_tables (sid 7) sample_identity sample_sentinel (replicate 32 9), ks_mode = Accepting\<rparr>"

lemma sample_ok:
  "identity_wf sample_identity" "readiness_sentinel_ok sample_sentinel" "sentinel_matches sample_identity sample_sentinel"
  "profile_key_binding_ok sample_profile" "wrapped_profile_key_ok sample_key"
proof -
  have "fullmatch rx_provider_kind ''owner-file''" by code_simp
  then show "identity_wf sample_identity"
    by (simp add: identity_wf_def sample_identity_def catalog_identity_ok_def active_kek_ref_ok_def uuid4_sid positive_u32_def
        KEY_CATALOG_SCHEMA_VERSION_def)
qed (simp_all add: readiness_sentinel_ok_def sample_sentinel_def key_consts sentinel_matches_def sample_identity_def
    profile_key_binding_ok_def sample_profile_def uuid4_sid positive_u32_def positive_u16_def wrapped_profile_key_ok_def sample_key_def)

lemma sample_store_reachable: "key_reachable sample_identity sample_store"
proof -
  let ?i = sample_identity and ?c = "replicate 32 9" and ?s = sample_sentinel
  define st where "st = \<lparr>ks_tables = prepared_tables (sid 7) ?i (rs_nonce ?s) ?c, ks_mode = Accepting\<rparr>"
  have n: "length (rs_nonce ?s) = 12" by (simp add: sample_sentinel_def)
  have "snd (begin_initialization Commit_Works (sid 7) ?i (rs_nonce ?s) ?c new_key_store) = st"
    using n begin_succeeds [OF sample_ok(1) n, of ?c]
    by (simp add: begin_initialization_def catalog_write_def new_key_store_def st_def)
  then have "key_step ?i new_key_store st" using key_step.intros(1) by metis
  moreover have "catalog_inv ?i (ks_tables sample_store)" using active_inv sample_ok by (simp add: sample_store_def)
  then obtain sn where "load_snapshot (ks_tables sample_store) = Inr sn" using inv_loads [OF sample_ok(1)] by blast
  then have "snd (finish_initialization Commit_Works (sid 7) ?s st) = sample_store"
    using finish_succeeds [OF sample_ok(1-3), of ?c]
    by (simp add: finish_initialization_def catalog_write_def st_def sample_store_def load_catalog_def catalog_read_def)
  then have "key_step ?i st sample_store" using key_step.intros(2) by metis
  ultimately show ?thesis by simp
qed

lemma sample_active:
  obtains sn where "load_snapshot (ks_tables sample_store) = Inr sn" and "cs_state sn = K_ACTIVE"
proof -
  have "catalog_inv sample_identity (ks_tables sample_store)" using active_inv sample_ok by (simp add: sample_store_def)
  then obtain c s v where "load_snapshot (ks_tables sample_store) = Inr (loaded sample_identity s v (ks_tables sample_store))"
      "sentinel_inv sample_identity s (ks_tables sample_store)"
      "kt_catalog (ks_tables sample_store) = Some (current_row sample_identity c s v (len (kt_nonces (ks_tables sample_store))))"
    using inv_loads [OF sample_ok(1)] by blast
  moreover from this(3) have "catalog_state_value s = catalog_state_value K_ACTIVE"
    by (metis current_row_sel(1) sample_store_def active_tables_def key_store.simps(1) key_tables.simps(1) option.inject)
  then have "s = K_ACTIVE" by simp
  ultimately show thesis using that by simp
qed

lemma sample_fresh:
  "ks_mode sample_store = Accepting" "len (kt_nonces (ks_tables sample_store)) < ci_usage_limit sample_identity"
  "profile_row sample_profile (ks_tables sample_store) = None"
  "profile_reservation_row sample_profile (ks_tables sample_store) = None"
  "\<forall>r \<in> set (kt_nonces (ks_tables sample_store)). nr_nonce r \<noteq> replicate 12 7 \<and> nr_reservation_id r \<noteq> uuid_text (sid 8)"
proof -
  have "uuid_text (sid 7) \<noteq> uuid_text (sid 8)" by (simp add: uuid_text_inject uuid4_sid sid_inject)
  moreover have "replicate 12 0 \<noteq> replicate 12 (7 :: byte)" by simp
  ultimately show "\<forall>r \<in> set (kt_nonces (ks_tables sample_store)). nr_nonce r \<noteq> replicate 12 7 \<and> nr_reservation_id r \<noteq> uuid_text (sid 8)"
    by (simp add: sample_store_def active_tables_def sample_sentinel_def)
qed (simp_all add: sample_store_def active_tables_def sample_identity_def profile_row_def profile_reservation_row_def)

lemma sample_preparation_fields:
  "kp_binding sample_preparation = sample_profile" "kp_nonce sample_preparation = replicate 12 7"
  "wk_binding sample_key = sample_profile" "wk_nonce sample_key = replicate 12 7"
  "wk_kek_ref sample_key = ci_active_kek sample_identity" "pb_installation_id sample_profile = ci_installation_id sample_identity"
  "pb_catalog_schema_version sample_profile = ci_schema_version sample_identity"
  by (simp_all add: sample_preparation_def sample_key_def sample_profile_def sample_identity_def)

lemma sample_created:
  obtains st where "key_reachable sample_identity st" and "load_profile_key sample_profile st = (Inr (Some sample_key), st)"
proof -
  obtain sn where sn: "load_snapshot (ks_tables sample_store) = Inr sn" "cs_state sn = K_ACTIVE" by (rule sample_active)
  obtain st1 st2 where c: "reserve_profile_preparation Commit_Works (sid 8) sample_preparation sample_store = (Inr (sid 8), st1)"
      "publish_profile_key Commit_Works (sid 8) sample_preparation sample_key st1 = (Inr (), st2)"
      "load_profile_key sample_profile st2 = (Inr (Some sample_key), st2)"
    using creation_completes [OF sample_ok(1) sample_store_reachable _ sn _ _ _ _ _ _ _ sample_ok(5), of sample_preparation "sid 8"]
      sample_fresh sample_ok(4)
    by (auto simp: sample_preparation_fields)
  have "key_step sample_identity sample_store st1" using key_step.intros(4) c(1) by (metis snd_conv)
  moreover have "key_step sample_identity st1 st2" using key_step.intros(5) c(2) by (metis snd_conv)
  ultimately have "key_reachable sample_identity st2" using sample_store_reachable by (meson rtranclp.rtrancl_into_rtrancl)
  then show thesis using that c(3) by blast
qed


section \<open>Promises of the catalog\<close>

text \<open>C29. The catalog corrupts itself in one way only: after any calls in any state, failed or ambiguous commits and
  restarts, an accepting runtime finds no catalog at all; or loads it as the pinned identity, with a ledger that counts
  every nonce that was handed out, in order from one, and never more than the usage limit; or recovery was required while
  the catalog was still being prepared, and then the load reports corruption and abandons the runtime.\<close>

theorem catalog_never_corrupt:
  assumes "identity_wf i" and "key_reachable i st" and "ks_mode st = Accepting"
  shows "load_catalog st = (Inl (Key_Failure KF_NOT_INITIALIZED), st) \<and> kt_nonces (ks_tables st) = [] \<or>
    (\<exists>sn. load_catalog st = (Inr sn, st) \<and> cs_identity sn = i \<and> catalog_snapshot_ok sn \<and>
       map nr_usage_sequence (kt_nonces (ks_tables st)) = [1..len (kt_nonces (ks_tables st))] \<and>
       len (kt_nonces (ks_tables st)) \<le> ci_usage_limit i) \<or>
    (\<exists>st0 sn. key_reachable i st0 \<and> load_snapshot (ks_tables st0) = Inr sn \<and> cs_state sn = K_PREPARING \<and>
       require_recovery_body (ks_tables st0) = Inr ((), ks_tables st) \<and>
       load_catalog st = (Inl (Key_Failure KF_CORRUPT), st\<lparr>ks_mode := Abandoned\<rparr>))"
proof -
  consider (absent) "ks_tables st = empty_tables" | (present) "catalog_inv i (ks_tables st)"
    | (bricked) st0 where "unloadable (ks_tables st)" "key_reachable i st0" "bricked (ks_tables st0) (ks_tables st)"
    using key_reachable_inv [OF assms(1,2)] by blast
  then show ?thesis
  proof cases
    case absent
    then show ?thesis using assms(3) by (simp add: load_catalog_def catalog_read_def not_initialized empty_tables_def)
  next
    case present
    obtain c s v where l: "load_snapshot (ks_tables st) = Inr (loaded i s v (ks_tables st))" and v: "1 \<le> v"
        and sen: "sentinel_inv i s (ks_tables st)"
      using inv_loads [OF assms(1) present] by blast
    have "catalog_snapshot_ok (loaded i s v (ks_tables st))"
      using v sen by (auto simp: catalog_snapshot_ok_def loaded_def sentinel_inv_def sentinel_matches_def split: option.splits)
    moreover have "ledger_inv i (kt_nonces (ks_tables st))" "len (kt_nonces (ks_tables st)) \<le> ci_usage_limit i"
      using present by (auto simp: catalog_inv_def)
    ultimately show ?thesis using assms(3) l ledger_invD(2) by (auto simp: load_catalog_def catalog_read_def)
  next
    case bricked
    have "load_catalog st = (Inl (Key_Failure KF_CORRUPT), st\<lparr>ks_mode := Abandoned\<rparr>)"
      using bricked(1) assms(3) by (auto simp: unloadable_def load_catalog_def catalog_read_def)
    then show ?thesis using bricked(2,3) unfolding bricked_def by blast
  qed
qed

theorem catalog_never_corrupt_witness:
  "\<exists>sn. load_catalog sample_store = (Inr sn, sample_store) \<and> cs_identity sn = sample_identity"
proof -
  obtain sn where "load_snapshot (ks_tables sample_store) = Inr sn" by (rule sample_active)
  then have "load_catalog sample_store = (Inr sn, sample_store)" using sample_fresh(1) by (simp add: load_catalog_def catalog_read_def)
  then show ?thesis using catalog_never_corrupt [OF sample_ok(1) sample_store_reachable sample_fresh(1)] by auto
qed

text \<open>C30. No two profile keys are wrapped under one nonce: if two stored keys of a reachable catalog have the same nonce
  then they are the same key, bound to the same profile.\<close>

theorem wrap_nonces_are_unique:
  assumes "identity_wf i" and "key_reachable i st" and "profile_key_binding_ok b" and "profile_key_binding_ok b'"
    and "load_profile_key b st = (Inr (Some w), st1)" and "load_profile_key b' st = (Inr (Some w'), st2)"
    and "wk_nonce w = wk_nonce w'"
  shows "w = w' \<and> b = b'"
proof -
  note l = load_profile_Inr [OF assms(5)] and l' = load_profile_Inr [OF assms(6)]
  have inv: "catalog_inv i (ks_tables st)" by (rule load_needs_catalog [OF assms(1,2) l(3)])
  note f = load_profile_body_Inr [OF assms(1) inv l(3)] and f' = load_profile_body_Inr [OF assms(1) inv l'(3)]
  obtain row r where s: "stored (ks_tables st) b row r" "w = key_of_rows i b row r" using f(4) by blast
  obtain row' r' where s': "stored (ks_tables st) b' row' r'" "w' = key_of_rows i b' row' r'" using f'(4) by blast
  have "nr_nonce r = nr_nonce r'" using assms(7) s(2) s'(2) by (simp add: key_of_rows_def)
  from stored_nonce_determines_binding [OF inv s(1) s'(1) this assms(3,4)] have "b = b'" using f(1,2) f'(1,2) by simp
  then show ?thesis using assms(5,6) by simp
qed

theorem wrap_nonces_are_unique_witness:
  "\<exists>st. key_reachable sample_identity st \<and> (\<forall>w. load_profile_key sample_profile st = (Inr (Some w), st) \<longrightarrow> w = sample_key)"
proof -
  obtain st where st: "key_reachable sample_identity st" "load_profile_key sample_profile st = (Inr (Some sample_key), st)"
    by (rule sample_created)
  have "w = sample_key" if "load_profile_key sample_profile st = (Inr (Some w), st)" for w
    using wrap_nonces_are_unique [OF sample_ok(1) st(1) sample_ok(4,4) that st(2)] that st(2) by simp
  then show ?thesis using st(1) by blast
qed

text \<open>C31. A published key is permanent: once a binding loads a key, no later calls, failed commits or restarts change or
  remove it; a later load answers the same key, or that recovery is required, or that the runtime takes no work.\<close>

theorem published_key_is_permanent:
  assumes "identity_wf i" and "key_reachable i st" and "load_profile_key b st = (Inr (Some w), st1)"
    and "(key_step i)\<^sup>*\<^sup>* st st'"
  shows "fst (load_profile_key b st') \<in> {Inr (Some w), Inl (Key_Failure KF_RECOVERY_REQUIRED), Inl Key_Runtime_Unavailable}"
proof -
  note l = load_profile_Inr [OF assms(3)]
  have inv: "catalog_inv i (ks_tables st)" by (rule load_needs_catalog [OF assms(1,2) l(3)])
  note f = load_profile_body_Inr [OF assms(1) inv l(3)]
  obtain row r where s: "stored (ks_tables st) b row r" "w = key_of_rows i b row r" using f(4) by blast
  have inv': "catalog_inv i (ks_tables st')" and s': "stored (ks_tables st') b row r"
    using key_steps_keep_key [OF assms(1,4) inv s(1)] by blast+
  obtain c q v where l': "load_snapshot (ks_tables st') = Inr (loaded i q v (ks_tables st'))"
    using inv_loads [OF assms(1) inv'] by blast
  have "nonce_row_ok r" "wrapped_row_ok row"
    using stored_facts(1,2) [OF inv' s'] inv' by (auto simp: catalog_inv_def wrapped_inv_def list_all_iff dest: ledger_invD(5))
  then have ok: "wrapped_profile_key_ok w"
    by (simp add: s(2) key_of_rows_def wrapped_profile_key_ok_def key_consts nonce_row_ok_def wrapped_row_ok_def)
  then have "stored_key (loaded i q v (ks_tables st')) b (ks_tables st') = Inr (Some w)"
    using s' by (simp add: stored_key_def stored_def s(2) key_of_rows_def Let_def require_value_def)
  then show ?thesis
    using f(1,2) by (simp add: load_profile_key_def catalog_read_def load_profile_body_def l' assert_active_binding_def)
qed

theorem published_key_is_permanent_witness:
  "\<exists>st. key_step sample_identity st (snd (load_catalog st)) \<and>
     fst (load_profile_key sample_profile (snd (load_catalog st))) \<in>
       {Inr (Some sample_key), Inl (Key_Failure KF_RECOVERY_REQUIRED), Inl Key_Runtime_Unavailable}"
proof -
  obtain st where st: "key_reachable sample_identity st" "load_profile_key sample_profile st = (Inr (Some sample_key), st)"
    by (rule sample_created)
  have "key_step sample_identity st (snd (load_catalog st))" by (rule key_step.intros)
  then show ?thesis using published_key_is_permanent [OF sample_ok(1) st] by blast
qed

text \<open>C32. Key creation completes: for a binding of this installation that has no reservation, an active catalog below its
  limit accepts the reservation of a fresh nonce, then the publication of any wrapped key that was prepared with it, and
  afterwards loads exactly that key.\<close>

theorem new_key_is_stored:
  assumes "identity_wf i" and "key_reachable i st" and "ks_mode st = Accepting"
    and "load_snapshot (ks_tables st) = Inr sn" and "cs_state sn = K_ACTIVE"
    and "len (kt_nonces (ks_tables st)) < ci_usage_limit i"
    and "profile_row (kp_binding p) (ks_tables st) = None" and "profile_reservation_row (kp_binding p) (ks_tables st) = None"
    and "\<forall>r \<in> set (kt_nonces (ks_tables st)). nr_nonce r \<noteq> kp_nonce p \<and> nr_reservation_id r \<noteq> uuid_text rid"
    and "profile_key_binding_ok (kp_binding p)" and "pb_installation_id (kp_binding p) = ci_installation_id i"
    and "pb_catalog_schema_version (kp_binding p) = ci_schema_version i"
    and "wrapped_profile_key_ok w" and "wk_kek_ref w = ci_active_kek i" and "wk_binding w = kp_binding p" and "wk_nonce w = kp_nonce p"
  shows "\<exists>st1 st2. reserve_profile_preparation Commit_Works rid p st = (Inr rid, st1) \<and>
    publish_profile_key Commit_Works rid p w st1 = (Inr (), st2) \<and> load_profile_key (kp_binding p) st2 = (Inr (Some w), st2)"
  by (rule creation_completes [OF assms])

theorem new_key_is_stored_witness:
  "\<exists>st1 st2. reserve_profile_preparation Commit_Works (sid 8) sample_preparation sample_store = (Inr (sid 8), st1) \<and>
     publish_profile_key Commit_Works (sid 8) sample_preparation sample_key st1 = (Inr (), st2) \<and>
     load_profile_key sample_profile st2 = (Inr (Some sample_key), st2)"
proof -
  obtain sn where sn: "load_snapshot (ks_tables sample_store) = Inr sn" "cs_state sn = K_ACTIVE" by (rule sample_active)
  show ?thesis
    using new_key_is_stored [OF sample_ok(1) sample_store_reachable _ sn _ _ _ _ _ _ _ sample_ok(5), of sample_preparation "sid 8"]
      sample_fresh sample_ok(4)
    by (simp add: sample_preparation_fields)
qed



end
