(* ===== verification/Owner_Source.thy ===== *)
theory Owner_Source
  imports Key_Records
begin

text \<open>
  Opening the owner-only key file (\<^verbatim>\<open>_open_source\<close> of \<^verbatim>\<open>adapters/keys/owner_file.py\<close> and what it calls).
  What the operating system answers during one opening is an observation: the answers of
  \<^verbatim>\<open>lstat\<close>, \<^verbatim>\<open>open\<close>, \<^verbatim>\<open>fstat\<close>, \<^verbatim>\<open>stat\<close>, \<^verbatim>\<open>readv\<close> and \<^verbatim>\<open>close\<close>.  A canonical absolute path is the list of
  its parts below the anchor.
\<close>

unbundle bit_operations_syntax


section \<open>Paths\<close>

type_synonym path = "string list"

definition is_within :: "path \<Rightarrow> path \<Rightarrow> bool" where
  "is_within candidate root \<longleftrightarrow> take (length root) candidate = root"

definition structurally_separate :: "path \<Rightarrow> path list \<Rightarrow> bool" where
  "structurally_separate key_path roots \<longleftrightarrow>
     list_all (\<lambda>root. \<not> is_within (butlast key_path) root \<and> \<not> is_within root (butlast key_path)) roots"


section \<open>File metadata\<close>

record file_stat =
  st_dev :: int
  st_ino :: int
  st_mode :: int
  st_uid :: int
  st_gid :: int
  st_nlink :: int
  st_size :: int
  st_mtime_ns :: int
  st_ctime_ns :: int

text \<open>\<^verbatim>\<open>stat.S_IFMT\<close>, the file types, and \<^verbatim>\<open>stat.S_IMODE\<close>.\<close>

definition file_type :: "int \<Rightarrow> int" where "file_type mode = mode AND 0xF000"
definition S_IFDIR :: int where "S_IFDIR = 0x4000"
definition S_IFREG :: int where "S_IFREG = 0x8000"
definition S_IFLNK :: int where "S_IFLNK = 0xA000"
definition S_IMODE :: "int \<Rightarrow> int" where "S_IMODE mode = mode AND 0xFFF"

record directory_identity =
  di_device :: int
  di_inode :: int
  di_mode :: int
  di_uid :: int
  di_gid :: int

record file_identity =
  fi_device :: int
  fi_inode :: int
  fi_mode :: int
  fi_uid :: int
  fi_gid :: int
  fi_links :: int
  fi_size :: int
  fi_modified_ns :: int
  fi_changed_ns :: int

record source_pin =
  sp_parent :: directory_identity
  sp_file :: file_identity
  sp_material_digest :: bytes

definition directory_identity_of :: "file_stat \<Rightarrow> directory_identity" where
  "directory_identity_of m =
     \<lparr>di_device = st_dev m, di_inode = st_ino m, di_mode = st_mode m, di_uid = st_uid m, di_gid = st_gid m\<rparr>"

definition file_identity_of :: "file_stat \<Rightarrow> file_identity" where
  "file_identity_of m =
     \<lparr>fi_device = st_dev m, fi_inode = st_ino m, fi_mode = st_mode m, fi_uid = st_uid m, fi_gid = st_gid m,
      fi_links = st_nlink m, fi_size = st_size m, fi_modified_ns = st_mtime_ns m, fi_changed_ns = st_ctime_ns m\<rparr>"

definition OWNER_KEY_FILE_HEADER :: bytes where
  "OWNER_KEY_FILE_HEADER = encode ''MYCOGNI-OWNER-KEK'' @ [0, 1]"

definition OWNER_KEY_FILE_BYTES :: int where
  "OWNER_KEY_FILE_BYTES = len OWNER_KEY_FILE_HEADER + PROFILE_DEK_BYTES"

definition validate_ancestor :: "int \<Rightarrow> file_stat \<Rightarrow> bool \<Rightarrow> secret_failure + unit" where
  "validate_ancestor euid m final_parent =
     (if file_type (st_mode m) \<noteq> S_IFDIR \<or> st_mode m AND 0x12 \<noteq> 0 \<or> st_uid m \<notin> {0, euid} then Inl F_UNSAFE_STORAGE
      else if final_parent \<and> (st_uid m \<noteq> euid \<or> st_mode m AND 0x3F \<noteq> 0) then Inl F_UNSAFE_STORAGE
      else Inr ())"

definition validate_file :: "int \<Rightarrow> file_stat \<Rightarrow> secret_failure + unit" where
  "validate_file euid m =
     (if file_type (st_mode m) \<noteq> S_IFREG \<or> st_uid m \<noteq> euid \<or> S_IMODE (st_mode m) \<notin> {0x100, 0x180} \<or> st_nlink m \<noteq> 1
      then Inl F_UNSAFE_STORAGE
      else if st_size m \<noteq> OWNER_KEY_FILE_BYTES then Inl F_MALFORMED_RECORD
      else Inr ())"


section \<open>One opening\<close>

text \<open>\<^verbatim>\<open>FileNotFoundError\<close>, an error with \<^verbatim>\<open>ELOOP\<close> or \<^verbatim>\<open>ENOTDIR\<close>, any other \<^verbatim>\<open>OSError\<close>.\<close>

datatype os_error = Not_Found | Loop_Or_Not_Directory | Other_OS_Error

record observation =
  so_euid :: int
  so_lstat :: "path \<Rightarrow> os_error + file_stat"
  so_open_directory :: "path \<Rightarrow> os_error option"
  so_fstat_directory :: "path \<Rightarrow> file_stat option"
  so_close_directory :: "path \<Rightarrow> bool"
  so_parent :: "file_stat option"
  so_named :: "os_error + file_stat"
  so_open_file :: "os_error option"
  so_opened :: "file_stat option"
  so_reads :: "bytes option list"
  so_after :: "file_stat option"
  so_close_file :: bool
  so_close_parent :: bool

definition bind_ok :: "secret_failure + 'a \<Rightarrow> ('a \<Rightarrow> secret_failure + 'b) \<Rightarrow> secret_failure + 'b" where
  "bind_ok x f = (case x of Inl e \<Rightarrow> Inl e | Inr v \<Rightarrow> f v)"

lemma bind_ok_simps [simp]: "bind_ok (Inl e) f = Inl e" "bind_ok (Inr v) f = f v"
  by (simp_all add: bind_ok_def)

lemma bind_ok_Inr: "bind_ok x f = Inr y \<longleftrightarrow> (\<exists>v. x = Inr v \<and> f v = Inr y)"
  by (cases x) simp_all

definition require_ok :: "secret_failure \<Rightarrow> bool \<Rightarrow> secret_failure + unit" where
  "require_ok e b = (if b then Inr () else Inl e)"

lemma require_ok_Inr [simp]: "require_ok e b = Inr u \<longleftrightarrow> b"
  by (simp add: require_ok_def)

definition observed :: "'a option \<Rightarrow> secret_failure + 'a" where
  "observed x = (case x of None \<Rightarrow> Inl F_UNAVAILABLE | Some v \<Rightarrow> Inr v)"

lemma observed_Inr [simp]: "observed x = Inr v \<longleftrightarrow> x = Some v"
  by (cases x) (simp_all add: observed_def)

fun root_ancestors :: "observation \<Rightarrow> path \<Rightarrow> path \<Rightarrow> secret_failure + unit" where
  "root_ancestors obs done [] = Inr ()"
| "root_ancestors obs done (part # rest) =
     (case so_lstat obs (done @ [part]) of
        Inl Not_Found \<Rightarrow> Inr ()
      | Inl _ \<Rightarrow> Inl F_UNAVAILABLE
      | Inr m \<Rightarrow> if file_type (st_mode m) = S_IFLNK then Inl F_UNSAFE_STORAGE
                  else root_ancestors obs (done @ [part]) rest)"

fun validate_managed_root_ancestors :: "observation \<Rightarrow> path list \<Rightarrow> secret_failure + unit" where
  "validate_managed_root_ancestors obs [] = Inr ()"
| "validate_managed_root_ancestors obs (root # roots) =
     bind_ok (root_ancestors obs [] root) (\<lambda>_. validate_managed_root_ancestors obs roots)"

definition open_failure :: "os_error option \<Rightarrow> secret_failure + unit" where
  "open_failure e =
     (case e of
        None \<Rightarrow> Inr ()
      | Some Loop_Or_Not_Directory \<Rightarrow> Inl F_UNSAFE_STORAGE
      | Some _ \<Rightarrow> Inl F_UNAVAILABLE)"

lemma open_failure_Inr [simp]: "open_failure e = Inr u \<longleftrightarrow> e = None"
  by (auto simp: open_failure_def split: option.split os_error.split)

text \<open>The loop of \<^verbatim>\<open>_open_private_parent\<close>: the descriptor of \<open>done\<close> is open, \<open>rest\<close> is still to be walked.\<close>

fun walk_parents :: "observation \<Rightarrow> path \<Rightarrow> path \<Rightarrow> secret_failure + unit" where
  "walk_parents obs done [] = Inr ()"
| "walk_parents obs done (part # rest) =
     bind_ok (open_failure (so_open_directory obs (done @ [part]))) (\<lambda>_.
     bind_ok (require_ok F_UNAVAILABLE (so_close_directory obs done)) (\<lambda>_.
     bind_ok (observed (so_fstat_directory obs (done @ [part]))) (\<lambda>m.
     bind_ok (validate_ancestor (so_euid obs) m (rest = [])) (\<lambda>_.
       walk_parents obs (done @ [part]) rest))))"

definition open_private_parent :: "observation \<Rightarrow> path \<Rightarrow> secret_failure + directory_identity" where
  "open_private_parent obs key_path =
     bind_ok (open_failure (so_open_directory obs [])) (\<lambda>_.
     bind_ok (observed (so_fstat_directory obs [])) (\<lambda>m.
     bind_ok (validate_ancestor (so_euid obs) m (butlast key_path = [])) (\<lambda>_.
     bind_ok (walk_parents obs [] (butlast key_path)) (\<lambda>_.
     bind_ok (observed (so_parent obs)) (\<lambda>m. Inr (directory_identity_of m))))))"

text \<open>The read loop fills a buffer of \<open>n\<close> bytes; a read never returns more than is left of it.\<close>

fun read_source :: "nat \<Rightarrow> bytes option list \<Rightarrow> secret_failure + bytes" where
  "read_source 0 reads = Inr []"
| "read_source (Suc n) [] = Inl F_MALFORMED_RECORD"
| "read_source (Suc n) (None # reads) = Inl F_UNAVAILABLE"
| "read_source (Suc n) (Some chunk # reads) =
     (if chunk = [] then Inl F_MALFORMED_RECORD
      else bind_ok (read_source (Suc n - length chunk) reads) (\<lambda>bs. Inr (take (Suc n) chunk @ bs)))"

text \<open>The entry of the context manager; its exit fails when a descriptor does not close.\<close>

definition open_source ::
    "(bytes \<Rightarrow> bytes) \<Rightarrow> path \<Rightarrow> path list \<Rightarrow> observation \<Rightarrow> secret_failure + (bytes \<times> source_pin)" where
  "open_source sha256 key_path roots obs =
     bind_ok (require_ok F_UNSAFE_STORAGE (structurally_separate key_path roots)) (\<lambda>_.
     bind_ok (validate_managed_root_ancestors obs roots) (\<lambda>_.
     bind_ok (open_private_parent obs key_path) (\<lambda>parent.
     bind_ok (case so_named obs of Inl _ \<Rightarrow> Inl F_UNAVAILABLE | Inr m \<Rightarrow> Inr m) (\<lambda>named.
     bind_ok (validate_file (so_euid obs) named) (\<lambda>_.
     bind_ok (open_failure (so_open_file obs)) (\<lambda>_.
     bind_ok (observed (so_opened obs)) (\<lambda>opened.
     bind_ok (validate_file (so_euid obs) opened) (\<lambda>_.
     bind_ok (require_ok F_UNSAFE_STORAGE (file_identity_of opened = file_identity_of named)) (\<lambda>_.
     bind_ok (read_source (nat OWNER_KEY_FILE_BYTES) (so_reads obs)) (\<lambda>payload.
     bind_ok (observed (so_after obs)) (\<lambda>after_read.
     bind_ok (require_ok F_UNSAFE_STORAGE (file_identity_of opened = file_identity_of after_read)) (\<lambda>_.
     bind_ok (require_ok F_MALFORMED_RECORD
       (take (length OWNER_KEY_FILE_HEADER) payload = OWNER_KEY_FILE_HEADER)) (\<lambda>_.
       let material = drop (length OWNER_KEY_FILE_HEADER) payload
       in Inr (material, \<lparr>sp_parent = parent, sp_file = file_identity_of after_read,
                          sp_material_digest = sha256 material\<rparr>))))))))))))))"

definition close_source :: "observation \<Rightarrow> bool" where
  "close_source obs \<longleftrightarrow> so_close_file obs \<and> so_close_parent obs"

definition same_pin :: "source_pin \<Rightarrow> source_pin \<Rightarrow> bool" where
  "same_pin current expected \<longleftrightarrow>
     sp_parent current = sp_parent expected \<and> sp_file current = sp_file expected \<and>
     sp_material_digest current = sp_material_digest expected"

definition status_for_pin_difference :: "source_pin \<Rightarrow> source_pin \<Rightarrow> source_status" where
  "status_for_pin_difference current expected =
     (if sp_material_digest current \<noteq> sp_material_digest expected then SRC_READABLE else SRC_UNSAFE)"

definition source_status_for :: "secret_failure \<Rightarrow> source_status" where
  "source_status_for code =
     (if code = F_UNSAFE_STORAGE then SRC_UNSAFE
      else if code = F_MALFORMED_RECORD then SRC_CORRUPT
      else if code \<in> {F_CATALOG_KEY_MISMATCH, F_NONCE_REUSE, F_PROVIDER_ALREADY_ACTIVE, F_PROVIDER_MISMATCH, F_USAGE_LIMIT}
      then SRC_READABLE else SRC_UNAVAILABLE)"

lemma same_pin_eq: "same_pin a b \<longleftrightarrow> a = b"
  by (cases a; cases b) (simp add: same_pin_def)


section \<open>What an accepted source is\<close>

lemma is_within_iff: "is_within candidate root \<longleftrightarrow> (\<exists>rest. candidate = root @ rest)"
  by (auto simp: is_within_def) (metis append_take_drop_id)

lemma read_source_length: "read_source n reads = Inr bs \<Longrightarrow> length bs = n"
proof (induction reads arbitrary: n bs)
  case (Cons r reads)
  show ?case
  proof (cases n)
    case (Suc k)
    then obtain chunk where r: "r = Some chunk" "chunk \<noteq> []" using Cons.prems by (cases r) (auto split: if_splits)
    then obtain rest where "read_source (Suc k - length chunk) reads = Inr rest" "bs = take (Suc k) chunk @ rest"
      using Cons.prems Suc by (auto simp: bind_ok_Inr)
    then show ?thesis using Cons.IH [of "Suc k - length chunk" rest] Suc by simp
  qed (use Cons.prems in simp)
next
  case Nil
  then show ?case by (cases n) simp_all
qed

lemma validate_file_Inr:
  "validate_file euid m = Inr u \<longleftrightarrow>
     file_type (st_mode m) = S_IFREG \<and> st_uid m = euid \<and> S_IMODE (st_mode m) \<in> {0x100, 0x180} \<and> st_nlink m = 1 \<and>
     st_size m = OWNER_KEY_FILE_BYTES"
  by (auto simp: validate_file_def)

lemma validate_ancestor_Inr:
  "validate_ancestor euid m final = Inr u \<longleftrightarrow>
     file_type (st_mode m) = S_IFDIR \<and> st_mode m AND 0x12 = 0 \<and> st_uid m \<in> {0, euid} \<and>
     (final \<longrightarrow> st_uid m = euid \<and> st_mode m AND 0x3F = 0)"
  by (auto simp: validate_ancestor_def)

text \<open>
  A directory of the superuser or the owner in whose mode the write bits of the group (4) and of the
  others (1) are clear; the last one is the owner's, with every bit of the group and the others clear.
\<close>

definition private_directory :: "observation \<Rightarrow> bool \<Rightarrow> path \<Rightarrow> bool" where
  "private_directory obs final d \<longleftrightarrow>
     (\<exists>m. so_open_directory obs d = None \<and> so_fstat_directory obs d = Some m \<and>
        st_mode m AND 0xF000 = 0x4000 \<and> (st_uid m = 0 \<or> st_uid m = so_euid obs) \<and>
        \<not> bit (st_mode m) 4 \<and> \<not> bit (st_mode m) 1 \<and>
        (final \<longrightarrow> st_uid m = so_euid obs \<and> (\<forall>k < 6. \<not> bit (st_mode m) k)))"

lemma masked_bit: "m AND k = 0 \<Longrightarrow> bit k n \<Longrightarrow> \<not> bit m n" for m k :: int
  by (metis bit_and_iff bit_0_eq bot_apply bot_bool_def)

lemma validated_directory:
  assumes "so_open_directory obs d = None" and "so_fstat_directory obs d = Some m"
    and "validate_ancestor (so_euid obs) m final = Inr u"
  shows "private_directory obs final d"
proof -
  have v: "file_type (st_mode m) = S_IFDIR" "st_mode m AND 0x12 = 0" "st_uid m \<in> {0, so_euid obs}"
      "final \<Longrightarrow> st_uid m = so_euid obs \<and> st_mode m AND 0x3F = 0"
    using assms(3) by (auto simp: validate_ancestor_Inr)
  have "bit (0x12 :: int) 4" "bit (0x12 :: int) 1" by simp_all
  moreover have "bit (0x3F :: int) k" if "k < 6" for k using that by (auto simp: less_Suc_eq eval_nat_numeral)
  ultimately show ?thesis
    using assms(1,2) v masked_bit unfolding private_directory_def file_type_def S_IFDIR_def by blast
qed

lemma walk_parents_Inr:
  "walk_parents obs done rest = Inr u \<Longrightarrow> n < length rest \<Longrightarrow>
     private_directory obs (Suc n = length rest) (done @ take (Suc n) rest)"
proof (induction rest arbitrary: "done" n)
  case (Cons part rest)
  show ?case
  proof (cases n)
    case 0
    then show ?thesis using Cons.prems by (auto simp: bind_ok_Inr intro: validated_directory)
  next
    case (Suc k)
    have "walk_parents obs (done @ [part]) rest = Inr u" using Cons.prems(1) by (auto simp: bind_ok_Inr)
    then show ?thesis using Cons.IH [of "done @ [part]" k] Cons.prems(2) by (simp add: Suc)
  qed
qed simp

lemma open_private_parent_Inr:
  assumes "open_private_parent obs key_path = Inr d" and "n \<le> length (butlast key_path)"
  shows "private_directory obs (n = length (butlast key_path)) (take n (butlast key_path))"
proof (cases n)
  case 0
  have "(0 = length (butlast key_path)) = (butlast key_path = [])" by (metis length_0_conv)
  then show ?thesis using assms(1) by (auto simp: 0 open_private_parent_def bind_ok_Inr intro: validated_directory simp del: length_butlast)
next
  case (Suc k)
  have "walk_parents obs [] (butlast key_path) = Inr ()" using assms(1) by (auto simp: open_private_parent_def bind_ok_Inr)
  from walk_parents_Inr [OF this, of k] show ?thesis using assms(2) by (simp add: Suc)
qed

text \<open>No existing directory on the way to a managed root, nor the root, is a symbolic link.\<close>

definition unlinked :: "observation \<Rightarrow> path \<Rightarrow> bool" where
  "unlinked obs root \<longleftrightarrow>
     (\<forall>n. 0 < n \<longrightarrow> n \<le> length root \<longrightarrow> (\<forall>k. 0 < k \<longrightarrow> k < n \<longrightarrow> (\<exists>m. so_lstat obs (take k root) = Inr m)) \<longrightarrow>
        so_lstat obs (take n root) = Inl Not_Found \<or>
        (\<exists>m. so_lstat obs (take n root) = Inr m \<and> st_mode m AND 0xF000 \<noteq> 0xA000))"

lemma root_ancestors_Inr:
  assumes "root_ancestors obs done rest = Inr u" and "0 < n" and "n \<le> length rest"
    and "\<And>k. 0 < k \<Longrightarrow> k < n \<Longrightarrow> \<exists>m. so_lstat obs (done @ take k rest) = Inr m"
  shows "so_lstat obs (done @ take n rest) = Inl Not_Found \<or>
    (\<exists>m. so_lstat obs (done @ take n rest) = Inr m \<and> st_mode m AND 0xF000 \<noteq> 0xA000)"
  using assms
proof (induction rest arbitrary: "done" n)
  case (Cons part rest)
  have here: "so_lstat obs (done @ [part]) = Inl Not_Found \<or>
      (\<exists>m. so_lstat obs (done @ [part]) = Inr m \<and> st_mode m AND 0xF000 \<noteq> 0xA000 \<and> root_ancestors obs (done @ [part]) rest = Inr u)"
    using Cons.prems(1) by (auto simp: file_type_def S_IFLNK_def split: sum.splits os_error.splits if_splits)
  show ?case
  proof (cases "n = 1")
    case False
    then obtain l where l: "n = Suc l" "0 < l" using Cons.prems(2) by (cases n) auto
    then have "\<exists>m. so_lstat obs (done @ [part]) = Inr m" using Cons.prems(4) [of 1] by simp
    then have "root_ancestors obs (done @ [part]) rest = Inr u" using here by auto
    then show ?thesis using Cons.IH [of "done @ [part]" l] Cons.prems(3) Cons.prems(4) [of "Suc _"] l by simp
  qed (use here in auto)
qed simp

lemma validated_roots:
  "validate_managed_root_ancestors obs roots = Inr u \<Longrightarrow> root \<in> set roots \<Longrightarrow> unlinked obs root"
proof (induction roots)
  case (Cons r roots)
  have "root_ancestors obs [] r = Inr ()" "validate_managed_root_ancestors obs roots = Inr u"
    using Cons.prems(1) by (auto simp: bind_ok_Inr)
  then show ?case
    using Cons.IH Cons.prems(2) root_ancestors_Inr [of obs "[]" r "()"] by (auto simp: unlinked_def)
qed simp

lemma source_material:
  assumes "open_source sha256 key_path roots obs = Inr (material, pin)"
  shows "length material = 32" and "sp_material_digest pin = sha256 material"
proof -
  note o = assms [unfolded open_source_def bind_ok_Inr Let_def]
  obtain payload where p: "read_source (nat OWNER_KEY_FILE_BYTES) (so_reads obs) = Inr payload"
      "material = drop (length OWNER_KEY_FILE_HEADER) payload" "sp_material_digest pin = sha256 material"
    using o by auto
  have "length payload = 51" using read_source_length [OF p(1)] by (simp add: OWNER_KEY_FILE_BYTES_def OWNER_KEY_FILE_HEADER_def key_consts)
  then show "length material = 32" by (simp add: p(2) OWNER_KEY_FILE_HEADER_def)
  show "sp_material_digest pin = sha256 material" by (rule p(3))
qed

text \<open>A private source with given key material.\<close>

definition sample_directory :: file_stat where
  "sample_directory = \<lparr>st_dev = 1, st_ino = 2, st_mode = 0x41C0, st_uid = 7, st_gid = 7, st_nlink = 2, st_size = 0,
     st_mtime_ns = 0, st_ctime_ns = 0\<rparr>"

definition sample_file :: file_stat where
  "sample_file = \<lparr>st_dev = 1, st_ino = 3, st_mode = 0x8180, st_uid = 7, st_gid = 7, st_nlink = 1, st_size = 51,
     st_mtime_ns = 0, st_ctime_ns = 0\<rparr>"

definition sample_observation :: "bytes \<Rightarrow> observation" where
  "sample_observation material = \<lparr>so_euid = 7, so_lstat = (\<lambda>_. Inl Not_Found), so_open_directory = (\<lambda>_. None),
     so_fstat_directory = (\<lambda>_. Some sample_directory), so_close_directory = (\<lambda>_. True), so_parent = Some sample_directory,
     so_named = Inr sample_file, so_open_file = None, so_opened = Some sample_file,
     so_reads = [Some (OWNER_KEY_FILE_HEADER @ material)], so_after = Some sample_file, so_close_file = True,
     so_close_parent = True\<rparr>"

definition sample_pin :: "bytes \<Rightarrow> source_pin" where
  "sample_pin digest = \<lparr>sp_parent = directory_identity_of sample_directory, sp_file = file_identity_of sample_file,
     sp_material_digest = digest\<rparr>"

lemma sample_opens:
  assumes "length material = 32"
  shows "open_source sha256 [''keys'', ''kek''] [[''data'']] (sample_observation material) =
    Inr (material, sample_pin (sha256 material))"
proof -
  have modes: "validate_ancestor 7 sample_directory b = Inr ()" "validate_file 7 sample_file = Inr ()" for b
    by (simp_all add: validate_ancestor_def validate_file_def sample_directory_def sample_file_def file_type_def S_IFDIR_def
        S_IFREG_def S_IMODE_def OWNER_KEY_FILE_BYTES_def OWNER_KEY_FILE_HEADER_def key_consts)
  have head: "length OWNER_KEY_FILE_HEADER = 19" by (simp add: OWNER_KEY_FILE_HEADER_def)
  have "nat OWNER_KEY_FILE_BYTES = Suc 50" by (simp add: OWNER_KEY_FILE_BYTES_def head key_consts)
  moreover have "read_source (Suc 50) [Some (OWNER_KEY_FILE_HEADER @ material)] = Inr (OWNER_KEY_FILE_HEADER @ material)"
    unfolding read_source.simps using assms by (auto simp: head)
  ultimately have "read_source (nat OWNER_KEY_FILE_BYTES) [Some (OWNER_KEY_FILE_HEADER @ material)] = Inr (OWNER_KEY_FILE_HEADER @ material)"
    by metis
  then show ?thesis
    by (simp add: open_source_def sample_observation_def structurally_separate_def is_within_def open_private_parent_def
        modes require_ok_def observed_def open_failure_def sample_pin_def)
qed

lemma sample_closes [simp]: "close_source (sample_observation material)"
  by (simp add: close_source_def sample_observation_def)

text \<open>C38. Key material is taken only from a private source: every directory above the file belongs to the superuser or the
  owner and is writable by nobody else, the last one is the owner's alone; the file is a regular file of the owner with
  mode 0400 or 0600 and one link, was the same file before, at and after the read, and holds the header and 32 bytes of
  key; its directory is separate from every managed root, and no managed root is reached through a symbolic link.\<close>

theorem accepted_source_is_private:
  assumes "open_source sha256 key_path roots obs = Inr (material, pin)"
  shows "(\<forall>n \<le> length (butlast key_path).
      private_directory obs (n = length (butlast key_path)) (take n (butlast key_path))) \<and>
    (\<exists>m m' m''. so_named obs = Inr m \<and> so_opened obs = Some m' \<and> so_after obs = Some m'' \<and>
      file_identity_of m' = file_identity_of m \<and> file_identity_of m'' = file_identity_of m \<and>
      st_mode m AND 0xF000 = 0x8000 \<and> st_uid m = so_euid obs \<and>
      (st_mode m AND 0xFFF = 0x100 \<or> st_mode m AND 0xFFF = 0x180) \<and> st_nlink m = 1 \<and> sp_file pin = file_identity_of m) \<and>
    (\<forall>root \<in> set roots.
      (\<nexists>rest. butlast key_path = root @ rest) \<and> (\<nexists>rest. root = butlast key_path @ rest) \<and> unlinked obs root) \<and>
    read_source (nat OWNER_KEY_FILE_BYTES) (so_reads obs) = Inr (OWNER_KEY_FILE_HEADER @ material) \<and>
    length material = 32 \<and> sp_material_digest pin = sha256 material"
proof -
  note o = assms [unfolded open_source_def bind_ok_Inr Let_def]
  have "length material = 32" "sp_material_digest pin = sha256 material" using source_material [OF assms] by blast+
  moreover obtain parent where "open_private_parent obs key_path = Inr parent" using o by auto
  note open_private_parent_Inr [OF this]
  moreover have "\<exists>m m' m''. so_named obs = Inr m \<and> so_opened obs = Some m' \<and> so_after obs = Some m'' \<and>
      file_identity_of m' = file_identity_of m \<and> file_identity_of m'' = file_identity_of m \<and>
      st_mode m AND 0xF000 = 0x8000 \<and> st_uid m = so_euid obs \<and>
      (st_mode m AND 0xFFF = 0x100 \<or> st_mode m AND 0xFFF = 0x180) \<and> st_nlink m = 1 \<and> sp_file pin = file_identity_of m"
    using o by (auto simp: validate_file_Inr file_type_def S_IFREG_def S_IMODE_def split: sum.splits)
  moreover have "read_source (nat OWNER_KEY_FILE_BYTES) (so_reads obs) = Inr (OWNER_KEY_FILE_HEADER @ material)"
    using o by auto (metis append_take_drop_id)
  moreover have "structurally_separate key_path roots" "validate_managed_root_ancestors obs roots = Inr ()" using o by auto
  ultimately show ?thesis
    using validated_roots by (simp add: structurally_separate_def list_all_iff is_within_iff)
qed

theorem accepted_source_is_private_witness:
  "\<exists>pin. open_source (\<lambda>_. []) [''keys'', ''kek''] [[''data'']] (sample_observation (replicate 32 5)) = Inr (replicate 32 5, pin) \<and>
     private_directory (sample_observation (replicate 32 5)) True [''keys''] \<and>
     sp_file pin = file_identity_of sample_file"
proof -
  have "open_source (\<lambda>_. []) [''keys'', ''kek''] [[''data'']] (sample_observation (replicate 32 5)) =
      Inr (replicate 32 5, sample_pin [])"
    by (rule sample_opens) simp
  from accepted_source_is_private [OF this] this show ?thesis
    by (intro exI [of _ "sample_pin []"]) (auto simp: sample_observation_def dest!: spec [of _ "1 :: nat"])
qed

end
