(* ===== verification/Owner_File.thy ===== *)
theory Owner_File
  imports Owner_Source
begin

text \<open>
  \<^verbatim>\<open>OwnerFileSecretProvider\<close> of \<^verbatim>\<open>adapters/keys/owner_file.py\<close>: readiness by authenticating the sentinel, nonce
  preparation, completion and unwrapping of profile keys, with the process-wide registries.  AES-GCM
  and SHA-256 are a parameter \<open>L\<close>; each operation takes the process identifier it sees, the
  observations of the openings it makes, and the bytes the random source gives it.  The state lock
  makes each operation one step.
\<close>


section \<open>Library primitives and constants\<close>

text \<open>Decryption gives the plaintext, raises \<^verbatim>\<open>InvalidTag\<close>, or raises something else.\<close>

datatype aead_outcome = Plaintext bytes | Invalid_Tag | Aead_Raises

record key_lib =
  kl_sha256 :: "bytes \<Rightarrow> bytes"
  kl_encrypt :: "bytes \<Rightarrow> bytes \<Rightarrow> bytes \<Rightarrow> bytes \<Rightarrow> bytes option"
  kl_decrypt :: "bytes \<Rightarrow> bytes \<Rightarrow> bytes \<Rightarrow> bytes \<Rightarrow> aead_outcome"

text \<open>AES-GCM appends a tag of 16 bytes and inverts itself under the same key, nonce and associated data.\<close>

definition key_lib_ok :: "key_lib \<Rightarrow> bool" where
  "key_lib_ok L \<longleftrightarrow>
     (\<forall>k n p a. length k = 32 \<longrightarrow> length n = 12 \<longrightarrow>
        (\<exists>c. kl_encrypt L k n p a = Some c \<and> length c = length p + 16 \<and> kl_decrypt L k n c a = Plaintext p))"

definition OWNER_FILE_PROVIDER_KIND :: string where "OWNER_FILE_PROVIDER_KIND = ''owner-file''"
definition DEFAULT_PROCESS_WRAP_LIMIT :: int where "DEFAULT_PROCESS_WRAP_LIMIT = 100000"
definition PROFILE_AAD_PREFIX :: bytes where
  "PROFILE_AAD_PREFIX = encode ''MyCogni'' @ [0] @ encode ''profile-dek-wrap'' @ [0]"
definition SENTINEL_AAD_PREFIX :: bytes where
  "SENTINEL_AAD_PREFIX = encode ''MyCogni'' @ [0] @ encode ''readiness-sentinel'' @ [0]"
definition COMMITMENT_PREFIX :: bytes where
  "COMMITMENT_PREFIX = encode ''MyCogni'' @ [0] @ encode ''sentinel-record-commitment'' @ [0]"
definition READINESS_PLAINTEXT :: bytes where "READINESS_PLAINTEXT = encode ''MyCogni-readiness-sentinel-v1!!!''"
definition PROVIDER_KIND_ID :: nat where "PROVIDER_KIND_ID = 1"
definition SUITE_ID :: nat where "SUITE_ID = 1"


section \<open>State\<close>

record wrap_state =
  ws_limit :: int
  ws_count :: int
  ws_used_nonces :: "bytes list"
  ws_sentinel_records :: "(bytes, bytes) dict"
  ws_nonce_reuse_latched :: bool

text \<open>The registries of the process; a provider is known by its issuer token.\<close>

record key_process =
  pr_pid :: int
  pr_live_paths :: "(path, nat) dict"
  pr_live_keys :: "(bytes, nat) dict"
  pr_wrap_states :: "(bytes, wrap_state) dict"

record owner_provider =
  ow_issuer :: nat
  ow_pid :: int
  ow_key_path :: path
  ow_active_kek :: active_kek_ref
  ow_installation_id :: uuid
  ow_catalog_id :: uuid
  ow_sentinel_id :: uuid
  ow_readiness_sentinel :: readiness_sentinel
  ow_managed_roots :: "path list"
  ow_process_wrap_limit :: int
  ow_source_pin :: "source_pin option"
  ow_recovery_latched :: bool
  ow_latched_source_status :: source_status
  ow_wrap_domain :: "bytes option"

type_synonym key_world = "owner_provider \<times> key_process"

datatype provider_error = Provider_Failed secret_failure | Provider_Bad_Value

definition new_provider ::
    "int \<Rightarrow> nat \<Rightarrow> path \<Rightarrow> active_kek_ref \<Rightarrow> uuid \<Rightarrow> uuid \<Rightarrow> uuid \<Rightarrow> readiness_sentinel \<Rightarrow> path list \<Rightarrow> int \<Rightarrow>
     key_process \<Rightarrow> (provider_error + owner_provider) \<times> key_process" where
  "new_provider pid issuer key_path kek installation catalog sentinel_id sentinel roots limit w =
     (if pid \<noteq> pr_pid w then (Inl (Provider_Failed F_FORKED_PROCESS), w)
      else if kk_provider_kind kek \<noteq> OWNER_FILE_PROVIDER_KIND then (Inl Provider_Bad_Value, w)
      else if rs_kek_ref sentinel \<noteq> kek \<or> rs_installation_id sentinel \<noteq> installation \<or>
              rs_catalog_id sentinel \<noteq> catalog \<or> rs_sentinel_id sentinel \<noteq> sentinel_id
      then (Inl Provider_Bad_Value, w)
      else if \<not> (1 \<le> limit \<and> limit \<le> DEFAULT_PROCESS_WRAP_LIMIT) then (Inl Provider_Bad_Value, w)
      else if roots = [] then (Inl Provider_Bad_Value, w)
      else if \<not> structurally_separate key_path roots then (Inl (Provider_Failed F_UNSAFE_STORAGE), w)
      else if map_of (pr_live_paths w) key_path \<noteq> None then (Inl (Provider_Failed F_PROVIDER_ALREADY_ACTIVE), w)
      else (Inr \<lparr>ow_issuer = issuer, ow_pid = pid, ow_key_path = key_path, ow_active_kek = kek,
                 ow_installation_id = installation, ow_catalog_id = catalog, ow_sentinel_id = sentinel_id,
                 ow_readiness_sentinel = sentinel, ow_managed_roots = roots, ow_process_wrap_limit = limit,
                 ow_source_pin = None, ow_recovery_latched = False, ow_latched_source_status = SRC_UNAVAILABLE,
                 ow_wrap_domain = None\<rparr>,
            w\<lparr>pr_live_paths := AList.update key_path issuer (pr_live_paths w)\<rparr>))"

text \<open>The weak registries forget a provider that is no longer referenced.\<close>

definition forget_provider :: "nat \<Rightarrow> key_process \<Rightarrow> key_process" where
  "forget_provider issuer w =
     w\<lparr>pr_live_paths := filter (\<lambda>(_, i). i \<noteq> issuer) (pr_live_paths w),
       pr_live_keys := filter (\<lambda>(_, i). i \<noteq> issuer) (pr_live_keys w)\<rparr>"

definition new_process :: "int \<Rightarrow> key_process" where
  "new_process pid = \<lparr>pr_pid = pid, pr_live_paths = [], pr_live_keys = [], pr_wrap_states = []\<rparr>"


section \<open>Associated data\<close>

definition profile_aad :: "active_kek_ref \<Rightarrow> profile_key_binding \<Rightarrow> bytes" where
  "profile_aad kek b =
     PROFILE_AAD_PREFIX @ to_bytes_be 2 1 @ to_bytes_be 2 1 @ uuid_bytes (pb_installation_id b) @
     uuid_bytes (pb_profile_id b) @ to_bytes_be 4 (nat (pb_profile_key_version b)) @
     to_bytes_be 2 (nat (pb_catalog_schema_version b)) @ to_bytes_be 1 PROVIDER_KIND_ID @
     uuid_bytes (kk_provider_instance_id kek) @ uuid_bytes (kk_kek_id kek) @
     to_bytes_be 4 (nat (kk_kek_version kek)) @ to_bytes_be 1 SUITE_ID"

definition sentinel_aad :: "owner_provider \<Rightarrow> bytes" where
  "sentinel_aad p =
     SENTINEL_AAD_PREFIX @ to_bytes_be 2 (nat (rs_format_version (ow_readiness_sentinel p))) @
     to_bytes_be 2 (nat (rs_aad_version (ow_readiness_sentinel p))) @ uuid_bytes (ow_installation_id p) @
     uuid_bytes (ow_catalog_id p) @ uuid_bytes (ow_sentinel_id p) @ to_bytes_be 1 PROVIDER_KIND_ID @
     uuid_bytes (kk_provider_instance_id (ow_active_kek p)) @ uuid_bytes (kk_kek_id (ow_active_kek p)) @
     to_bytes_be 4 (nat (kk_kek_version (ow_active_kek p))) @ to_bytes_be 1 SUITE_ID"

definition sentinel_record_commitment :: "key_lib \<Rightarrow> owner_provider \<Rightarrow> bytes" where
  "sentinel_record_commitment L p =
     (let aad = sentinel_aad p; ciphertext = rs_ciphertext (ow_readiness_sentinel p)
      in kl_sha256 L (COMMITMENT_PREFIX @ to_bytes_be 4 (length aad) @ aad @
                      to_bytes_be 4 (length ciphertext) @ ciphertext))"


section \<open>Latches and registries\<close>

definition latch_recovery :: "source_status \<Rightarrow> owner_provider \<Rightarrow> owner_provider" where
  "latch_recovery status p =
     p\<lparr>ow_recovery_latched := True, ow_latched_source_status := status, ow_source_pin := None\<rparr>"

definition latch_or_preserve_recovery :: "secret_failure \<Rightarrow> owner_provider \<Rightarrow> source_status \<times> owner_provider" where
  "latch_or_preserve_recovery code p =
     (if ow_recovery_latched p then (ow_latched_source_status p, p)
      else (source_status_for code, latch_recovery (source_status_for code) p))"

definition wrap_state_of :: "key_world \<Rightarrow> wrap_state option" where
  "wrap_state_of = (\<lambda>(p, w). case ow_wrap_domain p of None \<Rightarrow> None | Some d \<Rightarrow> map_of (pr_wrap_states w) d)"

definition handle_is_current :: "int \<Rightarrow> nat \<Rightarrow> key_world \<Rightarrow> bool" where
  "handle_is_current pid token = (\<lambda>(p, w).
     token = ow_issuer p \<and> pid = ow_pid p \<and> \<not> ow_recovery_latched p \<and>
     (case wrap_state_of (p, w) of None \<Rightarrow> False | Some s \<Rightarrow> \<not> ws_nonce_reuse_latched s))"

definition assert_domain_unlatched :: "wrap_state \<Rightarrow> key_world \<Rightarrow> (secret_failure + unit) \<times> key_world" where
  "assert_domain_unlatched s = (\<lambda>(p, w).
     if ws_nonce_reuse_latched s then (Inl F_RECOVERY_REQUIRED, (latch_recovery SRC_READABLE p, w)) else (Inr (), (p, w)))"

text \<open>\<^verbatim>\<open>_require_ready_state\<close> and the check of the domain that follows it.\<close>

definition require_unlatched_state :: "key_world \<Rightarrow> (secret_failure + unit) \<times> key_world" where
  "require_unlatched_state pw =
     (case wrap_state_of pw of
        None \<Rightarrow> (Inl F_READINESS_REQUIRED, pw)
      | Some s \<Rightarrow> assert_domain_unlatched s pw)"

definition require_ready :: "key_world \<Rightarrow> (secret_failure + source_pin) \<times> key_world" where
  "require_ready = (\<lambda>(p, w).
     if ow_recovery_latched p then (Inl F_RECOVERY_REQUIRED, (p, w))
     else case wrap_state_of (p, w) of
            None \<Rightarrow> (Inl F_READINESS_REQUIRED, (p, w))
          | Some s \<Rightarrow>
              (case ow_source_pin p of
                 None \<Rightarrow> (Inl F_READINESS_REQUIRED, (p, w))
               | Some pin \<Rightarrow>
                   (case assert_domain_unlatched s (p, w) of
                      (Inl e, pw) \<Rightarrow> (Inl e, pw)
                    | (Inr _, pw) \<Rightarrow> (Inr pin, pw))))"

definition record_authenticated_sentinel :: "key_lib \<Rightarrow> bytes \<Rightarrow> key_world \<Rightarrow> (secret_failure + unit) \<times> key_world" where
  "record_authenticated_sentinel L domain = (\<lambda>(p, w).
     let nonce = rs_nonce (ow_readiness_sentinel p);
         commitment = sentinel_record_commitment L p;
         s = (case map_of (pr_wrap_states w) domain of
                None \<Rightarrow> \<lparr>ws_limit = ow_process_wrap_limit p, ws_count = 0, ws_used_nonces = [], ws_sentinel_records = [],
                         ws_nonce_reuse_latched = False\<rparr>
              | Some s \<Rightarrow> s);
         store = (\<lambda>s. w\<lparr>pr_wrap_states := AList.update domain s (pr_wrap_states w)\<rparr>)
     in if ws_nonce_reuse_latched s then (Inl F_NONCE_REUSE, (p, store s))
        else if nonce \<in> set (ws_used_nonces s) \<or>
                (case map_of (ws_sentinel_records s) nonce of None \<Rightarrow> False | Some c \<Rightarrow> c \<noteq> commitment)
        then (Inl F_NONCE_REUSE, (p, store (s\<lparr>ws_nonce_reuse_latched := True\<rparr>)))
        else (Inr (), (p, store (s\<lparr>ws_sentinel_records := AList.update nonce commitment (ws_sentinel_records s)\<rparr>))))"

definition activate_key_domain :: "key_lib \<Rightarrow> bytes \<Rightarrow> key_world \<Rightarrow> (secret_failure + unit) \<times> key_world" where
  "activate_key_domain L domain = (\<lambda>(p, w).
     case map_of (pr_wrap_states w) domain of
       None \<Rightarrow> (Inl F_UNAVAILABLE, (p, w))
     | Some s \<Rightarrow>
         if ws_nonce_reuse_latched s \<or>
            map_of (ws_sentinel_records s) (rs_nonce (ow_readiness_sentinel p)) \<noteq> Some (sentinel_record_commitment L p)
         then (Inl F_NONCE_REUSE, (p, w))
         else if ws_limit s \<noteq> ow_process_wrap_limit p then (Inl F_PROVIDER_MISMATCH, (p, w))
         else if (case map_of (pr_live_keys w) domain of None \<Rightarrow> False | Some i \<Rightarrow> i \<noteq> ow_issuer p)
         then (Inl F_PROVIDER_ALREADY_ACTIVE, (p, w))
         else (Inr (), (p\<lparr>ow_wrap_domain := Some domain\<rparr>,
                        w\<lparr>pr_live_keys := AList.update domain (ow_issuer p) (pr_live_keys w)\<rparr>)))"


section \<open>Material sessions\<close>

text \<open>A failure of the session itself, or the error of the operation that ran in it.\<close>

datatype 'e session_error = Session_Failed secret_failure | Operation_Failed 'e

definition opened :: "key_lib \<Rightarrow> int \<Rightarrow> observation \<Rightarrow> owner_provider \<Rightarrow> secret_failure + (bytes \<times> source_pin)" where
  "opened L pid obs p =
     (if pid \<noteq> ow_pid p then Inl F_FORKED_PROCESS
      else open_source (kl_sha256 L) (ow_key_path p) (ow_managed_roots p) obs)"

text \<open>The second opening after the operation, and the latches of a difference.\<close>

definition reopen ::
    "key_lib \<Rightarrow> int \<Rightarrow> observation \<Rightarrow> source_pin option \<Rightarrow> source_pin \<Rightarrow> owner_provider \<Rightarrow> (secret_failure + unit) \<times> owner_provider" where
  "reopen L pid obs required initial p =
     (case opened L pid obs p of
        Inl e \<Rightarrow> (Inl e, latch_recovery (source_status_for e) p)
      | Inr (_, after) \<Rightarrow>
          if \<not> same_pin after initial
          then (Inl F_UNSAFE_STORAGE,
                latch_recovery (source_status_for F_UNSAFE_STORAGE)
                  (case required of None \<Rightarrow> p | Some pin \<Rightarrow> latch_recovery (status_for_pin_difference after pin) p))
          else if close_source obs then (Inr (), p)
          else (Inl F_UNAVAILABLE, latch_recovery (source_status_for F_UNAVAILABLE) p))"

text \<open>The handler of the session: a failure of its own latches a provider that requires a pin.\<close>

definition session_failure ::
    "source_pin option \<Rightarrow> secret_failure \<Rightarrow> key_world \<Rightarrow> ('e session_error + 'a) \<times> key_world" where
  "session_failure required e = (\<lambda>(p, w).
     (Inl (Session_Failed e),
      (if required \<noteq> None \<and> e \<notin> {F_READINESS_REQUIRED, F_RECOVERY_REQUIRED} then latch_recovery (source_status_for e) p else p, w)))"

definition session_body ::
    "key_lib \<Rightarrow> int \<Rightarrow> observation \<Rightarrow> observation \<Rightarrow> source_pin option \<Rightarrow>
     (bytes \<Rightarrow> source_pin \<Rightarrow> key_world \<Rightarrow> ('e + 'a) \<times> key_world) \<Rightarrow> bytes \<Rightarrow> source_pin \<Rightarrow> key_world \<Rightarrow>
     ('e session_error + 'a) \<times> key_world" where
  "session_body L pid o1 o2 required body material initial pw =
     (case body material initial pw of
        (result, (p1, w1)) \<Rightarrow>
          (case reopen L pid o2 required initial p1 of
             (post, p2) \<Rightarrow>
               (case result of
                  Inl e \<Rightarrow> (Inl (Operation_Failed e), (p2, w1))
                | Inr v \<Rightarrow>
                    (case post of
                       Inl e \<Rightarrow> session_failure required e (p2, w1)
                     | Inr _ \<Rightarrow> if close_source o1 then (Inr v, (p2, w1))
                                  else session_failure required F_UNAVAILABLE (p2, w1)))))"

definition material_session ::
    "key_lib \<Rightarrow> int \<Rightarrow> observation \<Rightarrow> observation \<Rightarrow> source_pin option \<Rightarrow>
     (bytes \<Rightarrow> source_pin \<Rightarrow> key_world \<Rightarrow> ('e + 'a) \<times> key_world) \<Rightarrow> key_world \<Rightarrow> ('e session_error + 'a) \<times> key_world" where
  "material_session L pid o1 o2 required body pw =
     (case opened L pid o1 (fst pw) of
        Inl e \<Rightarrow> session_failure required e pw
      | Inr (material, initial) \<Rightarrow>
          (case required of
             Some pin \<Rightarrow>
               if \<not> same_pin initial pin
               then session_failure required F_RECOVERY_REQUIRED
                      (latch_recovery (status_for_pin_difference initial pin) (fst pw), snd pw)
               else session_body L pid o1 o2 required body material initial pw
           | None \<Rightarrow> session_body L pid o1 o2 required body material initial pw))"

text \<open>The session of an operation that requires the pin, and the check of the key domain after it.\<close>

definition pinned_session ::
    "key_lib \<Rightarrow> int \<Rightarrow> observation \<Rightarrow> observation \<Rightarrow> source_pin \<Rightarrow>
     (bytes \<Rightarrow> source_pin \<Rightarrow> key_world \<Rightarrow> ('e + 'a) \<times> key_world) \<Rightarrow> key_world \<Rightarrow> ('e session_error + 'a) \<times> key_world" where
  "pinned_session L pid o1 o2 pin body pw =
     (case material_session L pid o1 o2 (Some pin) body pw of
        (Inl e, pw1) \<Rightarrow> (Inl e, pw1)
      | (Inr v, pw1) \<Rightarrow>
          (case require_unlatched_state pw1 of
             (Inl e, pw2) \<Rightarrow> (Inl (Session_Failed e), pw2)
           | (Inr _, pw2) \<Rightarrow> (Inr v, pw2)))"

text \<open>Handing an error of the session on: the operations that run in it raise provider errors only.\<close>

fun session_code :: "secret_failure session_error \<Rightarrow> secret_failure" where
  "session_code (Session_Failed e) = e"
| "session_code (Operation_Failed e) = e"


section \<open>Operations\<close>

definition active_kek :: "int \<Rightarrow> key_world \<Rightarrow> secret_failure + active_kek_ref" where
  "active_kek pid pw = (if pid \<noteq> ow_pid (fst pw) then Inl F_FORKED_PROCESS else Inr (ow_active_kek (fst pw)))"

text \<open>The source is opened once, or twice when it is pinned; a failure is a status, not an error.\<close>

definition read_source_status ::
    "key_lib \<Rightarrow> int \<Rightarrow> observation \<Rightarrow> observation \<Rightarrow> key_world \<Rightarrow> (secret_failure + source_status) \<times> key_world" where
  "read_source_status L pid o1 o2 pw =
     (if pid \<noteq> ow_pid (fst pw) then (Inl F_FORKED_PROCESS, pw)
      else let failed = (\<lambda>e pw. (Inr (if e = F_RECOVERY_REQUIRED \<and> ow_recovery_latched (fst pw)
                                       then ow_latched_source_status (fst pw) else source_status_for e), pw))
           in case ow_source_pin (fst pw) of
                None \<Rightarrow>
                  (case opened L pid o1 (fst pw) of
                     Inl e \<Rightarrow> failed e pw
                   | Inr _ \<Rightarrow> if close_source o1 then (Inr SRC_READABLE, pw) else failed F_UNAVAILABLE pw)
              | Some pin \<Rightarrow>
                  (case material_session L pid o1 o2 (Some pin) (\<lambda>_ _ pw. (Inr (), pw)) pw of
                     (Inl e, pw1) \<Rightarrow> failed (session_code e) pw1
                   | (Inr _, pw1) \<Rightarrow> (Inr SRC_READABLE, pw1)))"

text \<open>
  The body of the readiness session: the sentinel is authenticated and accounted for.  It returns
  the answer that ends the call early, or nothing when the domain may be activated.
\<close>

definition readiness_body ::
    "key_lib \<Rightarrow> bytes \<Rightarrow> source_pin \<Rightarrow> key_world \<Rightarrow> (secret_failure + source_status option) \<times> key_world" where
  "readiness_body L material snapshot = (\<lambda>(p, w).
     let s = ow_readiness_sentinel p;
         refuse = (\<lambda>status (p, w). (Inr (Some status), (latch_recovery status p, w)))
     in case kl_decrypt L material (rs_nonce s) (rs_ciphertext s) (sentinel_aad p) of
          Invalid_Tag \<Rightarrow> refuse SRC_READABLE (p, w)
        | Aead_Raises \<Rightarrow> refuse SRC_UNAVAILABLE (p, w)
        | Plaintext text \<Rightarrow>
            if length text \<noteq> length READINESS_PLAINTEXT then refuse SRC_UNAVAILABLE (p, w)
            else (case record_authenticated_sentinel L (sp_material_digest snapshot) (p, w) of
                    (Inl e, pw) \<Rightarrow> (Inl e, pw)
                  | (Inr _, pw) \<Rightarrow> if text \<noteq> READINESS_PLAINTEXT then refuse SRC_READABLE pw else (Inr None, pw)))"

definition recovery_answer :: "source_status \<Rightarrow> key_readiness" where
  "recovery_answer status = \<lparr>rd_state = KEY_RECOVERY_REQUIRED, rd_source_status = status\<rparr>"

definition readiness_operation ::
    "key_lib \<Rightarrow> bytes \<Rightarrow> source_pin \<Rightarrow> key_world \<Rightarrow> (secret_failure + source_pin \<times> source_status option) \<times> key_world" where
  "readiness_operation L material snapshot pw =
     (case readiness_body L material snapshot pw of
        (Inl e, pw') \<Rightarrow> (Inl e, pw')
      | (Inr r, pw') \<Rightarrow> (Inr (snapshot, r), pw'))"

definition readiness_failed :: "secret_failure \<Rightarrow> key_world \<Rightarrow> (secret_failure + key_readiness) \<times> key_world" where
  "readiness_failed e = (\<lambda>(p, w).
     case latch_or_preserve_recovery e p of (status, p') \<Rightarrow> (Inr (recovery_answer status), (p', w)))"

definition finish_readiness ::
    "key_lib \<Rightarrow> secret_failure session_error + source_pin \<times> source_status option \<Rightarrow> key_world \<Rightarrow>
     (secret_failure + key_readiness) \<times> key_world" where
  "finish_readiness L q pw =
     (case q of
        Inl e \<Rightarrow> readiness_failed (session_code e) pw
      | Inr (snapshot, Some status) \<Rightarrow> (Inr (recovery_answer status), pw)
      | Inr (snapshot, None) \<Rightarrow>
          (case activate_key_domain L (sp_material_digest snapshot) pw of
             (Inl e, pw1) \<Rightarrow> readiness_failed e pw1
           | (Inr _, (p, w)) \<Rightarrow>
               (Inr \<lparr>rd_state = KEY_READY, rd_source_status = SRC_READABLE\<rparr>, (p\<lparr>ow_source_pin := Some snapshot\<rparr>, w))))"

definition readiness ::
    "key_lib \<Rightarrow> int \<Rightarrow> observation \<Rightarrow> observation \<Rightarrow> key_world \<Rightarrow> (secret_failure + key_readiness) \<times> key_world" where
  "readiness L pid o1 o2 pw =
     (if pid \<noteq> ow_pid (fst pw) then (Inl F_FORKED_PROCESS, pw)
      else if ow_recovery_latched (fst pw) then (Inr (recovery_answer (ow_latched_source_status (fst pw))), pw)
      else case material_session L pid o1 o2 (ow_source_pin (fst pw)) (readiness_operation L) pw of
             (q, pw1) \<Rightarrow> finish_readiness L q pw1)"

text \<open>\<open>draw\<close> is what the operating system's random source gives, or nothing when it raises.\<close>

definition reserve_nonce :: "int \<Rightarrow> bytes option \<Rightarrow> key_world \<Rightarrow> (secret_failure + bytes) \<times> key_world" where
  "reserve_nonce pid draw = (\<lambda>(p, w).
     if pid \<noteq> ow_pid p then (Inl F_FORKED_PROCESS, (p, w))
     else case ow_wrap_domain p of
            None \<Rightarrow> (Inl F_READINESS_REQUIRED, (p, w))
          | Some d \<Rightarrow>
              (case map_of (pr_wrap_states w) d of
                 None \<Rightarrow> (Inl F_READINESS_REQUIRED, (p, w))
               | Some s \<Rightarrow>
                   if ws_nonce_reuse_latched s then (Inl F_NONCE_REUSE, (p, w))
                   else if ws_count s \<ge> ws_limit s then (Inl F_USAGE_LIMIT, (p, w))
                   else (case draw of
                           None \<Rightarrow> (Inl F_UNAVAILABLE, (p, w))
                         | Some nonce \<Rightarrow>
                             let store = (\<lambda>s. w\<lparr>pr_wrap_states := AList.update d s (pr_wrap_states w)\<rparr>)
                             in if len nonce \<noteq> WRAP_NONCE_BYTES then (Inl F_UNAVAILABLE, (p, w))
                                else if nonce \<in> set (ws_used_nonces s) \<or> map_of (ws_sentinel_records s) nonce \<noteq> None
                                then (Inl F_NONCE_REUSE, (p, store (s\<lparr>ws_nonce_reuse_latched := True\<rparr>)))
                                else (Inr nonce, (p, store (s\<lparr>ws_used_nonces := ws_used_nonces s @ [nonce],
                                                              ws_count := ws_count s + 1\<rparr>))))))"

definition prepare_profile_key ::
    "key_lib \<Rightarrow> int \<Rightarrow> observation \<Rightarrow> observation \<Rightarrow> bytes option \<Rightarrow> profile_key_binding \<Rightarrow> key_world \<Rightarrow>
     (secret_failure + key_preparation) \<times> key_world" where
  "prepare_profile_key L pid o1 o2 draw b pw =
     (if pid \<noteq> ow_pid (fst pw) then (Inl F_FORKED_PROCESS, pw)
      else if pb_installation_id b \<noteq> ow_installation_id (fst pw) then (Inl F_PROVIDER_MISMATCH, pw)
      else case require_ready pw of
             (Inl e, pw1) \<Rightarrow> (Inl e, pw1)
           | (Inr pin, pw1) \<Rightarrow>
               (case pinned_session L pid o1 o2 pin (\<lambda>_ _ pw. reserve_nonce pid draw pw) pw1 of
                  (Inl e, pw2) \<Rightarrow> (Inl (session_code e), pw2)
                | (Inr nonce, pw2) \<Rightarrow>
                    (Inr \<lparr>kp_binding = b, kp_nonce = nonce, kp_issuer = ow_issuer (fst pw2), kp_pid = ow_pid (fst pw2),
                          kp_consumed = False\<rparr>, pw2)))"

definition new_profile_material :: "bytes option \<Rightarrow> secret_failure + bytes" where
  "new_profile_material draw =
     (case draw of
        None \<Rightarrow> Inl F_UNAVAILABLE
      | Some generated \<Rightarrow> if len generated \<noteq> PROFILE_DEK_BYTES then Inl F_UNAVAILABLE else Inr generated)"

definition encrypt_profile_key ::
    "key_lib \<Rightarrow> bytes \<Rightarrow> bytes \<Rightarrow> bytes \<Rightarrow> key_world \<Rightarrow> profile_key_binding \<Rightarrow> secret_failure + bytes" where
  "encrypt_profile_key L material nonce profile_material pw b =
     (case kl_encrypt L material nonce profile_material (profile_aad (ow_active_kek (fst pw)) b) of
        None \<Rightarrow> Inl F_UNAVAILABLE
      | Some c \<Rightarrow> if len c \<noteq> PROFILE_DEK_BYTES + 16 then Inl F_UNAVAILABLE else Inr c)"

definition complete_profile_key ::
    "key_lib \<Rightarrow> int \<Rightarrow> observation \<Rightarrow> observation \<Rightarrow> bytes option \<Rightarrow> key_preparation \<Rightarrow> key_world \<Rightarrow>
     (secret_failure + wrapped_profile_key) \<times> key_preparation \<times> key_world" where
  "complete_profile_key L pid o1 o2 draw prep pw =
     (if pid \<noteq> ow_pid (fst pw) then (Inl F_FORKED_PROCESS, prep, pw)
      else case consume_preparation pid (ow_issuer (fst pw)) (handle_is_current pid (ow_issuer (fst pw)) pw) prep of
             (Inl _, prep1) \<Rightarrow> (Inl F_MALFORMED_RECORD, prep1, pw)
           | (Inr (b, nonce), prep1) \<Rightarrow>
               (case require_ready pw of
                  (Inl e, pw1) \<Rightarrow> (Inl e, prep1, pw1)
                | (Inr pin, pw1) \<Rightarrow>
                    (case new_profile_material draw of
                       Inl e \<Rightarrow> (Inl e, prep1, pw1)
                     | Inr profile_material \<Rightarrow>
                         (case pinned_session L pid o1 o2 pin
                                 (\<lambda>material _ pw. (encrypt_profile_key L material nonce profile_material pw b, pw)) pw1 of
                            (Inl e, pw2) \<Rightarrow> (Inl (session_code e), prep1, pw2)
                          | (Inr c, pw2) \<Rightarrow>
                              (Inr \<lparr>wk_kek_ref = ow_active_kek (fst pw2), wk_binding = b, wk_nonce = nonce, wk_ciphertext = c,
                                    wk_format_version = WRAPPED_KEY_FORMAT_VERSION, wk_aad_version = WRAPPED_KEY_AAD_VERSION,
                                    wk_suite = WRAP_SUITE\<rparr>, prep1, pw2)))))"

text \<open>What the unwrapping session raises: a provider error, \<^verbatim>\<open>InvalidTag\<close>, or something else.\<close>

datatype unwrap_error = Unwrap_Failed secret_failure | Unwrap_Invalid_Tag | Unwrap_Raises

definition decrypt_profile_key ::
    "key_lib \<Rightarrow> bytes \<Rightarrow> wrapped_profile_key \<Rightarrow> profile_key_binding \<Rightarrow> key_world \<Rightarrow> unwrap_error + bytes" where
  "decrypt_profile_key L material wrapped b pw =
     (case kl_decrypt L material (wk_nonce wrapped) (wk_ciphertext wrapped) (profile_aad (ow_active_kek (fst pw)) b) of
        Invalid_Tag \<Rightarrow> Inl Unwrap_Invalid_Tag
      | Aead_Raises \<Rightarrow> Inl Unwrap_Raises
      | Plaintext text \<Rightarrow> if len text \<noteq> PROFILE_DEK_BYTES then Inl (Unwrap_Failed F_UNAVAILABLE) else Inr text)"

definition unwrap_failure :: "unwrap_error session_error \<Rightarrow> key_world \<Rightarrow> secret_failure \<times> key_world" where
  "unwrap_failure e = (\<lambda>(p, w).
     case e of
       Session_Failed code \<Rightarrow> (code, (p, w))
     | Operation_Failed (Unwrap_Failed code) \<Rightarrow> (code, (p, w))
     | Operation_Failed Unwrap_Invalid_Tag \<Rightarrow>
         (F_CATALOG_KEY_MISMATCH, (if ow_recovery_latched p then p else latch_recovery SRC_READABLE p, w))
     | Operation_Failed Unwrap_Raises \<Rightarrow> (F_UNAVAILABLE, (p, w)))"

definition unwrap_profile_key ::
    "key_lib \<Rightarrow> int \<Rightarrow> observation \<Rightarrow> observation \<Rightarrow> wrapped_profile_key \<Rightarrow> profile_key_binding \<Rightarrow> key_world \<Rightarrow>
     (secret_failure + dek_handle) \<times> key_world" where
  "unwrap_profile_key L pid o1 o2 wrapped b pw =
     (if pid \<noteq> ow_pid (fst pw) then (Inl F_FORKED_PROCESS, pw)
      else if wk_kek_ref wrapped \<noteq> ow_active_kek (fst pw) \<or> wk_binding wrapped \<noteq> b \<or>
              pb_installation_id b \<noteq> ow_installation_id (fst pw)
      then (Inl F_PROVIDER_MISMATCH, pw)
      else case require_ready pw of
             (Inl e, pw1) \<Rightarrow> (Inl e, pw1)
           | (Inr pin, pw1) \<Rightarrow>
               (case pinned_session L pid o1 o2 pin (\<lambda>material _ pw. (decrypt_profile_key L material wrapped b pw, pw)) pw1 of
                  (Inl e, pw2) \<Rightarrow> (case unwrap_failure e pw2 of (code, pw3) \<Rightarrow> (Inl code, pw3))
                | (Inr text, pw2) \<Rightarrow>
                    (Inr \<lparr>dh_material = text, dh_pid = ow_pid (fst pw2), dh_active = False, dh_closed = False, dh_used = False\<rparr>,
                     pw2)))"

end
