(* ===== verification/Owner_File_Sessions.thy ===== *)
theory Owner_File_Sessions
  imports Owner_File Sample_Ids
begin

text \<open>
  The sessions of the owner-file provider on its source: what each of its steps does to the provider
  and to the registries of the process, and that its associated data is unambiguous.
\<close>


section \<open>Associated data\<close>

lemma append_same_length: "length a = length c \<Longrightarrow> a @ b = c @ d \<longleftrightarrow> a = c \<and> b = d"
  by simp

lemma u32_bytes: "positive_u32 v \<Longrightarrow> positive_u32 v' \<Longrightarrow> to_bytes_be 4 (nat v) = to_bytes_be 4 (nat v') \<longleftrightarrow> v = v'"
  by (subst to_bytes_be_inject) (auto simp: positive_u32_def)

lemma u16_bytes: "positive_u16 v \<Longrightarrow> positive_u16 v' \<Longrightarrow> to_bytes_be 2 (nat v) = to_bytes_be 2 (nat v') \<longleftrightarrow> v = v'"
  by (subst to_bytes_be_inject) (auto simp: positive_u16_def)

lemma aad_prefixes: "take 9 (profile_aad kek b) \<noteq> take 9 (sentinel_aad p)"
proof -
  have "take 9 (profile_aad kek b) = encode ''MyCogni'' @ [0] @ encode ''p''"
    "take 9 (sentinel_aad p) = encode ''MyCogni'' @ [0] @ encode ''r''"
    by (simp_all add: profile_aad_def sentinel_aad_def PROFILE_AAD_PREFIX_def SENTINEL_AAD_PREFIX_def encode_def)
  then show ?thesis by simp
qed

text \<open>C39. The associated data of a wrap is unambiguous: two profile wraps share it only for the same binding and the same
  key reference, and no profile wrap shares it with a readiness sentinel.\<close>

theorem wrap_context_is_unambiguous:
  assumes "profile_key_binding_ok b" and "profile_key_binding_ok b'" and "active_kek_ref_ok k" and "active_kek_ref_ok k'"
    and "kk_provider_kind k = kk_provider_kind k'"
  shows "(profile_aad k b = profile_aad k' b' \<longleftrightarrow> k = k' \<and> b = b') \<and> profile_aad k b \<noteq> sentinel_aad p"
proof -
  have "profile_aad k b = profile_aad k' b' \<longleftrightarrow>
      pb_installation_id b = pb_installation_id b' \<and> pb_profile_id b = pb_profile_id b' \<and>
      pb_profile_key_version b = pb_profile_key_version b' \<and> pb_catalog_schema_version b = pb_catalog_schema_version b' \<and>
      kk_provider_instance_id k = kk_provider_instance_id k' \<and> kk_kek_id k = kk_kek_id k' \<and> kk_kek_version k = kk_kek_version k'"
    using assms(1-4) unfolding profile_aad_def
    by (simp add: append_same_length u32_bytes u16_bytes profile_key_binding_ok_def active_kek_ref_ok_def)
  moreover have "profile_aad k b \<noteq> sentinel_aad p" using aad_prefixes by metis
  ultimately show ?thesis using assms(5) by (cases k; cases k'; cases b; cases b') auto
qed

theorem wrap_context_is_unambiguous_witness:
  "let k = \<lparr>kk_provider_kind = ''owner-file'', kk_provider_instance_id = sid 4, kk_kek_id = sid 5, kk_kek_version = 1\<rparr>;
       b = (\<lambda>v. \<lparr>pb_installation_id = sid 1, pb_profile_id = sid 6, pb_profile_key_version = v, pb_catalog_schema_version = 1\<rparr>)
   in profile_aad k (b 1) \<noteq> profile_aad k (b 2)"
proof -
  let ?k = "\<lparr>kk_provider_kind = ''owner-file'', kk_provider_instance_id = sid 4, kk_kek_id = sid 5, kk_kek_version = 1\<rparr>"
  let ?b = "\<lambda>v. \<lparr>pb_installation_id = sid 1, pb_profile_id = sid 6, pb_profile_key_version = v, pb_catalog_schema_version = 1\<rparr>"
  have "fullmatch rx_provider_kind ''owner-file''" by code_simp
  then have "active_kek_ref_ok ?k" by (simp add: active_kek_ref_ok_def uuid4_sid positive_u32_def)
  moreover have "profile_key_binding_ok (?b 1)" "profile_key_binding_ok (?b 2)"
    by (simp_all add: profile_key_binding_ok_def uuid4_sid positive_u32_def positive_u16_def)
  ultimately show ?thesis using wrap_context_is_unambiguous [of "?b 1" "?b 2" ?k ?k] by (simp add: Let_def)
qed


section \<open>Sessions\<close>

lemma latch_fields [simp]:
  "ow_recovery_latched (latch_recovery st p)" "ow_source_pin (latch_recovery st p) = None"
  "ow_wrap_domain (latch_recovery st p) = ow_wrap_domain p" "ow_pid (latch_recovery st p) = ow_pid p"
  "ow_issuer (latch_recovery st p) = ow_issuer p" "ow_active_kek (latch_recovery st p) = ow_active_kek p"
  "ow_installation_id (latch_recovery st p) = ow_installation_id p"
  "ow_process_wrap_limit (latch_recovery st p) = ow_process_wrap_limit p"
  "latch_recovery st (latch_recovery st' p) = latch_recovery st p"
  by (simp_all add: latch_recovery_def)

text \<open>A provider as it was, or latched.\<close>

definition kept_or_latched :: "owner_provider \<Rightarrow> owner_provider \<Rightarrow> bool" where
  "kept_or_latched p p' \<longleftrightarrow> p' = p \<or> (\<exists>st. p' = latch_recovery st p)"

lemma kept_or_latched_intros [simp]: "kept_or_latched p p" "kept_or_latched p (latch_recovery st p)"
  by (auto simp: kept_or_latched_def)

lemma kept_or_latched_trans: "kept_or_latched p q \<Longrightarrow> kept_or_latched q r \<Longrightarrow> kept_or_latched p r"
  by (auto simp: kept_or_latched_def)

lemma session_failure_eq:
  assumes "session_failure required e (p, w) = (r, (p', w'))"
  shows "r = Inl (Session_Failed e) \<and> w' = w \<and> kept_or_latched p p'"
  using assms by (auto simp: session_failure_def)

lemma reopen_latches:
  assumes "reopen L pid obs required initial p = (post, p')"
  shows "kept_or_latched p p'" and "post = Inr u \<Longrightarrow> p' = p"
  using assms by (auto simp: reopen_def split: sum.splits if_splits option.splits)

text \<open>A session fails before its operation, leaving the registries alone, or runs it on the state as it was.\<close>

lemma session_effect:
  assumes "material_session L pid o1 o2 required body (p, w) = (r, (p', w'))"
  obtains (before) e where "r = Inl (Session_Failed e)" and "w' = w" and "kept_or_latched p p'"
  | (ran) material initial res p1 where "opened L pid o1 p = Inr (material, initial)"
      and "\<And>pin. required = Some pin \<Longrightarrow> initial = pin" and "body material initial (p, w) = (res, (p1, w'))"
      and "kept_or_latched p1 p'" and "\<And>v. r = Inr v \<Longrightarrow> res = Inr v \<and> p' = p1"
      and "\<And>e. r = Inl (Operation_Failed e) \<Longrightarrow> res = Inl e"
proof (cases "opened L pid o1 p")
  case (Inl e)
  then have "session_failure required e (p, w) = (r, (p', w'))" using assms by (simp add: material_session_def)
  from session_failure_eq [OF this] show thesis using before by blast
next
  case (Inr mi)
  then obtain material initial where m: "opened L pid o1 p = Inr (material, initial)" by (cases mi) auto
  have run: thesis
    if b: "session_body L pid o1 o2 required body material initial (p, w) = (r, (p', w'))"
      and pin: "\<And>pin. required = Some pin \<Longrightarrow> initial = pin"
  proof -
    obtain res p1 w1 where res: "body material initial (p, w) = (res, (p1, w1))" by (metis prod.exhaust)
    obtain post p2 where post: "reopen L pid o2 required initial p1 = (post, p2)" by (metis prod.exhaust)
    note kept = reopen_latches(1) [OF post]
    show thesis
    proof (cases res)
      case (Inl e)
      then have "r = Inl (Operation_Failed e) \<and> p' = p2 \<and> w' = w1" using b res post by (simp add: session_body_def)
      then show thesis using ran [OF m pin, of res p1] res kept Inl by simp
    next
      case (Inr v)
      consider u where "post = Inr u" "close_source o1" | e where "session_failure required e (p2, w1) = (r, (p', w'))"
        using b res post Inr by (auto simp: session_body_def split: sum.splits if_splits)
      then show thesis
      proof cases
        case 1
        then have "r = Inr v \<and> p' = p1 \<and> w' = w1" using b res post Inr reopen_latches(2) [OF post] by (simp add: session_body_def)
        then show thesis using ran [OF m pin, of res p1] res Inr by simp
      next
        case (2 e)
        then have "r = Inl (Session_Failed e) \<and> w' = w1 \<and> kept_or_latched p2 p'"
          by (rule session_failure_eq)
        then show thesis using ran [OF m pin, of res p1] res kept kept_or_latched_trans by auto
      qed
    qed
  qed
  show thesis
  proof (cases required)
    case None
    then show thesis using run assms m by (simp add: material_session_def)
  next
    case (Some pin)
    show thesis
    proof (cases "same_pin initial pin")
      case True
      then show thesis using run assms m Some by (simp add: material_session_def same_pin_eq)
    next
      case False
      then have "session_failure required F_RECOVERY_REQUIRED (latch_recovery (status_for_pin_difference initial pin) p, w) = (r, (p', w'))"
        using assms m Some by (simp add: material_session_def)
      from session_failure_eq [OF this] show thesis using before kept_or_latched_trans [OF kept_or_latched_intros(2)] by blast
    qed
  qed
qed


section \<open>The registries\<close>

text \<open>A provider that its constructor accepted: its limit is in range, and a pinned source is the active key domain.\<close>

definition provider_ok :: "owner_provider \<Rightarrow> bool" where
  "provider_ok p \<longleftrightarrow>
     1 \<le> ow_process_wrap_limit p \<and> ow_process_wrap_limit p \<le> DEFAULT_PROCESS_WRAP_LIMIT \<and>
     (\<forall>pin. ow_source_pin p = Some pin \<longrightarrow>
        \<not> ow_recovery_latched p \<and> ow_wrap_domain p = Some (sp_material_digest pin))"

definition wrap_ok :: "wrap_state \<Rightarrow> bool" where
  "wrap_ok s \<longleftrightarrow>
     distinct (ws_used_nonces s) \<and> ws_count s = len (ws_used_nonces s) \<and> ws_count s \<le> ws_limit s \<and>
     ws_limit s \<le> DEFAULT_PROCESS_WRAP_LIMIT \<and> (\<forall>n \<in> set (ws_used_nonces s). map_of (ws_sentinel_records s) n = None)"

definition states_ok :: "key_process \<Rightarrow> bool" where
  "states_ok w \<longleftrightarrow> (\<forall>d s. map_of (pr_wrap_states w) d = Some s \<longrightarrow> wrap_ok s)"

text \<open>No used nonce and no authenticated sentinel is forgotten, and a latched domain stays latched.\<close>

definition state_grows :: "wrap_state \<Rightarrow> wrap_state \<Rightarrow> bool" where
  "state_grows s s' \<longleftrightarrow>
     set (ws_used_nonces s) \<subseteq> set (ws_used_nonces s') \<and> (ws_nonce_reuse_latched s \<longrightarrow> ws_nonce_reuse_latched s') \<and>
     (\<forall>n. map_of (ws_sentinel_records s) n \<noteq> None \<longrightarrow> map_of (ws_sentinel_records s') n \<noteq> None)"

definition states_grow :: "key_process \<Rightarrow> key_process \<Rightarrow> bool" where
  "states_grow w w' \<longleftrightarrow>
     (\<forall>d s. map_of (pr_wrap_states w) d = Some s \<longrightarrow>
        (\<exists>s'. map_of (pr_wrap_states w') d = Some s' \<and> state_grows s s'))"

lemma state_grows_refl [simp]: "state_grows s s"
  by (simp add: state_grows_def)

lemma provider_ok_latch [simp]: "provider_ok p \<Longrightarrow> provider_ok (latch_recovery st p)"
  by (simp add: provider_ok_def)

lemma provider_ok_kept: "provider_ok p \<Longrightarrow> kept_or_latched p p' \<Longrightarrow> provider_ok p'"
  by (auto simp: kept_or_latched_def)

lemma kept_fields:
  "kept_or_latched p p' \<Longrightarrow> ow_pid p' = ow_pid p \<and> ow_issuer p' = ow_issuer p \<and> ow_active_kek p' = ow_active_kek p \<and>
     ow_installation_id p' = ow_installation_id p \<and> ow_wrap_domain p' = ow_wrap_domain p"
  by (auto simp: kept_or_latched_def)

lemma states_grow_refl [simp]: "states_grow w w"
  by (auto simp: states_grow_def)

lemma states_updated:
  assumes "states_ok w" and "pr_wrap_states w' = AList.update d s' (pr_wrap_states w)" and "wrap_ok s'"
    and "\<And>s. map_of (pr_wrap_states w) d = Some s \<Longrightarrow> state_grows s s'"
  shows "states_ok w'" and "states_grow w w'"
  using assms by (auto simp: states_ok_def states_grow_def update_conv' split: if_splits)

lemma require_ready_effect:
  assumes "require_ready (p, w) = (r, (p', w'))"
  shows "w' = w" and "kept_or_latched p p'"
    and "r = Inr pin \<Longrightarrow> p' = p \<and> ow_source_pin p = Some pin \<and> \<not> ow_recovery_latched p"
  using assms
  by (auto simp: require_ready_def assert_domain_unlatched_def split: if_splits option.splits)

lemma require_unlatched_effect:
  assumes "require_unlatched_state (p, w) = (r, (p', w'))"
  shows "w' = w" and "kept_or_latched p p'" and "r = Inr u \<Longrightarrow> p' = p"
  using assms by (auto simp: require_unlatched_state_def assert_domain_unlatched_def split: if_splits option.splits)

lemma reserve_nonce_cases:
  assumes "reserve_nonce pid draw (p, w) = (r, (p', w'))"
  obtains (same) e where "w' = w" and "r = Inl e"
  | (latched) d s where "map_of (pr_wrap_states w) d = Some s" and "r = Inl F_NONCE_REUSE"
      and "w' = w\<lparr>pr_wrap_states := AList.update d (s\<lparr>ws_nonce_reuse_latched := True\<rparr>) (pr_wrap_states w)\<rparr>"
  | (drawn) d s n where "ow_wrap_domain p = Some d" and "map_of (pr_wrap_states w) d = Some s" and "r = Inr n" and "length n = 12"
      and "n \<notin> set (ws_used_nonces s)" and "map_of (ws_sentinel_records s) n = None" and "ws_count s < ws_limit s"
      and "\<not> ws_nonce_reuse_latched s"
      and "w' = w\<lparr>pr_wrap_states := AList.update d (s\<lparr>ws_used_nonces := ws_used_nonces s @ [n], ws_count := ws_count s + 1\<rparr>)
          (pr_wrap_states w)\<rparr>"
proof -
  note r = assms [unfolded reserve_nonce_def split_conv Let_def key_consts]
  show thesis
  proof (cases "pid \<noteq> ow_pid p \<or> ow_wrap_domain p = None \<or> draw = None")
    case True
    then show thesis using r by (auto intro: same split: if_splits option.splits)
  next
    case False
    then obtain d n where d: "ow_wrap_domain p = Some d" "draw = Some n" "pid = ow_pid p" by auto
    show thesis
    proof (cases "map_of (pr_wrap_states w) d")
      case None
      then show thesis using r d by (auto intro: same)
    next
      case (Some s)
      consider "ws_nonce_reuse_latched s \<or> ws_count s \<ge> ws_limit s \<or> length n \<noteq> 12"
        | "\<not> ws_nonce_reuse_latched s" "ws_count s < ws_limit s" "length n = 12" "n \<in> set (ws_used_nonces s) \<or> map_of (ws_sentinel_records s) n \<noteq> None"
        | "\<not> ws_nonce_reuse_latched s" "ws_count s < ws_limit s" "length n = 12" "n \<notin> set (ws_used_nonces s)" "map_of (ws_sentinel_records s) n = None"
        by linarith
      then show thesis
      proof cases
        case 1
        then show thesis using r d Some by (auto intro: same split: if_splits)
      next
        case 2
        then show thesis using r d Some latched by simp
      next
        case 3
        then show thesis using r d Some by (intro drawn [of d s n]) simp_all
      qed
    qed
  qed
qed

definition fresh_for :: "wrap_state \<Rightarrow> bytes \<Rightarrow> bool" where
  "fresh_for s n \<longleftrightarrow>
     n \<notin> set (ws_used_nonces s) \<and> map_of (ws_sentinel_records s) n = None \<and> \<not> ws_nonce_reuse_latched s"

lemma reserve_nonce_effect:
  assumes "reserve_nonce pid draw (p, w) = (r, (p', w'))" and "states_ok w"
  shows "states_ok w'" and "states_grow w w'"
    and "r = Inr n \<Longrightarrow> \<exists>d s s'. ow_wrap_domain p = Some d \<and> map_of (pr_wrap_states w) d = Some s \<and> fresh_for s n \<and>
      map_of (pr_wrap_states w') d = Some s' \<and> n \<in> set (ws_used_nonces s') \<and> length n = 12"
proof -
  have "states_ok w' \<and> states_grow w w' \<and> (r = Inr n \<longrightarrow> (\<exists>d s s'. ow_wrap_domain p = Some d \<and>
      map_of (pr_wrap_states w) d = Some s \<and> fresh_for s n \<and> map_of (pr_wrap_states w') d = Some s' \<and>
      n \<in> set (ws_used_nonces s') \<and> length n = 12))"
    using assms(1)
  proof (cases rule: reserve_nonce_cases)
    case (same e)
    then show ?thesis using assms(2) by simp
  next
    case (latched d s)
    have "wrap_ok s" using assms(2) latched(1) by (simp add: states_ok_def)
    then have "wrap_ok (s\<lparr>ws_nonce_reuse_latched := True\<rparr>)" by (simp add: wrap_ok_def)
    then show ?thesis
      using states_updated [OF assms(2), of w' d "s\<lparr>ws_nonce_reuse_latched := True\<rparr>"] latched by (simp add: state_grows_def)
  next
    case (drawn d s n)
    let ?s = "s\<lparr>ws_used_nonces := ws_used_nonces s @ [n], ws_count := ws_count s + 1\<rparr>"
    have "wrap_ok s" using assms(2) drawn(2) by (simp add: states_ok_def)
    then have "wrap_ok ?s" using drawn(5-7) by (simp add: wrap_ok_def)
    moreover have "map_of (pr_wrap_states w') d = Some ?s" using drawn(9) by (simp add: update_conv')
    moreover have "states_ok w' \<and> states_grow w w'"
      using states_updated [OF assms(2), of w' d ?s] drawn(2,9) calculation(1) by (auto simp: state_grows_def)
    ultimately show ?thesis
      using drawn(1-6,8) by (intro conjI impI exI [of _ d] exI [of _ s] exI [of _ ?s]) (simp_all add: fresh_for_def)
  qed
  then show "states_ok w'" "states_grow w w'" and
    "r = Inr n \<Longrightarrow> \<exists>d s s'. ow_wrap_domain p = Some d \<and> map_of (pr_wrap_states w) d = Some s \<and> fresh_for s n \<and>
      map_of (pr_wrap_states w') d = Some s' \<and> n \<in> set (ws_used_nonces s') \<and> length n = 12"
    by blast+
qed

lemma reserve_nonce_provider: "reserve_nonce pid draw (p, w) = (r, (p', w')) \<Longrightarrow> p' = p"
  unfolding reserve_nonce_def Let_def split_conv by (auto split: if_splits option.splits)

lemma record_sentinel_effect:
  assumes "record_authenticated_sentinel L d (p, w) = (r, (p', w'))" and "states_ok w" and "provider_ok p"
  shows "p' = p" and "states_ok w'" and "states_grow w w'"
    and "\<exists>s'. map_of (pr_wrap_states w') d = Some s' \<and>
      (ws_nonce_reuse_latched s' \<or> map_of (ws_sentinel_records s') (rs_nonce (ow_readiness_sentinel p)) \<noteq> None)"
proof -
  define s where "s = (case map_of (pr_wrap_states w) d of
      None \<Rightarrow> \<lparr>ws_limit = ow_process_wrap_limit p, ws_count = 0, ws_used_nonces = [], ws_sentinel_records = [],
               ws_nonce_reuse_latched = False\<rparr> | Some s \<Rightarrow> s)"
  let ?n = "rs_nonce (ow_readiness_sentinel p)" and ?c = "sentinel_record_commitment L p"
  have ok: "wrap_ok s"
  proof (cases "map_of (pr_wrap_states w) d")
    case None
    then show ?thesis using assms(3) by (simp add: s_def wrap_ok_def provider_ok_def)
  next
    case (Some x)
    then show ?thesis using assms(2) by (simp add: s_def states_ok_def)
  qed
  have same: "x = s" if "map_of (pr_wrap_states w) d = Some x" for x using that by (simp add: s_def)
  obtain s' where s': "pr_wrap_states w' = AList.update d s' (pr_wrap_states w)" "p' = p"
      "s' = s \<and> ws_nonce_reuse_latched s \<or> s' = s\<lparr>ws_nonce_reuse_latched := True\<rparr> \<or>
       s' = s\<lparr>ws_sentinel_records := AList.update ?n ?c (ws_sentinel_records s)\<rparr> \<and> ?n \<notin> set (ws_used_nonces s)"
    using assms(1) unfolding record_authenticated_sentinel_def Let_def split_conv s_def [symmetric] by (auto split: if_splits)
  have "wrap_ok s'" using s'(3) ok by (auto simp: wrap_ok_def update_conv')
  moreover have "state_grows s s'" using s'(3) by (auto simp: state_grows_def update_conv')
  ultimately show "states_ok w'" "states_grow w w'" using states_updated [OF assms(2) s'(1)] same by blast+
  show "\<exists>s'. map_of (pr_wrap_states w') d = Some s' \<and> (ws_nonce_reuse_latched s' \<or> map_of (ws_sentinel_records s') ?n \<noteq> None)"
    using s'(3) by (auto simp: s'(1) update_conv')
  show "p' = p" by (rule s'(2))
qed

lemma readiness_body_effect:
  assumes "readiness_body L m snapshot (p, w) = (r, (p', w'))" and "states_ok w" and "provider_ok p"
  shows "states_ok w'" and "states_grow w w'" and "kept_or_latched p p'" and "r = Inr None \<Longrightarrow> p' = p"
proof -
  obtain q v u where rec: "record_authenticated_sentinel L (sp_material_digest snapshot) (p, w) = (q, (v, u))"
    by (metis prod.exhaust)
  note e = record_sentinel_effect [OF rec assms(2,3)]
  show "states_ok w'" "states_grow w w'" "kept_or_latched p p'" "r = Inr None \<Longrightarrow> p' = p"
    using assms(1,2) rec e
    by (auto simp: readiness_body_def Let_def split: aead_outcome.splits if_splits sum.splits)
qed

lemma activate_effect:
  assumes "activate_key_domain L d (p, w) = (r, (p', w'))"
  shows "pr_wrap_states w' = pr_wrap_states w" and "r = Inl e \<Longrightarrow> p' = p" and "r = Inr u \<Longrightarrow> p' = p\<lparr>ow_wrap_domain := Some d\<rparr>"
  using assms by (auto simp: activate_key_domain_def split: option.splits if_splits)

lemma same_states: "pr_wrap_states w' = pr_wrap_states w \<Longrightarrow> states_ok w' = states_ok w \<and> states_grow x w' = states_grow x w"
  by (simp add: states_ok_def states_grow_def)


section \<open>Operations on the registries\<close>

lemma readiness_operation_effect:
  assumes "readiness_operation L m snapshot (p, w) = (r, (p', w'))" and "states_ok w" and "provider_ok p"
  shows "states_ok w'" and "states_grow w w'" and "kept_or_latched p p'" and "r = Inr (pin, None) \<Longrightarrow> p' = p"
proof -
  obtain q p1 w1 where body: "readiness_body L m snapshot (p, w) = (q, (p1, w1))" by (metis prod.exhaust)
  then have "p' = p1 \<and> w' = w1 \<and> (r = Inr (pin, None) \<longrightarrow> q = Inr None)"
    using assms(1) by (auto simp: readiness_operation_def split: sum.splits)
  then show "states_ok w'" "states_grow w w'" "kept_or_latched p p'" "r = Inr (pin, None) \<Longrightarrow> p' = p"
    using readiness_body_effect [OF body assms(2,3)] by auto
qed

lemma readiness_failed_effect:
  assumes "readiness_failed e (p, w) = (r, (p', w'))"
  shows "w' = w \<and> kept_or_latched p p'"
  using assms by (auto simp: readiness_failed_def latch_or_preserve_recovery_def split: if_splits)

lemma finish_readiness_effect:
  assumes "finish_readiness L q (p, w) = (r, (p', w'))"
  shows "pr_wrap_states w' = pr_wrap_states w"
    and "kept_or_latched p p' \<or> (\<exists>pin. q = Inr (pin, None) \<and>
      p' = p\<lparr>ow_wrap_domain := Some (sp_material_digest pin), ow_source_pin := Some pin\<rparr>)"
proof -
  consider (failed) e where "q = Inl e" | (answered) pin st where "q = Inr (pin, Some st)" | (active) pin where "q = Inr (pin, None)"
    by (metis sum.exhaust option.exhaust prod.exhaust)
  then have "pr_wrap_states w' = pr_wrap_states w \<and> (kept_or_latched p p' \<or> (\<exists>pin. q = Inr (pin, None) \<and>
      p' = p\<lparr>ow_wrap_domain := Some (sp_material_digest pin), ow_source_pin := Some pin\<rparr>))"
  proof cases
    case (failed e)
    then have "readiness_failed (session_code e) (p, w) = (r, (p', w'))" using assms by (simp add: finish_readiness_def)
    from readiness_failed_effect [OF this] show ?thesis by simp
  next
    case (answered pin st)
    then show ?thesis using assms by (simp add: finish_readiness_def)
  next
    case (active pin)
    obtain a p1 w1 where act: "activate_key_domain L (sp_material_digest pin) (p, w) = (a, (p1, w1))" by (metis prod.exhaust)
    note e = activate_effect [OF act]
    show ?thesis
    proof (cases a)
      case (Inl x)
      then have "readiness_failed x (p1, w1) = (r, (p', w'))" using assms active act by (simp add: finish_readiness_def)
      from readiness_failed_effect [OF this] show ?thesis using e(1) e(2) [OF Inl] by simp
    next
      case (Inr u)
      then have "p' = p1\<lparr>ow_source_pin := Some pin\<rparr>" "w' = w1" using assms active act by (simp_all add: finish_readiness_def)
      then show ?thesis using e(1) e(3) [OF Inr] active by simp
    qed
  qed
  then show "pr_wrap_states w' = pr_wrap_states w" "kept_or_latched p p' \<or> (\<exists>pin. q = Inr (pin, None) \<and>
      p' = p\<lparr>ow_wrap_domain := Some (sp_material_digest pin), ow_source_pin := Some pin\<rparr>)"
    by blast+
qed

lemma readiness_effect:
  assumes "readiness L pid o1 o2 (p, w) = (r, (p', w'))" and "states_ok w" and "provider_ok p"
  shows "states_ok w'" and "states_grow w w'" and "provider_ok p'" and "ow_recovery_latched p \<Longrightarrow> p' = p"
    and "ow_active_kek p' = ow_active_kek p \<and> ow_pid p' = ow_pid p \<and> ow_issuer p' = ow_issuer p \<and>
      ow_installation_id p' = ow_installation_id p"
proof -
  have "states_ok w' \<and> states_grow w w' \<and> provider_ok p' \<and> (ow_recovery_latched p \<longrightarrow> p' = p) \<and>
      ow_active_kek p' = ow_active_kek p \<and> ow_pid p' = ow_pid p \<and> ow_issuer p' = ow_issuer p \<and>
      ow_installation_id p' = ow_installation_id p"
  proof (cases "pid \<noteq> ow_pid p \<or> ow_recovery_latched p")
    case True
    then have "p' = p \<and> w' = w" using assms(1) by (cases "pid = ow_pid p") (simp_all add: readiness_def)
    then show ?thesis using assms(2,3) by simp
  next
    case False
    obtain q p1 w1 where ses: "material_session L pid o1 o2 (ow_source_pin p) (readiness_operation L) (p, w) = (q, (p1, w1))"
      by (metis prod.exhaust)
    have kept: "states_ok w1 \<and> states_grow w w1 \<and> kept_or_latched p p1 \<and> (\<forall>pin. q = Inr (pin, None) \<longrightarrow> p1 = p)"
      using ses
    proof (cases rule: session_effect)
      case (before e)
      then show ?thesis using assms(2) by simp
    next
      case (ran material initial res p2)
      note e = readiness_operation_effect [OF ran(3) assms(2,3)]
      have "p1 = p" if "q = Inr (pin, None)" for pin using e(4) ran(5) [OF that] by blast
      then show ?thesis using e(1-3) ran(4) kept_or_latched_trans by blast
    qed
    have fin: "finish_readiness L q (p1, w1) = (r, (p', w'))" using assms(1) False ses by (simp add: readiness_def)
    have st: "states_ok w' \<and> states_grow w w'" using kept same_states [OF finish_readiness_effect(1) [OF fin]] by blast
    from finish_readiness_effect(2) [OF fin] show ?thesis
    proof
      assume "kept_or_latched p1 p'"
      then have "kept_or_latched p p'" using kept kept_or_latched_trans by blast
      then show ?thesis using st False provider_ok_kept [OF assms(3)] kept_fields by auto
    next
      assume "\<exists>pin. q = Inr (pin, None) \<and> p' = p1\<lparr>ow_wrap_domain := Some (sp_material_digest pin), ow_source_pin := Some pin\<rparr>"
      then show ?thesis using st kept assms(3) False by (auto simp: provider_ok_def)
    qed
  qed
  then show "states_ok w'" "states_grow w w'" "provider_ok p'" "ow_recovery_latched p \<Longrightarrow> p' = p"
    "ow_active_kek p' = ow_active_kek p \<and> ow_pid p' = ow_pid p \<and> ow_issuer p' = ow_issuer p \<and>
      ow_installation_id p' = ow_installation_id p"
    by blast+
qed


text \<open>
  The key under which a readiness check authenticates the provider's sentinel: the source opens, is
  the pinned one if one is pinned, and decrypts the sentinel to a text of its length.
\<close>

definition authenticated :: "key_lib \<Rightarrow> int \<Rightarrow> observation \<Rightarrow> owner_provider \<Rightarrow> bytes option" where
  "authenticated L pid o1 p =
     (if pid \<noteq> ow_pid p \<or> ow_recovery_latched p then None
      else case opened L pid o1 p of
             Inl _ \<Rightarrow> None
           | Inr (material, pin) \<Rightarrow>
               if ow_source_pin p \<notin> {None, Some pin} then None
               else (case kl_decrypt L material (rs_nonce (ow_readiness_sentinel p)) (rs_ciphertext (ow_readiness_sentinel p))
                            (sentinel_aad p) of
                       Plaintext text \<Rightarrow> if length text = 32 then Some (sp_material_digest pin) else None
                     | _ \<Rightarrow> None))"

lemma session_runs:
  assumes "opened L pid o1 p = Inr (material, initial)" and "required \<in> {None, Some initial}"
    and "body material initial (p, w) = (res, (p1, w1))"
  shows "\<exists>q p2. material_session L pid o1 o2 required body (p, w) = (q, (p2, w1))"
proof -
  obtain post p2 where "reopen L pid o2 required initial p1 = (post, p2)" by (metis prod.exhaust)
  then have "\<exists>q p2. session_body L pid o1 o2 required body material initial (p, w) = (q, (p2, w1))"
    using assms(3) by (auto simp: session_body_def session_failure_def split: sum.split)
  then show ?thesis using assms(1,2) by (auto simp: material_session_def same_pin_eq)
qed

lemma authentication_recorded:
  assumes "readiness L pid o1 o2 (p, w) = (r, (p', w'))" and "states_ok w" and "provider_ok p" and "authenticated L pid o1 p = Some d"
  shows "\<exists>s'. map_of (pr_wrap_states w') d = Some s' \<and>
    (ws_nonce_reuse_latched s' \<or> map_of (ws_sentinel_records s') (rs_nonce (ow_readiness_sentinel p)) \<noteq> None)"
proof -
  let ?s = "ow_readiness_sentinel p"
  obtain material pin t where a: "pid = ow_pid p" "\<not> ow_recovery_latched p" "opened L pid o1 p = Inr (material, pin)"
      "ow_source_pin p \<in> {None, Some pin}" "kl_decrypt L material (rs_nonce ?s) (rs_ciphertext ?s) (sentinel_aad p) = Plaintext t"
      "length t = 32" "d = sp_material_digest pin"
    using assms(4) by (auto simp: authenticated_def split: if_splits sum.splits aead_outcome.splits)
  obtain q v u where rec: "record_authenticated_sentinel L d (p, w) = (q, (v, u))" by (metis prod.exhaust)
  have "length READINESS_PLAINTEXT = 32" by (simp add: READINESS_PLAINTEXT_def)
  then obtain res p1 where "readiness_operation L material pin (p, w) = (res, (p1, u))"
    using a(5-7) rec by (cases q; cases "t = READINESS_PLAINTEXT") (auto simp: readiness_operation_def readiness_body_def Let_def)
  from session_runs [where body = "readiness_operation L", OF a(3,4) this] obtain q2 p2 where
    "material_session L pid o1 o2 (ow_source_pin p) (readiness_operation L) (p, w) = (q2, (p2, u))" by blast
  then have "finish_readiness L q2 (p2, u) = (r, (p', w'))" using assms(1) a(1,2) by (simp add: readiness_def)
  from finish_readiness_effect(1) [OF this] show ?thesis using record_sentinel_effect(4) [OF rec assms(2,3)] by simp
qed

lemma pinned_effect:
  assumes "pinned_session L pid o1 o2 pin body (p, w) = (r, (p', w'))"
  obtains (before) e where "r = Inl (Session_Failed e)" and "w' = w" and "kept_or_latched p p'"
  | (ran) material res p1 where "opened L pid o1 p = Inr (material, pin)" and "body material pin (p, w) = (res, (p1, w'))"
      and "kept_or_latched p1 p'" and "\<And>v. r = Inr v \<Longrightarrow> res = Inr v \<and> p' = p1"
      and "\<And>e. r = Inl (Operation_Failed e) \<Longrightarrow> res = Inl e"
proof -
  obtain q p2 w2 where ses: "material_session L pid o1 o2 (Some pin) body (p, w) = (q, (p2, w2))" by (metis prod.exhaust)
  obtain u p3 w3 where ul: "require_unlatched_state (p2, w2) = (u, (p3, w3))" by (metis prod.exhaust)
  note ue = require_unlatched_effect [OF ul]
  have fin: "w' = w2" "kept_or_latched p2 p'" "\<And>v. r = Inr v \<Longrightarrow> q = Inr v \<and> p' = p2"
    "\<And>e. r = Inl (Operation_Failed e) \<Longrightarrow> q = Inl (Operation_Failed e)" "\<And>e. q = Inl e \<Longrightarrow> r = Inl e"
    using assms ses ul ue by (auto simp: pinned_session_def split: sum.splits)
  from ses show thesis
  proof (cases rule: session_effect)
    case (before e)
    show thesis
      by (rule that(1) [of e]) (simp_all add: fin(1) fin(5) [OF before(1)] before(2) kept_or_latched_trans [OF before(3) fin(2)])
  next
    case (ran material initial res p1)
    show thesis
    proof (rule that(2) [of material res p1])
      show "opened L pid o1 p = Inr (material, pin)" "body material pin (p, w) = (res, (p1, w'))"
        using ran(1,3) ran(2) [OF refl] fin(1) by simp_all
      show "kept_or_latched p1 p'" by (rule kept_or_latched_trans [OF ran(4) fin(2)])
      show "res = Inr v \<and> p' = p1" if "r = Inr v" for v using fin(3) [OF that] ran(5) by simp
      show "res = Inl e" if "r = Inl (Operation_Failed e)" for e using fin(4) [OF that] ran(6) by simp
    qed
  qed
qed

text \<open>The operations that need the pin: refused without a change of the registries, or run on the pinned source.\<close>

lemma ready_effect:
  assumes "require_ready (p, w) = (q, (p1, w1))"
  obtains (refused) e where "q = Inl e" and "w1 = w" and "kept_or_latched p p1"
  | (ready) pin where "q = Inr pin" and "w1 = w" and "p1 = p" and "ow_source_pin p = Some pin" and "\<not> ow_recovery_latched p"
  using require_ready_effect [OF assms] by (cases q) auto

lemma prepare_effect:
  assumes "prepare_profile_key L pid o1 o2 draw b (p, w) = (r, (p', w'))"
  obtains (refused) e where "r = Inl e" and "w' = w" and "kept_or_latched p p'"
  | (ran) pin material res where "pid = ow_pid p" and "ow_source_pin p = Some pin" and "\<not> ow_recovery_latched p"
      and "opened L pid o1 p = Inr (material, pin)" and "reserve_nonce pid draw (p, w) = (res, (p, w'))" and "kept_or_latched p p'"
      and "\<And>prep. r = Inr prep \<Longrightarrow> p' = p \<and> res = Inr (kp_nonce prep) \<and>
        prep = \<lparr>kp_binding = b, kp_nonce = kp_nonce prep, kp_issuer = ow_issuer p, kp_pid = ow_pid p, kp_consumed = False\<rparr>"
proof (cases "pid \<noteq> ow_pid p \<or> pb_installation_id b \<noteq> ow_installation_id p")
  case True
  then show thesis
    using assms by (cases "pid = ow_pid p") (auto simp: prepare_profile_key_def intro: refused)
next
  case False
  obtain q p1 w1 where rdy: "require_ready (p, w) = (q, (p1, w1))" by (metis prod.exhaust)
  note r = assms [unfolded prepare_profile_key_def]
  from rdy show thesis
  proof (cases rule: ready_effect)
    case (refused e)
    then show thesis using that(1) r False rdy by auto
  next
    case (ready pin)
    obtain q2 p2 w2 where ses: "pinned_session L pid o1 o2 pin (\<lambda>_ _ pw. reserve_nonce pid draw pw) (p, w) = (q2, (p2, w2))"
      by (metis prod.exhaust)
    have fin: "p' = p2" "w' = w2" "\<And>e. q2 = Inl e \<Longrightarrow> r = Inl (session_code e)"
      "\<And>n. q2 = Inr n \<Longrightarrow> r = Inr \<lparr>kp_binding = b, kp_nonce = n, kp_issuer = ow_issuer p2, kp_pid = ow_pid p2, kp_consumed = False\<rparr>"
      using r False rdy ready ses by (auto split: sum.splits)
    from ses show thesis
    proof (cases rule: pinned_effect)
      case (before e)
      then show thesis using that(1) fin by blast
    next
      case (ran material res p3)
      note pe = reserve_nonce_provider [OF ran(2)]
      have "p' = p \<and> res = Inr (kp_nonce prep) \<and>
          prep = \<lparr>kp_binding = b, kp_nonce = kp_nonce prep, kp_issuer = ow_issuer p, kp_pid = ow_pid p, kp_consumed = False\<rparr>"
        if "r = Inr prep" for prep
        using that fin(1,3,4) ran(4) pe by (cases q2) auto
      then show thesis using that(2) [OF _ ready(4,5) ran(1)] ran(2,3) pe fin(1,2) False by auto
    qed
  qed
qed

end
