(* ===== verification/Owner_File_Guarantees.thy ===== *)
theory Owner_File_Guarantees
  imports Owner_File_Sessions
begin

text \<open>
  What the owner-file provider promises: nonces are given out once per key in a process, a latched
  provider stays latched, a replaced source is refused, and a wrapped key is unwrapped again.
\<close>


section \<open>Wrapping and unwrapping\<close>

lemma triple_cases: obtains a b c where "x = (a, (b, c))"
  by (cases x) auto

lemma complete_effect:
  assumes "complete_profile_key L pid o1 o2 draw prep (p, w) = (r, prep', (p', w'))"
  obtains (refused) e where "r = Inl e" and "w' = w" and "kept_or_latched p p'"
  | (wrapped) pin material profile c where "w' = w" and "p' = p" and "pid = ow_pid p" and "\<not> ow_recovery_latched p"
      and "\<not> kp_consumed prep" and "prep' = prep\<lparr>kp_consumed := True\<rparr>" and "ow_source_pin p = Some pin"
      and "opened L pid o1 p = Inr (material, pin)" and "new_profile_material draw = Inr profile"
      and "encrypt_profile_key L material (kp_nonce prep) profile (p, w) (kp_binding prep) = Inr c"
      and "r = Inr \<lparr>wk_kek_ref = ow_active_kek p, wk_binding = kp_binding prep, wk_nonce = kp_nonce prep, wk_ciphertext = c,
        wk_format_version = WRAPPED_KEY_FORMAT_VERSION, wk_aad_version = WRAPPED_KEY_AAD_VERSION, wk_suite = WRAP_SUITE\<rparr>"
proof -
  obtain cq prep1 where con: "consume_preparation pid (ow_issuer p) (handle_is_current pid (ow_issuer p) (p, w)) prep = (cq, prep1)"
    by (metis prod.exhaust)
  note r = assms [unfolded complete_profile_key_def]
  show thesis
  proof (cases "pid \<noteq> ow_pid p \<or> (\<exists>e. cq = Inl e)")
    case True
    then have "p' = p \<and> w' = w \<and> (\<exists>e. r = Inl e)" using r con by (cases "pid = ow_pid p") auto
    then show thesis using refused by auto
  next
    case False
    then obtain b n where cq: "cq = Inr (b, n)" and pid: "pid = ow_pid p" by (cases cq) auto
    note c = preparation_consumed_once(1) [OF con [unfolded cq]]
    obtain q p1 w1 where rdy: "require_ready (p, w) = (q, (p1, w1))" by (metis prod.exhaust)
    from rdy show thesis
    proof (cases rule: ready_effect)
      case (refused e)
      then have "r = Inl e" "w' = w" "p' = p1" using r con cq pid rdy by simp_all
      then show thesis using that(1) refused(3) by simp
    next
      case (ready pin)
      show thesis
      proof (cases "new_profile_material draw")
        case (Inl e)
        then have "r = Inl e" "w' = w" "p' = p" using r con cq pid rdy ready by simp_all
        then show thesis using that(1) by simp
      next
        case (Inr profile)
        let ?body = "\<lambda>material _ pw. (encrypt_profile_key L material n profile pw b, pw)"
        obtain q2 p2 w2 where ses: "pinned_session L pid o1 o2 pin ?body (p, w) = (q2, (p2, w2))"
        by (rule triple_cases)
        have run: "(case q2 of Inl e \<Rightarrow> (Inl (session_code e), prep1, (p2, w2))
            | Inr x \<Rightarrow> (Inr \<lparr>wk_kek_ref = ow_active_kek p2, wk_binding = b, wk_nonce = n, wk_ciphertext = x,
                wk_format_version = WRAPPED_KEY_FORMAT_VERSION, wk_aad_version = WRAPPED_KEY_AAD_VERSION, wk_suite = WRAP_SUITE\<rparr>,
                prep1, (p2, w2))) = (r, prep', (p', w'))"
          using r pid con cq rdy ready(1-3) Inr ses by (auto split: sum.splits)
        from ses show thesis
        proof (cases rule: pinned_effect)
          case (before e)
          then have "r = Inl e" "w' = w" "p' = p2" using run by auto
          then show thesis using that(1) before(3) by simp
        next
          case (ran material res p3)
          have eff: "p3 = p" "w2 = w" "res = encrypt_profile_key L material n profile (p, w) b" using ran(2) by auto
          show thesis
          proof (cases q2)
            case (Inl e)
            then have "r = Inl (session_code e)" "p' = p2" "w' = w2" using run by simp_all
            then show thesis using that(1) eff ran(3) by simp
          next
            case (Inr x)
            show thesis
              by (rule that(2) [of pin material profile x])
                (use run Inr eff ran(1) ran(4) [OF Inr] c pid ready(4,5) \<open>new_profile_material draw = Inr profile\<close> in \<open>auto\<close>)
          qed
        qed
      qed
    qed
  qed
qed

lemma unwrap_failure_effect:
  "unwrap_failure e (p, w) = (code, (p', w')) \<Longrightarrow> w' = w \<and> kept_or_latched p p'"
  by (auto simp: unwrap_failure_def split: session_error.splits unwrap_error.splits if_splits)

lemma unwrap_effect:
  assumes "unwrap_profile_key L pid o1 o2 wk b (p, w) = (r, (p', w'))"
  obtains (refused) e where "r = Inl e" and "w' = w" and "kept_or_latched p p'"
  | (opened) pin material plain where "w' = w" and "p' = p" and "\<not> ow_recovery_latched p" and "wk_binding wk = b"
      and "wk_kek_ref wk = ow_active_kek p" and "ow_source_pin p = Some pin" and "opened L pid o1 p = Inr (material, pin)"
      and "decrypt_profile_key L material wk b (p, w) = Inr plain"
      and "r = Inr \<lparr>dh_material = plain, dh_pid = ow_pid p, dh_active = False, dh_closed = False, dh_used = False\<rparr>"
proof -
  let ?bad = "wk_kek_ref wk \<noteq> ow_active_kek p \<or> wk_binding wk \<noteq> b \<or> pb_installation_id b \<noteq> ow_installation_id p"
  note r = assms [unfolded unwrap_profile_key_def]
  show thesis
  proof (cases "pid \<noteq> ow_pid p \<or> ?bad")
    case True
    then have "p' = p \<and> w' = w \<and> (\<exists>e. r = Inl e)" using r by (cases "pid = ow_pid p") auto
    then show thesis using refused by auto
  next
    case False
    then have ok: "pid = ow_pid p" "wk_kek_ref wk = ow_active_kek p" "wk_binding wk = b" "pb_installation_id b = ow_installation_id p"
      by auto
    obtain q p1 w1 where rdy: "require_ready (p, w) = (q, (p1, w1))" by (metis prod.exhaust)
    from rdy show thesis
    proof (cases rule: ready_effect)
      case (refused e)
      then have "r = Inl e" "w' = w" "p' = p1" using r ok rdy by simp_all
      then show thesis using that(1) refused(3) by simp
    next
      case (ready pin)
      let ?body = "\<lambda>material _ pw. (decrypt_profile_key L material wk b pw, pw)"
      obtain q2 p2 w2 where ses: "pinned_session L pid o1 o2 pin ?body (p, w) = (q2, (p2, w2))"
        by (rule triple_cases)
      have run: "(case q2 of Inl e \<Rightarrow> (case unwrap_failure e (p2, w2) of (code, pw3) \<Rightarrow> (Inl code, pw3))
          | Inr plain \<Rightarrow> (Inr \<lparr>dh_material = plain, dh_pid = ow_pid p2, dh_active = False, dh_closed = False, dh_used = False\<rparr>,
              (p2, w2))) = (r, (p', w'))"
        using r ok rdy ready(1-3) ses by (auto split: sum.splits)
      have failed: thesis if "q2 = Inl e" "w2 = w" "kept_or_latched p p2" for e
      proof -
        obtain code p3 w3 where f: "unwrap_failure e (p2, w2) = (code, (p3, w3))" by (metis prod.exhaust)
        then have "r = Inl code" "p' = p3" "w' = w3" using run that(1) by simp_all
        moreover have "w3 = w" "kept_or_latched p p3"
          using unwrap_failure_effect [OF f] that(2) kept_or_latched_trans [OF that(3)] by simp_all
        ultimately show thesis using refused by simp
      qed
      from ses show thesis
      proof (cases rule: pinned_effect)
        case (before e)
        then show thesis by (rule failed)
      next
        case (ran material res p3)
        have eff: "p3 = p" "w2 = w" "res = decrypt_profile_key L material wk b (p, w)" using ran(2) by auto
        show thesis
        proof (cases q2)
          case (Inl e)
          then show thesis using failed eff ran(3) by simp
        next
          case (Inr plain)
          show thesis
            by (rule that(2) [of pin material plain]) (use run Inr eff ran(1) ran(4) [OF Inr] ok ready(4,5) in \<open>auto\<close>)
        qed
      qed
    qed
  qed
qed

lemma source_status_effect:
  assumes "read_source_status L pid o1 o2 (p, w) = (r, (p', w'))"
  shows "w' = w" and "kept_or_latched p p'"
proof -
  have "w' = w \<and> kept_or_latched p p'"
  proof (cases "pid \<noteq> ow_pid p \<or> ow_source_pin p = None")
    case True
    then have "p' = p \<and> w' = w"
      using assms by (cases "pid = ow_pid p") (auto simp: read_source_status_def Let_def split: sum.splits if_splits)
    then show ?thesis by simp
  next
    case False
    then obtain pin where pin: "ow_source_pin p = Some pin" by auto
    obtain q p1 w1 where ses: "material_session L pid o1 o2 (Some pin) (\<lambda>_ _ pw. (Inr (), pw)) (p, w) =
        ((q :: secret_failure session_error + unit), (p1, w1))"
      by (rule triple_cases)
    have "p' = p1 \<and> w' = w1" using assms False pin ses by (auto simp: read_source_status_def Let_def split: sum.splits)
    moreover from ses have "w1 = w \<and> kept_or_latched p p1" by (cases rule: session_effect) auto
    ultimately show ?thesis by simp
  qed
  then show "w' = w" "kept_or_latched p p'" by blast+
qed



section \<open>A process of providers\<close>

text \<open>
  What happens in one process, with any providers that their constructor accepted, and the log of it,
  the latest event first: the nonces that were handed out and the sentinels that authenticated, each
  with the digest of the key material.
\<close>

datatype key_event = Handed bytes bytes | Authenticated bytes bytes

definition sentinel_events :: "key_lib \<Rightarrow> int \<Rightarrow> observation \<Rightarrow> owner_provider \<Rightarrow> key_event list" where
  "sentinel_events L pid o1 p =
     (case authenticated L pid o1 p of
        None \<Rightarrow> []
      | Some d \<Rightarrow> [Authenticated d (rs_nonce (ow_readiness_sentinel p))])"

inductive process_run :: "key_lib \<Rightarrow> key_event list \<Rightarrow> key_process \<Rightarrow> bool" for L where
  started: "process_run L [] (new_process pid)"
| created: "process_run L log w \<Longrightarrow> new_provider pid issuer path kek i c sn s roots limit w = (r, w') \<Longrightarrow> process_run L log w'"
| forgotten: "process_run L log w \<Longrightarrow> process_run L log (forget_provider issuer w)"
| checked: "process_run L log w \<Longrightarrow> provider_ok p \<Longrightarrow> readiness L pid o1 o2 (p, w) = (r, (p', w')) \<Longrightarrow>
    process_run L (sentinel_events L pid o1 p @ log) w'"
| observed: "process_run L log w \<Longrightarrow> read_source_status L pid o1 o2 (p, w) = (r, (p', w')) \<Longrightarrow> process_run L log w'"
| refused: "process_run L log w \<Longrightarrow> provider_ok p \<Longrightarrow> prepare_profile_key L pid o1 o2 draw b (p, w) = (Inl e, (p', w')) \<Longrightarrow>
    process_run L log w'"
| prepared: "process_run L log w \<Longrightarrow> provider_ok p \<Longrightarrow> prepare_profile_key L pid o1 o2 draw b (p, w) = (Inr prep, (p', w')) \<Longrightarrow>
    ow_source_pin p = Some pin \<Longrightarrow> process_run L (Handed (sp_material_digest pin) (kp_nonce prep) # log) w'"
| completed: "process_run L log w \<Longrightarrow> complete_profile_key L pid o1 o2 draw prep (p, w) = (r, prep', (p', w')) \<Longrightarrow> process_run L log w'"
| unwrapped: "process_run L log w \<Longrightarrow> unwrap_profile_key L pid o1 o2 wk b (p, w) = (r, (p', w')) \<Longrightarrow> process_run L log w'"

text \<open>What the registry of the process keeps of an event.\<close>

fun recorded :: "key_process \<Rightarrow> key_event \<Rightarrow> bool" where
  "recorded w (Handed d n) = (\<exists>s. map_of (pr_wrap_states w) d = Some s \<and> n \<in> set (ws_used_nonces s))"
| "recorded w (Authenticated d n) =
     (\<exists>s. map_of (pr_wrap_states w) d = Some s \<and>
        (ws_nonce_reuse_latched s \<or> map_of (ws_sentinel_records s) n \<noteq> None))"

fun log_ok :: "key_event list \<Rightarrow> bool" where
  "log_ok [] = True"
| "log_ok (Authenticated d n # log) = log_ok log"
| "log_ok (Handed d n # log) =
     (log_ok log \<and> Handed d n \<notin> set log \<and> Authenticated d n \<notin> set log \<and>
      (\<forall>m. Handed d m \<in> set log \<longrightarrow> Authenticated d m \<notin> set log))"

lemma recorded_grows: "recorded w e \<Longrightarrow> states_grow w w' \<Longrightarrow> recorded w' e"
  by (cases e) (fastforce simp: states_grow_def state_grows_def)+

lemma log_ok_before: "log_ok (xs @ ys) \<Longrightarrow> log_ok ys"
proof (induction xs)
  case (Cons e xs)
  then show ?case by (cases e) simp_all
qed simp

lemma prepare_states:
  assumes "prepare_profile_key L pid o1 o2 draw b (p, w) = (r, (p', w'))" and "states_ok w"
  shows "states_ok w'" and "states_grow w w'"
proof -
  have "states_ok w' \<and> states_grow w w'"
    using assms(1)
  proof (cases rule: prepare_effect)
    case (ran pin material res)
    then show ?thesis using reserve_nonce_effect(1,2) [OF ran(5) assms(2)] by simp
  qed (use assms(2) in simp)
  then show "states_ok w'" "states_grow w w'" by simp_all
qed

lemma prepare_fresh:
  assumes "prepare_profile_key L pid o1 o2 draw b (p, w) = (Inr prep, (p', w'))" and "states_ok w" and "provider_ok p"
    and "ow_source_pin p = Some pin"
  shows "\<exists>s s'. map_of (pr_wrap_states w) (sp_material_digest pin) = Some s \<and> fresh_for s (kp_nonce prep) \<and>
    map_of (pr_wrap_states w') (sp_material_digest pin) = Some s' \<and> kp_nonce prep \<in> set (ws_used_nonces s')"
  using assms(1)
proof (cases rule: prepare_effect)
  case (ran pin' material res)
  from ran(7) [OF refl] reserve_nonce_effect(3) [OF ran(5) assms(2)] show ?thesis
    using assms(3,4) by (auto simp: provider_ok_def)
qed simp

text \<open>A nonce for which the registry is fresh is new to the log.\<close>

lemma fresh_nonce_logged:
  assumes "\<forall>e \<in> set log. recorded w e" and "log_ok log" and "states_ok w"
    and "map_of (pr_wrap_states w) d = Some s" and "fresh_for s n"
  shows "log_ok (Handed d n # log)"
proof -
  have "wrap_ok s" using assms(3,4) by (simp add: states_ok_def)
  moreover have "m \<in> set (ws_used_nonces s)" if "Handed d m \<in> set log" for m
    using bspec [OF assms(1) that] assms(4) by simp
  moreover have "map_of (ws_sentinel_records s) m \<noteq> None" if "Authenticated d m \<in> set log" for m
    using bspec [OF assms(1) that] assms(4,5) by (simp add: fresh_for_def)
  ultimately show ?thesis using assms(2,5) unfolding log_ok.simps wrap_ok_def fresh_for_def by blast
qed

lemma process_run_inv: "process_run L log w \<Longrightarrow> states_ok w \<and> log_ok log \<and> (\<forall>e \<in> set log. recorded w e)"
proof (induction rule: process_run.induct)
  case (started pid)
  then show ?case by (simp add: states_ok_def new_process_def)
next
  case (created log w pid issuer path kek i c sn s roots limit r w')
  then have "pr_wrap_states w' = pr_wrap_states w" by (auto simp: new_provider_def split: if_splits)
  then have "states_ok w' = states_ok w" "states_grow w w'" using same_states [of w' w w] by simp_all
  then show ?case using created.IH recorded_grows by blast
next
  case (forgotten log w issuer)
  have "states_ok (forget_provider issuer w) = states_ok w" "states_grow w (forget_provider issuer w)"
    using same_states [of "forget_provider issuer w" w w] by (simp_all add: forget_provider_def)
  then show ?case using forgotten.IH recorded_grows by blast
next
  case (checked log w p pid o1 o2 r p' w')
  note st = readiness_effect(1,2) [OF checked.hyps(3) _ checked.hyps(2)]
  have "recorded w' e" if "e \<in> set (sentinel_events L pid o1 p)" for e
  proof (cases "authenticated L pid o1 p")
    case (Some d)
    then show ?thesis
      using that authentication_recorded [OF checked.hyps(3) _ checked.hyps(2) Some] checked.IH by (auto simp: sentinel_events_def)
  qed (use that in \<open>simp add: sentinel_events_def\<close>)
  moreover have "log_ok (sentinel_events L pid o1 p @ log)"
    using checked.IH by (auto simp: sentinel_events_def split: option.split)
  ultimately show ?case using st checked.IH recorded_grows by (auto simp: Ball_def)
next
  case (observed log w pid o1 o2 p r p' w')
  then show ?case using source_status_effect(1) [OF observed.hyps(2)] by simp
next
  case (refused log w p pid o1 o2 draw b e p' w')
  then show ?case using prepare_states [OF refused.hyps(3)] recorded_grows by blast
next
  case (prepared log w p pid o1 o2 draw b prep p' w' pin)
  note st = prepare_states [OF prepared.hyps(3)] and fr = prepare_fresh [OF prepared.hyps(3) _ prepared.hyps(2,4)]
  have "log_ok (Handed (sp_material_digest pin) (kp_nonce prep) # log)"
    using fr prepared.IH fresh_nonce_logged [of log w "sp_material_digest pin" _ "kp_nonce prep"] by blast
  moreover have "recorded w' (Handed (sp_material_digest pin) (kp_nonce prep))" using fr prepared.IH by auto
  ultimately show ?case using st prepared.IH recorded_grows by (auto simp: Ball_def)
next
  case (completed log w pid o1 o2 draw prep p r prep' p' w')
  from completed.hyps(2) have "w' = w" by (cases rule: complete_effect) auto
  then show ?case using completed.IH by simp
next
  case (unwrapped log w pid o1 o2 wk b p r p' w')
  from unwrapped.hyps(2) have "w' = w" by (cases rule: unwrap_effect) auto
  then show ?case using unwrapped.IH by simp
qed

text \<open>The log holds no nonce twice, so it is no longer than the registry's count.\<close>

lemma handed_distinct: "log_ok log \<Longrightarrow> distinct (filter (\<lambda>e. \<exists>n. e = Handed d n) log)"
proof (induction log)
  case (Cons e log)
  then show ?case by (cases e) auto
qed simp

lemma handed_bounded:
  assumes "process_run L log w"
  shows "len (filter (\<lambda>e. \<exists>n. e = Handed d n) log) \<le> DEFAULT_PROCESS_WRAP_LIMIT"
proof -
  have inv: "states_ok w" "log_ok log" "\<forall>e \<in> set log. recorded w e" using process_run_inv [OF assms] by auto
  let ?f = "filter (\<lambda>e. \<exists>n. e = Handed d n) log"
  show ?thesis
  proof (cases "map_of (pr_wrap_states w) d")
    case None
    then have "?f = []" using inv(3) by (auto simp: filter_empty_conv)
    then show ?thesis by (simp add: DEFAULT_PROCESS_WRAP_LIMIT_def)
  next
    case (Some s)
    then have ok: "wrap_ok s" using inv(1) by (simp add: states_ok_def)
    have "set ?f \<subseteq> Handed d ` set (ws_used_nonces s)" using inv(3) Some by auto
    then have "card (set ?f) \<le> card (Handed d ` set (ws_used_nonces s))" by (intro card_mono) simp_all
    also have "\<dots> \<le> length (ws_used_nonces s)" using card_image_le card_length le_trans by blast
    finally have "length ?f \<le> length (ws_used_nonces s)" using distinct_card [OF handed_distinct [OF inv(2)]] by metis
    then show ?thesis using ok by (simp add: wrap_ok_def)
  qed
qed


section \<open>A source that stays\<close>

text \<open>Both openings of a session find the same source, and every descriptor closes.\<close>

definition stable_source :: "key_lib \<Rightarrow> int \<Rightarrow> observation \<Rightarrow> observation \<Rightarrow> owner_provider \<Rightarrow> bytes \<Rightarrow> source_pin \<Rightarrow> bool" where
  "stable_source L pid o1 o2 p material pin \<longleftrightarrow>
     opened L pid o1 p = Inr (material, pin) \<and> (\<exists>m. opened L pid o2 p = Inr (m, pin)) \<and> close_source o1 \<and> close_source o2"

lemma stable_session:
  assumes "stable_source L pid o1 o2 p material pin" and "required = None \<or> required = Some pin"
    and "body material pin (p, w) = (Inr v, (p, w'))"
  shows "material_session L pid o1 o2 required body (p, w) = (Inr v, (p, w'))"
proof -
  obtain m where o: "opened L pid o1 p = Inr (material, pin)" "opened L pid o2 p = Inr (m, pin)" "close_source o1" "close_source o2"
    using assms(1) by (auto simp: stable_source_def)
  have re: "reopen L pid o2 required pin p = (Inr (), p)" by (simp add: reopen_def o(2,4) same_pin_eq)
  have "session_body L pid o1 o2 required body material pin (p, w) = (Inr v, (p, w'))"
    by (simp add: session_body_def assms(3) re o(3))
  then show ?thesis using assms(2) by (auto simp: material_session_def o(1) same_pin_eq)
qed

lemma stable_pinned:
  assumes "stable_source L pid o1 o2 p material pin" and "body material pin (p, w) = (Inr v, (p, w'))"
    and "wrap_state_of (p, w') = Some s" and "\<not> ws_nonce_reuse_latched s"
  shows "pinned_session L pid o1 o2 pin body (p, w) = (Inr v, (p, w'))"
  using stable_session [where body = body and required = "Some pin", OF assms(1) _ assms(2)] assms(3,4)
  by (simp add: pinned_session_def require_unlatched_state_def assert_domain_unlatched_def)

lemma ready_state:
  assumes "require_ready (p, w) = (Inr pin, (p, w))"
  obtains s where "wrap_state_of (p, w) = Some s" and "\<not> ws_nonce_reuse_latched s" and "ow_source_pin p = Some pin"
    and "\<not> ow_recovery_latched p"
  using assms by (auto simp: require_ready_def assert_domain_unlatched_def split: if_splits option.splits)

lemma ready_stateI:
  assumes "wrap_state_of (p, w) = Some s" and "\<not> ws_nonce_reuse_latched s" and "ow_source_pin p = Some pin" and "\<not> ow_recovery_latched p"
  shows "require_ready (p, w) = (Inr pin, (p, w))"
  using assms by (simp add: require_ready_def assert_domain_unlatched_def)

lemma complete_ready:
  assumes "complete_profile_key L pid o1 o2 draw prep (p, w) = (Inr wk, prep', (p', w'))" and "ow_source_pin p = Some pin"
  shows "require_ready (p, w) = (Inr pin, (p, w))"
proof -
  obtain q p1 w1 where rdy: "require_ready (p, w) = (q, (p1, w1))" by (rule triple_cases)
  from rdy show ?thesis
  proof (cases rule: ready_effect)
    case (refused e)
    then show ?thesis using assms(1) rdy
      by (auto simp: complete_profile_key_def split: if_splits sum.splits prod.splits)
  next
    case (ready pin')
    then show ?thesis using rdy assms(2) by simp
  qed
qed

lemma unwrap_succeeds:
  assumes "require_ready (p, w) = (Inr pin, (p, w))" and "stable_source L pid o1 o2 p material pin" and "pid = ow_pid p"
    and "wk_kek_ref wk = ow_active_kek p" and "wk_binding wk = b" and "pb_installation_id b = ow_installation_id p"
    and "decrypt_profile_key L material wk b (p, w) = Inr plain"
  shows "unwrap_profile_key L pid o1 o2 wk b (p, w) =
    (Inr \<lparr>dh_material = plain, dh_pid = pid, dh_active = False, dh_closed = False, dh_used = False\<rparr>, (p, w))"
proof -
  obtain s where s: "wrap_state_of (p, w) = Some s" "\<not> ws_nonce_reuse_latched s" using assms(1) by (rule ready_state)
  have "pinned_session L pid o1 o2 pin (\<lambda>material _ pw. (decrypt_profile_key L material wk b pw, pw)) (p, w) = (Inr plain, (p, w))"
    by (rule stable_pinned [OF assms(2) _ s]) (simp add: assms(7))
  then show ?thesis using assms(1,3-6) by (simp add: unwrap_profile_key_def)
qed

lemma decrypt_encrypt:
  assumes "key_lib_ok L" and "length material = 32" and "length nonce = 12" and "new_profile_material draw = Inr profile"
    and "encrypt_profile_key L material nonce profile pw b = Inr c" and "wk_nonce wk = nonce" and "wk_ciphertext wk = c"
    and "ow_active_kek (fst pw) = ow_active_kek (fst pw')"
  shows "decrypt_profile_key L material wk b pw' = Inr profile" and "draw = Some profile" and "length c = 48"
proof -
  let ?aad = "profile_aad (ow_active_kek (fst pw)) b"
  have len: "length profile = 32" "draw = Some profile"
    using assms(4) by (auto simp: new_profile_material_def key_consts split: option.splits if_splits)
  obtain c' where c': "kl_encrypt L material nonce profile ?aad = Some c'" "length c' = length profile + 16"
      "kl_decrypt L material nonce c' ?aad = Plaintext profile"
    using assms(1-3) unfolding key_lib_ok_def by blast
  have "c = c'" using assms(5) c'(1) by (auto simp: encrypt_profile_key_def split: if_splits)
  then show "decrypt_profile_key L material wk b pw' = Inr profile" "length c = 48"
    using c' assms(6-8) len by (simp_all add: decrypt_profile_key_def key_consts)
  show "draw = Some profile" by (rule len(2))
qed

lemma opened_material: "opened L pid obs p = Inr (material, pin) \<Longrightarrow> length material = 32 \<and> sp_material_digest pin = kl_sha256 L material"
  using source_material by (auto simp: opened_def split: if_splits)


section \<open>A sample provider\<close>

text \<open>An authenticated encryption that appends an empty tag, to instantiate the library parameter.\<close>

definition sample_key_lib :: key_lib where
  "sample_key_lib = \<lparr>kl_sha256 = (\<lambda>_. replicate 32 0), kl_encrypt = (\<lambda>k n p a. Some (p @ replicate 16 0)),
     kl_decrypt = (\<lambda>k n c a. Plaintext (take (length c - 16) c))\<rparr>"

definition sample_kek :: active_kek_ref where
  "sample_kek = \<lparr>kk_provider_kind = ''owner-file'', kk_provider_instance_id = sid 4, kk_kek_id = sid 5, kk_kek_version = 1\<rparr>"

definition sample_ready_sentinel :: readiness_sentinel where
  "sample_ready_sentinel = \<lparr>rs_kek_ref = sample_kek, rs_installation_id = sid 1, rs_catalog_id = sid 2, rs_sentinel_id = sid 3,
     rs_nonce = replicate 12 0, rs_ciphertext = READINESS_PLAINTEXT @ replicate 16 0, rs_format_version = 1, rs_aad_version = 1,
     rs_suite = ''A256GCM''\<rparr>"

definition sample_provider :: owner_provider where
  "sample_provider = \<lparr>ow_issuer = 0, ow_pid = 1, ow_key_path = [''keys'', ''kek''], ow_active_kek = sample_kek,
     ow_installation_id = sid 1, ow_catalog_id = sid 2, ow_sentinel_id = sid 3, ow_readiness_sentinel = sample_ready_sentinel,
     ow_managed_roots = [[''data'']], ow_process_wrap_limit = 5, ow_source_pin = None, ow_recovery_latched = False,
     ow_latched_source_status = SRC_UNAVAILABLE, ow_wrap_domain = None\<rparr>"

abbreviation sample_digest :: bytes where "sample_digest \<equiv> replicate 32 0"

definition sample_source :: observation where
  "sample_source = sample_observation (replicate 32 5)"

definition sample_ready :: owner_provider where
  "sample_ready = sample_provider\<lparr>ow_wrap_domain := Some sample_digest, ow_source_pin := Some (sample_pin sample_digest)\<rparr>"

definition sample_domain :: wrap_state where
  "sample_domain = \<lparr>ws_limit = 5, ws_count = 0, ws_used_nonces = [], ws_sentinel_records = [(replicate 12 0, sample_digest)],
     ws_nonce_reuse_latched = False\<rparr>"

definition sample_process :: key_process where
  "sample_process = \<lparr>pr_pid = 1, pr_live_paths = [], pr_live_keys = [(sample_digest, 0)],
     pr_wrap_states = [(sample_digest, sample_domain)]\<rparr>"

lemma sample_key_lib_ok: "key_lib_ok sample_key_lib"
  by (simp add: key_lib_ok_def sample_key_lib_def)

lemma sample_stable:
  assumes "p \<in> {sample_provider, sample_ready}"
  shows "stable_source sample_key_lib 1 sample_source sample_source p (replicate 32 5) (sample_pin sample_digest)"
proof -
  have "ow_pid p = 1" "ow_key_path p = [''keys'', ''kek'']" "ow_managed_roots p = [[''data'']]"
    using assms by (auto simp: sample_provider_def sample_ready_def)
  then have "opened sample_key_lib 1 sample_source p = Inr (replicate 32 5, sample_pin sample_digest)"
    using sample_opens [of "replicate 32 5" "kl_sha256 sample_key_lib"]
    by (simp add: opened_def sample_source_def sample_key_lib_def)
  then show ?thesis by (simp add: stable_source_def sample_source_def)
qed

lemma sample_becomes_ready:
  "readiness sample_key_lib 1 sample_source sample_source (sample_provider, new_process 1) =
     (Inr \<lparr>rd_state = KEY_READY, rd_source_status = SRC_READABLE\<rparr>, (sample_ready, sample_process))"
proof -
  let ?w = "(new_process 1)\<lparr>pr_wrap_states := [(sample_digest, sample_domain)]\<rparr>"
  have com: "sentinel_record_commitment sample_key_lib sample_provider = sample_digest"
    by (simp add: sentinel_record_commitment_def sample_key_lib_def Let_def)
  have dec: "kl_decrypt sample_key_lib m (rs_nonce (ow_readiness_sentinel sample_provider))
      (rs_ciphertext (ow_readiness_sentinel sample_provider)) a = Plaintext READINESS_PLAINTEXT" for m a
    by (simp add: sample_key_lib_def sample_provider_def sample_ready_sentinel_def)
  have rec: "record_authenticated_sentinel sample_key_lib sample_digest (sample_provider, new_process 1) = (Inr (), (sample_provider, ?w))"
    unfolding record_authenticated_sentinel_def split_conv com
    by (simp add: Let_def sample_provider_def sample_ready_sentinel_def new_process_def sample_domain_def)
  have "readiness_operation sample_key_lib (replicate 32 5) (sample_pin sample_digest) (sample_provider, new_process 1) =
      (Inr (sample_pin sample_digest, None), (sample_provider, ?w))"
    unfolding readiness_operation_def readiness_body_def split_conv dec Let_def
    by (simp add: sample_pin_def rec [simplified])
  from stable_session [where body = "readiness_operation sample_key_lib" and required = None, OF sample_stable _ this]
  have ses: "material_session sample_key_lib 1 sample_source sample_source (ow_source_pin sample_provider)
      (readiness_operation sample_key_lib) (sample_provider, new_process 1) = (Inr (sample_pin sample_digest, None), (sample_provider, ?w))"
    by (simp add: sample_provider_def)
  have "activate_key_domain sample_key_lib sample_digest (sample_provider, ?w) =
      (Inr (), (sample_provider\<lparr>ow_wrap_domain := Some sample_digest\<rparr>, sample_process))"
    unfolding activate_key_domain_def split_conv com
    by (simp add: sample_domain_def sample_provider_def sample_ready_sentinel_def new_process_def sample_process_def)
  then have "finish_readiness sample_key_lib (Inr (sample_pin sample_digest, None)) (sample_provider, ?w) =
      (Inr \<lparr>rd_state = KEY_READY, rd_source_status = SRC_READABLE\<rparr>, (sample_ready, sample_process))"
    by (simp add: finish_readiness_def sample_pin_def sample_ready_def)
  then show ?thesis using ses by (simp add: readiness_def sample_provider_def)
qed

definition sample_used :: key_process where
  "sample_used = sample_process\<lparr>pr_wrap_states := [(sample_digest, sample_domain\<lparr>ws_used_nonces := [replicate 12 1], ws_count := 1\<rparr>)]\<rparr>"

definition sample_prepared :: "profile_key_binding \<Rightarrow> key_preparation" where
  "sample_prepared b = \<lparr>kp_binding = b, kp_nonce = replicate 12 1, kp_issuer = 0, kp_pid = 1, kp_consumed = False\<rparr>"

lemma sample_ready_ok:
  "provider_ok sample_provider" "provider_ok sample_ready" "ow_source_pin sample_ready = Some (sample_pin sample_digest)"
  "ow_pid sample_ready = 1" "ow_installation_id sample_ready = sid 1" "ow_issuer sample_ready = 0"
  by (simp_all add: provider_ok_def sample_provider_def sample_ready_def sample_pin_def DEFAULT_PROCESS_WRAP_LIMIT_def)

lemma sample_is_ready:
  assumes "w \<in> {sample_process, sample_used}"
  obtains s where "wrap_state_of (sample_ready, w) = Some s" and "\<not> ws_nonce_reuse_latched s"
    and "require_ready (sample_ready, w) = (Inr (sample_pin sample_digest), (sample_ready, w))"
proof -
  obtain s where s: "wrap_state_of (sample_ready, w) = Some s" "\<not> ws_nonce_reuse_latched s"
    using assms by (auto simp: wrap_state_of_def sample_ready_def sample_process_def sample_used_def sample_domain_def)
  have "require_ready (sample_ready, w) = (Inr (sample_pin sample_digest), (sample_ready, w))"
    by (rule ready_stateI [OF s sample_ready_ok(3)]) (simp add: sample_ready_def sample_provider_def)
  then show thesis using that s by blast
qed

lemma sample_prepares:
  assumes "pb_installation_id b = sid 1"
  shows "prepare_profile_key sample_key_lib 1 sample_source sample_source (Some (replicate 12 1)) b (sample_ready, sample_process) =
    (Inr (sample_prepared b), (sample_ready, sample_used))"
proof -
  have res: "reserve_nonce 1 (Some (replicate 12 1)) (sample_ready, sample_process) = (Inr (replicate 12 1), (sample_ready, sample_used))"
    by (simp add: reserve_nonce_def sample_ready_ok sample_process_def sample_used_def sample_domain_def key_consts Let_def)
      (simp add: sample_ready_def key_consts)
  obtain s where s: "wrap_state_of (sample_ready, sample_used) = Some s" "\<not> ws_nonce_reuse_latched s"
    by (rule sample_is_ready [of sample_used]) auto
  obtain rd where "require_ready (sample_ready, sample_process) = (Inr (sample_pin sample_digest), (sample_ready, sample_process))"
    by (rule sample_is_ready [of sample_process]) auto
  moreover have "pinned_session sample_key_lib 1 sample_source sample_source (sample_pin sample_digest)
      (\<lambda>_ _ pw. reserve_nonce 1 (Some (replicate 12 1)) pw) (sample_ready, sample_process) =
      (Inr (replicate 12 1), (sample_ready, sample_used))"
    by (rule stable_pinned [OF sample_stable _ s]) (simp_all add: res)
  ultimately show ?thesis using assms by (simp add: prepare_profile_key_def sample_ready_ok sample_prepared_def)
qed

lemma sample_completes:
  "complete_profile_key sample_key_lib 1 sample_source sample_source (Some (replicate 32 9)) (sample_prepared b) (sample_ready, sample_used) =
     (Inr \<lparr>wk_kek_ref = sample_kek, wk_binding = b, wk_nonce = replicate 12 1, wk_ciphertext = replicate 32 9 @ replicate 16 0,
        wk_format_version = 1, wk_aad_version = 1, wk_suite = ''A256GCM''\<rparr>,
      (sample_prepared b)\<lparr>kp_consumed := True\<rparr>, (sample_ready, sample_used))"
proof -
  obtain s where s: "wrap_state_of (sample_ready, sample_used) = Some s" "\<not> ws_nonce_reuse_latched s"
    and rd: "require_ready (sample_ready, sample_used) = (Inr (sample_pin sample_digest), (sample_ready, sample_used))"
    by (rule sample_is_ready [of sample_used]) auto
  let ?c = "replicate 32 9 @ replicate 16 (0 :: byte)"
  have enc: "encrypt_profile_key sample_key_lib (replicate 32 5) (replicate 12 1) (replicate 32 9) (sample_ready, sample_used) b = Inr ?c"
    by (simp add: encrypt_profile_key_def sample_key_lib_def key_consts)
  have "pinned_session sample_key_lib 1 sample_source sample_source (sample_pin sample_digest)
      (\<lambda>material _ pw. (encrypt_profile_key sample_key_lib material (replicate 12 1) (replicate 32 9) pw b, pw)) (sample_ready, sample_used) =
      (Inr ?c, (sample_ready, sample_used))"
    by (rule stable_pinned [OF sample_stable _ s]) (simp_all add: enc)
  moreover have "handle_is_current 1 0 (sample_ready, sample_used)"
    using s by (simp add: handle_is_current_def sample_ready_ok) (simp add: sample_ready_def sample_provider_def)
  ultimately show ?thesis
    using rd
    by (simp add: complete_profile_key_def sample_ready_ok sample_prepared_def consume_preparation_def Let_def new_profile_material_def
        key_consts) (simp add: sample_ready_def sample_provider_def)
qed


section \<open>Promises of the provider\<close>

text \<open>C33. Within a process a nonce is handed out for a key only once: whatever providers are created, released and used
  over whatever sources, whenever a nonce is handed out for some key material, it was not handed out for it before, no
  readiness sentinel was authenticated with it under this key before, and no nonce handed out before was met again in a
  sentinel, for the key domain refuses to wrap after such a clash; and at most 100000 nonces are handed out for a key.\<close>

theorem process_nonces_unique:
  assumes "process_run L log w" and "log = later @ Handed d n # earlier"
  shows "Handed d n \<notin> set earlier \<and> Authenticated d n \<notin> set earlier \<and>
    (\<forall>m. Handed d m \<in> set earlier \<longrightarrow> Authenticated d m \<notin> set earlier) \<and>
    length (filter (\<lambda>e. \<exists>m. e = Handed d m) log) \<le> 100000"
proof -
  have "log_ok (Handed d n # earlier)" using process_run_inv [OF assms(1)] log_ok_before assms(2) by blast
  then show ?thesis using handed_bounded [OF assms(1), of d] by (simp add: DEFAULT_PROCESS_WRAP_LIMIT_def)
qed

theorem process_nonces_unique_witness:
  "\<exists>w. process_run sample_key_lib [Handed sample_digest (replicate 12 1), Authenticated sample_digest (replicate 12 0)] w \<and>
     Authenticated sample_digest (replicate 12 1) \<notin> set [Authenticated sample_digest (replicate 12 0)]"
proof -
  define b where "b = \<lparr>pb_installation_id = sid 1, pb_profile_id = sid 6, pb_profile_key_version = 1, pb_catalog_schema_version = 1\<rparr>"
  have "pb_installation_id b = sid 1" by (simp add: b_def)
  note prep = sample_prepares [OF this]
  have "opened sample_key_lib 1 sample_source sample_provider = Inr (replicate 32 5, sample_pin sample_digest)"
    using sample_stable [of sample_provider] by (simp add: stable_source_def)
  then have "authenticated sample_key_lib 1 sample_source sample_provider = Some sample_digest"
    by (simp add: authenticated_def sample_provider_def sample_ready_sentinel_def sample_key_lib_def READINESS_PLAINTEXT_def sample_pin_def)
  then have ev: "sentinel_events sample_key_lib 1 sample_source sample_provider = [Authenticated sample_digest (replicate 12 0)]"
    by (simp add: sentinel_events_def sample_provider_def sample_ready_sentinel_def)
  have "process_run sample_key_lib [Authenticated sample_digest (replicate 12 0)] sample_process"
    using process_run.checked [OF process_run.started sample_ready_ok(1) sample_becomes_ready] ev by simp
  from process_run.prepared [OF this sample_ready_ok(2) prep sample_ready_ok(3)]
  have run: "process_run sample_key_lib [Handed sample_digest (replicate 12 1), Authenticated sample_digest (replicate 12 0)] sample_used"
    by (simp add: sample_pin_def sample_prepared_def)
  then show ?thesis using process_nonces_unique [OF run, of "[]"] by auto
qed

text \<open>A wrapped key is unwrapped again: while the provider stays ready and its source stays the same, unwrapping a
  completed key under its binding gives a handle on exactly the key material that was drawn for it.\<close>

theorem wrapped_key_unwraps:
  assumes "key_lib_ok L" and "length (kp_nonce prep) = 12" and "pb_installation_id (kp_binding prep) = ow_installation_id p"
    and "complete_profile_key L pid o1 o2 draw prep (p, w) = (Inr wk, prep', pw')"
    and "stable_source L pid o3 o4 p material pin" and "ow_source_pin p = Some pin" and "opened L pid o1 p = Inr (material, pin)"
  shows "\<exists>h. unwrap_profile_key L pid o3 o4 wk (kp_binding prep) pw' = (Inr h, pw') \<and> draw = Some (dh_material h) \<and> pw' = (p, w) \<and>
    wrapped_profile_key_ok wk \<and> wk_binding wk = kp_binding prep \<and> wk_nonce wk = kp_nonce prep"
proof -
  obtain p' w' where pw': "pw' = (p', w')" by (cases pw')
  from assms(4) [unfolded pw'] show ?thesis
  proof (cases rule: complete_effect)
    case (wrapped pin' material' profile c)
    have m: "length material = 32" using opened_material [OF assms(7)] by simp
    have same: "material' = material" "pw' = (p, w)" using wrapped assms(7) pw' by auto
    note d = decrypt_encrypt [OF assms(1) m assms(2) wrapped(9) wrapped(10) [unfolded same], of wk "(p, w)"]
    have wk: "wk_nonce wk = kp_nonce prep" "wk_ciphertext wk = c" "wk_kek_ref wk = ow_active_kek p" "wk_binding wk = kp_binding prep"
      "wk_format_version wk = 1" "wk_aad_version wk = 1" "wk_suite wk = ''A256GCM''"
      using wrapped(11) by (simp_all add: key_consts)
    have "unwrap_profile_key L pid o3 o4 wk (kp_binding prep) (p, w) =
        (Inr \<lparr>dh_material = profile, dh_pid = pid, dh_active = False, dh_closed = False, dh_used = False\<rparr>, (p, w))"
      by (rule unwrap_succeeds [OF complete_ready [OF assms(4) [unfolded pw'] assms(6)] assms(5) wrapped(3) wk(3,4) assms(3) d(1)])
        (simp_all add: wk)
    moreover have "wrapped_profile_key_ok wk" using wk d(3) assms(2) by (simp add: wrapped_profile_key_ok_def key_consts)
    ultimately show ?thesis using d(2) wk same(2) by simp
  qed simp
qed

theorem wrapped_key_unwraps_witness:
  "\<exists>b wk prep' h. complete_profile_key sample_key_lib 1 sample_source sample_source (Some (replicate 32 9)) (sample_prepared b)
       (sample_ready, sample_used) = (Inr wk, prep', (sample_ready, sample_used)) \<and>
     unwrap_profile_key sample_key_lib 1 sample_source sample_source wk b (sample_ready, sample_used) =
       (Inr h, (sample_ready, sample_used)) \<and> dh_material h = replicate 32 9"
proof -
  define b where "b = \<lparr>pb_installation_id = sid 1, pb_profile_id = sid 6, pb_profile_key_version = 1, pb_catalog_schema_version = 1\<rparr>"
  have st: "stable_source sample_key_lib 1 sample_source sample_source sample_ready (replicate 32 5) (sample_pin sample_digest)"
    by (rule sample_stable) simp
  then have o: "opened sample_key_lib 1 sample_source sample_ready = Inr (replicate 32 5, sample_pin sample_digest)"
    by (simp add: stable_source_def)
  from wrapped_key_unwraps [OF sample_key_lib_ok _ _ sample_completes [of b] st sample_ready_ok(3) o] sample_completes [of b]
  show ?thesis by (fastforce simp: sample_prepared_def b_def sample_ready_ok)
qed

text \<open>What may happen to one provider: its own calls, and anything in the process around it.\<close>

inductive provider_step :: "key_lib \<Rightarrow> key_world \<Rightarrow> key_world \<Rightarrow> bool" for L where
  "provider_step L pw (snd (readiness L pid o1 o2 pw))"
| "provider_step L pw (snd (read_source_status L pid o1 o2 pw))"
| "provider_step L pw (snd (prepare_profile_key L pid o1 o2 draw b pw))"
| "provider_step L pw (snd (snd (complete_profile_key L pid o1 o2 draw prep pw)))"
| "provider_step L pw (snd (unwrap_profile_key L pid o1 o2 wk b pw))"
| "provider_step L (p, w) (p, w')"

lemma kept_latched: "kept_or_latched p p' \<Longrightarrow> ow_recovery_latched p \<Longrightarrow> ow_recovery_latched p'"
  by (auto simp: kept_or_latched_def)

lemma provider_step_latched:
  assumes "provider_step L pw pw'" and "ow_recovery_latched (fst pw)"
  shows "ow_recovery_latched (fst pw')"
proof -
  obtain p w where pw: "pw = (p, w)" by (cases pw)
  from assms(1) show ?thesis
  proof cases
    case (1 pid o1 o2)
    then show ?thesis using assms(2) by (cases "pid = ow_pid p") (simp_all add: readiness_def pw)
  next
    case (2 pid o1 o2)
    obtain r p' w' where "read_source_status L pid o1 o2 (p, w) = (r, (p', w'))" by (rule triple_cases)
    from source_status_effect(2) [OF this] this show ?thesis using 2 assms(2) kept_latched by (simp add: pw)
  next
    case (3 pid o1 o2 draw b)
    obtain r p' w' where e: "prepare_profile_key L pid o1 o2 draw b (p, w) = (r, (p', w'))" by (rule triple_cases)
    then have "kept_or_latched p p'" by (cases rule: prepare_effect) simp_all
    then show ?thesis using 3 assms(2) kept_latched e by (simp add: pw)
  next
    case (4 pid o1 o2 draw prep)
    obtain r prep' p' w' where e: "complete_profile_key L pid o1 o2 draw prep (p, w) = (r, prep', (p', w'))"
      by (metis prod.exhaust)
    then have "kept_or_latched p p'" by (cases rule: complete_effect) simp_all
    then show ?thesis using 4 assms(2) kept_latched e by (simp add: pw)
  next
    case (5 pid o1 o2 wk b)
    obtain r p' w' where e: "unwrap_profile_key L pid o1 o2 wk b (p, w) = (r, (p', w'))" by (rule triple_cases)
    then have "kept_or_latched p p'" by (cases rule: unwrap_effect) simp_all
    then show ?thesis using 5 assms(2) kept_latched e by (simp add: pw)
  next
    case (6 p' w' w'')
    then show ?thesis using assms(2) by simp
  qed
qed

text \<open>A latched provider is latched for good: after any further calls on it and anything else in the process, it
  prepares, completes and unwraps nothing, none of its handles is current, and readiness answers that recovery is
  required.\<close>

theorem latched_provider_refuses:
  assumes "ow_recovery_latched (fst pw)" and "(provider_step L)\<^sup>*\<^sup>* pw pw'"
  shows "\<not> handle_is_current pid token pw' \<and> (\<exists>e. fst (prepare_profile_key L pid o1 o2 draw b pw') = Inl e) \<and>
    (\<exists>e. fst (complete_profile_key L pid o1 o2 draw prep pw') = Inl e) \<and>
    (\<exists>e. fst (unwrap_profile_key L pid o1 o2 wk b pw') = Inl e) \<and>
    (\<forall>answer. fst (readiness L pid o1 o2 pw') = Inr answer \<longrightarrow> rd_state answer = KEY_RECOVERY_REQUIRED)"
proof -
  obtain p w where pw': "pw' = (p, w)" by (cases pw')
  have "ow_recovery_latched (fst pw')" using assms(2,1) by induction (auto intro: provider_step_latched)
  then have l: "ow_recovery_latched p" by (simp add: pw')
  obtain r p' w' where e1: "prepare_profile_key L pid o1 o2 draw b (p, w) = (r, (p', w'))" by (rule triple_cases)
  then have "\<exists>e. r = Inl e"
  proof (cases rule: prepare_effect)
    case (ran pin material res)
    then show ?thesis using l by simp
  qed simp
  moreover obtain r2 prep' p2 w2 where e2: "complete_profile_key L pid o1 o2 draw prep (p, w) = (r2, prep', (p2, w2))"
    by (metis prod.exhaust)
  then have "\<exists>e. r2 = Inl e" by (cases rule: complete_effect) (use l in simp_all)
  moreover obtain r3 p3 w3 where e3: "unwrap_profile_key L pid o1 o2 wk b (p, w) = (r3, (p3, w3))" by (rule triple_cases)
  then have "\<exists>e. r3 = Inl e" by (cases rule: unwrap_effect) (use l in simp_all)
  moreover have "rd_state answer = KEY_RECOVERY_REQUIRED" if "fst (readiness L pid o1 o2 (p, w)) = Inr answer" for answer
    using that l by (cases "pid = ow_pid p") (auto simp: readiness_def recovery_answer_def)
  ultimately show ?thesis using l e1 e2 e3 by (simp add: pw' handle_is_current_def)
qed

definition sample_latched_binding :: profile_key_binding where
  "sample_latched_binding = \<lparr>pb_installation_id = sid 1, pb_profile_id = sid 6, pb_profile_key_version = 1, pb_catalog_schema_version = 1\<rparr>"

theorem latched_provider_refuses_witness:
  "let pw = (latch_recovery SRC_UNSAFE sample_ready, sample_process) in
     \<not> handle_is_current 1 0 pw \<and>
     (\<exists>e. fst (prepare_profile_key sample_key_lib 1 sample_source sample_source (Some (replicate 12 1)) sample_latched_binding pw) = Inl e)"
proof -
  let ?pw = "(latch_recovery SRC_UNSAFE sample_ready, sample_process)"
  have "ow_recovery_latched (fst ?pw)" by simp
  from latched_provider_refuses [OF this rtranclp.rtrancl_refl] show ?thesis by (simp only: Let_def) blast
qed

lemma ready_is_current: "require_ready (p, w) = (Inr pin, (p, w)) \<Longrightarrow> handle_is_current (ow_pid p) (ow_issuer p) (p, w)"
  by (erule ready_state) (simp add: handle_is_current_def)

lemma mismatch:
  assumes "opened L pid o1 p = Inr (material, found)" and "found \<noteq> pin"
  shows "material_session L pid o1 o2 (Some pin) body (p, w) =
      (Inl (Session_Failed F_RECOVERY_REQUIRED), (latch_recovery (status_for_pin_difference found pin) p, w))"
    and "pinned_session L pid o1 o2 pin body' (p, w) =
      (Inl (Session_Failed F_RECOVERY_REQUIRED), (latch_recovery (status_for_pin_difference found pin) p, w))"
  using assms by (simp_all add: pinned_session_def material_session_def same_pin_eq session_failure_def)

text \<open>C37. A replaced source is refused: if the file, its directory or its key is not the pinned one, then every operation of
  a ready provider is latched: it neither draws a nonce nor wraps, although a preparation is spent, nor touches a wrapped
  key, and its readiness and source status report the difference.\<close>

theorem replaced_source_is_refused:
  assumes "require_ready (p, w) = (Inr pin, (p, w))" and "opened L pid o1 p = Inr (material, found)" and "found \<noteq> pin"
    and "pb_installation_id b = ow_installation_id p" and "wk_kek_ref wk = ow_active_kek p" and "wk_binding wk = b" and "pid = ow_pid p"
    and "kp_pid prep = pid" and "kp_issuer prep = ow_issuer p" and "\<not> kp_consumed prep" and "length dek = 32"
  shows "prepare_profile_key L pid o1 o2 draw b (p, w) =
      (Inl F_RECOVERY_REQUIRED, (latch_recovery (status_for_pin_difference found pin) p, w)) \<and>
    complete_profile_key L pid o1 o2 (Some dek) prep (p, w) = (Inl F_RECOVERY_REQUIRED, prep\<lparr>kp_consumed := True\<rparr>,
      (latch_recovery (status_for_pin_difference found pin) p, w)) \<and>
    unwrap_profile_key L pid o1 o2 wk b (p, w) =
      (Inl F_RECOVERY_REQUIRED, (latch_recovery (status_for_pin_difference found pin) p, w)) \<and>
    readiness L pid o1 o2 (p, w) =
      (Inr (recovery_answer (status_for_pin_difference found pin)), (latch_recovery (status_for_pin_difference found pin) p, w)) \<and>
    read_source_status L pid o1 o2 (p, w) =
      (Inr (status_for_pin_difference found pin), (latch_recovery (status_for_pin_difference found pin) p, w)) \<and>
    status_for_pin_difference found pin =
      (if sp_material_digest found = sp_material_digest pin then SRC_UNSAFE else SRC_READABLE)"
proof -
  let ?p = "latch_recovery (status_for_pin_difference found pin) p"
  note pinned = mismatch(2) [OF assms(2,3), unfolded assms(7)] and session = mismatch(1) [OF assms(2,3), unfolded assms(7)]
  have pin: "ow_source_pin p = Some pin" "\<not> ow_recovery_latched p" using assms(1) by (rule ready_state; simp)+
  have "prepare_profile_key L pid o1 o2 draw b (p, w) = (Inl F_RECOVERY_REQUIRED, (?p, w))"
    using assms(1,4,7) by (simp add: prepare_profile_key_def pinned)
  moreover have "complete_profile_key L pid o1 o2 (Some dek) prep (p, w) =
      (Inl F_RECOVERY_REQUIRED, prep\<lparr>kp_consumed := True\<rparr>, (?p, w))"
  proof -
    have "handle_is_current pid (ow_issuer p) (p, w)" using assms(1,7) ready_is_current by simp
    then show ?thesis
      using assms(1,7-11) by (simp add: complete_profile_key_def consume_preparation_def new_profile_material_def key_consts Let_def pinned)
  qed
  moreover have "unwrap_profile_key L pid o1 o2 wk b (p, w) = (Inl F_RECOVERY_REQUIRED, (?p, w))"
    using assms(1,4-7) by (simp add: unwrap_profile_key_def pinned unwrap_failure_def)
  moreover have "readiness L pid o1 o2 (p, w) = (Inr (recovery_answer (status_for_pin_difference found pin)), (?p, w))"
    using pin assms(7)
    by (simp add: readiness_def session finish_readiness_def readiness_failed_def latch_or_preserve_recovery_def)
      (simp add: latch_recovery_def)
  moreover have "read_source_status L pid o1 o2 (p, w) = (Inr (status_for_pin_difference found pin), (?p, w))"
    using pin(1) assms(7) by (simp add: read_source_status_def session) (simp add: latch_recovery_def)
  moreover have "status_for_pin_difference found pin =
      (if sp_material_digest found = sp_material_digest pin then SRC_UNSAFE else SRC_READABLE)"
    by (simp add: status_for_pin_difference_def)
  ultimately show ?thesis by blast
qed

theorem replaced_source_is_refused_witness:
  "let p = sample_ready\<lparr>ow_source_pin := Some (sample_pin [])\<rparr>; b = sample_latched_binding in
     fst (prepare_profile_key sample_key_lib 1 sample_source sample_source (Some (replicate 12 1)) b (p, sample_process)) =
       Inl F_RECOVERY_REQUIRED \<and>
     fst (complete_profile_key sample_key_lib 1 sample_source sample_source (Some (replicate 32 9)) (sample_prepared b)
       (p, sample_process)) = Inl F_RECOVERY_REQUIRED \<and>
     fst (readiness sample_key_lib 1 sample_source sample_source (p, sample_process)) = Inr (recovery_answer SRC_READABLE)"
proof -
  let ?pin = "sample_pin []" and ?p = "sample_ready\<lparr>ow_source_pin := Some (sample_pin [])\<rparr>" and ?b = sample_latched_binding
  define wk where "wk = \<lparr>wk_kek_ref = sample_kek, wk_binding = ?b, wk_nonce = [], wk_ciphertext = [], wk_format_version = 1,
    wk_aad_version = 1, wk_suite = ''A256GCM''\<rparr>"
  have o: "opened sample_key_lib 1 sample_source ?p = Inr (replicate 32 5, sample_pin sample_digest)"
    using sample_stable [of sample_ready] by (simp add: stable_source_def opened_def sample_ready_ok(4))
  have ne: "sample_pin sample_digest \<noteq> ?pin" by (simp add: sample_pin_def)
  have rd: "require_ready (?p, sample_process) = (Inr ?pin, (?p, sample_process))"
    by (rule ready_stateI [of _ _ sample_domain])
      (simp_all add: wrap_state_of_def sample_ready_def sample_provider_def sample_process_def sample_domain_def)
  have status: "status_for_pin_difference (sample_pin sample_digest) ?pin = SRC_READABLE"
    by (simp add: status_for_pin_difference_def sample_pin_def)
  have at: "pb_installation_id ?b = ow_installation_id ?p" "wk_kek_ref wk = ow_active_kek ?p" "wk_binding wk = ?b" "1 = ow_pid ?p"
    "kp_pid (sample_prepared ?b) = 1" "kp_issuer (sample_prepared ?b) = ow_issuer ?p" "\<not> kp_consumed (sample_prepared ?b)"
    by (simp_all add: wk_def sample_latched_binding_def sample_ready_def sample_provider_def sample_prepared_def)
  have "length (replicate 32 (9 :: byte)) = 32" by simp
  from replaced_source_is_refused [OF rd o ne at this, of sample_source "Some (replicate 12 1)"] status
  show ?thesis by (simp add: Let_def)
qed

end
