(* ===== verification/Key_Service.thy ===== *)
theory Key_Service
  imports Key_Catalog_Properties Owner_File_Guarantees
begin

text \<open>
  \<^verbatim>\<open>KeyCatalogService\<close> of \<^verbatim>\<open>application/key_catalog.py\<close>: the catalog's decisions ordered around the secret
  provider's one-use preparations.  The provider is a port, a record of its operations; what the
  environment answers during one of its calls is the type \<open>'e\<close>, its state the type \<open>'s\<close>.
\<close>


section \<open>The secret port\<close>

record ('e, 's) secret_port =
  port_active_kek :: "'e \<Rightarrow> 's \<Rightarrow> secret_failure + active_kek_ref"
  port_readiness :: "'e \<Rightarrow> 's \<Rightarrow> (secret_failure + key_readiness) \<times> 's"
  port_prepare :: "'e \<Rightarrow> profile_key_binding \<Rightarrow> 's \<Rightarrow> (secret_failure + key_preparation) \<times> 's"
  port_complete :: "'e \<Rightarrow> key_preparation \<Rightarrow> 's \<Rightarrow> (secret_failure + wrapped_profile_key) \<times> key_preparation \<times> 's"
  port_unwrap :: "'e \<Rightarrow> wrapped_profile_key \<Rightarrow> profile_key_binding \<Rightarrow> 's \<Rightarrow> (secret_failure + dek_handle) \<times> 's"

text \<open>What a call raises: an error of the catalog, or a provider error that no handler catches.\<close>

datatype service_error = Service_Catalog key_error | Service_Secret secret_failure

abbreviation catalog_failed :: "catalog_failure \<Rightarrow> service_error" where
  "catalog_failed code \<equiv> Service_Catalog (Key_Failure code)"


section \<open>The service\<close>

text \<open>The handler of a provider error: the catalog is latched, and the caller told so.\<close>

definition recovery_handler :: "commit_fault \<Rightarrow> key_store \<Rightarrow> 's \<Rightarrow> (service_error + 'a) \<times> key_store \<times> 's" where
  "recovery_handler fault st s =
     (case require_recovery fault st of
        (Inl e, st') \<Rightarrow> (Inl (Service_Catalog e), (st', s))
      | (Inr _, st') \<Rightarrow> (Inl (catalog_failed KF_RECOVERY_REQUIRED), (st', s)))"

definition key_service_readiness ::
    "('e, 's) secret_port \<Rightarrow> catalog_identity \<Rightarrow> 'e \<Rightarrow> commit_fault \<Rightarrow> key_store \<times> 's \<Rightarrow>
     (service_error + catalog_snapshot) \<times> key_store \<times> 's" where
  "key_service_readiness P i e fault = (\<lambda>(st, s).
     case load_catalog st of
       (Inl er, st1) \<Rightarrow> (Inl (Service_Catalog er), (st1, s))
     | (Inr snapshot, st1) \<Rightarrow>
         if cs_identity snapshot \<noteq> i then (Inl (catalog_failed KF_IDENTITY_MISMATCH), (st1, s))
         else if cs_state snapshot \<noteq> K_ACTIVE then (Inl (catalog_failed KF_RECOVERY_REQUIRED), (st1, s))
         else (case port_active_kek P e s of
                 Inl x \<Rightarrow> (Inl (Service_Secret x), (st1, s))
               | Inr kek \<Rightarrow>
                   if kek \<noteq> ci_active_kek i then (Inl (catalog_failed KF_IDENTITY_MISMATCH), (st1, s))
                   else (case port_readiness P e s of
                           (Inl _, s1) \<Rightarrow> recovery_handler fault st1 s1
                         | (Inr answer, s1) \<Rightarrow>
                             if rd_state answer \<noteq> KEY_READY then recovery_handler fault st1 s1
                             else (Inr snapshot, (st1, s1)))))"

definition assert_binding ::
    "('e, 's) secret_port \<Rightarrow> catalog_identity \<Rightarrow> 'e \<Rightarrow> commit_fault \<Rightarrow> profile_key_binding \<Rightarrow> key_store \<times> 's \<Rightarrow>
     (service_error + unit) \<times> key_store \<times> 's" where
  "assert_binding P i e fault b sts =
     (case key_service_readiness P i e fault sts of
        (Inl x, sts1) \<Rightarrow> (Inl x, sts1)
      | (Inr snapshot, sts1) \<Rightarrow>
          if pb_installation_id b \<noteq> ci_installation_id i \<or> pb_catalog_schema_version b \<noteq> ci_schema_version i \<or>
             cs_identity snapshot \<noteq> i
          then (Inl (catalog_failed KF_IDENTITY_MISMATCH), sts1)
          else (Inr (), sts1))"

text \<open>
  What the environment does during one call: the answers of the provider's steps, where the commits
  of the catalog fail, and the fresh identifier of the reservation.
\<close>

record 'e call_environment =
  ce_readiness :: 'e
  ce_prepare :: 'e
  ce_complete :: 'e
  ce_unwrap :: 'e
  ce_recovery_fault :: commit_fault
  ce_reserve_fault :: commit_fault
  ce_publish_fault :: commit_fault
  ce_reservation_id :: uuid

definition create_profile_key ::
    "('e, 's) secret_port \<Rightarrow> catalog_identity \<Rightarrow> 'e call_environment \<Rightarrow> profile_key_binding \<Rightarrow> key_store \<times> 's \<Rightarrow>
     (service_error + wrapped_profile_key) \<times> key_store \<times> 's" where
  "create_profile_key P i c b sts =
     (case assert_binding P i (ce_readiness c) (ce_recovery_fault c) b sts of
        (Inl x, sts1) \<Rightarrow> (Inl x, sts1)
      | (Inr _, (st1, s1)) \<Rightarrow>
          (case port_prepare P (ce_prepare c) b s1 of
             (Inl _, s2) \<Rightarrow> recovery_handler (ce_recovery_fault c) st1 s2
           | (Inr preparation, s2) \<Rightarrow>
               (case reserve_profile_preparation (ce_reserve_fault c) (ce_reservation_id c) preparation st1 of
                  (Inl x, st2) \<Rightarrow> (Inl (Service_Catalog x), (st2, s2))
                | (Inr reservation_id, st2) \<Rightarrow>
                    (case port_complete P (ce_complete c) preparation s2 of
                       (Inl _, _, s3) \<Rightarrow> recovery_handler (ce_recovery_fault c) st2 s3
                     | (Inr wrapped, preparation', s3) \<Rightarrow>
                         (case publish_profile_key (ce_publish_fault c) reservation_id preparation' wrapped st2 of
                            (Inl x, st3) \<Rightarrow> (Inl (Service_Catalog x), (st3, s3))
                          | (Inr _, st3) \<Rightarrow> (Inr wrapped, (st3, s3)))))))"

definition open_profile_key ::
    "('e, 's) secret_port \<Rightarrow> catalog_identity \<Rightarrow> 'e call_environment \<Rightarrow> profile_key_binding \<Rightarrow> key_store \<times> 's \<Rightarrow>
     (service_error + dek_handle) \<times> key_store \<times> 's" where
  "open_profile_key P i c b sts =
     (case assert_binding P i (ce_readiness c) (ce_recovery_fault c) b sts of
        (Inl x, sts1) \<Rightarrow> (Inl x, sts1)
      | (Inr _, (st1, s1)) \<Rightarrow>
          (case load_profile_key b st1 of
             (Inl x, st2) \<Rightarrow> (Inl (Service_Catalog x), (st2, s1))
           | (Inr None, st2) \<Rightarrow> (Inl (catalog_failed KF_NOT_INITIALIZED), (st2, s1))
           | (Inr (Some wrapped), st2) \<Rightarrow>
               (case port_unwrap P (ce_unwrap c) wrapped b s1 of
                  (Inl _, s2) \<Rightarrow> recovery_handler (ce_recovery_fault c) st2 s2
                | (Inr handle, s2) \<Rightarrow> (Inr handle, (st2, s2)))))"


section \<open>The provider as a port\<close>

text \<open>One call sees two observations of the source and one draw of the random source.\<close>

definition owner_port :: "key_lib \<Rightarrow> int \<Rightarrow> (observation \<times> observation \<times> bytes option, key_world) secret_port" where
  "owner_port L pid =
     \<lparr>port_active_kek = (\<lambda>_. active_kek pid),
      port_readiness = (\<lambda>(o1, o2, _). readiness L pid o1 o2),
      port_prepare = (\<lambda>(o1, o2, draw). prepare_profile_key L pid o1 o2 draw),
      port_complete = (\<lambda>(o1, o2, draw). complete_profile_key L pid o1 o2 draw),
      port_unwrap = (\<lambda>(o1, o2, _). unwrap_profile_key L pid o1 o2)\<rparr>"

end
