(* ===== verification/Key_Service_Guarantees.thy ===== *)
theory Key_Service_Guarantees
  imports Key_Service
begin

text \<open>
  The key service over any provider that keeps the contract of its port, and over the owner-file
  provider: created keys are published and open again, a failed creation publishes nothing, and a
  catalog that requires recovery serves no key.
\<close>


section \<open>Steps of the catalog\<close>

lemma load_catalog_Inr:
  assumes "load_catalog st = (Inr sn, st1)"
  shows "st1 = st" and "ks_mode st = Accepting" and "load_snapshot (ks_tables st) = Inr sn"
  using assms by (auto simp: load_catalog_def catalog_read_def split: if_splits sum.splits body_error.splits)

lemma load_catalog_step: "key_reachable i st \<Longrightarrow> load_catalog st = (r, st1) \<Longrightarrow> key_reachable i st1"
  using key_step.intros(7) by (metis rtranclp.rtrancl_into_rtrancl snd_conv)

lemma catalog_write_Inr:
  assumes "catalog_write fault body st = (Inr v, st')"
  shows "ks_mode st = Accepting" and "\<exists>db. body (ks_tables st) = Inr (v, db) \<and> st' = st\<lparr>ks_tables := db\<rparr>"
  using assms by (auto simp: catalog_write_def split: if_splits sum.splits body_error.splits commit_fault.splits)

lemma catalog_write_Inl:
  assumes "catalog_write fault body st = (Inl e, st')"
  shows "ks_tables st' = ks_tables st \<or> (\<exists>v. body (ks_tables st) = Inr (v, ks_tables st') \<and> e = Key_Failure KF_COMMIT_OUTCOME_UNKNOWN)"
  using assms by (auto simp: catalog_write_def split: if_splits sum.splits body_error.splits commit_fault.splits)

lemma recovery_wrapped:
  assumes "require_recovery fault st = (r, st')"
  shows "kt_wrapped (ks_tables st') = kt_wrapped (ks_tables st)"
proof (cases "ks_mode st = Accepting \<and> require_recovery_body (ks_tables st) = Inr ((), ks_tables st)")
  case True
  then show ?thesis using assms by (simp add: require_recovery_def)
next
  case False
  have "catalog_write fault require_recovery_body st = (r, st')" using assms unfolding require_recovery_def if_not_P [OF False] .
  moreover have "kt_wrapped db' = kt_wrapped db" if "require_recovery_body db = Inr (v, db')" for v db db'
    using that by (auto simp: require_recovery_body_def then_do_eq_Inr update_catalog_def split: if_splits option.splits)
  ultimately show ?thesis using catalog_write_tables by metis
qed

lemma handler_effect:
  assumes "recovery_handler fault st s = (r, (st', s'))"
  shows "s' = s" and "\<exists>x. r = Inl x" and "kt_wrapped (ks_tables st') = kt_wrapped (ks_tables st)"
    and "key_reachable i st \<Longrightarrow> key_reachable i st'"
proof -
  obtain q st1 where q: "require_recovery fault st = (q, st1)" by (cases "require_recovery fault st")
  then have eq: "s' = s" "st' = st1" "\<exists>x. r = Inl x" using assms by (auto simp: recovery_handler_def split: sum.splits)
  then show "s' = s" "\<exists>x. r = Inl x" "kt_wrapped (ks_tables st') = kt_wrapped (ks_tables st)" using recovery_wrapped [OF q] by simp_all
  show "key_reachable i st'" if "key_reachable i st"
    using key_step.intros(6) [of i st fault] that q eq(2) by (metis rtranclp.rtrancl_into_rtrancl snd_conv)
qed

lemma current_row_state: "current_row i c s v u = current_row i c' s' v' u' \<Longrightarrow> s = s'"
proof -
  assume "current_row i c s v u = current_row i c' s' v' u'"
  from arg_cong [OF this, of cr_state] have "catalog_state_value s = catalog_state_value s'" by simp
  then show "s = s'" by (cases s; cases s') simp_all
qed

text \<open>A reservation leaves an active catalog.\<close>

lemma reserved_is_active:
  assumes "identity_wf i" and "catalog_inv i db" and "reserve_body rid b nonce db = Inr (x, db')"
  obtains sn where "load_snapshot db' = Inr sn" and "cs_state sn = K_ACTIVE"
  using assms
proof (cases rule: reserve_effect)
  case (1 commitment v)
  obtain c s v' where l: "load_snapshot db' = Inr (loaded i s v' db')"
      "kt_catalog db' = Some (current_row i c s v' (len (kt_nonces db')))"
    using inv_loads [OF assms(1) reserve_inv [OF assms]] by blast
  have "s = K_ACTIVE" using l(2) current_row_state [of i c s] by (simp add: 1(6)) metis
  then show thesis using that l(1) by simp
qed

lemma reserve_keeps_wrapped:
  assumes "identity_wf i" and "catalog_inv i db" and "reserve_body rid b nonce db = Inr (x, db')"
  shows "profile_row b db = None \<and> kt_wrapped db' = kt_wrapped db \<and> x = rid"
  using assms by (cases rule: reserve_effect) simp_all

lemma reachable_inv_of_load:
  assumes "identity_wf i" and "key_reachable i st" and "load_snapshot (ks_tables st) = Inr sn"
  shows "catalog_inv i (ks_tables st)"
  by (rule loadable_inv [OF assms])

text \<open>Publication stores the key: what was published is loaded.\<close>

lemma published_loads:
  assumes "identity_wf i" and "catalog_inv i db" and "publish_body rid (wk_binding w) (wk_nonce w) w db = Inr (x, db')"
    and "wrapped_profile_key_ok w"
  shows "load_profile_body (wk_binding w) db' = Inr (Some w)"
  using assms(1-3)
proof (cases rule: publish_effect)
  case (1 commitment v r)
  have inv: "catalog_inv i db'" by (rule publish_inv [OF assms(1-3)])
  obtain c s v' where l: "load_snapshot db' = Inr (loaded i s v' db')"
      "kt_catalog db' = Some (current_row i c s v' (len (kt_nonces db')))"
    using inv_loads [OF assms(1) inv] by blast
  have s: "s = K_ACTIVE" using l(2) current_row_state [of i c s] by (simp add: 1(11)) metis
  have row: "profile_row (wk_binding w) db' = Some (published_row rid w)"
    using 1(9) by (simp add: 1(11) profile_row_def find_append published_row_def)
  have "kt_nonces db' = map (committed_row (uuid_text rid)) (kt_nonces db)" by (simp add: 1(11))
  then have res: "reservation_row (uuid_text rid) db' = Some (committed_row (uuid_text rid) r)"
    using 1(2) by (simp add: reservation_row_commit)
  have "nr_lifecycle (committed_row (uuid_text rid) r) = ''committed''"
    using 1(3) reservation_row_set [OF 1(2)] by (simp add: committed_row_def)
  then have "stored_key (loaded i s v' db') (wk_binding w) db' = Inr (Some w)"
    using row res 1(5,15) assms(4)
    by (cases w) (simp add: stored_key_def published_row_def Let_def require_value_def wrapped_profile_key_ok_def)
  then show ?thesis using 1(16,17) s by (simp add: load_profile_body_def l(1) assert_active_binding_def)
qed


section \<open>The contract of a provider\<close>

text \<open>
  What the service needs of the provider behind its port: calls keep its invariant and the key it is
  bound to, a preparation is for the binding that was asked, and a completed key is a well-formed
  record for the preparation's binding, nonce and key.
\<close>

locale secret_provider =
  fixes P :: "('e, 's) secret_port" and inv :: "'s \<Rightarrow> bool" and kek :: active_kek_ref
  assumes active: "inv s \<Longrightarrow> port_active_kek P e s = Inr k \<Longrightarrow> k = kek"
    and ready: "inv s \<Longrightarrow> port_readiness P e s = (answer, s') \<Longrightarrow> inv s'"
    and prepare: "inv s \<Longrightarrow> port_prepare P e b s = (prepared, s') \<Longrightarrow>
      inv s' \<and> (\<forall>p. prepared = Inr p \<longrightarrow> kp_binding p = b \<and> length (kp_nonce p) = 12)"
    and complete: "inv s \<Longrightarrow> length (kp_nonce p) = 12 \<Longrightarrow> port_complete P e p s = (completed, p', s') \<Longrightarrow>
      inv s' \<and> (\<forall>w. completed = Inr w \<longrightarrow> wrapped_profile_key_ok w \<and> wk_kek_ref w = kek \<and> wk_binding w = kp_binding p \<and>
        wk_nonce w = kp_nonce p \<and> kp_binding p' = kp_binding p \<and> kp_nonce p' = kp_nonce p)"
    and unwrap: "inv s \<Longrightarrow> port_unwrap P e wrapped b s = (handle, s') \<Longrightarrow> inv s'"
begin

lemma readiness_cases:
  assumes "key_service_readiness P i e fault (st, s) = (r, (st', s'))" and "load_catalog st = (q, st1)"
    and "port_readiness P e s = (a, s1)"
  obtains (refused) x where "st' = st1" and "s' = s" and "r = Inl x"
  | (handled) sn where "q = Inr sn" and "cs_state sn = K_ACTIVE" and "recovery_handler fault st1 s1 = (r, (st', s'))"
  | (answered) sn where "q = Inr sn" and "cs_state sn = K_ACTIVE" and "r = Inr sn" and "st' = st1" and "s' = s1"
proof (cases q)
  case (Inl x)
  then have "r = Inl (Service_Catalog x)" "st' = st1" "s' = s" using assms(1,2) by (auto simp: key_service_readiness_def)
  then show thesis using refused by blast
next
  case (Inr sn)
  note c = assms(1) [unfolded key_service_readiness_def split_conv assms(2,3) Inr]
  show thesis
  proof (cases "cs_identity sn \<noteq> i \<or> cs_state sn \<noteq> K_ACTIVE \<or> port_active_kek P e s \<noteq> Inr (ci_active_kek i)")
    case True
    then have "st' = st1 \<and> s' = s \<and> (\<exists>x. r = Inl x)" using c by (auto split: if_splits sum.splits)
    then show thesis using refused by blast
  next
    case False
    show thesis
    proof (cases "\<exists>answer. a = Inr answer \<and> rd_state answer = KEY_READY")
      case True
      then have "r = Inr sn" "st' = st1" "s' = s1" using c False by auto
      then show thesis using answered Inr False by blast
    next
      case not_ready: False
      then have "recovery_handler fault st1 s1 = (r, (st', s'))" using c False by (cases a) auto
      then show thesis using handled Inr False by blast
    qed
  qed
qed

lemma readiness_keeps:
  assumes "key_reachable i st" and "inv s" and "key_service_readiness P i e fault (st, s) = (r, (st', s'))"
  shows "key_reachable i st'" and "inv s'" and "kt_wrapped (ks_tables st') = kt_wrapped (ks_tables st)"
    and "r = Inr sn \<Longrightarrow> st' = st \<and> ks_mode st = Accepting \<and> load_snapshot (ks_tables st) = Inr sn \<and> cs_state sn = K_ACTIVE"
proof -
  obtain q st1 where q: "load_catalog st = (q, st1)" by (cases "load_catalog st")
  have st1: "key_reachable i st1" "ks_tables st1 = ks_tables st"
    using load_catalog_step [OF assms(1) q] catalog_read_tables [of KF_UNAVAILABLE load_snapshot st] q by (simp_all add: load_catalog_def)
  obtain a s1 where a: "port_readiness P e s = (a, s1)" by (cases "port_readiness P e s")
  note s1 = ready [OF assms(2) a]
  from assms(3) q a have all: "key_reachable i st' \<and> inv s' \<and> kt_wrapped (ks_tables st') = kt_wrapped (ks_tables st) \<and>
      (r = Inr sn \<longrightarrow> st' = st \<and> ks_mode st = Accepting \<and> load_snapshot (ks_tables st) = Inr sn \<and> cs_state sn = K_ACTIVE)"
  proof (cases rule: readiness_cases)
    case (refused x)
    then show ?thesis using st1 assms(2) by simp
  next
    case (handled sn)
    note h = handler_effect [OF handled(3)] and l = load_catalog_Inr [OF q [unfolded handled(1)]]
    have "key_reachable i st'" using h(4) [of i] st1 by simp
    then show ?thesis using h(1-3) s1 st1(2) by auto
  next
    case (answered sn)
    then show ?thesis using load_catalog_Inr [OF q [unfolded answered(1)]] st1 s1 by auto
  qed
  show "key_reachable i st'" "inv s'" "kt_wrapped (ks_tables st') = kt_wrapped (ks_tables st)" using all by simp_all
  show "st' = st \<and> ks_mode st = Accepting \<and> load_snapshot (ks_tables st) = Inr sn \<and> cs_state sn = K_ACTIVE" if "r = Inr sn"
    using all that by simp
qed

lemma binding_keeps:
  assumes "key_reachable i st" and "inv s" and "assert_binding P i e fault b (st, s) = (r, (st', s'))"
  shows "key_reachable i st'" and "inv s'" and "kt_wrapped (ks_tables st') = kt_wrapped (ks_tables st)"
    and "r = Inr u \<Longrightarrow> st' = st \<and> ks_mode st = Accepting \<and> pb_installation_id b = ci_installation_id i \<and>
      pb_catalog_schema_version b = ci_schema_version i \<and> (\<exists>sn. load_snapshot (ks_tables st) = Inr sn \<and> cs_state sn = K_ACTIVE)"
proof -
  obtain q st1 s1 where q: "key_service_readiness P i e fault (st, s) = (q, (st1, s1))" by (metis prod.exhaust)
  note k = readiness_keeps [OF assms(1,2) q]
  have eq: "st' = st1" "s' = s1" using assms(3) q by (auto simp: assert_binding_def split: sum.splits if_splits)
  then show "key_reachable i st'" "inv s'" "kt_wrapped (ks_tables st') = kt_wrapped (ks_tables st)" using k(1-3) by simp_all
  show "st' = st \<and> ks_mode st = Accepting \<and> pb_installation_id b = ci_installation_id i \<and>
      pb_catalog_schema_version b = ci_schema_version i \<and> (\<exists>sn. load_snapshot (ks_tables st) = Inr sn \<and> cs_state sn = K_ACTIVE)"
    if ok: "r = Inr u"
  proof -
    obtain sn where sn: "q = Inr sn" "pb_installation_id b = ci_installation_id i" "pb_catalog_schema_version b = ci_schema_version i"
      using assms(3) q ok by (cases q) (auto simp: assert_binding_def split: if_splits)
    then show ?thesis using k(4) [OF sn(1)] eq by blast
  qed
qed

text \<open>A creation after its reservation: completed and published, or nothing is published.\<close>

lemma finish_creation:
  assumes "identity_wf i" and "catalog_inv i db0" and "reserve_body rid b (kp_nonce prep) db0 = Inr (rid, ks_tables st)"
    and "ks_mode st = Accepting" and "key_reachable i st" and "inv s" and "kp_binding prep = b" and "length (kp_nonce prep) = 12"
    and "(case port_complete P e prep s of (Inl _, _, s3) \<Rightarrow> recovery_handler f st s3
      | (Inr wrapped, prep', s3) \<Rightarrow> (case publish_profile_key pf rid prep' wrapped st of
          (Inl x, st3) \<Rightarrow> (Inl (Service_Catalog x), (st3, s3)) | (Inr _, st3) \<Rightarrow> (Inr wrapped, (st3, s3)))) = (r, (st', s'))"
  obtains (refused) x where "r = Inl x" and "key_reachable i st'" and "inv s'"
      and "kt_wrapped (ks_tables st') = kt_wrapped db0 \<or> x = catalog_failed KF_COMMIT_OUTCOME_UNKNOWN"
  | (created) w where "r = Inr w" and "key_reachable i st'" and "inv s'" and "wk_binding w = b"
      and "load_profile_key b st' = (Inr (Some w), st')"
proof -
  have inv2: "catalog_inv i (ks_tables st)" by (rule reserve_inv [OF assms(1-3)])
  have same: "kt_wrapped (ks_tables st) = kt_wrapped db0" using reserve_keeps_wrapped [OF assms(1-3)] by blast
  obtain r4 prep' s3 where cp: "port_complete P e prep s = (r4, prep', s3)" by (metis prod.exhaust)
  note k3 = complete [OF assms(6,8) cp]
  show thesis
  proof (cases r4)
    case (Inl x)
    then have h: "recovery_handler f st s3 = (r, (st', s'))" using assms(9) cp by simp
    obtain sn where sn: "load_snapshot (ks_tables st) = Inr sn" "cs_state sn = K_ACTIVE" by (rule reserved_is_active [OF assms(1-3)])
    show thesis using handler_effect(1-3) [OF h] handler_effect(4) [OF h assms(5)] k3 refused same by auto
  next
    case (Inr w)
    have w: "wrapped_profile_key_ok w" "wk_binding w = b" "wk_nonce w = kp_nonce prep" "kp_binding prep' = b"
      "kp_nonce prep' = kp_nonce prep" "inv s3" using k3 Inr assms(7) by auto
    obtain r5 st3 where pb: "publish_profile_key pf rid prep' w st = (r5, st3)" by (metis prod.exhaust)
    have reach: "key_reachable i st3"
      using key_step.intros(5) [of i st pf rid prep' w] pb assms(5) by (metis rtranclp.rtrancl_into_rtrancl snd_conv)
    have w3: "catalog_write pf (publish_body rid (wk_binding w) (wk_nonce w) w) st = (r5, st3)"
      using pb w by (simp add: publish_profile_key_def)
    have fin: "st' = st3" "s' = s3" "r = (case r5 of Inl x \<Rightarrow> Inl (Service_Catalog x) | Inr _ \<Rightarrow> Inr w)"
      using assms(9) cp Inr pb by (auto split: sum.splits)
    show thesis
    proof (cases r5)
      case (Inl x)
      then show thesis using catalog_write_Inl [OF w3 [unfolded Inl]] same fin reach w(6) refused by auto
    next
      case (Inr v)
      obtain db3 where db3: "publish_body rid (wk_binding w) (wk_nonce w) w (ks_tables st) = Inr (v, db3)" "st3 = st\<lparr>ks_tables := db3\<rparr>"
        using catalog_write_Inr [OF w3 [unfolded Inr]] by auto
      have "load_profile_key b st3 = (Inr (Some w), st3)"
        using published_loads [OF assms(1) inv2 db3(1) w(1)] w(2) assms(4) db3(2) by (simp add: load_profile_key_def catalog_read_def)
      then show thesis using created fin Inr reach w(2,6) by simp
    qed
  qed
qed

lemma create_effect:
  assumes "identity_wf i" and "key_reachable i st" and "inv s" and "create_profile_key P i c b (st, s) = (r, (st', s'))"
  obtains (refused) x where "r = Inl x" and "key_reachable i st'" and "inv s'"
      and "kt_wrapped (ks_tables st') = kt_wrapped (ks_tables st) \<or> x = catalog_failed KF_COMMIT_OUTCOME_UNKNOWN"
  | (created) w where "r = Inr w" and "key_reachable i st'" and "inv s'" and "wk_binding w = b"
      and "profile_row b (ks_tables st) = None" and "load_profile_key b st' = (Inr (Some w), st')"
proof -
  obtain r1 st1 s1 where a: "assert_binding P i (ce_readiness c) (ce_recovery_fault c) b (st, s) = (r1, (st1, s1))" by (metis prod.exhaust)
  note k1 = binding_keeps [OF assms(2,3) a]
  show thesis
  proof (cases r1)
    case (Inl x)
    then have "r = Inl x \<and> st' = st1 \<and> s' = s1" using assms(4) a by (simp add: create_profile_key_def)
    then show thesis using refused k1(1-3) by blast
  next
    case (Inr u)
    obtain sn where st1: "st1 = st" "ks_mode st = Accepting" "load_snapshot (ks_tables st) = Inr sn" "cs_state sn = K_ACTIVE"
      using k1(4) [OF Inr] by blast
    note inv0 = reachable_inv_of_load [OF assms(1,2) st1(3)]
    obtain r2 s2 where p: "port_prepare P (ce_prepare c) b s1 = (r2, s2)" by (cases "port_prepare P (ce_prepare c) b s1")
    note k2 = prepare [OF k1(2) p] and c1 = assms(4) [unfolded create_profile_key_def a Inr st1(1)]
    show thesis
    proof (cases r2)
      case (Inl x)
      then have h: "recovery_handler (ce_recovery_fault c) st s2 = (r, (st', s'))" using c1 p st1(1) by simp
      show thesis using handler_effect(1-3) [OF h] handler_effect(4) [OF h assms(2)] k2 refused by auto
    next
      case (Inr prep)
      have prep: "kp_binding prep = b" "length (kp_nonce prep) = 12" "inv s2" using k2 Inr by auto
      let ?rid = "ce_reservation_id c"
      obtain r3 st2 where rv: "reserve_profile_preparation (ce_reserve_fault c) ?rid prep st = (r3, st2)" by (metis prod.exhaust)
      have reach2: "key_reachable i st2"
        using key_step.intros(4) [of i st "ce_reserve_fault c" ?rid prep] rv assms(2) by (metis rtranclp.rtrancl_into_rtrancl snd_conv)
      note w2 = rv [unfolded reserve_profile_preparation_def prep(1)] and c2 = c1 [simplified, unfolded p Inr, simplified]
      show thesis
      proof (cases r3)
        case (Inl x)
        then have "r = Inl (Service_Catalog x) \<and> st' = st2 \<and> s' = s2" using c2 rv st1(1) by simp
        moreover have "kt_wrapped (ks_tables st2) = kt_wrapped (ks_tables st)"
          using catalog_write_Inl [OF w2 [unfolded Inl]] reserve_keeps_wrapped [OF assms(1) inv0] by metis
        ultimately show thesis using refused reach2 prep(3) by blast
      next
        case (Inr rid)
        obtain db where db: "reserve_body ?rid b (kp_nonce prep) (ks_tables st) = Inr (rid, db)" "st2 = st\<lparr>ks_tables := db\<rparr>"
          using catalog_write_Inr [OF w2 [unfolded Inr]] by blast
        have res: "profile_row b (ks_tables st) = None" "rid = ?rid"
          using reserve_keeps_wrapped [OF assms(1) inv0 db(1)] by blast+
        have body: "reserve_body rid b (kp_nonce prep) (ks_tables st) = Inr (rid, ks_tables st2)" using db res(2) by simp
        note c3 = c2 [unfolded rv Inr, simplified]
        show thesis
          by (rule finish_creation [OF assms(1) inv0 body _ reach2 prep(3,1,2) c3])
            (use st1(2) db(2) res(1) refused created in auto)
      qed
    qed
  qed
qed

end



section \<open>The owner-file provider keeps the contract\<close>

definition owner_inv :: "active_kek_ref \<Rightarrow> key_world \<Rightarrow> bool" where
  "owner_inv kek pw \<longleftrightarrow> provider_ok (fst pw) \<and> states_ok (snd pw) \<and> ow_active_kek (fst pw) = kek"

lemma owner_inv_kept: "owner_inv kek (p, w) \<Longrightarrow> kept_or_latched p p' \<Longrightarrow> states_ok w' \<Longrightarrow> owner_inv kek (p', w')"
  by (auto simp: owner_inv_def dest: provider_ok_kept kept_fields)

lemma owner_ready:
  assumes "owner_inv kek (p, w)" and "readiness L pid o1 o2 (p, w) = (r, (p', w'))"
  shows "owner_inv kek (p', w')"
  using readiness_effect(1,3,5) [OF assms(2)] assms(1) by (simp add: owner_inv_def)

lemma owner_prepare:
  assumes "owner_inv kek (p, w)" and "prepare_profile_key L pid o1 o2 draw b (p, w) = (r, (p', w'))"
  shows "owner_inv kek (p', w')" and "r = Inr prep \<Longrightarrow> kp_binding prep = b \<and> length (kp_nonce prep) = 12"
proof -
  have ok: "states_ok w" using assms(1) by (simp add: owner_inv_def)
  have kept: "kept_or_latched p p'" using assms(2) by (cases rule: prepare_effect) simp_all
  show "owner_inv kek (p', w')" by (rule owner_inv_kept [OF assms(1) kept prepare_states(1) [OF assms(2) ok]])
  show "kp_binding prep = b \<and> length (kp_nonce prep) = 12" if r: "r = Inr prep"
    using assms(2)
  proof (cases rule: prepare_effect)
    case (ran pin material res)
    have "kp_binding prep = b" using ran(7) [OF r] by (metis key_preparation.select_convs(1))
    then show ?thesis using ran(7) [OF r] reserve_nonce_effect(3) [OF ran(5) ok] by blast
  qed (use r in simp)
qed

lemma owner_complete:
  assumes "owner_inv kek (p, w)" and "length (kp_nonce prep) = 12"
    and "complete_profile_key L pid o1 o2 draw prep (p, w) = (r, prep', (p', w'))"
  shows "owner_inv kek (p', w')"
    and "r = Inr wk \<Longrightarrow> wrapped_profile_key_ok wk \<and> wk_kek_ref wk = kek \<and> wk_binding wk = kp_binding prep \<and>
      wk_nonce wk = kp_nonce prep \<and> kp_binding prep' = kp_binding prep \<and> kp_nonce prep' = kp_nonce prep"
proof -
  have "w' = w \<and> kept_or_latched p p'" using assms(3) by (cases rule: complete_effect) simp_all
  then show "owner_inv kek (p', w')" using owner_inv_kept [OF assms(1), of p' w'] assms(1) by (simp add: owner_inv_def)
  show "wrapped_profile_key_ok wk \<and> wk_kek_ref wk = kek \<and> wk_binding wk = kp_binding prep \<and>
      wk_nonce wk = kp_nonce prep \<and> kp_binding prep' = kp_binding prep \<and> kp_nonce prep' = kp_nonce prep" if r: "r = Inr wk"
    using assms(3)
  proof (cases rule: complete_effect)
    case (wrapped pin material profile c)
    have "length c = 48" using wrapped(10) by (auto simp: encrypt_profile_key_def key_consts split: option.splits if_splits)
    moreover have "wk = \<lparr>wk_kek_ref = kek, wk_binding = kp_binding prep, wk_nonce = kp_nonce prep, wk_ciphertext = c,
        wk_format_version = WRAPPED_KEY_FORMAT_VERSION, wk_aad_version = WRAPPED_KEY_AAD_VERSION, wk_suite = WRAP_SUITE\<rparr>"
      using wrapped(11) r assms(1) by (simp add: owner_inv_def)
    ultimately show ?thesis using wrapped(6) assms(2) by (simp add: wrapped_profile_key_ok_def key_consts)
  qed (use r in simp)
qed

lemma owner_unwrap:
  assumes "owner_inv kek (p, w)" and "unwrap_profile_key L pid o1 o2 wk b (p, w) = (r, (p', w'))"
  shows "owner_inv kek (p', w')"
proof -
  have "w' = w \<and> kept_or_latched p p'" using assms(2) by (cases rule: unwrap_effect) simp_all
  then show ?thesis using owner_inv_kept [OF assms(1), of p' w'] assms(1) by (simp add: owner_inv_def)
qed

interpretation owner: secret_provider "owner_port L pid" "owner_inv kek" kek for L pid kek
proof (unfold_locales, goal_cases)
  case (1 s e k)
  then show ?case by (auto simp: owner_port_def active_kek_def owner_inv_def split: if_splits)
next
  case (2 s e answer s')
  obtain o1 o2 d p w p' w' where x: "e = (o1, o2, d)" "s = (p, w)" "s' = (p', w')" by (metis prod.exhaust)
  have "readiness L pid o1 o2 (p, w) = (answer, (p', w'))" using 2(2) by (simp add: owner_port_def x)
  then show ?case using owner_ready [OF 2(1) [unfolded x(2)]] x(3) by blast
next
  case (3 s e b prepared s')
  obtain o1 o2 d p w p' w' where x: "e = (o1, o2, d)" "s = (p, w)" "s' = (p', w')" by (metis prod.exhaust)
  have c: "prepare_profile_key L pid o1 o2 d b (p, w) = (prepared, (p', w'))" using 3(2) by (simp add: owner_port_def x)
  show ?case using owner_prepare [OF 3(1) [unfolded x(2)] c] x(3) by blast
next
  case (4 s prep e completed prep' s')
  obtain o1 o2 d p w p' w' where x: "e = (o1, o2, d)" "s = (p, w)" "s' = (p', w')" by (metis prod.exhaust)
  have c: "complete_profile_key L pid o1 o2 d prep (p, w) = (completed, prep', (p', w'))" using 4(3) by (simp add: owner_port_def x)
  show ?case using owner_complete [OF 4(1) [unfolded x(2)] 4(2) c] x(3) by blast
next
  case (5 s e wrapped b handle s')
  obtain o1 o2 d p w p' w' where x: "e = (o1, o2, d)" "s = (p, w)" "s' = (p', w')" by (metis prod.exhaust)
  have "unwrap_profile_key L pid o1 o2 wrapped b (p, w) = (handle, (p', w'))" using 5(2) by (simp add: owner_port_def x)
  then show ?case using owner_unwrap [OF 5(1) [unfolded x(2)]] x(3) by blast
qed


section \<open>Recovery and opening\<close>

lemma recovery_tables:
  assumes "load_snapshot db = Inr sn" and "cs_state sn = K_RECOVERY_REQUIRED" and "tables_step i db db'"
  shows "db' = db"
  using assms(3)
proof cases
  case (begun rid nonce commitment x)
  then have "kt_catalog db = None" by (auto simp: begin_initialization_body_def split: if_splits)
  then show ?thesis using assms(1) not_initialized by simp
next
  case (finished rid s)
  then show ?thesis using assms(1,2) by (simp add: stage_initialization_finish_def)
next
  case (reserved rid b nonce x)
  then show ?thesis using assms(1,2) by (simp add: reserve_body_def assert_active_binding_def)
next
  case (published rid w x)
  then show ?thesis using assms(1,2) by (simp add: publish_body_def assert_active_binding_def)
next
  case (recovered x)
  then show ?thesis using assms(1,2) by (simp add: require_recovery_body_def)
qed simp

lemma recovery_steps:
  assumes "(key_step i)\<^sup>*\<^sup>* st st'" and "load_snapshot (ks_tables st) = Inr sn" and "cs_state sn = K_RECOVERY_REQUIRED"
  shows "ks_tables st' = ks_tables st"
  using assms(1)
proof induction
  case (step st1 st2)
  show ?case using recovery_tables [of "ks_tables st1" sn i "ks_tables st2"] key_step_tables [OF step.hyps(2)] step.IH assms(2,3) by simp
qed simp

lemma recovery_readiness:
  assumes "load_snapshot (ks_tables st) = Inr sn" and "cs_state sn = K_RECOVERY_REQUIRED"
  shows "\<exists>x sts. assert_binding P i e fault b (st, s) = (Inl x, sts)"
proof -
  have "\<exists>x sts. key_service_readiness P i e fault (st, s) = (Inl x, sts)"
    using assms by (cases "ks_mode st = Accepting") (simp_all add: key_service_readiness_def load_catalog_def catalog_read_def)
  then show ?thesis by (auto simp: assert_binding_def)
qed

lemma handler_not_Inr [simp]: "recovery_handler fault st s \<noteq> (Inr v, sts)"
  by (auto simp: recovery_handler_def split: prod.splits sum.splits)

lemma create_steps:
  assumes "create_profile_key P i c b (st, s) = (Inr wk, (st', s'))"
  obtains s1 prep s2 prep' where "port_prepare P (ce_prepare c) b s1 = (Inr prep, s2)"
    and "port_complete P (ce_complete c) prep s2 = (Inr wk, prep', s')"
proof -
  obtain r1 st1 s1 where a: "assert_binding P i (ce_readiness c) (ce_recovery_fault c) b (st, s) = (r1, (st1, s1))" by (metis prod.exhaust)
  obtain r2 s2 where p: "port_prepare P (ce_prepare c) b s1 = (r2, s2)" by (cases "port_prepare P (ce_prepare c) b s1")
  obtain u where u: "r1 = Inr u" using assms a by (cases r1) (auto simp: create_profile_key_def)
  obtain prep where prep: "r2 = Inr prep" using assms a p u by (cases r2) (auto simp: create_profile_key_def)
  obtain r3 st2 where rv: "reserve_profile_preparation (ce_reserve_fault c) (ce_reservation_id c) prep st1 = (r3, st2)" by (metis prod.exhaust)
  obtain rid where rid: "r3 = Inr rid" using assms a p u prep rv by (cases r3) (auto simp: create_profile_key_def)
  obtain r4 prep' s3 where cp: "port_complete P (ce_complete c) prep s2 = (r4, prep', s3)" by (metis prod.exhaust)
  obtain w where w: "r4 = Inr w" using assms a p u prep rv rid cp by (cases r4) (auto simp: create_profile_key_def)
  have "w = wk \<and> s3 = s'" using assms a p u prep rv rid cp w by (auto simp: create_profile_key_def split: prod.splits sum.splits)
  then show thesis using that p prep cp w by blast
qed

lemma prepare_installation:
  assumes "prepare_profile_key L pid o1 o2 draw b (p, w) = (Inr prep, (p', w'))"
  shows "p' = p" and "pb_installation_id b = ow_installation_id p"
proof -
  show "p' = p" using assms by (cases rule: prepare_effect) auto
  show "pb_installation_id b = ow_installation_id p"
    using assms by (cases "pid = ow_pid p") (auto simp: prepare_profile_key_def split: if_splits)
qed

text \<open>What the steps of a creation over the owner-file provider leave for its opening.\<close>

lemma created_by_owner:
  assumes "owner_inv kek pw" and "identity_wf i" and "key_reachable i st"
    and "create_profile_key (owner_port L pid) i c b (st, pw) = (Inr wk, (st', (p, w)))" and "ce_complete c = (o1, o2, draw)"
  obtains prep prep' where "complete_profile_key L pid o1 o2 draw prep (p, w) = (Inr wk, prep', (p, w))" and "kp_binding prep = b"
    and "length (kp_nonce prep) = 12" and "pb_installation_id b = ow_installation_id p" and "pid = ow_pid p" and "ow_active_kek p = kek"
proof -
  obtain s1 prep s2 prep' where st: "port_prepare (owner_port L pid) (ce_prepare c) b s1 = (Inr prep, s2)"
      "port_complete (owner_port L pid) (ce_complete c) prep s2 = (Inr wk, prep', (p, w))"
    using create_steps [OF assms(4)] by blast
  obtain a1 a2 d p1 w1 p2 w2 where x: "ce_prepare c = (a1, a2, d)" "s1 = (p1, w1)" "s2 = (p2, w2)" by (metis prod.exhaust)
  have pr: "prepare_profile_key L pid a1 a2 d b (p1, w1) = (Inr prep, (p2, w2))" using st(1) by (simp add: owner_port_def x)
  have co: "complete_profile_key L pid o1 o2 draw prep (p2, w2) = (Inr wk, prep', (p, w))"
    using st(2) by (simp add: owner_port_def x(3) assms(5))
  from co have same: "p = p2" "w = w2" "pid = ow_pid p" by (cases rule: complete_effect; simp)+
  have "kp_binding prep = b \<and> length (kp_nonce prep) = 12"
    using pr
  proof (cases rule: prepare_effect)
    case (ran pin material res)
    have "kp_binding prep = b" using ran(7) [OF refl] by (metis key_preparation.select_convs(1))
    moreover have "length (kp_nonce prep) = 12" using ran(5) ran(7) [OF refl] by (cases rule: reserve_nonce_cases) auto
    ultimately show ?thesis by simp
  qed simp
  moreover have "owner_inv kek (p, w)" using assms(2,3,1,4) by (cases rule: owner.create_effect) auto
  ultimately show thesis using that [of prep prep'] co same prepare_installation [OF pr] by (simp add: owner_inv_def)
qed


section \<open>A sample service\<close>

lemma sample_stays_ready:
  assumes "w \<in> {sample_process, sample_used}"
  shows "readiness sample_key_lib 1 sample_source sample_source (sample_ready, w) =
     (Inr \<lparr>rd_state = KEY_READY, rd_source_status = SRC_READABLE\<rparr>, (sample_ready, w))"
proof -
  obtain s where w: "pr_wrap_states w = [(sample_digest, s)]" "ws_sentinel_records s = [(replicate 12 0, sample_digest)]"
      "\<not> ws_nonce_reuse_latched s" "ws_limit s = 5" "replicate 12 0 \<notin> set (ws_used_nonces s)" "pr_live_keys w = [(sample_digest, 0)]"
    using assms by (auto simp: sample_process_def sample_used_def sample_domain_def)
  have p: "rs_nonce (ow_readiness_sentinel sample_ready) = replicate 12 0"
      "rs_ciphertext (ow_readiness_sentinel sample_ready) = READINESS_PLAINTEXT @ replicate 16 0"
      "ow_process_wrap_limit sample_ready = 5" "\<not> ow_recovery_latched sample_ready"
    by (simp_all add: sample_ready_def sample_provider_def sample_ready_sentinel_def)
  have com: "sentinel_record_commitment sample_key_lib sample_ready = sample_digest"
    by (simp add: sentinel_record_commitment_def sample_key_lib_def Let_def)
  have dec: "kl_decrypt sample_key_lib m n (READINESS_PLAINTEXT @ replicate 16 0) a = Plaintext READINESS_PLAINTEXT" for m n a
    by (simp add: sample_key_lib_def)
  have "w\<lparr>pr_wrap_states := [(sample_digest, s\<lparr>ws_sentinel_records := [(replicate 12 0, sample_digest)]\<rparr>)]\<rparr> = w"
    using w(1,2) by (cases w, cases s) simp
  then have rec: "record_authenticated_sentinel sample_key_lib sample_digest (sample_ready, w) = (Inr (), (sample_ready, w))"
    unfolding record_authenticated_sentinel_def split_conv com Let_def p(1) using w by simp
  have "readiness_operation sample_key_lib (replicate 32 5) (sample_pin sample_digest) (sample_ready, w) =
      (Inr (sample_pin sample_digest, None), (sample_ready, w))"
    unfolding readiness_operation_def readiness_body_def split_conv Let_def p(1,2) dec
    by (simp add: sample_pin_def rec [simplified])
  from stable_session [where body = "readiness_operation sample_key_lib" and required = "Some (sample_pin sample_digest)",
      OF sample_stable _ this]
  have ses: "material_session sample_key_lib 1 sample_source sample_source (ow_source_pin sample_ready)
      (readiness_operation sample_key_lib) (sample_ready, w) = (Inr (sample_pin sample_digest, None), (sample_ready, w))"
    by (simp add: sample_ready_ok)
  have "w\<lparr>pr_live_keys := [(sample_digest, 0)]\<rparr> = w" using w(6) by (cases w) simp
  then have "activate_key_domain sample_key_lib sample_digest (sample_ready, w) = (Inr (), (sample_ready, w))"
    unfolding activate_key_domain_def split_conv com using w p sample_ready_ok(6) by (simp add: sample_ready_def)
  then have "finish_readiness sample_key_lib (Inr (sample_pin sample_digest, None)) (sample_ready, w) =
      (Inr \<lparr>rd_state = KEY_READY, rd_source_status = SRC_READABLE\<rparr>, (sample_ready, w))"
    by (simp add: finish_readiness_def sample_pin_def sample_ready_def)
  then show ?thesis using ses p(4) by (simp add: readiness_def sample_ready_ok)
qed

definition sample_call :: "(observation \<times> observation \<times> bytes option) call_environment" where
  "sample_call = \<lparr>ce_readiness = (sample_source, sample_source, None), ce_prepare = (sample_source, sample_source, Some (replicate 12 1)),
     ce_complete = (sample_source, sample_source, Some (replicate 32 9)), ce_unwrap = (sample_source, sample_source, None),
     ce_recovery_fault = Commit_Works, ce_reserve_fault = Commit_Works, ce_publish_fault = Commit_Works, ce_reservation_id = sid 8\<rparr>"

definition sample_service_key :: wrapped_profile_key where
  "sample_service_key = \<lparr>wk_kek_ref = sample_kek, wk_binding = sample_profile, wk_nonce = replicate 12 1,
     wk_ciphertext = replicate 32 9 @ replicate 16 0, wk_format_version = 1, wk_aad_version = 1, wk_suite = ''A256GCM''\<rparr>"

lemma sample_owner_inv: "owner_inv sample_kek (sample_ready, sample_process)"
  using sample_ready_ok(2)
  by (simp add: owner_inv_def states_ok_def wrap_ok_def sample_process_def sample_domain_def DEFAULT_PROCESS_WRAP_LIMIT_def)
    (simp add: sample_ready_def sample_provider_def)

lemma sample_accepts:
  "assert_binding (owner_port sample_key_lib 1) sample_identity (sample_source, sample_source, None) fault sample_profile
     (sample_store, (sample_ready, sample_process)) = (Inr (), (sample_store, (sample_ready, sample_process)))"
proof -
  obtain sn where sn: "load_snapshot (ks_tables sample_store) = Inr sn" "cs_state sn = K_ACTIVE" by (rule sample_active)
  then have "load_catalog sample_store = (Inr sn, sample_store)" using sample_fresh(1) by (simp add: load_catalog_def catalog_read_def)
  moreover have "cs_identity sn = sample_identity"
  proof -
    obtain t v where "load_snapshot (ks_tables sample_store) = Inr (loaded sample_identity t v (ks_tables sample_store))"
      using inv_loads [OF sample_ok(1) reachable_inv_of_load [OF sample_ok(1) sample_store_reachable sn(1)]] by blast
    then show ?thesis using sn(1) by simp
  qed
  moreover have "ow_active_kek sample_ready = ci_active_kek sample_identity"
    by (simp add: sample_ready_def sample_provider_def sample_kek_def sample_identity_def)
  ultimately show ?thesis
    using sn(2) sample_stays_ready [of sample_process] sample_ready_ok(4)
    by (simp add: assert_binding_def key_service_readiness_def owner_port_def active_kek_def sample_preparation_fields)
qed

lemma sample_creates:
  obtains st where "create_profile_key (owner_port sample_key_lib 1) sample_identity sample_call sample_profile
    (sample_store, (sample_ready, sample_process)) = (Inr sample_service_key, (st, (sample_ready, sample_used)))"
proof -
  let ?p = "sample_prepared sample_profile"
  obtain sn where sn: "load_snapshot (ks_tables sample_store) = Inr sn" "cs_state sn = K_ACTIVE" by (rule sample_active)
  have f: "kp_binding ?p = sample_profile" "kp_nonce ?p = replicate 12 1" by (simp_all add: sample_prepared_def)
  have w: "wk_binding sample_service_key = sample_profile" "wk_nonce sample_service_key = replicate 12 1"
      "wk_kek_ref sample_service_key = ci_active_kek sample_identity" "wrapped_profile_key_ok sample_service_key"
    using sample_ok(4)
    by (simp_all add: sample_service_key_def sample_kek_def sample_identity_def wrapped_profile_key_ok_def key_consts)
  have fresh: "\<forall>r \<in> set (kt_nonces (ks_tables sample_store)). nr_nonce r \<noteq> replicate 12 1 \<and> nr_reservation_id r \<noteq> uuid_text (sid 8)"
    using sample_fresh(5) by (simp add: sample_store_def active_tables_def sample_sentinel_def)
  obtain st1 st2 where c: "reserve_profile_preparation Commit_Works (sid 8) ?p sample_store = (Inr (sid 8), st1)"
      "publish_profile_key Commit_Works (sid 8) ?p sample_service_key st1 = (Inr (), st2)"
    using creation_completes [OF sample_ok(1) sample_store_reachable sample_fresh(1) sn sample_fresh(2), of ?p "sid 8" sample_service_key]
      sample_fresh(3,4) fresh sample_ok(4) w sample_preparation_fields(6,7) unfolding f by blast
  have "publish_profile_key Commit_Works (sid 8) (?p\<lparr>kp_consumed := True\<rparr>) sample_service_key st1 = (Inr (), st2)"
    using c(2) by (simp add: publish_profile_key_def f w(1,2))
  moreover have "pb_installation_id sample_profile = sid 1" by (simp add: sample_profile_def)
  ultimately have "create_profile_key (owner_port sample_key_lib 1) sample_identity sample_call sample_profile
      (sample_store, (sample_ready, sample_process)) = (Inr sample_service_key, (st2, (sample_ready, sample_used)))"
    using c(1) sample_accepts sample_prepares [of sample_profile] sample_completes [of sample_profile]
    by (simp add: create_profile_key_def sample_call_def owner_port_def sample_service_key_def)
  then show thesis by (rule that)
qed

lemma sample_recovery:
  obtains sn where "load_snapshot (ks_tables (snd (require_recovery Commit_Works sample_store))) = Inr sn" and "cs_state sn = K_RECOVERY_REQUIRED"
proof -
  let ?st = "snd (require_recovery Commit_Works sample_store)"
  obtain sn where sn: "load_snapshot (ks_tables sample_store) = Inr sn" "cs_state sn = K_ACTIVE" by (rule sample_active)
  have inv: "catalog_inv sample_identity (ks_tables sample_store)" by (rule reachable_inv_of_load [OF sample_ok(1) sample_store_reachable sn(1)])
  let ?n = "len (kt_nonces (ks_tables sample_store))"
  obtain c s v where l: "load_snapshot (ks_tables sample_store) = Inr (loaded sample_identity s v (ks_tables sample_store))"
      "kt_catalog (ks_tables sample_store) = Some (current_row sample_identity c s v ?n)" "length c = 32" "1 \<le> v"
    using inv_loads [OF sample_ok(1) inv] by blast
  have s: "s = K_ACTIVE" using l(1) sn by simp
  have row: "(current_row sample_identity c s v ?n)\<lparr>cr_state := ''recovery_required'', cr_revision := v + 1\<rparr> =
      current_row sample_identity c K_RECOVERY_REQUIRED (v + 1) ?n"
    using current_row_sel(7) [where s' = K_RECOVERY_REQUIRED] by simp
  have "catalog_row_ok (current_row sample_identity c K_RECOVERY_REQUIRED (v + 1) ?n)"
    using l(3,4) sample_fresh(2)
    by (intro row_accepted [OF sample_ok(1)]) (simp_all add: sample_store_def active_tables_def)
  then obtain db where db: "require_recovery_body (ks_tables sample_store) = Inr ((), db)"
      "kt_catalog db = Some (current_row sample_identity c K_RECOVERY_REQUIRED (v + 1) ?n)"
    using l(1,2) s by (auto simp: require_recovery_body_def update_catalog_def row [unfolded s])
  have "db \<noteq> ks_tables sample_store" using db(2) l(2) s current_row_state by force
  then have st: "?st = sample_store\<lparr>ks_tables := db\<rparr>"
    using db(1) sample_fresh(1) by (simp add: require_recovery_def catalog_write_def)
  have inv': "catalog_inv sample_identity db" by (rule recover_inv(1) [OF sample_ok(1) inv sn(1) _ db(1)]) (simp add: sn(2))
  obtain c' s' v' where l': "load_snapshot db = Inr (loaded sample_identity s' v' db)"
      "kt_catalog db = Some (current_row sample_identity c' s' v' (len (kt_nonces db)))"
    using inv_loads [OF sample_ok(1) inv'] by blast
  have "s' = K_RECOVERY_REQUIRED" using l'(2) db(2) current_row_state by (metis option.inject)
  then show thesis using that l'(1) st by simp
qed


section \<open>Promises of the service\<close>

text \<open>C34. A key that the service returns from creation is published: it is a well-formed record for the requested binding,
  the binding had no key before, and the catalog loads exactly this key afterwards.\<close>

theorem created_key_is_published:
  assumes "identity_wf i" and "key_reachable i st" and "owner_inv kek pw"
    and "create_profile_key (owner_port L pid) i c b (st, pw) = (Inr w, (st', pw'))"
  shows "load_profile_key b st' = (Inr (Some w), st') \<and> wk_binding w = b \<and> profile_row b (ks_tables st) = None \<and>
    key_reachable i st' \<and> owner_inv kek pw'"
  using assms by (cases rule: owner.create_effect) auto

theorem created_key_is_published_witness:
  "\<exists>st. load_profile_key sample_profile st = (Inr (Some sample_service_key), st) \<and> key_reachable sample_identity st"
proof -
  obtain st where "create_profile_key (owner_port sample_key_lib 1) sample_identity sample_call sample_profile
    (sample_store, (sample_ready, sample_process)) = (Inr sample_service_key, (st, (sample_ready, sample_used)))" by (rule sample_creates)
  from created_key_is_published [OF sample_ok(1) sample_store_reachable sample_owner_inv this] show ?thesis by blast
qed

text \<open>C35. A creation that fails publishes nothing: unless the caller is told that the outcome of a commit is unknown, the
  published keys are the ones from before the call.\<close>

theorem failed_creation_publishes_nothing:
  assumes "identity_wf i" and "key_reachable i st" and "owner_inv kek pw"
    and "create_profile_key (owner_port L pid) i c b (st, pw) = (Inl x, (st', pw'))"
    and "x \<noteq> catalog_failed KF_COMMIT_OUTCOME_UNKNOWN"
  shows "kt_wrapped (ks_tables st') = kt_wrapped (ks_tables st) \<and> key_reachable i st'"
  using assms(1-4) by (cases rule: owner.create_effect) (use assms(5) in auto)

theorem failed_creation_publishes_nothing_witness:
  "\<exists>st' pw'. create_profile_key (owner_port sample_key_lib 1) sample_identity sample_call
       (sample_profile\<lparr>pb_installation_id := sid 9\<rparr>) (sample_store, (sample_ready, sample_process)) =
       (Inl (catalog_failed KF_IDENTITY_MISMATCH), (st', pw')) \<and>
     kt_wrapped (ks_tables st') = kt_wrapped (ks_tables sample_store)"
proof -
  let ?b = "sample_profile\<lparr>pb_installation_id := sid 9\<rparr>"
  have "sid 9 \<noteq> sid 1" by (simp add: sid_inject)
  then have "create_profile_key (owner_port sample_key_lib 1) sample_identity sample_call ?b (sample_store, (sample_ready, sample_process)) =
      (Inl (catalog_failed KF_IDENTITY_MISMATCH), (sample_store, (sample_ready, sample_process)))"
    using sample_accepts [of Commit_Works] 
    by (auto simp: create_profile_key_def sample_call_def assert_binding_def sample_identity_def split: prod.splits sum.splits if_splits)
  from failed_creation_publishes_nothing [OF sample_ok(1) sample_store_reachable sample_owner_inv this] this show ?thesis by simp
qed

text \<open>A catalog that requires recovery serves no key: from then on no call changes its tables, and every creation and
  every opening is refused, whatever the provider behind the port answers.\<close>

theorem recovery_is_final:
  assumes "load_snapshot (ks_tables st) = Inr sn" and "cs_state sn = K_RECOVERY_REQUIRED" and "(key_step i)\<^sup>*\<^sup>* st st'"
  shows "ks_tables st' = ks_tables st \<and> (\<exists>x. fst (create_profile_key P i c b (st', s)) = Inl x) \<and>
    (\<exists>x. fst (open_profile_key P i c b (st', s)) = Inl x)"
proof -
  have same: "ks_tables st' = ks_tables st" by (rule recovery_steps [OF assms(3,1,2)])
  then have "\<exists>x sts. assert_binding P i (ce_readiness c) (ce_recovery_fault c) b (st', s) = (Inl x, sts)"
    using recovery_readiness [of st' sn] assms(1,2) by simp
  then show ?thesis using same by (auto simp: create_profile_key_def open_profile_key_def)
qed

theorem recovery_is_final_witness:
  "\<exists>x. fst (create_profile_key (owner_port sample_key_lib 1) sample_identity sample_call sample_profile
        (snd (require_recovery Commit_Works sample_store), (sample_ready, sample_process))) = Inl x"
proof -
  obtain sn where "load_snapshot (ks_tables (snd (require_recovery Commit_Works sample_store))) = Inr sn" "cs_state sn = K_RECOVERY_REQUIRED"
    by (rule sample_recovery)
  from recovery_is_final [OF this rtranclp.rtrancl_refl, of "owner_port sample_key_lib 1" sample_identity sample_call sample_profile "(sample_ready, sample_process)"]
  show ?thesis by blast
qed

text \<open>C36. A created key opens: after the service created a key over the owner-file provider, and while the provider is
  ready and its source stays the same, opening the binding gives a handle on exactly the key material that was drawn for
  it, and changes nothing.\<close>

theorem created_key_opens:
  assumes "key_lib_ok L" and "identity_wf i" and "key_reachable i st" and "owner_inv kek pw"
    and "create_profile_key (owner_port L pid) i c b (st, pw) = (Inr wk, (st', (p, w)))" and "ce_complete c = (o1, o2, Some dek)"
    and "opened L pid o1 p = Inr (material, pin)" and "ce_readiness c' = (r1, r2, d1)" and "ce_unwrap c' = (u1, u2, d2)"
    and "readiness L pid r1 r2 (p, w) = (Inr answer, (p, w))" and "rd_state answer = KEY_READY"
    and "stable_source L pid u1 u2 p material pin"
  shows "\<exists>h. open_profile_key (owner_port L pid) i c' b (st', (p, w)) = (Inr h, (st', (p, w))) \<and> dh_material h = dek"
proof -
  obtain prep prep' where co: "complete_profile_key L pid o1 o2 (Some dek) prep (p, w) = (Inr wk, prep', (p, w))" "kp_binding prep = b"
      "length (kp_nonce prep) = 12" "pb_installation_id b = ow_installation_id p" "pid = ow_pid p" "ow_active_kek p = kek"
    by (rule created_by_owner [OF assms(4,2,3,5,6)])
  have made: "load_profile_key b st' = (Inr (Some wk), st')" "key_reachable i st'"
    using assms(2-5) by (cases rule: owner.create_effect; simp)+
  note l = load_profile_Inr [OF made(1)]
  have inv: "catalog_inv i (ks_tables st')" by (rule load_needs_catalog [OF assms(2) made(2) l(3)])
  note f = load_profile_body_Inr [OF assms(2) inv l(3)]
  obtain s v where snap: "load_snapshot (ks_tables st') = Inr (loaded i s v (ks_tables st'))" using inv_loads [OF assms(2) inv] by blast
  have s: "s = K_ACTIVE" using l(3) by (auto simp: load_profile_body_def snap assert_active_binding_def split: if_splits)
  from co(1) show ?thesis
  proof (cases rule: complete_effect)
    case (wrapped pin' material' profile x)
    have same: "material' = material" "pin' = pin" using wrapped(8) assms(7) by auto
    have m: "length material = 32" using opened_material [OF assms(7)] by simp
    have wk: "wk_nonce wk = kp_nonce prep" "wk_ciphertext wk = x" "wk_kek_ref wk = ow_active_kek p" "wk_binding wk = b"
      using wrapped(11) co(2) by simp_all
    note d = decrypt_encrypt [OF assms(1) m co(3) wrapped(9) wrapped(10) [unfolded same] wk(1,2), of "(p, w)"]
    have "unwrap_profile_key L pid u1 u2 wk b (p, w) =
        (Inr \<lparr>dh_material = profile, dh_pid = pid, dh_active = False, dh_closed = False, dh_used = False\<rparr>, (p, w))"
      by (rule unwrap_succeeds [OF complete_ready [OF co(1)] assms(12) co(5) wk(3,4) co(4)]) (use d(1) wrapped(7) same co(2) in simp_all)
    moreover have "kek = ci_active_kek i" using f(4) [OF refl] wk(3) co(6) by (auto simp: key_of_rows_def)
    moreover have "load_catalog st' = (Inr (loaded i s v (ks_tables st')), st')" using l(2) snap by (simp add: load_catalog_def catalog_read_def)
    ultimately have "open_profile_key (owner_port L pid) i c' b (st', (p, w)) =
        (Inr \<lparr>dh_material = profile, dh_pid = pid, dh_active = False, dh_closed = False, dh_used = False\<rparr>, (st', (p, w)))"
      using assms(8-11) f(1,2) s co(5,6) made(1)
      by (simp add: open_profile_key_def assert_binding_def key_service_readiness_def owner_port_def active_kek_def)
    then show ?thesis using d(2) by simp
  qed simp
qed

theorem created_key_opens_witness:
  "\<exists>st h. open_profile_key (owner_port sample_key_lib 1) sample_identity sample_call sample_profile (st, (sample_ready, sample_used)) =
     (Inr h, (st, (sample_ready, sample_used))) \<and> dh_material h = replicate 32 9"
proof -
  obtain st where made: "create_profile_key (owner_port sample_key_lib 1) sample_identity sample_call sample_profile
    (sample_store, (sample_ready, sample_process)) = (Inr sample_service_key, (st, (sample_ready, sample_used)))" by (rule sample_creates)
  have s: "stable_source sample_key_lib 1 sample_source sample_source sample_ready (replicate 32 5) (sample_pin sample_digest)"
    by (rule sample_stable) simp
  then have o: "opened sample_key_lib 1 sample_source sample_ready = Inr (replicate 32 5, sample_pin sample_digest)"
    by (simp add: stable_source_def)
  have rd: "readiness sample_key_lib 1 sample_source sample_source (sample_ready, sample_used) =
     (Inr \<lparr>rd_state = KEY_READY, rd_source_status = SRC_READABLE\<rparr>, (sample_ready, sample_used))"
    by (rule sample_stays_ready) simp
  from created_key_opens [OF sample_key_lib_ok sample_ok(1) sample_store_reachable sample_owner_inv made _ o _ _ rd _ s, of sample_source
      "replicate 32 9" sample_call None None]
  show ?thesis by (auto simp: sample_call_def)
qed

end
